(* ===== verification/Sensor_Prelude.thy ===== *)
theory Sensor_Prelude
  imports Complex_Main "HOL-Library.Word"
begin

section \<open>Prelude: machine types, results, byte strings, text\<close>

text \<open>
  What every component of the SENSOR workspace shares: the widths of Rust's integers, the
  \<open>Result\<close> type as a sum (\<open>Inl\<close> the error) with Rust's \<open>?\<close> as \<open>res_bind\<close>, big-endian byte
  encodings (\<open>to_be_bytes\<close>, \<open>from_be_bytes\<close>), Rust strings as lists of Unicode scalar values
  with their UTF-8 length, and the number parsers of the standard library. The generic lemmas
  are declared \<open>[simp]\<close> or collected in \<open>res_simps\<close>, so that the component proofs
  are case distinctions.
\<close>

type_synonym u8 = "8 word"
type_synonym u16 = "16 word"
type_synonym u32 = "32 word"
type_synonym u64 = "64 word"
type_synonym bytes = "8 word list"

subsection \<open>Result and the question mark operator\<close>

named_theorems res_simps

definition res_bind :: "'e + 'a \<Rightarrow> ('a \<Rightarrow> 'e + 'b) \<Rightarrow> 'e + 'b" where
  "res_bind m f = (case m of Inl e \<Rightarrow> Inl e | Inr a \<Rightarrow> f a)"

definition ensure :: "bool \<Rightarrow> 'e \<Rightarrow> 'e + unit" where
  "ensure b e = (if b then Inr () else Inl e)"

definition map_err :: "('e \<Rightarrow> 'f) \<Rightarrow> 'e + 'a \<Rightarrow> 'f + 'a" where
  "map_err f m = (case m of Inl e \<Rightarrow> Inl (f e) | Inr a \<Rightarrow> Inr a)"

definition ok_or :: "'a option \<Rightarrow> 'e \<Rightarrow> 'e + 'a" where
  "ok_or m e = (case m of None \<Rightarrow> Inl e | Some a \<Rightarrow> Inr a)"

definition is_ok :: "'e + 'a \<Rightarrow> bool" where
  "is_ok m = (case m of Inl _ \<Rightarrow> False | Inr _ \<Rightarrow> True)"

lemma res_bind_simps [simp]:
  "res_bind (Inl e) f = Inl e"
  "res_bind (Inr a) f = f a"
  by (simp_all add: res_bind_def)

lemma map_err_simps [simp]:
  "map_err g (Inl e) = Inl (g e)"
  "map_err g (Inr a) = Inr a"
  by (simp_all add: map_err_def)

lemma is_ok_simps [simp]:
  "is_ok (Inl e) = False"
  "is_ok (Inr a) = True"
  by (simp_all add: is_ok_def)

lemma ok_or_simps [simp]:
  "ok_or None e = Inl e"
  "ok_or (Some a) e = Inr a"
  by (simp_all add: ok_or_def)

lemma ensure_simps [simp]:
  "ensure True e = Inr ()"
  "ensure False e = Inl e"
  by (simp_all add: ensure_def)

lemma ensure_Inr_iff [res_simps]: "ensure b e = Inr u \<longleftrightarrow> b"
  by (simp add: ensure_def)

lemma ensure_Inl_iff [res_simps]: "ensure b e = Inl e' \<longleftrightarrow> \<not> b \<and> e' = e"
  by (auto simp add: ensure_def)

lemma res_bind_Inr_iff [res_simps]:
  "res_bind m f = Inr y \<longleftrightarrow> (\<exists>x. m = Inr x \<and> f x = Inr y)"
  by (cases m) auto

lemma res_bind_Inl_iff [res_simps]:
  "res_bind m f = Inl e \<longleftrightarrow> m = Inl e \<or> (\<exists>x. m = Inr x \<and> f x = Inl e)"
  by (cases m) auto

lemma map_err_Inr_iff [res_simps]: "map_err g m = Inr y \<longleftrightarrow> m = Inr y"
  by (cases m) auto

lemma map_err_Inl_iff [res_simps]: "map_err g m = Inl e \<longleftrightarrow> (\<exists>e'. m = Inl e' \<and> e = g e')"
  by (cases m) auto

lemma ok_or_Inr_iff [res_simps]: "ok_or m e = Inr y \<longleftrightarrow> m = Some y"
  by (cases m) auto

lemma ok_or_Inl_iff [res_simps]: "ok_or m e = Inl e' \<longleftrightarrow> m = None \<and> e' = e"
  by (cases m) auto

lemma is_ok_iff [res_simps]: "is_ok m \<longleftrightarrow> (\<exists>y. m = Inr y)"
  by (cases m) auto

lemma res_bind_cong [fundef_cong]:
  assumes "m = m'" and "\<And>x. m' = Inr x \<Longrightarrow> f x = g x"
  shows "res_bind m f = res_bind m' g"
  using assms by (cases m') auto

subsection \<open>Running a fallible operation over a list\<close>

text \<open>\<open>run_ok f s xs\<close> applies a stateful operation to each element and is \<open>None\<close> as soon as one fails.\<close>

fun run_ok :: "('s \<Rightarrow> 'a \<Rightarrow> ('e + 'b) \<times> 's) \<Rightarrow> 's \<Rightarrow> 'a list \<Rightarrow> ('b list \<times> 's) option" where
  "run_ok f s [] = Some ([], s)"
| "run_ok f s (a # as) =
     (case f s a of
        (Inl _, _) \<Rightarrow> None
      | (Inr b, s') \<Rightarrow> map_option (\<lambda>(bs, t). (b # bs, t)) (run_ok f s' as))"

lemma run_ok_Cons_iff:
  "run_ok f s (a # as) = Some (bs, t) \<longleftrightarrow>
     (\<exists>b s' bs'. f s a = (Inr b, s') \<and> run_ok f s' as = Some (bs', t) \<and> bs = b # bs')"
  by (auto split: prod.splits sum.splits)

lemma run_ok_length: "run_ok f s as = Some (bs, t) \<Longrightarrow> length bs = length as"
  by (induction as arbitrary: s bs) (auto split: prod.splits sum.splits)

subsection \<open>Errors of the operating system\<close>

text \<open>The kinds of \<open>std::io::Error\<close> the program tells apart; \<open>IO_Other\<close> carries any other one.\<close>

datatype io_error =
    IO_TimedOut | IO_UnexpectedEof | IO_WriteZero | IO_InvalidData | IO_AlreadyExists | IO_NotFound
  | IO_WouldBlock | IO_Interrupted | IO_InvalidInput | IO_Other nat

subsection \<open>Saturating and checked arithmetic\<close>

definition clamp_nat :: "nat \<Rightarrow> nat \<Rightarrow> nat \<Rightarrow> nat" where
  "clamp_nat lo hi x = (if x < lo then lo else if hi < x then hi else x)"

definition clamp_int :: "int \<Rightarrow> int \<Rightarrow> int \<Rightarrow> int" where
  "clamp_int lo hi x = (if x < lo then lo else if hi < x then hi else x)"

definition u64_max :: nat where
  "u64_max = 18446744073709551615"

definition sat_add64 :: "nat \<Rightarrow> nat \<Rightarrow> nat" where
  "sat_add64 a b = min (a + b) u64_max"

definition checked_add64 :: "nat \<Rightarrow> nat \<Rightarrow> nat option" where
  "checked_add64 a b = (if a + b \<le> u64_max then Some (a + b) else None)"

lemma clamp_nat_bounds: "lo \<le> hi \<Longrightarrow> lo \<le> clamp_nat lo hi x \<and> clamp_nat lo hi x \<le> hi"
  by (auto simp: clamp_nat_def)

lemma clamp_int_bounds: "lo \<le> hi \<Longrightarrow> lo \<le> clamp_int lo hi x \<and> clamp_int lo hi x \<le> hi"
  by (auto simp: clamp_int_def)

lemma clamp_int_id: "lo \<le> x \<Longrightarrow> x \<le> hi \<Longrightarrow> clamp_int lo hi x = x"
  by (auto simp: clamp_int_def)

lemma checked_add64_Some_iff: "checked_add64 a b = Some c \<longleftrightarrow> c = a + b \<and> a + b \<le> u64_max"
  by (auto simp: checked_add64_def)

lemma unat_succ: "(x :: 'a :: len word) \<noteq> - 1 \<Longrightarrow> unat (x + 1) = unat x + 1"
  using unatSuc [of x] by (metis add.commute add_eq_0_iff2 add.inverse_inverse Suc_eq_plus1)

subsection \<open>Big-endian byte strings\<close>

fun be_bytes :: "nat \<Rightarrow> nat \<Rightarrow> bytes" where
  "be_bytes 0 x = []"
| "be_bytes (Suc n) x = be_bytes n (x div 256) @ [word_of_nat (x mod 256)]"

definition from_be :: "bytes \<Rightarrow> nat" where
  "from_be bs = foldl (\<lambda>a b. a * 256 + unat b) 0 bs"

lemma length_be_bytes [simp]: "length (be_bytes n x) = n"
  by (induction n arbitrary: x) auto

lemma be_bytes_Nil_iff [simp]: "be_bytes n x = [] \<longleftrightarrow> n = 0"
  by (metis length_0_conv length_be_bytes)

lemma be_bytes_numeral:
  "be_bytes (numeral k) x = be_bytes (pred_numeral k) (x div 256) @ [word_of_nat (x mod 256)]"
  unfolding numeral_eq_Suc [of k] by (rule be_bytes.simps(2))

lemma from_be_Nil [simp]: "from_be [] = 0"
  by (simp add: from_be_def)

lemma from_be_snoc [simp]: "from_be (bs @ [b]) = from_be bs * 256 + unat b"
  by (simp add: from_be_def)

lemma unat_byte_of_mod [simp]: "unat (word_of_nat (x mod 256) :: 8 word) = x mod 256"
  by (simp add: unat_of_nat take_bit_eq_mod)

lemma unat_byte_less [simp]: "unat (b :: 8 word) < 256"
  using unsigned_less [of b] by simp

lemma from_be_be_bytes: "x < 256 ^ n \<Longrightarrow> from_be (be_bytes n x) = x"
proof (induction n arbitrary: x)
  case 0
  then show ?case by simp
next
  case (Suc n)
  then have "x div 256 < 256 ^ n"
    by (simp add: less_mult_imp_div_less mult.commute)
  then show ?case
    using Suc.IH by (simp add: mult.commute)
qed

lemma from_be_less: "from_be bs < 256 ^ length bs"
proof (induction bs rule: rev_induct)
  case Nil
  then show ?case by simp
next
  case (snoc b bs)
  have "from_be bs * 256 + unat b < (from_be bs + 1) * 256"
    by simp
  also have "\<dots> \<le> 256 ^ length bs * 256"
    using snoc.IH by (intro mult_right_mono) auto
  finally show ?case by simp
qed

lemma be_bytes_from_be: "be_bytes (length bs) (from_be bs) = bs"
proof (induction bs rule: rev_induct)
  case Nil
  then show ?case by simp
next
  case (snoc b bs)
  have "word_of_nat (unat b mod 256) = b"
    by simp
  then show ?case
    using snoc.IH by (simp add: div_add1_eq)
qed

lemma be_bytes_inj:
  assumes "be_bytes n x = be_bytes n y" and "x < 256 ^ n" and "y < 256 ^ n"
  shows "x = y"
  using assms by (metis from_be_be_bytes)

lemma take_be_bytes [simp]: "take n (be_bytes n x @ ys) = be_bytes n x"
  by simp

lemma drop_be_bytes [simp]: "drop n (be_bytes n x @ ys) = ys"
  by simp

subsection \<open>Text: Unicode scalar values and UTF-8\<close>

text \<open>
  A Rust \<open>String\<close> is modelled by its \<open>chars()\<close>: a list of scalar values. \<open>len()\<close> is the
  number of UTF-8 bytes and \<open>as_bytes()\<close> the UTF-8 encoding.
\<close>

type_synonym rstr = "nat list"

definition lit :: "string \<Rightarrow> rstr" where
  "lit s = map of_char s"

definition utf8_char :: "nat \<Rightarrow> nat list" where
  "utf8_char c =
     (if c < 128 then [c]
      else if c < 2048 then [192 + c div 64, 128 + c mod 64]
      else if c < 65536 then [224 + c div 4096, 128 + c div 64 mod 64, 128 + c mod 64]
      else [240 + c div 262144, 128 + c div 4096 mod 64, 128 + c div 64 mod 64, 128 + c mod 64])"

definition as_bytes :: "rstr \<Rightarrow> bytes" where
  "as_bytes s = concat (map (\<lambda>c. map word_of_nat (utf8_char c)) s)"

definition str_len :: "rstr \<Rightarrow> nat" where
  "str_len s = length (as_bytes s)"

definition ascii_bytes :: "string \<Rightarrow> bytes" where
  "ascii_bytes s = map (\<lambda>c. word_of_nat (of_char c)) s"

text \<open>\<open>char::is_control\<close> (category Cc) and \<open>char::is_whitespace\<close> (White\_Space).\<close>

definition is_control :: "nat \<Rightarrow> bool" where
  "is_control c \<longleftrightarrow> c < 32 \<or> (127 \<le> c \<and> c < 160)"

definition is_whitespace :: "nat \<Rightarrow> bool" where
  "is_whitespace c \<longleftrightarrow>
     (9 \<le> c \<and> c \<le> 13) \<or> c = 32 \<or> c = 133 \<or> c = 160 \<or> c = 5760 \<or>
     (8192 \<le> c \<and> c \<le> 8202) \<or> c = 8232 \<or> c = 8233 \<or> c = 8239 \<or> c = 8287 \<or> c = 12288"

definition str_trim :: "rstr \<Rightarrow> rstr" where
  "str_trim s = rev (dropWhile is_whitespace (rev (dropWhile is_whitespace s)))"

definition is_ascii :: "rstr \<Rightarrow> bool" where
  "is_ascii s \<longleftrightarrow> list_all (\<lambda>c. c < 128) s"

lemma utf8_char_ascii [simp]: "c < 128 \<Longrightarrow> utf8_char c = [c]"
  by (simp add: utf8_char_def)

lemma utf8_char_pos: "0 < length (utf8_char c)"
  by (simp add: utf8_char_def)

lemma utf8_char_le4: "length (utf8_char c) \<le> 4"
  by (simp add: utf8_char_def)

lemma as_bytes_Nil [simp]: "as_bytes [] = []"
  by (simp add: as_bytes_def)

lemma as_bytes_Cons: "as_bytes (c # s) = map word_of_nat (utf8_char c) @ as_bytes s"
  by (simp add: as_bytes_def)

lemma as_bytes_append [simp]: "as_bytes (s @ t) = as_bytes s @ as_bytes t"
  by (simp add: as_bytes_def)

lemma str_len_Nil [simp]: "str_len [] = 0"
  by (simp add: str_len_def)

lemma str_len_Cons: "str_len (c # s) = length (utf8_char c) + str_len s"
  by (simp add: str_len_def as_bytes_Cons)

lemma str_len_append [simp]: "str_len (s @ t) = str_len s + str_len t"
  by (simp add: str_len_def)

lemma as_bytes_ascii: "is_ascii s \<Longrightarrow> as_bytes s = map word_of_nat s"
  by (induction s) (auto simp: is_ascii_def as_bytes_Cons)

lemma str_len_ascii: "is_ascii s \<Longrightarrow> str_len s = length s"
  by (simp add: str_len_def as_bytes_ascii)

lemma length_le_str_len: "length s \<le> str_len s"
proof (induction s)
  case (Cons c s)
  then show ?case
    using utf8_char_pos [of c] by (simp add: str_len_Cons del: length_greater_0_conv)
qed simp

lemma str_len_eq_0_iff [simp]: "str_len s = 0 \<longleftrightarrow> s = []"
  using length_le_str_len [of s] by auto

lemma str_trim_no_ws: "list_all (\<lambda>c. \<not> is_whitespace c) s \<Longrightarrow> str_trim s = s"
proof -
  have drop: "list_all (\<lambda>c. \<not> is_whitespace c) xs \<Longrightarrow> dropWhile is_whitespace xs = xs" for xs
    by (cases xs) auto
  assume "list_all (\<lambda>c. \<not> is_whitespace c) s"
  then show ?thesis
    by (simp add: str_trim_def drop list_all_rev)
qed

subsection \<open>Hexadecimal digits and number parsing\<close>

definition hex_char :: "nat \<Rightarrow> nat" where
  "hex_char n = (if n < 10 then 48 + n else 87 + n)"

definition hex_of_bytes :: "bytes \<Rightarrow> rstr" where
  "hex_of_bytes bs = concat (map (\<lambda>b. [hex_char (unat b div 16), hex_char (unat b mod 16)]) bs)"

definition hex_val :: "nat \<Rightarrow> nat option" where
  "hex_val c =
     (if 48 \<le> c \<and> c \<le> 57 then Some (c - 48)
      else if 65 \<le> c \<and> c \<le> 70 then Some (c - 55)
      else if 97 \<le> c \<and> c \<le> 102 then Some (c - 87)
      else None)"

definition dec_val :: "nat \<Rightarrow> nat option" where
  "dec_val c = (if 48 \<le> c \<and> c \<le> 57 then Some (c - 48) else None)"

definition is_hexdigit :: "nat \<Rightarrow> bool" where
  "is_hexdigit c \<longleftrightarrow> hex_val c \<noteq> None"

fun digits_value :: "(nat \<Rightarrow> nat option) \<Rightarrow> nat \<Rightarrow> nat \<Rightarrow> rstr \<Rightarrow> nat option" where
  "digits_value dig base acc [] = Some acc"
| "digits_value dig base acc (c # cs) =
     (case dig c of None \<Rightarrow> None | Some d \<Rightarrow> digits_value dig base (acc * base + d) cs)"

text \<open>
  \<open>from_str_radix\<close> of an unsigned type: an optional leading plus sign, then at least one digit
  (a lone sign is refused), and the value must fit the type. So \<open>"+a"\<close> is a valid two-character
  hexadecimal byte for the standard library.
\<close>

definition from_radix :: "(nat \<Rightarrow> nat option) \<Rightarrow> nat \<Rightarrow> nat \<Rightarrow> rstr \<Rightarrow> nat option" where
  "from_radix dig base limit s =
     (let body = (case s of [] \<Rightarrow> [] | c # cs \<Rightarrow> if c = 43 \<and> cs \<noteq> [] then cs else s)
      in if body = [] then None
         else case digits_value dig base 0 body of
             None \<Rightarrow> None
           | Some v \<Rightarrow> if v < limit then Some v else None)"

definition parse_u32 :: "rstr \<Rightarrow> nat option" where
  "parse_u32 s = from_radix dec_val 10 (2 ^ 32) s"

definition hex_byte :: "rstr \<Rightarrow> nat option" where
  "hex_byte s = from_radix hex_val 16 256 s"

lemma parse_u32_less: "parse_u32 s = Some v \<Longrightarrow> v < 2 ^ 32"
  by (auto simp: parse_u32_def from_radix_def Let_def split: option.splits if_splits list.splits)

lemma hex_char_range: "n < 16 \<Longrightarrow> (48 \<le> hex_char n \<and> hex_char n \<le> 57) \<or> (97 \<le> hex_char n \<and> hex_char n \<le> 102)"
  by (auto simp: hex_char_def)

lemma hex_val_char [simp]: "n < 16 \<Longrightarrow> hex_val (hex_char n) = Some n"
  by (auto simp: hex_char_def hex_val_def)

lemma hex_char_not_plus: "n < 16 \<Longrightarrow> hex_char n \<noteq> 43"
  by (auto simp: hex_char_def)

lemma hex_char_ascii: "n < 16 \<Longrightarrow> hex_char n < 128"
  by (auto simp: hex_char_def)

lemma hex_char_not_ws: "n < 16 \<Longrightarrow> \<not> is_whitespace (hex_char n)"
  using hex_char_range [of n] by (auto simp: is_whitespace_def)

lemma hex_byte_pair:
  "hi < 16 \<Longrightarrow> lo < 16 \<Longrightarrow> hex_byte [hex_char hi, hex_char lo] = Some (hi * 16 + lo)"
  by (auto simp: hex_byte_def from_radix_def hex_char_not_plus)

lemma byte_hi [simp]: "unat (b :: 8 word) div 16 < 16"
  using unat_byte_less [of b] by (simp add: less_mult_imp_div_less)

lemma byte_lo [simp]: "unat (b :: 8 word) mod 16 < 16"
  by simp

lemma hex_byte_of_byte:
  "hex_byte [hex_char (unat b div 16), hex_char (unat (b :: 8 word) mod 16)] = Some (unat b)"
  by (simp add: hex_byte_pair)

lemma hex_of_bytes_Nil [simp]: "hex_of_bytes [] = []"
  by (simp add: hex_of_bytes_def)

lemma hex_of_bytes_Cons:
  "hex_of_bytes (b # bs) = hex_char (unat b div 16) # hex_char (unat b mod 16) # hex_of_bytes bs"
  by (simp add: hex_of_bytes_def)

lemma length_hex_of_bytes [simp]: "length (hex_of_bytes bs) = 2 * length bs"
  by (induction bs) (auto simp: hex_of_bytes_Cons)

lemma hex_of_bytes_set:
  "c \<in> set (hex_of_bytes bs) \<Longrightarrow> \<exists>n < 16. c = hex_char n"
proof (induction bs)
  case (Cons b bs)
  then show ?case
    by (auto simp: hex_of_bytes_Cons) (metis byte_hi, metis byte_lo)
qed simp

lemma hex_of_bytes_ascii [simp]: "is_ascii (hex_of_bytes bs)"
  by (auto simp: is_ascii_def list_all_iff dest!: hex_of_bytes_set intro: hex_char_ascii)

lemma hex_of_bytes_trim [simp]: "str_trim (hex_of_bytes bs) = hex_of_bytes bs"
  by (rule str_trim_no_ws) (auto simp: list_all_iff dest!: hex_of_bytes_set dest: hex_char_not_ws)

lemma str_len_hex_of_bytes [simp]: "str_len (hex_of_bytes bs) = 2 * length bs"
  by (simp add: str_len_ascii)

lemma hex_of_bytes_hexdigits: "list_all is_hexdigit (hex_of_bytes bs)"
  by (auto simp: list_all_iff is_hexdigit_def dest!: hex_of_bytes_set)

text \<open>Reading a string two characters at a time, as the \<open>[index * 2..index * 2 + 2]\<close> slices do.\<close>

fun hex_pairs :: "rstr \<Rightarrow> bytes option" where
  "hex_pairs [] = Some []"
| "hex_pairs [c] = None"
| "hex_pairs (c # d # cs) =
     (case hex_byte [c, d] of
        None \<Rightarrow> None
      | Some v \<Rightarrow> (case hex_pairs cs of None \<Rightarrow> None | Some bs \<Rightarrow> Some (word_of_nat v # bs)))"

lemma hex_pairs_hex_of_bytes [simp]: "hex_pairs (hex_of_bytes bs) = Some bs"
  by (induction bs) (auto simp: hex_of_bytes_Cons hex_byte_of_byte)

lemma hex_of_bytes_inj: "hex_of_bytes bs = hex_of_bytes cs \<Longrightarrow> bs = cs"
  by (metis hex_pairs_hex_of_bytes option.inject)

lemma hex_pairs_length: "hex_pairs s = Some bs \<Longrightarrow> length s = 2 * length bs"
  by (induction s arbitrary: bs rule: hex_pairs.induct) (auto split: option.splits)

subsection \<open>Splitting\<close>

fun split_on :: "nat \<Rightarrow> rstr \<Rightarrow> rstr list" where
  "split_on d [] = [[]]"
| "split_on d (c # cs) =
     (if c = d then [] # split_on d cs
      else case split_on d cs of [] \<Rightarrow> [[c]] | p # ps \<Rightarrow> (c # p) # ps)"

lemma split_on_not_Nil [simp]: "split_on d s \<noteq> []"
  by (induction s) (auto split: list.splits)

end
