(* ===== verification/Sensor_Core.thy ===== *)
theory Sensor_Core
  imports Sensor_Prelude
begin

section \<open>sensor-core: device identifiers and aliases\<close>

text \<open>
  \<open>DeviceId\<close> (a nine-digit identifier with a private field), its generation by rejection
  sampling, its grouped display form, and \<open>DeviceAlias\<close>. The random generator is a parameter:
  a function from its state to the next word and state. The lemmas show that every constructed
  identifier is in range, that generation returns as soon as one draw is accepted, that the
  accepted draws are spread evenly, and that the display form parses back.
\<close>

subsection \<open>The identifier\<close>

(* @src crates/sensor-core/src/lib.rs:12-13 MIN_DEVICE_ID, DEVICE_ID_SPAN *)
definition MIN_DEVICE_ID :: u32 where
  "MIN_DEVICE_ID = 100000000"

(* @src crates/sensor-core/src/lib.rs:12-13 MIN_DEVICE_ID, DEVICE_ID_SPAN *)
definition DEVICE_ID_SPAN :: u32 where
  "DEVICE_ID_SPAN = 900000000"

(* @src crates/sensor-core/src/lib.rs:15-18 DeviceId *)
datatype device_id = DeviceId u32

(* @src crates/sensor-core/src/lib.rs:96-102 CoreError *)
datatype core_error = InvalidDeviceId u32 | InvalidAlias

(* @src crates/sensor-core/src/lib.rs:20-27 DeviceId::new *)
definition device_id_new :: "u32 \<Rightarrow> device_id option" where
  "device_id_new value =
     (if MIN_DEVICE_ID \<le> value \<and> value < MIN_DEVICE_ID + DEVICE_ID_SPAN
      then Some (DeviceId value) else None)"

(* @src crates/sensor-core/src/lib.rs:41-44 DeviceId::value *)
fun did_value :: "device_id \<Rightarrow> u32" where
  "did_value (DeviceId v) = v"

(* @src crates/sensor-core/src/lib.rs:53-59 TryFrom<u32> for DeviceId *)
definition device_id_try_from :: "u32 \<Rightarrow> core_error + device_id" where
  "device_id_try_from value = ok_or (device_id_new value) (InvalidDeviceId value)"

(* @src crates/sensor-core/src/lib.rs:29-39 DeviceId::generate *)
partial_function (option) device_id_generate ::
  "('g \<Rightarrow> u32 \<times> 'g) \<Rightarrow> 'g \<Rightarrow> (device_id \<times> 'g) option" where
  "device_id_generate next_u32 rng =
     (let limit = - 1 - (- 1 mod DEVICE_ID_SPAN);
          drawn = next_u32 rng;
          candidate = fst drawn;
          rng' = snd drawn
      in if candidate < limit
         then Some (DeviceId (MIN_DEVICE_ID + candidate mod DEVICE_ID_SPAN), rng')
         else device_id_generate next_u32 rng')"

definition device_id_wf :: "device_id \<Rightarrow> bool" where
  "device_id_wf d \<longleftrightarrow> 100000000 \<le> unat (did_value d) \<and> unat (did_value d) < 1000000000"

text \<open>\<open>DeviceId\<close> derives \<open>Ord\<close>: the order of the numbers.\<close>

instantiation device_id :: linorder
begin

definition less_eq_device_id :: "device_id \<Rightarrow> device_id \<Rightarrow> bool" where
  "less_eq_device_id a b \<longleftrightarrow> did_value a \<le> did_value b"

definition less_device_id :: "device_id \<Rightarrow> device_id \<Rightarrow> bool" where
  "less_device_id a b \<longleftrightarrow> did_value a < did_value b"

instance
proof
  fix a b c :: device_id
  show "(a < b) = (a \<le> b \<and> \<not> b \<le> a)"
    by (auto simp: less_eq_device_id_def less_device_id_def)
  show "a \<le> a" by (simp add: less_eq_device_id_def)
  show "a \<le> b \<Longrightarrow> b \<le> c \<Longrightarrow> a \<le> c" by (simp add: less_eq_device_id_def)
  show "a \<le> b \<Longrightarrow> b \<le> a \<Longrightarrow> a = b"
    by (cases a; cases b) (simp add: less_eq_device_id_def)
  show "a \<le> b \<or> b \<le> a" by (auto simp: less_eq_device_id_def)
qed

end

lemma device_id_new_iff: "device_id_new v = Some d \<longleftrightarrow> d = DeviceId v \<and> device_id_wf d"
  by (auto simp: device_id_new_def device_id_wf_def MIN_DEVICE_ID_def DEVICE_ID_SPAN_def
      word_le_nat_alt word_less_nat_alt)

lemma device_id_new_wf: "device_id_wf d \<Longrightarrow> device_id_new (did_value d) = Some d"
  by (cases d) (simp add: device_id_new_iff)

lemma device_id_try_from_Inr_iff:
  "device_id_try_from v = Inr d \<longleftrightarrow> d = DeviceId v \<and> device_id_wf d"
  by (simp add: device_id_try_from_def ok_or_Inr_iff device_id_new_iff)

lemma did_value_inject: "did_value a = did_value b \<longleftrightarrow> a = b"
  by (cases a; cases b) simp

subsection \<open>Generation\<close>

text \<open>The acceptance limit is four times the span, so every identifier has four draws.\<close>

lemma generate_limit: "(- 1 :: u32) - (- 1 mod DEVICE_ID_SPAN) = 3600000000"
  by (simp add: DEVICE_ID_SPAN_def)

definition accepted_draw :: "u32 \<Rightarrow> bool" where
  "accepted_draw c \<longleftrightarrow> c < 3600000000"

definition draw_id :: "u32 \<Rightarrow> device_id" where
  "draw_id c = DeviceId (MIN_DEVICE_ID + c mod DEVICE_ID_SPAN)"

lemma device_id_generate_unfold:
  "device_id_generate g s =
     (if accepted_draw (fst (g s)) then Some (draw_id (fst (g s)), snd (g s))
      else device_id_generate g (snd (g s)))"
  by (subst device_id_generate.simps)
    (simp add: generate_limit accepted_draw_def draw_id_def Let_def)

fun nth_state :: "('g \<Rightarrow> u32 \<times> 'g) \<Rightarrow> 'g \<Rightarrow> nat \<Rightarrow> 'g" where
  "nth_state g s 0 = s"
| "nth_state g s (Suc n) = nth_state g (snd (g s)) n"

lemma unat_draw_id: "unat (did_value (draw_id c)) = 100000000 + unat c mod 900000000"
proof -
  have "unat c mod 900000000 < 900000000" by simp
  then show ?thesis
    by (simp add: draw_id_def MIN_DEVICE_ID_def DEVICE_ID_SPAN_def unat_word_ariths unat_mod_distrib)
qed

lemma draw_id_wf: "device_id_wf (draw_id c)"
  by (simp add: device_id_wf_def unat_draw_id)

lemma device_id_generate_first:
  assumes "\<forall>i < n. \<not> accepted_draw (fst (g (nth_state g s i)))"
    and "accepted_draw (fst (g (nth_state g s n)))"
  shows "device_id_generate g s =
    Some (draw_id (fst (g (nth_state g s n))), snd (g (nth_state g s n)))"
  using assms
proof (induction n arbitrary: s)
  case 0
  then show ?case by (subst device_id_generate_unfold) simp
next
  case (Suc n)
  have "\<not> accepted_draw (fst (g s))"
    using Suc.prems(1) by (auto dest: spec [of _ 0])
  moreover have "device_id_generate g (snd (g s)) =
      Some (draw_id (fst (g (nth_state g s (Suc n)))), snd (g (nth_state g s (Suc n))))"
  proof -
    have "\<forall>i < n. \<not> accepted_draw (fst (g (nth_state g (snd (g s)) i)))"
      using Suc.prems(1) by (metis Suc_less_eq nth_state.simps(2))
    then show ?thesis
      using Suc.IH [of "snd (g s)"] Suc.prems(2) by simp
  qed
  ultimately show ?case
    by (subst device_id_generate_unfold) simp
qed

lemma mod_add_self2_multiple:
  assumes "k < (900000000 :: nat)"
  shows "(k + 900000000) mod 900000000 = k"
    and "(k + 1800000000) mod 900000000 = k"
    and "(k + 2700000000) mod 900000000 = k"
  using assms mod_mult_self1 [of k 1 900000000] mod_mult_self1 [of k 2 900000000]
    mod_mult_self1 [of k 3 900000000] by simp_all

lemma four_draws:
  assumes "k < 900000000"
  shows "{c :: u32. accepted_draw c \<and> unat c mod 900000000 = k} =
    word_of_nat ` {k, k + 900000000, k + 1800000000, k + 2700000000}"
proof (rule set_eqI)
  fix c :: u32
  have draws: "n < 3600000000 \<and> n mod 900000000 = k \<longleftrightarrow>
      n = k \<or> n = k + 900000000 \<or> n = k + 1800000000 \<or> n = k + 2700000000"
    (is "?l \<longleftrightarrow> ?r") for n
  proof
    assume l: ?l
    define q where "q = n div 900000000"
    have "q < 4"
      using l by (simp add: q_def less_mult_imp_div_less)
    then have "q = 0 \<or> q = 1 \<or> q = 2 \<or> q = 3"
      by linarith
    moreover have "n = 900000000 * q + k"
      using l unfolding q_def by (metis mult_div_mod_eq)
    ultimately show ?r
      by auto
  next
    assume ?r
    then show ?l
      using assms by (elim disjE) (simp_all add: mod_add_self2_multiple)
  qed
  have word: "c = word_of_nat n \<longleftrightarrow> unat c = n" if "n < 2 ^ 32" for n
    using that by (auto simp: unat_of_nat take_bit_eq_mod)
  show "c \<in> {c. accepted_draw c \<and> unat c mod 900000000 = k} \<longleftrightarrow>
      c \<in> word_of_nat ` {k, k + 900000000, k + 1800000000, k + 2700000000}"
    using assms by (simp add: accepted_draw_def word_less_nat_alt draws word del: of_nat_add)
qed

lemma draw_id_uniform:
  assumes "device_id_wf d"
  shows "card {c. accepted_draw c \<and> draw_id c = d} = 4"
proof -
  define k where "k = unat (did_value d) - 100000000"
  have k: "k < 900000000" "unat (did_value d) = 100000000 + k"
    using assms by (auto simp: device_id_wf_def k_def)
  have "draw_id c = d \<longleftrightarrow> unat c mod 900000000 = k" for c
    using k by (metis add_left_cancel did_value_inject unat_draw_id word_eq_iff_unsigned)
  then have "{c. accepted_draw c \<and> draw_id c = d} =
      word_of_nat ` {k, k + 900000000, k + 1800000000, k + 2700000000}"
    using four_draws [OF k(1)] by simp
  moreover have "inj_on (word_of_nat :: nat \<Rightarrow> u32)
      {k, k + 900000000, k + 1800000000, k + 2700000000}"
  proof (rule inj_onI)
    fix x y
    assume x: "x \<in> {k, k + 900000000, k + 1800000000, k + 2700000000}"
      and y: "y \<in> {k, k + 900000000, k + 1800000000, k + 2700000000}"
      and eq: "(word_of_nat x :: u32) = word_of_nat y"
    have "x < 2 ^ 32" "y < 2 ^ 32"
      using x y k by auto
    then show "x = y"
      using arg_cong [OF eq, of unat] by (simp add: unat_of_nat take_bit_eq_mod)
  qed
  ultimately show ?thesis
    by (simp add: card_image)
qed

subsection \<open>Display form\<close>

fun dec_digits :: "nat \<Rightarrow> rstr" where
  "dec_digits n = (if n < 10 then [48 + n] else dec_digits (n div 10) @ [48 + n mod 10])"

declare dec_digits.simps [simp del]

definition pad_zeros :: "nat \<Rightarrow> rstr \<Rightarrow> rstr" where
  "pad_zeros w s = replicate (w - length s) 48 @ s"

(* @src crates/sensor-core/src/lib.rs:46-51 Display for DeviceId *)
definition device_id_display :: "device_id \<Rightarrow> rstr" where
  "device_id_display d =
     (let digits = pad_zeros 9 (dec_digits (unat (did_value d)))
      in take 3 digits @ [32] @ take 3 (drop 3 digits) @ [32] @ take 3 (drop 6 digits))"

lemma dec_digits_range: "c \<in> set (dec_digits n) \<Longrightarrow> 48 \<le> c \<and> c \<le> 57"
proof (induction n rule: dec_digits.induct)
  case (1 n)
  show ?case
  proof (cases "n < 10")
    case True
    with "1.prems" show ?thesis by (auto simp: dec_digits.simps [of n])
  next
    case False
    then have "c \<in> set (dec_digits (n div 10)) \<or> c = 48 + n mod 10"
      using "1.prems" by (auto simp: dec_digits.simps [of n])
    then show ?thesis
    proof
      assume "c = 48 + n mod 10"
      moreover have "n mod 10 < 10" by simp
      ultimately show ?thesis by linarith
    qed (use "1.IH" [OF False] in blast)
  qed
qed

lemma dec_digits_not_Nil [simp]: "dec_digits n \<noteq> []"
  by (subst dec_digits.simps) simp

lemma digits_value_append:
  "digits_value dig b acc (xs @ ys) =
     (case digits_value dig b acc xs of None \<Rightarrow> None | Some a \<Rightarrow> digits_value dig b a ys)"
  by (induction xs arbitrary: acc) (auto split: option.splits)

lemma dec_val_digit [simp]: "d < 10 \<Longrightarrow> dec_val (48 + d) = Some d"
  by (simp add: dec_val_def)

lemma digits_value_dec_digits: "digits_value dec_val 10 0 (dec_digits n) = Some n"
proof (induction n rule: dec_digits.induct)
  case (1 n)
  show ?case
  proof (cases "n < 10")
    case True
    then show ?thesis by (simp add: dec_digits.simps [of n])
  next
    case False
    with "1.IH" show ?thesis
      by (simp add: dec_digits.simps [of n] digits_value_append)
  qed
qed

lemma length_dec_digits: "10 ^ k \<le> n \<Longrightarrow> n < 10 ^ Suc k \<Longrightarrow> length (dec_digits n) = Suc k"
proof (induction k arbitrary: n)
  case 0
  then show ?case by (simp add: dec_digits.simps)
next
  case (Suc k)
  have "10 \<le> n"
    using Suc.prems(1) by (metis le_trans one_le_numeral one_le_power power_Suc mult_le_mono2 mult.right_neutral)
  moreover have "10 ^ k \<le> n div 10"
    using Suc.prems(1) by (simp add: less_eq_div_iff_mult_less_eq mult.commute)
  moreover have "n div 10 < 10 ^ Suc k"
    using Suc.prems(2) by (simp add: less_mult_imp_div_less mult.commute)
  ultimately show ?case
    using Suc.IH by (simp add: dec_digits.simps [of n])
qed

lemma parse_u32_dec_digits: "n < 2 ^ 32 \<Longrightarrow> parse_u32 (dec_digits n) = Some n"
proof -
  assume n: "n < 2 ^ 32"
  obtain c cs where cs: "dec_digits n = c # cs"
    by (meson dec_digits_not_Nil list.exhaust)
  then have "c \<noteq> 43"
    using dec_digits_range [of c n] by auto
  then show ?thesis
    using n digits_value_dec_digits [of n] by (simp add: parse_u32_def from_radix_def cs Let_def)
qed

lemma not_ws_digit: "48 \<le> c \<Longrightarrow> c \<le> 57 \<Longrightarrow> \<not> is_whitespace c"
  by (auto simp: is_whitespace_def)

lemma is_whitespace_space: "is_whitespace 32"
  by (simp add: is_whitespace_def)

lemma display_digits:
  assumes "device_id_wf d"
  shows "pad_zeros 9 (dec_digits (unat (did_value d))) = dec_digits (unat (did_value d))"
    and "length (dec_digits (unat (did_value d))) = 9"
proof -
  show "length (dec_digits (unat (did_value d))) = 9"
    using length_dec_digits [of 8 "unat (did_value d)"] assms by (simp add: device_id_wf_def)
  then show "pad_zeros 9 (dec_digits (unat (did_value d))) = dec_digits (unat (did_value d))"
    by (simp add: pad_zeros_def)
qed

lemma filter_display:
  assumes "device_id_wf d"
  shows "filter (\<lambda>c. \<not> is_whitespace c) (device_id_display d) = dec_digits (unat (did_value d))"
proof -
  let ?ds = "dec_digits (unat (did_value d))"
  have all: "filter (\<lambda>c. \<not> is_whitespace c) xs = xs" if "set xs \<subseteq> set ?ds" for xs
    using that dec_digits_range not_ws_digit by (fastforce simp: filter_id_conv)
  have "take 3 (drop 6 ?ds) = drop 6 ?ds"
    using display_digits(2) [OF assms] by simp
  moreover have "take 3 ?ds @ take 3 (drop 3 ?ds) @ drop 6 ?ds = ?ds"
    using append_take_drop_id [of 3 ?ds] append_take_drop_id [of 3 "drop 3 ?ds"] by simp
  ultimately show ?thesis
    using display_digits(1) [OF assms]
    by (simp add: device_id_display_def Let_def all set_take_subset
        subset_trans [OF set_take_subset set_drop_subset] set_drop_subset is_whitespace_space)
qed

lemma device_id_display_parse:
  assumes "device_id_wf d"
  shows "parse_u32 (filter (\<lambda>c. \<not> is_whitespace c) (device_id_display d)) =
    Some (unat (did_value d))"
proof -
  have "unat (did_value d) < 2 ^ 32"
    using assms by (simp add: device_id_wf_def)
  then show ?thesis
    by (simp add: filter_display [OF assms] parse_u32_dec_digits)
qed

subsection \<open>Aliases\<close>

(* @src crates/sensor-core/src/lib.rs:61-64 DeviceAlias *)
datatype device_alias = DeviceAlias rstr

(* @src crates/sensor-core/src/lib.rs:66-83 DeviceAlias::new *)
definition device_alias_new :: "rstr \<Rightarrow> core_error + device_alias" where
  "device_alias_new value =
     (if value = [] \<or> str_len value > 128 then Inl InvalidAlias
      else if list_ex (\<lambda>c. is_control c \<or> is_whitespace c) value then Inl InvalidAlias
      else Inr (DeviceAlias value))"

(* @src crates/sensor-core/src/lib.rs:85-94 DeviceAlias::as_str, Display *)
fun alias_str :: "device_alias \<Rightarrow> rstr" where
  "alias_str (DeviceAlias s) = s"

definition device_alias_wf :: "device_alias \<Rightarrow> bool" where
  "device_alias_wf a \<longleftrightarrow> alias_str a \<noteq> [] \<and> str_len (alias_str a) \<le> 128 \<and>
     list_all (\<lambda>c. \<not> is_control c \<and> \<not> is_whitespace c) (alias_str a)"

lemma device_alias_new_Inr_iff:
  "device_alias_new s = Inr a \<longleftrightarrow> a = DeviceAlias s \<and> device_alias_wf a"
  by (auto simp: device_alias_new_def device_alias_wf_def list_ex_iff list_all_iff)

end
