(* ===== verification/Sensor_Permissions.thy ===== *)
theory Sensor_Permissions
  imports Sensor_Prelude
begin

unbundle bit_operations_syntax

section \<open>sensor-session: permissions and consent\<close>

text \<open>
  The permission bit set (\<open>Permissions\<close>, 19 known bits of a \<open>u64\<close>) and the endpoint's consent state
  machine. The abstract specification reads a bit set as a set of permissions; the machine is a
  step function on its four operations, and the properties range over every sequence of them.
\<close>

subsection \<open>Bit sets\<close>

(* @src crates/sensor-session/src/permissions.rs:5-27 Permission *)
datatype permission =
    P_Audio | P_Input | P_ClipboardText | P_ClipboardFiles | P_FileManager | P_Printing | P_Restart
  | P_Lock | P_SecureAttention | P_SystemInformation | P_Whiteboard | P_TcpTunnel | P_Vpn | P_Privacy
  | P_Recording | P_BlockLocalInput | P_RemotePointer | P_ViewDesktop | P_Chat

(* @src crates/sensor-session/src/permissions.rs:5-27 Permission as u8 *)
fun perm_index :: "permission \<Rightarrow> nat" where
  "perm_index P_Audio = 0"
| "perm_index P_Input = 1"
| "perm_index P_ClipboardText = 2"
| "perm_index P_ClipboardFiles = 3"
| "perm_index P_FileManager = 4"
| "perm_index P_Printing = 5"
| "perm_index P_Restart = 6"
| "perm_index P_Lock = 7"
| "perm_index P_SecureAttention = 8"
| "perm_index P_SystemInformation = 9"
| "perm_index P_Whiteboard = 10"
| "perm_index P_TcpTunnel = 11"
| "perm_index P_Vpn = 12"
| "perm_index P_Privacy = 13"
| "perm_index P_Recording = 14"
| "perm_index P_BlockLocalInput = 15"
| "perm_index P_RemotePointer = 16"
| "perm_index P_ViewDesktop = 17"
| "perm_index P_Chat = 18"

(* @src crates/sensor-session/src/permissions.rs:31-33 Permissions *)
datatype permissions = Permissions (perm_bits: u64)

(* @src crates/sensor-session/src/permissions.rs:69-81 PermissionError *)
datatype permission_error =
  NotAccepted | Denied | UnknownPermission | InvalidTransition | Escalation

(* @src crates/sensor-session/src/permissions.rs:29-29 VALID_BITS *)
definition VALID_BITS :: u64 where
  "VALID_BITS = push_bit 19 1 - 1"

(* @src crates/sensor-session/src/permissions.rs:35-43 TryFrom<u64> for Permissions *)
definition permissions_try_from :: "u64 \<Rightarrow> permission_error + permissions" where
  "permissions_try_from bits =
     (if bits AND NOT VALID_BITS \<noteq> 0 then Inl UnknownPermission else Inr (Permissions bits))"

(* @src crates/sensor-session/src/permissions.rs:46-46 Permissions::NONE *)
definition PERM_NONE :: permissions where
  "PERM_NONE = Permissions 0"

(* @src crates/sensor-session/src/permissions.rs:47-47 Permissions::FULL_ACCESS *)
definition PERM_FULL_ACCESS :: permissions where
  "PERM_FULL_ACCESS = Permissions VALID_BITS"

(* @src crates/sensor-session/src/permissions.rs:48-50 Permissions::of *)
definition perms_of :: "permission list \<Rightarrow> permissions" where
  "perms_of values = Permissions (foldl (\<lambda>bits p. bits OR push_bit (perm_index p) 1) 0 values)"

(* @src crates/sensor-session/src/permissions.rs:51-53 Permissions::allows *)
definition allows :: "permissions \<Rightarrow> permission \<Rightarrow> bool" where
  "allows s p \<longleftrightarrow> perm_bits s AND push_bit (perm_index p) 1 \<noteq> 0"

(* @src crates/sensor-session/src/permissions.rs:54-56 Permissions::is_subset_of *)
definition is_subset_of :: "permissions \<Rightarrow> permissions \<Rightarrow> bool" where
  "is_subset_of s maximum \<longleftrightarrow> perm_bits s AND NOT (perm_bits maximum) = 0"

(* @src crates/sensor-session/src/permissions.rs:57-59 Permissions::file_transfer *)
definition perms_file_transfer :: permissions where
  "perms_file_transfer = perms_of [P_FileManager]"

(* @src crates/sensor-session/src/permissions.rs:60-66 Permissions::screen_sharing *)
definition perms_screen_sharing :: permissions where
  "perms_screen_sharing = perms_of [P_ViewDesktop, P_RemotePointer, P_Chat]"

lemma perm_index_less: "perm_index p < 19"
  by (cases p) auto

lemma perm_index_inject: "perm_index p = perm_index q \<longleftrightarrow> p = q"
  by (cases p; cases q) auto

lemma perm_index_surj:
  assumes "n < 19"
  shows "\<exists>p. perm_index p = n"
proof -
  have "n = perm_index P_Audio \<or> n = perm_index P_Input \<or> n = perm_index P_ClipboardText \<or>
    n = perm_index P_ClipboardFiles \<or> n = perm_index P_FileManager \<or> n = perm_index P_Printing \<or>
    n = perm_index P_Restart \<or> n = perm_index P_Lock \<or> n = perm_index P_SecureAttention \<or>
    n = perm_index P_SystemInformation \<or> n = perm_index P_Whiteboard \<or> n = perm_index P_TcpTunnel \<or>
    n = perm_index P_Vpn \<or> n = perm_index P_Privacy \<or> n = perm_index P_Recording \<or>
    n = perm_index P_BlockLocalInput \<or> n = perm_index P_RemotePointer \<or>
    n = perm_index P_ViewDesktop \<or> n = perm_index P_Chat"
    using assms by simp presburger
  then show ?thesis
    by blast
qed

lemma and_single_bit: "(w :: u64) AND push_bit n 1 \<noteq> 0 \<longleftrightarrow> bit w n"
  by (metis and_exp_eq_0_iff_not_bit push_bit_of_1)

lemma allows_bit: "allows s p \<longleftrightarrow> bit (perm_bits s) (perm_index p)"
  by (simp only: allows_def and_single_bit)

lemma bit64: "bit (w :: u64) n \<Longrightarrow> n < 64"
  using bit_imp_le_length [of w n] by simp

lemma is_subset_of_bits: "is_subset_of s m \<longleftrightarrow> (\<forall>n. bit (perm_bits s) n \<longrightarrow> bit (perm_bits m) n)"
  using bit64 [of "perm_bits s"] by (auto simp: is_subset_of_def bit_eq_iff bit_simps)

lemma is_subset_of_allows: "is_subset_of s m \<Longrightarrow> allows s p \<Longrightarrow> allows m p"
  by (simp add: is_subset_of_bits allows_bit)

lemma is_subset_of_trans: "is_subset_of a b \<Longrightarrow> is_subset_of b c \<Longrightarrow> is_subset_of a c"
  by (simp add: is_subset_of_bits)

lemma is_subset_of_refl [simp]: "is_subset_of a a"
  by (simp add: is_subset_of_bits)

lemma perm_none_subset [simp]: "is_subset_of PERM_NONE m"
  by (simp add: is_subset_of_def PERM_NONE_def)

lemma allows_none [simp]: "\<not> allows PERM_NONE p"
  by (simp add: allows_bit PERM_NONE_def)

lemma bit_VALID_BITS: "bit VALID_BITS n \<longleftrightarrow> n < 19"
proof -
  have eq: "VALID_BITS = mask 19"
    by (simp add: VALID_BITS_def mask_eq_exp_minus_1)
  have "bit (mask 19 :: u64) n \<longleftrightarrow> possible_bit TYPE(64 word) n \<and> n < 19"
    by (rule bit_mask_iff)
  then show ?thesis
    unfolding eq by (auto simp: possible_bit_def)
qed

lemma bit_perms_fold:
  "bit (foldl (\<lambda>bits p. bits OR 2 ^ perm_index p) (w :: u64) ps) n \<longleftrightarrow>
     bit w n \<or> n < 64 \<and> n \<in> perm_index ` set ps"
proof (induction ps arbitrary: w)
  case (Cons p ps)
  have "bit (w OR 2 ^ perm_index p) n \<longleftrightarrow> bit w n \<or> n < 64 \<and> n = perm_index p"
    by (auto simp: bit_or_iff bit_exp_iff)
  with Cons show ?case
    by auto
qed simp

lemma allows_perms_of: "allows (perms_of ps) p \<longleftrightarrow> p \<in> set ps"
  using perm_index_less [of p]
  by (auto simp: allows_bit perms_of_def bit_perms_fold perm_index_inject image_iff)

definition perms_wf :: "permissions \<Rightarrow> bool" where
  "perms_wf s \<longleftrightarrow> (\<forall>n. bit (perm_bits s) n \<longrightarrow> n < 19)"

lemma permissions_try_from_iff:
  "permissions_try_from b = Inr s \<longleftrightarrow> s = Permissions b \<and> perms_wf s"
proof -
  have "b AND NOT VALID_BITS = 0 \<longleftrightarrow> is_subset_of (Permissions b) (Permissions VALID_BITS)"
    by (simp add: is_subset_of_def)
  then show ?thesis
    by (auto simp: permissions_try_from_def perms_wf_def is_subset_of_bits bit_VALID_BITS)
qed

text \<open>The abstract value of a bit set.\<close>

definition perm_set :: "permissions \<Rightarrow> permission set" where
  "perm_set s = {p. allows s p}"

lemma perm_set_subset: "perms_wf s \<Longrightarrow> is_subset_of s m \<longleftrightarrow> perm_set s \<subseteq> perm_set m"
  using perm_index_surj
  by (fastforce simp: is_subset_of_bits perm_set_def allows_bit perms_wf_def)

lemma perm_set_inject: "perms_wf s \<Longrightarrow> perms_wf t \<Longrightarrow> perm_set s = perm_set t \<longleftrightarrow> s = t"
  using perm_set_subset [of s t] perm_set_subset [of t s]
  by (metis bit_eq_iff is_subset_of_bits order_refl permissions.expand)

text \<open>The permission bits implement sets of permissions: a value decoded from the wire has only
  known bits, \<open>of\<close> builds the set of its arguments, \<open>is_subset_of\<close> is inclusion of the sets and two
  decoded values with the same set are equal.\<close>

theorem permissions_are_sets:
  assumes "permissions_try_from a = Inr s" and "permissions_try_from b = Inr t"
  shows "perm_set (perms_of ps) = set ps \<and>
    is_subset_of s t = (perm_set s \<subseteq> perm_set t) \<and>
    (perm_set s = perm_set t) = (a = b) \<and>
    perm_set s \<subseteq> perm_set PERM_FULL_ACCESS"
proof (intro conjI)
  have wf: "s = Permissions a" "t = Permissions b" "perms_wf s" "perms_wf t"
    using assms unfolding permissions_try_from_iff by blast+
  show "perm_set (perms_of ps) = set ps"
    by (simp add: perm_set_def allows_perms_of)
  show "is_subset_of s t = (perm_set s \<subseteq> perm_set t)"
    using wf by (simp add: perm_set_subset)
  show "(perm_set s = perm_set t) = (a = b)"
    using wf perm_set_inject [of s t] by simp
  show "perm_set s \<subseteq> perm_set PERM_FULL_ACCESS"
    by (auto simp: perm_set_def PERM_FULL_ACCESS_def allows_bit bit_VALID_BITS perm_index_less)
qed

lemma permissions_are_sets_witness:
  "is_subset_of (Permissions 5) (Permissions 7) \<longleftrightarrow>
     perm_set (Permissions 5) \<subseteq> perm_set (Permissions 7)"
  using permissions_are_sets [of 5 "Permissions 5" 7 "Permissions 7" "[]"]
  by (simp add: permissions_try_from_def VALID_BITS_def)

subsection \<open>Consent\<close>

(* @src crates/sensor-session/src/permissions.rs:83-89 ConsentState *)
datatype consent_state = CS_Pending | CS_Active | CS_Rejected | CS_Closed

(* @src crates/sensor-session/src/permissions.rs:91-95 Consent *)
record consent =
  co_requested :: permissions
  co_granted :: permissions
  co_state :: consent_state

(* @src crates/sensor-session/src/permissions.rs:98-104 Consent::pending *)
definition consent_pending :: "permissions \<Rightarrow> consent" where
  "consent_pending requested =
     \<lparr>co_requested = requested, co_granted = PERM_NONE, co_state = CS_Pending\<rparr>"

(* @src crates/sensor-session/src/permissions.rs:105-115 Consent::accept *)
definition consent_accept :: "permissions \<Rightarrow> consent \<Rightarrow> (permission_error + unit) \<times> consent" where
  "consent_accept granted c =
     (if co_state c \<noteq> CS_Pending then (Inl InvalidTransition, c)
      else if \<not> is_subset_of granted (co_requested c) then (Inl Escalation, c)
      else (Inr (), c\<lparr>co_granted := granted, co_state := CS_Active\<rparr>))"

(* @src crates/sensor-session/src/permissions.rs:116-122 Consent::reject *)
definition consent_reject :: "consent \<Rightarrow> (permission_error + unit) \<times> consent" where
  "consent_reject c =
     (if co_state c \<noteq> CS_Pending then (Inl InvalidTransition, c)
      else (Inr (), c\<lparr>co_state := CS_Rejected\<rparr>))"

(* @src crates/sensor-session/src/permissions.rs:123-133 Consent::change_permissions *)
definition consent_change :: "permissions \<Rightarrow> consent \<Rightarrow> (permission_error + unit) \<times> consent" where
  "consent_change granted c =
     (if co_state c \<noteq> CS_Active then (Inl InvalidTransition, c)
      else if \<not> is_subset_of granted (co_requested c) then (Inl Escalation, c)
      else (Inr (), c\<lparr>co_granted := granted\<rparr>))"

(* @src crates/sensor-session/src/permissions.rs:134-142 Consent::require *)
definition consent_require :: "consent \<Rightarrow> permission \<Rightarrow> permission_error + unit" where
  "consent_require c p =
     (if co_state c \<noteq> CS_Active then Inl NotAccepted
      else if \<not> allows (co_granted c) p then Inl Denied
      else Inr ())"

(* @src crates/sensor-session/src/permissions.rs:149-152 Consent::close *)
definition consent_close :: "consent \<Rightarrow> consent" where
  "consent_close c = c\<lparr>co_granted := PERM_NONE, co_state := CS_Closed\<rparr>"

datatype consent_op = Accept permissions | Reject | Change permissions | Close

fun consent_step :: "consent \<Rightarrow> consent_op \<Rightarrow> consent" where
  "consent_step c (Accept g) = snd (consent_accept g c)"
| "consent_step c Reject = snd (consent_reject c)"
| "consent_step c (Change g) = snd (consent_change g c)"
| "consent_step c Close = consent_close c"

definition consent_run :: "consent \<Rightarrow> consent_op list \<Rightarrow> consent" where
  "consent_run c ops = foldl consent_step c ops"

lemma consent_run_simps [simp]:
  "consent_run c [] = c"
  "consent_run c (op # ops) = consent_run (consent_step c op) ops"
  "consent_run c (ops @ ops') = consent_run (consent_run c ops) ops'"
  by (simp_all add: consent_run_def)

lemmas consent_defs = consent_accept_def consent_reject_def consent_change_def consent_close_def

lemma consent_require_iff:
  "consent_require c p = Inr u \<longleftrightarrow> co_state c = CS_Active \<and> allows (co_granted c) p"
  by (simp add: consent_require_def)

definition consent_inv :: "consent \<Rightarrow> bool" where
  "consent_inv c \<longleftrightarrow> is_subset_of (co_granted c) (co_requested c) \<and>
     (co_state c \<noteq> CS_Active \<longrightarrow> co_granted c = PERM_NONE)"

lemma consent_inv_pending [simp]: "consent_inv (consent_pending r)"
  by (simp add: consent_inv_def consent_pending_def)

lemma consent_inv_step: "consent_inv c \<Longrightarrow> consent_inv (consent_step c op)"
  by (cases op) (auto simp: consent_inv_def consent_defs)

lemma consent_inv_run: "consent_inv c \<Longrightarrow> consent_inv (consent_run c ops)"
  by (induction ops arbitrary: c) (auto intro: consent_inv_step)

lemma consent_requested_step [simp]: "co_requested (consent_step c op) = co_requested c"
  by (cases op) (auto simp: consent_defs)

lemma consent_requested_run [simp]: "co_requested (consent_run c ops) = co_requested c"
  by (induction ops arbitrary: c) auto

lemma consent_terminal_step:
  "co_state c \<in> {CS_Rejected, CS_Closed} \<Longrightarrow> co_state (consent_step c op) \<in> {CS_Rejected, CS_Closed}"
  by (cases op) (auto simp: consent_defs)

lemma consent_terminal_run:
  "co_state c \<in> {CS_Rejected, CS_Closed} \<Longrightarrow> co_state (consent_run c ops) \<in> {CS_Rejected, CS_Closed}"
  using consent_terminal_step by (induction ops arbitrary: c) auto

text \<open>What the history says: the decision that put the machine into its state.\<close>

fun last_grant :: "permissions \<Rightarrow> permissions option \<Rightarrow> consent_op list \<Rightarrow> permissions option" where
  "last_grant r g [] = g"
| "last_grant r g (Change p # ops) =
     last_grant r (if g \<noteq> None \<and> is_subset_of p r then Some p else g) ops"
| "last_grant r g (Close # ops) = None"
| "last_grant r g (_ # ops) = last_grant r g ops"

fun history_grant :: "permissions \<Rightarrow> consent_op list \<Rightarrow> permissions option" where
  "history_grant r [] = None"
| "history_grant r (Accept p # ops) =
     (if is_subset_of p r then last_grant r (Some p) ops else history_grant r ops)"
| "history_grant r (Reject # ops) = None"
| "history_grant r (Close # ops) = None"
| "history_grant r (Change p # ops) = history_grant r ops"

definition active_grant :: "consent \<Rightarrow> permissions option" where
  "active_grant c = (if co_state c = CS_Active then Some (co_granted c) else None)"

lemma active_grant_terminal:
  "co_state c \<in> {CS_Rejected, CS_Closed} \<Longrightarrow> active_grant (consent_run c ops) = None"
  using consent_terminal_run [of c ops] by (auto simp: active_grant_def)

lemma active_grant_active:
  "co_state c = CS_Active \<Longrightarrow>
     active_grant (consent_run c ops) = last_grant (co_requested c) (Some (co_granted c)) ops"
proof (induction ops arbitrary: c)
  case (Cons op ops)
  then show ?case
  proof (cases op)
    case Close
    then show ?thesis
      using active_grant_terminal [of "consent_close c" ops] by (simp add: consent_close_def)
  qed (auto simp: consent_defs)
qed (simp add: active_grant_def)

lemma active_grant_pending:
  "co_state c = CS_Pending \<Longrightarrow> active_grant (consent_run c ops) = history_grant (co_requested c) ops"
proof (induction ops arbitrary: c)
  case (Cons op ops)
  then show ?case
  proof (cases op)
    case (Accept p)
    then show ?thesis
      using Cons active_grant_active [of "c\<lparr>co_granted := p, co_state := CS_Active\<rparr>" ops]
      by (simp add: consent_defs)
  next
    case Close
    then show ?thesis
      using active_grant_terminal [of "consent_close c" ops] by (simp add: consent_close_def)
  next
    case Reject
    then show ?thesis
      using Cons.prems active_grant_terminal [of "c\<lparr>co_state := CS_Rejected\<rparr>" ops]
      by (simp add: consent_defs)
  qed (auto simp: consent_defs)
qed (simp add: active_grant_def)

text \<open>C25: The consent machine implements its specification over every history: after any sequence of
  accept, reject, change and close operations (in any order, failures included), an operation is
  authorised exactly when the first decision was a valid acceptance, nothing closed the session
  since, and the last valid grant allows it; a rejected or closed session never authorises again.\<close>

theorem consent_require_history:
  "consent_require (consent_run (consent_pending r) ops) p = Inr () \<longleftrightarrow>
     (case history_grant r ops of None \<Rightarrow> False | Some g \<Rightarrow> allows g p)"
  using active_grant_pending [of "consent_pending r" ops]
  by (auto simp: consent_require_iff active_grant_def consent_pending_def split: if_splits option.splits)

text \<open>C4: No escalation: whatever the endpoint does, a permission that \<open>require\<close> grants was in the
  requested profile, and outside the active state nothing is granted at all.\<close>

theorem consent_no_escalation:
  "consent_inv (consent_run (consent_pending r) ops) \<and>
   co_requested (consent_run (consent_pending r) ops) = r \<and>
   {p. consent_require (consent_run (consent_pending r) ops) p = Inr ()} \<subseteq> perm_set r"
proof -
  have inv: "consent_inv (consent_run (consent_pending r) ops)"
    by (intro consent_inv_run) simp
  moreover have req: "co_requested (consent_run (consent_pending r) ops) = r"
    by (simp add: consent_pending_def)
  ultimately show ?thesis
    by (auto simp: consent_inv_def consent_require_iff perm_set_def intro: is_subset_of_allows)
qed

end
