(* ===== verification/Sensor_Codec.thy ===== *)
theory Sensor_Codec
  imports Sensor_Prelude
begin

section \<open>The serializer interface\<close>

text \<open>
  The postcard serializer is third-party code: a \<open>codec\<close> record holds its two entry points
  \<open>to_allocvec\<close> and \<open>take_from_bytes\<close> at one type, and \<open>codec_ok\<close> states its documented round trip
  (a serialized value is read back from the front of a buffer, the rest being returned). Values
  that the Rust type excludes (an array of another length, a \<open>DeviceId\<close> out of range) have no
  serialization, so the law speaks of real values only. The
  combinators of the second part build codecs that satisfy the law; they model no code of the
  program and only show that the hypothesis can hold, wherever a concrete message is needed.
\<close>

subsection \<open>The interface and its law\<close>

record 'a codec =
  cd_ser :: "'a \<Rightarrow> bytes option"
  cd_take :: "bytes \<Rightarrow> ('a \<times> bytes) option"

definition codec_ok :: "'a codec \<Rightarrow> bool" where
  "codec_ok c \<longleftrightarrow> (\<forall>x b r. cd_ser c x = Some b \<longrightarrow> cd_take c (b @ r) = Some (x, r))"

lemma codec_okD: "codec_ok c \<Longrightarrow> cd_ser c x = Some b \<Longrightarrow> cd_take c (b @ r) = Some (x, r)"
  by (simp add: codec_ok_def)

lemma codec_okD0: "codec_ok c \<Longrightarrow> cd_ser c x = Some b \<Longrightarrow> cd_take c b = Some (x, [])"
  using codec_okD [of c x b "[]"] by simp

lemma codec_prefix_inj:
  assumes "codec_ok c" and "cd_ser c x = Some b" and "cd_ser c y = Some d"
    and "b @ r = d @ s"
  shows "x = y \<and> b = d \<and> r = s"
proof -
  have "(x, r) = (y, s)"
    using codec_okD [OF assms(1,2), of r] codec_okD [OF assms(1,3), of s] assms(4) by simp
  then show ?thesis
    using assms by auto
qed

text \<open>
  serde_json at one type: the text written for a value and the value of a text, with its round trip.
\<close>

record 'a json =
  jn_to :: "'a \<Rightarrow> bytes option"
  jn_from :: "bytes \<Rightarrow> 'a option"

definition json_ok :: "'a json \<Rightarrow> bool" where
  "json_ok j \<longleftrightarrow> (\<forall>x b. jn_to j x = Some b \<longrightarrow> jn_from j b = Some x)"

lemma json_okD: "json_ok j \<Longrightarrow> jn_to j x = Some b \<Longrightarrow> jn_from j b = Some x"
  by (simp add: json_ok_def)

definition json_of_codec :: "'a codec \<Rightarrow> 'a json" where
  "json_of_codec c = \<lparr>jn_to = cd_ser c, jn_from = (\<lambda>b. case cd_take c b of Some (x, []) \<Rightarrow> Some x | _ \<Rightarrow> None)\<rparr>"

lemma json_of_codec_ok [intro, simp]: "codec_ok c \<Longrightarrow> json_ok (json_of_codec c)"
  by (auto simp: json_ok_def json_of_codec_def codec_okD0)

subsection \<open>Codecs that satisfy the law\<close>

definition codec_be :: "nat \<Rightarrow> nat codec" where
  "codec_be n =
     \<lparr>cd_ser = (\<lambda>x. if x < 256 ^ n then Some (be_bytes n x) else None),
      cd_take = (\<lambda>b. if length b < n then None else Some (from_be (take n b), drop n b))\<rparr>"

definition codec_blob :: "bytes codec" where
  "codec_blob =
     \<lparr>cd_ser = (\<lambda>x. if length x < 256 ^ 4 then Some (be_bytes 4 (length x) @ x) else None),
      cd_take = (\<lambda>b. if length b < 4 + from_be (take 4 b) then None
        else Some (take (from_be (take 4 b)) (drop 4 b), drop (4 + from_be (take 4 b)) b))\<rparr>"

definition codec_pair :: "'a codec \<Rightarrow> 'b codec \<Rightarrow> ('a \<times> 'b) codec" where
  "codec_pair c d =
     \<lparr>cd_ser = (\<lambda>(x, y). case cd_ser c x of None \<Rightarrow> None
        | Some b \<Rightarrow> (case cd_ser d y of None \<Rightarrow> None | Some b' \<Rightarrow> Some (b @ b'))),
      cd_take = (\<lambda>b. case cd_take c b of None \<Rightarrow> None
        | Some (x, r) \<Rightarrow> (case cd_take d r of None \<Rightarrow> None | Some (y, r') \<Rightarrow> Some ((x, y), r')))\<rparr>"

definition codec_sum :: "'a codec \<Rightarrow> 'b codec \<Rightarrow> ('a + 'b) codec" where
  "codec_sum c d =
     \<lparr>cd_ser = (\<lambda>s. case s of
          Inl x \<Rightarrow> map_option (\<lambda>b. 0 # b) (cd_ser c x)
        | Inr y \<Rightarrow> map_option (\<lambda>b. 1 # b) (cd_ser d y)),
      cd_take = (\<lambda>b. case b of [] \<Rightarrow> None | t # b' \<Rightarrow>
          if t = 0 then map_option (\<lambda>(x, r). (Inl x, r)) (cd_take c b')
          else map_option (\<lambda>(y, r). (Inr y, r)) (cd_take d b'))\<rparr>"

definition codec_conv :: "('a \<Rightarrow> 'b) \<Rightarrow> ('b \<Rightarrow> 'a) \<Rightarrow> 'b codec \<Rightarrow> 'a codec" where
  "codec_conv f g c =
     \<lparr>cd_ser = (\<lambda>x. cd_ser c (f x)), cd_take = (\<lambda>b. map_option (\<lambda>(x, r). (g x, r)) (cd_take c b))\<rparr>"

definition codec_only :: "'a \<Rightarrow> bytes \<Rightarrow> 'a codec" where
  "codec_only x b =
     \<lparr>cd_ser = (\<lambda>y. if y = x then Some b else None),
      cd_take = (\<lambda>r. if take (length b) r = b then Some (x, drop (length b) r) else None)\<rparr>"

lemma codec_only_ok [intro, simp]: "codec_ok (codec_only x b)"
  by (auto simp: codec_ok_def codec_only_def split: if_splits)

lemma codec_be_ok [intro, simp]: "codec_ok (codec_be n)"
  by (auto simp: codec_ok_def codec_be_def from_be_be_bytes)

lemma codec_blob_ok [intro, simp]: "codec_ok codec_blob"
  by (auto simp: codec_ok_def codec_blob_def from_be_be_bytes split: if_splits)

lemma codec_pair_ok [intro]: "codec_ok c \<Longrightarrow> codec_ok d \<Longrightarrow> codec_ok (codec_pair c d)"
  by (auto simp: codec_ok_def codec_pair_def split: option.splits)

lemma codec_sum_ok [intro]: "codec_ok c \<Longrightarrow> codec_ok d \<Longrightarrow> codec_ok (codec_sum c d)"
  by (auto simp: codec_ok_def codec_sum_def split: sum.splits)

lemma codec_conv_ok [intro]: "codec_ok c \<Longrightarrow> (\<And>x. g (f x) = x) \<Longrightarrow> codec_ok (codec_conv f g c)"
  by (auto simp: codec_ok_def codec_conv_def)

end
