(* ===== verification/Sensor_Protocol.thy ===== *)
theory Sensor_Protocol
  imports Sensor_Core Sensor_Codec
begin

section \<open>sensor-protocol: wire frames and handshake messages\<close>

text \<open>
  The versioned frame (two version bytes, one type byte, four length bytes, the payload) with its
  encoder and decoder, the two handshake messages, and the byte strings that are signed and
  hashed. The postcard serializer is a parameter, one \<open>codec\<close> for each message type.
\<close>

subsection \<open>Constants, errors and message types\<close>

(* @src crates/sensor-protocol/src/lib.rs:13-13 PROTOCOL_VERSION *)
definition PROTOCOL_VERSION :: u16 where
  "PROTOCOL_VERSION = 2"

(* @src crates/sensor-protocol/src/lib.rs:14-14 MAX_FRAME_SIZE *)
definition MAX_FRAME_SIZE :: nat where
  "MAX_FRAME_SIZE = 1048576"

(* @src crates/sensor-protocol/src/lib.rs:15-15 HEADER_SIZE *)
definition HEADER_SIZE :: nat where
  "HEADER_SIZE = 7"

(* @src crates/sensor-protocol/src/lib.rs:17-29 ProtocolError *)
datatype protocol_error =
    SerializationError
  | UnsupportedVersion u16
  | ProtoFrameTooLarge
  | InvalidMessageType
  | Malformed

(* @src crates/sensor-protocol/src/lib.rs:31-39 MessageType *)
datatype message_type = MT_ClientHello | MT_ServerHello | MT_Control | MT_FileTransfer | MT_Close

(* @src crates/sensor-protocol/src/lib.rs:31-39 MessageType as u8 *)
fun mt_code :: "message_type \<Rightarrow> u8" where
  "mt_code MT_ClientHello = 1"
| "mt_code MT_ServerHello = 2"
| "mt_code MT_Control = 3"
| "mt_code MT_FileTransfer = 4"
| "mt_code MT_Close = 5"

(* @src crates/sensor-protocol/src/lib.rs:41-54 TryFrom<u8> for MessageType *)
definition mt_try_from :: "u8 \<Rightarrow> protocol_error + message_type" where
  "mt_try_from v =
     (if v = 1 then Inr MT_ClientHello
      else if v = 2 then Inr MT_ServerHello
      else if v = 3 then Inr MT_Control
      else if v = 4 then Inr MT_FileTransfer
      else if v = 5 then Inr MT_Close
      else Inl InvalidMessageType)"

lemma mt_try_from_iff: "mt_try_from v = Inr t \<longleftrightarrow> v = mt_code t"
  by (cases t) (auto simp: mt_try_from_def)

lemma mt_try_from_code [simp]: "mt_try_from (mt_code t) = Inr t"
  by (simp add: mt_try_from_iff)

subsection \<open>Frames\<close>

(* @src crates/sensor-protocol/src/lib.rs:56-61 Frame *)
record frame =
  fr_version :: u16
  fr_type :: message_type
  fr_payload :: bytes

(* @src crates/sensor-protocol/src/lib.rs:64-77 Frame::new *)
definition frame_new :: "'a codec \<Rightarrow> message_type \<Rightarrow> 'a \<Rightarrow> protocol_error + frame" where
  "frame_new c t message =
     res_bind (ok_or (cd_ser c message) SerializationError) (\<lambda>payload.
       if length payload > MAX_FRAME_SIZE - HEADER_SIZE then Inl ProtoFrameTooLarge
       else Inr \<lparr>fr_version = PROTOCOL_VERSION, fr_type = t, fr_payload = payload\<rparr>)"

(* @src crates/sensor-protocol/src/lib.rs:79-92 Frame::encode *)
definition frame_encode :: "frame \<Rightarrow> protocol_error + bytes" where
  "frame_encode f =
     (if fr_version f \<noteq> PROTOCOL_VERSION then Inl (UnsupportedVersion (fr_version f))
      else if length (fr_payload f) > MAX_FRAME_SIZE - HEADER_SIZE then Inl ProtoFrameTooLarge
      else Inr (be_bytes 2 (unat (fr_version f)) @ [mt_code (fr_type f)]
                @ be_bytes 4 (length (fr_payload f)) @ fr_payload f))"

(* @src crates/sensor-protocol/src/lib.rs:94-118 Frame::decode *)
definition frame_decode :: "bytes \<Rightarrow> protocol_error + frame" where
  "frame_decode bs =
     (if length bs > MAX_FRAME_SIZE then Inl ProtoFrameTooLarge
      else if length bs < HEADER_SIZE then Inl Malformed
      else let version = (word_of_nat (from_be (take 2 bs)) :: u16) in
        if version \<noteq> PROTOCOL_VERSION then Inl (UnsupportedVersion version)
        else if from_be (take 4 (drop 3 bs)) \<noteq> length bs - HEADER_SIZE then Inl Malformed
        else res_bind (mt_try_from (bs ! 2)) (\<lambda>t.
          Inr \<lparr>fr_version = version, fr_type = t, fr_payload = drop HEADER_SIZE bs\<rparr>))"

(* @src crates/sensor-protocol/src/lib.rs:120-126 Frame::decode_payload *)
definition decode_payload :: "'a codec \<Rightarrow> frame \<Rightarrow> protocol_error + 'a" where
  "decode_payload c f =
     res_bind (ok_or (cd_take c (fr_payload f)) SerializationError) (\<lambda>(value, rest).
       if rest \<noteq> [] then Inl Malformed else Inr value)"

lemma version_bytes: "be_bytes 2 2 = [0, 2]"
  by (simp add: be_bytes_numeral)

lemma frame_encode_Inr_iff:
  "frame_encode f = Inr bs \<longleftrightarrow>
     fr_version f = PROTOCOL_VERSION \<and> length (fr_payload f) \<le> MAX_FRAME_SIZE - HEADER_SIZE \<and>
     bs = [0, 2, mt_code (fr_type f)] @ be_bytes 4 (length (fr_payload f)) @ fr_payload f"
  by (auto simp: frame_encode_def PROTOCOL_VERSION_def version_bytes)

lemma length_frame_encode:
  "frame_encode f = Inr bs \<Longrightarrow> length bs = HEADER_SIZE + length (fr_payload f)"
  by (auto simp: frame_encode_Inr_iff HEADER_SIZE_def)

lemma frame_encode_bound: "frame_encode f = Inr bs \<Longrightarrow> length bs \<le> MAX_FRAME_SIZE"
  by (auto simp: frame_encode_Inr_iff HEADER_SIZE_def MAX_FRAME_SIZE_def)

lemma frame_decode_encode:
  assumes "frame_encode f = Inr bs"
  shows "frame_decode bs = Inr f"
proof -
  have v: "fr_version f = PROTOCOL_VERSION"
    and len: "length (fr_payload f) \<le> 1048569"
    and bs: "bs = [0, 2, mt_code (fr_type f)] @ be_bytes 4 (length (fr_payload f)) @ fr_payload f"
    using assms by (simp_all add: frame_encode_Inr_iff MAX_FRAME_SIZE_def HEADER_SIZE_def)
  have "take 2 bs = [] @ [0] @ [2]"
    by (simp add: bs numeral_2_eq_2)
  then have "(word_of_nat (from_be (take 2 bs)) :: u16) = PROTOCOL_VERSION"
    by (simp add: PROTOCOL_VERSION_def from_be_def)
  moreover have "take 4 (drop 3 bs) = be_bytes 4 (length (fr_payload f))"
    by (simp add: bs)
  moreover have "from_be (be_bytes 4 (length (fr_payload f))) = length (fr_payload f)"
    using len by (intro from_be_be_bytes) simp
  moreover have "bs ! 2 = mt_code (fr_type f)" "drop 7 bs = fr_payload f" "length bs = 7 + length (fr_payload f)"
    by (simp_all add: bs)
  ultimately show ?thesis
    using len v by (cases f) (simp add: frame_decode_def MAX_FRAME_SIZE_def HEADER_SIZE_def Let_def)
qed

lemma three_bytes: "length bs \<ge> 3 \<Longrightarrow> bs = take 2 bs @ [bs ! 2] @ drop 3 bs"
  by (metis Cons_nth_drop_Suc One_nat_def Suc_1 Suc_le_lessD append.left_neutral append_Cons
      append_take_drop_id numeral_3_eq_3)

lemma frame_encode_decode:
  assumes "frame_decode bs = Inr f"
  shows "frame_encode f = Inr bs"
proof -
  have len: "7 \<le> length bs" "length bs \<le> 1048576"
    and v: "fr_version f = PROTOCOL_VERSION"
    and ver: "(word_of_nat (from_be (take 2 bs)) :: u16) = PROTOCOL_VERSION"
    and l: "from_be (take 4 (drop 3 bs)) = length bs - 7"
    and t: "bs ! 2 = mt_code (fr_type f)"
    and p: "fr_payload f = drop 7 bs"
    using assms
    by (auto simp: frame_decode_def Let_def MAX_FRAME_SIZE_def HEADER_SIZE_def res_simps
        mt_try_from_iff split: if_splits)
  have l2: "length (take 2 bs) = 2" and l4: "length (take 4 (drop 3 bs)) = 4"
    using len by simp_all
  have "from_be (take 2 bs) = 2"
  proof -
    have "from_be (take 2 bs) < 65536"
      using from_be_less [of "take 2 bs"] l2 by simp
    moreover have "unat (word_of_nat (from_be (take 2 bs)) :: u16) = 2"
      by (simp only: ver PROTOCOL_VERSION_def) simp
    ultimately show ?thesis
      by (simp add: unat_of_nat take_bit_eq_mod)
  qed
  then have "take 2 bs = be_bytes 2 2"
    using be_bytes_from_be [of "take 2 bs"] l2 by simp
  moreover have "take 4 (drop 3 bs) = be_bytes 4 (length bs - 7)"
    using be_bytes_from_be [of "take 4 (drop 3 bs)"] l4 l by simp
  moreover have "drop 3 bs = take 4 (drop 3 bs) @ drop 7 bs"
    using append_take_drop_id [of 4 "drop 3 bs"] by simp
  moreover have "bs = take 2 bs @ [bs ! 2] @ drop 3 bs"
    using len by (intro three_bytes) simp
  ultimately show ?thesis
    using len v t p
    by (simp add: frame_encode_def PROTOCOL_VERSION_def MAX_FRAME_SIZE_def HEADER_SIZE_def)
qed

text \<open>C32: The decoder accepts exactly the encoder's images: \<open>Frame::decode\<close> returns a frame for a
  byte string if and only if \<open>Frame::encode\<close> of that frame returns the same byte string. No other
  byte string (another version, an unknown type, a wrong length, trailing or missing bytes) is a
  frame, and no frame is lost.\<close>

theorem frame_decode_iff_encode: "frame_decode bs = Inr f \<longleftrightarrow> frame_encode f = Inr bs"
  using frame_decode_encode frame_encode_decode by blast

lemma decode_payload_frame_new:
  assumes "codec_ok c" and "frame_new c t x = Inr f"
  shows "decode_payload c f = Inr x" and "fr_type f = t" and "fr_version f = PROTOCOL_VERSION"
    and "\<exists>bs. frame_encode f = Inr bs"
  using assms
  by (auto simp: frame_new_def decode_payload_def frame_encode_Inr_iff res_simps codec_okD0
      split: if_splits)

lemma frame_new_decode:
  assumes "codec_ok c" and "frame_new c t x = Inr f" and "frame_encode f = Inr bs"
  shows "res_bind (frame_decode bs) (\<lambda>f. decode_payload c f) = Inr x"
  using assms by (simp add: frame_decode_encode decode_payload_frame_new)

subsection \<open>Handshake messages\<close>

(* @src crates/sensor-protocol/src/lib.rs:141-150 ClientHelloUnsigned *)
record client_unsigned =
  cu_version :: u16
  cu_device_id :: device_id
  cu_target_device_id :: device_id
  cu_target_identity_key :: bytes
  cu_identity_public_key :: bytes
  cu_ephemeral_public_key :: bytes
  cu_nonce :: bytes

(* @src crates/sensor-protocol/src/lib.rs:129-139 ClientHello *)
record client_hello =
  ch_version :: u16
  ch_device_id :: device_id
  ch_target_device_id :: device_id
  ch_target_identity_key :: bytes
  ch_identity_public_key :: bytes
  ch_ephemeral_public_key :: bytes
  ch_nonce :: bytes
  ch_signature :: bytes

(* @src crates/sensor-protocol/src/lib.rs:183-191 ServerHelloUnsigned *)
record server_unsigned =
  su_version :: u16
  su_device_id :: device_id
  su_identity_public_key :: bytes
  su_ephemeral_public_key :: bytes
  su_client_nonce :: bytes
  su_nonce :: bytes

(* @src crates/sensor-protocol/src/lib.rs:172-181 ServerHello *)
record server_hello =
  sh_version :: u16
  sh_device_id :: device_id
  sh_identity_public_key :: bytes
  sh_ephemeral_public_key :: bytes
  sh_client_nonce :: bytes
  sh_nonce :: bytes
  sh_signature :: bytes

text \<open>The serializer at the types the handshake uses it at.\<close>

record proto_codecs =
  pc_client_unsigned :: "client_unsigned codec"
  pc_server_unsigned :: "server_unsigned codec"
  pc_client_hello :: "client_hello codec"
  pc_server_hello :: "server_hello codec"

definition proto_codecs_ok :: "proto_codecs \<Rightarrow> bool" where
  "proto_codecs_ok P \<longleftrightarrow>
     codec_ok (pc_client_unsigned P) \<and> codec_ok (pc_server_unsigned P) \<and>
     codec_ok (pc_client_hello P) \<and> codec_ok (pc_server_hello P)"

(* @src crates/sensor-protocol/src/lib.rs:153-163 ClientHello::unsigned_bytes *)
definition client_unsigned_of :: "client_hello \<Rightarrow> client_unsigned" where
  "client_unsigned_of c =
     \<lparr>cu_version = ch_version c, cu_device_id = ch_device_id c,
      cu_target_device_id = ch_target_device_id c,
      cu_target_identity_key = ch_target_identity_key c,
      cu_identity_public_key = ch_identity_public_key c,
      cu_ephemeral_public_key = ch_ephemeral_public_key c, cu_nonce = ch_nonce c\<rparr>"

(* @src crates/sensor-protocol/src/lib.rs:152-164 ClientHello::unsigned_bytes *)
definition client_unsigned_bytes :: "proto_codecs \<Rightarrow> client_hello \<Rightarrow> protocol_error + bytes" where
  "client_unsigned_bytes P c =
     ok_or (cd_ser (pc_client_unsigned P) (client_unsigned_of c)) SerializationError"

(* @src crates/sensor-protocol/src/lib.rs:194-203 ServerHello::unsigned_bytes *)
definition server_unsigned_of :: "server_hello \<Rightarrow> server_unsigned" where
  "server_unsigned_of s =
     \<lparr>su_version = sh_version s, su_device_id = sh_device_id s,
      su_identity_public_key = sh_identity_public_key s,
      su_ephemeral_public_key = sh_ephemeral_public_key s,
      su_client_nonce = sh_client_nonce s, su_nonce = sh_nonce s\<rparr>"

(* @src crates/sensor-protocol/src/lib.rs:193-204 ServerHello::unsigned_bytes *)
definition server_unsigned_bytes :: "proto_codecs \<Rightarrow> server_hello \<Rightarrow> protocol_error + bytes" where
  "server_unsigned_bytes P s =
     ok_or (cd_ser (pc_server_unsigned P) (server_unsigned_of s)) SerializationError"

(* @src crates/sensor-protocol/src/lib.rs:166-170 client_signature_bytes *)
definition client_signature_bytes :: "proto_codecs \<Rightarrow> client_hello \<Rightarrow> protocol_error + bytes" where
  "client_signature_bytes P c =
     res_bind (client_unsigned_bytes P c) (\<lambda>u.
       Inr (ascii_bytes ''SENSOR Remote Access/client-hello/v1'' @ u))"

(* @src crates/sensor-protocol/src/lib.rs:206-215 server_signature_bytes *)
definition server_signature_bytes ::
  "proto_codecs \<Rightarrow> client_hello \<Rightarrow> server_hello \<Rightarrow> protocol_error + bytes" where
  "server_signature_bytes P c s =
     res_bind (client_unsigned_bytes P c) (\<lambda>u.
     res_bind (server_unsigned_bytes P s) (\<lambda>v.
       Inr (ascii_bytes ''SENSOR Remote Access/server-hello/v1'' @ u @ ch_signature c @ v)))"

(* @src crates/sensor-protocol/src/lib.rs:217-227 handshake_transcript *)
definition handshake_transcript ::
  "proto_codecs \<Rightarrow> client_hello \<Rightarrow> server_hello \<Rightarrow> protocol_error + bytes" where
  "handshake_transcript P c s =
     res_bind (client_unsigned_bytes P c) (\<lambda>u.
     res_bind (server_unsigned_bytes P s) (\<lambda>v.
       Inr (ascii_bytes ''SENSOR Remote Access/handshake/v1'' @ u @ ch_signature c
            @ v @ sh_signature s)))"

(* @src crates/sensor-protocol/src/lib.rs:229-234 transcript_digest *)
definition transcript_digest ::
  "(bytes \<Rightarrow> bytes) \<Rightarrow> proto_codecs \<Rightarrow> client_hello \<Rightarrow> server_hello \<Rightarrow> protocol_error + bytes" where
  "transcript_digest sha256 P c s =
     res_bind (handshake_transcript P c s) (\<lambda>t. Inr (sha256 t))"

lemma client_unsigned_of_inject:
  "client_unsigned_of c = client_unsigned_of d \<and> ch_signature c = ch_signature d \<longleftrightarrow> c = d"
  by (cases c; cases d) (auto simp: client_unsigned_of_def)

lemma server_unsigned_of_inject:
  "server_unsigned_of c = server_unsigned_of d \<and> sh_signature c = sh_signature d \<longleftrightarrow> c = d"
  by (cases c; cases d) (auto simp: server_unsigned_of_def)

text \<open>The shared shape of the three byte strings: both unsigned messages are recovered.\<close>

lemma hello_bytes_inject:
  assumes ok: "proto_codecs_ok P"
    and u: "cd_ser (pc_client_unsigned P) (client_unsigned_of c) = Some u"
    and u': "cd_ser (pc_client_unsigned P) (client_unsigned_of c') = Some u'"
    and v: "cd_ser (pc_server_unsigned P) (server_unsigned_of s) = Some v"
    and v': "cd_ser (pc_server_unsigned P) (server_unsigned_of s') = Some v'"
    and len: "length (ch_signature c) = length (ch_signature c')"
    and eq: "u @ ch_signature c @ v @ r = u' @ ch_signature c' @ v' @ r'"
  shows "c = c' \<and> server_unsigned_of s = server_unsigned_of s' \<and> r = r'"
proof -
  have "client_unsigned_of c = client_unsigned_of c'
      \<and> ch_signature c @ v @ r = ch_signature c' @ v' @ r'"
    using codec_prefix_inj [OF _ u u' eq] ok by (simp add: proto_codecs_ok_def)
  moreover from this have sig: "ch_signature c = ch_signature c'" and "v @ r = v' @ r'"
    using len by auto
  moreover from this have "server_unsigned_of s = server_unsigned_of s' \<and> r = r'"
    using codec_prefix_inj [OF _ v v'] ok by (simp add: proto_codecs_ok_def)
  ultimately show ?thesis
    using client_unsigned_of_inject by blast
qed

text \<open>The handshake transcript binds every field of both messages: with the serializer's round
  trip and client signatures of one length (a verified Ed25519 signature has 64 bytes), two
  handshakes with the same transcript have the same \<open>ClientHello\<close> and \<open>ServerHello\<close>, so the hash that
  keys the session distinguishes any change to identifiers, keys, nonces or signatures.\<close>

theorem handshake_transcript_binds:
  assumes "proto_codecs_ok P"
    and "handshake_transcript P c s = Inr t" and "handshake_transcript P c' s' = Inr t"
    and "length (ch_signature c) = length (ch_signature c')"
  shows "c = c' \<and> s = s'"
proof -
  obtain u v u' v' where
    "cd_ser (pc_client_unsigned P) (client_unsigned_of c) = Some u"
    "cd_ser (pc_client_unsigned P) (client_unsigned_of c') = Some u'"
    "cd_ser (pc_server_unsigned P) (server_unsigned_of s) = Some v"
    "cd_ser (pc_server_unsigned P) (server_unsigned_of s') = Some v'"
    "u @ ch_signature c @ v @ sh_signature s = u' @ ch_signature c' @ v' @ sh_signature s'"
    using assms(2,3)
    by (auto simp: handshake_transcript_def client_unsigned_bytes_def server_unsigned_bytes_def
        res_simps)
  from hello_bytes_inject [OF assms(1) this(1-4) assms(4) this(5)] show ?thesis
    using server_unsigned_of_inject [of s s'] by simp
qed

lemma server_signature_binds:
  assumes "proto_codecs_ok P"
    and "server_signature_bytes P c s = Inr t" and "server_signature_bytes P c' s' = Inr t"
    and "length (ch_signature c) = length (ch_signature c')"
  shows "c = c' \<and> server_unsigned_of s = server_unsigned_of s'"
proof -
  obtain u v u' v' where
    "cd_ser (pc_client_unsigned P) (client_unsigned_of c) = Some u"
    "cd_ser (pc_client_unsigned P) (client_unsigned_of c') = Some u'"
    "cd_ser (pc_server_unsigned P) (server_unsigned_of s) = Some v"
    "cd_ser (pc_server_unsigned P) (server_unsigned_of s') = Some v'"
    "u @ ch_signature c @ v @ [] = u' @ ch_signature c' @ v' @ []"
    using assms(2,3)
    by (auto simp: server_signature_bytes_def client_unsigned_bytes_def server_unsigned_bytes_def
        res_simps)
  from hello_bytes_inject [OF assms(1) this(1-4) assms(4) this(5)] show ?thesis
    by simp
qed

lemma client_signature_binds:
  assumes "proto_codecs_ok P"
    and "client_signature_bytes P c = Inr t" and "client_signature_bytes P c' = Inr t"
  shows "client_unsigned_of c = client_unsigned_of c'"
  using assms codec_prefix_inj [of "pc_client_unsigned P" _ _ _ _ "[]" "[]"]
  by (auto simp: client_signature_bytes_def client_unsigned_bytes_def res_simps proto_codecs_ok_def)

subsection \<open>A serializer for concrete runs\<close>

text \<open>One instance of the codec parameters that satisfies \<open>proto_codecs_ok\<close>, for the witnesses.\<close>

definition codec_did :: "device_id codec" where
  "codec_did = codec_conv (\<lambda>d. unat (did_value d)) (\<lambda>n. DeviceId (word_of_nat n)) (codec_be 4)"

definition demo_codecs :: proto_codecs where
  "demo_codecs =
     (let c16 = codec_conv unat word_of_nat (codec_be 2);
          cu = codec_pair c16 (codec_pair codec_did (codec_pair codec_did (codec_pair codec_blob
            (codec_pair codec_blob (codec_pair codec_blob codec_blob)))));
          su = codec_pair c16 (codec_pair codec_did (codec_pair codec_blob (codec_pair codec_blob
            (codec_pair codec_blob codec_blob))))
      in \<lparr>pc_client_unsigned = codec_conv (\<lambda>u. (cu_version u, cu_device_id u, cu_target_device_id u,
             cu_target_identity_key u, cu_identity_public_key u, cu_ephemeral_public_key u, cu_nonce u))
             (\<lambda>(a, b, c, d, e, f, g). client_unsigned.make a b c d e f g) cu,
          pc_server_unsigned = codec_conv (\<lambda>u. (su_version u, su_device_id u,
             su_identity_public_key u, su_ephemeral_public_key u, su_client_nonce u, su_nonce u))
             (\<lambda>(a, b, c, d, e, f). server_unsigned.make a b c d e f) su,
          pc_client_hello = codec_conv (\<lambda>u. ((ch_version u, ch_device_id u, ch_target_device_id u,
             ch_target_identity_key u, ch_identity_public_key u, ch_ephemeral_public_key u, ch_nonce u),
             ch_signature u))
             (\<lambda>((a, b, c, d, e, f, g), h). client_hello.make a b c d e f g h) (codec_pair cu codec_blob),
          pc_server_hello = codec_conv (\<lambda>u. ((sh_version u, sh_device_id u,
             sh_identity_public_key u, sh_ephemeral_public_key u, sh_client_nonce u, sh_nonce u),
             sh_signature u))
             (\<lambda>((a, b, c, d, e, f), g). server_hello.make a b c d e f g) (codec_pair su codec_blob)\<rparr>)"

lemma codec_did_ok [intro, simp]: "codec_ok codec_did"
proof -
  have "DeviceId (word_of_nat (unat (did_value d))) = d" for d
    by (cases d) simp
  then show ?thesis
    unfolding codec_did_def by blast
qed

lemma demo_codecs_ok: "proto_codecs_ok demo_codecs"
  unfolding proto_codecs_ok_def demo_codecs_def Let_def
  by simp (intro conjI codec_conv_ok codec_pair_ok codec_be_ok codec_blob_ok codec_did_ok;
    simp add: client_unsigned.defs server_unsigned.defs client_hello.defs server_hello.defs)

definition demo_key :: "nat \<Rightarrow> bytes" where
  "demo_key n = replicate 32 (word_of_nat n)"

definition demo_client_hello :: client_hello where
  "demo_client_hello =
     \<lparr>ch_version = 2, ch_device_id = DeviceId 111111111, ch_target_device_id = DeviceId 222222222,
      ch_target_identity_key = demo_key 2, ch_identity_public_key = demo_key 1,
      ch_ephemeral_public_key = demo_key 3, ch_nonce = demo_key 4, ch_signature = replicate 64 9\<rparr>"

definition demo_server_hello :: server_hello where
  "demo_server_hello =
     \<lparr>sh_version = 2, sh_device_id = DeviceId 222222222, sh_identity_public_key = demo_key 2,
      sh_ephemeral_public_key = demo_key 5, sh_client_nonce = demo_key 4, sh_nonce = demo_key 6,
      sh_signature = replicate 64 8\<rparr>"

lemma demo_transcript: "\<exists>t. handshake_transcript demo_codecs demo_client_hello demo_server_hello = Inr t"
  by (simp add: handshake_transcript_def client_unsigned_bytes_def server_unsigned_bytes_def
      client_unsigned_of_def server_unsigned_of_def demo_codecs_def Let_def codec_conv_def
      codec_pair_def codec_be_def codec_blob_def codec_did_def demo_client_hello_def
      demo_server_hello_def demo_key_def)

lemma handshake_transcript_binds_witness:
  "\<exists>t. handshake_transcript demo_codecs demo_client_hello demo_server_hello = Inr t \<and>
     (\<forall>s'. handshake_transcript demo_codecs demo_client_hello s' \<noteq> Inr t \<or> s' = demo_server_hello)"
  using handshake_transcript_binds [OF demo_codecs_ok, of demo_client_hello demo_server_hello _
      demo_client_hello] demo_transcript by metis

end
