(* ===== verification/Sensor_Transport.thy ===== *)
theory Sensor_Transport
  imports Sensor_Protocol
begin

section \<open>sensor-transport: length-delimited framing\<close>

text \<open>
  \<open>encode_length_delimited\<close> and the incremental decoder \<open>decode_next\<close>, whose buffer is the state.
  The abstract specification is a list of frames: \<open>pump\<close> is the loop that calls the decoder until
  it needs more bytes and \<open>on_chunks\<close> calls it after every read of a socket. The lemmas show that
  the decoder reads exactly the encoder's images and that the chunks the network happens to
  deliver make no difference.
\<close>

(* @src crates/sensor-transport/src/lib.rs:12-12 LENGTH_PREFIX_SIZE *)
definition LENGTH_PREFIX_SIZE :: nat where
  "LENGTH_PREFIX_SIZE = 4"

(* @src crates/sensor-transport/src/lib.rs:14-20 TransportError *)
datatype transport_error = TE_Protocol protocol_error | TE_FrameTooLarge

(* @src crates/sensor-transport/src/lib.rs:22-32 encode_length_delimited *)
definition encode_length_delimited :: "frame \<Rightarrow> transport_error + bytes" where
  "encode_length_delimited f =
     res_bind (map_err TE_Protocol (frame_encode f)) (\<lambda>payload.
       if length payload > MAX_FRAME_SIZE then Inl TE_FrameTooLarge
       else if length payload \<ge> 2 ^ 32 then Inl TE_FrameTooLarge
       else Inr (be_bytes 4 (length payload) @ payload))"

(* @src crates/sensor-transport/src/lib.rs:34-53 decode_next *)
definition decode_next :: "bytes \<Rightarrow> (transport_error + frame option) \<times> bytes" where
  "decode_next buffer =
     (if length buffer < LENGTH_PREFIX_SIZE then (Inr None, buffer)
      else let n = from_be (take LENGTH_PREFIX_SIZE buffer) in
        if n > MAX_FRAME_SIZE then (Inl TE_FrameTooLarge, buffer)
        else if length buffer < LENGTH_PREFIX_SIZE + n then (Inr None, buffer)
        else case frame_decode (take n (drop LENGTH_PREFIX_SIZE buffer)) of
            Inl e \<Rightarrow> (Inl (TE_Protocol e), buffer)
          | Inr f \<Rightarrow> (Inr (Some f), drop (LENGTH_PREFIX_SIZE + n) buffer))"

lemma encode_length_delimited_Inr_iff:
  "encode_length_delimited f = Inr e \<longleftrightarrow>
     (\<exists>p. frame_encode f = Inr p \<and> e = be_bytes 4 (length p) @ p)"
  using frame_encode_bound [of f]
  by (fastforce simp: encode_length_delimited_def res_simps MAX_FRAME_SIZE_def)

lemma decode_next_encoded:
  assumes "encode_length_delimited f = Inr e"
  shows "decode_next (e @ r) = (Inr (Some f), r)"
proof -
  obtain p where p: "frame_encode f = Inr p" and e: "e = be_bytes 4 (length p) @ p"
    using assms by (auto simp: encode_length_delimited_Inr_iff)
  have len: "length p \<le> 1048576"
    using frame_encode_bound [OF p] by (simp add: MAX_FRAME_SIZE_def)
  then have "from_be (be_bytes 4 (length p)) = length p"
    by (intro from_be_be_bytes) simp
  then show ?thesis
    using len p by (simp add: decode_next_def Let_def LENGTH_PREFIX_SIZE_def e MAX_FRAME_SIZE_def
        frame_decode_encode)
qed

lemma decode_next_Some:
  assumes "decode_next b = (Inr (Some f), r)"
  shows "\<exists>e. encode_length_delimited f = Inr e \<and> b = e @ r"
proof -
  let ?n = "from_be (take 4 b)"
  have len: "4 + ?n \<le> length b" and dec: "frame_decode (take ?n (drop 4 b)) = Inr f"
    and r: "r = drop (4 + ?n) b"
    using assms
    by (auto simp: decode_next_def Let_def LENGTH_PREFIX_SIZE_def split: if_splits sum.splits)
  have "frame_encode f = Inr (take ?n (drop 4 b))"
    using dec by (simp add: frame_encode_decode)
  moreover have "be_bytes 4 ?n = take 4 b"
    using be_bytes_from_be [of "take 4 b"] len by simp
  moreover have "length (take ?n (drop 4 b)) = ?n"
    using len by simp
  moreover have "b = take 4 b @ take ?n (drop 4 b) @ r"
    by (metis r append_take_drop_id drop_drop add.commute)
  ultimately show ?thesis
    by (intro exI [of _ "take 4 b @ take ?n (drop 4 b)"])
      (simp add: encode_length_delimited_Inr_iff)
qed

text \<open>The incremental decoder is exact: it returns a frame and the remaining bytes if and only
  if the buffer starts with that frame's length-delimited encoding, and the remainder is the rest.\<close>

theorem decode_next_iff_encoded:
  "decode_next b = (Inr (Some f), r) \<longleftrightarrow> (\<exists>e. encode_length_delimited f = Inr e \<and> b = e @ r)"
  using decode_next_Some decode_next_encoded by blast

lemma decode_next_keeps:
  assumes "fst (decode_next b) = Inr None \<or> (\<exists>e. fst (decode_next b) = Inl e)"
  shows "snd (decode_next b) = b"
  using assms by (auto simp: decode_next_def Let_def split: if_splits sum.splits)

lemma decode_next_None_bound:
  "fst (decode_next b) = Inr None \<Longrightarrow> length b < LENGTH_PREFIX_SIZE + MAX_FRAME_SIZE"
  by (auto simp: decode_next_def Let_def LENGTH_PREFIX_SIZE_def MAX_FRAME_SIZE_def
      split: if_splits sum.splits)

lemma decode_next_error_append:
  "fst (decode_next b) = Inl e \<Longrightarrow> fst (decode_next (b @ c)) = Inl e"
  by (auto simp: decode_next_def Let_def LENGTH_PREFIX_SIZE_def split: if_splits sum.splits)

lemma decode_next_Some_append:
  "decode_next b = (Inr (Some f), r) \<Longrightarrow> decode_next (b @ c) = (Inr (Some f), r @ c)"
  using decode_next_Some [of b f r] decode_next_encoded [of f _ "r @ c"] by auto

subsection \<open>The receive loop\<close>

lemma decode_next_shrinks: "decode_next b = (Inr (Some f), r) \<Longrightarrow> length r < length b"
  by (auto dest!: decode_next_Some simp: encode_length_delimited_Inr_iff)

function (sequential) pump :: "bytes \<Rightarrow> frame list \<times> (transport_error + bytes)" where
  "pump b =
     (case decode_next b of
        (Inl e, _) \<Rightarrow> ([], Inl e)
      | (Inr None, r) \<Rightarrow> ([], Inr r)
      | (Inr (Some f), r) \<Rightarrow> (f # fst (pump r), snd (pump r)))"
  by pat_completeness auto
termination
  by (relation "measure length") (auto dest: decode_next_shrinks [OF sym] decode_next_shrinks)

declare pump.simps [simp del]

fun on_chunks :: "bytes \<Rightarrow> bytes list \<Rightarrow> frame list \<times> (transport_error + bytes)" where
  "on_chunks b [] = ([], Inr b)"
| "on_chunks b (c # cs) =
     (case pump (b @ c) of
        (fs, Inl e) \<Rightarrow> (fs, Inl e)
      | (fs, Inr r) \<Rightarrow> (fs @ fst (on_chunks r cs), snd (on_chunks r cs)))"

lemma pump_Nil [simp]: "pump [] = ([], Inr [])"
  by (simp add: pump.simps decode_next_def LENGTH_PREFIX_SIZE_def)

lemma pump_error: "fst (decode_next b) = Inl e \<Longrightarrow> pump b = ([], Inl e)"
  by (cases "decode_next b") (simp add: pump.simps [of b])

lemma pump_wait: "fst (decode_next b) = Inr None \<Longrightarrow> pump b = ([], Inr b)"
  using decode_next_keeps [of b] by (cases "decode_next b") (simp add: pump.simps [of b])

lemma pump_frame:
  "decode_next b = (Inr (Some f), r) \<Longrightarrow> pump b = (f # fst (pump r), snd (pump r))"
  by (simp add: pump.simps [of b])

lemma decode_next_cases:
  obtains (error) e where "fst (decode_next b) = Inl e"
  | (wait) "fst (decode_next b) = Inr None"
  | (got) f r where "decode_next b = (Inr (Some f), r)"
  by (cases "decode_next b"; cases "fst (decode_next b)") auto

lemma pump_append:
  "pump (b @ c) =
     (case pump b of
        (fs, Inl e) \<Rightarrow> (fs, Inl e)
      | (fs, Inr r) \<Rightarrow> (fs @ fst (pump (r @ c)), snd (pump (r @ c))))"
proof (induction b rule: measure_induct_rule [where f = length])
  case (less b)
  show ?case
  proof (cases b rule: decode_next_cases)
    case (error e)
    then show ?thesis
      by (simp add: pump_error decode_next_error_append)
  next
    case wait
    then show ?thesis
      by (simp add: pump_wait)
  next
    case (got f r)
    then show ?thesis
      using less.IH [OF decode_next_shrinks [OF got]] decode_next_Some_append [OF got, of c]
      by (simp add: pump_frame split: prod.splits sum.splits)
  qed
qed

lemma pump_rest: "pump b = (fs, Inr r) \<Longrightarrow> pump r = ([], Inr r)"
proof (induction b arbitrary: fs rule: measure_induct_rule [where f = length])
  case (less b)
  show ?case
  proof (cases b rule: decode_next_cases)
    case (got f s)
    then show ?thesis
      using less.IH [OF decode_next_shrinks [OF got]] less.prems
      by (cases "pump s") (simp add: pump_frame)
  qed (use less.prems in \<open>auto simp: pump_error pump_wait\<close>)
qed

lemma on_chunks_pump: "pump b = ([], Inr b) \<Longrightarrow> on_chunks b cs = pump (b @ concat cs)"
proof (induction cs arbitrary: b)
  case (Cons c cs)
  show ?case
  proof (cases "pump (b @ c)")
    case (Pair fs r)
    then show ?thesis
      using Cons.IH pump_rest [of "b @ c"] pump_append [of "b @ c" "concat cs"]
      by (cases r) auto
  qed
qed simp

text \<open>The receive loop does not depend on how the network splits the stream: feeding any chunks
  one after the other to the decoder gives the same frames, the same error or the same unread
  remainder as feeding their concatenation at once.\<close>

theorem on_chunks_concat: "on_chunks [] cs = pump (concat cs)"
  using on_chunks_pump [of "[]" cs] by simp

lemma pump_encoded:
  "list_all2 (\<lambda>f e. encode_length_delimited f = Inr e) fs es \<Longrightarrow> pump (concat es) = (fs, Inr [])"
proof (induction rule: list_all2_induct)
  case (Cons f fs e es)
  then show ?case
    by (simp add: pump.simps [of "e @ concat es"] decode_next_encoded)
qed simp

text \<open>C31: A stream of frames survives transport: whatever chunks the concatenated encodings of a list
  of frames arrive in, the receiver obtains exactly that list, in order, with an empty buffer.\<close>

theorem stream_roundtrip:
  assumes "list_all2 (\<lambda>f e. encode_length_delimited f = Inr e) fs es"
    and "concat cs = concat es"
  shows "on_chunks [] cs = (fs, Inr [])"
  using pump_encoded [OF assms(1)] on_chunks_pump [of "[]" cs] assms(2) by simp

lemma stream_roundtrip_witness:
  "on_chunks [] [[0, 0, 0], [8, 0, 2, 3, 0, 0, 0, 1], [42, 0, 0], [0, 7, 0, 2, 5, 0, 0, 0, 0]] =
     ([\<lparr>fr_version = 2, fr_type = MT_Control, fr_payload = [42]\<rparr>,
       \<lparr>fr_version = 2, fr_type = MT_Close, fr_payload = []\<rparr>], Inr [])"
  by (rule stream_roundtrip
      [of _ "[[0, 0, 0, 8, 0, 2, 3, 0, 0, 0, 1, 42], [0, 0, 0, 7, 0, 2, 5, 0, 0, 0, 0]]"])
    (simp_all add: encode_length_delimited_Inr_iff frame_encode_Inr_iff PROTOCOL_VERSION_def
      MAX_FRAME_SIZE_def HEADER_SIZE_def be_bytes_numeral)

end
