(* ===== verification/Sensor_Crypto.thy ===== *)
theory Sensor_Crypto
  imports Sensor_Prelude
begin

section \<open>sensor-crypto: key derivation and the ordered secure channel\<close>

text \<open>
  The primitives (Ed25519, X25519, SHA-256, HKDF, ChaCha20-Poly1305) are third-party crates: the
  record \<open>crypto_lib\<close> holds their functions and the predicates after it state the documented
  behaviour the program relies on. What the crate itself does is modelled in full: signature
  checking, key agreement with the contributory check, the derivation of the two directional keys,
  the nonces and \<open>SecureChannel\<close>. The locale \<open>secure_stream\<close> is the contract of an ordered
  channel; the channel interprets it here and the record layer relies on it.
\<close>

subsection \<open>The primitives\<close>

record crypto_lib =
  ed_public :: "bytes \<Rightarrow> bytes"
  ed_sign :: "bytes \<Rightarrow> bytes \<Rightarrow> bytes"
  ed_key_ok :: "bytes \<Rightarrow> bool"
  ed_verify_strict :: "bytes \<Rightarrow> bytes \<Rightarrow> bytes \<Rightarrow> bool"
  x_public :: "bytes \<Rightarrow> bytes"
  x_dh :: "bytes \<Rightarrow> bytes \<Rightarrow> bytes"
  x_contributory :: "bytes \<Rightarrow> bool"
  sha256 :: "bytes \<Rightarrow> bytes"
  hk_extract :: "bytes \<Rightarrow> bytes \<Rightarrow> bytes"
  hk_expand :: "bytes \<Rightarrow> bytes \<Rightarrow> nat \<Rightarrow> bytes option"
  hk_prk_ok :: "bytes \<Rightarrow> bool"
  aead_seal :: "bytes \<Rightarrow> bytes \<Rightarrow> bytes \<Rightarrow> bytes \<Rightarrow> bytes option"
  aead_open :: "bytes \<Rightarrow> bytes \<Rightarrow> bytes \<Rightarrow> bytes \<Rightarrow> bytes option"

text \<open>Signatures verify under the key they were made with; decryption inverts encryption, the tag
  has 16 bytes, and only a ciphertext that encryption produces is accepted (the AEAD is tidy);
  key agreement is symmetric;
  HKDF expands to 32 bytes, which are long enough to be a pseudo-random key again.\<close>

definition sign_laws :: "crypto_lib \<Rightarrow> bool" where
  "sign_laws L \<longleftrightarrow> (\<forall>seed m. ed_key_ok L (ed_public L seed) \<and> length (ed_sign L seed m) = 64 \<and>
     ed_verify_strict L (ed_public L seed) m (ed_sign L seed m))"

definition aead_laws :: "crypto_lib \<Rightarrow> bool" where
  "aead_laws L \<longleftrightarrow> (\<forall>k n a p c. aead_seal L k n a p = Some c \<longrightarrow>
     aead_open L k n a c = Some p \<and> length c = length p + 16)"

definition aead_tidy :: "crypto_lib \<Rightarrow> bool" where
  "aead_tidy L \<longleftrightarrow> (\<forall>k n a p c. aead_open L k n a c = Some p \<longrightarrow> aead_seal L k n a p = Some c)"

definition kdf_laws :: "crypto_lib \<Rightarrow> bool" where
  "kdf_laws L \<longleftrightarrow> (\<forall>prk info. \<exists>out. hk_expand L prk info 32 = Some out \<and> hk_prk_ok L out)"

definition dh_laws :: "crypto_lib \<Rightarrow> bool" where
  "dh_laws L \<longleftrightarrow> (\<forall>a b. x_dh L a (x_public L b) = x_dh L b (x_public L a))"

lemma aead_lawsD:
  "aead_laws L \<Longrightarrow> aead_seal L k n a p = Some c \<Longrightarrow> aead_open L k n a c = Some p"
  "aead_laws L \<Longrightarrow> aead_seal L k n a p = Some c \<Longrightarrow> length c = length p + 16"
  by (auto simp: aead_laws_def)

lemma sign_lawsD:
  "sign_laws L \<Longrightarrow> ed_key_ok L (ed_public L seed)"
  "sign_laws L \<Longrightarrow> length (ed_sign L seed m) = 64"
  "sign_laws L \<Longrightarrow> ed_verify_strict L (ed_public L seed) m (ed_sign L seed m)"
  by (auto simp: sign_laws_def)

subsection \<open>Signatures, key agreement and key derivation\<close>

(* @src crates/sensor-crypto/src/lib.rs:23-41 CryptoError *)
datatype crypto_error =
    InvalidPublicKey
  | InvalidSignature
  | InvalidPeerKey
  | SignatureVerification
  | KeyDerivation
  | EncryptionFailed
  | Replay u64
  | SequenceOverflow

(* @src crates/sensor-crypto/src/lib.rs:43-60 IdentityKeypair *)
datatype identity_keypair = IdentityKeypair (kp_seed: bytes)

(* @src crates/sensor-crypto/src/lib.rs:62-64 IdentityKeypair::public_key *)
definition kp_public :: "crypto_lib \<Rightarrow> identity_keypair \<Rightarrow> bytes" where
  "kp_public L k = ed_public L (kp_seed k)"

(* @src crates/sensor-crypto/src/lib.rs:66-68 IdentityKeypair::sign *)
definition kp_sign :: "crypto_lib \<Rightarrow> identity_keypair \<Rightarrow> bytes \<Rightarrow> bytes" where
  "kp_sign L k message = ed_sign L (kp_seed k) message"

(* @src crates/sensor-crypto/src/lib.rs:70-83 IdentityKeypair::verify *)
definition identity_verify ::
  "crypto_lib \<Rightarrow> bytes \<Rightarrow> bytes \<Rightarrow> bytes \<Rightarrow> crypto_error + unit" where
  "identity_verify L public_key message signature =
     (if \<not> ed_key_ok L public_key then Inl InvalidPublicKey
      else if length signature \<noteq> 64 then Inl InvalidSignature
      else ensure (ed_verify_strict L public_key message signature) SignatureVerification)"

(* @src crates/sensor-crypto/src/lib.rs:85-95 EphemeralKeypair *)
definition eph_public :: "crypto_lib \<Rightarrow> bytes \<Rightarrow> bytes" where
  "eph_public L secret = x_public L secret"

(* @src crates/sensor-crypto/src/lib.rs:97-106 EphemeralKeypair::diffie_hellman *)
definition eph_diffie_hellman :: "crypto_lib \<Rightarrow> bytes \<Rightarrow> bytes \<Rightarrow> crypto_error + bytes" where
  "eph_diffie_hellman L secret peer =
     (let shared = x_dh L secret peer
      in if \<not> x_contributory L shared then Inl InvalidPeerKey else Inr shared)"

(* @src crates/sensor-crypto/src/lib.rs:108-112 SessionKeys *)
record session_keys =
  sk_i2r :: bytes
  sk_r2i :: bytes

(* @src crates/sensor-crypto/src/lib.rs:19-19 SESSION_INFO *)
definition SESSION_INFO :: bytes where
  "SESSION_INFO = ascii_bytes ''SENSOR Remote Access/session/v1''"

(* @src crates/sensor-crypto/src/lib.rs:20-20 INITIATOR_TO_RESPONDER_INFO *)
definition INITIATOR_TO_RESPONDER_INFO :: bytes where
  "INITIATOR_TO_RESPONDER_INFO = ascii_bytes ''SENSOR Remote Access/session/v1/i2r''"

(* @src crates/sensor-crypto/src/lib.rs:21-21 RESPONDER_TO_INITIATOR_INFO *)
definition RESPONDER_TO_INITIATOR_INFO :: bytes where
  "RESPONDER_TO_INITIATOR_INFO = ascii_bytes ''SENSOR Remote Access/session/v1/r2i''"

(* @src crates/sensor-crypto/src/lib.rs:120-122 transcript_hash *)
definition transcript_hash :: "crypto_lib \<Rightarrow> bytes \<Rightarrow> bytes" where
  "transcript_hash L transcript = sha256 L transcript"

(* @src crates/sensor-crypto/src/lib.rs:124-150 derive_session_keys *)
definition derive_session_keys :: "crypto_lib \<Rightarrow> bytes \<Rightarrow> bytes \<Rightarrow> crypto_error + session_keys" where
  "derive_session_keys L shared_secret transcript =
     (let hkdf = hk_extract L (transcript_hash L transcript) shared_secret in
      res_bind (ok_or (hk_expand L hkdf SESSION_INFO 32) KeyDerivation) (\<lambda>session_prk.
      res_bind (ensure (hk_prk_ok L session_prk) KeyDerivation) (\<lambda>_.
      res_bind (ok_or (hk_expand L session_prk INITIATOR_TO_RESPONDER_INFO 32) KeyDerivation) (\<lambda>i2r.
      res_bind (ok_or (hk_expand L session_prk RESPONDER_TO_INITIATOR_INFO 32) KeyDerivation) (\<lambda>r2i.
      Inr \<lparr>sk_i2r = i2r, sk_r2i = r2i\<rparr>)))))"

lemma identity_verify_Inr_iff:
  "identity_verify L pk m sig = Inr u \<longleftrightarrow>
     ed_key_ok L pk \<and> length sig = 64 \<and> ed_verify_strict L pk m sig"
  by (auto simp: identity_verify_def ensure_def)

lemma derive_session_keys_ok:
  assumes "kdf_laws L"
  shows "\<exists>k. derive_session_keys L shared t = Inr k"
proof -
  have expand: "\<exists>out. hk_expand L prk info 32 = Some out \<and> hk_prk_ok L out" for prk info
    using assms by (simp add: kdf_laws_def)
  obtain a where a: "hk_expand L (hk_extract L (transcript_hash L t) shared) SESSION_INFO 32 = Some a"
    "hk_prk_ok L a"
    using expand by blast
  obtain b c where "hk_expand L a INITIATOR_TO_RESPONDER_INFO 32 = Some b"
    "hk_expand L a RESPONDER_TO_INITIATOR_INFO 32 = Some c"
    using expand by blast
  with a show ?thesis
    by (simp add: derive_session_keys_def)
qed

lemma identity_verify_own: "sign_laws L \<Longrightarrow> identity_verify L (kp_public L k) m (kp_sign L k m) = Inr ()"
  by (simp add: identity_verify_Inr_iff kp_public_def kp_sign_def sign_lawsD)

lemma eph_diffie_hellman_sym:
  "dh_laws L \<Longrightarrow> eph_diffie_hellman L a (eph_public L b) = eph_diffie_hellman L b (eph_public L a)"
  by (simp add: eph_diffie_hellman_def eph_public_def dh_laws_def Let_def)

subsection \<open>Nonces\<close>

(* @src crates/sensor-crypto/src/lib.rs:197-202 make_nonce *)
definition make_nonce :: "u64 \<Rightarrow> bytes" where
  "make_nonce sequence = ascii_bytes ''SNR1'' @ be_bytes 8 (unat sequence)"

lemma length_make_nonce [simp]: "length (make_nonce s) = 12"
  by (simp add: make_nonce_def ascii_bytes_def)

lemma unat64_less: "unat (s :: u64) < 256 ^ 8"
  using unsigned_less [of s] by simp

lemma make_nonce_inject: "make_nonce s = make_nonce t \<longleftrightarrow> s = t"
  using be_bytes_inj [of 8 "unat s" "unat t"] unat64_less [of s] unat64_less [of t]
  by (auto simp: make_nonce_def unsigned_word_eqI)

subsection \<open>The channel\<close>

(* @src crates/sensor-crypto/src/lib.rs:152-156 EncryptedRecord *)
record encrypted_record =
  er_sequence :: u64
  er_ciphertext :: bytes

(* @src crates/sensor-crypto/src/lib.rs:206-211 SecureChannel *)
record secure_channel =
  sc_send :: bytes
  sc_receive :: bytes
  sc_next_send :: u64
  sc_highest :: "u64 option"

(* @src crates/sensor-crypto/src/lib.rs:165-176 AeadCipher::encrypt *)
definition cipher_encrypt :: "crypto_lib \<Rightarrow> bytes \<Rightarrow> u64 \<Rightarrow> bytes \<Rightarrow> bytes \<Rightarrow> crypto_error + bytes" where
  "cipher_encrypt L key sequence aad plaintext =
     ok_or (aead_seal L key (make_nonce sequence) aad plaintext) EncryptionFailed"

(* @src crates/sensor-crypto/src/lib.rs:178-194 AeadCipher::decrypt *)
definition cipher_decrypt :: "crypto_lib \<Rightarrow> bytes \<Rightarrow> u64 \<Rightarrow> bytes \<Rightarrow> bytes \<Rightarrow> crypto_error + bytes" where
  "cipher_decrypt L key sequence aad ciphertext =
     ok_or (aead_open L key (make_nonce sequence) aad ciphertext) EncryptionFailed"

(* @src crates/sensor-crypto/src/lib.rs:214-221 SecureChannel::initiator *)
definition channel_initiator :: "session_keys \<Rightarrow> secure_channel" where
  "channel_initiator keys =
     \<lparr>sc_send = sk_i2r keys, sc_receive = sk_r2i keys, sc_next_send = 0, sc_highest = None\<rparr>"

(* @src crates/sensor-crypto/src/lib.rs:223-230 SecureChannel::responder *)
definition channel_responder :: "session_keys \<Rightarrow> secure_channel" where
  "channel_responder keys =
     \<lparr>sc_send = sk_r2i keys, sc_receive = sk_i2r keys, sc_next_send = 0, sc_highest = None\<rparr>"

definition checked_succ :: "u64 \<Rightarrow> u64 option" where
  "checked_succ x = (if x = - 1 then None else Some (x + 1))"

(* @src crates/sensor-crypto/src/lib.rs:232-242 SecureChannel::seal *)
definition channel_seal ::
  "crypto_lib \<Rightarrow> bytes \<Rightarrow> secure_channel \<Rightarrow> bytes \<Rightarrow> (crypto_error + encrypted_record) \<times> secure_channel" where
  "channel_seal L aad ch plaintext =
     (let sequence = sc_next_send ch in
      case checked_succ (sc_next_send ch) of
        None \<Rightarrow> (Inl SequenceOverflow, ch)
      | Some next \<Rightarrow>
          (res_bind (cipher_encrypt L (sc_send ch) sequence aad plaintext) (\<lambda>c.
             Inr \<lparr>er_sequence = sequence, er_ciphertext = c\<rparr>),
           ch\<lparr>sc_next_send := next\<rparr>))"

(* @src crates/sensor-crypto/src/lib.rs:244-257 SecureChannel::open *)
definition channel_open ::
  "crypto_lib \<Rightarrow> bytes \<Rightarrow> secure_channel \<Rightarrow> encrypted_record \<Rightarrow> (crypto_error + bytes) \<times> secure_channel" where
  "channel_open L aad ch r =
     (case (case sc_highest ch of None \<Rightarrow> Some 0 | Some v \<Rightarrow> checked_succ v) of
        None \<Rightarrow> (Inl SequenceOverflow, ch)
      | Some expected \<Rightarrow>
          if er_sequence r \<noteq> expected then (Inl (Replay (er_sequence r)), ch)
          else case cipher_decrypt L (sc_receive ch) (er_sequence r) aad (er_ciphertext r) of
              Inl e \<Rightarrow> (Inl e, ch)
            | Inr plaintext \<Rightarrow> (Inr plaintext, ch\<lparr>sc_highest := Some (er_sequence r)\<rparr>))"

definition expected_sequence :: "secure_channel \<Rightarrow> u64 option" where
  "expected_sequence ch = (case sc_highest ch of None \<Rightarrow> Some 0 | Some v \<Rightarrow> checked_succ v)"

lemma channel_open_Inr_iff:
  "channel_open L aad ch r = (Inr p, ch') \<longleftrightarrow>
     expected_sequence ch = Some (er_sequence r) \<and>
     aead_open L (sc_receive ch) (make_nonce (er_sequence r)) aad (er_ciphertext r) = Some p \<and>
     ch' = ch\<lparr>sc_highest := Some (er_sequence r)\<rparr>"
  by (auto simp: channel_open_def expected_sequence_def cipher_decrypt_def ok_or_def
      split: option.splits)

lemma channel_open_error_keeps: "channel_open L aad ch r = (Inl e, ch') \<Longrightarrow> ch' = ch"
  by (auto simp: channel_open_def split: option.splits sum.splits if_splits)

lemma channel_seal_Inr_iff:
  "channel_seal L aad ch p = (Inr r, ch') \<longleftrightarrow>
     sc_next_send ch \<noteq> - 1 \<and> er_sequence r = sc_next_send ch \<and>
     aead_seal L (sc_send ch) (make_nonce (sc_next_send ch)) aad p = Some (er_ciphertext r) \<and>
     ch' = ch\<lparr>sc_next_send := sc_next_send ch + 1\<rparr>"
  by (cases r) (auto simp: channel_seal_def checked_succ_def cipher_encrypt_def res_simps Let_def)

lemma unat_checked_succ: "checked_succ x = Some y \<Longrightarrow> unat y = unat x + 1"
  by (auto simp: checked_succ_def unat_succ split: if_splits)

subsection \<open>Ordered streams: the contract\<close>

locale secure_stream =
  fixes tx :: "'s \<Rightarrow> 'm \<Rightarrow> ('e + 'w) \<times> 's"
    and rx :: "'r \<Rightarrow> 'w \<Rightarrow> ('f + 'm) \<times> 'r"
    and linked :: "'s \<Rightarrow> 'r \<Rightarrow> bool"
    and exhausted :: "'s \<Rightarrow> bool"
  assumes delivers: "linked s r \<Longrightarrow> tx s m = (Inr w, s') \<Longrightarrow>
      \<exists>r'. rx r w = (Inr m, r') \<and> linked s' r'"
    and authentic: "linked s r \<Longrightarrow> \<not> exhausted s \<Longrightarrow> rx r w = (Inr m, r') \<Longrightarrow>
      \<exists>s'. tx s m = (Inr w, s')"
begin

lemma stream_delivers:
  "linked s r \<Longrightarrow> run_ok tx s ms = Some (ws, s') \<Longrightarrow>
     \<exists>r'. run_ok rx r ws = Some (ms, r') \<and> linked s' r'"
proof (induction ms arbitrary: s r ws)
  case (Cons m ms)
  then obtain w s1 ws' where tx: "tx s m = (Inr w, s1)"
    and rest: "run_ok tx s1 ms = Some (ws', s')" and ws: "ws = w # ws'"
    by (auto simp only: run_ok_Cons_iff)
  obtain r1 where "rx r w = (Inr m, r1)" "linked s1 r1"
    using delivers [OF Cons.prems(1) tx] by blast
  with Cons.IH [OF _ rest] show ?case
    unfolding ws by (metis run_ok_Cons_iff)
qed simp

text \<open>Whatever an adversary writes on the wire, the accepted prefix is what the sender seals.\<close>

lemma stream_authentic:
  "linked s r \<Longrightarrow> run_ok rx r ws = Some (ms, r') \<Longrightarrow>
     \<exists>k s1. run_ok tx s (take k ms) = Some (take k ws, s1) \<and> (exhausted s1 \<or> length ms \<le> k)"
proof (induction ws arbitrary: s r ms)
  case (Cons w ws)
  then obtain m r1 ms' where rx: "rx r w = (Inr m, r1)"
    and rest: "run_ok rx r1 ws = Some (ms', r')" and ms: "ms = m # ms'"
    by (auto simp only: run_ok_Cons_iff)
  show ?case
  proof (cases "exhausted s")
    case True
    then show ?thesis
      by (intro exI [of _ 0]) simp
  next
    case False
    then obtain s1 where tx: "tx s m = (Inr w, s1)"
      using authentic [OF Cons.prems(1) _ rx] by blast
    then have "linked s1 r1"
      using delivers [OF Cons.prems(1) tx] rx by auto
    from Cons.IH [OF this rest] obtain k s2 where
      "run_ok tx s1 (take k ms') = Some (take k ws, s2)" "exhausted s2 \<or> length ms' \<le> k"
      by blast
    with tx show ?thesis
      by (intro exI [of _ "Suc k"]) (auto simp: ms)
  qed
qed simp

end

text \<open>A sender and a receiver agree on the key of the direction and the receiver expects what the
  sender will send next.\<close>

definition channel_linked :: "crypto_lib \<Rightarrow> secure_channel \<Rightarrow> secure_channel \<Rightarrow> bool" where
  "channel_linked L s r \<longleftrightarrow> aead_laws L \<and> aead_tidy L \<and> sc_send s = sc_receive r \<and>
     expected_sequence r = Some (sc_next_send s)"

definition channel_exhausted :: "secure_channel \<Rightarrow> bool" where
  "channel_exhausted s \<longleftrightarrow> sc_next_send s = - 1"

lemma channel_delivers:
  assumes "channel_linked L s r" and "channel_seal L aad s p = (Inr w, s')"
  shows "\<exists>r'. channel_open L aad r w = (Inr p, r') \<and> channel_linked L s' r'"
  using assms
  by (auto simp: channel_seal_Inr_iff channel_open_Inr_iff channel_linked_def aead_lawsD(1)
      expected_sequence_def checked_succ_def)

lemma channel_authentic:
  assumes "channel_linked L s r" and "\<not> channel_exhausted s"
    and "channel_open L aad r w = (Inr p, r')"
  shows "\<exists>s'. channel_seal L aad s p = (Inr w, s')"
  using assms
  by (auto simp: channel_seal_Inr_iff channel_open_Inr_iff channel_linked_def aead_tidy_def
      channel_exhausted_def)

interpretation chan: secure_stream "channel_seal L aad" "channel_open L aad" "channel_linked L"
    channel_exhausted for L aad
  by unfold_locales (fact channel_delivers, fact channel_authentic)

lemma initiator_responder_linked:
  "aead_laws L \<Longrightarrow> aead_tidy L \<Longrightarrow> channel_linked L (channel_initiator k) (channel_responder k)"
  "aead_laws L \<Longrightarrow> aead_tidy L \<Longrightarrow> channel_linked L (channel_responder k) (channel_initiator k)"
  by (simp_all add: channel_linked_def channel_initiator_def channel_responder_def
      expected_sequence_def)

subsection \<open>Delivery, authenticity and replay\<close>

text \<open>A secure channel delivers in order: when the initiator of a session seals a list of
  plaintexts, the responder opens the resulting records, in order, to exactly that list. The
  hypotheses are the AEAD's documented laws.\<close>

theorem channel_stream_delivers:
  assumes "aead_laws L" and "aead_tidy L"
    and "run_ok (channel_seal L aad) (channel_initiator k) ms = Some (ws, s')"
  shows "\<exists>r'. run_ok (channel_open L aad) (channel_responder k) ws = Some (ms, r')"
  using chan.stream_delivers [OF initiator_responder_linked(1) [OF assms(1,2)] assms(3)] by blast

text \<open>What the responder accepts, the initiator sealed: with a tidy AEAD, any list of records the
  responder opens (whatever was replayed, reordered or modified on the way) is, up to the
  exhaustion of the 64-bit sequence, the list of records the initiator's channel produces for the
  opened plaintexts.\<close>

theorem channel_stream_authentic:
  assumes "aead_laws L" and "aead_tidy L"
    and "run_ok (channel_open L aad) (channel_responder k) ws = Some (ms, r')"
  shows "\<exists>n s'. run_ok (channel_seal L aad) (channel_initiator k) (take n ms) = Some (take n ws, s') \<and>
    (channel_exhausted s' \<or> length ms \<le> n)"
  using chan.stream_authentic [OF initiator_responder_linked(1) [OF assms(1,2)] assms(3)] by blast

text \<open>The receiver run on arbitrary records, failures included: the sequence numbers it accepts.\<close>

fun accepted_run :: "crypto_lib \<Rightarrow> bytes \<Rightarrow> secure_channel \<Rightarrow> encrypted_record list \<Rightarrow> u64 list" where
  "accepted_run L aad ch [] = []"
| "accepted_run L aad ch (r # rs) =
     (case channel_open L aad ch r of
        (Inl _, ch') \<Rightarrow> accepted_run L aad ch' rs
      | (Inr _, ch') \<Rightarrow> er_sequence r # accepted_run L aad ch' rs)"

lemma accepted_run_consecutive:
  "map unat (accepted_run L aad ch rs) =
     (case expected_sequence ch of None \<Rightarrow> []
      | Some e \<Rightarrow> [unat e ..< unat e + length (accepted_run L aad ch rs)])"
proof (induction rs arbitrary: ch)
  case (Cons r rs)
  show ?case
  proof (cases "channel_open L aad ch r")
    case (Pair res ch')
    show ?thesis
    proof (cases res)
      case (Inl e)
      then show ?thesis
        using Pair Cons.IH [of ch] channel_open_error_keeps [of L aad ch r e ch']
        by (simp split: option.splits)
    next
      case (Inr p)
      then have e: "expected_sequence ch = Some (er_sequence r)"
        and ch': "ch' = ch\<lparr>sc_highest := Some (er_sequence r)\<rparr>"
        using Pair by (auto simp: channel_open_Inr_iff)
      have "expected_sequence ch' = checked_succ (er_sequence r)"
        by (simp add: ch' expected_sequence_def)
      then show ?thesis
        using Pair Inr Cons.IH [of ch'] e
        by (cases "checked_succ (er_sequence r)")
          (auto simp: unat_checked_succ upt_conv_Cons simp del: upt_Suc)
    qed
  qed
qed (simp split: option.splits)

text \<open>C3: No replay, no reordering, no gap: whatever records reach a fresh responder, in whatever
  order and with whatever contents, the sequence numbers of the records it accepts are exactly
  0, 1, 2, \<dots> in this order, so no record is ever accepted twice.\<close>

theorem channel_accepts_consecutive:
  "map unat (accepted_run L aad (channel_responder k) rs) =
     [0 ..< length (accepted_run L aad (channel_responder k) rs)]"
  using accepted_run_consecutive [of L aad "channel_responder k" rs]
  by (simp add: channel_responder_def expected_sequence_def)

text \<open>The sender: each successful or failed encryption uses its own sequence number.\<close>

fun used_nonces :: "crypto_lib \<Rightarrow> bytes \<Rightarrow> secure_channel \<Rightarrow> bytes list \<Rightarrow> bytes list" where
  "used_nonces L aad ch [] = []"
| "used_nonces L aad ch (p # ps) =
     (case channel_seal L aad ch p of
        (Inl SequenceOverflow, ch') \<Rightarrow> used_nonces L aad ch' ps
      | (_, ch') \<Rightarrow> make_nonce (sc_next_send ch) # used_nonces L aad ch' ps)"

lemma used_nonces_step:
  "used_nonces L aad ch (p # ps) =
     (if sc_next_send ch = - 1 then used_nonces L aad ch ps
      else make_nonce (sc_next_send ch)
        # used_nonces L aad (ch\<lparr>sc_next_send := sc_next_send ch + 1\<rparr>) ps)"
  by (auto simp: channel_seal_def checked_succ_def cipher_encrypt_def ok_or_def Let_def
      split: option.splits)

lemma used_nonces_range:
  "n \<in> set (used_nonces L aad ch ps) \<Longrightarrow> \<exists>s. n = make_nonce s \<and> sc_next_send ch \<le> s"
proof (induction ps arbitrary: ch)
  case (Cons p ps)
  show ?case
  proof (cases "sc_next_send ch = - 1")
    case False
    then have "sc_next_send ch \<le> sc_next_send ch + 1"
      by (simp add: word_le_nat_alt unat_succ)
    with Cons False show ?thesis
      by (force simp: used_nonces_step simp del: used_nonces.simps)
  next
    case True
    then show ?thesis
      using Cons.IH [of ch] Cons.prems by (simp add: used_nonces_step del: used_nonces.simps)
  qed
qed simp

lemma used_nonces_distinct: "distinct (used_nonces L aad ch ps)"
proof (induction ps arbitrary: ch)
  case (Cons p ps)
  show ?case
  proof (cases "sc_next_send ch = - 1")
    case False
    then have "unat (sc_next_send ch + 1) = unat (sc_next_send ch) + 1"
      by (intro unat_checked_succ) (simp add: checked_succ_def)
    then have "make_nonce (sc_next_send ch) \<notin>
        set (used_nonces L aad (ch\<lparr>sc_next_send := sc_next_send ch + 1\<rparr>) ps)"
      by (auto dest!: used_nonces_range simp: make_nonce_inject word_le_nat_alt)
    with Cons False show ?thesis
      by (simp add: used_nonces_step del: used_nonces.simps)
  qed (use Cons in \<open>simp add: used_nonces_step del: used_nonces.simps\<close>)
qed simp

text \<open>A key never encrypts twice under the same nonce: along any sequence of \<open>seal\<close> calls on a
  channel, whatever their results, the nonces handed to the cipher are pairwise distinct; at the
  end of the 64-bit sequence the channel refuses instead of wrapping around.\<close>

theorem channel_nonces_distinct: "distinct (used_nonces L aad ch ps)"
  by (rule used_nonces_distinct)

subsection \<open>Primitives for concrete runs\<close>

text \<open>One instance of the primitives that satisfies the laws. It is no cryptography and models no code
  of the program: it only shows that the hypotheses can hold together.\<close>

definition demo_tag :: "bytes \<Rightarrow> bytes \<Rightarrow> bytes" where
  "demo_tag k n = take 16 (n @ k @ replicate 16 0)"

definition demo_sign :: "bytes \<Rightarrow> bytes \<Rightarrow> bytes" where
  "demo_sign k m = take 64 (rev m @ k @ replicate 64 0)"

definition demo_lib :: crypto_lib where
  "demo_lib =
     \<lparr>ed_public = (\<lambda>s. s), ed_sign = demo_sign, ed_key_ok = (\<lambda>_. True),
      ed_verify_strict = (\<lambda>k m s. s = demo_sign k m),
      x_public = (\<lambda>s. s), x_dh = (\<lambda>a b. map2 (+) a b), x_contributory = (\<lambda>s. list_ex (\<lambda>x. x \<noteq> 0) s),
      sha256 = (\<lambda>m. take 32 (rev m @ replicate 32 0)),
      hk_extract = (\<lambda>s i. map2 (+) s i), hk_expand = (\<lambda>k i n. Some (take n (rev i @ k @ replicate n 0))),
      hk_prk_ok = (\<lambda>k. length k = 32),
      aead_seal = (\<lambda>k n a p. Some (p @ demo_tag k n)),
      aead_open = (\<lambda>k n a c. if 16 \<le> length c \<and> drop (length c - 16) c = demo_tag k n
        then Some (take (length c - 16) c) else None)\<rparr>"

lemma length_demo_tag [simp]: "length (demo_tag k n) = 16"
  by (simp add: demo_tag_def)

lemma demo_sign_laws: "sign_laws demo_lib"
  by (auto simp: sign_laws_def demo_lib_def demo_sign_def min_def)

lemma demo_aead_laws: "aead_laws demo_lib"
  by (auto simp: aead_laws_def demo_lib_def)

lemma demo_aead_tidy: "aead_tidy demo_lib"
  by (auto simp: aead_tidy_def demo_lib_def intro: append_take_drop_id [symmetric] split: if_splits)
    (metis append_take_drop_id)

lemma demo_kdf_laws: "kdf_laws demo_lib"
  by (auto simp: kdf_laws_def demo_lib_def)

lemma demo_dh_laws: "dh_laws demo_lib"
proof -
  have "map2 (+) a b = map2 (+) b a" for a b :: bytes
    by (simp add: list_eq_iff_nth_eq add.commute min.commute)
  then show ?thesis
    by (simp add: dh_laws_def demo_lib_def)
qed

definition demo_keys :: session_keys where
  "demo_keys = \<lparr>sk_i2r = replicate 32 1, sk_r2i = replicate 32 2\<rparr>"

definition demo_records :: "encrypted_record list" where
  "demo_records =
     [\<lparr>er_sequence = 0, er_ciphertext = [7] @ demo_tag (replicate 32 1) (make_nonce 0)\<rparr>,
      \<lparr>er_sequence = 1, er_ciphertext = [8, 9] @ demo_tag (replicate 32 1) (make_nonce 1)\<rparr>]"

lemma demo_seals:
  "\<exists>s'. run_ok (channel_seal demo_lib []) (channel_initiator demo_keys) [[7], [8, 9]] =
     Some (demo_records, s')"
  by (simp add: channel_seal_def checked_succ_def cipher_encrypt_def demo_lib_def demo_keys_def
      channel_initiator_def demo_records_def Let_def)

lemma demo_opens:
  "\<exists>r'. run_ok (channel_open demo_lib []) (channel_responder demo_keys) demo_records =
     Some ([[7], [8, 9]], r')"
  by (simp add: channel_open_def checked_succ_def cipher_decrypt_def demo_lib_def demo_keys_def
      channel_responder_def demo_records_def)

lemma channel_stream_delivers_witness:
  "\<exists>r'. run_ok (channel_open demo_lib []) (channel_responder demo_keys) demo_records =
     Some ([[7], [8, 9]], r')"
  using channel_stream_delivers [OF demo_aead_laws demo_aead_tidy] demo_seals by blast

lemma channel_stream_authentic_witness:
  "\<exists>n s'. run_ok (channel_seal demo_lib []) (channel_initiator demo_keys) (take n [[7], [8, 9]]) =
       Some (take n demo_records, s') \<and> (channel_exhausted s' \<or> length [[7], [8, 9 :: u8]] \<le> n)"
  using channel_stream_authentic [OF demo_aead_laws demo_aead_tidy] demo_opens by blast

end
