(* ===== verification/Sensor_Session.thy ===== *)
theory Sensor_Session
  imports Sensor_Protocol Sensor_Crypto
begin

section \<open>sensor-session: the mutually authenticated handshake\<close>

text \<open>
  The four handshake steps (start and finish of the initiator, accept and finish of the responder,
  pinned and unpinned) and the session they produce. The values drawn from the operating system's
  generator (ephemeral secrets and nonces) are arguments. The lemmas characterise each step on
  every branch, show that an honest run ends in two sessions whose channels are linked, and that a
  finished initiator agrees with the responder on both messages when the responder's key signs only
  what the program signs.
\<close>

subsection \<open>State\<close>

(* @src crates/sensor-session/src/lib.rs:16-28 SessionError *)
datatype session_error =
    SE_Protocol protocol_error
  | SE_Crypto crypto_error
  | SE_UnsupportedVersion
  | SE_NonceMismatch
  | SE_PeerMismatch

(* @src crates/sensor-session/src/lib.rs:30-36 ExpectedPeer *)
record expected_peer =
  ep_device_id :: device_id
  ep_public_key :: bytes

(* @src crates/sensor-session/src/lib.rs:38-42 InitiatorState *)
record initiator_state =
  is_expected :: expected_peer
  is_ephemeral :: bytes
  is_client_hello :: client_hello

(* @src crates/sensor-session/src/lib.rs:44-48 ResponderState *)
record responder_state =
  rs_ephemeral :: bytes
  rs_client_hello :: client_hello
  rs_server_hello :: server_hello

(* @src crates/sensor-session/src/lib.rs:50-55 SecureSession *)
record secure_session =
  ss_peer_device_id :: device_id
  ss_peer_identity_key :: bytes
  ss_transcript_hash :: bytes
  ss_channel :: secure_channel

(* @src crates/sensor-session/src/lib.rs:70-76 SecureSession::seal *)
definition session_seal ::
  "crypto_lib \<Rightarrow> bytes \<Rightarrow> secure_session \<Rightarrow> bytes \<Rightarrow> (session_error + encrypted_record) \<times> secure_session" where
  "session_seal L aad s plaintext =
     (let (r, ch) = channel_seal L aad (ss_channel s) plaintext
      in (map_err SE_Crypto r, s\<lparr>ss_channel := ch\<rparr>))"

(* @src crates/sensor-session/src/lib.rs:78-84 SecureSession::open *)
definition session_open ::
  "crypto_lib \<Rightarrow> bytes \<Rightarrow> secure_session \<Rightarrow> encrypted_record \<Rightarrow> (session_error + bytes) \<times> secure_session" where
  "session_open L aad s r =
     (let (p, ch) = channel_open L aad (ss_channel s) r
      in (map_err SE_Crypto p, s\<lparr>ss_channel := ch\<rparr>))"

definition zero_key :: bytes where
  "zero_key = replicate 32 0"

subsection \<open>The handshake\<close>

text \<open>\<open>start_initiator\<close> panics when the unsigned hello cannot be serialized: \<open>None\<close>.\<close>

(* @src crates/sensor-session/src/lib.rs:87-113 start_initiator *)
definition start_initiator ::
  "crypto_lib \<Rightarrow> proto_codecs \<Rightarrow> identity_keypair \<Rightarrow> device_id \<Rightarrow> expected_peer \<Rightarrow> bytes \<Rightarrow> bytes
     \<Rightarrow> (initiator_state \<times> client_hello) option" where
  "start_initiator L P identity did expected ephemeral nonce =
     (let hello0 = \<lparr>ch_version = PROTOCOL_VERSION, ch_device_id = did,
            ch_target_device_id = ep_device_id expected,
            ch_target_identity_key = ep_public_key expected,
            ch_identity_public_key = kp_public L identity,
            ch_ephemeral_public_key = eph_public L ephemeral,
            ch_nonce = nonce, ch_signature = []\<rparr>
      in case client_signature_bytes P hello0 of
          Inl _ \<Rightarrow> None
        | Inr m \<Rightarrow>
            (let hello = hello0\<lparr>ch_signature := kp_sign L identity m\<rparr>
             in Some (\<lparr>is_expected = expected, is_ephemeral = ephemeral, is_client_hello = hello\<rparr>,
                      hello)))"

text \<open>The last part of both accept functions, from the key generation on.\<close>

(* @src crates/sensor-session/src/lib.rs:187-206 accept_hello_unpinned *)
definition respond_hello ::
  "crypto_lib \<Rightarrow> proto_codecs \<Rightarrow> identity_keypair \<Rightarrow> device_id \<Rightarrow> client_hello \<Rightarrow> bytes \<Rightarrow> bytes
     \<Rightarrow> session_error + (responder_state \<times> server_hello)" where
  "respond_hello L P identity did hello ephemeral nonce =
     (let sh0 = \<lparr>sh_version = PROTOCOL_VERSION, sh_device_id = did,
            sh_identity_public_key = kp_public L identity,
            sh_ephemeral_public_key = eph_public L ephemeral,
            sh_client_nonce = ch_nonce hello, sh_nonce = nonce, sh_signature = []\<rparr>
      in res_bind (map_err SE_Protocol (server_signature_bytes P hello sh0)) (\<lambda>m.
         (let sh = sh0\<lparr>sh_signature := kp_sign L identity m\<rparr>
          in Inr (\<lparr>rs_ephemeral = ephemeral, rs_client_hello = hello, rs_server_hello = sh\<rparr>, sh))))"

(* @src crates/sensor-session/src/lib.rs:134-138 accept_hello: signature check *)
definition verify_client_hello ::
  "crypto_lib \<Rightarrow> proto_codecs \<Rightarrow> client_hello \<Rightarrow> session_error + unit" where
  "verify_client_hello L P hello =
     res_bind (map_err SE_Protocol (client_signature_bytes P hello)) (\<lambda>m.
       map_err SE_Crypto
         (identity_verify L (ch_identity_public_key hello) m (ch_signature hello)))"

(* @src crates/sensor-session/src/lib.rs:115-159 accept_hello *)
definition accept_hello ::
  "crypto_lib \<Rightarrow> proto_codecs \<Rightarrow> identity_keypair \<Rightarrow> device_id \<Rightarrow> client_hello \<Rightarrow> expected_peer
     \<Rightarrow> bytes \<Rightarrow> bytes \<Rightarrow> session_error + (responder_state \<times> server_hello)" where
  "accept_hello L P identity did hello expected ephemeral nonce =
     (if ch_version hello \<noteq> PROTOCOL_VERSION then Inl SE_UnsupportedVersion
      else if ch_device_id hello \<noteq> ep_device_id expected
          \<or> ch_identity_public_key hello \<noteq> ep_public_key expected
          \<or> ch_target_device_id hello \<noteq> did
          \<or> (ch_target_identity_key hello \<noteq> zero_key
             \<and> ch_target_identity_key hello \<noteq> kp_public L identity)
        then Inl SE_PeerMismatch
      else res_bind (verify_client_hello L P hello) (\<lambda>_.
        respond_hello L P identity did hello ephemeral nonce))"

(* @src crates/sensor-session/src/lib.rs:161-206 accept_hello_unpinned *)
definition accept_hello_unpinned ::
  "crypto_lib \<Rightarrow> proto_codecs \<Rightarrow> identity_keypair \<Rightarrow> device_id \<Rightarrow> client_hello
     \<Rightarrow> bytes \<Rightarrow> bytes \<Rightarrow> session_error + (responder_state \<times> server_hello)" where
  "accept_hello_unpinned L P identity did hello ephemeral nonce =
     (if ch_version hello \<noteq> PROTOCOL_VERSION then Inl SE_UnsupportedVersion
      else if ch_target_device_id hello \<noteq> did
          \<or> (ch_target_identity_key hello \<noteq> zero_key
             \<and> ch_target_identity_key hello \<noteq> kp_public L identity)
        then Inl SE_PeerMismatch
      else res_bind (verify_client_hello L P hello) (\<lambda>_.
        respond_hello L P identity did hello ephemeral nonce))"

(* @src crates/sensor-session/src/lib.rs:208-242 finish_initiator *)
definition finish_initiator ::
  "crypto_lib \<Rightarrow> proto_codecs \<Rightarrow> initiator_state \<Rightarrow> server_hello \<Rightarrow> session_error + secure_session" where
  "finish_initiator L P st sh =
     (if sh_version sh \<noteq> PROTOCOL_VERSION then Inl SE_UnsupportedVersion
      else if sh_client_nonce sh \<noteq> ch_nonce (is_client_hello st) then Inl SE_NonceMismatch
      else if sh_device_id sh \<noteq> ep_device_id (is_expected st)
          \<or> (ep_public_key (is_expected st) \<noteq> zero_key
             \<and> sh_identity_public_key sh \<noteq> ep_public_key (is_expected st))
        then Inl SE_PeerMismatch
      else res_bind (map_err SE_Protocol (server_signature_bytes P (is_client_hello st) sh)) (\<lambda>m.
        res_bind (map_err SE_Crypto
          (identity_verify L (sh_identity_public_key sh) m (sh_signature sh))) (\<lambda>_.
        res_bind (map_err SE_Protocol (handshake_transcript P (is_client_hello st) sh)) (\<lambda>transcript.
        res_bind (map_err SE_Crypto
          (eph_diffie_hellman L (is_ephemeral st) (sh_ephemeral_public_key sh))) (\<lambda>shared.
        res_bind (map_err SE_Crypto (derive_session_keys L shared transcript)) (\<lambda>keys.
          Inr \<lparr>ss_peer_device_id = sh_device_id sh,
               ss_peer_identity_key = sh_identity_public_key sh,
               ss_transcript_hash = transcript_hash L transcript,
               ss_channel = channel_initiator keys\<rparr>))))))"

(* @src crates/sensor-session/src/lib.rs:244-257 finish_responder *)
definition finish_responder ::
  "crypto_lib \<Rightarrow> proto_codecs \<Rightarrow> responder_state \<Rightarrow> session_error + secure_session" where
  "finish_responder L P st =
     res_bind (map_err SE_Protocol (handshake_transcript P (rs_client_hello st) (rs_server_hello st)))
       (\<lambda>transcript.
     res_bind (map_err SE_Crypto
       (eph_diffie_hellman L (rs_ephemeral st) (ch_ephemeral_public_key (rs_client_hello st))))
       (\<lambda>shared.
     res_bind (map_err SE_Crypto (derive_session_keys L shared transcript)) (\<lambda>keys.
       Inr \<lparr>ss_peer_device_id = ch_device_id (rs_client_hello st),
            ss_peer_identity_key = ch_identity_public_key (rs_client_hello st),
            ss_transcript_hash = transcript_hash L transcript,
            ss_channel = channel_responder keys\<rparr>)))"

subsection \<open>The steps, branch by branch\<close>

lemma client_signature_bytes_unsigned [simp]:
  "NO_MATCH [] sig \<Longrightarrow>
     client_signature_bytes P \<lparr>ch_version = v, ch_device_id = d, ch_target_device_id = t,
       ch_target_identity_key = tk, ch_identity_public_key = k, ch_ephemeral_public_key = e,
       ch_nonce = n, ch_signature = sig\<rparr> =
     client_signature_bytes P \<lparr>ch_version = v, ch_device_id = d, ch_target_device_id = t,
       ch_target_identity_key = tk, ch_identity_public_key = k, ch_ephemeral_public_key = e,
       ch_nonce = n, ch_signature = []\<rparr>"
  by (simp add: client_signature_bytes_def client_unsigned_bytes_def client_unsigned_of_def)

lemma server_signature_bytes_unsigned [simp]:
  "NO_MATCH [] sig \<Longrightarrow>
     server_signature_bytes P h \<lparr>sh_version = v, sh_device_id = d, sh_identity_public_key = k,
       sh_ephemeral_public_key = e, sh_client_nonce = c, sh_nonce = n, sh_signature = sig\<rparr> =
     server_signature_bytes P h \<lparr>sh_version = v, sh_device_id = d, sh_identity_public_key = k,
       sh_ephemeral_public_key = e, sh_client_nonce = c, sh_nonce = n, sh_signature = []\<rparr>"
  by (simp add: server_signature_bytes_def server_unsigned_bytes_def server_unsigned_of_def)

lemma verify_client_hello_Inr_iff:
  "verify_client_hello L P h = Inr u \<longleftrightarrow>
     (\<exists>m. client_signature_bytes P h = Inr m \<and> ed_key_ok L (ch_identity_public_key h) \<and>
        length (ch_signature h) = 64 \<and>
        ed_verify_strict L (ch_identity_public_key h) m (ch_signature h))"
  by (auto simp: verify_client_hello_def res_simps identity_verify_Inr_iff)

lemma start_initiator_Some:
  assumes "start_initiator L P k d e eph n = Some (st, h)"
  shows "is_client_hello st = h" and "is_expected st = e" and "is_ephemeral st = eph"
    and "ch_version h = PROTOCOL_VERSION" and "ch_device_id h = d"
    and "ch_target_device_id h = ep_device_id e" and "ch_target_identity_key h = ep_public_key e"
    and "ch_identity_public_key h = kp_public L k"
    and "ch_ephemeral_public_key h = eph_public L eph" and "ch_nonce h = n"
    and "\<exists>m. client_signature_bytes P h = Inr m \<and> ch_signature h = kp_sign L k m"
  using assms by (auto simp: start_initiator_def Let_def split: sum.splits)

lemma respond_hello_Inr:
  assumes "respond_hello L P k d h eph n = Inr (st, sh)"
  shows "rs_client_hello st = h" and "rs_server_hello st = sh" and "rs_ephemeral st = eph"
    and "sh_version sh = PROTOCOL_VERSION" and "sh_device_id sh = d"
    and "sh_identity_public_key sh = kp_public L k"
    and "sh_ephemeral_public_key sh = eph_public L eph" and "sh_client_nonce sh = ch_nonce h"
    and "sh_nonce sh = n"
    and "\<exists>m. server_signature_bytes P h sh = Inr m \<and> sh_signature sh = kp_sign L k m"
  using assms by (auto simp: respond_hello_def Let_def res_simps)

lemma accept_hello_unpinned_Inr_iff:
  "accept_hello_unpinned L P k d h eph n = Inr r \<longleftrightarrow>
     ch_version h = PROTOCOL_VERSION \<and> ch_target_device_id h = d \<and>
     ch_target_identity_key h \<in> {zero_key, kp_public L k} \<and>
     verify_client_hello L P h = Inr () \<and> respond_hello L P k d h eph n = Inr r"
  by (auto simp: accept_hello_unpinned_def res_simps)

lemma accept_hello_Inr_iff:
  "accept_hello L P k d h e eph n = Inr r \<longleftrightarrow>
     ch_device_id h = ep_device_id e \<and> ch_identity_public_key h = ep_public_key e \<and>
     accept_hello_unpinned L P k d h eph n = Inr r"
  by (auto simp: accept_hello_def accept_hello_unpinned_Inr_iff res_simps)

lemma transcript_of_signature_bytes:
  "server_signature_bytes P h s = Inr m \<Longrightarrow> \<exists>t. handshake_transcript P h s = Inr t"
  by (auto simp: server_signature_bytes_def handshake_transcript_def res_simps)

lemma finish_initiator_Inr_iff:
  "finish_initiator L P st sh = Inr s \<longleftrightarrow>
     sh_version sh = PROTOCOL_VERSION \<and> sh_client_nonce sh = ch_nonce (is_client_hello st) \<and>
     sh_device_id sh = ep_device_id (is_expected st) \<and>
     ep_public_key (is_expected st) \<in> {zero_key, sh_identity_public_key sh} \<and>
     (\<exists>m t shared keys.
        server_signature_bytes P (is_client_hello st) sh = Inr m \<and>
        identity_verify L (sh_identity_public_key sh) m (sh_signature sh) = Inr () \<and>
        handshake_transcript P (is_client_hello st) sh = Inr t \<and>
        eph_diffie_hellman L (is_ephemeral st) (sh_ephemeral_public_key sh) = Inr shared \<and>
        derive_session_keys L shared t = Inr keys \<and>
        s = \<lparr>ss_peer_device_id = sh_device_id sh, ss_peer_identity_key = sh_identity_public_key sh,
             ss_transcript_hash = transcript_hash L t, ss_channel = channel_initiator keys\<rparr>)"
  unfolding finish_initiator_def by (simp add: res_simps) metis

lemma finish_responder_Inr_iff:
  "finish_responder L P st = Inr s \<longleftrightarrow>
     (\<exists>t shared keys.
        handshake_transcript P (rs_client_hello st) (rs_server_hello st) = Inr t \<and>
        eph_diffie_hellman L (rs_ephemeral st) (ch_ephemeral_public_key (rs_client_hello st))
          = Inr shared \<and>
        derive_session_keys L shared t = Inr keys \<and>
        s = \<lparr>ss_peer_device_id = ch_device_id (rs_client_hello st),
             ss_peer_identity_key = ch_identity_public_key (rs_client_hello st),
             ss_transcript_hash = transcript_hash L t, ss_channel = channel_responder keys\<rparr>)"
  by (auto simp: finish_responder_def res_simps)

text \<open>A peer is authenticated before a session exists: if the responder accepts a hello then the
  caller's signature over every field of it verified under the key it names, the hello is addressed
  to this device (and to this identity key, unless the caller left it open), and with pinning the
  caller's identifier and key are the expected ones.\<close>

theorem accept_hello_authenticates:
  assumes "accept_hello L P k d h e eph n = Inr (st, sh)"
  shows "\<exists>m. client_signature_bytes P h = Inr m \<and>
      ed_verify_strict L (ep_public_key e) m (ch_signature h) \<and>
      ch_device_id h = ep_device_id e \<and> ch_identity_public_key h = ep_public_key e \<and>
      ch_target_device_id h = d \<and> ch_target_identity_key h \<in> {zero_key, kp_public L k} \<and>
      rs_client_hello st = h \<and> rs_server_hello st = sh"
  using assms respond_hello_Inr(1,2) [of L P k d h eph n st sh]
  by (auto simp: accept_hello_Inr_iff accept_hello_unpinned_Inr_iff verify_client_hello_Inr_iff)

subsection \<open>The session's record streams\<close>

definition session_linked :: "crypto_lib \<Rightarrow> secure_session \<Rightarrow> secure_session \<Rightarrow> bool" where
  "session_linked L s r \<longleftrightarrow> channel_linked L (ss_channel s) (ss_channel r)"

definition session_exhausted :: "secure_session \<Rightarrow> bool" where
  "session_exhausted s \<longleftrightarrow> channel_exhausted (ss_channel s)"

lemma session_seal_Inr_iff:
  "session_seal L aad s p = (Inr r, s') \<longleftrightarrow>
     (\<exists>ch. channel_seal L aad (ss_channel s) p = (Inr r, ch) \<and> s' = s\<lparr>ss_channel := ch\<rparr>)"
  by (auto simp: session_seal_def map_err_Inr_iff split: prod.splits)

lemma session_open_Inr_iff:
  "session_open L aad s r = (Inr p, s') \<longleftrightarrow>
     (\<exists>ch. channel_open L aad (ss_channel s) r = (Inr p, ch) \<and> s' = s\<lparr>ss_channel := ch\<rparr>)"
  by (auto simp: session_open_def map_err_Inr_iff split: prod.splits)

lemma session_delivers:
  assumes "session_linked L s r" and "session_seal L aad s p = (Inr w, s')"
  shows "\<exists>r'. session_open L aad r w = (Inr p, r') \<and> session_linked L s' r'"
  using assms channel_delivers [of L "ss_channel s" "ss_channel r" aad p w]
  by (fastforce simp: session_seal_Inr_iff session_open_Inr_iff session_linked_def)

lemma session_authentic:
  assumes "session_linked L s r" and "\<not> session_exhausted s"
    and "session_open L aad r w = (Inr p, r')"
  shows "\<exists>s'. session_seal L aad s p = (Inr w, s')"
  using assms channel_authentic [of L "ss_channel s" "ss_channel r" aad w p]
  by (fastforce simp: session_seal_Inr_iff session_open_Inr_iff session_linked_def
      session_exhausted_def)

interpretation sess: secure_stream "session_seal L aad" "session_open L aad" "session_linked L"
    session_exhausted for L aad
  by unfold_locales (fact session_delivers, fact session_authentic)

subsection \<open>The honest run\<close>

lemma respond_hello_ok:
  assumes "client_signature_bytes P h = Inr m"
    and "cd_ser (pc_server_unsigned P)
      \<lparr>su_version = PROTOCOL_VERSION, su_device_id = d, su_identity_public_key = kp_public L k,
       su_ephemeral_public_key = eph_public L eph, su_client_nonce = ch_nonce h, su_nonce = n\<rparr> \<noteq> None"
  shows "\<exists>st sh. respond_hello L P k d h eph n = Inr (st, sh)"
  using assms
  by (auto simp: respond_hello_def Let_def server_signature_bytes_def server_unsigned_bytes_def
      server_unsigned_of_def client_signature_bytes_def res_simps)

definition honest_libs :: "crypto_lib \<Rightarrow> bool" where
  "honest_libs L \<longleftrightarrow> sign_laws L \<and> dh_laws L \<and> kdf_laws L \<and> aead_laws L \<and> aead_tidy L"

definition handshake_joins ::
  "crypto_lib \<Rightarrow> secure_session \<Rightarrow> device_id \<Rightarrow> bytes \<Rightarrow> secure_session \<Rightarrow> device_id \<Rightarrow> bytes \<Rightarrow> bool" where
  "handshake_joins L si ida pka sr idb pkb \<longleftrightarrow>
     ss_peer_device_id si = idb \<and> ss_peer_identity_key si = pkb \<and>
     ss_peer_device_id sr = ida \<and> ss_peer_identity_key sr = pka \<and>
     ss_transcript_hash si = ss_transcript_hash sr \<and>
     session_linked L si sr \<and> session_linked L sr si"

lemma finish_both:
  assumes L: "honest_libs L"
    and start: "start_initiator L P ka ida e ea na = Some (sti, h)"
    and resp: "respond_hello L P kb (ep_device_id e) h eb nb = Inr (str, sh)"
    and key: "ep_public_key e \<in> {zero_key, kp_public L kb}"
    and contrib: "x_contributory L (x_dh L ea (eph_public L eb))"
  shows "\<exists>si sr. finish_initiator L P sti sh = Inr si \<and> finish_responder L P str = Inr sr \<and>
    handshake_joins L si ida (kp_public L ka) sr (ep_device_id e) (kp_public L kb)"
proof -
  note st = start_initiator_Some [OF start] and rs = respond_hello_Inr [OF resp]
  obtain m where m: "server_signature_bytes P h sh = Inr m" "sh_signature sh = kp_sign L kb m"
    using rs(10) by blast
  obtain t where t: "handshake_transcript P h sh = Inr t"
    using transcript_of_signature_bytes [OF m(1)] by blast
  obtain sec where sec: "eph_diffie_hellman L ea (eph_public L eb) = Inr sec"
    using contrib by (simp add: eph_diffie_hellman_def)
  then have sec': "eph_diffie_hellman L eb (eph_public L ea) = Inr sec"
    using L eph_diffie_hellman_sym [of L ea eb] by (simp add: honest_libs_def)
  obtain keys where keys: "derive_session_keys L sec t = Inr keys"
    using L derive_session_keys_ok [of L sec t] by (auto simp: honest_libs_def)
  have "identity_verify L (kp_public L kb) m (kp_sign L kb m) = Inr ()"
    using L by (simp add: identity_verify_own honest_libs_def)
  then have "finish_initiator L P sti sh = Inr
      \<lparr>ss_peer_device_id = ep_device_id e, ss_peer_identity_key = kp_public L kb,
       ss_transcript_hash = transcript_hash L t, ss_channel = channel_initiator keys\<rparr>"
    using st rs m t sec keys key by (simp add: finish_initiator_Inr_iff)
  moreover have "finish_responder L P str = Inr
      \<lparr>ss_peer_device_id = ida, ss_peer_identity_key = kp_public L ka,
       ss_transcript_hash = transcript_hash L t, ss_channel = channel_responder keys\<rparr>"
    using st rs t sec' keys by (simp add: finish_responder_Inr_iff)
  ultimately show ?thesis
    using L by (simp add: handshake_joins_def session_linked_def initiator_responder_linked
        honest_libs_def)
qed

lemma honest_run:
  assumes "honest_libs L"
    and "start_initiator L P ka ida e ea na = Some (sti, h)"
    and "ep_public_key e \<in> {zero_key, kp_public L kb}"
    and "x_contributory L (x_dh L ea (eph_public L eb))"
    and "cd_ser (pc_server_unsigned P)
      \<lparr>su_version = PROTOCOL_VERSION, su_device_id = ep_device_id e,
       su_identity_public_key = kp_public L kb, su_ephemeral_public_key = eph_public L eb,
       su_client_nonce = na, su_nonce = nb\<rparr> \<noteq> None"
  shows "\<exists>str sh si sr.
    accept_hello L P kb (ep_device_id e) h
      \<lparr>ep_device_id = ida, ep_public_key = kp_public L ka\<rparr> eb nb = Inr (str, sh) \<and>
    finish_initiator L P sti sh = Inr si \<and> finish_responder L P str = Inr sr \<and>
    handshake_joins L si ida (kp_public L ka) sr (ep_device_id e) (kp_public L kb)"
proof -
  note st = start_initiator_Some [OF assms(2)]
  obtain m where m: "client_signature_bytes P h = Inr m" "ch_signature h = kp_sign L ka m"
    using st(11) by blast
  obtain str sh where resp: "respond_hello L P kb (ep_device_id e) h eb nb = Inr (str, sh)"
    using respond_hello_ok [OF m(1)] assms(5) st(10) by fastforce
  have "verify_client_hello L P h = Inr ()"
    using m st(8) assms(1) identity_verify_own [of L ka m]
    by (auto simp: verify_client_hello_Inr_iff identity_verify_Inr_iff honest_libs_def)
  then have "accept_hello L P kb (ep_device_id e) h
      \<lparr>ep_device_id = ida, ep_public_key = kp_public L ka\<rparr> eb nb = Inr (str, sh)"
    using st assms(3) resp by (simp add: accept_hello_Inr_iff accept_hello_unpinned_Inr_iff)
  with finish_both [OF assms(1,2) resp assms(3,4)] show ?thesis
    by blast
qed

text \<open>C1: The handshake completes and joins the two devices: when an initiator that expects the
  responder (its key pinned or left open) sends its hello to a responder that pinned the initiator,
  the responder accepts, both sides finish, each names the other's identifier and identity key, both
  hold the same transcript hash and their channels are linked in both directions. The hypotheses are
  the primitives' laws, that the two messages can be serialized, and a contributory key exchange.\<close>

theorem handshake_completes:
  assumes "honest_libs L"
    and "start_initiator L P ka ida e ea na = Some (sti, h)"
    and "ep_public_key e \<in> {zero_key, kp_public L kb}"
    and "x_contributory L (x_dh L ea (eph_public L eb))"
    and "cd_ser (pc_server_unsigned P)
      \<lparr>su_version = PROTOCOL_VERSION, su_device_id = ep_device_id e,
       su_identity_public_key = kp_public L kb, su_ephemeral_public_key = eph_public L eb,
       su_client_nonce = na, su_nonce = nb\<rparr> \<noteq> None"
  shows "\<exists>str sh si sr.
    accept_hello L P kb (ep_device_id e) h
      \<lparr>ep_device_id = ida, ep_public_key = kp_public L ka\<rparr> eb nb = Inr (str, sh) \<and>
    finish_initiator L P sti sh = Inr si \<and> finish_responder L P str = Inr sr \<and>
    handshake_joins L si ida (kp_public L ka) sr (ep_device_id e) (kp_public L kb)"
  by (rule honest_run [OF assms])

subsection \<open>Agreement\<close>

text \<open>
  What the handshake code signs with an identity key: client hellos and the server hellos of its
  responder steps. \<open>genuine\<close> is the ideal signature assumption for one received signature: if it
  verifies under the key then the program signed that message, or the message lies outside the
  handshake's signing domains (the other signed messages of the program carry other domain strings).
\<close>

definition server_domain :: bytes where
  "server_domain = ascii_bytes ''SENSOR Remote Access/server-hello/v1''"

definition responded :: "crypto_lib \<Rightarrow> proto_codecs \<Rightarrow> identity_keypair \<Rightarrow> device_id \<Rightarrow> bytes \<Rightarrow> bool" where
  "responded L P k d m \<longleftrightarrow>
     (\<exists>h eph n st sh. accept_hello_unpinned L P k d h eph n = Inr (st, sh) \<and>
        server_signature_bytes P h sh = Inr m)"

definition genuine ::
  "crypto_lib \<Rightarrow> proto_codecs \<Rightarrow> identity_keypair \<Rightarrow> device_id \<Rightarrow> bytes \<Rightarrow> bytes \<Rightarrow> bool" where
  "genuine L P k d m sig \<longleftrightarrow>
     (ed_verify_strict L (kp_public L k) m sig \<longrightarrow>
        responded L P k d m \<or> (\<exists>h. client_signature_bytes P h = Inr m) \<or>
        take (length server_domain) m \<noteq> server_domain)"

lemma server_domain_prefix:
  "server_signature_bytes P h s = Inr m \<Longrightarrow> \<exists>r. m = server_domain @ r"
  by (auto simp only: server_signature_bytes_def server_domain_def res_simps)

lemma client_domain_prefix:
  "client_signature_bytes P h = Inr m \<Longrightarrow>
     \<exists>r. m = ascii_bytes ''SENSOR Remote Access/client-hello/v1'' @ r"
  by (auto simp only: client_signature_bytes_def res_simps)

lemma domains_differ:
  "ascii_bytes ''SENSOR Remote Access/client-hello/v1'' @ r \<noteq> server_domain @ r'"
  by (simp add: ascii_bytes_def server_domain_def)

lemma signature_domains_disjoint:
  assumes "server_signature_bytes P h s = Inr m"
  shows "client_signature_bytes P h' \<noteq> Inr m" and "take (length server_domain) m = server_domain"
proof -
  obtain r where "m = server_domain @ r"
    using server_domain_prefix [OF assms] by blast
  then show "client_signature_bytes P h' \<noteq> Inr m" and "take (length server_domain) m = server_domain"
    using client_domain_prefix [of P h' m] domains_differ by (metis, simp)
qed

text \<open>C2: Agreement: if an initiator that pinned the responder's identity key finishes, and the
  signature it received under that key is genuine (the ideal signature hypothesis), then the responder did accept
  exactly the client hello this initiator sent, addressed to it, and answered with exactly the
  identifier, keys and nonces the initiator received: no field of either message was changed.\<close>

theorem initiator_agreement:
  assumes "proto_codecs_ok P" and "sign_laws L"
    and "\<And>m. server_signature_bytes P h sh = Inr m \<Longrightarrow> genuine L P kb d m (sh_signature sh)"
    and "start_initiator L P ka ida e ea na = Some (st, h)"
    and "ep_public_key e = kp_public L kb" and "kp_public L kb \<noteq> zero_key"
    and "finish_initiator L P st sh = Inr s"
  shows "\<exists>eb nb st' sh'. accept_hello_unpinned L P kb d h eb nb = Inr (st', sh') \<and>
    server_unsigned_of sh' = server_unsigned_of sh \<and> ch_target_device_id h = d"
proof -
  note st = start_initiator_Some [OF assms(4)]
  obtain m where m: "server_signature_bytes P h sh = Inr m"
    and ver: "ed_verify_strict L (kp_public L kb) m (sh_signature sh)"
    using assms(5,6,7) st by (auto simp: finish_initiator_Inr_iff identity_verify_Inr_iff)
  have "responded L P kb d m"
    using assms(3) [OF m] ver signature_domains_disjoint [OF m] unfolding genuine_def by blast
  then obtain h' eb nb st' sh' where acc: "accept_hello_unpinned L P kb d h' eb nb = Inr (st', sh')"
    and m': "server_signature_bytes P h' sh' = Inr m"
    unfolding responded_def by blast
  have "length (ch_signature h) = 64"
    using st(11) assms(2) by (auto simp: kp_sign_def sign_lawsD)
  moreover have "length (ch_signature h') = 64"
    using acc by (auto simp: accept_hello_unpinned_Inr_iff verify_client_hello_Inr_iff)
  ultimately have "h' = h \<and> server_unsigned_of sh' = server_unsigned_of sh"
    using server_signature_binds [OF assms(1) m' m] by simp
  then show ?thesis
    using acc by (auto simp: accept_hello_unpinned_Inr_iff)
qed

subsection \<open>A concrete run\<close>

definition demo_kp :: "nat \<Rightarrow> identity_keypair" where
  "demo_kp n = IdentityKeypair (demo_key n)"

definition demo_peer :: "device_id \<Rightarrow> nat \<Rightarrow> expected_peer" where
  "demo_peer d n = \<lparr>ep_device_id = d, ep_public_key = demo_key n\<rparr>"

lemma demo_honest_libs: "honest_libs demo_lib"
  by (simp add: honest_libs_def demo_sign_laws demo_dh_laws demo_kdf_laws demo_aead_laws
      demo_aead_tidy)

lemma demo_public [simp]: "kp_public demo_lib (demo_kp n) = demo_key n"
  by (simp add: kp_public_def demo_kp_def demo_lib_def)

lemma demo_server_serializable:
  "cd_ser (pc_server_unsigned demo_codecs)
     \<lparr>su_version = PROTOCOL_VERSION, su_device_id = d, su_identity_public_key = demo_key a,
      su_ephemeral_public_key = eph_public demo_lib (demo_key b), su_client_nonce = demo_key c,
      su_nonce = demo_key e\<rparr> \<noteq> None"
  using unsigned_less [of "did_value d"]
  by (simp add: demo_codecs_def codec_conv_def codec_pair_def codec_be_def codec_blob_def
      codec_did_def demo_key_def eph_public_def demo_lib_def PROTOCOL_VERSION_def Let_def)

lemma demo_start:
  "\<exists>st h. start_initiator demo_lib demo_codecs (demo_kp 1) (DeviceId 111111111)
     (demo_peer (DeviceId 222222222) 2) (demo_key 3) (demo_key 4) = Some (st, h)"
  by (simp add: start_initiator_def client_signature_bytes_def client_unsigned_bytes_def
      client_unsigned_of_def demo_codecs_def codec_conv_def codec_pair_def codec_be_def codec_blob_def
      codec_did_def demo_key_def eph_public_def demo_lib_def PROTOCOL_VERSION_def Let_def
      demo_peer_def kp_public_def demo_kp_def)

lemma demo_contributory:
  "x_contributory demo_lib (x_dh demo_lib (demo_key 3) (eph_public demo_lib (demo_key 5)))"
  by (simp add: demo_lib_def eph_public_def demo_key_def zip_replicate list_ex_iff)

lemma handshake_completes_witness:
  "\<exists>sti h str sh si sr.
     start_initiator demo_lib demo_codecs (demo_kp 1) (DeviceId 111111111)
       (demo_peer (DeviceId 222222222) 2) (demo_key 3) (demo_key 4) = Some (sti, h) \<and>
     accept_hello demo_lib demo_codecs (demo_kp 2) (DeviceId 222222222) h
       (demo_peer (DeviceId 111111111) 1) (demo_key 5) (demo_key 6) = Inr (str, sh) \<and>
     finish_initiator demo_lib demo_codecs sti sh = Inr si \<and>
     finish_responder demo_lib demo_codecs str = Inr sr \<and>
     handshake_joins demo_lib si (DeviceId 111111111) (demo_key 1) sr (DeviceId 222222222) (demo_key 2)"
proof -
  obtain sti h where "start_initiator demo_lib demo_codecs (demo_kp 1) (DeviceId 111111111)
      (demo_peer (DeviceId 222222222) 2) (demo_key 3) (demo_key 4) = Some (sti, h)"
    using demo_start by blast
  from handshake_completes [OF demo_honest_libs this, of "demo_kp 2" "demo_key 5" "demo_key 6"] this
  show ?thesis
    using demo_contributory demo_server_serializable by (simp add: demo_peer_def)
qed

lemma demo_run:
  obtains sti h str sh si sr where
    "start_initiator demo_lib demo_codecs (demo_kp 1) (DeviceId 111111111)
       (demo_peer (DeviceId 222222222) 2) (demo_key 3) (demo_key 4) = Some (sti, h)"
    "accept_hello demo_lib demo_codecs (demo_kp 2) (DeviceId 222222222) h
       (demo_peer (DeviceId 111111111) 1) (demo_key 5) (demo_key 6) = Inr (str, sh)"
    "finish_initiator demo_lib demo_codecs sti sh = Inr si"
    "finish_responder demo_lib demo_codecs str = Inr sr"
proof -
  obtain sti h where st: "start_initiator demo_lib demo_codecs (demo_kp 1) (DeviceId 111111111)
      (demo_peer (DeviceId 222222222) 2) (demo_key 3) (demo_key 4) = Some (sti, h)"
    using demo_start by blast
  from honest_run [OF demo_honest_libs st, of "demo_kp 2" "demo_key 5" "demo_key 6"]
  show ?thesis
    using that st demo_contributory demo_server_serializable by (auto simp: demo_peer_def)
qed

lemma accept_hello_authenticates_witness:
  "\<exists>h m. client_signature_bytes demo_codecs h = Inr m \<and>
     ed_verify_strict demo_lib (demo_key 1) m (ch_signature h) \<and>
     ch_device_id h = DeviceId 111111111 \<and> ch_target_device_id h = DeviceId 222222222"
proof (rule demo_run)
  fix sti h str sh si sr
  assume "accept_hello demo_lib demo_codecs (demo_kp 2) (DeviceId 222222222) h
       (demo_peer (DeviceId 111111111) 1) (demo_key 5) (demo_key 6) = Inr (str, sh)"
  from accept_hello_authenticates [OF this] show ?thesis
    by (auto simp: demo_peer_def)
qed

lemma initiator_agreement_witness:
  "\<exists>h sh eb nb st' sh'.
     accept_hello_unpinned demo_lib demo_codecs (demo_kp 2) (DeviceId 222222222) h eb nb
       = Inr (st', sh') \<and>
     server_unsigned_of sh' = server_unsigned_of sh \<and> ch_target_device_id h = DeviceId 222222222"
proof (rule demo_run)
  fix sti h str sh si sr
  assume st: "start_initiator demo_lib demo_codecs (demo_kp 1) (DeviceId 111111111)
       (demo_peer (DeviceId 222222222) 2) (demo_key 3) (demo_key 4) = Some (sti, h)"
    and acc: "accept_hello demo_lib demo_codecs (demo_kp 2) (DeviceId 222222222) h
       (demo_peer (DeviceId 111111111) 1) (demo_key 5) (demo_key 6) = Inr (str, sh)"
    and fin: "finish_initiator demo_lib demo_codecs sti sh = Inr si"
  have "genuine demo_lib demo_codecs (demo_kp 2) (DeviceId 222222222) m (sh_signature sh)"
    if "server_signature_bytes demo_codecs h sh = Inr m" for m
    using acc that unfolding genuine_def responded_def accept_hello_Inr_iff by blast
  moreover have "demo_key 2 \<noteq> zero_key"
    by (simp add: demo_key_def zero_key_def)
  ultimately show ?thesis
    using initiator_agreement [OF demo_codecs_ok demo_sign_laws _ st _ _ fin, of "demo_kp 2" "DeviceId 222222222"]
    by (auto simp: demo_peer_def) blast
qed

end
