(* ===== verification/Sensor_Connection.thy ===== *)
theory Sensor_Connection
  imports Sensor_Session Sensor_Transport
begin

section \<open>sensor-transport: secure connections over a byte stream\<close>

text \<open>
  \<open>SecureConnection\<close> and its two halves after \<open>split\<close>. A \<open>TcpStream\<close> is the bytes the peer has sent
  and not yet been read, the bytes written so far, and a script of what the operating system answers
  to each \<open>read\<close> and \<open>write\<close> call, with the clock at that call: a number of bytes (0 is the end of
  the stream), an interruption or an error. A script that has ended is a peer that stays silent, so
  the socket timeout fires. Time is a natural number and every deadline is checked where the code
  checks it. The lemmas show that reading and writing do not depend on the fragmentation, that an
  error closes a connection for good, and that linked connections deliver messages in order.
\<close>

subsection \<open>Streams\<close>

datatype io_event = Moved nat | Interrupted | Failed io_error

record tcp_stream =
  st_in :: bytes
  st_reads :: "(nat \<times> io_event) list"
  st_out :: bytes
  st_writes :: "(nat \<times> io_event) list"
  st_nodelay :: "io_error option"
  st_shut :: bool

(* @src crates/sensor-transport/src/connection.rs:30-42 ConnectionError *)
datatype connection_error =
    CE_Io io_error
  | CE_Protocol protocol_error
  | CE_Session session_error
  | CE_UnexpectedMessage
  | CE_Closed

(* @src crates/sensor-transport/src/connection.rs:44-49 remaining *)
definition io_remaining :: "nat \<Rightarrow> nat \<Rightarrow> io_error + nat" where
  "io_remaining now deadline = (if now < deadline then Inr (deadline - now) else Inl IO_TimedOut)"

text \<open>The two loops run over the script: each iteration checks the deadline, then calls the system.\<close>

(* @src crates/sensor-transport/src/connection.rs:51-69 read_exact: the loop *)
fun read_loop ::
  "nat \<Rightarrow> nat \<Rightarrow> bytes \<Rightarrow> (nat \<times> io_event) list
     \<Rightarrow> (io_error + bytes) \<times> bytes \<times> (nat \<times> io_event) list" where
  "read_loop deadline 0 inp script = (Inr [], inp, script)"
| "read_loop deadline (Suc n) inp [] = (Inl IO_TimedOut, inp, [])"
| "read_loop deadline (Suc n) inp ((now, ev) # script) =
     (case io_remaining now deadline of
        Inl e \<Rightarrow> (Inl e, inp, (now, ev) # script)
      | Inr _ \<Rightarrow> (case ev of
          Moved k \<Rightarrow>
            (let count = min k (min (Suc n) (length inp))
             in if count = 0 then (Inl IO_UnexpectedEof, inp, script)
                else (case read_loop deadline (Suc n - count) (drop count inp) script of
                    (Inl e, r) \<Rightarrow> (Inl e, r)
                  | (Inr bs, r) \<Rightarrow> (Inr (take count inp @ bs), r)))
        | Interrupted \<Rightarrow> read_loop deadline (Suc n) inp script
        | Failed e \<Rightarrow> (Inl e, inp, script)))"

(* @src crates/sensor-transport/src/connection.rs:51-69 read_exact *)
definition read_exact :: "nat \<Rightarrow> nat \<Rightarrow> tcp_stream \<Rightarrow> (io_error + bytes) \<times> tcp_stream" where
  "read_exact deadline n s =
     (let (r, inp, script) = read_loop deadline n (st_in s) (st_reads s)
      in (r, s\<lparr>st_in := inp, st_reads := script\<rparr>))"

(* @src crates/sensor-transport/src/connection.rs:71-87 write_all: the loop *)
fun write_loop ::
  "nat \<Rightarrow> bytes \<Rightarrow> bytes \<Rightarrow> (nat \<times> io_event) list
     \<Rightarrow> (io_error + unit) \<times> bytes \<times> (nat \<times> io_event) list" where
  "write_loop deadline [] out script = (Inr (), out, script)"
| "write_loop deadline (b # bs) out [] = (Inl IO_TimedOut, out, [])"
| "write_loop deadline (b # bs) out ((now, ev) # script) =
     (case io_remaining now deadline of
        Inl e \<Rightarrow> (Inl e, out, (now, ev) # script)
      | Inr _ \<Rightarrow> (case ev of
          Moved k \<Rightarrow>
            (if k = 0 then (Inl IO_WriteZero, out, script)
             else write_loop deadline (drop k (b # bs)) (out @ take k (b # bs)) script)
        | Interrupted \<Rightarrow> write_loop deadline (b # bs) out script
        | Failed e \<Rightarrow> (Inl e, out, script)))"

(* @src crates/sensor-transport/src/connection.rs:71-87 write_all *)
definition write_all :: "nat \<Rightarrow> bytes \<Rightarrow> tcp_stream \<Rightarrow> (io_error + unit) \<times> tcp_stream" where
  "write_all deadline bs s =
     (let (r, out, script) = write_loop deadline bs (st_out s) (st_writes s)
      in (r, s\<lparr>st_out := out, st_writes := script\<rparr>))"

lemma read_loop_Inr:
  "read_loop dl n inp script = (Inr bs, inp', script') \<Longrightarrow> length bs = n \<and> inp = bs @ inp'"
proof (induction dl n inp script arbitrary: bs rule: read_loop.induct)
  case (3 dl n inp now ev script)
  show ?case
  proof (cases ev)
    case (Moved k)
    define c where "c = min k (min (Suc n) (length inp))"
    have c: "c \<noteq> 0" "now < dl"
      using "3.prems" Moved by (auto simp: c_def Let_def io_remaining_def split: if_splits)
    then obtain bs' where bs': "read_loop dl (Suc n - c) (drop c inp) script = (Inr bs', inp', script')"
      "bs = take c inp @ bs'"
      using "3.prems" Moved
      by (auto simp: c_def [symmetric] Let_def io_remaining_def split: prod.splits sum.splits)
    have "length bs' = Suc n - c \<and> drop c inp = bs' @ inp'"
      using "3.IH"(1) [OF _ Moved c_def _ bs'(1)] c by (auto simp: io_remaining_def)
    moreover have "c \<le> Suc n" "c \<le> length inp"
      by (simp_all add: c_def)
    ultimately show ?thesis
      using bs'(2) append_take_drop_id [of c inp] by simp
  next
    case Interrupted
    with 3 show ?thesis
      by (auto simp: io_remaining_def split: if_splits)
  qed (use "3.prems" in \<open>auto simp: io_remaining_def split: if_splits\<close>)
qed auto

lemma write_loop_prefix:
  "write_loop dl bs out script = (r, out', script') \<Longrightarrow>
     \<exists>k. out' = out @ take k bs \<and> (r = Inr () \<longrightarrow> out' = out @ bs)"
proof (induction dl bs out script rule: write_loop.induct)
  case (3 dl b bs out now ev script)
  show ?case
  proof (cases "now < dl")
    case True
    show ?thesis
    proof (cases ev)
      case (Moved k)
      show ?thesis
      proof (cases "k = 0")
        case False
        then have "write_loop dl (drop k (b # bs)) (out @ take k (b # bs)) script = (r, out', script')"
          using "3.prems" Moved True by (simp add: io_remaining_def)
        from "3.IH"(1) [OF _ Moved False this] True obtain j where
          "out' = out @ take k (b # bs) @ take j (drop k (b # bs))"
          "r = Inr () \<longrightarrow> out' = (out @ take k (b # bs)) @ drop k (b # bs)"
          by (auto simp: io_remaining_def)
        then show ?thesis
          by (metis append.assoc append_take_drop_id take_add)
      qed (use "3.prems" Moved True in \<open>auto simp: io_remaining_def intro: exI [of _ 0]\<close>)
    next
      case Interrupted
      with 3 True show ?thesis
        by (auto simp: io_remaining_def)
    qed (use "3.prems" True in \<open>auto simp: io_remaining_def intro: exI [of _ 0]\<close>)
  qed (use "3.prems" in \<open>auto simp: io_remaining_def intro: exI [of _ 0]\<close>)
qed (auto intro: exI [of _ 0])

text \<open>A script that lets a call move bytes in time, at least once per byte.\<close>

definition usable :: "nat \<Rightarrow> (nat \<times> io_event) \<Rightarrow> bool" where
  "usable deadline e \<longleftrightarrow> fst e < deadline \<and>
     (case snd e of Moved k \<Rightarrow> 0 < k | Interrupted \<Rightarrow> True | Failed _ \<Rightarrow> False)"

definition moves :: "(nat \<times> io_event) list \<Rightarrow> nat" where
  "moves script = length (filter (\<lambda>e. snd e \<noteq> Interrupted) script)"

definition lively :: "nat \<Rightarrow> nat \<Rightarrow> (nat \<times> io_event) list \<Rightarrow> bool" where
  "lively deadline n script \<longleftrightarrow> list_all (usable deadline) script \<and> n \<le> moves script"

lemma lively_Nil: "lively dl n [] \<longleftrightarrow> n = 0"
  by (simp add: lively_def moves_def)

lemma lively_Cons:
  "lively dl n (e # script) \<longleftrightarrow> usable dl e \<and>
     lively dl (if snd e = Interrupted then n else n - 1) script"
  by (auto simp: lively_def moves_def)

lemma lively_mono: "lively dl n s \<Longrightarrow> m \<le> n \<Longrightarrow> lively dl m s"
  by (auto simp: lively_def)

lemma read_loop_lively:
  "lively dl m script \<Longrightarrow> n \<le> m \<Longrightarrow> n \<le> length inp \<Longrightarrow>
     \<exists>script'. read_loop dl n inp script = (Inr (take n inp), drop n inp, script') \<and>
       lively dl (m - n) script'"
proof (induction dl n inp script arbitrary: m rule: read_loop.induct)
  case (3 dl n inp now ev script)
  then show ?case
  proof (cases ev)
    case (Moved k)
    define c where "c = min k (min (Suc n) (length inp))"
    have c: "0 < c" "c \<le> Suc n" "c \<le> length inp" and now: "now < dl"
      using "3.prems" Moved by (auto simp: c_def lively_Cons usable_def)
    have "lively dl (m - 1) script"
      using "3.prems" Moved by (simp add: lively_Cons)
    then have live: "lively dl (m - c) script"
      using c by (rule_tac lively_mono) auto
    have "\<exists>script'. read_loop dl (Suc n - c) (drop c inp) script =
        (Inr (take (Suc n - c) (drop c inp)), drop (Suc n - c) (drop c inp), script') \<and>
        lively dl (m - c - (Suc n - c)) script'"
      using "3.IH"(1) [OF _ Moved c_def, of _ "m - c"] now c live "3.prems" by (simp add: io_remaining_def)
    then obtain script' where s': "read_loop dl (Suc n - c) (drop c inp) script =
        (Inr (take (Suc n - c) (drop c inp)), drop (Suc n) inp, script')" "lively dl (m - Suc n) script'"
      using c by auto
    moreover have "take c inp @ take (Suc n - c) (drop c inp) = take (Suc n) inp"
      using c by (metis le_add_diff_inverse take_add)
    ultimately show ?thesis
      using Moved now c by (simp add: c_def [symmetric] io_remaining_def Let_def)
  next
    case Interrupted
    with 3 show ?thesis
      by (auto simp: lively_Cons usable_def io_remaining_def)
  qed (auto simp: lively_Cons usable_def)
qed (auto simp: lively_Nil)

lemma write_loop_lively:
  "lively dl m script \<Longrightarrow> length bs \<le> m \<Longrightarrow>
     \<exists>script'. write_loop dl bs out script = (Inr (), out @ bs, script') \<and>
       lively dl (m - length bs) script'"
proof (induction dl bs out script arbitrary: m rule: write_loop.induct)
  case (3 dl b bs out now ev script)
  then show ?case
  proof (cases ev)
    case (Moved k)
    then have k: "0 < k" "now < dl" and live: "lively dl (m - 1) script"
      using "3.prems" by (auto simp: lively_Cons usable_def)
    define c where "c = min k (length (b # bs))"
    have c: "0 < c" "c \<le> length (b # bs)" and dropc: "length (drop k (b # bs)) = length (b # bs) - c"
      using k by (auto simp: c_def)
    have live: "lively dl (m - c) script"
      using live c by (rule_tac lively_mono) auto
    have "length (drop k (b # bs)) \<le> m - c"
      using dropc c "3.prems"(2) by (metis diff_le_mono)
    from "3.IH"(1) [OF _ Moved _ live this] k c dropc
    obtain script' where "write_loop dl (drop k (b # bs)) (out @ take k (b # bs)) script =
        (Inr (), (out @ take k (b # bs)) @ drop k (b # bs), script')"
      "lively dl (m - c - length (drop k (b # bs))) script'"
      by (auto simp: io_remaining_def)
    then show ?thesis
      using Moved k c dropc by (auto simp: io_remaining_def)
  next
    case Interrupted
    with 3 show ?thesis
      by (auto simp: lively_Cons usable_def io_remaining_def)
  qed (auto simp: lively_Cons usable_def)
qed (auto simp: lively_Nil)

subsection \<open>Frames on a stream\<close>

(* @src crates/sensor-transport/src/connection.rs:24-24 HANDSHAKE_LIMIT *)
definition HANDSHAKE_LIMIT :: nat where
  "HANDSHAKE_LIMIT = 4096"

(* @src crates/sensor-transport/src/connection.rs:25-25 AAD *)
definition AAD :: bytes where
  "AAD = ascii_bytes ''SENSOR/ordered-record/v2''"

(* @src crates/sensor-transport/src/connection.rs:26-26 CLIENT_FINISH *)
definition CLIENT_FINISH :: bytes where
  "CLIENT_FINISH = ascii_bytes ''SENSOR/client-finished/v2''"

(* @src crates/sensor-transport/src/connection.rs:27-27 SERVER_FINISH *)
definition SERVER_FINISH :: bytes where
  "SERVER_FINISH = ascii_bytes ''SENSOR/server-finished/v2''"

(* @src crates/sensor-transport/src/connection.rs:89-104 read_frame *)
definition read_frame :: "nat \<Rightarrow> nat \<Rightarrow> tcp_stream \<Rightarrow> (connection_error + frame) \<times> tcp_stream" where
  "read_frame limit deadline s =
     (case read_exact deadline 4 s of
        (Inl e, s) \<Rightarrow> (Inl (CE_Io e), s)
      | (Inr prefix, s) \<Rightarrow>
          if from_be prefix > limit then (Inl (CE_Protocol ProtoFrameTooLarge), s)
          else (case read_exact deadline (from_be prefix) s of
              (Inl e, s) \<Rightarrow> (Inl (CE_Io e), s)
            | (Inr bs, s) \<Rightarrow> (map_err CE_Protocol (frame_decode bs), s)))"

(* @src crates/sensor-transport/src/connection.rs:106-115 write_frame *)
definition write_frame :: "frame \<Rightarrow> nat \<Rightarrow> tcp_stream \<Rightarrow> (connection_error + unit) \<times> tcp_stream" where
  "write_frame f deadline s =
     (case frame_encode f of
        Inl e \<Rightarrow> (Inl (CE_Protocol e), s)
      | Inr bs \<Rightarrow>
          (case write_all deadline (be_bytes 4 (length bs)) s of
             (Inl e, s) \<Rightarrow> (Inl (CE_Io e), s)
           | (Inr _, s) \<Rightarrow> (let (r, s) = write_all deadline bs s in (map_err CE_Io r, s))))"

lemma read_exact_Inr:
  "read_exact dl n s = (Inr bs, s') \<Longrightarrow> length bs = n \<and> st_in s = bs @ st_in s'"
  by (auto simp: read_exact_def dest: read_loop_Inr split: prod.splits)

lemma read_exact_other [simp]:
  "st_out (snd (read_exact dl n s)) = st_out s"
  "st_writes (snd (read_exact dl n s)) = st_writes s"
  "st_shut (snd (read_exact dl n s)) = st_shut s"
  by (auto simp: read_exact_def split: prod.splits)

lemma read_exact_lively:
  assumes "lively dl m (st_reads s)" and "n \<le> m" and "st_in s = bs @ r" and "length bs = n"
  shows "\<exists>sc. read_exact dl n s = (Inr bs, s\<lparr>st_in := r, st_reads := sc\<rparr>) \<and> lively dl (m - n) sc"
  using read_loop_lively [OF assms(1,2), of "st_in s"] assms(3,4)
  by (auto simp: read_exact_def)

lemma write_all_lively:
  assumes "lively dl m (st_writes s)" and "length bs \<le> m"
  shows "\<exists>sc. write_all dl bs s = (Inr (), s\<lparr>st_out := st_out s @ bs, st_writes := sc\<rparr>) \<and>
    lively dl (m - length bs) sc"
  using write_loop_lively [OF assms, of "st_out s"] by (auto simp: write_all_def)

lemma write_all_Inr:
  "write_all dl bs s = (Inr (), s') \<Longrightarrow> \<exists>sc. s' = s\<lparr>st_out := st_out s @ bs, st_writes := sc\<rparr>"
  using write_loop_prefix [of dl bs "st_out s" "st_writes s"]
  by (auto simp: write_all_def split: prod.splits)

definition framed :: "bytes \<Rightarrow> bytes" where
  "framed bs = be_bytes 4 (length bs) @ bs"

lemma write_frame_Inr:
  "write_frame f dl s = (Inr (), s') \<Longrightarrow>
     \<exists>bs sc. frame_encode f = Inr bs \<and> s' = s\<lparr>st_out := st_out s @ framed bs, st_writes := sc\<rparr>"
  by (auto simp: write_frame_def framed_def map_err_Inr_iff dest!: write_all_Inr
      split: sum.splits prod.splits)

lemma write_frame_lively:
  assumes "frame_encode f = Inr bs" and "lively dl m (st_writes s)" and "4 + length bs \<le> m"
  shows "\<exists>sc. write_frame f dl s = (Inr (), s\<lparr>st_out := st_out s @ framed bs, st_writes := sc\<rparr>) \<and>
    lively dl (m - (4 + length bs)) sc"
proof -
  obtain sc where 1: "write_all dl (be_bytes 4 (length bs)) s =
      (Inr (), s\<lparr>st_out := st_out s @ be_bytes 4 (length bs), st_writes := sc\<rparr>)" "lively dl (m - 4) sc"
    using write_all_lively [of dl m s "be_bytes 4 (length bs)"] assms by auto
  have "length bs \<le> m - 4"
    using assms(3) by simp
  then obtain sc' where "write_all dl bs (s\<lparr>st_out := st_out s @ be_bytes 4 (length bs), st_writes := sc\<rparr>) =
      (Inr (), s\<lparr>st_out := st_out s @ framed bs, st_writes := sc'\<rparr>)" "lively dl (m - 4 - length bs) sc'"
    using write_all_lively [of dl "m - 4" "s\<lparr>st_out := st_out s @ be_bytes 4 (length bs), st_writes := sc\<rparr>" bs] 1
    by (auto simp: framed_def)
  then show ?thesis
    using 1 assms(1) by (auto simp: write_frame_def)
qed

lemma read_frame_lively:
  assumes "frame_encode f = Inr bs" and "length bs \<le> limit" and "lively dl m (st_reads s)"
    and "4 + length bs \<le> m" and "st_in s = framed bs @ r"
  shows "\<exists>sc. read_frame limit dl s = (Inr f, s\<lparr>st_in := r, st_reads := sc\<rparr>) \<and>
    lively dl (m - (4 + length bs)) sc"
proof -
  have val: "from_be (be_bytes 4 (length bs)) = length bs"
    using frame_encode_bound [OF assms(1)] by (intro from_be_be_bytes) (simp add: MAX_FRAME_SIZE_def)
  obtain sc where 1: "read_exact dl 4 s =
      (Inr (be_bytes 4 (length bs)), s\<lparr>st_in := bs @ r, st_reads := sc\<rparr>)" "lively dl (m - 4) sc"
    using read_exact_lively [OF assms(3), of 4 "be_bytes 4 (length bs)" "bs @ r"] assms(4,5)
    by (auto simp: framed_def)
  have "length bs \<le> m - 4"
    using assms(4) by simp
  then obtain sc' where "read_exact dl (length bs) (s\<lparr>st_in := bs @ r, st_reads := sc\<rparr>) =
      (Inr bs, s\<lparr>st_in := r, st_reads := sc'\<rparr>)" "lively dl (m - 4 - length bs) sc'"
    using read_exact_lively [of dl "m - 4" "s\<lparr>st_in := bs @ r, st_reads := sc\<rparr>" "length bs" bs r]
      1 by auto
  then show ?thesis
    using 1 assms(1,2) val by (auto simp: read_frame_def frame_decode_encode)
qed

lemma read_frame_Inr:
  assumes "read_frame limit dl s = (Inr f, s')"
  shows "\<exists>bs. frame_encode f = Inr bs \<and> length bs \<le> limit \<and> st_in s = framed bs @ st_in s'"
proof -
  obtain pre s1 bs where 1: "read_exact dl 4 s = (Inr pre, s1)" "from_be pre \<le> limit"
    "read_exact dl (from_be pre) s1 = (Inr bs, s')" "frame_decode bs = Inr f"
    using assms by (auto simp: read_frame_def map_err_Inr_iff split: prod.splits sum.splits if_splits)
  have "length pre = 4" "st_in s = pre @ st_in s1" "length bs = from_be pre" "st_in s1 = bs @ st_in s'"
    using read_exact_Inr [OF 1(1)] read_exact_Inr [OF 1(3)] by auto
  moreover from this have "be_bytes 4 (length bs) = pre"
    by (metis be_bytes_from_be)
  ultimately show ?thesis
    using 1 frame_encode_decode [OF 1(4)] by (auto simp: framed_def)
qed

lemma read_frame_other [simp]:
  "st_out (snd (read_frame limit dl s)) = st_out s"
  by (auto simp: read_frame_def split: prod.splits sum.splits if_splits
      dest!: arg_cong [where f = "\<lambda>x. st_out (snd x)"])

subsection \<open>The connection\<close>

(* @src crates/sensor-transport/src/connection.rs:117-126 SecureConnection *)
record secure_connection =
  cn_stream :: tcp_stream
  cn_session :: "secure_session option"
  cn_peer :: expected_peer
  cn_transcript :: bytes
  cn_timeout :: nat
  cn_closed :: bool

(* @src crates/sensor-transport/src/connection.rs:367-373 SecureConnection::close *)
definition conn_close :: "secure_connection \<Rightarrow> secure_connection" where
  "conn_close c =
     (if cn_closed c then c
      else c\<lparr>cn_closed := True, cn_stream := (cn_stream c)\<lparr>st_shut := True\<rparr>\<rparr>)"

definition close_on_error ::
  "(connection_error + 'a) \<times> secure_connection \<Rightarrow> (connection_error + 'a) \<times> secure_connection" where
  "close_on_error rc = (case fst rc of Inl e \<Rightarrow> (Inl e, conn_close (snd rc)) | Inr a \<Rightarrow> rc)"

definition record_frame :: "encrypted_record \<Rightarrow> frame" where
  "record_frame r =
     \<lparr>fr_version = PROTOCOL_VERSION, fr_type = MT_Control,
      fr_payload = be_bytes 8 (unat (er_sequence r)) @ er_ciphertext r\<rparr>"

definition record_of_payload :: "bytes \<Rightarrow> encrypted_record" where
  "record_of_payload p =
     \<lparr>er_sequence = word_of_nat (from_be (take 8 p)), er_ciphertext = drop 8 p\<rparr>"

(* @src crates/sensor-transport/src/connection.rs:315-332 SecureConnection::send_bytes: the record *)
definition send_record ::
  "crypto_lib \<Rightarrow> bytes \<Rightarrow> nat \<Rightarrow> secure_connection \<Rightarrow> (connection_error + unit) \<times> secure_connection" where
  "send_record L plaintext deadline c =
     (case cn_session c of
        None \<Rightarrow> (Inl CE_Closed, c)
      | Some session \<Rightarrow>
          (case session_seal L AAD session plaintext of
             (Inl e, session) \<Rightarrow> (Inl (CE_Session e), c\<lparr>cn_session := Some session\<rparr>)
           | (Inr r, session) \<Rightarrow>
               (let (res, s) = write_frame (record_frame r) deadline (cn_stream c)
                in (res, c\<lparr>cn_session := Some session, cn_stream := s\<rparr>))))"

(* @src crates/sensor-transport/src/connection.rs:308-337 SecureConnection::send_bytes *)
definition send_bytes ::
  "crypto_lib \<Rightarrow> bytes \<Rightarrow> nat \<Rightarrow> secure_connection \<Rightarrow> (connection_error + unit) \<times> secure_connection" where
  "send_bytes L plaintext deadline c =
     (if cn_closed c then (Inl CE_Closed, c)
      else if length plaintext > MAX_FRAME_SIZE - 64 then (Inl (CE_Protocol ProtoFrameTooLarge), c)
      else close_on_error (send_record L plaintext deadline c))"

(* @src crates/sensor-transport/src/connection.rs:343-360 SecureConnection::receive_bytes: the record *)
definition receive_record ::
  "crypto_lib \<Rightarrow> nat \<Rightarrow> secure_connection \<Rightarrow> (connection_error + bytes) \<times> secure_connection" where
  "receive_record L deadline c =
     (case read_frame MAX_FRAME_SIZE deadline (cn_stream c) of
        (Inl e, s) \<Rightarrow> (Inl e, c\<lparr>cn_stream := s\<rparr>)
      | (Inr f, s) \<Rightarrow>
          if fr_type f \<noteq> MT_Control \<or> length (fr_payload f) < 24
          then (Inl CE_UnexpectedMessage, c\<lparr>cn_stream := s\<rparr>)
          else case cn_session c of
              None \<Rightarrow> (Inl CE_Closed, c\<lparr>cn_stream := s\<rparr>)
            | Some session \<Rightarrow>
                (let (r, session) = session_open L AAD session (record_of_payload (fr_payload f))
                 in (map_err CE_Session r, c\<lparr>cn_stream := s, cn_session := Some session\<rparr>)))"

(* @src crates/sensor-transport/src/connection.rs:339-365 SecureConnection::receive_bytes *)
definition receive_bytes ::
  "crypto_lib \<Rightarrow> nat \<Rightarrow> secure_connection \<Rightarrow> (connection_error + bytes) \<times> secure_connection" where
  "receive_bytes L deadline c =
     (if cn_closed c then (Inl CE_Closed, c) else close_on_error (receive_record L deadline c))"

(* @src crates/sensor-transport/src/connection.rs:278-285 SecureConnection::set_timeout *)
definition conn_set_timeout :: "nat \<Rightarrow> secure_connection \<Rightarrow> (connection_error + unit) \<times> secure_connection" where
  "conn_set_timeout timeout c =
     (if timeout = 0 \<or> timeout > 600 * 1000000000 then (Inl CE_UnexpectedMessage, c)
      else (Inr (), c\<lparr>cn_timeout := timeout\<rparr>))"

(* @src crates/sensor-transport/src/connection.rs:287-290 SecureConnection::send *)
definition conn_send ::
  "crypto_lib \<Rightarrow> 'a codec \<Rightarrow> nat \<Rightarrow> secure_connection \<Rightarrow> 'a \<Rightarrow> (connection_error + unit) \<times> secure_connection" where
  "conn_send L cd now c message =
     (case res_bind (frame_new cd MT_Control message) frame_encode of
        Inl e \<Rightarrow> (Inl (CE_Protocol e), c)
      | Inr bs \<Rightarrow> send_bytes L bs (now + cn_timeout c) c)"

definition decode_message :: "'a codec \<Rightarrow> bytes \<Rightarrow> connection_error + 'a" where
  "decode_message cd bs =
     res_bind (map_err CE_Protocol (frame_decode bs)) (\<lambda>f.
       if fr_type f \<noteq> MT_Control then Inl CE_UnexpectedMessage
       else map_err CE_Protocol (decode_payload cd f))"

(* @src crates/sensor-transport/src/connection.rs:292-306 SecureConnection::receive *)
definition conn_receive ::
  "crypto_lib \<Rightarrow> 'a codec \<Rightarrow> nat \<Rightarrow> secure_connection \<Rightarrow> (connection_error + 'a) \<times> secure_connection" where
  "conn_receive L cd now c =
     (let (r, c) = receive_bytes L (now + cn_timeout c) c
      in close_on_error (res_bind r (decode_message cd), c))"

subsection \<open>Establishing a connection\<close>

definition new_connection :: "tcp_stream \<Rightarrow> secure_session \<Rightarrow> nat \<Rightarrow> secure_connection" where
  "new_connection s session timeout =
     \<lparr>cn_stream = s, cn_session = Some session,
      cn_peer = \<lparr>ep_device_id = ss_peer_device_id session, ep_public_key = ss_peer_identity_key session\<rparr>,
      cn_transcript = ss_transcript_hash session, cn_timeout = timeout, cn_closed = False\<rparr>"

text \<open>The first handshake message of a peer: a frame within the limit, of the expected type.\<close>

definition read_hello ::
  "'a codec \<Rightarrow> message_type \<Rightarrow> nat \<Rightarrow> tcp_stream \<Rightarrow> (connection_error + 'a) \<times> tcp_stream" where
  "read_hello cd t deadline s =
     (case read_frame HANDSHAKE_LIMIT deadline s of
        (Inl e, s) \<Rightarrow> (Inl e, s)
      | (Inr f, s) \<Rightarrow>
          (if fr_type f \<noteq> t then Inl CE_UnexpectedMessage
           else map_err CE_Protocol (decode_payload cd f), s))"

definition write_hello ::
  "'a codec \<Rightarrow> message_type \<Rightarrow> 'a \<Rightarrow> nat \<Rightarrow> tcp_stream \<Rightarrow> (connection_error + unit) \<times> tcp_stream" where
  "write_hello cd t hello deadline s =
     (case frame_new cd t hello of
        Inl e \<Rightarrow> (Inl (CE_Protocol e), s)
      | Inr f \<Rightarrow> write_frame f deadline s)"

text \<open>A panic of \<open>start_initiator\<close> is \<open>None\<close>. Dropping a connection on an early return closes it, so
  the second component of every result is the stream as the peer sees it.\<close>

(* @src crates/sensor-transport/src/connection.rs:154-189 SecureConnection::initiate *)
definition conn_initiate ::
  "crypto_lib \<Rightarrow> proto_codecs \<Rightarrow> tcp_stream \<Rightarrow> identity_keypair \<Rightarrow> device_id \<Rightarrow> expected_peer
     \<Rightarrow> nat \<Rightarrow> nat \<Rightarrow> bytes \<Rightarrow> bytes
     \<Rightarrow> ((connection_error + secure_connection) \<times> tcp_stream) option" where
  "conn_initiate L P s kp did expected timeout now eph nonce =
     (case st_nodelay s of Some e \<Rightarrow> Some (Inl (CE_Io e), s) | None \<Rightarrow>
      (let deadline = now + timeout in
       case start_initiator L P kp did expected eph nonce of None \<Rightarrow> None | Some (pending, hello) \<Rightarrow>
       Some (case write_hello (pc_client_hello P) MT_ClientHello hello deadline s of
         (Inl e, s) \<Rightarrow> (Inl e, s)
       | (Inr _, s) \<Rightarrow>
       (case read_hello (pc_server_hello P) MT_ServerHello deadline s of
         (Inl e, s) \<Rightarrow> (Inl e, s)
       | (Inr sh, s) \<Rightarrow>
       (case finish_initiator L P pending sh of
         Inl e \<Rightarrow> (Inl (CE_Session e), s)
       | Inr session \<Rightarrow>
       (case send_bytes L CLIENT_FINISH deadline (new_connection s session timeout) of
         (Inl e, c) \<Rightarrow> (Inl e, cn_stream (conn_close c))
       | (Inr _, c) \<Rightarrow>
       (case receive_bytes L deadline c of
         (Inl e, c) \<Rightarrow> (Inl e, cn_stream (conn_close c))
       | (Inr finish, c) \<Rightarrow>
           if finish \<noteq> SERVER_FINISH then (Inl CE_UnexpectedMessage, cn_stream (conn_close c))
           else (Inr c, cn_stream c))))))))"

text \<open>The common body of the two accepting functions, from the answer to the hello on.\<close>

(* @src crates/sensor-transport/src/connection.rs:246-268 SecureConnection::accept_unpinned *)
definition conn_respond ::
  "crypto_lib \<Rightarrow> proto_codecs \<Rightarrow> nat \<Rightarrow> nat \<Rightarrow> tcp_stream
     \<Rightarrow> session_error + (responder_state \<times> server_hello)
     \<Rightarrow> (connection_error + secure_connection) \<times> tcp_stream" where
  "conn_respond L P timeout deadline s accepted =
     (case accepted of
         Inl e \<Rightarrow> (Inl (CE_Session e), s)
       | Inr (pending, response) \<Rightarrow>
       (case write_hello (pc_server_hello P) MT_ServerHello response deadline s of
         (Inl e, s) \<Rightarrow> (Inl e, s)
       | (Inr _, s) \<Rightarrow>
       (case finish_responder L P pending of
         Inl e \<Rightarrow> (Inl (CE_Session e), s)
       | Inr session \<Rightarrow>
       (case receive_bytes L deadline (new_connection s session timeout) of
         (Inl e, c) \<Rightarrow> (Inl e, cn_stream (conn_close c))
       | (Inr finish, c) \<Rightarrow>
           if finish \<noteq> CLIENT_FINISH then (Inl CE_UnexpectedMessage, cn_stream (conn_close c))
           else (case send_bytes L SERVER_FINISH deadline c of
               (Inl e, c) \<Rightarrow> (Inl e, cn_stream (conn_close c))
             | (Inr _, c) \<Rightarrow> (Inr c, cn_stream c))))))"

(* @src crates/sensor-transport/src/connection.rs:191-228 SecureConnection::accept *)
definition conn_accept ::
  "crypto_lib \<Rightarrow> proto_codecs \<Rightarrow> tcp_stream \<Rightarrow> identity_keypair \<Rightarrow> device_id \<Rightarrow> expected_peer
     \<Rightarrow> nat \<Rightarrow> nat \<Rightarrow> bytes \<Rightarrow> bytes \<Rightarrow> (connection_error + secure_connection) \<times> tcp_stream" where
  "conn_accept L P s kp did expected timeout now eph nonce =
     (case st_nodelay s of Some e \<Rightarrow> (Inl (CE_Io e), s) | None \<Rightarrow>
      (case read_hello (pc_client_hello P) MT_ClientHello (now + timeout) s of
         (Inl e, s) \<Rightarrow> (Inl e, s)
       | (Inr hello, s) \<Rightarrow>
           conn_respond L P timeout (now + timeout) s
             (accept_hello L P kp did hello expected eph nonce)))"

(* @src crates/sensor-transport/src/connection.rs:230-268 SecureConnection::accept_unpinned *)
definition conn_accept_unpinned ::
  "crypto_lib \<Rightarrow> proto_codecs \<Rightarrow> tcp_stream \<Rightarrow> identity_keypair \<Rightarrow> device_id
     \<Rightarrow> nat \<Rightarrow> nat \<Rightarrow> bytes \<Rightarrow> bytes \<Rightarrow> (connection_error + secure_connection) \<times> tcp_stream" where
  "conn_accept_unpinned L P s kp did timeout now eph nonce =
     (case st_nodelay s of Some e \<Rightarrow> (Inl (CE_Io e), s) | None \<Rightarrow>
      (case read_hello (pc_client_hello P) MT_ClientHello (now + timeout) s of
         (Inl e, s) \<Rightarrow> (Inl e, s)
       | (Inr hello, s) \<Rightarrow>
           conn_respond L P timeout (now + timeout) s
             (accept_hello_unpinned L P kp did hello eph nonce)))"

text \<open>\<open>connect\<close>: the three clock readings and what the system's connect returns are arguments.\<close>

(* @src crates/sensor-transport/src/connection.rs:143-152 SecureConnection::connect *)
definition conn_connect ::
  "crypto_lib \<Rightarrow> proto_codecs \<Rightarrow> io_error + tcp_stream \<Rightarrow> identity_keypair \<Rightarrow> device_id \<Rightarrow> expected_peer
     \<Rightarrow> nat \<Rightarrow> nat \<times> nat \<times> nat \<times> nat \<Rightarrow> bytes \<Rightarrow> bytes
     \<Rightarrow> (connection_error + secure_connection) option" where
  "conn_connect L P dialed kp did expected timeout = (\<lambda>(t0, t1, t2, t3) eph nonce.
     (case io_remaining t1 (t0 + timeout) of Inl e \<Rightarrow> Some (Inl (CE_Io e)) | Inr _ \<Rightarrow>
     (case dialed of Inl e \<Rightarrow> Some (Inl (CE_Io e)) | Inr s \<Rightarrow>
     (case io_remaining t2 (t0 + timeout) of Inl e \<Rightarrow> Some (Inl (CE_Io e)) | Inr left \<Rightarrow>
       map_option fst (conn_initiate L P s kp did expected left t3 eph nonce)))))"

subsection \<open>The two halves of a split connection\<close>

text \<open>Both halves share one socket and one session behind a lock; the reader and the writer have
  their own deadlines. The lock cannot be poisoned: no code that holds it panics.\<close>

(* @src crates/sensor-transport/src/connection.rs:403-416 DuplexState, SecureReader, SecureWriter *)
record duplex =
  dx_stream :: tcp_stream
  dx_session :: secure_session
  dx_failed :: bool
  dx_read_timeout :: nat
  dx_write_timeout :: nat

(* @src crates/sensor-transport/src/connection.rs:417-420 fail_duplex *)
definition fail_duplex :: "duplex \<Rightarrow> duplex" where
  "fail_duplex d = d\<lparr>dx_failed := True, dx_stream := (dx_stream d)\<lparr>st_shut := True\<rparr>\<rparr>"

(* @src crates/sensor-transport/src/connection.rs:375-400 SecureConnection::split *)
definition conn_split ::
  "io_error option \<Rightarrow> io_error option \<Rightarrow> secure_connection
     \<Rightarrow> (connection_error + duplex) \<times> secure_connection" where
  "conn_split clone_read clone_write c =
     (if cn_closed c then (Inl CE_Closed, c)
      else case clone_read of Some e \<Rightarrow> (Inl (CE_Io e), c) | None \<Rightarrow>
       (case clone_write of Some e \<Rightarrow> (Inl (CE_Io e), c) | None \<Rightarrow>
       (case cn_session c of None \<Rightarrow> (Inl CE_Closed, c) | Some session \<Rightarrow>
         (Inr \<lparr>dx_stream = cn_stream c, dx_session = session, dx_failed = False,
               dx_read_timeout = cn_timeout c, dx_write_timeout = cn_timeout c\<rparr>,
          c\<lparr>cn_session := None, cn_closed := True\<rparr>))))"

definition fail_on_error ::
  "(connection_error + 'a) \<times> duplex \<Rightarrow> (connection_error + 'a) \<times> duplex" where
  "fail_on_error rd = (case fst rd of Inl e \<Rightarrow> (Inl e, fail_duplex (snd rd)) | Inr a \<Rightarrow> rd)"

(* @src crates/sensor-transport/src/connection.rs:422-459 SecureReader::receive *)
definition reader_receive ::
  "crypto_lib \<Rightarrow> 'a codec \<Rightarrow> nat \<Rightarrow> duplex \<Rightarrow> (connection_error + 'a) \<times> duplex" where
  "reader_receive L cd now d = fail_on_error
     (if dx_failed d then (Inl CE_Closed, d)
      else case read_frame MAX_FRAME_SIZE (now + dx_read_timeout d) (dx_stream d) of
          (Inl e, s) \<Rightarrow> (Inl e, d\<lparr>dx_stream := s\<rparr>)
        | (Inr f, s) \<Rightarrow>
            if fr_type f \<noteq> MT_Control \<or> length (fr_payload f) < 24
            then (Inl CE_UnexpectedMessage, d\<lparr>dx_stream := s\<rparr>)
            else (let (r, session) = session_open L AAD (dx_session d) (record_of_payload (fr_payload f))
                  in (res_bind (map_err CE_Session r) (decode_message cd),
                      d\<lparr>dx_stream := s, dx_session := session\<rparr>)))"

(* @src crates/sensor-transport/src/connection.rs:462-470 SecureWriter::set_timeout *)
definition writer_set_timeout :: "nat \<Rightarrow> duplex \<Rightarrow> (connection_error + unit) \<times> duplex" where
  "writer_set_timeout timeout d =
     (if timeout = 0 \<or> timeout > 600 * 1000000000 then (Inl CE_UnexpectedMessage, d)
      else (Inr (), d\<lparr>dx_write_timeout := timeout\<rparr>))"

(* @src crates/sensor-transport/src/connection.rs:471-502 SecureWriter::send *)
definition writer_send ::
  "crypto_lib \<Rightarrow> 'a codec \<Rightarrow> nat \<Rightarrow> duplex \<Rightarrow> 'a \<Rightarrow> (connection_error + unit) \<times> duplex" where
  "writer_send L cd now d message = fail_on_error
     (if dx_failed d then (Inl CE_Closed, d)
      else case res_bind (frame_new cd MT_Control message) frame_encode of
          Inl e \<Rightarrow> (Inl (CE_Protocol e), d)
        | Inr plaintext \<Rightarrow>
            if length plaintext > MAX_FRAME_SIZE - 64 then (Inl (CE_Protocol ProtoFrameTooLarge), d)
            else (case session_seal L AAD (dx_session d) plaintext of
                (Inl e, session) \<Rightarrow> (Inl (CE_Session e), d\<lparr>dx_session := session\<rparr>)
              | (Inr r, session) \<Rightarrow>
                  (let (res, s) = write_frame (record_frame r) (now + dx_write_timeout d) (dx_stream d)
                   in (res, d\<lparr>dx_session := session, dx_stream := s\<rparr>))))"

(* @src crates/sensor-transport/src/connection.rs:504-513 Drop for SecureReader, SecureWriter *)
definition duplex_drop :: "duplex \<Rightarrow> duplex" where
  "duplex_drop d = fail_duplex d"

subsection \<open>Failure closes for good\<close>

lemma close_on_error_Inl: "close_on_error rc = (Inl e, c') \<Longrightarrow> cn_closed c'"
  by (auto simp: close_on_error_def conn_close_def split: sum.splits if_splits)

lemma close_on_error_Inr_iff: "close_on_error rc = (Inr a, c') \<longleftrightarrow> rc = (Inr a, c')"
  by (cases rc) (auto simp: close_on_error_def split: sum.splits)

lemma closed_send:
  "cn_closed c \<Longrightarrow> \<exists>e. conn_send L cd now c m = (Inl e, c)"
  by (auto simp: conn_send_def send_bytes_def split: sum.splits)

lemma closed_receive:
  "cn_closed c \<Longrightarrow> conn_receive L cd now c = (Inl CE_Closed, c)"
  by (simp add: conn_receive_def receive_bytes_def close_on_error_def conn_close_def)

text \<open>A connection fails closed: once a receive has failed, for whatever reason (I/O, framing,
  authentication, replay, decoding), the connection is closed, and every later send or receive of
  any message fails without touching the stream or the session.\<close>

theorem connection_fails_closed:
  assumes "conn_receive L cd now c = (Inl e, c')"
  shows "cn_closed c' \<and> (\<exists>e'. conn_send L cd' now' c' m = (Inl e', c')) \<and>
    conn_receive L cd' now' c' = (Inl CE_Closed, c')"
proof -
  have "cn_closed c'"
    using assms by (auto simp: conn_receive_def split: prod.splits dest: close_on_error_Inl)
  then show ?thesis
    by (simp add: closed_send closed_receive)
qed

subsection \<open>Delivery\<close>

lemma record_of_payload_frame [simp]: "record_of_payload (fr_payload (record_frame r)) = r"
  using unat64_less [of "er_sequence r"]
  by (cases r) (simp add: record_of_payload_def record_frame_def from_be_be_bytes)

lemma conn_send_Inr:
  assumes "conn_send L cd now c m = (Inr (), c')"
  shows "\<exists>f pt s r s' bs sc. \<not> cn_closed c \<and> frame_new cd MT_Control m = Inr f \<and>
    frame_encode f = Inr pt \<and> cn_session c = Some s \<and> session_seal L AAD s pt = (Inr r, s') \<and>
    frame_encode (record_frame r) = Inr bs \<and>
    c' = c\<lparr>cn_session := Some s',
      cn_stream := (cn_stream c)\<lparr>st_out := st_out (cn_stream c) @ framed bs, st_writes := sc\<rparr>\<rparr>"
  using assms
  by (auto simp: conn_send_def res_simps send_bytes_def send_record_def close_on_error_Inr_iff
      split: sum.splits if_splits option.splits prod.splits dest!: write_frame_Inr)

lemma decode_message_frame:
  assumes "codec_ok cd" and "frame_new cd MT_Control m = Inr f" and "frame_encode f = Inr pt"
  shows "decode_message cd pt = Inr m"
  using decode_payload_frame_new [OF assms(1,2)] frame_decode_encode [OF assms(3)]
  by (simp add: decode_message_def)

lemma conn_receive_record:
  assumes "\<not> cn_closed c" and "cn_session c = Some s" and "session_open L AAD s r = (Inr pt, s')"
    and "decode_message cd pt = Inr m" and "frame_encode (record_frame r) = Inr bs"
    and "16 \<le> length (er_ciphertext r)" and "lively (now + cn_timeout c) n (st_reads (cn_stream c))"
    and "length (framed bs) \<le> n" and "st_in (cn_stream c) = framed bs @ rest"
  shows "\<exists>sc. conn_receive L cd now c = (Inr m, c\<lparr>cn_session := Some s',
      cn_stream := (cn_stream c)\<lparr>st_in := rest, st_reads := sc\<rparr>\<rparr>) \<and>
    lively (now + cn_timeout c) (n - length (framed bs)) sc"
proof -
  have "4 + length bs \<le> n"
    using assms(8) by (simp add: framed_def)
  from read_frame_lively [OF assms(5) frame_encode_bound [OF assms(5)] assms(7) this assms(9)]
  obtain sc where sc: "read_frame MAX_FRAME_SIZE (now + cn_timeout c) (cn_stream c) =
      (Inr (record_frame r), (cn_stream c)\<lparr>st_in := rest, st_reads := sc\<rparr>)"
    "lively (now + cn_timeout c) (n - (4 + length bs)) sc"
    by blast
  have "fr_type (record_frame r) = MT_Control" "\<not> length (fr_payload (record_frame r)) < 24"
    using assms(6) by (simp_all add: record_frame_def)
  then have "receive_bytes L (now + cn_timeout c) c = (Inr pt, c\<lparr>cn_session := Some s',
      cn_stream := (cn_stream c)\<lparr>st_in := rest, st_reads := sc\<rparr>\<rparr>)"
    using assms(1,2,3) sc(1)
    by (simp add: receive_bytes_def receive_record_def close_on_error_Inr_iff)
  then show ?thesis
    using assms(4) sc(2)
    by (intro exI [of _ sc]) (simp add: conn_receive_def close_on_error_Inr_iff framed_def)
qed

lemma run_ok_outputs:
  "run_ok (conn_send L cd now) c ms = Some (us, c') \<Longrightarrow>
     \<exists>w. st_out (cn_stream c') = st_out (cn_stream c) @ w"
proof (induction ms arbitrary: c us)
  case (Cons m ms)
  then obtain c1 us' where "conn_send L cd now c m = (Inr (), c1)"
    "run_ok (conn_send L cd now) c1 ms = Some (us', c')"
    by (auto simp: run_ok_Cons_iff simp del: run_ok.simps)
  with Cons.IH [OF this(2)] show ?case
    by (auto dest!: conn_send_Inr)
qed simp

text \<open>The endpoints of one direction: the sender's session is linked to the receiver's.\<close>

definition conns_linked :: "crypto_lib \<Rightarrow> secure_connection \<Rightarrow> secure_connection \<Rightarrow> bool" where
  "conns_linked L a b \<longleftrightarrow> \<not> cn_closed b \<and>
     (\<exists>sa sb. cn_session a = Some sa \<and> cn_session b = Some sb \<and> session_linked L sa sb)"

lemma deliver_all:
  assumes "codec_ok cd" and "conns_linked L a b"
    and "run_ok (conn_send L cd now) a ms = Some (us, a')"
    and "st_out (cn_stream a') = st_out (cn_stream a) @ w"
    and "st_in (cn_stream b) = w @ rest"
    and "lively (now' + cn_timeout b) (length w) (st_reads (cn_stream b))"
  shows "\<exists>b'. run_ok (\<lambda>c _. conn_receive L cd now' c) b ms = Some (ms, b') \<and>
    st_in (cn_stream b') = rest \<and> conns_linked L a' b'"
  using assms(2-)
proof (induction ms arbitrary: a b us w)
  case (Cons m ms)
  then obtain a1 us' where send: "conn_send L cd now a m = (Inr (), a1)"
    and rest: "run_ok (conn_send L cd now) a1 ms = Some (us', a')"
    by (auto simp: run_ok_Cons_iff simp del: run_ok.simps)
  obtain f pt s r s' bs sc where f: "frame_new cd MT_Control m = Inr f" "frame_encode f = Inr pt"
    and s: "cn_session a = Some s" "session_seal L AAD s pt = (Inr r, s')"
    and bs: "frame_encode (record_frame r) = Inr bs"
    and a1: "a1 = a\<lparr>cn_session := Some s',
      cn_stream := (cn_stream a)\<lparr>st_out := st_out (cn_stream a) @ framed bs, st_writes := sc\<rparr>\<rparr>"
    using conn_send_Inr [OF send] by blast
  obtain w' where w': "st_out (cn_stream a') = st_out (cn_stream a1) @ w'"
    using run_ok_outputs [OF rest] by blast
  then have w: "w = framed bs @ w'"
    using Cons.prems(3) a1 by simp
  obtain sb where sb: "cn_session b = Some sb" "session_linked L s sb" "\<not> cn_closed b"
    using Cons.prems(1) s(1) by (auto simp: conns_linked_def)
  obtain sb' where op: "session_open L AAD sb r = (Inr pt, sb')" "session_linked L s' sb'"
    using session_delivers [OF sb(2) s(2)] by blast
  have "length (er_ciphertext r) = length pt + 16"
    using s(2) sb(2) aead_lawsD(2)
    by (auto simp: session_seal_Inr_iff channel_seal_Inr_iff session_linked_def channel_linked_def)
  then have len: "16 \<le> length (er_ciphertext r)"
    by simp
  have "st_in (cn_stream b) = framed bs @ w' @ rest" and "length (framed bs) \<le> length w"
    using Cons.prems(4) w by simp_all
  from conn_receive_record [OF sb(3,1) op(1) decode_message_frame [OF assms(1) f] bs len
      Cons.prems(5) this(2,1)]
  obtain sc' where rx: "conn_receive L cd now' b = (Inr m, b\<lparr>cn_session := Some sb',
      cn_stream := (cn_stream b)\<lparr>st_in := w' @ rest, st_reads := sc'\<rparr>\<rparr>)"
    and live: "lively (now' + cn_timeout b) (length w') sc'"
    using w by auto
  let ?b = "b\<lparr>cn_session := Some sb', cn_stream := (cn_stream b)\<lparr>st_in := w' @ rest, st_reads := sc'\<rparr>\<rparr>"
  have "conns_linked L a1 ?b"
    using a1 op(2) sb(3) by (simp add: conns_linked_def)
  from Cons.IH [OF this rest w'] live rx show ?case
    by auto
qed auto

text \<open>C6: Linked connections deliver messages in order: if one endpoint sends a list of messages
  successfully and the bytes it wrote reach the other endpoint, in whatever fragments and with
  whatever interruptions the sockets produce in time, then that endpoint receives exactly these
  messages in this order and leaves any following bytes unread.\<close>

theorem messages_delivered:
  assumes "codec_ok cd" and "conns_linked L a b"
    and "run_ok (conn_send L cd now) a ms = Some (us, a')"
    and "st_out (cn_stream a') = st_out (cn_stream a) @ w"
    and "st_in (cn_stream b) = w @ rest"
    and "lively (now' + cn_timeout b) (length w) (st_reads (cn_stream b))"
  shows "\<exists>b'. run_ok (\<lambda>c _. conn_receive L cd now' c) b ms = Some (ms, b') \<and>
    st_in (cn_stream b') = rest \<and> conns_linked L a' b'"
  using deliver_all [OF assms] .

lemma conn_send_ok:
  assumes "\<not> cn_closed c" and "cn_session c = Some s" and "aead_laws L"
    and "frame_new cd MT_Control m = Inr f" and "frame_encode f = Inr pt"
    and "length pt \<le> MAX_FRAME_SIZE - 64" and "session_seal L AAD s pt = (Inr r, s')"
    and "lively (now + cn_timeout c) n (st_writes (cn_stream c))" and "length pt + 35 \<le> n"
  shows "\<exists>bs sc. conn_send L cd now c m = (Inr (), c\<lparr>cn_session := Some s', cn_stream :=
      (cn_stream c)\<lparr>st_out := st_out (cn_stream c) @ framed bs, st_writes := sc\<rparr>\<rparr>) \<and>
    lively (now + cn_timeout c) (n - (length pt + 35)) sc"
proof -
  have ct: "length (er_ciphertext r) = length pt + 16"
    using assms(3,7) aead_lawsD(2) by (auto simp: session_seal_Inr_iff channel_seal_Inr_iff)
  then obtain bs where bs: "frame_encode (record_frame r) = Inr bs"
    using assms(6)
    by (auto simp: frame_encode_Inr_iff record_frame_def MAX_FRAME_SIZE_def HEADER_SIZE_def)
  have "length bs = length pt + 31"
    using length_frame_encode [OF bs] ct by (simp add: HEADER_SIZE_def record_frame_def)
  then obtain sc where "write_frame (record_frame r) (now + cn_timeout c) (cn_stream c) =
      (Inr (), (cn_stream c)\<lparr>st_out := st_out (cn_stream c) @ framed bs, st_writes := sc\<rparr>)"
    "lively (now + cn_timeout c) (n - (length pt + 35)) sc"
    using write_frame_lively [OF bs assms(8)] assms(9) by (auto simp: add.commute)
  then show ?thesis
    using assms
    by (intro exI [of _ bs] exI [of _ sc])
      (simp add: conn_send_def send_bytes_def send_record_def close_on_error_Inr_iff)
qed

subsection \<open>A concrete exchange\<close>

definition demo_stream :: tcp_stream where
  "demo_stream =
     \<lparr>st_in = [], st_reads = [], st_out = [],
      st_writes = [(1, Moved 2), (2, Interrupted)] @ replicate 200 (3, Moved 99),
      st_nodelay = None, st_shut = False\<rparr>"

definition demo_session :: "secure_channel \<Rightarrow> secure_session" where
  "demo_session ch =
     \<lparr>ss_peer_device_id = DeviceId 111111111, ss_peer_identity_key = demo_key 1,
      ss_transcript_hash = demo_key 7, ss_channel = ch\<rparr>"

definition demo_sender :: secure_connection where
  "demo_sender = new_connection demo_stream (demo_session (channel_initiator demo_keys)) 15"

definition demo_receiver :: "bytes \<Rightarrow> secure_connection" where
  "demo_receiver w = new_connection
     (demo_stream\<lparr>st_in := w, st_reads := (5, Interrupted) # replicate (length w) (6, Moved 3)\<rparr>)
     (demo_session (channel_responder demo_keys)) 15"

lemma lively_replicate: "t < dl \<Longrightarrow> 0 < k \<Longrightarrow> n \<le> m \<Longrightarrow> lively dl n (replicate m (t, Moved k))"
  by (simp add: lively_def usable_def moves_def list_all_iff)

lemma demo_linked: "conns_linked demo_lib demo_sender (demo_receiver w)"
  by (simp add: conns_linked_def demo_sender_def demo_receiver_def new_connection_def demo_session_def
      session_linked_def initiator_responder_linked demo_aead_laws demo_aead_tidy)

lemma demo_session_seal:
  "sc_next_send (ss_channel s) \<noteq> - 1 \<Longrightarrow>
     \<exists>r. session_seal demo_lib AAD s p = (Inr r, s\<lparr>ss_channel :=
       (ss_channel s)\<lparr>sc_next_send := sc_next_send (ss_channel s) + 1\<rparr>\<rparr>)"
  by (simp add: session_seal_def channel_seal_def checked_succ_def cipher_encrypt_def demo_lib_def
      Let_def)

lemma demo_send:
  assumes "length m \<le> 100" and "\<not> cn_closed c" and "cn_session c = Some s"
    and "sc_next_send (ss_channel s) \<noteq> - 1"
    and "lively (now + cn_timeout c) n (st_writes (cn_stream c))" and "length m + 46 \<le> n"
  shows "\<exists>c'. conn_send demo_lib codec_blob now c m = (Inr (), c') \<and> \<not> cn_closed c' \<and>
    cn_timeout c' = cn_timeout c \<and>
    (\<exists>s'. cn_session c' = Some s' \<and>
       sc_next_send (ss_channel s') = sc_next_send (ss_channel s) + 1) \<and>
    lively (now + cn_timeout c') (n - (length m + 46)) (st_writes (cn_stream c'))"
proof -
  obtain f pt where f: "frame_new codec_blob MT_Control m = Inr f" "frame_encode f = Inr pt"
    "length pt = length m + 11"
    using assms(1)
    by (auto simp: frame_new_def codec_blob_def frame_encode_def PROTOCOL_VERSION_def
        MAX_FRAME_SIZE_def HEADER_SIZE_def)
  obtain r where r: "session_seal demo_lib AAD s pt = (Inr r, s\<lparr>ss_channel :=
       (ss_channel s)\<lparr>sc_next_send := sc_next_send (ss_channel s) + 1\<rparr>\<rparr>)"
    using demo_session_seal [OF assms(4)] by blast
  have "length pt \<le> MAX_FRAME_SIZE - 64" "length pt + 35 \<le> n"
    using assms(1,6) f(3) by (simp_all add: MAX_FRAME_SIZE_def)
  from conn_send_ok [OF assms(2,3) demo_aead_laws f(1,2) this(1) r assms(5) this(2)]
  show ?thesis
    using assms(2) f(3) by (auto simp: add.commute)
qed

lemma demo_sends:
  "\<exists>a. run_ok (conn_send demo_lib codec_blob 0) demo_sender [[1], [2, 3]] = Some ([(), ()], a)"
proof -
  let ?s = "demo_session (channel_initiator demo_keys)"
  have live: "lively 15 100 ([(1, Moved 2), (2, Interrupted)] @ replicate 200 (3, Moved 99))"
    by (simp add: lively_Cons usable_def lively_replicate)
  obtain c where c: "conn_send demo_lib codec_blob 0 demo_sender [1] = (Inr (), c)" "\<not> cn_closed c"
    "cn_timeout c = 15" "\<exists>s'. cn_session c = Some s' \<and> sc_next_send (ss_channel s') = 1"
    "lively 15 53 (st_writes (cn_stream c))"
    using demo_send [of "[1]" demo_sender ?s 0 100] live
    by (auto simp: demo_sender_def new_connection_def demo_session_def channel_initiator_def
        demo_stream_def)
  then obtain c' where "conn_send demo_lib codec_blob 0 c [2, 3] = (Inr (), c')"
    using demo_send [of "[2, 3]" c _ 0 53] by auto
  with c(1) show ?thesis
    by simp
qed

lemma messages_delivered_witness:
  "\<exists>a w b. run_ok (conn_send demo_lib codec_blob 0) demo_sender [[1], [2, 3]] = Some ([(), ()], a) \<and>
     st_out (cn_stream a) = w \<and>
     run_ok (\<lambda>c _. conn_receive demo_lib codec_blob 1 c) (demo_receiver w) [[1], [2, 3 :: u8]]
       = Some ([[1], [2, 3]], b) \<and> st_in (cn_stream b) = []"
proof -
  obtain a where a: "run_ok (conn_send demo_lib codec_blob 0) demo_sender [[1], [2, 3]] = Some ([(), ()], a)"
    using demo_sends by blast
  define w where "w = st_out (cn_stream a)"
  have live: "lively (1 + cn_timeout (demo_receiver w)) (length w) (st_reads (cn_stream (demo_receiver w)))"
    by (simp add: demo_receiver_def new_connection_def lively_Cons usable_def lively_replicate)
  have inp: "st_in (cn_stream (demo_receiver w)) = w @ []"
    by (simp add: demo_receiver_def new_connection_def)
  have out: "st_out (cn_stream a) = st_out (cn_stream demo_sender) @ w"
    by (simp add: w_def demo_sender_def new_connection_def demo_stream_def)
  from messages_delivered [OF codec_blob_ok demo_linked a out inp live]
  obtain b where "run_ok (\<lambda>c _. conn_receive demo_lib codec_blob 1 c) (demo_receiver w) [[1], [2, 3 :: u8]]
      = Some ([[1], [2, 3]], b)" "st_in (cn_stream b) = []"
    by blast
  then show ?thesis
    using a unfolding w_def by blast
qed

lemma connection_fails_closed_witness:
  "\<exists>e c. conn_receive demo_lib codec_blob 0 demo_sender = (Inl e, c) \<and> cn_closed c \<and>
     conn_receive demo_lib codec_blob 1 c = (Inl CE_Closed, c)"
proof -
  have "read_loop dl 4 [] [] = (Inl IO_TimedOut, [], [])" for dl
    by (simp add: numeral_eq_Suc)
  then have "\<exists>e c. conn_receive demo_lib codec_blob 0 demo_sender = (Inl e, c)"
    by (simp add: conn_receive_def receive_bytes_def receive_record_def read_frame_def read_exact_def
        demo_sender_def new_connection_def demo_stream_def close_on_error_def)
  then obtain e c where "conn_receive demo_lib codec_blob 0 demo_sender = (Inl e, c)"
    by blast
  with connection_fails_closed [OF this, where cd' = codec_blob and now' = 1] show ?thesis
    by blast
qed

end
