(* ===== verification/Sensor_Establish.thy ===== *)
theory Sensor_Establish
  imports Sensor_Connection
begin

section \<open>sensor-transport: two devices establish a connection\<close>

text \<open>
  The two sides of the handshake of \<open>Sensor_Connection\<close> run against each other. Each side's socket delivers,
  in whatever fragments and with whatever interruptions, what the other side writes, before the
  deadline. Then both sides get a connection, each names the other, and the connections are linked in
  both directions, which is what the delivery of messages starts from.
\<close>

text \<open>Encryption does not fail on a short message, as ChaCha20-Poly1305 does not.\<close>

definition aead_seals :: "crypto_lib \<Rightarrow> bool" where
  "aead_seals L \<longleftrightarrow> (\<forall>k n a p. length p \<le> 64 \<longrightarrow> aead_seal L k n a p \<noteq> None)"

definition hello_frame :: "'a codec \<Rightarrow> message_type \<Rightarrow> 'a \<Rightarrow> bytes \<Rightarrow> bool" where
  "hello_frame cd t x b \<longleftrightarrow> (\<exists>f. frame_new cd t x = Inr f \<and> frame_encode f = Inr b \<and> length b \<le> HANDSHAKE_LIMIT)"

text \<open>A socket that delivers \<open>inp\<close> and takes \<open>n\<close> bytes before the deadline.\<close>

definition socket_ready :: "nat \<Rightarrow> bytes \<Rightarrow> nat \<Rightarrow> tcp_stream \<Rightarrow> bool" where
  "socket_ready deadline inp n s \<longleftrightarrow> st_nodelay s = None \<and> (\<exists>rest. st_in s = inp @ rest) \<and>
     lively deadline (length inp) (st_reads s) \<and> lively deadline n (st_writes s)"

lemma length_framed: "length (framed b) = 4 + length b"
  by (simp add: framed_def)

lemma socket_readyD:
  "socket_ready d inp n s \<Longrightarrow> st_nodelay s = None"
  by (simp add: socket_ready_def)

lemma write_frame_ready:
  assumes "frame_encode f = Inr b" and "socket_ready d inp n s" and "length (framed b) \<le> n"
  shows "\<exists>s'. write_frame f d s = (Inr (), s') \<and> st_out s' = st_out s @ framed b \<and>
    socket_ready d inp (n - length (framed b)) s'"
  using write_frame_lively [OF assms(1), of d n s] assms(2,3)
  by (auto simp: socket_ready_def length_framed)

lemma read_frame_ready:
  assumes "frame_encode f = Inr b" and "length b \<le> limit" and "socket_ready d (framed b @ inp) n s"
  shows "\<exists>s'. read_frame limit d s = (Inr f, s') \<and> st_out s' = st_out s \<and> socket_ready d inp n s'"
proof -
  obtain rest where rest: "st_in s = framed b @ inp @ rest"
    using assms(3) by (auto simp: socket_ready_def)
  have "lively d (length (framed b @ inp)) (st_reads s)"
    using assms(3) by (simp add: socket_ready_def)
  from read_frame_lively [OF assms(1,2) this _ rest] show ?thesis
    using assms(3) by (auto simp: socket_ready_def length_framed)
qed

lemma frame_new_type: "frame_new cd t x = Inr f \<Longrightarrow> fr_type f = t"
  by (auto simp: frame_new_def res_simps split: if_splits)

lemma write_hello_ready:
  assumes "hello_frame cd t x b" and "socket_ready d inp n s" and "length (framed b) \<le> n"
  shows "\<exists>s'. write_hello cd t x d s = (Inr (), s') \<and> st_out s' = st_out s @ framed b \<and>
    socket_ready d inp (n - length (framed b)) s'"
  using write_frame_ready [OF _ assms(2,3)] assms(1) by (auto simp: hello_frame_def write_hello_def)

lemma read_hello_ready:
  assumes "codec_ok cd" and "hello_frame cd t x b" and "socket_ready d (framed b @ inp) n s"
  shows "\<exists>s'. read_hello cd t d s = (Inr x, s') \<and> st_out s' = st_out s \<and> socket_ready d inp n s'"
proof -
  obtain f where f: "frame_new cd t x = Inr f" "frame_encode f = Inr b" "length b \<le> HANDSHAKE_LIMIT"
    using assms(2) by (auto simp: hello_frame_def)
  obtain s' where "read_frame HANDSHAKE_LIMIT d s = (Inr f, s')" "st_out s' = st_out s" "socket_ready d inp n s'"
    using read_frame_ready [OF f(2,3) assms(3)] by blast
  then show ?thesis
    using f(1) frame_new_type [OF f(1)] decode_payload_frame_new [OF assms(1) f(1)] by (simp add: read_hello_def)
qed

text \<open>The record that carries one of the two finish messages.\<close>

definition finish_record :: "crypto_lib \<Rightarrow> bytes \<Rightarrow> secure_session \<Rightarrow> encrypted_record \<Rightarrow> bytes \<Rightarrow> secure_session \<Rightarrow> bool" where
  "finish_record L m s r b s' \<longleftrightarrow> length m \<le> 64 \<and> session_seal L AAD s m = (Inr r, s') \<and>
     frame_encode (record_frame r) = Inr b \<and> 16 \<le> length (er_ciphertext r)"

lemma finish_record_exists:
  assumes "aead_laws L" and "aead_seals L" and "sc_next_send (ss_channel s) = 0" and "length m \<le> 64"
  shows "\<exists>r b s'. finish_record L m s r b s'"
proof -
  obtain c where c: "aead_seal L (sc_send (ss_channel s)) (make_nonce 0) AAD m = Some c"
    using assms(2,4) unfolding aead_seals_def by (metis not_None_eq)
  let ?r = "\<lparr>er_sequence = 0, er_ciphertext = c\<rparr>"
  have seal: "session_seal L AAD s m = (Inr ?r, s\<lparr>ss_channel := (ss_channel s)\<lparr>sc_next_send := 1\<rparr>\<rparr>)"
    using c assms(3) by (simp add: session_seal_Inr_iff channel_seal_Inr_iff)
  have len: "length c = length m + 16"
    using aead_lawsD(2) [OF assms(1) c] .
  then have "\<exists>b. frame_encode (record_frame ?r) = Inr b"
    using assms(4) by (simp add: frame_encode_Inr_iff record_frame_def MAX_FRAME_SIZE_def HEADER_SIZE_def)
  then show ?thesis
    using seal len assms(4) unfolding finish_record_def by fastforce
qed

lemma send_bytes_ready:
  assumes "finish_record L m s r b s'" and "\<not> cn_closed c" and "cn_session c = Some s"
    and "socket_ready d inp n (cn_stream c)" and "length (framed b) \<le> n"
  shows "\<exists>t. send_bytes L m d c = (Inr (), c\<lparr>cn_session := Some s', cn_stream := t\<rparr>) \<and>
    st_out t = st_out (cn_stream c) @ framed b \<and> socket_ready d inp (n - length (framed b)) t"
  using write_frame_ready [OF _ assms(4,5), of "record_frame r"] assms(1-3)
  by (auto simp: finish_record_def send_bytes_def send_record_def close_on_error_Inr_iff MAX_FRAME_SIZE_def)

lemma receive_bytes_ready:
  assumes "finish_record L m s r b s'" and "\<not> cn_closed c" and "cn_session c = Some q"
    and "session_open L AAD q r = (Inr m, q')" and "socket_ready d (framed b @ inp) n (cn_stream c)"
  shows "\<exists>t. receive_bytes L d c = (Inr m, c\<lparr>cn_session := Some q', cn_stream := t\<rparr>) \<and>
    st_out t = st_out (cn_stream c) \<and> socket_ready d inp n t"
proof -
  have b: "frame_encode (record_frame r) = Inr b" "16 \<le> length (er_ciphertext r)"
    using assms(1) by (simp_all add: finish_record_def)
  have "fr_type (record_frame r) = MT_Control" "\<not> length (fr_payload (record_frame r)) < 24"
    using b(2) by (simp_all add: record_frame_def)
  moreover obtain t where t: "read_frame MAX_FRAME_SIZE d (cn_stream c) = (Inr (record_frame r), t)"
    "st_out t = st_out (cn_stream c)" "socket_ready d inp n t"
    using read_frame_ready [OF b(1) frame_encode_bound [OF b(1)] assms(5)] by blast
  ultimately show ?thesis
    using assms(2-4)
    by (intro exI [of _ t]) (simp add: receive_bytes_def receive_record_def close_on_error_Inr_iff)
qed

lemma finish_lengths: "length CLIENT_FINISH \<le> 64" "length SERVER_FINISH \<le> 64"
  by (simp_all add: CLIENT_FINISH_def SERVER_FINISH_def ascii_bytes_def)

subsection \<open>Each side, given what the other writes\<close>

lemma initiate_ready:
  assumes "proto_codecs_ok P" and "start_initiator L P ka ida e ea na = Some (sti, h)"
    and "hello_frame (pc_client_hello P) MT_ClientHello h bh" and "hello_frame (pc_server_hello P) MT_ServerHello sh bs"
    and "finish_initiator L P sti sh = Inr si" and "finish_record L CLIENT_FINISH si r1 b1 si1"
    and "finish_record L SERVER_FINISH sr1 r2 b2 sr2" and "session_open L AAD si1 r2 = (Inr SERVER_FINISH, si2)"
    and "socket_ready (now + timeout) (framed bs @ framed b2) (length (framed bh @ framed b1)) s"
  shows "\<exists>c. conn_initiate L P s ka ida e timeout now ea na = Some (Inr c, cn_stream c) \<and> \<not> cn_closed c \<and>
    st_out (cn_stream c) = st_out s @ framed bh @ framed b1 \<and> cn_session c = Some si2 \<and>
    cn_peer c = \<lparr>ep_device_id = ss_peer_device_id si, ep_public_key = ss_peer_identity_key si\<rparr> \<and>
    cn_transcript c = ss_transcript_hash si"
proof -
  let ?d = "now + timeout"
  have codec: "codec_ok (pc_server_hello P)"
    using assms(1) by (simp add: proto_codecs_ok_def)
  obtain s1 where 1: "write_hello (pc_client_hello P) MT_ClientHello h ?d s = (Inr (), s1)"
    "st_out s1 = st_out s @ framed bh" "socket_ready ?d (framed bs @ framed b2) (length (framed b1)) s1"
    using write_hello_ready [OF assms(3,9)] by auto
  obtain s2 where 2: "read_hello (pc_server_hello P) MT_ServerHello ?d s1 = (Inr sh, s2)"
    "st_out s2 = st_out s1" "socket_ready ?d (framed b2) (length (framed b1)) s2"
    using read_hello_ready [OF codec assms(4) 1(3)] by blast
  let ?c = "new_connection s2 si timeout"
  have c: "\<not> cn_closed ?c" "cn_session ?c = Some si" "cn_stream ?c = s2"
    by (simp_all add: new_connection_def)
  obtain t1 where 3: "send_bytes L CLIENT_FINISH ?d ?c = (Inr (), ?c\<lparr>cn_session := Some si1, cn_stream := t1\<rparr>)"
    "st_out t1 = st_out s2 @ framed b1" "socket_ready ?d (framed b2) 0 t1"
    using send_bytes_ready [OF assms(6) c(1,2), of ?d "framed b2" "length (framed b1)"] 2(3) c(3) by auto
  let ?c1 = "?c\<lparr>cn_session := Some si1, cn_stream := t1\<rparr>"
  obtain t2 where 4: "receive_bytes L ?d ?c1 = (Inr SERVER_FINISH, ?c1\<lparr>cn_session := Some si2, cn_stream := t2\<rparr>)"
    "st_out t2 = st_out t1"
    using receive_bytes_ready [OF assms(7) _ _ assms(8), of ?c1 ?d "[]" 0] 3(3) c(1) by auto
  show ?thesis
    using 1 2 3 4 assms(2,5) socket_readyD [OF assms(9)]
    by (intro exI [of _ "?c1\<lparr>cn_session := Some si2, cn_stream := t2\<rparr>"])
      (simp add: conn_initiate_def new_connection_def)
qed

lemma respond_ready:
  assumes "hello_frame (pc_server_hello P) MT_ServerHello sh bs"
    and "finish_responder L P str = Inr sr" and "finish_record L CLIENT_FINISH si r1 b1 si1"
    and "session_open L AAD sr r1 = (Inr CLIENT_FINISH, sr1)" and "finish_record L SERVER_FINISH sr1 r2 b2 sr2"
    and "socket_ready d (framed b1) (length (framed bs @ framed b2)) s"
  shows "\<exists>c. conn_respond L P timeout d s (Inr (str, sh)) = (Inr c, cn_stream c) \<and> \<not> cn_closed c \<and>
    st_out (cn_stream c) = st_out s @ framed bs @ framed b2 \<and> cn_session c = Some sr2 \<and>
    cn_peer c = \<lparr>ep_device_id = ss_peer_device_id sr, ep_public_key = ss_peer_identity_key sr\<rparr> \<and>
    cn_transcript c = ss_transcript_hash sr"
proof -
  obtain s1 where 1: "write_hello (pc_server_hello P) MT_ServerHello sh d s = (Inr (), s1)"
    "st_out s1 = st_out s @ framed bs" "socket_ready d (framed b1) (length (framed b2)) s1"
    using write_hello_ready [OF assms(1,6)] by auto
  let ?c = "new_connection s1 sr timeout"
  have c: "\<not> cn_closed ?c" "cn_session ?c = Some sr" "cn_stream ?c = s1"
    by (simp_all add: new_connection_def)
  obtain t1 where 2: "receive_bytes L d ?c = (Inr CLIENT_FINISH, ?c\<lparr>cn_session := Some sr1, cn_stream := t1\<rparr>)"
    "st_out t1 = st_out s1" "socket_ready d [] (length (framed b2)) t1"
    using receive_bytes_ready [OF assms(3) c(1,2) assms(4), of d "[]" "length (framed b2)"] 1(3) c(3) by auto
  let ?c1 = "?c\<lparr>cn_session := Some sr1, cn_stream := t1\<rparr>"
  obtain t2 where 3: "send_bytes L SERVER_FINISH d ?c1 = (Inr (), ?c1\<lparr>cn_session := Some sr2, cn_stream := t2\<rparr>)"
    "st_out t2 = st_out t1 @ framed b2"
    using send_bytes_ready [OF assms(5), of ?c1 d "[]" "length (framed b2)"] 2(3) c(1) by auto
  show ?thesis
    using 1 2 3 assms(2)
    by (intro exI [of _ "?c1\<lparr>cn_session := Some sr2, cn_stream := t2\<rparr>"])
      (simp add: conn_respond_def new_connection_def)
qed

subsection \<open>Both sides together\<close>

text \<open>What the two sides write and what they end with.\<close>

lemma handshake_wires:
  assumes "honest_libs L" and "aead_seals L" and "handshake_joins L si ida pka sr idb pkb"
    and "sc_next_send (ss_channel si) = 0" and "sc_next_send (ss_channel sr) = 0"
  shows "\<exists>r1 b1 si1 sr1 r2 b2 sr2 si2. finish_record L CLIENT_FINISH si r1 b1 si1 \<and>
    session_open L AAD sr r1 = (Inr CLIENT_FINISH, sr1) \<and> finish_record L SERVER_FINISH sr1 r2 b2 sr2 \<and>
    session_open L AAD si1 r2 = (Inr SERVER_FINISH, si2) \<and> session_linked L si2 sr2 \<and> session_linked L sr2 si2"
proof -
  have laws: "aead_laws L" and linked: "session_linked L si sr" "session_linked L sr si"
    using assms(1,3) by (simp_all add: honest_libs_def handshake_joins_def)
  obtain r1 b1 si1 where 1: "finish_record L CLIENT_FINISH si r1 b1 si1"
    using finish_record_exists [OF laws assms(2,4) finish_lengths(1)] by blast
  then have seal1: "session_seal L AAD si CLIENT_FINISH = (Inr r1, si1)"
    by (simp add: finish_record_def)
  obtain sr1 where 2: "session_open L AAD sr r1 = (Inr CLIENT_FINISH, sr1)" "session_linked L si1 sr1"
    using session_delivers [OF linked(1) seal1] by blast
  have keep: "sc_next_send (ss_channel sr1) = 0" "session_linked L sr1 si1"
    using 2(1) seal1 linked(2) assms(5)
    by (auto simp: session_open_Inr_iff channel_open_Inr_iff session_seal_Inr_iff channel_seal_Inr_iff
      session_linked_def channel_linked_def expected_sequence_def)
  obtain r2 b2 sr2 where 3: "finish_record L SERVER_FINISH sr1 r2 b2 sr2"
    using finish_record_exists [OF laws assms(2) keep(1) finish_lengths(2)] by blast
  then have seal2: "session_seal L AAD sr1 SERVER_FINISH = (Inr r2, sr2)"
    by (simp add: finish_record_def)
  obtain si2 where 4: "session_open L AAD si1 r2 = (Inr SERVER_FINISH, si2)" "session_linked L sr2 si2"
    using session_delivers [OF keep(2) seal2] by blast
  have "session_linked L si2 sr2"
    using 4(1) seal2 2(2)
    by (auto simp: session_open_Inr_iff channel_open_Inr_iff session_seal_Inr_iff channel_seal_Inr_iff
      session_linked_def channel_linked_def expected_sequence_def)
  with 1 2 3 4 show ?thesis
    by blast
qed

lemma finish_channels_fresh:
  "finish_initiator L P st sh = Inr s \<Longrightarrow> sc_next_send (ss_channel s) = 0"
  "finish_responder L P str = Inr s' \<Longrightarrow> sc_next_send (ss_channel s') = 0"
  by (auto simp: finish_initiator_Inr_iff finish_responder_Inr_iff channel_initiator_def channel_responder_def)

lemma establish:
  assumes "honest_libs L" and "aead_seals L" and "proto_codecs_ok P"
    and "start_initiator L P ka ida e ea na = Some (sti, h)"
    and "ep_public_key e \<in> {zero_key, kp_public L kb}"
    and "x_contributory L (x_dh L ea (eph_public L eb))"
    and "cd_ser (pc_server_unsigned P)
      \<lparr>su_version = PROTOCOL_VERSION, su_device_id = ep_device_id e,
       su_identity_public_key = kp_public L kb, su_ephemeral_public_key = eph_public L eb,
       su_client_nonce = na, su_nonce = nb\<rparr> \<noteq> None"
    and "hello_frame (pc_client_hello P) MT_ClientHello h bh"
    and "\<And>sh. sh_version sh = PROTOCOL_VERSION \<Longrightarrow> length (sh_signature sh) = 64 \<Longrightarrow>
      server_unsigned_of sh = \<lparr>su_version = PROTOCOL_VERSION, su_device_id = ep_device_id e,
       su_identity_public_key = kp_public L kb, su_ephemeral_public_key = eph_public L eb,
       su_client_nonce = na, su_nonce = nb\<rparr> \<Longrightarrow> \<exists>bs. hello_frame (pc_server_hello P) MT_ServerHello sh bs"
  shows "\<exists>wa wb. \<forall>sa sb. socket_ready (nowa + ta) wb (length wa) sa \<and> socket_ready (nowb + tb) wa (length wb) sb \<longrightarrow>
    (\<exists>ca cb. conn_initiate L P sa ka ida e ta nowa ea na = Some (Inr ca, cn_stream ca) \<and>
      conn_accept L P sb kb (ep_device_id e) \<lparr>ep_device_id = ida, ep_public_key = kp_public L ka\<rparr> tb nowb eb nb
        = (Inr cb, cn_stream cb) \<and>
      st_out (cn_stream ca) = st_out sa @ wa \<and> st_out (cn_stream cb) = st_out sb @ wb \<and>
      cn_peer ca = \<lparr>ep_device_id = ep_device_id e, ep_public_key = kp_public L kb\<rparr> \<and>
      cn_peer cb = \<lparr>ep_device_id = ida, ep_public_key = kp_public L ka\<rparr> \<and>
      cn_transcript ca = cn_transcript cb \<and> conns_linked L ca cb \<and> conns_linked L cb ca)"
proof -
  obtain str sh si sr where acc: "accept_hello L P kb (ep_device_id e) h
      \<lparr>ep_device_id = ida, ep_public_key = kp_public L ka\<rparr> eb nb = Inr (str, sh)"
    and fin: "finish_initiator L P sti sh = Inr si" "finish_responder L P str = Inr sr"
    and joins: "handshake_joins L si ida (kp_public L ka) sr (ep_device_id e) (kp_public L kb)"
    using honest_run [OF assms(1,4-7)] by blast
  have resp: "respond_hello L P kb (ep_device_id e) h eb nb = Inr (str, sh)"
    using acc by (auto simp: accept_hello_Inr_iff accept_hello_unpinned_Inr_iff)
  have sig: "length (sh_signature sh) = 64"
    using respond_hello_Inr(10) [OF resp] assms(1) by (auto simp: kp_sign_def honest_libs_def sign_lawsD)
  obtain bs where bs: "hello_frame (pc_server_hello P) MT_ServerHello sh bs"
    using assms(9) [OF respond_hello_Inr(4) [OF resp] sig] respond_hello_Inr [OF resp]
      start_initiator_Some(10) [OF assms(4)] by (auto simp: server_unsigned_of_def)
  obtain r1 b1 si1 sr1 r2 b2 sr2 si2 where w: "finish_record L CLIENT_FINISH si r1 b1 si1"
      "session_open L AAD sr r1 = (Inr CLIENT_FINISH, sr1)" "finish_record L SERVER_FINISH sr1 r2 b2 sr2"
      "session_open L AAD si1 r2 = (Inr SERVER_FINISH, si2)" "session_linked L si2 sr2" "session_linked L sr2 si2"
    using handshake_wires [OF assms(1,2) joins finish_channels_fresh(1) [OF fin(1)] finish_channels_fresh(2) [OF fin(2)]]
    by blast
  let ?wa = "framed bh @ framed b1" and ?wb = "framed bs @ framed b2"
  have codec: "codec_ok (pc_client_hello P)"
    using assms(3) by (simp add: proto_codecs_ok_def)
  have "\<exists>ca cb. conn_initiate L P sa ka ida e ta nowa ea na = Some (Inr ca, cn_stream ca) \<and>
      conn_accept L P sb kb (ep_device_id e) \<lparr>ep_device_id = ida, ep_public_key = kp_public L ka\<rparr> tb nowb eb nb
        = (Inr cb, cn_stream cb) \<and>
      st_out (cn_stream ca) = st_out sa @ ?wa \<and> st_out (cn_stream cb) = st_out sb @ ?wb \<and>
      cn_peer ca = \<lparr>ep_device_id = ep_device_id e, ep_public_key = kp_public L kb\<rparr> \<and>
      cn_peer cb = \<lparr>ep_device_id = ida, ep_public_key = kp_public L ka\<rparr> \<and>
      cn_transcript ca = cn_transcript cb \<and> conns_linked L ca cb \<and> conns_linked L cb ca"
    if a: "socket_ready (nowa + ta) ?wb (length ?wa) sa" and b: "socket_ready (nowb + tb) ?wa (length ?wb) sb" for sa sb
  proof -
    obtain ca where ca: "conn_initiate L P sa ka ida e ta nowa ea na = Some (Inr ca, cn_stream ca)"
      "\<not> cn_closed ca" "st_out (cn_stream ca) = st_out sa @ ?wa" "cn_session ca = Some si2"
      "cn_peer ca = \<lparr>ep_device_id = ss_peer_device_id si, ep_public_key = ss_peer_identity_key si\<rparr>"
      "cn_transcript ca = ss_transcript_hash si"
      using initiate_ready [OF assms(3,4,8) bs fin(1) w(1,3,4) a] by blast
    obtain sb1 where h: "read_hello (pc_client_hello P) MT_ClientHello (nowb + tb) sb = (Inr h, sb1)"
      "st_out sb1 = st_out sb" "socket_ready (nowb + tb) (framed b1) (length ?wb) sb1"
      using read_hello_ready [OF codec assms(8) b] by blast
    obtain cb where cb: "conn_respond L P tb (nowb + tb) sb1 (Inr (str, sh)) = (Inr cb, cn_stream cb)"
      "\<not> cn_closed cb" "st_out (cn_stream cb) = st_out sb1 @ ?wb" "cn_session cb = Some sr2"
      "cn_peer cb = \<lparr>ep_device_id = ss_peer_device_id sr, ep_public_key = ss_peer_identity_key sr\<rparr>"
      "cn_transcript cb = ss_transcript_hash sr"
      using respond_ready [OF bs fin(2) w(1-3) h(3)] by blast
    have "conn_accept L P sb kb (ep_device_id e) \<lparr>ep_device_id = ida, ep_public_key = kp_public L ka\<rparr> tb nowb eb nb
        = (Inr cb, cn_stream cb)"
      using h(1) acc cb(1) socket_readyD [OF b] by (simp add: conn_accept_def)
    moreover have "conns_linked L ca cb" "conns_linked L cb ca"
      using ca(2,4) cb(2,4) w(5,6) by (simp_all add: conns_linked_def)
    ultimately show ?thesis
      using ca cb h(2) joins by (auto simp: handshake_joins_def)
  qed
  then show ?thesis
    by blast
qed

text \<open>C7: Two devices establish a connection. A device that calls another one, whose key it pinned or left
  open, and a device that pinned the caller: there is what each of them writes such that, whatever pieces
  the sockets move it in, if each socket delivers what the other side writes before the deadline, then
  both calls return a connection, each naming the other's identifier and key, with the same transcript,
  and linked in both directions, so that the messages sent from then on are delivered. The hypotheses are
  the primitives' laws, serializers that round-trip and fit the limit, and a contributory exchange.\<close>

theorem connections_establish:
  assumes "honest_libs L" and "aead_seals L" and "proto_codecs_ok P"
    and "start_initiator L P ka ida e ea na = Some (sti, h)"
    and "ep_public_key e \<in> {zero_key, kp_public L kb}"
    and "x_contributory L (x_dh L ea (eph_public L eb))"
    and "cd_ser (pc_server_unsigned P)
      \<lparr>su_version = PROTOCOL_VERSION, su_device_id = ep_device_id e,
       su_identity_public_key = kp_public L kb, su_ephemeral_public_key = eph_public L eb,
       su_client_nonce = na, su_nonce = nb\<rparr> \<noteq> None"
    and "hello_frame (pc_client_hello P) MT_ClientHello h bh"
    and "\<And>sh. sh_version sh = PROTOCOL_VERSION \<Longrightarrow> length (sh_signature sh) = 64 \<Longrightarrow>
      server_unsigned_of sh = \<lparr>su_version = PROTOCOL_VERSION, su_device_id = ep_device_id e,
       su_identity_public_key = kp_public L kb, su_ephemeral_public_key = eph_public L eb,
       su_client_nonce = na, su_nonce = nb\<rparr> \<Longrightarrow> \<exists>bs. hello_frame (pc_server_hello P) MT_ServerHello sh bs"
  shows "\<exists>wa wb. \<forall>sa sb. socket_ready (nowa + ta) wb (length wa) sa \<and> socket_ready (nowb + tb) wa (length wb) sb \<longrightarrow>
    (\<exists>ca cb. conn_initiate L P sa ka ida e ta nowa ea na = Some (Inr ca, cn_stream ca) \<and>
      conn_accept L P sb kb (ep_device_id e) \<lparr>ep_device_id = ida, ep_public_key = kp_public L ka\<rparr> tb nowb eb nb
        = (Inr cb, cn_stream cb) \<and>
      st_out (cn_stream ca) = st_out sa @ wa \<and> st_out (cn_stream cb) = st_out sb @ wb \<and>
      cn_peer ca = \<lparr>ep_device_id = ep_device_id e, ep_public_key = kp_public L kb\<rparr> \<and>
      cn_peer cb = \<lparr>ep_device_id = ida, ep_public_key = kp_public L ka\<rparr> \<and>
      cn_transcript ca = cn_transcript cb \<and> conns_linked L ca cb \<and> conns_linked L cb ca)"
  using establish [OF assms] .

subsection \<open>A concrete connection\<close>

lemma demo_server_frame:
  assumes "length (sh_signature sh) = 64"
    and "server_unsigned_of sh = \<lparr>su_version = PROTOCOL_VERSION, su_device_id = d, su_identity_public_key = demo_key a,
      su_ephemeral_public_key = demo_key b, su_client_nonce = demo_key c, su_nonce = demo_key n\<rparr>"
  shows "\<exists>bs. hello_frame (pc_server_hello demo_codecs) MT_ServerHello sh bs"
  using assms unsigned_less [of "did_value d"]
  by (simp add: hello_frame_def frame_new_def frame_encode_def server_unsigned_of_def demo_codecs_def Let_def
      codec_conv_def codec_pair_def codec_be_def codec_blob_def codec_did_def demo_key_def PROTOCOL_VERSION_def
      MAX_FRAME_SIZE_def HEADER_SIZE_def HANDSHAKE_LIMIT_def res_simps)

lemma demo_client_frame:
  assumes "start_initiator demo_lib demo_codecs (demo_kp 1) (DeviceId 111111111)
    (demo_peer (DeviceId 222222222) 2) (demo_key 3) (demo_key 4) = Some (sti, h)"
  shows "\<exists>bh. hello_frame (pc_client_hello demo_codecs) MT_ClientHello h bh"
proof -
  note st = start_initiator_Some [OF assms]
  have "length (ch_signature h) = 64"
    using st(11) sign_lawsD(2) [OF demo_sign_laws] by (auto simp: kp_sign_def)
  then show ?thesis
    using st(4-10) by (simp add: hello_frame_def frame_new_def frame_encode_def demo_codecs_def Let_def
      codec_conv_def codec_pair_def codec_be_def codec_blob_def codec_did_def demo_key_def PROTOCOL_VERSION_def
      MAX_FRAME_SIZE_def HEADER_SIZE_def HANDSHAKE_LIMIT_def res_simps demo_peer_def eph_public_def demo_lib_def
      kp_public_def demo_kp_def)
qed

lemma demo_eph_public [simp]: "eph_public demo_lib x = x"
  by (simp add: eph_public_def demo_lib_def)

lemma demo_aead_seals: "aead_seals demo_lib"
  by (simp add: aead_seals_def demo_lib_def)

definition demo_socket :: "bytes \<Rightarrow> nat \<Rightarrow> tcp_stream" where
  "demo_socket inp n =
     \<lparr>st_in = inp, st_reads = (1, Interrupted) # replicate (length inp) (2, Moved 5), st_out = [],
      st_writes = replicate n (3, Moved 1), st_nodelay = None, st_shut = False\<rparr>"

lemma demo_socket_ready: "3 < d \<Longrightarrow> socket_ready d inp n (demo_socket inp n)"
  by (simp add: socket_ready_def demo_socket_def lively_Cons usable_def lively_replicate)

text \<open>What \<open>establish\<close> says of a concrete pair of devices.\<close>

definition demo_connected :: "bytes \<Rightarrow> bytes \<Rightarrow> tcp_stream \<Rightarrow> tcp_stream \<Rightarrow> bool" where
  "demo_connected wa wb sa sb \<longleftrightarrow>
    (\<exists>ca cb. conn_initiate demo_lib demo_codecs sa (demo_kp 1) (DeviceId 111111111) (demo_peer (DeviceId 222222222) 2)
        15 0 (demo_key 3) (demo_key 4) = Some (Inr ca, cn_stream ca) \<and>
      conn_accept demo_lib demo_codecs sb (demo_kp 2) (ep_device_id (demo_peer (DeviceId 222222222) 2))
        \<lparr>ep_device_id = DeviceId 111111111, ep_public_key = kp_public demo_lib (demo_kp 1)\<rparr>
        15000000000 0 (demo_key 5) (demo_key 6) = (Inr cb, cn_stream cb) \<and>
      conns_linked demo_lib ca cb \<and> conns_linked demo_lib cb ca)"

lemma demo_establish:
  assumes est: "\<And>sti h bh. start_initiator demo_lib demo_codecs (demo_kp 1) (DeviceId 111111111)
      (demo_peer (DeviceId 222222222) 2) (demo_key 3) (demo_key 4) = Some (sti, h) \<Longrightarrow>
      hello_frame (pc_client_hello demo_codecs) MT_ClientHello h bh \<Longrightarrow> thesis"
  shows thesis
proof -
  obtain sti h where st: "start_initiator demo_lib demo_codecs (demo_kp 1) (DeviceId 111111111)
      (demo_peer (DeviceId 222222222) 2) (demo_key 3) (demo_key 4) = Some (sti, h)"
    using demo_start by blast
  with demo_client_frame [OF st] show thesis
    using est by blast
qed

lemma demo_setting:
  "ep_public_key (demo_peer (DeviceId 222222222) 2) \<in> {zero_key, kp_public demo_lib (demo_kp 2)}"
  "cd_ser (pc_server_unsigned demo_codecs)
    \<lparr>su_version = PROTOCOL_VERSION, su_device_id = ep_device_id (demo_peer (DeviceId 222222222) 2),
     su_identity_public_key = kp_public demo_lib (demo_kp 2), su_ephemeral_public_key = eph_public demo_lib (demo_key 5),
     su_client_nonce = demo_key 4, su_nonce = demo_key 6\<rparr> \<noteq> None"
  using demo_server_serializable by (simp_all add: demo_peer_def)

lemma demo_setting_frame:
  assumes "length (sh_signature sh) = 64" and "server_unsigned_of sh = \<lparr>su_version = PROTOCOL_VERSION,
    su_device_id = ep_device_id (demo_peer (DeviceId 222222222) 2), su_identity_public_key = kp_public demo_lib (demo_kp 2),
    su_ephemeral_public_key = eph_public demo_lib (demo_key 5), su_client_nonce = demo_key 4, su_nonce = demo_key 6\<rparr>"
  shows "\<exists>bs. hello_frame (pc_server_hello demo_codecs) MT_ServerHello sh bs"
  using demo_server_frame [OF assms(1), of _ 2 5 4 6] assms(2) by simp

lemma connections_establish_witness:
  "\<exists>wa wb. demo_connected wa wb (demo_socket wb (length wa)) (demo_socket wa (length wb))"
proof (rule demo_establish)
  fix sti h bh
  assume "start_initiator demo_lib demo_codecs (demo_kp 1) (DeviceId 111111111)
      (demo_peer (DeviceId 222222222) 2) (demo_key 3) (demo_key 4) = Some (sti, h)"
    and "hello_frame (pc_client_hello demo_codecs) MT_ClientHello h bh"
  note run = connections_establish [OF demo_honest_libs demo_aead_seals demo_codecs_ok this(1) demo_setting(1)
      demo_contributory demo_setting(2) this(2) demo_setting_frame, of 0 15 0 15000000000]
  obtain wa wb where "\<And>sa sb. socket_ready (0 + 15) wb (length wa) sa \<Longrightarrow>
      socket_ready (0 + 15000000000) wa (length wb) sb \<Longrightarrow> demo_connected wa wb sa sb"
    unfolding demo_connected_def using run by blast
  then have "demo_connected wa wb (demo_socket wb (length wa)) (demo_socket wa (length wb))"
    using demo_socket_ready by simp
  then show ?thesis
    by blast
qed

text \<open>The side that accepts, for the theories that build on it.\<close>

lemma demo_accepted:
  "\<exists>s cb. conn_accept demo_lib demo_codecs s (demo_kp 2) (DeviceId 222222222)
     \<lparr>ep_device_id = DeviceId 111111111, ep_public_key = demo_key 1\<rparr> 15000000000 0 (demo_key 5) (demo_key 6)
     = (Inr cb, cn_stream cb)"
proof (rule demo_establish)
  fix sti h bh
  assume "start_initiator demo_lib demo_codecs (demo_kp 1) (DeviceId 111111111)
      (demo_peer (DeviceId 222222222) 2) (demo_key 3) (demo_key 4) = Some (sti, h)"
    and "hello_frame (pc_client_hello demo_codecs) MT_ClientHello h bh"
  note run = establish [OF demo_honest_libs demo_aead_seals demo_codecs_ok this(1) demo_setting(1)
      demo_contributory demo_setting(2) this(2) demo_setting_frame, of 0 15 0 15000000000]
  obtain wa wb where "\<And>sa sb. socket_ready (0 + 15) wb (length wa) sa \<Longrightarrow>
      socket_ready (0 + 15000000000) wa (length wb) sb \<Longrightarrow> demo_connected wa wb sa sb"
    unfolding demo_connected_def using run by blast
  then have "demo_connected wa wb (demo_socket wb (length wa)) (demo_socket wa (length wb))"
    using demo_socket_ready by simp
  then show ?thesis
    unfolding demo_connected_def by (auto simp: demo_peer_def)
qed

end
