(* ===== verification/Sensor_Files.thy ===== *)
theory Sensor_Files
  imports Sensor_Permissions Sensor_Codec Sensor_Crypto
begin

section \<open>sensor-files: confined, resumable, verified file reception\<close>

text \<open>
  \<open>Receiver\<close> and \<open>IncomingTransfer\<close> over an explicit file system: names refer to inodes, so the hard
  link that publishes a file aliases the partial file, and exclusive locks are on inodes. Every
  system call can fail: \<open>fs_faults\<close> is the script of the injected failures, one entry for each call
  (for a write with the number of bytes that reached the file before it failed). The lemmas show
  that a finished transfer publishes verified content under a name that did not exist, that names
  outside the transfer's own files keep their content, and that an upload in chunks delivers it.
\<close>

subsection \<open>The directory\<close>

record fsys =
  fs_names :: "rstr \<Rightarrow> nat option"
  fs_data :: "nat \<Rightarrow> bytes"
  fs_next :: nat
  fs_locked :: "nat set"
  fs_faults :: "(io_error \<times> nat) option list"

definition next_fault :: "fsys \<Rightarrow> (io_error \<times> nat) option \<times> fsys" where
  "next_fault fs =
     (case fs_faults fs of [] \<Rightarrow> (None, fs) | f # rest \<Rightarrow> (f, fs\<lparr>fs_faults := rest\<rparr>))"

definition syscall :: "(fsys \<Rightarrow> (io_error + 'a) \<times> fsys) \<Rightarrow> fsys \<Rightarrow> (io_error + 'a) \<times> fsys" where
  "syscall f fs =
     (case next_fault fs of (Some (e, _), fs) \<Rightarrow> (Inl e, fs) | (None, fs) \<Rightarrow> f fs)"

definition sys_lookup :: "rstr \<Rightarrow> fsys \<Rightarrow> (io_error + nat) \<times> fsys" where
  "sys_lookup n = syscall (\<lambda>fs. (ok_or (fs_names fs n) IO_NotFound, fs))"

definition sys_create_new :: "rstr \<Rightarrow> fsys \<Rightarrow> (io_error + nat) \<times> fsys" where
  "sys_create_new n = syscall (\<lambda>fs.
     if fs_names fs n \<noteq> None then (Inl IO_AlreadyExists, fs)
     else (Inr (fs_next fs), fs\<lparr>fs_names := (fs_names fs)(n \<mapsto> fs_next fs),
        fs_data := (fs_data fs)(fs_next fs := []), fs_next := Suc (fs_next fs)\<rparr>))"

definition sys_lock :: "nat \<Rightarrow> fsys \<Rightarrow> (io_error + unit) \<times> fsys" where
  "sys_lock i = syscall (\<lambda>fs.
     if i \<in> fs_locked fs then (Inl IO_WouldBlock, fs)
     else (Inr (), fs\<lparr>fs_locked := insert i (fs_locked fs)\<rparr>))"

definition drop_file :: "nat \<Rightarrow> fsys \<Rightarrow> fsys" where
  "drop_file i fs = fs\<lparr>fs_locked := fs_locked fs - {i}\<rparr>"

definition overwrite :: "bytes \<Rightarrow> nat \<Rightarrow> bytes \<Rightarrow> bytes" where
  "overwrite d pos bs = take pos d @ bs @ drop (pos + length bs) d"

definition sys_write :: "nat \<Rightarrow> nat \<Rightarrow> bytes \<Rightarrow> fsys \<Rightarrow> (io_error + nat) \<times> nat \<times> fsys" where
  "sys_write i pos bs fs =
     (case next_fault fs of
        (Some (e, k), fs) \<Rightarrow>
          (Inl e, pos + min k (length bs),
           fs\<lparr>fs_data := (fs_data fs)(i := overwrite (fs_data fs i) pos (take k bs))\<rparr>)
      | (None, fs) \<Rightarrow>
          (Inr (length bs), pos + length bs,
           fs\<lparr>fs_data := (fs_data fs)(i := overwrite (fs_data fs i) pos bs)\<rparr>))"

definition sys_noop :: "fsys \<Rightarrow> (io_error + unit) \<times> fsys" where
  "sys_noop = syscall (\<lambda>fs. (Inr (), fs))"

definition sys_read_all :: "nat \<Rightarrow> fsys \<Rightarrow> (io_error + bytes) \<times> fsys" where
  "sys_read_all i = syscall (\<lambda>fs. (Inr (fs_data fs i), fs))"

definition sys_remove :: "rstr \<Rightarrow> fsys \<Rightarrow> (io_error + unit) \<times> fsys" where
  "sys_remove n = syscall (\<lambda>fs.
     if fs_names fs n = None then (Inl IO_NotFound, fs)
     else (Inr (), fs\<lparr>fs_names := (fs_names fs)(n := None)\<rparr>))"

definition sys_hard_link :: "rstr \<Rightarrow> rstr \<Rightarrow> fsys \<Rightarrow> (io_error + unit) \<times> fsys" where
  "sys_hard_link old new = syscall (\<lambda>fs.
     case fs_names fs old of None \<Rightarrow> (Inl IO_NotFound, fs)
     | Some i \<Rightarrow> if fs_names fs new \<noteq> None then (Inl IO_AlreadyExists, fs)
         else (Inr (), fs\<lparr>fs_names := (fs_names fs)(new \<mapsto> i)\<rparr>))"

subsection \<open>Names, manifests and state\<close>

(* @src crates/sensor-files/src/lib.rs:17-17 CHUNK_SIZE *)
definition CHUNK_SIZE :: nat where
  "CHUNK_SIZE = 65536"

(* @src crates/sensor-files/src/lib.rs:18-18 MAX_FILE_SIZE *)
definition MAX_FILE_SIZE :: nat where
  "MAX_FILE_SIZE = 1099511627776"

(* @src crates/sensor-files/src/lib.rs:19-19 METADATA_LIMIT *)
definition METADATA_LIMIT :: nat where
  "METADATA_LIMIT = 4096"

(* @src crates/sensor-files/src/lib.rs:21-35 FileError *)
datatype file_error =
  FE_Permission permission_error | FE_Io io_error | FE_Invalid | FE_InvalidChunk | FE_Integrity
| FE_WrongPeer

(* @src crates/sensor-files/src/lib.rs:37-42 Manifest *)
record manifest =
  mf_name :: rstr
  mf_size :: nat
  mf_sha256 :: bytes

(* @src crates/sensor-files/src/lib.rs:50-50 valid_name: forbidden characters *)
definition forbidden_chars :: rstr where
  "forbidden_chars = [47, 92, 58, 60, 62, 34, 124, 63, 42]"

(* @src crates/sensor-files/src/lib.rs:55-59 valid_name: reserved stems *)
definition reserved_stems :: "rstr list" where
  "reserved_stems =
     map lit [''CON'', ''PRN'', ''AUX'', ''NUL'', ''COM1'', ''COM2'', ''COM3'', ''COM4'', ''COM5'', ''COM6'',
       ''COM7'', ''COM8'', ''COM9'', ''LPT1'', ''LPT2'', ''LPT3'', ''LPT4'', ''LPT5'', ''LPT6'', ''LPT7'',
       ''LPT8'', ''LPT9'']
     @ [lit ''COM'' @ [185], lit ''COM'' @ [178], lit ''COM'' @ [179],
        lit ''LPT'' @ [185], lit ''LPT'' @ [178], lit ''LPT'' @ [179]]"

definition to_ascii_uppercase :: "rstr \<Rightarrow> rstr" where
  "to_ascii_uppercase s = map (\<lambda>c. if 97 \<le> c \<and> c \<le> 122 then c - 32 else c) s"

(* @src crates/sensor-files/src/lib.rs:44-61 valid_name *)
definition valid_name :: "rstr \<Rightarrow> bool" where
  "valid_name name \<longleftrightarrow>
     \<not> (name = [] \<or> str_len name > 180 \<or> hd name = 46 \<or> last name \<in> {46, 32}) \<and>
     \<not> list_ex (\<lambda>c. is_control c \<or> c \<in> set forbidden_chars) name \<and>
     to_ascii_uppercase (hd (split_on 46 name)) \<notin> set reserved_stems"

(* @src crates/sensor-files/src/lib.rs:97-104 TransferId::name *)
definition transfer_name :: "bytes \<Rightarrow> string \<Rightarrow> rstr" where
  "transfer_name tid extension = lit ''.sensor-transfer-'' @ hex_of_bytes tid @ lit ''.'' @ lit extension"

(* @src crates/sensor-files/src/lib.rs:106-111 Metadata *)
record metadata =
  md_version :: nat
  md_owner :: bytes
  md_manifest :: manifest

text \<open>\<open>it_pos\<close> is the cursor of the open file, which the code moves by \<open>seek\<close> and \<open>write\<close>.\<close>

(* @src crates/sensor-files/src/lib.rs:236-243 IncomingTransfer *)
record incoming_transfer =
  it_file :: nat
  it_metadata :: metadata
  it_id :: bytes
  it_offset :: nat
  it_pos :: nat

definition run_io :: "(io_error + 'a) \<times> fsys \<Rightarrow> (file_error + 'a) \<times> fsys" where
  "run_io r = (map_err FE_Io (fst r), snd r)"

definition then_do ::
  "(file_error + 'a) \<times> fsys \<Rightarrow> ('a \<Rightarrow> fsys \<Rightarrow> (file_error + 'b) \<times> fsys) \<Rightarrow> (file_error + 'b) \<times> fsys" where
  "then_do r k = (case r of (Inl e, fs) \<Rightarrow> (Inl e, fs) | (Inr a, fs) \<Rightarrow> k a fs)"

text \<open>An early return drops the open file, and with it its lock.\<close>

definition or_drop :: "nat \<Rightarrow> (file_error + 'a) \<times> fsys \<Rightarrow> (file_error + 'a) \<times> fsys" where
  "or_drop i r = (case r of (Inl e, fs) \<Rightarrow> (Inl e, drop_file i fs) | (Inr a, fs) \<Rightarrow> (Inr a, fs))"

text \<open>\<open>describe_file\<close>: the file name as text, if it has one, and what opening the path gives.\<close>

(* @src crates/sensor-files/src/lib.rs:76-95 describe_file *)
definition describe_file ::
  "crypto_lib \<Rightarrow> rstr option \<Rightarrow> io_error + (bool \<times> bytes) \<Rightarrow> file_error + manifest" where
  "describe_file L file_name opened =
     res_bind (ok_or file_name FE_Invalid) (\<lambda>name.
       if \<not> valid_name name then Inl FE_Invalid
       else res_bind (map_err FE_Io opened) (\<lambda>(is_file, content).
         if \<not> is_file \<or> length content > MAX_FILE_SIZE then Inl FE_Invalid
         else Inr \<lparr>mf_name = name, mf_size = length content, mf_sha256 = sha256 L content\<rparr>))"

subsection \<open>Operations\<close>

text \<open>Writing the metadata record; the flag tells whether the file was created.\<close>

(* @src crates/sensor-files/src/lib.rs:162-169 Receiver::begin: write_metadata *)
definition write_metadata :: "bytes \<Rightarrow> bytes \<Rightarrow> fsys \<Rightarrow> ((io_error + unit) \<times> bool) \<times> fsys" where
  "write_metadata tid encoded fs =
     (case sys_create_new (transfer_name tid ''meta'') fs of
        (Inl e, fs) \<Rightarrow> ((Inl e, False), fs)
      | (Inr i, fs) \<Rightarrow>
          (case sys_write i 0 encoded fs of
             (Inl e, _, fs) \<Rightarrow> ((Inl e, True), fs)
           | (Inr _, _, fs) \<Rightarrow> (let (r, fs) = sys_noop fs in ((r, True), fs))))"

text \<open>From the creation of the partial file on: lock it, write the metadata, hand the file over.\<close>

(* @src crates/sensor-files/src/lib.rs:161-184 Receiver::begin: lock and metadata *)
definition begin_created :: "bytes \<Rightarrow> metadata \<Rightarrow> bytes \<Rightarrow> nat \<Rightarrow> fsys \<Rightarrow> (file_error + incoming_transfer) \<times> fsys" where
  "begin_created tid md encoded file fs =
     then_do (run_io (sys_lock file fs)) (\<lambda>_ fs.
       case write_metadata tid encoded fs of
         ((Inl e, created), fs) \<Rightarrow>
           (let fs = drop_file file fs;
                fs = snd (sys_remove (transfer_name tid ''part'') fs);
                fs = (if created then snd (sys_remove (transfer_name tid ''meta'') fs) else fs)
            in (Inl (FE_Io e), fs))
       | ((Inr _, _), fs) \<Rightarrow>
           or_drop file (then_do (run_io (sys_noop fs)) (\<lambda>_ fs.
             (Inr \<lparr>it_file = file, it_metadata = md, it_id = tid, it_offset = 0, it_pos = 0\<rparr>, fs))))"

(* @src crates/sensor-files/src/lib.rs:125-185 Receiver::begin *)
definition receiver_begin ::
  "metadata codec \<Rightarrow> consent \<Rightarrow> bytes \<Rightarrow> manifest \<Rightarrow> bytes \<Rightarrow> fsys
     \<Rightarrow> (file_error + incoming_transfer) \<times> fsys" where
  "receiver_begin cd consent owner m tid fs =
     (case consent_require consent P_FileManager of Inl e \<Rightarrow> (Inl (FE_Permission e), fs) | Inr _ \<Rightarrow>
      if \<not> valid_name (mf_name m) \<or> mf_size m > MAX_FILE_SIZE then (Inl FE_Invalid, fs)
      else case sys_lookup (mf_name m) fs of
        (Inr _, fs) \<Rightarrow> (Inl (FE_Io IO_AlreadyExists), fs)
      | (Inl e, fs) \<Rightarrow>
        if e \<noteq> IO_NotFound then (Inl (FE_Io e), fs)
        else let md = \<lparr>md_version = 1, md_owner = owner, md_manifest = m\<rparr> in
          case cd_ser cd md of None \<Rightarrow> (Inl FE_Invalid, fs) | Some encoded \<Rightarrow>
          then_do (run_io (sys_create_new (transfer_name tid ''part'') fs))
            (begin_created tid md encoded))"

(* @src crates/sensor-files/src/lib.rs:187-233 Receiver::resume *)
definition receiver_resume ::
  "metadata codec \<Rightarrow> consent \<Rightarrow> bytes \<Rightarrow> bytes \<Rightarrow> fsys \<Rightarrow> (file_error + incoming_transfer) \<times> fsys" where
  "receiver_resume cd consent owner tid fs =
     (case consent_require consent P_FileManager of Inl e \<Rightarrow> (Inl (FE_Permission e), fs) | Inr _ \<Rightarrow>
      then_do (run_io (sys_lookup (transfer_name tid ''meta'') fs)) (\<lambda>meta fs.
      then_do (run_io (sys_read_all meta fs)) (\<lambda>content fs.
        let encoded = take (METADATA_LIMIT + 1) content in
        if length encoded > METADATA_LIMIT then (Inl FE_Invalid, fs)
        else case cd_take cd encoded of None \<Rightarrow> (Inl FE_Invalid, fs) | Some (md, trailing) \<Rightarrow>
          if trailing \<noteq> [] \<or> md_version md \<noteq> 1 \<or> \<not> valid_name (mf_name (md_manifest md))
              \<or> mf_size (md_manifest md) > MAX_FILE_SIZE then (Inl FE_Invalid, fs)
          else if md_owner md \<noteq> owner then (Inl FE_WrongPeer, fs)
          else then_do (run_io (sys_lookup (transfer_name tid ''part'') fs)) (\<lambda>file fs.
            then_do (run_io (sys_lock file fs)) (\<lambda>_ fs.
            or_drop file (then_do (run_io (sys_read_all file fs)) (\<lambda>data fs.
              if length data > mf_size (md_manifest md) then (Inl FE_Integrity, fs)
              else then_do (run_io (sys_noop fs)) (\<lambda>_ fs.
                then_do (run_io (sys_noop fs)) (\<lambda>_ fs.
                (Inr \<lparr>it_file = file, it_metadata = md, it_id = tid, it_offset = length data,
                      it_pos = length data\<rparr>, fs))))))))))"

(* @src crates/sensor-files/src/lib.rs:261-284 IncomingTransfer::write_chunk *)
definition write_chunk ::
  "crypto_lib \<Rightarrow> consent \<Rightarrow> nat \<Rightarrow> bytes \<Rightarrow> bytes \<Rightarrow> incoming_transfer \<Rightarrow> fsys
     \<Rightarrow> (file_error + unit) \<times> incoming_transfer \<times> fsys" where
  "write_chunk L consent offset bs checksum t fs =
     (case consent_require consent P_FileManager of Inl e \<Rightarrow> (Inl (FE_Permission e), t, fs) | Inr _ \<Rightarrow>
      if offset \<noteq> it_offset t \<or> bs = [] \<or> length bs > CHUNK_SIZE
          \<or> (case checked_add64 offset (length bs) of None \<Rightarrow> True
             | Some n \<Rightarrow> n > mf_size (md_manifest (it_metadata t)))
      then (Inl FE_InvalidChunk, t, fs)
      else if sha256 L bs \<noteq> checksum then (Inl FE_Integrity, t, fs)
      else case sys_write (it_file t) (it_pos t) bs fs of
          (Inl e, pos, fs) \<Rightarrow> (Inl (FE_Io e), t\<lparr>it_pos := pos\<rparr>, fs)
        | (Inr _, pos, fs) \<Rightarrow> (Inr (), t\<lparr>it_pos := pos, it_offset := it_offset t + length bs\<rparr>, fs))"

text \<open>\<open>prefix_hash\<close> seeks to the start, hashes the whole file and seeks back.\<close>

(* @src crates/sensor-files/src/lib.rs:255-260 IncomingTransfer::prefix_hash *)
definition prefix_hash :: "crypto_lib \<Rightarrow> incoming_transfer \<Rightarrow> fsys \<Rightarrow> (file_error + bytes) \<times> fsys" where
  "prefix_hash L t fs =
     then_do (run_io (sys_noop fs)) (\<lambda>_ fs.
     then_do (run_io (sys_read_all (it_file t) fs)) (\<lambda>content fs.
     then_do (run_io (sys_noop fs)) (\<lambda>_ fs. (Inr (sha256 L content), fs))))"

text \<open>The consuming operations drop the file (and its lock) on every path.\<close>

definition dropping :: "incoming_transfer \<Rightarrow> 'a \<times> fsys \<Rightarrow> 'a \<times> fsys" where
  "dropping t r = (fst r, drop_file (it_file t) (snd r))"

(* @src crates/sensor-files/src/lib.rs:285-288 IncomingTransfer::pause *)
definition transfer_pause :: "incoming_transfer \<Rightarrow> fsys \<Rightarrow> (file_error + bytes) \<times> fsys" where
  "transfer_pause t fs = dropping t
     (then_do (run_io (sys_noop fs)) (\<lambda>_ fs. (Inr (it_id t), fs)))"

(* @src crates/sensor-files/src/lib.rs:289-295 IncomingTransfer::cancel *)
definition transfer_cancel :: "consent \<Rightarrow> incoming_transfer \<Rightarrow> fsys \<Rightarrow> (file_error + unit) \<times> fsys" where
  "transfer_cancel consent t fs = dropping t
     (case consent_require consent P_FileManager of Inl e \<Rightarrow> (Inl (FE_Permission e), fs) | Inr _ \<Rightarrow>
      then_do (run_io (sys_remove (transfer_name (it_id t) ''part'') (drop_file (it_file t) fs))) (\<lambda>_ fs.
        run_io (sys_remove (transfer_name (it_id t) ''meta'') fs)))"

(* @src crates/sensor-files/src/lib.rs:296-315 IncomingTransfer::finish *)
definition transfer_finish ::
  "crypto_lib \<Rightarrow> consent \<Rightarrow> incoming_transfer \<Rightarrow> fsys \<Rightarrow> (file_error + manifest) \<times> fsys" where
  "transfer_finish L consent t fs = dropping t
     (let m = md_manifest (it_metadata t) in
      case consent_require consent P_FileManager of Inl e \<Rightarrow> (Inl (FE_Permission e), fs) | Inr _ \<Rightarrow>
      if it_offset t \<noteq> mf_size m then (Inl FE_Integrity, fs)
      else then_do (prefix_hash L t fs) (\<lambda>hash fs.
        if hash \<noteq> mf_sha256 m then (Inl FE_Integrity, fs)
        else then_do (run_io (sys_noop fs)) (\<lambda>_ fs.
          then_do (run_io (sys_hard_link (transfer_name (it_id t) ''part'') (mf_name m) fs)) (\<lambda>_ fs.
          then_do (run_io (sys_remove (transfer_name (it_id t) ''part'') fs)) (\<lambda>_ fs.
          then_do (run_io (sys_remove (transfer_name (it_id t) ''meta'') fs)) (\<lambda>_ fs.
            (Inr m, fs)))))))"

subsection \<open>System calls, relationally\<close>

definition visible :: "fsys \<Rightarrow> rstr \<Rightarrow> bytes option" where
  "visible fs n = map_option (fs_data fs) (fs_names fs n)"

definition internal :: "rstr \<Rightarrow> bool" where
  "internal n \<longleftrightarrow> (\<exists>tid ext. n = transfer_name tid ext)"

lemma transfer_name_internal [simp, intro]: "internal (transfer_name tid ext)"
  by (auto simp: internal_def)

lemma transfer_name_hd: "\<exists>r. transfer_name tid ext = 46 # r"
  by (simp add: transfer_name_def lit_def)

lemma valid_name_not_internal: "valid_name n \<Longrightarrow> \<not> internal n"
  unfolding valid_name_def internal_def by (metis list.sel(1) transfer_name_hd)

lemma part_meta_differ [simp]:
  "transfer_name tid ''part'' \<noteq> transfer_name tid ''meta''"
  "transfer_name tid ''meta'' \<noteq> transfer_name tid ''part''"
  by (simp_all add: transfer_name_def lit_def)

definition fs_wf :: "fsys \<Rightarrow> bool" where
  "fs_wf fs \<longleftrightarrow> (\<forall>n i. fs_names fs n = Some i \<longrightarrow> i < fs_next fs)"

text \<open>\<open>spares fs fs'\<close>: every file outside the transfers' own names is still there, unchanged.\<close>

definition spares :: "fsys \<Rightarrow> fsys \<Rightarrow> bool" where
  "spares fs fs' \<longleftrightarrow> (\<forall>n x. \<not> internal n \<longrightarrow> visible fs n = Some x \<longrightarrow> visible fs' n = Some x)"

lemma spares_refl [simp, intro]: "spares fs fs"
  by (simp add: spares_def)

lemma spares_trans [trans]: "spares a b \<Longrightarrow> spares b c \<Longrightarrow> spares a c"
  by (auto simp: spares_def)

text \<open>The inode \<open>i\<close> is reachable only through a transfer's own names.\<close>

definition unshared :: "nat \<Rightarrow> fsys \<Rightarrow> bool" where
  "unshared i fs \<longleftrightarrow> (\<forall>n. fs_names fs n = Some i \<longrightarrow> internal n)"

text \<open>A transition that the operations are made of: files outside the transfers are spared, inodes
  stay below the counter, and a unshared inode stays unshared unless its file is published.\<close>

definition safe :: "fsys \<Rightarrow> fsys \<Rightarrow> bool" where
  "safe fs fs' \<longleftrightarrow> spares fs fs' \<and> fs_wf fs' \<and> fs_next fs \<le> fs_next fs' \<and>
     (\<forall>i < fs_next fs. unshared i fs \<longrightarrow> unshared i fs')"

lemma safe_refl [intro]: "fs_wf fs \<Longrightarrow> safe fs fs"
  by (simp add: safe_def)

lemma safe_trans [trans]: "safe a b \<Longrightarrow> safe b c \<Longrightarrow> safe a c"
  by (auto simp: safe_def intro: spares_trans)

lemma safe_wf: "safe fs fs' \<Longrightarrow> fs_wf fs'"
  by (simp add: safe_def)

lemma next_fault_same:
  assumes "next_fault fs = (f, fs')"
  shows "fs_names fs' = fs_names fs" "fs_data fs' = fs_data fs" "fs_next fs' = fs_next fs"
  using assms by (auto simp: next_fault_def split: list.splits)

lemma safe_same:
  assumes "fs_wf fs" and "fs_names fs' = fs_names fs" and "fs_data fs' = fs_data fs"
    and "fs_next fs' = fs_next fs"
  shows "safe fs fs'"
  using assms by (simp add: safe_def spares_def visible_def fs_wf_def unshared_def)

lemma safe_syscall:
  assumes "fs_wf fs" and "syscall f fs = (r, fs')"
    and "\<And>fs1. fs_wf fs1 \<Longrightarrow> f fs1 = (r, fs') \<Longrightarrow> safe fs1 fs'"
  shows "safe fs fs'"
proof (cases "next_fault fs")
  case (Pair ft fs1)
  have "safe fs fs1"
    using assms(1) next_fault_same [OF Pair] by (intro safe_same) auto
  then show ?thesis
    using assms(2,3) Pair safe_wf safe_trans by (fastforce simp: syscall_def split: option.splits)
qed

lemma safe_lookup: "fs_wf fs \<Longrightarrow> sys_lookup n fs = (r, fs') \<Longrightarrow> safe fs fs'"
  unfolding sys_lookup_def by (erule safe_syscall) auto

lemma safe_locked: "fs_wf fs \<Longrightarrow> safe fs (fs\<lparr>fs_locked := X\<rparr>)"
  by (rule safe_same) simp_all

lemma safe_lock: "fs_wf fs \<Longrightarrow> sys_lock i fs = (r, fs') \<Longrightarrow> safe fs fs'"
  unfolding sys_lock_def
  by (erule safe_syscall) (auto intro: safe_locked split: if_splits)

lemma safe_noop: "fs_wf fs \<Longrightarrow> sys_noop fs = (r, fs') \<Longrightarrow> safe fs fs'"
  unfolding sys_noop_def by (erule safe_syscall) auto

lemma safe_read_all: "fs_wf fs \<Longrightarrow> sys_read_all i fs = (r, fs') \<Longrightarrow> safe fs fs'"
  unfolding sys_read_all_def by (erule safe_syscall) auto

lemma safe_drop: "fs_wf fs \<Longrightarrow> safe fs (drop_file i fs)"
  by (rule safe_same) (simp_all add: drop_file_def)

lemma safe_remove: "fs_wf fs \<Longrightarrow> internal n \<Longrightarrow> sys_remove n fs = (r, fs') \<Longrightarrow> safe fs fs'"
  unfolding sys_remove_def
  by (erule safe_syscall)
    (auto simp: safe_def spares_def visible_def fs_wf_def unshared_def split: if_splits)

lemma safe_create:
  assumes "fs_wf fs" and "sys_create_new n fs = (r, fs')"
  shows "safe fs fs'"
proof (rule safe_syscall [OF assms(1) assms(2) [unfolded sys_create_new_def]])
  fix fs1
  assume wf: "fs_wf fs1" and step: "(if fs_names fs1 n \<noteq> None then (Inl IO_AlreadyExists, fs1)
      else (Inr (fs_next fs1), fs1\<lparr>fs_names := (fs_names fs1)(n \<mapsto> fs_next fs1),
        fs_data := (fs_data fs1)(fs_next fs1 := []), fs_next := Suc (fs_next fs1)\<rparr>)) = (r, fs')"
  show "safe fs1 fs'"
  proof (cases "fs_names fs1 n = None")
    case True
    then have "fs' = fs1\<lparr>fs_names := (fs_names fs1)(n \<mapsto> fs_next fs1),
        fs_data := (fs_data fs1)(fs_next fs1 := []), fs_next := Suc (fs_next fs1)\<rparr>"
      using step by simp
    moreover have "i \<noteq> fs_next fs1" if "fs_names fs1 m = Some i" for m i
      using wf that by (auto simp: fs_wf_def)
    ultimately show ?thesis
      using True wf by (auto simp: safe_def spares_def visible_def fs_wf_def unshared_def less_Suc_eq)
  qed (use step wf in auto)
qed

lemma create_unshared:
  "fs_wf fs \<Longrightarrow> internal n \<Longrightarrow> sys_create_new n fs = (Inr i, fs') \<Longrightarrow>
     unshared i fs' \<and> i < fs_next fs' \<and> fs_next fs \<le> i"
proof -
  assume wf: "fs_wf fs" and n: "internal n" and step: "sys_create_new n fs = (Inr i, fs')"
  obtain ft fs1 where ft: "next_fault fs = (ft, fs1)"
    by (cases "next_fault fs")
  have "i = fs_next fs1 \<and> fs_names fs' = (fs_names fs1)(n \<mapsto> fs_next fs1) \<and> fs_next fs' = Suc (fs_next fs1)"
    using step ft by (auto simp: sys_create_new_def syscall_def split: option.splits if_splits)
  then show ?thesis
    using wf n next_fault_same [OF ft] by (auto simp: unshared_def fs_wf_def split: if_splits)
qed

lemma safe_write:
  assumes "fs_wf fs" and "unshared i fs" and "sys_write i pos bs fs = (r, p, fs')"
  shows "safe fs fs'"
proof (cases "next_fault fs")
  case (Pair ft fs1)
  have "fs_names fs' = fs_names fs" "fs_next fs' = fs_next fs"
    and "\<forall>j. j \<noteq> i \<longrightarrow> fs_data fs' j = fs_data fs j"
    using assms(3) next_fault_same [OF Pair] Pair
    by (auto simp: sys_write_def split: option.splits prod.splits)
  then show ?thesis
    using assms(1,2) by (auto simp: safe_def spares_def visible_def fs_wf_def unshared_def)
qed

lemma safe_hard_link:
  assumes "fs_wf fs" and "sys_hard_link old new fs = (r, fs')"
  shows "spares fs fs'" and "fs_wf fs'"
proof -
  obtain ft fs1 where ft: "next_fault fs = (ft, fs1)"
    by (cases "next_fault fs")
  have "fs' = fs1 \<or> (\<exists>i. fs_names fs1 old = Some i \<and> fs_names fs1 new = None \<and>
      fs' = fs1\<lparr>fs_names := (fs_names fs1)(new \<mapsto> i)\<rparr>)"
    using assms(2) ft by (auto simp: sys_hard_link_def syscall_def split: option.splits if_splits)
  then show "spares fs fs'" and "fs_wf fs'"
    using assms(1) next_fault_same [OF ft]
    by (auto simp: spares_def visible_def fs_wf_def split: if_splits)
qed

subsection \<open>Every operation spares the other files\<close>

lemma then_do_safe:
  assumes "fs_wf fs" and "then_do r k = (x, fs')" and "safe fs (snd r)"
    and "\<And>a. fst r = Inr a \<Longrightarrow> fs_wf (snd r) \<Longrightarrow> k a (snd r) = (x, fs') \<Longrightarrow> safe (snd r) fs'"
  shows "safe fs fs'"
  using assms safe_wf [OF assms(3)] safe_trans [OF assms(3)]
  by (cases r) (auto simp: then_do_def split: sum.splits)

lemma run_io_simps [simp]: "snd (run_io r) = snd r" "fst (run_io r) = map_err FE_Io (fst r)"
  by (simp_all add: run_io_def)

lemma safe_write_metadata:
  assumes "fs_wf fs" and "write_metadata tid enc fs = ((r, b), fs')"
  shows "safe fs fs'"
proof (cases "sys_create_new (transfer_name tid ''meta'') fs")
  case (Pair c fs1)
  note s1 = safe_create [OF assms(1) Pair]
  show ?thesis
  proof (cases c)
    case (Inr i)
    obtain w p fs2 where w: "sys_write i 0 enc fs1 = (w, p, fs2)"
      by (cases "sys_write i 0 enc fs1") auto
    have "unshared i fs1"
      using create_unshared [OF assms(1)] Pair Inr by auto
    then have s2: "safe fs1 fs2"
      using safe_write [OF safe_wf [OF s1] _ w] by simp
    show ?thesis
      using assms(2) Pair Inr w safe_noop [OF safe_wf [OF s2]] safe_trans [OF s1 s2] safe_trans
      by (auto simp: write_metadata_def split: sum.splits prod.splits)
  qed (use assms(2) Pair s1 in \<open>auto simp: write_metadata_def\<close>)
qed

lemma or_drop_safe: "safe fs (snd r) \<Longrightarrow> safe fs (snd (or_drop i r))"
  using safe_wf [of fs "snd r"]
  by (cases r) (auto simp: or_drop_def intro: safe_trans safe_drop split: sum.splits)

lemma safe_remove_snd: "fs_wf fs \<Longrightarrow> internal n \<Longrightarrow> safe fs (snd (sys_remove n fs))"
  using safe_remove [of fs n] by (cases "sys_remove n fs") auto

lemma safe_noop_snd: "fs_wf fs \<Longrightarrow> safe fs (snd (then_do (run_io (sys_noop fs)) (\<lambda>_ fs. (x, fs))))"
  using safe_noop [of fs] by (cases "sys_noop fs") (auto simp: then_do_def run_io_def split: sum.splits)

lemma begin_created_safe:
  assumes wf: "fs_wf fs"
  shows "safe fs (snd (begin_created tid md enc file fs))"
proof -
  obtain l fs1 where l: "sys_lock file fs = (l, fs1)"
    by (cases "sys_lock file fs")
  note s1 = safe_lock [OF wf l]
  obtain w b fs2 where w: "write_metadata tid enc fs1 = ((w, b), fs2)"
    by (cases "write_metadata tid enc fs1") auto
  note s2 = safe_trans [OF s1 safe_write_metadata [OF safe_wf [OF s1] w]]
  define fs3 where "fs3 = snd (sys_remove (transfer_name tid ''part'') (drop_file file fs2))"
  have s3: "safe fs fs3"
    unfolding fs3_def
    using s2 safe_drop safe_remove_snd [OF safe_wf [OF safe_drop]] safe_wf safe_trans
    by (meson transfer_name_internal)
  have s4: "safe fs (snd (sys_remove (transfer_name tid ''meta'') fs3))"
    using safe_trans [OF s3 safe_remove_snd [OF safe_wf [OF s3]]] by simp
  have s5: "safe fs (snd (or_drop file (then_do (run_io (sys_noop fs2)) (\<lambda>_ fs. (x, fs)))))" for x :: "file_error + 'a"
    using safe_trans [OF s2 or_drop_safe [OF safe_noop_snd [OF safe_wf [OF s2]]]] .
  show ?thesis
    using s1 s3 s4 s5 l w
    by (auto simp: begin_created_def then_do_def run_io_def fs3_def Let_def split: sum.splits)
qed

lemma begin_created_Inr:
  assumes "begin_created tid md enc file fs = (Inr t, fs')"
  shows "it_file t = file" and "it_metadata t = md" and "it_id t = tid"
  using assms
  by (auto simp: begin_created_def then_do_def run_io_def or_drop_def Let_def
      split: sum.splits prod.splits)

definition transfer_ok :: "incoming_transfer \<Rightarrow> fsys \<Rightarrow> bool" where
  "transfer_ok t fs \<longleftrightarrow> unshared (it_file t) fs \<and> it_file t < fs_next fs \<and>
     valid_name (mf_name (md_manifest (it_metadata t)))"

lemma transfer_ok_safe: "transfer_ok t fs \<Longrightarrow> safe fs fs' \<Longrightarrow> transfer_ok t fs'"
  by (auto simp: transfer_ok_def safe_def)

lemma receiver_begin_safe:
  assumes wf: "fs_wf fs" and step: "receiver_begin cd c owner m tid fs = (r, fs')"
  shows "safe fs fs'" and "\<And>t. r = Inr t \<Longrightarrow> transfer_ok t fs'"
proof -
  obtain l fs1 where l: "sys_lookup (mf_name m) fs = (l, fs1)"
    by (cases "sys_lookup (mf_name m) fs")
  note s1 = safe_lookup [OF wf l] and wf1 = safe_wf [OF safe_lookup [OF wf l]]
  define md where "md = \<lparr>md_version = 1, md_owner = owner, md_manifest = m\<rparr>"
  obtain cr fs2 where cr: "sys_create_new (transfer_name tid ''part'') fs1 = (cr, fs2)"
    by (cases "sys_create_new (transfer_name tid ''part'') fs1")
  note s2 = safe_trans [OF s1 safe_create [OF wf1 cr]] and wf2 = safe_wf [OF safe_create [OF wf1 cr]]
  consider "fs' = fs" "\<exists>e. r = Inl e" | "fs' = fs1" "\<exists>e. r = Inl e" | "fs' = fs2" "\<exists>e. r = Inl e"
    | enc i where "valid_name (mf_name m)" "cr = Inr i"
      "begin_created tid md enc i fs2 = (r, fs')"
    using step l cr
    by (auto simp: receiver_begin_def md_def Let_def then_do_def run_io_def map_err_Inr_iff
        split: sum.splits if_splits option.splits)
  then have "safe fs fs' \<and> (\<forall>t. r = Inr t \<longrightarrow> transfer_ok t fs')"
  proof cases
    case (4 enc i)
    have s3: "safe fs2 fs'"
      using begin_created_safe [OF wf2, of tid md enc i] 4(3) by simp
    have "unshared i fs2 \<and> i < fs_next fs2"
      using create_unshared [OF wf1] cr 4(2) by auto
    then have "transfer_ok t fs'" if "r = Inr t" for t
      using s3 4 that begin_created_Inr(1,2) [of tid md enc i fs2 t fs']
      by (auto simp: transfer_ok_def safe_def md_def)
    then show ?thesis
      using safe_trans [OF s2 s3] by simp
  qed (use wf s1 s2 in auto)
  then show "safe fs fs'" and "\<And>t. r = Inr t \<Longrightarrow> transfer_ok t fs'"
    by auto
qed

lemma write_chunk_safe:
  assumes "fs_wf fs" and "transfer_ok t fs" and "write_chunk L c off bs ck t fs = (r, t', fs')"
  shows "safe fs fs'" and "transfer_ok t' fs'"
proof -
  obtain w p fs1 where w: "sys_write (it_file t) (it_pos t) bs fs = (w, p, fs1)"
    by (cases "sys_write (it_file t) (it_pos t) bs fs") auto
  have s: "safe fs fs1"
    using safe_write [OF assms(1) _ w] assms(2) by (simp add: transfer_ok_def)
  have "(t' = t \<and> fs' = fs) \<or> (fs' = fs1 \<and> it_file t' = it_file t \<and> it_metadata t' = it_metadata t)"
    using assms(3) w by (auto simp: write_chunk_def split: sum.splits if_splits option.splits)
  then show "safe fs fs'" and "transfer_ok t' fs'"
    using s assms(1,2) transfer_ok_safe [OF assms(2) s] by (auto simp: transfer_ok_def)
qed

text \<open>What publishing and removing may do: spare the other files and keep the names' inodes known.\<close>

definition sparing :: "fsys \<Rightarrow> fsys \<Rightarrow> bool" where
  "sparing fs fs' \<longleftrightarrow> spares fs fs' \<and> fs_wf fs'"

lemma safe_sparing: "safe fs fs' \<Longrightarrow> sparing fs fs'"
  by (simp add: safe_def sparing_def)

lemma sparing_refl [intro]: "fs_wf fs \<Longrightarrow> sparing fs fs"
  by (simp add: sparing_def)

lemma sparing_then_do:
  assumes "sparing fs (snd r)" and "\<And>a fs1. fs_wf fs1 \<Longrightarrow> sparing fs1 (snd (k a fs1))"
  shows "sparing fs (snd (then_do r k))"
  using assms by (cases r) (auto simp: then_do_def sparing_def intro: spares_trans split: sum.splits)

lemma sparing_sys:
  "fs_wf fs \<Longrightarrow> sparing fs (snd (run_io (sys_noop fs)))"
  "fs_wf fs \<Longrightarrow> sparing fs (snd (run_io (sys_read_all i fs)))"
  "fs_wf fs \<Longrightarrow> internal n \<Longrightarrow> sparing fs (snd (run_io (sys_remove n fs)))"
  "fs_wf fs \<Longrightarrow> sparing fs (snd (run_io (sys_hard_link a b fs)))"
  "fs_wf fs \<Longrightarrow> sparing fs (drop_file i fs)"
  using safe_noop [of fs] safe_read_all [of fs i] safe_remove [of fs n] safe_hard_link [of fs a b]
    safe_drop [of fs i] safe_sparing
  by (auto simp: sparing_def safe_def prod_eq_iff)

lemma sparing_dropping: "sparing fs (snd r) \<Longrightarrow> sparing fs (snd (dropping t r))"
  using sparing_sys(5) [of "snd r" "it_file t"] spares_trans
  by (auto simp: dropping_def sparing_def)

lemma prefix_hash_sparing: "fs_wf fs \<Longrightarrow> sparing fs (snd (prefix_hash L t fs))"
  unfolding prefix_hash_def by (intro sparing_then_do sparing_sys) (auto intro: sparing_refl)

lemma transfer_finish_sparing: "fs_wf fs \<Longrightarrow> sparing fs (snd (transfer_finish L c t fs))"
  unfolding transfer_finish_def Let_def
  by (intro sparing_dropping)
    (auto intro!: sparing_then_do sparing_sys prefix_hash_sparing sparing_refl split: sum.splits)

lemma transfer_cancel_sparing: "fs_wf fs \<Longrightarrow> sparing fs (snd (transfer_cancel c t fs))"
proof -
  assume wf: "fs_wf fs"
  have d: "sparing fs (drop_file (it_file t) fs)"
    using wf by (rule sparing_sys)
  then have "sparing (drop_file (it_file t) fs) (snd (then_do
      (run_io (sys_remove (transfer_name (it_id t) ''part'') (drop_file (it_file t) fs))) (\<lambda>_ fs.
        run_io (sys_remove (transfer_name (it_id t) ''meta'') fs))))"
    by (intro sparing_then_do sparing_sys) (auto simp: sparing_def)
  with d wf show ?thesis
    unfolding transfer_cancel_def
    by (intro sparing_dropping) (auto simp: sparing_def intro: spares_trans split: sum.splits)
qed

lemma transfer_pause_sparing: "fs_wf fs \<Longrightarrow> sparing fs (snd (transfer_pause t fs))"
  unfolding transfer_pause_def
  by (intro sparing_dropping sparing_then_do sparing_sys) (auto intro: sparing_refl)

subsection \<open>Histories\<close>

datatype file_op = OBegin bytes manifest bytes | OChunk nat bytes bytes | OFinish | OCancel | OPause

text \<open>One open transfer at a time; beginning another drops the one that was open.\<close>

fun file_step ::
  "crypto_lib \<Rightarrow> metadata codec \<Rightarrow> fsys \<times> incoming_transfer option \<Rightarrow> consent \<times> file_op
     \<Rightarrow> fsys \<times> incoming_transfer option" where
  "file_step L cd (fs, t) (c, OBegin owner m tid) =
     (let fs = (case t of None \<Rightarrow> fs | Some t \<Rightarrow> drop_file (it_file t) fs) in
      case receiver_begin cd c owner m tid fs of
        (Inl _, fs) \<Rightarrow> (fs, None)
      | (Inr t, fs) \<Rightarrow> (fs, Some t))"
| "file_step L cd (fs, None) (c, op) = (fs, None)"
| "file_step L cd (fs, Some t) (c, OChunk offset bs checksum) =
     (case write_chunk L c offset bs checksum t fs of (_, t, fs) \<Rightarrow> (fs, Some t))"
| "file_step L cd (fs, Some t) (c, OFinish) = (snd (transfer_finish L c t fs), None)"
| "file_step L cd (fs, Some t) (c, OCancel) = (snd (transfer_cancel c t fs), None)"
| "file_step L cd (fs, Some t) (c, OPause) = (snd (transfer_pause t fs), None)"

definition file_run ::
  "crypto_lib \<Rightarrow> metadata codec \<Rightarrow> fsys \<times> incoming_transfer option \<Rightarrow> (consent \<times> file_op) list
     \<Rightarrow> fsys \<times> incoming_transfer option" where
  "file_run L cd st ops = foldl (file_step L cd) st ops"

definition files_inv :: "fsys \<times> incoming_transfer option \<Rightarrow> bool" where
  "files_inv st \<longleftrightarrow> fs_wf (fst st) \<and> (case snd st of None \<Rightarrow> True | Some t \<Rightarrow> transfer_ok t (fst st))"

lemma file_step_inv:
  assumes "files_inv st"
  shows "files_inv (file_step L cd st op) \<and> spares (fst st) (fst (file_step L cd st op))"
proof -
  obtain fs t c o' where st: "st = (fs, t)" "op = (c, o')"
    by (cases st; cases op)
  have wf: "fs_wf fs"
    using assms st by (simp add: files_inv_def)
  show ?thesis
  proof (cases o')
    case (OBegin owner m tid)
    define fs1 where "fs1 = (case t of None \<Rightarrow> fs | Some t \<Rightarrow> drop_file (it_file t) fs)"
    have s1: "sparing fs fs1"
      using wf by (auto simp: fs1_def intro: sparing_sys split: option.splits)
    obtain r fs2 where b: "receiver_begin cd c owner m tid fs1 = (r, fs2)"
      by (cases "receiver_begin cd c owner m tid fs1")
    have "safe fs1 fs2" "\<And>t. r = Inr t \<Longrightarrow> transfer_ok t fs2"
      using receiver_begin_safe [OF _ b] s1 by (auto simp: sparing_def)
    then show ?thesis
      using s1 b OBegin
      by (auto simp: st files_inv_def sparing_def safe_def fs1_def [symmetric] intro: spares_trans
          split: sum.splits)
  next
    case (OChunk off bs ck)
    show ?thesis
    proof (cases t)
      case (Some u)
      obtain r u' fs' where w: "write_chunk L c off bs ck u fs = (r, u', fs')"
        by (cases "write_chunk L c off bs ck u fs") auto
      then show ?thesis
        using write_chunk_safe [OF wf _ w] assms Some OChunk
        by (auto simp: st files_inv_def safe_def)
    qed (use wf OChunk in \<open>simp add: st files_inv_def\<close>)
  qed (use wf transfer_finish_sparing [OF wf] transfer_cancel_sparing [OF wf]
      transfer_pause_sparing [OF wf] in \<open>auto simp: st files_inv_def sparing_def split: option.splits\<close>,
      (cases t; auto)+)
qed

lemma file_run_inv:
  "files_inv st \<Longrightarrow> files_inv (file_run L cd st ops) \<and> spares (fst st) (fst (file_run L cd st ops))"
proof (induction ops arbitrary: st)
  case (Cons op ops)
  then show ?case
    using file_step_inv [of st L cd op] spares_trans by (fastforce simp: file_run_def)
qed (simp add: file_run_def)

text \<open>Received files never touch the user's files: along every sequence of transfer operations,
  with any arguments a peer may choose and any failure of any system call (also in the middle of a
  write or of a publication), each file that existed under a name outside the transfers' own hidden
  names keeps its name and content.\<close>

theorem existing_files_preserved:
  assumes "fs_wf fs" and "\<not> internal n" and "visible fs n = Some x"
  shows "visible (fst (file_run L cd (fs, None) ops)) n = Some x"
  using file_run_inv [of "(fs, None)" L cd ops] assms by (auto simp: files_inv_def spares_def)

subsection \<open>Publication\<close>

lemma then_do_Inr_iff:
  "then_do r k = (Inr b, fs') \<longleftrightarrow> (\<exists>a fs1. r = (Inr a, fs1) \<and> k a fs1 = (Inr b, fs'))"
  by (cases r) (auto simp: then_do_def split: sum.splits)

lemma run_io_Inr_iff: "run_io r = (Inr a, fs') \<longleftrightarrow> r = (Inr a, fs')"
  by (cases r) (auto simp: run_io_def map_err_Inr_iff)

lemma dropping_Inr_iff:
  "dropping t r = (Inr a, fs') \<longleftrightarrow> (\<exists>fs1. r = (Inr a, fs1) \<and> fs' = drop_file (it_file t) fs1)"
  by (cases r) (auto simp: dropping_def)

lemma syscall_Inr:
  assumes "syscall f fs = (Inr a, fs')"
  shows "\<exists>fs1. fs_names fs1 = fs_names fs \<and> fs_data fs1 = fs_data fs \<and> f fs1 = (Inr a, fs')"
  using assms next_fault_same [of fs]
  by (cases "next_fault fs") (auto simp: syscall_def split: option.splits)

lemma sys_noop_Inr:
  "sys_noop fs = (Inr u, fs') \<Longrightarrow> fs_names fs' = fs_names fs \<and> fs_data fs' = fs_data fs"
  by (auto simp: sys_noop_def dest!: syscall_Inr)

lemma sys_read_all_Inr:
  "sys_read_all i fs = (Inr d, fs') \<Longrightarrow>
     d = fs_data fs i \<and> fs_names fs' = fs_names fs \<and> fs_data fs' = fs_data fs"
  by (auto simp: sys_read_all_def dest!: syscall_Inr)

lemma sys_remove_Inr:
  "sys_remove n fs = (Inr u, fs') \<Longrightarrow>
     fs_names fs' = (fs_names fs)(n := None) \<and> fs_data fs' = fs_data fs"
  by (auto simp: sys_remove_def dest!: syscall_Inr split: if_splits)

lemma sys_hard_link_Inr:
  "sys_hard_link old new fs = (Inr u, fs') \<Longrightarrow>
     (\<exists>i. fs_names fs old = Some i \<and> fs_names fs new = None \<and>
        fs_names fs' = (fs_names fs)(new \<mapsto> i)) \<and> fs_data fs' = fs_data fs"
  by (auto simp: sys_hard_link_def dest!: syscall_Inr split: if_splits option.splits)

lemma prefix_hash_Inr:
  "prefix_hash L t fs = (Inr h, fs') \<Longrightarrow>
     h = sha256 L (fs_data fs (it_file t)) \<and> fs_names fs' = fs_names fs \<and> fs_data fs' = fs_data fs"
  by (auto simp: prefix_hash_def then_do_Inr_iff run_io_Inr_iff dest!: sys_noop_Inr sys_read_all_Inr)


subsection \<open>A whole upload, interrupted and resumed\<close>

text \<open>The sender's loop: consecutive chunks with their checksums.\<close>

fun write_chunks ::
  "crypto_lib \<Rightarrow> consent \<Rightarrow> bytes list \<Rightarrow> incoming_transfer \<Rightarrow> fsys
     \<Rightarrow> (file_error + unit) \<times> incoming_transfer \<times> fsys" where
  "write_chunks L c [] t fs = (Inr (), t, fs)"
| "write_chunks L c (b # bs) t fs =
     (case write_chunk L c (it_offset t) b (sha256 L b) t fs of
        (Inl e, t, fs) \<Rightarrow> (Inl e, t, fs)
      | (Inr _, t, fs) \<Rightarrow> write_chunks L c bs t fs)"

lemma syscall_no_fault [simp]: "fs_faults fs = [] \<Longrightarrow> syscall f fs = f fs"
  by (simp add: syscall_def next_fault_def)

lemma sys_write_no_fault [simp]:
  "fs_faults fs = [] \<Longrightarrow> sys_write i pos bs fs = (Inr (length bs), pos + length bs,
     fs\<lparr>fs_data := (fs_data fs)(i := overwrite (fs_data fs i) pos bs)\<rparr>)"
  by (simp add: sys_write_def next_fault_def)

lemma overwrite_end [simp]: "overwrite d (length d) bs = d @ bs"
  by (simp add: overwrite_def)

definition at_end :: "incoming_transfer \<Rightarrow> fsys \<Rightarrow> bool" where
  "at_end t fs \<longleftrightarrow> it_offset t = length (fs_data fs (it_file t)) \<and> it_pos t = it_offset t"

lemma update_twice:
  "(\<lambda>a. if a = i then x else if a = i then y else f a) = f(i := x)"
  "(\<lambda>a. if a = i then x else f a) = f(i := x)"
  by auto

lemma write_chunks_ok:
  assumes "consent_require c P_FileManager = Inr ()" and "fs_faults fs = []" and "at_end t fs"
    and "\<forall>b \<in> set cs. b \<noteq> [] \<and> length b \<le> CHUNK_SIZE"
    and "it_offset t + length (concat cs) \<le> mf_size (md_manifest (it_metadata t))"
    and "mf_size (md_manifest (it_metadata t)) \<le> MAX_FILE_SIZE"
  shows "write_chunks L c cs t fs =
    (Inr (), t\<lparr>it_offset := it_offset t + length (concat cs), it_pos := it_pos t + length (concat cs)\<rparr>,
     fs\<lparr>fs_data := (fs_data fs)(it_file t := fs_data fs (it_file t) @ concat cs)\<rparr>)"
  using assms(2-)
proof (induction cs arbitrary: t fs)
  case (Cons b cs)
  let ?t = "t\<lparr>it_pos := it_pos t + length b, it_offset := it_offset t + length b\<rparr>"
  let ?fs = "fs\<lparr>fs_data := (fs_data fs)(it_file t := fs_data fs (it_file t) @ b)\<rparr>"
  have "checked_add64 (it_offset t) (length b) = Some (it_offset t + length b)"
    using Cons.prems(4,5) by (simp add: checked_add64_def u64_max_def MAX_FILE_SIZE_def)
  then have "write_chunk L c (it_offset t) b (sha256 L b) t fs = (Inr (), ?t, ?fs)"
    using assms(1) Cons.prems by (auto simp: write_chunk_def at_end_def)
  moreover have "write_chunks L c cs ?t ?fs = (Inr (), ?t\<lparr>it_offset := it_offset ?t + length (concat cs),
      it_pos := it_pos ?t + length (concat cs)\<rparr>,
      ?fs\<lparr>fs_data := (fs_data ?fs)(it_file t := fs_data ?fs (it_file t) @ concat cs)\<rparr>)"
    using Cons.IH [of ?fs ?t] Cons.prems by (simp add: at_end_def update_twice)
  ultimately show ?case
    by (simp add: add.assoc update_twice)
qed simp

text \<open>The directory after \<open>begin\<close>: an empty locked partial file and its metadata.\<close>

definition begun :: "bytes \<Rightarrow> bytes \<Rightarrow> fsys \<Rightarrow> fsys" where
  "begun tid enc fs =
     fs\<lparr>fs_names := (fs_names fs)(transfer_name tid ''part'' \<mapsto> fs_next fs,
          transfer_name tid ''meta'' \<mapsto> Suc (fs_next fs)),
        fs_data := (fs_data fs)(fs_next fs := [], Suc (fs_next fs) := enc),
        fs_next := Suc (Suc (fs_next fs)), fs_locked := insert (fs_next fs) (fs_locked fs)\<rparr>"

lemma receiver_begin_ok:
  assumes "consent_require c P_FileManager = Inr ()" and "fs_faults fs = []"
    and "valid_name (mf_name m)" and "mf_size m \<le> MAX_FILE_SIZE" and "fs_names fs (mf_name m) = None"
    and "fs_names fs (transfer_name tid ''part'') = None"
    and "fs_names fs (transfer_name tid ''meta'') = None" and "fs_next fs \<notin> fs_locked fs"
    and "cd_ser cd \<lparr>md_version = 1, md_owner = owner, md_manifest = m\<rparr> = Some enc"
  shows "receiver_begin cd c owner m tid fs =
    (Inr \<lparr>it_file = fs_next fs, it_metadata = \<lparr>md_version = 1, md_owner = owner, md_manifest = m\<rparr>,
       it_id = tid, it_offset = 0, it_pos = 0\<rparr>, begun tid enc fs)"
  using assms
  by (simp add: receiver_begin_def sys_lookup_def sys_create_new_def begin_created_def sys_lock_def
      write_metadata_def sys_noop_def then_do_def run_io_def or_drop_def Let_def begun_def
      overwrite_def fun_upd_twist)

lemma receiver_resume_ok:
  assumes "codec_ok cd" and "consent_require c P_FileManager = Inr ()" and "fs_faults fs = []"
    and "cd_ser cd md = Some enc" and "length enc \<le> METADATA_LIMIT"
    and "md_version md = 1" and "md_owner md = owner" and "valid_name (mf_name (md_manifest md))"
    and "mf_size (md_manifest md) \<le> MAX_FILE_SIZE"
    and "fs_names fs (transfer_name tid ''meta'') = Some j" and "fs_data fs j = enc"
    and "fs_names fs (transfer_name tid ''part'') = Some i" and "i \<notin> fs_locked fs"
    and "length (fs_data fs i) \<le> mf_size (md_manifest md)"
  shows "receiver_resume cd c owner tid fs =
    (Inr \<lparr>it_file = i, it_metadata = md, it_id = tid, it_offset = length (fs_data fs i),
       it_pos = length (fs_data fs i)\<rparr>, fs\<lparr>fs_locked := insert i (fs_locked fs)\<rparr>)"
  using assms codec_okD0 [OF assms(1,4)]
  by (simp add: receiver_resume_def sys_lookup_def sys_read_all_def sys_lock_def sys_noop_def
      then_do_def run_io_def or_drop_def Let_def)

lemma transfer_finish_ok:
  assumes "consent_require c P_FileManager = Inr ()" and "fs_faults fs = []"
    and "it_offset t = mf_size (md_manifest (it_metadata t))"
    and "sha256 L (fs_data fs (it_file t)) = mf_sha256 (md_manifest (it_metadata t))"
    and "fs_names fs (transfer_name (it_id t) ''part'') = Some (it_file t)"
    and "fs_names fs (transfer_name (it_id t) ''meta'') \<noteq> None"
    and "fs_names fs (mf_name (md_manifest (it_metadata t))) = None"
    and "valid_name (mf_name (md_manifest (it_metadata t)))"
  shows "\<exists>fs'. transfer_finish L c t fs = (Inr (md_manifest (it_metadata t)), fs') \<and>
    visible fs' (mf_name (md_manifest (it_metadata t))) = Some (fs_data fs (it_file t)) \<and>
    visible fs' (transfer_name (it_id t) ''part'') = None \<and>
    visible fs' (transfer_name (it_id t) ''meta'') = None"
proof -
  have "mf_name (md_manifest (it_metadata t)) \<noteq> transfer_name (it_id t) ''part''"
    "mf_name (md_manifest (it_metadata t)) \<noteq> transfer_name (it_id t) ''meta''"
    using valid_name_not_internal [OF assms(8)] by auto
  then show ?thesis
    using assms
    by (auto simp: transfer_finish_def prefix_hash_def sys_noop_def sys_read_all_def
        sys_hard_link_def sys_remove_def then_do_def run_io_def dropping_def drop_file_def Let_def
        visible_def)
qed

text \<open>An upload survives interruption: with no system failure, beginning a transfer, writing the
  first chunks, pausing, resuming by the transfer's identifier from the metadata on disk and writing
  the remaining chunks continues at the right offset and finishes with exactly the sent bytes under
  the requested name, and no partial or metadata file left.\<close>

theorem resumed_upload:
  assumes "codec_ok cd" and "consent_require c P_FileManager = Inr ()" and "fs_faults fs = []"
    and "valid_name (mf_name m)" and "mf_size m \<le> MAX_FILE_SIZE" and "fs_names fs (mf_name m) = None"
    and "fs_names fs (transfer_name tid ''part'') = None"
    and "fs_names fs (transfer_name tid ''meta'') = None" and "fs_next fs \<notin> fs_locked fs"
    and "cd_ser cd \<lparr>md_version = 1, md_owner = owner, md_manifest = m\<rparr> = Some enc"
    and "length enc \<le> METADATA_LIMIT"
    and "\<forall>b \<in> set cs1 \<union> set cs2. b \<noteq> [] \<and> length b \<le> CHUNK_SIZE"
    and "mf_size m = length (concat cs1 @ concat cs2)"
    and "mf_sha256 m = sha256 L (concat cs1 @ concat cs2)"
  shows "\<exists>t1 fs1 t2 fs2 fs3 t4 fs4 t5 fs5 fs6.
    receiver_begin cd c owner m tid fs = (Inr t1, fs1) \<and>
    write_chunks L c cs1 t1 fs1 = (Inr (), t2, fs2) \<and>
    transfer_pause t2 fs2 = (Inr tid, fs3) \<and>
    receiver_resume cd c owner tid fs3 = (Inr t4, fs4) \<and> it_offset t4 = length (concat cs1) \<and>
    write_chunks L c cs2 t4 fs4 = (Inr (), t5, fs5) \<and>
    transfer_finish L c t5 fs5 = (Inr m, fs6) \<and>
    visible fs6 (mf_name m) = Some (concat cs1 @ concat cs2) \<and>
    visible fs6 (transfer_name tid ''part'') = None \<and> visible fs6 (transfer_name tid ''meta'') = None"
proof -
  let ?md = "\<lparr>md_version = 1, md_owner = owner, md_manifest = m\<rparr>"
  let ?i = "fs_next fs"
  define t1 where "t1 = \<lparr>it_file = ?i, it_metadata = ?md, it_id = tid, it_offset = 0, it_pos = 0\<rparr>"
  define fs1 where "fs1 = begun tid enc fs"
  have b: "receiver_begin cd c owner m tid fs = (Inr t1, fs1)"
    using receiver_begin_ok [OF assms(2-10)] by (simp add: t1_def fs1_def)
  define t2 where "t2 = t1\<lparr>it_offset := length (concat cs1), it_pos := length (concat cs1)\<rparr>"
  define fs2 where "fs2 = fs1\<lparr>fs_data := (fs_data fs1)(?i := concat cs1)\<rparr>"
  have w1: "write_chunks L c cs1 t1 fs1 = (Inr (), t2, fs2)"
    using write_chunks_ok [of c fs1 t1 cs1 L] assms
    by (simp add: t1_def t2_def fs1_def fs2_def begun_def at_end_def)
  define fs3 where "fs3 = drop_file ?i fs2"
  have p: "transfer_pause t2 fs2 = (Inr tid, fs3)"
    using assms(3) by (simp add: transfer_pause_def sys_noop_def then_do_def run_io_def dropping_def
        fs3_def t2_def t1_def fs2_def fs1_def begun_def)
  define t4 where "t4 = \<lparr>it_file = ?i, it_metadata = ?md, it_id = tid, it_offset = length (concat cs1),
      it_pos = length (concat cs1)\<rparr>"
  define fs4 where "fs4 = fs3\<lparr>fs_locked := insert ?i (fs_locked fs3)\<rparr>"
  have r: "receiver_resume cd c owner tid fs3 = (Inr t4, fs4)"
    using receiver_resume_ok [of cd c fs3 ?md enc owner tid "Suc ?i" ?i] assms
    by (simp add: t4_def fs4_def fs3_def fs2_def fs1_def begun_def drop_file_def)
  define t5 where "t5 = t4\<lparr>it_offset := mf_size m, it_pos := mf_size m\<rparr>"
  define fs5 where "fs5 = fs4\<lparr>fs_data := (fs_data fs4)(?i := concat cs1 @ concat cs2)\<rparr>"
  have w2: "write_chunks L c cs2 t4 fs4 = (Inr (), t5, fs5)"
    using write_chunks_ok [of c fs4 t4 cs2 L] assms
    by (simp add: t4_def t5_def fs4_def fs5_def fs3_def fs2_def fs1_def begun_def at_end_def drop_file_def)
  have "mf_name m \<noteq> transfer_name tid ''part''" "mf_name m \<noteq> transfer_name tid ''meta''"
    using valid_name_not_internal [OF assms(4)] by auto
  then have "\<exists>fs6. transfer_finish L c t5 fs5 = (Inr m, fs6) \<and>
      visible fs6 (mf_name m) = Some (concat cs1 @ concat cs2) \<and>
      visible fs6 (transfer_name tid ''part'') = None \<and> visible fs6 (transfer_name tid ''meta'') = None"
    using transfer_finish_ok [of c fs5 t5 L] assms
    by (simp add: t5_def t4_def fs5_def fs4_def fs3_def fs2_def fs1_def begun_def drop_file_def)
  then show ?thesis
    using b w1 p r w2 by (metis (no_types, lifting) t4_def incoming_transfer.select_convs(4))
qed

subsection \<open>A concrete directory\<close>

definition demo_fs :: fsys where
  "demo_fs =
     \<lparr>fs_names = [lit ''notes'' \<mapsto> 0], fs_data = (\<lambda>_. [])(0 := [1, 2, 3]), fs_next = 1,
      fs_locked = {}, fs_faults = []\<rparr>"

definition demo_consent :: consent where
  "demo_consent =
     \<lparr>co_requested = perms_file_transfer, co_granted = perms_file_transfer, co_state = CS_Active\<rparr>"

definition demo_manifest :: manifest where
  "demo_manifest =
     \<lparr>mf_name = lit ''data.bin'', mf_size = 3, mf_sha256 = sha256 demo_lib [7, 8, 9]\<rparr>"

definition demo_metadata :: metadata where
  "demo_metadata = \<lparr>md_version = 1, md_owner = [5], md_manifest = demo_manifest\<rparr>"

definition demo_md_codec :: "metadata codec" where
  "demo_md_codec = codec_only demo_metadata [4, 2]"

lemma demo_consent_file: "consent_require demo_consent P_FileManager = Inr ()"
  by (simp add: consent_require_iff demo_consent_def perms_file_transfer_def allows_perms_of)

lemma demo_valid_name: "valid_name (lit ''data.bin'')"
  by (simp add: valid_name_def lit_def str_len_ascii is_ascii_def is_control_def forbidden_chars_def
      reserved_stems_def to_ascii_uppercase_def)

lemma demo_names [simp]:
  "lit ''data.bin'' \<noteq> lit ''notes''" "transfer_name tid ext \<noteq> lit ''notes''"
  by (simp_all add: lit_def transfer_name_def)

lemma demo_upload_hyps:
  "fs_faults demo_fs = []" "valid_name (mf_name demo_manifest)" "mf_size demo_manifest \<le> MAX_FILE_SIZE"
  "fs_names demo_fs (mf_name demo_manifest) = None"
  "fs_names demo_fs (transfer_name [9] ''part'') = None"
  "fs_names demo_fs (transfer_name [9] ''meta'') = None" "fs_next demo_fs \<notin> fs_locked demo_fs"
  "cd_ser demo_md_codec \<lparr>md_version = 1, md_owner = [5], md_manifest = demo_manifest\<rparr> = Some [4, 2]"
  "length [4, 2 :: u8] \<le> METADATA_LIMIT"
  "\<forall>b \<in> set [[7]] \<union> set [[8, 9 :: u8]]. b \<noteq> [] \<and> length b \<le> CHUNK_SIZE"
  "mf_size demo_manifest = length (concat [[7]] @ concat [[8, 9 :: u8]])"
  "mf_sha256 demo_manifest = sha256 demo_lib (concat [[7]] @ concat [[8, 9]])"
  using demo_valid_name
  by (simp_all add: demo_fs_def demo_manifest_def demo_md_codec_def codec_only_def demo_metadata_def
      MAX_FILE_SIZE_def METADATA_LIMIT_def CHUNK_SIZE_def)

lemma resumed_upload_witness:
  "\<exists>t4 fs3 fs4 t5 fs5 fs6.
    receiver_resume demo_md_codec demo_consent [5] [9] fs3 = (Inr t4, fs4) \<and> it_offset t4 = 1 \<and>
    write_chunks demo_lib demo_consent [[8, 9]] t4 fs4 = (Inr (), t5, fs5) \<and>
    transfer_finish demo_lib demo_consent t5 fs5 = (Inr demo_manifest, fs6) \<and>
    visible fs6 (lit ''data.bin'') = Some [7, 8, 9]"
proof -
  have "codec_ok demo_md_codec"
    by (simp add: demo_md_codec_def)
  from resumed_upload [OF this demo_consent_file demo_upload_hyps] show ?thesis
    by (simp add: demo_manifest_def) blast
qed

lemma existing_files_preserved_witness:
  "visible (fst (file_run demo_lib demo_md_codec (demo_fs, None)
     [(demo_consent, OBegin [5] demo_manifest [9]), (demo_consent, OChunk 0 [7] [1]),
      (demo_consent, OCancel)])) (lit ''notes'') = Some [1, 2, 3]"
proof (rule existing_files_preserved)
  show "fs_wf demo_fs"
    by (simp add: fs_wf_def demo_fs_def)
  show "\<not> internal (lit ''notes'')"
    by (metis demo_names(2) internal_def)
  show "visible demo_fs (lit ''notes'') = Some [1, 2, 3]"
    by (simp add: visible_def demo_fs_def)
qed


end
