(* ===== verification/Sensor_Media.thy ===== *)
theory Sensor_Media
  imports Sensor_Codec
begin

section \<open>sensor-media: desktop messages, validation and frame reassembly\<close>

text \<open>
  The wire types of a desktop session, their validation, and the \<open>Assembler\<close> that rebuilds one
  compressed frame from fragments. Values of \<open>u32\<close>, \<open>u64\<close> and \<open>usize\<close> are natural numbers and of
  \<open>i32\<close> and \<open>i64\<close> integers: no operation of this component can leave the range of its type (sizes
  are compared against the limits before they are added). The lemmas show that validation bounds
  every quantity, and that the assembler returns exactly the frames that were cut into fragments,
  holds at most one bounded frame, and forgets it on any violation.
\<close>

subsection \<open>Limits and validation\<close>

(* @src crates/sensor-media/src/lib.rs:8-9 MAX_WIDTH, MAX_HEIGHT *)
definition MAX_WIDTH :: nat where
  "MAX_WIDTH = 4096"

(* @src crates/sensor-media/src/lib.rs:8-9 MAX_WIDTH, MAX_HEIGHT *)
definition MAX_HEIGHT :: nat where
  "MAX_HEIGHT = 4096"

(* @src crates/sensor-media/src/lib.rs:10-10 MAX_PIXELS *)
definition MAX_PIXELS :: nat where
  "MAX_PIXELS = 4096 * 2160"

(* @src crates/sensor-media/src/lib.rs:11-11 MAX_ENCODED_FRAME *)
definition MAX_ENCODED_FRAME :: nat where
  "MAX_ENCODED_FRAME = 8 * 1024 * 1024"

(* @src crates/sensor-media/src/lib.rs:12-12 VIDEO_FRAGMENT *)
definition VIDEO_FRAGMENT :: nat where
  "VIDEO_FRAGMENT = 16 * 1024"

(* @src crates/sensor-media/src/lib.rs:13-13 MAX_CLIPBOARD_BYTES *)
definition MAX_CLIPBOARD_BYTES :: nat where
  "MAX_CLIPBOARD_BYTES = 64 * 1024"

(* @src crates/sensor-media/src/lib.rs:22-30 MediaError *)
datatype media_error = ME_Dimensions | ME_Frame | ME_Input

(* @src crates/sensor-media/src/lib.rs:15-20 validate_clipboard *)
definition validate_clipboard :: "rstr \<Rightarrow> media_error + unit" where
  "validate_clipboard s =
     (if str_len s > MAX_CLIPBOARD_BYTES \<or> 0 \<in> set s then Inl ME_Input else Inr ())"

(* @src crates/sensor-media/src/lib.rs:32-40 pixels *)
definition pixels :: "nat \<Rightarrow> nat \<Rightarrow> media_error + nat" where
  "pixels width height =
     (let count = width * height in
      if width = 0 \<or> height = 0 \<or> width > MAX_WIDTH \<or> height > MAX_HEIGHT \<or> count > MAX_PIXELS
      then Inl ME_Dimensions else Inr count)"

(* @src crates/sensor-media/src/lib.rs:42-50 Display *)
record display =
  ds_index :: nat
  ds_name :: rstr
  ds_left :: int
  ds_top :: int
  ds_width :: nat
  ds_height :: nat

(* @src crates/sensor-media/src/lib.rs:52-58 Display::validate *)
definition display_validate :: "display \<Rightarrow> media_error + unit" where
  "display_validate d =
     res_bind (pixels (ds_width d) (ds_height d)) (\<lambda>_.
       if ds_index d > 63 \<or> str_len (ds_name d) > 256 then Inl ME_Dimensions else Inr ())"

(* @src crates/sensor-media/src/lib.rs:61-66 MouseButton *)
datatype mouse_button = MB_Left | MB_Right | MB_Middle

(* @src crates/sensor-media/src/lib.rs:68-76 Input *)
datatype input =
    I_Move nat nat
  | I_Button mouse_button bool
  | I_Wheel int bool
  | I_Key nat bool
  | I_Text rstr
  | I_ReleaseAll

(* @src crates/sensor-media/src/lib.rs:78-92 Input::validate *)
fun input_validate :: "display \<Rightarrow> input \<Rightarrow> media_error + unit" where
  "input_validate d (I_Move x y) =
     (if x \<ge> ds_width d \<or> y \<ge> ds_height d then Inl ME_Input else Inr ())"
| "input_validate d (I_Key virtual_key down) =
     (if virtual_key = 0 \<or> virtual_key > 254 then Inl ME_Input else Inr ())"
| "input_validate d (I_Wheel delta horizontal) =
     (if nat (abs delta) > 120 * 100 then Inl ME_Input else Inr ())"
| "input_validate d (I_Text s) =
     (if str_len s > 1024 \<or> list_ex is_control s then Inl ME_Input else Inr ())"
| "input_validate d (I_Button b down) = Inr ()"
| "input_validate d I_ReleaseAll = Inr ()"

(* @src crates/sensor-media/src/lib.rs:107-114 VideoProfile *)
datatype video_profile = VP_Balanced | VP_Quality | VP_Performance | VP_Auto

(* @src crates/sensor-media/src/lib.rs:116-122 VideoProfile::fps *)
fun profile_fps :: "video_profile \<Rightarrow> nat" where
  "profile_fps VP_Balanced = 30"
| "profile_fps VP_Quality = 60"
| "profile_fps VP_Performance = 60"
| "profile_fps VP_Auto = 60"

(* @src crates/sensor-media/src/lib.rs:95-105 VideoFormat *)
record video_format =
  vf_generation :: nat
  vf_display :: display
  vf_width :: nat
  vf_height :: nat
  vf_fps_limit :: nat
  vf_bitrate :: nat
  vf_encoder :: rstr
  vf_hardware :: bool

(* @src crates/sensor-media/src/lib.rs:136-150 VideoFormat::validate *)
definition format_validate :: "video_format \<Rightarrow> media_error + unit" where
  "format_validate f =
     res_bind (display_validate (vf_display f)) (\<lambda>_.
     res_bind (pixels (vf_width f) (vf_height f)) (\<lambda>_.
       if vf_width f mod 2 \<noteq> 0 \<or> vf_height f mod 2 \<noteq> 0 \<or> vf_fps_limit f = 0 \<or> vf_fps_limit f > 60
           \<or> vf_bitrate f > 50000000 \<or> vf_bitrate f < 100000 \<or> str_len (vf_encoder f) > 256
       then Inl ME_Dimensions else Inr ()))"

(* @src crates/sensor-media/src/adaptive.rs:18-34 Telemetry *)
record telemetry =
  tm_elapsed_ms :: nat
  tm_captured :: nat
  tm_encoded :: nat
  tm_bytes :: nat
  tm_skipped :: nat
  tm_capture_us :: nat
  tm_prepare_us :: nat
  tm_encode_us :: nat
  tm_send_us :: nat
  tm_in_flight_bytes :: nat
  tm_delivery_ms :: nat
  tm_profile :: video_profile
  tm_congestion :: bool

(* @src crates/sensor-media/src/lib.rs:157-165 DesktopMessage::Fragment *)
record fragment =
  fg_generation :: nat
  fg_sequence :: nat
  fg_timestamp :: int
  fg_keyframe :: bool
  fg_offset :: nat
  fg_total :: nat
  fg_bytes :: bytes

(* @src crates/sensor-media/src/lib.rs:153-192 DesktopMessage *)
datatype desktop_message =
    DM_Displays "display list"
  | DM_Format video_format
  | DM_Fragment fragment
  | DM_Input nat input
  | DM_SelectDisplay nat
  | DM_Cursor nat int int bool
  | DM_Ping nat
  | DM_Pong nat
  | DM_Close
  | DM_Error rstr
  | DM_ClipboardText rstr
  | DM_SelectVideoProfile video_profile
  | DM_FrameAck nat nat nat nat
  | DM_Telemetry telemetry

(* @src crates/sensor-media/src/lib.rs:206-211 EncodedFrame *)
record encoded_frame =
  ef_timestamp :: int
  ef_keyframe :: bool
  ef_bytes :: bytes

lemma pixels_Inr_iff:
  "pixels w h = Inr n \<longleftrightarrow> n = w * h \<and> 0 < w \<and> 0 < h \<and> w \<le> 4096 \<and> h \<le> 4096 \<and> w * h \<le> 8847360"
  by (auto simp: pixels_def Let_def MAX_WIDTH_def MAX_HEIGHT_def MAX_PIXELS_def)

lemma display_validate_iff:
  "display_validate d = Inr () \<longleftrightarrow>
     0 < ds_width d \<and> ds_width d \<le> 4096 \<and> 0 < ds_height d \<and> ds_height d \<le> 4096 \<and>
     ds_width d * ds_height d \<le> 8847360 \<and> ds_index d \<le> 63 \<and> str_len (ds_name d) \<le> 256"
  by (auto simp: display_validate_def res_simps pixels_Inr_iff)

lemma format_validate_iff:
  "format_validate f = Inr () \<longleftrightarrow>
     display_validate (vf_display f) = Inr () \<and> is_ok (pixels (vf_width f) (vf_height f)) \<and>
     even (vf_width f) \<and> even (vf_height f) \<and> 1 \<le> vf_fps_limit f \<and> vf_fps_limit f \<le> 60 \<and>
     100000 \<le> vf_bitrate f \<and> vf_bitrate f \<le> 50000000 \<and> str_len (vf_encoder f) \<le> 256"
  by (auto simp: format_validate_def res_simps even_iff_mod_2_eq_zero)

lemma input_validate_move:
  "input_validate d (I_Move x y) = Inr () \<longleftrightarrow> x < ds_width d \<and> y < ds_height d"
  by auto

subsection \<open>The assembler\<close>

(* @src crates/sensor-media/src/lib.rs:368-372 Assembler *)
record pending_frame =
  pf_generation :: nat
  pf_sequence :: nat
  pf_timestamp :: int
  pf_keyframe :: bool
  pf_length :: nat
  pf_buffer :: bytes

(* @src crates/sensor-media/src/lib.rs:408-415 Assembler::push_inner: first fragment *)
definition start_pending :: "fragment \<Rightarrow> pending_frame" where
  "start_pending f =
     \<lparr>pf_generation = fg_generation f, pf_sequence = fg_sequence f, pf_timestamp = fg_timestamp f,
      pf_keyframe = fg_keyframe f, pf_length = fg_total f, pf_buffer = []\<rparr>"

(* @src crates/sensor-media/src/lib.rs:384-439 Assembler::push_inner *)
definition push_inner ::
  "pending_frame option \<Rightarrow> desktop_message \<Rightarrow> (media_error + encoded_frame option) \<times> pending_frame option" where
  "push_inner frame message =
     (case message of
        DM_Fragment f \<Rightarrow>
          (if fg_total f = 0 \<or> fg_total f > MAX_ENCODED_FRAME \<or> fg_bytes f = []
              \<or> length (fg_bytes f) > VIDEO_FRAGMENT then (Inl ME_Frame, frame)
           else if frame = None \<and> fg_offset f \<noteq> 0 then (Inl ME_Frame, frame)
           else
             (let p = (case frame of None \<Rightarrow> start_pending f | Some p \<Rightarrow> p) in
              if pf_generation p \<noteq> fg_generation f \<or> pf_sequence p \<noteq> fg_sequence f
                 \<or> pf_timestamp p \<noteq> fg_timestamp f \<or> pf_keyframe p \<noteq> fg_keyframe f
                 \<or> pf_length p \<noteq> fg_total f \<or> fg_offset f \<noteq> length (pf_buffer p)
                 \<or> length (pf_buffer p) + length (fg_bytes f) > pf_length p
              then (Inl ME_Frame, Some p)
              else
                (let p = p\<lparr>pf_buffer := pf_buffer p @ fg_bytes f\<rparr> in
                 if length (pf_buffer p) \<noteq> pf_length p then (Inr None, Some p)
                 else (Inr (Some \<lparr>ef_timestamp = pf_timestamp p, ef_keyframe = pf_keyframe p,
                                 ef_bytes = pf_buffer p\<rparr>), None))))
      | _ \<Rightarrow> (Inl ME_Frame, frame))"

(* @src crates/sensor-media/src/lib.rs:374-383 Assembler::clear, push *)
definition assembler_push ::
  "pending_frame option \<Rightarrow> desktop_message \<Rightarrow> (media_error + encoded_frame option) \<times> pending_frame option" where
  "assembler_push frame message =
     (case push_inner frame message of
        (Inl e, _) \<Rightarrow> (Inl e, None)
      | (Inr r, frame) \<Rightarrow> (Inr r, frame))"

definition assembler_inv :: "pending_frame option \<Rightarrow> bool" where
  "assembler_inv s \<longleftrightarrow>
     (case s of None \<Rightarrow> True
      | Some p \<Rightarrow> 0 < length (pf_buffer p) \<and> length (pf_buffer p) < pf_length p \<and>
          pf_length p \<le> MAX_ENCODED_FRAME)"

lemma assembler_error_clears: "assembler_push s m = (Inl e, s') \<Longrightarrow> s' = None"
  by (auto simp: assembler_push_def split: prod.splits sum.splits)

lemma assembler_inv_push: "assembler_inv s \<Longrightarrow> assembler_inv (snd (assembler_push s m))"
  by (auto simp: assembler_push_def push_inner_def assembler_inv_def start_pending_def Let_def
      split: desktop_message.splits option.splits prod.splits sum.splits if_splits)

text \<open>The state after a run, and the frames it returned.\<close>

fun assembler_run ::
  "pending_frame option \<Rightarrow> desktop_message list \<Rightarrow> encoded_frame list \<times> pending_frame option" where
  "assembler_run s [] = ([], s)"
| "assembler_run s (m # ms) =
     (case assembler_push s m of (r, s') \<Rightarrow>
        (case r of Inr (Some f) \<Rightarrow> (f # fst (assembler_run s' ms), snd (assembler_run s' ms))
         | _ \<Rightarrow> assembler_run s' ms))"

lemma assembler_run_inv: "assembler_inv s \<Longrightarrow> assembler_inv (snd (assembler_run s ms))"
proof (induction ms arbitrary: s)
  case (Cons m ms)
  then show ?case
    using assembler_inv_push [of s m] by (auto split: prod.splits sum.splits option.splits)
qed simp

text \<open>Assembly is bounded: whatever messages a peer sends, in any order, the assembler never holds
  more than one frame, its buffer stays below the announced length and the announced length below
  8 MiB, and every violation empties it.\<close>

theorem assembler_bounded:
  "assembler_inv (snd (assembler_run None ms)) \<and>
   (case assembler_push (snd (assembler_run None ms)) m of (Inl e, s) \<Rightarrow> s = None | _ \<Rightarrow> True)"
  using assembler_run_inv [of None ms] assembler_error_clears
  by (auto simp: assembler_inv_def split: prod.splits sum.splits)

text \<open>Cutting a frame: consecutive pieces with their offsets.\<close>

fun cut_fragments :: "fragment \<Rightarrow> nat \<Rightarrow> bytes list \<Rightarrow> desktop_message list" where
  "cut_fragments f offset [] = []"
| "cut_fragments f offset (b # bs) =
     DM_Fragment (f\<lparr>fg_offset := offset, fg_bytes := b\<rparr>) # cut_fragments f (offset + length b) bs"

definition frame_of :: "fragment \<Rightarrow> bytes \<Rightarrow> encoded_frame" where
  "frame_of f bs = \<lparr>ef_timestamp = fg_timestamp f, ef_keyframe = fg_keyframe f, ef_bytes = bs\<rparr>"

lemma assemble_rest:
  assumes "pieces \<noteq> []" and "\<forall>b \<in> set pieces. b \<noteq> [] \<and> length b \<le> VIDEO_FRAGMENT"
    and "fg_total f = length buf + length (concat pieces)" and "fg_total f \<le> MAX_ENCODED_FRAME"
    and "s = (if buf = [] then None else Some (start_pending f\<lparr>pf_buffer := buf\<rparr>))"
  shows "assembler_run s (cut_fragments f (length buf) pieces @ ms) =
    (frame_of f (buf @ concat pieces) # fst (assembler_run None ms), snd (assembler_run None ms))"
  using assms
proof (induction pieces arbitrary: buf s)
  case (Cons b pieces)
  let ?m = "DM_Fragment (f\<lparr>fg_offset := length buf, fg_bytes := b\<rparr>)"
  let ?s = "Some (start_pending f\<lparr>pf_buffer := buf @ b\<rparr>)"
  have b: "b \<noteq> []" "length b \<le> VIDEO_FRAGMENT"
    using Cons.prems(2) by auto
  show ?case
  proof (cases "pieces = []")
    case True
    then have "assembler_push s ?m = (Inr (Some (frame_of f (buf @ b))), None)"
      using Cons.prems b
      by (auto simp: assembler_push_def push_inner_def start_pending_def Let_def frame_of_def)
    with True show ?thesis
      by simp
  next
    case False
    then have "0 < length (concat pieces)"
      using Cons.prems(2) by (cases pieces) auto
    then have "assembler_push s ?m = (Inr None, ?s)"
      using Cons.prems b
      by (auto simp: assembler_push_def push_inner_def start_pending_def Let_def)
    moreover have "assembler_run ?s (cut_fragments f (length (buf @ b)) pieces @ ms) =
        (frame_of f ((buf @ b) @ concat pieces) # fst (assembler_run None ms), snd (assembler_run None ms))"
      using Cons.prems False b by (intro Cons.IH) auto
    ultimately show ?thesis
      by simp
  qed
qed simp

text \<open>A stream of frames, each cut into pieces.\<close>

definition well_cut :: "fragment \<times> bytes list \<Rightarrow> bool" where
  "well_cut fp \<longleftrightarrow> snd fp \<noteq> [] \<and> (\<forall>b \<in> set (snd fp). b \<noteq> [] \<and> length b \<le> VIDEO_FRAGMENT) \<and>
     fg_total (fst fp) = length (concat (snd fp)) \<and> fg_total (fst fp) \<le> MAX_ENCODED_FRAME"

lemma assemble_frames:
  "list_all well_cut fps \<Longrightarrow>
     assembler_run None (concat (map (\<lambda>(f, pieces). cut_fragments f 0 pieces) fps)) =
     (map (\<lambda>(f, pieces). frame_of f (concat pieces)) fps, None)"
proof (induction fps)
  case (Cons fp fps)
  then show ?case
    using assemble_rest [of "snd fp" "fst fp" "[]" None
        "concat (map (\<lambda>(f, pieces). cut_fragments f 0 pieces) fps)"]
    by (auto simp: well_cut_def split: prod.splits)
qed simp

text \<open>Frames survive fragmentation: a stream of compressed frames, each cut into non-empty pieces
  of at most 16 KiB with their offsets and total, is reassembled into exactly those frames, with
  their timestamps and keyframe flags, in order, and nothing is left pending.\<close>

theorem assembler_roundtrip:
  assumes "list_all well_cut fps"
  shows "assembler_run None (concat (map (\<lambda>(f, pieces). cut_fragments f 0 pieces) fps)) =
     (map (\<lambda>(f, pieces). frame_of f (concat pieces)) fps, None)"
  by (rule assemble_frames [OF assms])

definition demo_fragment :: "nat \<Rightarrow> nat \<Rightarrow> fragment" where
  "demo_fragment s n =
     \<lparr>fg_generation = 1, fg_sequence = s, fg_timestamp = 400, fg_keyframe = True, fg_offset = 0,
      fg_total = n, fg_bytes = []\<rparr>"

lemma assembler_roundtrip_witness:
  "assembler_run None (cut_fragments (demo_fragment 1 3) 0 [[1], [2, 3]] @
      cut_fragments (demo_fragment 2 1) 0 [[4]]) =
     ([frame_of (demo_fragment 1 3) [1, 2, 3], frame_of (demo_fragment 2 1) [4]], None)"
  using assembler_roundtrip [of "[(demo_fragment 1 3, [[1], [2, 3]]), (demo_fragment 2 1, [[4]])]"]
  by (simp add: well_cut_def demo_fragment_def VIDEO_FRAGMENT_def MAX_ENCODED_FRAME_def)

end
