(* ===== verification/Sensor_Pixels.thy ===== *)
theory Sensor_Pixels
  imports Sensor_Media
begin

unbundle bit_operations_syntax

section \<open>sensor-media: pixel transforms\<close>

text \<open>
  Rotation and scaling of captured frames, the conversion of BGRA to NV12 for the encoder and of NV12
  to RGBA after the decoder, the latter also in its AVX2 form. The scalar code computes in \<open>i32\<close>
  without overflow and is modelled on integers (\<open>>> 8\<close> of a signed value is \<open>div 256\<close>); the vector
  code is modelled on 32-bit words, lane by lane, with the wrap-around, signed comparison and
  arithmetic shift of the instructions. A loop that fills a buffer in row-major order is a list of
  its pixels. The lemmas show that rotations undo each other, that converted frames are in the legal
  video range, and that the vector code computes the same bytes as the scalar code.
\<close>

subsection \<open>Pixels of a buffer\<close>

(* @src crates/sensor-media/src/lib.rs:194-199 BgraFrame *)
record bgra_frame =
  bf_width :: nat
  bf_height :: nat
  bf_bytes :: bytes

(* @src crates/sensor-media/src/lib.rs:200-205 DecodedFrame *)
record decoded_frame =
  df_width :: nat
  df_height :: nat
  df_rgba :: bytes

definition px :: "bytes \<Rightarrow> nat \<Rightarrow> bytes" where
  "px bs i = take 4 (drop (4 * i) bs)"

lemma length_px: "length bs = 4 * n \<Longrightarrow> i < n \<Longrightarrow> length (px bs i) = 4"
  by (simp add: px_def)

lemma px_Suc: "px bs (Suc i) = px (drop 4 bs) i"
  by (simp add: px_def add.commute)

lemma concat_px: "length bs = 4 * n \<Longrightarrow> concat (map (px bs) [0..<n]) = bs"
proof (induction n arbitrary: bs)
  case (Suc n)
  have "map (px bs) [0..<Suc n] = px bs 0 # map (px (drop 4 bs)) [0..<n]"
    by (simp add: upt_conv_Cons map_Suc_upt [symmetric] px_Suc del: upt_Suc)
  then have "concat (map (px bs) [0..<Suc n]) = px bs 0 @ concat (map (px (drop 4 bs)) [0..<n])"
    by (simp del: upt_Suc)
  also have "\<dots> = take 4 bs @ drop 4 bs"
    using Suc.IH [of "drop 4 bs"] Suc.prems by (simp add: px_def [of bs])
  finally show ?case
    by simp
qed simp

lemma px_concat:
  assumes "\<And>i. i < n \<Longrightarrow> length (g i) = 4" and "i < n"
  shows "px (concat (map g [0..<n])) i = g i"
proof -
  have "length (concat (map g [0..<k])) = 4 * k" if "k \<le> n" for k
    using that assms(1) by (induction k) auto
  then have len: "length (concat (map g [0..<i])) = 4 * i"
    using assms(2) by simp
  have "[0..<n] = [0..<i] @ i # [Suc i..<n]"
    using assms(2) by (metis less_imp_le_nat upt_add_eq_append upt_conv_Cons le0 le_add_diff_inverse)
  then have "concat (map g [0..<n]) = concat (map g [0..<i]) @ g i @ concat (map g [Suc i..<n])"
    by (simp del: upt_Suc)
  then show ?thesis
    using len assms by (simp add: px_def)
qed

subsection \<open>Rotation and scaling\<close>

(* @src crates/sensor-media/src/lib.rs:249-257 rotate_scale_bgra: the source pixel *)
definition source_index :: "nat \<Rightarrow> nat \<Rightarrow> nat \<Rightarrow> nat \<Rightarrow> nat \<Rightarrow> nat \<Rightarrow> nat" where
  "source_index fw fh clockwise width height i =
     (let x = i mod width; y = i div width;
          (ow, oh) = (if clockwise = 90 \<or> clockwise = 270 then (fh, fw) else (fw, fh));
          ox = x * ow div width; oy = y * oh div height;
          (sx, sy) =
            (if clockwise = 0 then (ox, oy)
             else if clockwise = 90 then (oy, fh - 1 - ox)
             else if clockwise = 180 then (fw - 1 - ox, fh - 1 - oy)
             else (fw - 1 - oy, ox))
      in sy * fw + sx)"

(* @src crates/sensor-media/src/lib.rs:227-267 rotate_scale_bgra *)
definition rotate_scale_bgra :: "bgra_frame \<Rightarrow> nat \<Rightarrow> nat \<Rightarrow> nat \<Rightarrow> media_error + bgra_frame" where
  "rotate_scale_bgra frame clockwise width height =
     res_bind (pixels (bf_width frame) (bf_height frame)) (\<lambda>count.
       if length (bf_bytes frame) \<noteq> count * 4 \<or> clockwise \<notin> set [0, 90, 180, 270] then Inl ME_Frame
       else res_bind (pixels width height) (\<lambda>count.
         if clockwise = 0 \<and> width = bf_width frame \<and> height = bf_height frame then Inr frame
         else Inr \<lparr>bf_width = width, bf_height = height,
           bf_bytes = concat (map (\<lambda>i. px (bf_bytes frame)
             (source_index (bf_width frame) (bf_height frame) clockwise width height i)) [0..<count])\<rparr>))"

definition bgra_ok :: "bgra_frame \<Rightarrow> bool" where
  "bgra_ok f \<longleftrightarrow> is_ok (pixels (bf_width f) (bf_height f)) \<and>
     length (bf_bytes f) = bf_width f * bf_height f * 4"

lemma scaled_less: "x < w \<Longrightarrow> 0 < o' \<Longrightarrow> x * o' div w < (o' :: nat)"
  by (metis less_mult_imp_div_less mult.commute mult_less_mono1)

lemma row_major_less: "sx < fw \<Longrightarrow> sy < fh \<Longrightarrow> sy * fw + sx < fw * (fh :: nat)"
proof -
  assume a: "sx < fw" "sy < fh"
  then have "sy * fw + sx < (sy + 1) * fw"
    by simp
  also have "\<dots> \<le> fh * fw"
    using a by (intro mult_right_mono) auto
  finally show ?thesis
    by (simp add: mult.commute)
qed

lemma source_index_less:
  assumes "0 < fw" and "0 < fh" and "0 < w" and "0 < h" and "i < w * h"
    and "cw \<in> {0, 90, 180, 270}"
  shows "source_index fw fh cw w h i < fw * fh"
proof -
  have "i mod w < w" "i div w < h"
    using assms by (simp_all add: less_mult_imp_div_less mult.commute)
  then have "i mod w * fw div w < fw" "i mod w * fh div w < fh"
    "i div w * fw div h < fw" "i div w * fh div h < fh"
    using assms by (simp_all add: scaled_less)
  then have "(i div w * fh div h) * fw + i mod w * fw div w < fw * fh"
    "(fh - 1 - i mod w * fh div w) * fw + i div w * fw div h < fw * fh"
    "(fh - 1 - i div w * fh div h) * fw + (fw - 1 - i mod w * fw div w) < fw * fh"
    "i mod w * fh div w * fw + (fw - 1 - i div w * fw div h) < fw * fh"
    by - (insert assms(1,2), (rule row_major_less; simp)+)
  then show ?thesis
    using assms(6) by (auto simp: source_index_def Let_def)
qed

lemma rotate_scale_ok:
  assumes "bgra_ok f" and "cw \<in> {0, 90, 180, 270}" and "is_ok (pixels w h)"
  shows "\<exists>g. rotate_scale_bgra f cw w h = Inr g \<and> bf_width g = w \<and> bf_height g = h \<and> bgra_ok g \<and>
    (\<forall>i < w * h. px (bf_bytes g) i = px (bf_bytes f) (source_index (bf_width f) (bf_height f) cw w h i))"
proof -
  let ?s = "source_index (bf_width f) (bf_height f) cw w h"
  let ?n = "bf_width f * bf_height f"
  have dims: "0 < bf_width f" "0 < bf_height f" "0 < w" "0 < h"
    using assms by (auto simp: bgra_ok_def is_ok_iff pixels_Inr_iff)
  have px1: "pixels (bf_width f) (bf_height f) = Inr ?n" and px2: "pixels w h = Inr (w * h)"
    using assms by (auto simp: bgra_ok_def is_ok_iff pixels_Inr_iff)
  have len: "length (bf_bytes f) = 4 * ?n"
    using assms(1) by (simp add: bgra_ok_def)
  have pl: "length (px (bf_bytes f) (?s i)) = 4" if "i < w * h" for i
    using length_px [OF len] source_index_less [OF dims that] assms(2) by simp
  show ?thesis
  proof (cases "cw = 0 \<and> w = bf_width f \<and> h = bf_height f")
    case True
    then have "?s i = i" if "i < w * h" for i
      using dims by (simp add: source_index_def Let_def)
    then show ?thesis
      using True assms(1) px1 by (auto simp: rotate_scale_bgra_def bgra_ok_def)
  next
    case False
    let ?b = "concat (map (\<lambda>i. px (bf_bytes f) (?s i)) [0..<w * h])"
    have "length (concat (map (\<lambda>i. px (bf_bytes f) (?s i)) [0..<k])) = 4 * k" if "k \<le> w * h" for k
      using that pl by (induction k) auto
    then have "length ?b = w * h * 4"
      by simp
    then show ?thesis
      using False assms px1 px2 len pl px_concat [of "w * h" "\<lambda>i. px (bf_bytes f) (?s i)"]
      by (auto simp: rotate_scale_bgra_def bgra_ok_def)
  qed
qed

lemma source_index_exact:
  "0 < w \<Longrightarrow> 0 < h \<Longrightarrow> source_index w h 0 w h i = i div w * w + i mod w"
  "0 < w \<Longrightarrow> 0 < h \<Longrightarrow> source_index w h 90 h w i = (h - 1 - i mod h) * w + i div h"
  "0 < w \<Longrightarrow> 0 < h \<Longrightarrow> source_index w h 180 w h i = (h - 1 - i div w) * w + (w - 1 - i mod w)"
  "0 < w \<Longrightarrow> 0 < h \<Longrightarrow> source_index w h 270 h w i = i mod h * w + (w - 1 - i div h)"
  by (simp_all add: source_index_def Let_def)

lemma row_major_div: "x < w \<Longrightarrow> (y * w + x) div w = (y :: nat)"
  and row_major_mod: "x < w \<Longrightarrow> (y * w + x) mod w = (x :: nat)"
  by simp_all

lemma quarter_turns:
  assumes "0 < w" and "0 < h" and "i < w * h"
  shows "source_index w h 90 h w (source_index h w 270 w h i) = i"
    and "source_index w h 180 w h (source_index w h 180 w h i) = i"
proof -
  have i: "i mod w < w" "i div w < h" "i div w * w + i mod w = i"
    using assms by (simp_all add: less_mult_imp_div_less mult.commute)
  have "source_index h w 270 w h i = i mod w * h + (h - 1 - i div w)"
    using source_index_exact(4) [of h w i] assms by simp
  then show "source_index w h 90 h w (source_index h w 270 w h i) = i"
    using source_index_exact(2) [of w h] assms i row_major_div [of "h - 1 - i div w" h "i mod w"]
      row_major_mod [of "h - 1 - i div w" h "i mod w"] by simp
  have "source_index w h 180 w h i = (h - 1 - i div w) * w + (w - 1 - i mod w)"
    using source_index_exact(3) assms by simp
  then show "source_index w h 180 w h (source_index w h 180 w h i) = i"
    using source_index_exact(3) [of w h] assms i row_major_div [of "w - 1 - i mod w" w "h - 1 - i div w"]
      row_major_mod [of "w - 1 - i mod w" w "h - 1 - i div w"] by simp
qed

lemma bgra_eqI:
  assumes "bgra_ok f" and "bgra_ok g" and "bf_width g = bf_width f" and "bf_height g = bf_height f"
    and "\<forall>i < bf_width f * bf_height f. px (bf_bytes g) i = px (bf_bytes f) i"
  shows "g = f"
proof -
  let ?n = "bf_width f * bf_height f"
  have "bf_bytes g = concat (map (px (bf_bytes g)) [0..<?n])"
    using assms by (intro concat_px [symmetric]) (simp add: bgra_ok_def)
  also have "\<dots> = concat (map (px (bf_bytes f)) [0..<?n])"
    using assms(5) by (auto intro!: arg_cong [where f = concat])
  also have "\<dots> = bf_bytes f"
    using assms by (intro concat_px) (simp add: bgra_ok_def)
  finally show ?thesis
    using assms by (cases f; cases g) simp
qed

lemma pixels_swap: "is_ok (pixels w h) \<Longrightarrow> is_ok (pixels h w)"
  by (auto simp: is_ok_iff pixels_Inr_iff mult.commute)

text \<open>Rotation never reads outside the frame and loses nothing: turning a valid frame by 90 degrees
  and back by 270, or twice by 180, gives the frame back, pixel for pixel.\<close>

theorem rotation_undone:
  assumes "bgra_ok f"
  shows "res_bind (rotate_scale_bgra f 90 (bf_height f) (bf_width f)) (\<lambda>g.
      rotate_scale_bgra g 270 (bf_width f) (bf_height f)) = Inr f \<and>
    res_bind (rotate_scale_bgra f 180 (bf_width f) (bf_height f)) (\<lambda>g.
      rotate_scale_bgra g 180 (bf_width f) (bf_height f)) = Inr f"
proof -
  let ?w = "bf_width f" and ?h = "bf_height f"
  have ok: "is_ok (pixels ?w ?h)" "is_ok (pixels ?h ?w)" and dims: "0 < ?w" "0 < ?h"
    using assms pixels_swap by (auto simp: bgra_ok_def is_ok_iff pixels_Inr_iff)
  obtain g where g: "rotate_scale_bgra f 90 ?h ?w = Inr g" "bf_width g = ?h" "bf_height g = ?w" "bgra_ok g"
    "\<forall>i < ?h * ?w. px (bf_bytes g) i = px (bf_bytes f) (source_index ?w ?h 90 ?h ?w i)"
    using rotate_scale_ok [OF assms _ ok(2), of 90] by auto
  obtain k where k: "rotate_scale_bgra g 270 ?w ?h = Inr k" "bf_width k = ?w" "bf_height k = ?h" "bgra_ok k"
    "\<forall>i < ?w * ?h. px (bf_bytes k) i = px (bf_bytes g) (source_index ?h ?w 270 ?w ?h i)"
    using rotate_scale_ok [OF g(4) _ ok(1), of 270] g by auto
  have "k = f"
    using g(5) k(2-5) quarter_turns(1) [OF dims] source_index_less [OF dims(2,1) dims]
    by (intro bgra_eqI [OF assms]) auto
  then have quarter: "res_bind (rotate_scale_bgra f 90 ?h ?w) (\<lambda>g. rotate_scale_bgra g 270 ?w ?h) = Inr f"
    using g(1) k(1) by simp
  obtain g where g: "rotate_scale_bgra f 180 ?w ?h = Inr g" "bf_width g = ?w" "bf_height g = ?h" "bgra_ok g"
    "\<forall>i < ?w * ?h. px (bf_bytes g) i = px (bf_bytes f) (source_index ?w ?h 180 ?w ?h i)"
    using rotate_scale_ok [OF assms _ ok(1), of 180] by auto
  obtain k where k: "rotate_scale_bgra g 180 ?w ?h = Inr k" "bf_width k = ?w" "bf_height k = ?h" "bgra_ok k"
    "\<forall>i < ?w * ?h. px (bf_bytes k) i = px (bf_bytes g) (source_index ?w ?h 180 ?w ?h i)"
    using rotate_scale_ok [OF g(4) _ ok(1), of 180] g by auto
  have "k = f"
    using g(5) k(2-5) quarter_turns(2) [OF dims] source_index_less [OF dims dims]
    by (intro bgra_eqI [OF assms]) auto
  then have "res_bind (rotate_scale_bgra f 180 ?w ?h) (\<lambda>g. rotate_scale_bgra g 180 ?w ?h) = Inr f"
    using g(1) k(1) by simp
  with quarter show ?thesis ..
qed

definition demo_frame :: bgra_frame where
  "demo_frame = \<lparr>bf_width = 2, bf_height = 1, bf_bytes = [1, 2, 3, 4, 5, 6, 7, 8]\<rparr>"

lemma rotation_undone_witness:
  "res_bind (rotate_scale_bgra demo_frame 90 1 2) (\<lambda>g. rotate_scale_bgra g 270 2 1) = Inr demo_frame"
  using rotation_undone [of demo_frame]
  by (simp add: demo_frame_def bgra_ok_def is_ok_iff pixels_Inr_iff)

subsection \<open>BGRA to NV12\<close>

definition u8_of :: "int \<Rightarrow> u8" where
  "u8_of v = word_of_int (clamp_int 0 255 v)"

(* @src crates/sensor-media/src/lib.rs:279-280 bgra_to_nv12: luma *)
definition luma_of :: "int \<Rightarrow> int \<Rightarrow> int \<Rightarrow> u8" where
  "luma_of b g r = u8_of ((66 * r + 129 * g + 25 * b + 128) div 256 + 16)"

(* @src crates/sensor-media/src/lib.rs:296-297 bgra_to_nv12: chroma *)
definition chroma_of :: "int \<Rightarrow> int \<Rightarrow> int \<Rightarrow> bytes" where
  "chroma_of b g r =
     [u8_of ((- 38 * r - 74 * g + 112 * b + 128) div 256 + 128),
      u8_of ((112 * r - 94 * g - 18 * b + 128) div 256 + 128)]"

definition channel :: "bytes \<Rightarrow> nat \<Rightarrow> nat \<Rightarrow> int" where
  "channel bs pixel c = uint (bs ! (pixel * 4 + c))"

text \<open>The mean of a channel over a 2 by 2 block.\<close>

(* @src crates/sensor-media/src/lib.rs:285-294 bgra_to_nv12: block mean *)
definition block_mean :: "bytes \<Rightarrow> nat \<Rightarrow> nat \<Rightarrow> nat \<Rightarrow> nat \<Rightarrow> int" where
  "block_mean bs w x y c =
     (\<Sum>(dx, dy) \<leftarrow> [(0, 0), (1, 0), (0, 1), (1, 1)]. channel bs ((y + dy) * w + x + dx) c) div 4"

(* @src crates/sensor-media/src/lib.rs:269-301 bgra_to_nv12 *)
definition bgra_to_nv12 :: "bgra_frame \<Rightarrow> media_error + bytes" where
  "bgra_to_nv12 f =
     res_bind (pixels (bf_width f) (bf_height f)) (\<lambda>count.
       if bf_width f mod 2 \<noteq> 0 \<or> bf_height f mod 2 \<noteq> 0 \<or> length (bf_bytes f) \<noteq> count * 4
       then Inl ME_Frame
       else
         (let bs = bf_bytes f; w = bf_width f in
          Inr (map (\<lambda>i. luma_of (channel bs i 0) (channel bs i 1) (channel bs i 2)) [0..<count]
               @ concat (map (\<lambda>y. concat (map (\<lambda>x.
                   chroma_of (block_mean bs w (2 * x) (2 * y) 0) (block_mean bs w (2 * x) (2 * y) 1)
                     (block_mean bs w (2 * x) (2 * y) 2)) [0..<w div 2])) [0..<bf_height f div 2]))))"

definition byte_range :: "int \<Rightarrow> bool" where
  "byte_range v \<longleftrightarrow> 0 \<le> v \<and> v \<le> 255"

lemma channel_range: "byte_range (channel bs i c)"
  using uint_lt2p [of "bs ! (i * 4 + c)"] by (simp add: byte_range_def channel_def)

lemma mean4_range:
  "byte_range a \<Longrightarrow> byte_range b \<Longrightarrow> byte_range c \<Longrightarrow> byte_range d \<Longrightarrow>
     byte_range ((a + (b + (c + d))) div 4)"
proof -
  assume r: "byte_range a" "byte_range b" "byte_range c" "byte_range d"
  define s where "s = a + (b + (c + d))"
  have "0 \<le> s" "s \<le> 1020"
    using r by (auto simp: byte_range_def s_def)
  then have "0 \<le> s div 4" "s div 4 \<le> 255"
    using zdiv_mono1 [of s 1020 4] by simp_all
  then show ?thesis
    by (simp add: byte_range_def s_def)
qed

lemma block_mean_range: "byte_range (block_mean bs w x y c)"
  unfolding block_mean_def by (simp add: mean4_range channel_range)

lemma uint_u8_of: "0 \<le> v \<Longrightarrow> v \<le> 255 \<Longrightarrow> uint (u8_of v) = v"
  by (simp add: u8_of_def clamp_int_id uint_word_of_int)

lemma luma_of_range:
  assumes "byte_range b" and "byte_range g" and "byte_range r"
  shows "16 \<le> uint (luma_of b g r) \<and> uint (luma_of b g r) \<le> 235"
proof -
  have "0 \<le> (66 * r + 129 * g + 25 * b + 128) div 256" "(66 * r + 129 * g + 25 * b + 128) div 256 \<le> 219"
    using assms by (auto simp: byte_range_def)
  then show ?thesis
    by (simp add: luma_of_def uint_u8_of)
qed

lemma chroma_of_range:
  assumes "byte_range b" and "byte_range g" and "byte_range r"
  shows "\<forall>v \<in> set (chroma_of b g r). 16 \<le> uint v \<and> uint v \<le> 240"
proof -
  have "- 112 \<le> (- 38 * r - 74 * g + 112 * b + 128) div 256" "(- 38 * r - 74 * g + 112 * b + 128) div 256 \<le> 112"
    "- 112 \<le> (112 * r - 94 * g - 18 * b + 128) div 256" "(112 * r - 94 * g - 18 * b + 128) div 256 \<le> 112"
    using assms by (auto simp: byte_range_def)
  then show ?thesis
    by (simp add: chroma_of_def uint_u8_of)
qed

lemma bgra_to_nv12_Inr:
  assumes "bgra_to_nv12 f = Inr out"
  shows "length out = bf_width f * bf_height f * 3 div 2"
    and "\<forall>v \<in> set (take (bf_width f * bf_height f) out). 16 \<le> uint v \<and> uint v \<le> 235"
    and "\<forall>v \<in> set (drop (bf_width f * bf_height f) out). 16 \<le> uint v \<and> uint v \<le> 240"
proof -
  let ?w = "bf_width f" and ?h = "bf_height f" and ?bs = "bf_bytes f"
  define luma where "luma = map (\<lambda>i. luma_of (channel ?bs i 0) (channel ?bs i 1) (channel ?bs i 2)) [0..<?w * ?h]"
  define chroma where "chroma = concat (map (\<lambda>y. concat (map (\<lambda>x.
      chroma_of (block_mean ?bs ?w (2 * x) (2 * y) 0) (block_mean ?bs ?w (2 * x) (2 * y) 1)
        (block_mean ?bs ?w (2 * x) (2 * y) 2)) [0..<?w div 2])) [0..<?h div 2])"
  have out: "out = luma @ chroma" and even: "even ?w" "even ?h"
    using assms
    by (auto simp: bgra_to_nv12_def res_simps pixels_Inr_iff Let_def luma_def chroma_def
        even_iff_mod_2_eq_zero split: if_splits)
  have lens: "length luma = ?w * ?h" "length chroma = ?h div 2 * (?w div 2 * 2)"
    by (simp_all add: luma_def chroma_def length_concat comp_def chroma_of_def sum_list_triv)
  then show "length out = ?w * ?h * 3 div 2"
    using out even by (auto elim!: evenE)
  have "\<forall>v \<in> set luma. 16 \<le> uint v \<and> uint v \<le> 235"
    using luma_of_range channel_range by (auto simp: luma_def)
  then show "\<forall>v \<in> set (take (?w * ?h) out). 16 \<le> uint v \<and> uint v \<le> 235"
    using out lens by simp
  have "\<forall>v \<in> set chroma. 16 \<le> uint v \<and> uint v \<le> 240"
    using chroma_of_range [OF block_mean_range block_mean_range block_mean_range]
    unfolding chroma_def by fastforce
  then show "\<forall>v \<in> set (drop (?w * ?h) out). 16 \<le> uint v \<and> uint v \<le> 240"
    using out lens by simp
qed

text \<open>The encoder's input is legal video: converting a frame to NV12 gives a luma plane of one byte
  for each pixel in 16..235 followed by an interleaved chroma plane of half that size in 16..240, for
  every input; the clamps of the code never change a value.\<close>

theorem nv12_legal_range:
  assumes "bgra_to_nv12 f = Inr out"
  shows "length out = bf_width f * bf_height f * 3 div 2 \<and>
    (\<forall>v \<in> set (take (bf_width f * bf_height f) out). 16 \<le> uint v \<and> uint v \<le> 235) \<and>
    (\<forall>v \<in> set (drop (bf_width f * bf_height f) out). 16 \<le> uint v \<and> uint v \<le> 240)"
  using bgra_to_nv12_Inr [OF assms] by blast

definition demo_square :: bgra_frame where
  "demo_square = \<lparr>bf_width = 2, bf_height = 2,
     bf_bytes = [255, 0, 0, 0, 0, 255, 0, 0, 0, 0, 255, 0, 255, 255, 255, 0]\<rparr>"

lemma nv12_legal_range_witness:
  "\<exists>out. bgra_to_nv12 demo_square = Inr out \<and> length out = 6 \<and>
     (\<forall>v \<in> set (take 4 out). 16 \<le> uint v \<and> uint v \<le> 235)"
proof -
  obtain out where out: "bgra_to_nv12 demo_square = Inr out"
    by (auto simp: bgra_to_nv12_def demo_square_def pixels_def MAX_WIDTH_def MAX_HEIGHT_def
        MAX_PIXELS_def Let_def)
  from nv12_legal_range [OF this] out show ?thesis
    by (auto simp: demo_square_def)
qed

subsection \<open>NV12 to RGBA, scalar\<close>

(* @src crates/sensor-media/src/lib.rs:350-358 nv12_to_rgba_padded: one pixel *)
definition rgba_pixel :: "u8 \<Rightarrow> u8 \<Rightarrow> u8 \<Rightarrow> bytes" where
  "rgba_pixel luma u v =
     (let c = max (uint luma - 16) 0; d = uint u - 128; e = uint v - 128
      in [u8_of ((298 * c + 409 * e + 128) div 256),
          u8_of ((298 * c - 100 * d - 208 * e + 128) div 256),
          u8_of ((298 * c + 516 * d + 128) div 256), 255])"

(* @src crates/sensor-media/src/lib.rs:349-359 nv12_to_rgba_padded: the scalar part of a row *)
definition rgba_row :: "bytes \<Rightarrow> bytes \<Rightarrow> nat \<Rightarrow> nat \<Rightarrow> bytes" where
  "rgba_row y uv start width =
     concat (map (\<lambda>x. rgba_pixel (y ! x) (uv ! (x div 2 * 2)) (uv ! (x div 2 * 2 + 1))) [start..<width])"

subsection \<open>NV12 to RGBA, eight pixels at a time\<close>

type_synonym lane = "32 word"

definition mm_max :: "lane \<Rightarrow> lane \<Rightarrow> lane" where
  "mm_max a b = (if sint a < sint b then b else a)"

definition mm_min :: "lane \<Rightarrow> lane \<Rightarrow> lane" where
  "mm_min a b = (if sint b < sint a then b else a)"

definition clamp_lane :: "lane \<Rightarrow> lane" where
  "clamp_lane a = mm_min 255 (mm_max 0 (signed_drop_bit 8 a))"

text \<open>One lane of the vector code: widening, saturation at zero, the three dot products with 32-bit
  wrap-around, the clamps, and the packing of the four bytes into one word.\<close>

(* @src crates/sensor-media/src/pixels_avx2.rs:14-81 row: one lane *)
definition avx_lane :: "u8 \<Rightarrow> u8 \<Rightarrow> u8 \<Rightarrow> lane" where
  "avx_lane y u v =
     (let c = mm_max 0 (ucast y - 16); d = ucast u - 128; e = ucast v - 128;
          luma = c * 298 + 128;
          r = clamp_lane (luma + e * 409);
          g = clamp_lane (luma - d * 100 - e * 208);
          b = clamp_lane (luma + d * 516)
      in (r OR push_bit 8 g) OR (push_bit 16 b OR 0xff000000))"

definition store_lane :: "lane \<Rightarrow> bytes" where
  "store_lane p = [ucast p, ucast (drop_bit 8 p), ucast (drop_bit 16 p), ucast (drop_bit 24 p)]"

text \<open>Eight lanes at \<open>x\<close>; two neighbours share their chroma pair.\<close>

(* @src crates/sensor-media/src/pixels_avx2.rs:13-83 row: eight pixels *)
definition avx_group :: "bytes \<Rightarrow> bytes \<Rightarrow> nat \<Rightarrow> bytes" where
  "avx_group y uv x =
     (let d = [uv ! x, uv ! x, uv ! (x + 2), uv ! (x + 2), uv ! (x + 4), uv ! (x + 4), uv ! (x + 6), uv ! (x + 6)];
          e = [uv ! (x + 1), uv ! (x + 1), uv ! (x + 3), uv ! (x + 3), uv ! (x + 5), uv ! (x + 5),
               uv ! (x + 7), uv ! (x + 7)]
      in concat (map (\<lambda>j. store_lane (avx_lane (y ! (x + j)) (d ! j) (e ! j))) [0..<8]))"

(* @src crates/sensor-media/src/pixels_avx2.rs:5-86 row *)
definition avx_row :: "bytes \<Rightarrow> bytes \<Rightarrow> bytes \<times> nat" where
  "avx_row y uv =
     (let n = length y div 8 * 8
      in (concat (map (\<lambda>k. avx_group y uv (8 * k)) [0..<length y div 8]), n))"

lemma sint_lane: "- 2147483648 \<le> v \<Longrightarrow> v < 2147483648 \<Longrightarrow> sint (word_of_int v :: lane) = v"
  by (simp add: sint_sbintrunc' signed_take_bit_int_eq_self)

lemma clamp_lane_of_int:
  assumes "- 2147483648 \<le> v" and "v < 2147483648"
  shows "clamp_lane (word_of_int v) = word_of_int (clamp_int 0 255 (v div 256))"
proof -
  have s: "sint (signed_drop_bit 8 (word_of_int v :: lane)) = v div 256"
    using sint_lane [OF assms] by (simp add: sint_signed_drop_bit_eq drop_bit_eq_div)
  have w: "signed_drop_bit 8 (word_of_int v :: lane) = word_of_int (v div 256)"
    unfolding s [symmetric] by simp
  have "sint (255 :: lane) = 255" "sint (0 :: lane) = 0"
    using sint_lane [of 255] by simp_all
  then show ?thesis
    using s w by (auto simp: clamp_lane_def mm_min_def mm_max_def clamp_int_def)
qed

lemma ucast_lane: "ucast (y :: u8) = (word_of_int (uint y) :: lane)"
  by (rule ucast_eq)

lemma mm_max_luma: "mm_max 0 (ucast (y :: u8) - 16) = (word_of_int (max (uint y - 16) 0) :: lane)"
proof -
  have y: "0 \<le> uint y" "uint y < 256"
    using uint_lt2p [of y] by simp_all
  have w: "ucast y - 16 = (word_of_int (uint y - 16) :: lane)"
    by simp
  have "sint (word_of_int (uint y - 16) :: lane) = uint y - 16"
    using y by (intro sint_lane) auto
  then show ?thesis
    unfolding w mm_max_def by (simp add: max_def)
qed

lemma byte_bit: "0 \<le> v \<Longrightarrow> v \<le> 255 \<Longrightarrow> bit (v :: int) n \<Longrightarrow> n < 8"
proof -
  assume v: "0 \<le> v" "v \<le> 255" and b: "bit v n"
  have "take_bit 8 v = v"
    using v by (simp add: take_bit_int_eq_self)
  then have "bit (take_bit 8 v) n"
    using b by simp
  then show ?thesis
    by (simp add: bit_take_bit_iff)
qed

lemma store_packed:
  assumes "0 \<le> r" "r \<le> 255" "0 \<le> g" "g \<le> 255" "0 \<le> b" "b \<le> 255"
  shows "store_lane ((word_of_int r OR push_bit 8 (word_of_int g)) OR
      (push_bit 16 (word_of_int b) OR 0xff000000)) = [word_of_int r, word_of_int g, word_of_int b, 255]"
proof -
  have hi: "\<not> bit v (8 + n)" "\<not> bit v (16 + n)" "\<not> bit v (24 + n)"
    if "0 \<le> v" "v \<le> 255" for v :: int and n
    using byte_bit [OF that, of "8 + n"] byte_bit [OF that, of "16 + n"] byte_bit [OF that, of "24 + n"]
    by auto
  have mask: "(0xff000000 :: lane) = push_bit 24 (mask 8)" "(255 :: u8) = mask 8"
    by (simp_all add: mask_eq_exp_minus_1 push_bit_eq_mult)
  show ?thesis
    unfolding store_lane_def mask
    by (auto intro!: bit_word_eqI simp: bit_simps hi assms)
qed

lemma avx_lane_scalar: "store_lane (avx_lane y u v) = rgba_pixel y u v"
proof -
  define c d e where "c = max (uint y - 16) 0" and "d = uint u - 128" and "e = uint v - 128"
  have c: "0 \<le> c" "c \<le> 239" and d: "- 128 \<le> d" "d \<le> 127" and e: "- 128 \<le> e" "e \<le> 127"
    using uint_lt2p [of y] uint_lt2p [of u] uint_lt2p [of v] by (auto simp: c_def d_def e_def)
  have ws: "mm_max 0 (ucast y - 16) = (word_of_int c :: lane)" "ucast u - 128 = (word_of_int d :: lane)"
    "ucast v - 128 = (word_of_int e :: lane)"
    by (simp_all add: mm_max_luma c_def d_def e_def)
  have r: "clamp_lane (word_of_int c * 298 + 128 + word_of_int e * 409) =
      word_of_int (clamp_int 0 255 ((298 * c + 409 * e + 128) div 256))"
    using clamp_lane_of_int [of "298 * c + 409 * e + 128"] c e by (simp add: algebra_simps)
  have g: "clamp_lane (word_of_int c * 298 + 128 - word_of_int d * 100 - word_of_int e * 208) =
      word_of_int (clamp_int 0 255 ((298 * c - 100 * d - 208 * e + 128) div 256))"
    using clamp_lane_of_int [of "298 * c - 100 * d - 208 * e + 128"] c d e by (simp add: algebra_simps)
  have b: "clamp_lane (word_of_int c * 298 + 128 + word_of_int d * 516) =
      word_of_int (clamp_int 0 255 ((298 * c + 516 * d + 128) div 256))"
    using clamp_lane_of_int [of "298 * c + 516 * d + 128"] c d by (simp add: algebra_simps)
  have cl: "0 \<le> clamp_int 0 255 x" "clamp_int 0 255 x \<le> 255" for x
    using clamp_int_bounds [of 0 255 x] by auto
  show ?thesis
    unfolding avx_lane_def Let_def ws r g b store_packed [OF cl cl cl]
    by (simp add: rgba_pixel_def Let_def u8_of_def c_def d_def e_def)
qed

lemma avx_group_scalar: "avx_group y uv (8 * k) = rgba_row y uv (8 * k) (8 * k + 8)"
proof -
  have upt: "[8 * k..<8 * k + 8] = map (\<lambda>j. 8 * k + j) [0..<8]"
    by (simp add: map_add_upt add.commute)
  have sucs: "8 * k + 3 = Suc (Suc (Suc (8 * k)))" "8 * k + 4 = Suc (Suc (Suc (Suc (8 * k))))"
    "8 * k + 5 = Suc (Suc (Suc (Suc (Suc (8 * k)))))"
    "8 * k + 6 = Suc (Suc (Suc (Suc (Suc (Suc (8 * k))))))"
    "8 * k + 7 = Suc (Suc (Suc (Suc (Suc (Suc (Suc (8 * k)))))))"
    by simp_all
  show ?thesis
    unfolding rgba_row_def upt by (simp add: avx_group_def avx_lane_scalar upt_rec) (simp only: sucs)
qed

lemma rgba_row_append:
  "a \<le> b \<Longrightarrow> b \<le> c \<Longrightarrow> rgba_row y uv a b @ rgba_row y uv b c = rgba_row y uv a c"
proof -
  assume "a \<le> b" "b \<le> c"
  then have "[a..<c] = [a..<b] @ [b..<c]"
    by (metis le_add_diff_inverse upt_add_eq_append)
  then show ?thesis
    by (simp add: rgba_row_def)
qed

lemma avx_row_scalar: "avx_row y uv = (rgba_row y uv 0 (length y div 8 * 8), length y div 8 * 8)"
proof -
  have "concat (map (\<lambda>k. avx_group y uv (8 * k)) [0..<n]) = rgba_row y uv 0 (8 * n)" for n
  proof (induction n)
    case (Suc n)
    then show ?case
      using rgba_row_append [of 0 "8 * n" "8 * n + 8" y uv] avx_group_scalar [of y uv n]
      by (simp add: add.commute)
  qed (simp add: rgba_row_def)
  then show ?thesis
    by (simp add: avx_row_def mult.commute)
qed

text \<open>The whole conversion; \<open>avx2\<close> is the result of the run-time feature test.\<close>

(* @src crates/sensor-media/src/lib.rs:335-360 nv12_to_rgba_padded: one row *)
definition nv12_row :: "bool \<Rightarrow> bytes \<Rightarrow> nat \<Rightarrow> nat \<Rightarrow> nat \<Rightarrow> nat \<Rightarrow> bytes" where
  "nv12_row avx2 bs width stride storage_height y =
     (let luma = take width (drop (y * stride) bs);
          chroma = take width (drop (stride * storage_height + y div 2 * stride) bs);
          (done, start) = (if avx2 then avx_row luma chroma else ([], 0))
      in done @ rgba_row luma chroma start width)"

(* @src crates/sensor-media/src/lib.rs:312-366 nv12_to_rgba_padded *)
definition nv12_to_rgba_padded ::
  "bool \<Rightarrow> bytes \<Rightarrow> nat \<Rightarrow> nat \<Rightarrow> nat \<Rightarrow> nat \<Rightarrow> media_error + decoded_frame" where
  "nv12_to_rgba_padded avx2 bs width height stride storage_height =
     res_bind (pixels width height) (\<lambda>count.
       if width mod 2 \<noteq> 0 \<or> height mod 2 \<noteq> 0 \<or> stride < width \<or> stride > MAX_WIDTH * 4
          \<or> storage_height < height \<or> storage_height > MAX_HEIGHT \<or> storage_height mod 2 \<noteq> 0
          \<or> length bs < stride * storage_height * 3 div 2
       then Inl ME_Frame
       else Inr \<lparr>df_width = width, df_height = height,
         df_rgba = concat (map (nv12_row avx2 bs width stride storage_height) [0..<height])\<rparr>)"

(* @src crates/sensor-media/src/lib.rs:303-310 nv12_to_rgba *)
definition nv12_to_rgba :: "bool \<Rightarrow> bytes \<Rightarrow> nat \<Rightarrow> nat \<Rightarrow> nat \<Rightarrow> media_error + decoded_frame" where
  "nv12_to_rgba avx2 bs width height stride = nv12_to_rgba_padded avx2 bs width height stride height"

lemma nv12_row_planes:
  assumes "width \<le> stride" and "y < storage_height" and "even storage_height"
    and "stride * storage_height * 3 div 2 \<le> length bs"
  shows "length (take width (drop (y * stride) bs)) = width"
    and "length (take width (drop (stride * storage_height + y div 2 * stride) bs)) = width"
proof -
  obtain k where k: "storage_height = 2 * k"
    using assms(3) by (auto elim: evenE)
  have tot: "stride * storage_height * 3 div 2 = stride * storage_height + k * stride"
    by (simp add: k)
  have "y div 2 + 1 \<le> k"
    using assms(2) k by simp
  then have "(y div 2 + 1) * stride \<le> k * stride"
    by (rule mult_right_mono) simp
  moreover have "(y + 1) * stride \<le> storage_height * stride"
    using assms(2) by (intro mult_right_mono) auto
  ultimately show "length (take width (drop (y * stride) bs)) = width"
    and "length (take width (drop (stride * storage_height + y div 2 * stride) bs)) = width"
    using assms(1,4) tot by (auto simp: mult.commute)
qed

lemma nv12_row_scalar:
  assumes "length (take width (drop (y * stride) bs)) = width"
  shows "nv12_row True bs width stride sh y = nv12_row False bs width stride sh y"
  using assms rgba_row_append [of 0 "width div 8 * 8" width]
  by (simp add: nv12_row_def avx_row_scalar Let_def div_times_less_eq_dividend)

text \<open>C37: The vector code is exact: converting a decoded frame with the AVX2 rows and with the scalar
  loop gives the same result for every buffer, size, stride and storage height, errors included, so
  the run-time feature test cannot change a picture.\<close>

theorem avx2_equals_scalar:
  "nv12_to_rgba_padded True bs width height stride sh = nv12_to_rgba_padded False bs width height stride sh"
proof (cases "\<exists>e. nv12_to_rgba_padded False bs width height stride sh = Inl e")
  case False
  have "nv12_row True bs width stride sh y = nv12_row False bs width stride sh y" if "y < height" for y
    using False that
    by (intro nv12_row_scalar nv12_row_planes(1) [of _ _ _ sh])
      (auto simp: nv12_to_rgba_padded_def res_bind_def even_iff_mod_2_eq_zero split: sum.splits if_splits)
  then have eq: "map (nv12_row True bs width stride sh) [0..<height] =
      map (nv12_row False bs width stride sh) [0..<height]"
    by simp
  show ?thesis
    by (simp only: nv12_to_rgba_padded_def eq)
qed (auto simp: nv12_to_rgba_padded_def res_bind_def split: sum.splits if_splits)

end
