(* ===== verification/Sensor_Float.thy ===== *)
theory Sensor_Float
  imports Sensor_Prelude
begin

section \<open>binary64 arithmetic on rational numbers\<close>

text \<open>
  The program computes stream sizes and pacing delays in \<open>f64\<close>. A product or quotient of two
  doubles is the exact result rounded to the nearest binary64 value, ties to even; the model keeps
  the value as a rational number and rounds after every operation. The lemmas bound the relative
  error of a rounding by \<open>2 ^ - 53\<close>.
\<close>

fun halvings :: "nat \<Rightarrow> rat \<Rightarrow> nat" where
  "halvings 0 x = 0"
| "halvings (Suc k) x = (if x < 2 then 0 else Suc (halvings k (x / 2)))"

fun doublings :: "nat \<Rightarrow> rat \<Rightarrow> nat" where
  "doublings 0 x = 0"
| "doublings (Suc k) x = (if 1 \<le> x then 0 else Suc (doublings k (2 * x)))"

text \<open>The distance of neighbouring doubles at a positive normal number.\<close>

definition f64_ulp :: "rat \<Rightarrow> rat" where
  "f64_ulp x =
     (if 1 \<le> x then 2 ^ halvings 1023 x / 2 ^ 52 else 1 / 2 ^ (52 + doublings 1022 x))"

definition round_even :: "rat \<Rightarrow> int" where
  "round_even x =
     (let n = \<lfloor>x\<rfloor>; r = x - of_int n
      in if r < 1 / 2 then n else if 1 / 2 < r then n + 1 else if even n then n else n + 1)"

definition f64_round :: "rat \<Rightarrow> rat" where
  "f64_round x = of_int (round_even (x / f64_ulp x)) * f64_ulp x"

lemma halvings_le: "1 \<le> x \<Longrightarrow> 2 ^ halvings k x \<le> x"
proof (induction k arbitrary: x)
  case (Suc k)
  then show ?case
    using Suc.IH [of "x / 2"] by auto
qed simp

lemma doublings_le: "1 / 2 ^ k \<le> x \<Longrightarrow> 1 \<le> x * 2 ^ doublings k x"
proof (induction k arbitrary: x)
  case (Suc k)
  then show ?case
    using Suc.IH [of "2 * x"] by (auto simp: field_simps)
qed simp

lemma f64_ulp_pos: "0 < f64_ulp x"
  by (simp add: f64_ulp_def)

lemma f64_ulp_le:
  assumes "1 / 2 ^ 1022 \<le> x"
  shows "f64_ulp x \<le> x / 2 ^ 52"
proof (cases "1 \<le> x")
  case True
  then show ?thesis
    using halvings_le [of x 1023] by (simp add: f64_ulp_def divide_right_mono)
next
  case False
  have "1 / 2 ^ doublings 1022 x \<le> x"
    using doublings_le [OF assms] by (simp add: field_simps)
  then show ?thesis
    using False by (simp add: f64_ulp_def power_add field_simps)
qed

lemma round_even_error: "\<bar>of_int (round_even x) - x\<bar> \<le> 1 / 2"
proof -
  have "of_int \<lfloor>x\<rfloor> \<le> x" "x < of_int \<lfloor>x\<rfloor> + 1"
    by linarith+
  then show ?thesis
    by (auto simp: round_even_def Let_def abs_le_iff)
qed

lemma f64_round_error:
  assumes "1 / 2 ^ 1022 \<le> x"
  shows "\<bar>f64_round x - x\<bar> \<le> x / 2 ^ 53"
proof -
  let ?u = "f64_ulp x"
  have "f64_round x - x = (of_int (round_even (x / ?u)) - x / ?u) * ?u"
    using f64_ulp_pos [of x] by (simp add: f64_round_def algebra_simps)
  then have "\<bar>f64_round x - x\<bar> = \<bar>of_int (round_even (x / ?u)) - x / ?u\<bar> * ?u"
    using f64_ulp_pos [of x] by (simp add: abs_mult)
  also have "\<dots> \<le> 1 / 2 * ?u"
    using round_even_error [of "x / ?u"] f64_ulp_pos [of x] by (intro mult_right_mono) auto
  also have "\<dots> \<le> 1 / 2 * (x / 2 ^ 52)"
    using f64_ulp_le [OF assms] by (intro mult_left_mono) auto
  finally show ?thesis
    by simp
qed

lemma f64_round_upper:
  assumes "1 / 2 ^ 1022 \<le> x"
  shows "f64_round x \<le> x * (1 + 1 / 2 ^ 53)"
proof -
  have "f64_round x - x \<le> x / 2 ^ 53"
    using f64_round_error [OF assms] by (rule abs_le_D1)
  moreover have "x * (1 + 1 / 2 ^ 53) = x + x / 2 ^ 53"
    by (simp only: distrib_left mult_1_right times_divide_eq_right)
  ultimately show ?thesis
    by linarith
qed

lemma f64_round_lower:
  assumes "1 / 2 ^ 1022 \<le> x"
  shows "x / 2 \<le> f64_round x"
proof -
  have "0 < x"
    using assms by (rule less_le_trans [rotated]) simp
  moreover have "x - f64_round x \<le> x / 2 ^ 53"
    using abs_le_D2 [OF f64_round_error [OF assms]] by linarith
  moreover have "x / 2 ^ 53 \<le> x / 2"
    using calculation(1) by (intro divide_left_mono) simp_all
  ultimately show ?thesis
    by linarith
qed

end
