(* ===== verification/Sensor_Adaptive.thy ===== *)
theory Sensor_Adaptive
  imports Sensor_Media Sensor_Float
begin

section \<open>sensor-media: stream size, congestion control, flight window\<close>

text \<open>
  The size of the stream is computed in \<open>f64\<close>: the model rounds every quotient and product to the
  nearest binary64 value, ties to even, on rational numbers. \<open>Adaptive\<close> and \<open>FlightWindow\<close> follow
  the code's integer types: an addition or product that could leave its type is checked, so that an
  overflow (a panic of the checked build) is \<open>None\<close>; the lemmas show that it cannot happen, that the
  controller's target is a valid video format after every history of observations, that missing
  feedback never raises the rate, and that the window accounts exactly for the bytes in flight.
\<close>

subsection \<open>Stream size\<close>

(* @src crates/sensor-media/src/adaptive.rs:134-137 Adaptive::target: scale *)
definition fit_scale :: "rat \<Rightarrow> rat \<Rightarrow> nat \<Rightarrow> nat \<Rightarrow> rat" where
  "fit_scale w h width height =
     min (min (f64_round (w / of_nat width)) (f64_round (h / of_nat height))) 1"

(* @src crates/sensor-media/src/lib.rs:222-223 stream_size: one dimension *)
definition fit_dim :: "nat \<Rightarrow> rat \<Rightarrow> nat" where
  "fit_dim n scale = max (nat \<lfloor>f64_round (of_nat n * scale)\<rfloor> div 2 * 2) 16"

(* @src crates/sensor-media/src/lib.rs:213-225 stream_size *)
definition stream_size :: "nat \<Rightarrow> nat \<Rightarrow> media_error + (nat \<times> nat)" where
  "stream_size width height =
     res_bind (pixels width height) (\<lambda>_.
       if width < 16 \<or> height < 16 then Inl ME_Dimensions
       else (let scale = fit_scale 1920 1080 width height
             in Inr (fit_dim width scale, fit_dim height scale)))"

(* @src crates/sensor-media/src/lib.rs:131-133 VideoProfile::dimensions *)
definition profile_dimensions :: "video_profile \<Rightarrow> nat \<Rightarrow> nat \<Rightarrow> media_error + (nat \<times> nat)" where
  "profile_dimensions p width height = stream_size width height"

lemma fit_scale_bounds:
  assumes "16 \<le> width" "width \<le> 4096" "16 \<le> height" "height \<le> 4096" and "360 \<le> w" "360 \<le> h"
  shows "1 / 64 \<le> fit_scale w h width height" and "fit_scale w h width height \<le> 1"
    and "of_nat width * fit_scale w h width height \<le> w * (1 + 1 / 2 ^ 53)"
    and "of_nat height * fit_scale w h width height \<le> h * (1 + 1 / 2 ^ 53)"
proof -
  have quot: "1 / 32 \<le> v / of_nat n \<and> of_nat n * f64_round (v / of_nat n) \<le> v * (1 + 1 / 2 ^ 53) \<and>
      1 / 64 \<le> f64_round (v / of_nat n)" if "16 \<le> n" "n \<le> 4096" "360 \<le> v" for v :: rat and n
  proof -
    have n: "0 < (of_nat n :: rat)" "(of_nat n :: rat) \<le> 4096"
      using that by simp_all
    have "360 / 4096 \<le> v / of_nat n"
      using n that by (intro frac_le) auto
    moreover have "1 / 32 \<le> (360 / 4096 :: rat)"
      by simp
    ultimately have q: "1 / 32 \<le> v / of_nat n"
      by (rule order_trans [rotated])
    have small: "(1 :: rat) / 2 ^ 1022 \<le> 1 / 32"
      using power_increasing [of 5 1022 "2 :: rat"] by (intro divide_left_mono) simp_all
    have "f64_round (v / of_nat n) \<le> v / of_nat n * (1 + 1 / 2 ^ 53)"
      using q small by (intro f64_round_upper) linarith
    then have "of_nat n * f64_round (v / of_nat n) \<le> of_nat n * (v / of_nat n * (1 + 1 / 2 ^ 53))"
      using n by (intro mult_left_mono) auto
    moreover have "v / of_nat n / 2 \<le> f64_round (v / of_nat n)"
      using q small by (intro f64_round_lower) linarith
    moreover have "of_nat n * (v / of_nat n * (1 + 1 / 2 ^ 53)) = v * (1 + 1 / 2 ^ 53)"
      using n by simp
    moreover have "1 / 64 \<le> r" if "p / 2 \<le> r" "1 / 32 \<le> p" for p r :: rat
      using that by linarith
    ultimately show ?thesis
      using q by metis
  qed
  let ?s = "fit_scale w h width height"
  show "1 / 64 \<le> ?s" and "?s \<le> 1"
    using quot [of width w] quot [of height h] assms by (auto simp: fit_scale_def)
  have "of_nat width * ?s \<le> of_nat width * f64_round (w / of_nat width)"
    "of_nat height * ?s \<le> of_nat height * f64_round (h / of_nat height)"
    by (auto simp: fit_scale_def intro!: mult_left_mono)
  then show "of_nat width * ?s \<le> w * (1 + 1 / 2 ^ 53)" "of_nat height * ?s \<le> h * (1 + 1 / 2 ^ 53)"
    using quot [OF assms(1,2,5)] quot [OF assms(3,4,6)] order_trans by blast+
qed

lemma fit_dim_bounds:
  assumes "16 \<le> n" and "n \<le> 4096" and "1 / 64 \<le> s" and "s \<le> 1" and "16 \<le> m" and "m \<le> 4096"
    and "of_nat n * s \<le> of_nat m * (1 + 1 / 2 ^ 53)"
  shows "even (fit_dim n s)" and "16 \<le> fit_dim n s" and "fit_dim n s \<le> n" and "fit_dim n s \<le> m"
proof -
  let ?x = "of_nat n * s"
  have n: "(16 :: rat) \<le> of_nat n" "(of_nat n :: rat) \<le> 4096" and m: "(of_nat m :: rat) \<le> 4096"
    using assms by (metis of_nat_le_iff of_nat_numeral)+
  have "16 * (1 / 64) \<le> ?x"
    using n assms(3) by (intro mult_mono) auto
  then have x: "1 / 4 \<le> ?x"
    by simp
  moreover have "(1 :: rat) / 2 ^ 1022 \<le> 1 / 4"
    using power_increasing [of 2 1022 "2 :: rat"] by (intro divide_left_mono) simp_all
  ultimately have r: "f64_round ?x \<le> ?x * (1 + 1 / 2 ^ 53)"
    by (intro f64_round_upper) linarith
  have "?x \<le> of_nat n * 1"
    using assms(4) by (intro mult_left_mono) auto
  then have "?x * (1 + 1 / 2 ^ 53) \<le> of_nat n * (1 + 1 / 2 ^ 53)"
    by (intro mult_right_mono) auto
  moreover have step: "of_nat k * (1 + 1 / 2 ^ 53) * (1 + 1 / 2 ^ 53) < (of_nat k + 1 :: rat) \<and>
      of_nat k * (1 + 1 / 2 ^ 53) < (of_nat k + 1 :: rat)" if "(of_nat k :: rat) \<le> 4096" for k
    using that by simp
  ultimately have lt_n: "f64_round ?x < of_nat n + 1"
    using r step [OF n(2)] by linarith
  have "?x * (1 + 1 / 2 ^ 53) \<le> of_nat m * (1 + 1 / 2 ^ 53) * (1 + 1 / 2 ^ 53)"
    using assms(7) by (intro mult_right_mono) auto
  also have "\<dots> < of_nat m + 1"
    using step [OF m] by blast
  finally have lt_m: "f64_round ?x < of_nat m + 1"
    using r by linarith
  have "nat \<lfloor>f64_round ?x\<rfloor> \<le> n" "nat \<lfloor>f64_round ?x\<rfloor> \<le> m"
    using lt_n lt_m by (simp_all add: nat_le_iff floor_le_iff)
  then show "even (fit_dim n s)" and "16 \<le> fit_dim n s" and "fit_dim n s \<le> n" and "fit_dim n s \<le> m"
    using assms by (auto simp: fit_dim_def max_def)
qed

lemma fit_both:
  assumes "16 \<le> width" "width \<le> 4096" "16 \<le> height" "height \<le> 4096"
    and "360 \<le> W" "W \<le> 4096" "360 \<le> H" "H \<le> 4096"
    and "s = fit_scale (of_nat W) (of_nat H) width height"
  shows "even (fit_dim width s) \<and> 16 \<le> fit_dim width s \<and> fit_dim width s \<le> width \<and> fit_dim width s \<le> W"
    and "even (fit_dim height s) \<and> 16 \<le> fit_dim height s \<and> fit_dim height s \<le> height \<and> fit_dim height s \<le> H"
proof -
  have "(360 :: rat) \<le> of_nat W" "(360 :: rat) \<le> of_nat H"
    using assms by (metis of_nat_le_iff of_nat_numeral)+
  note s = fit_scale_bounds [OF assms(1-4) this, folded assms(9)]
  show "even (fit_dim width s) \<and> 16 \<le> fit_dim width s \<and> fit_dim width s \<le> width \<and> fit_dim width s \<le> W"
    using fit_dim_bounds [of width s W] s assms by auto
  show "even (fit_dim height s) \<and> 16 \<le> fit_dim height s \<and> fit_dim height s \<le> height \<and> fit_dim height s \<le> H"
    using fit_dim_bounds [of height s H] s assms by auto
qed

definition stream_ok :: "nat \<Rightarrow> nat \<Rightarrow> bool" where
  "stream_ok width height =
     (16 \<le> width \<and> width \<le> 4096 \<and> 16 \<le> height \<and> height \<le> 4096 \<and> width * height \<le> 4096 * 2160)"

lemma pixels_stream_ok:
  "pixels width height = Inr n \<and> \<not> (width < 16 \<or> height < 16) \<longleftrightarrow>
    stream_ok width height \<and> n = width * height"
  by (auto simp: pixels_def stream_ok_def MAX_WIDTH_def MAX_HEIGHT_def MAX_PIXELS_def Let_def)

lemma pixels_cases:
  "pixels width height = Inl ME_Dimensions \<or> pixels width height = Inr (width * height)"
  by (simp add: pixels_def Let_def)

lemma fit_pixels:
  assumes "stream_ok width height" and "360 \<le> W" "W \<le> 4096" "360 \<le> H" "H \<le> 4096"
    and "s = fit_scale (of_nat W) (of_nat H) width height"
  shows "pixels (fit_dim width s) (fit_dim height s) = Inr (fit_dim width s * fit_dim height s)"
proof -
  have "16 \<le> width" "width \<le> 4096" "16 \<le> height" "height \<le> 4096" "width * height \<le> 4096 * 2160"
    using assms(1) by (auto simp: stream_ok_def)
  note fit_both [OF this(1-4) assms(2-6)] and mult_le_mono [of "fit_dim width s" width "fit_dim height s" height]
  then show ?thesis
    using \<open>width * height \<le> 4096 * 2160\<close> \<open>width \<le> 4096\<close> \<open>height \<le> 4096\<close>
    by (auto simp: pixels_def Let_def MAX_WIDTH_def MAX_HEIGHT_def MAX_PIXELS_def)
qed

lemma stream_size_fits:
  assumes "stream_ok width height"
  obtains w h where "stream_size width height = Inr (w, h)" and "even w" and "even h"
    and "16 \<le> w" and "16 \<le> h" and "w \<le> min width 1920" and "h \<le> min height 1080"
    and "pixels w h = Inr (w * h)"
proof -
  let ?s = "fit_scale (of_nat 1920) (of_nat 1080) width height"
  have b: "16 \<le> width" "width \<le> 4096" "16 \<le> height" "height \<le> 4096"
    using assms by (auto simp: stream_ok_def)
  have "stream_size width height = Inr (fit_dim width ?s, fit_dim height ?s)"
    using assms pixels_stream_ok [of width height "width * height"] by (auto simp: stream_size_def Let_def)
  then show thesis
    using fit_both [OF b, of 1920 1080 ?s] fit_pixels [OF assms, of 1920 1080 ?s] by (intro that) auto
qed

subsection \<open>Congestion control\<close>

(* @src crates/sensor-media/src/adaptive.rs:7-7 DEFAULT_MAX_BITRATE *)
definition DEFAULT_MAX_BITRATE :: nat where
  "DEFAULT_MAX_BITRATE = 16000000"

(* @src crates/sensor-media/src/adaptive.rs:8-8 MIN_BITRATE *)
definition MIN_BITRATE :: nat where
  "MIN_BITRATE = 300000"

(* @src crates/sensor-media/src/adaptive.rs:10-16 Target *)
record target =
  tg_width :: nat
  tg_height :: nat
  tg_fps :: nat
  tg_bitrate :: nat

(* @src crates/sensor-media/src/adaptive.rs:36-45 Feedback *)
record feedback =
  fb_delivery_ms :: nat
  fb_rtt_ms :: nat
  fb_decode_us :: nat
  fb_prepare_encode_us :: nat
  fb_write_stall_ms :: nat
  fb_acknowledged :: nat
  fb_saturated :: bool

(* @src crates/sensor-media/src/adaptive.rs:47-56 Adaptive *)
record adaptive =
  ad_profile :: video_profile
  ad_bitrate :: nat
  ad_ceiling :: nat
  ad_baseline :: nat
  ad_healthy :: nat
  ad_congested :: bool
  ad_fps_ceiling :: nat
  ad_faster_windows :: nat

(* @src crates/sensor-media/src/adaptive.rs:58-70 Adaptive::new *)
definition adaptive_new :: "nat \<Rightarrow> adaptive" where
  "adaptive_new c =
     (let ceiling = min (max c MIN_BITRATE) 50000000 in
      \<lparr>ad_profile = VP_Auto, ad_bitrate = min 1800000 ceiling, ad_ceiling = ceiling,
       ad_baseline = 2 ^ 64 - 1, ad_healthy = 0, ad_congested = False,
       ad_fps_ceiling = 60, ad_faster_windows = 0\<rparr>)"

text \<open>A value that must fit \<open>w\<close> bits: the checked build panics (\<open>None\<close>) when it does not.\<close>

definition checked :: "nat \<Rightarrow> nat \<Rightarrow> nat option" where
  "checked w n = (if n < 2 ^ w then Some n else None)"

(* @src crates/sensor-media/src/adaptive.rs:84-93 Adaptive::observe: tier *)
definition fps_tier :: "feedback \<Rightarrow> nat" where
  "fps_tier f =
     (let work_us = max (fb_decode_us f) (fb_prepare_encode_us f);
          sustainable = min (max (850000 div max work_us 1) 10) 60
      in case List.find (\<lambda>fps. fps \<le> sustainable) (rev [10, 15, 24, 30, 60]) of
           Some fps \<Rightarrow> fps | None \<Rightarrow> 10)"

(* @src crates/sensor-media/src/adaptive.rs:77-83 Adaptive::observe: baseline and congestion *)
definition observe_delivery :: "adaptive \<Rightarrow> feedback \<Rightarrow> adaptive" where
  "observe_delivery a f =
     (let baseline = (if fb_acknowledged f \<noteq> 0 \<and> fb_delivery_ms f \<noteq> 0
                      then min (ad_baseline a) (fb_delivery_ms f) else ad_baseline a);
          latency_limit = min (min (baseline + 120) (2 ^ 64 - 1)) 600
      in a\<lparr>ad_baseline := baseline,
           ad_congested := fb_saturated f \<or> fb_write_stall_ms f > 80 \<or>
             (fb_delivery_ms f > latency_limit \<and> fb_delivery_ms f > 200)\<rparr>)"

(* @src crates/sensor-media/src/adaptive.rs:94-105 Adaptive::observe: frame rate *)
definition observe_tier :: "nat \<Rightarrow> adaptive \<Rightarrow> feedback \<Rightarrow> adaptive option" where
  "observe_tier tier a f =
     (if tier < ad_fps_ceiling a then Some (a\<lparr>ad_fps_ceiling := tier, ad_faster_windows := 0\<rparr>)
      else if tier > ad_fps_ceiling a \<and> fb_acknowledged f \<noteq> 0 \<and> \<not> ad_congested a
      then Option.bind (checked 8 (ad_faster_windows a + 1)) (\<lambda>n.
             if n \<ge> 5 then Some (a\<lparr>ad_fps_ceiling := tier, ad_faster_windows := 0\<rparr>)
             else Some (a\<lparr>ad_faster_windows := n\<rparr>))
      else Some (a\<lparr>ad_faster_windows := 0\<rparr>))"

(* @src crates/sensor-media/src/adaptive.rs:106-117 Adaptive::observe: bitrate *)
definition observe_rate :: "adaptive \<Rightarrow> feedback \<Rightarrow> adaptive option" where
  "observe_rate a f =
     (if ad_congested a
      then Option.bind (checked 32 (ad_bitrate a * 65)) (\<lambda>b.
             Some (a\<lparr>ad_bitrate := min (max (b div 100) MIN_BITRATE) (ad_ceiling a), ad_healthy := 0\<rparr>))
      else if fb_acknowledged f \<noteq> 0 \<and> fb_rtt_ms f < 600
      then Option.bind (checked 8 (ad_healthy a + 1)) (\<lambda>n.
             if n \<ge> 3
             then Option.bind (checked 32 (ad_bitrate a + max (ad_bitrate a div 5) 100000)) (\<lambda>b.
                    Some (a\<lparr>ad_bitrate := min b (ad_ceiling a), ad_healthy := 0\<rparr>))
             else Some (a\<lparr>ad_healthy := n\<rparr>))
      else Some (a\<lparr>ad_healthy := 0\<rparr>))"

(* @src crates/sensor-media/src/adaptive.rs:74-118 Adaptive::observe *)
definition observe :: "adaptive \<Rightarrow> feedback \<Rightarrow> adaptive option" where
  "observe a f =
     Option.bind (observe_tier (fps_tier f) (observe_delivery a f) f) (\<lambda>b. observe_rate b f)"

(* @src crates/sensor-media/src/adaptive.rs:124-133 Adaptive::target: tiers *)
definition rate_tier :: "nat \<Rightarrow> video_profile \<Rightarrow> nat \<times> nat \<times> nat" where
  "rate_tier bitrate p =
     (if bitrate < 800000 then (640, 360, 15)
      else if bitrate < 1600000 then (960, 540, 24)
      else if bitrate < 3000000 then (1280, 720, 30)
      else if bitrate < 5000000 \<and> p = VP_Performance then (1280, 720, 60)
      else if bitrate < 5000000 \<and> p = VP_Quality then (1920, 1080, 30)
      else if bitrate < 5000000 then (1600, 900, 30)
      else if bitrate < 8000000 then (1920, 1080, 30)
      else (1920, 1080, 60))"

(* @src crates/sensor-media/src/adaptive.rs:119-141 Adaptive::target *)
definition adaptive_target :: "adaptive \<Rightarrow> nat \<Rightarrow> nat \<Rightarrow> media_error + target" where
  "adaptive_target a width height =
     res_bind (pixels width height) (\<lambda>_.
       if width < 16 \<or> height < 16 then Inl ME_Dimensions
       else (case rate_tier (ad_bitrate a) (ad_profile a) of (w, h, fps) \<Rightarrow>
         let scale = fit_scale (of_nat w) (of_nat h) width height in
         Inr \<lparr>tg_width = fit_dim width scale, tg_height = fit_dim height scale,
              tg_fps = min fps (ad_fps_ceiling a), tg_bitrate = ad_bitrate a\<rparr>))"

fun observe_all :: "adaptive \<Rightarrow> feedback list \<Rightarrow> adaptive option" where
  "observe_all a [] = Some a"
| "observe_all a (f # fs) = Option.bind (observe a f) (\<lambda>b. observe_all b fs)"

definition FPS_STEPS :: "nat set" where
  "FPS_STEPS = {10, 15, 24, 30, 60}"

definition adaptive_inv :: "adaptive \<Rightarrow> bool" where
  "adaptive_inv a =
     (MIN_BITRATE \<le> ad_bitrate a \<and> ad_bitrate a \<le> ad_ceiling a \<and> ad_ceiling a \<le> 50000000 \<and>
      ad_healthy a < 3 \<and> ad_faster_windows a < 5 \<and> ad_fps_ceiling a \<in> FPS_STEPS)"

lemma adaptive_new_inv: "adaptive_inv (adaptive_new c)"
  by (auto simp: adaptive_inv_def adaptive_new_def MIN_BITRATE_def FPS_STEPS_def Let_def)

lemma fps_tier_set: "fps_tier f \<in> FPS_STEPS"
  by (simp add: fps_tier_def FPS_STEPS_def Let_def)

lemma observe_delivery_inv: "adaptive_inv (observe_delivery a f) = adaptive_inv a"
  by (simp add: adaptive_inv_def observe_delivery_def Let_def)

lemma observe_tier_inv:
  assumes "adaptive_inv a" and "tier \<in> FPS_STEPS"
  shows "\<exists>b. observe_tier tier a f = Some b \<and> adaptive_inv b \<and> ad_bitrate b = ad_bitrate a \<and>
    ad_congested b = ad_congested a \<and> ad_ceiling b = ad_ceiling a \<and>
    (fb_acknowledged f = 0 \<or> ad_congested a \<longrightarrow> ad_fps_ceiling b \<le> ad_fps_ceiling a)"
  using assms by (simp add: observe_tier_def checked_def adaptive_inv_def)

lemma observe_rate_inv:
  assumes "adaptive_inv a"
  shows "\<exists>b. observe_rate a f = Some b \<and> adaptive_inv b \<and> ad_fps_ceiling b = ad_fps_ceiling a \<and>
    ad_ceiling b = ad_ceiling a \<and>
    (fb_acknowledged f = 0 \<or> ad_congested a \<longrightarrow> ad_bitrate b \<le> ad_bitrate a) \<and>
    (ad_congested a \<longrightarrow> ad_bitrate b = max (ad_bitrate a * 65 div 100) MIN_BITRATE)"
  using assms by (simp add: observe_rate_def checked_def adaptive_inv_def MIN_BITRATE_def) linarith

lemma observe_inv:
  assumes "adaptive_inv a"
  shows "\<exists>b. observe a f = Some b \<and> adaptive_inv b \<and>
    (fb_acknowledged f = 0 \<or> ad_congested b \<longrightarrow>
      ad_fps_ceiling b \<le> ad_fps_ceiling a \<and> ad_bitrate b \<le> ad_bitrate a) \<and>
    (fb_saturated f \<longrightarrow> ad_bitrate b = max (ad_bitrate a * 65 div 100) MIN_BITRATE)"
proof -
  let ?d = "observe_delivery a f"
  have d: "adaptive_inv ?d" "ad_bitrate ?d = ad_bitrate a" "ad_fps_ceiling ?d = ad_fps_ceiling a"
    "fb_saturated f \<Longrightarrow> ad_congested ?d"
    using assms by (simp_all add: observe_delivery_inv) (simp_all add: observe_delivery_def Let_def)
  obtain t where t: "observe_tier (fps_tier f) ?d f = Some t" "adaptive_inv t" "ad_bitrate t = ad_bitrate a"
      "ad_congested t = ad_congested ?d"
      "fb_acknowledged f = 0 \<or> ad_congested ?d \<longrightarrow> ad_fps_ceiling t \<le> ad_fps_ceiling a"
    using observe_tier_inv [OF d(1) fps_tier_set, of f f] d(2,3) by auto
  obtain b where b: "observe_rate t f = Some b" "adaptive_inv b" "ad_fps_ceiling b = ad_fps_ceiling t"
      "fb_acknowledged f = 0 \<or> ad_congested t \<longrightarrow> ad_bitrate b \<le> ad_bitrate t"
      "ad_congested t \<longrightarrow> ad_bitrate b = max (ad_bitrate t * 65 div 100) MIN_BITRATE"
    using observe_rate_inv [OF t(2), of f] by blast
  have "ad_congested b = ad_congested t"
    using b(1) by (auto simp: observe_rate_def bind_eq_Some_conv split: if_splits)
  then show ?thesis
    using t b d(4) by (auto simp: observe_def)
qed

lemma observe_all_inv: "adaptive_inv a \<Longrightarrow> \<exists>b. observe_all a fs = Some b \<and> adaptive_inv b"
proof (induction fs arbitrary: a)
  case (Cons f fs)
  then show ?case
    using observe_inv [of a f] by auto
qed simp

lemma observe_all_append:
  "observe_all a (fs @ gs) = Option.bind (observe_all a fs) (\<lambda>b. observe_all b gs)"
  by (induction fs arbitrary: a) (auto split: Option.bind_split)

lemma fps_steps_bounds: "n \<in> FPS_STEPS \<Longrightarrow> 10 \<le> n \<and> n \<le> 60"
  by (auto simp: FPS_STEPS_def)

lemma rate_tier_cases:
  "rate_tier b p = (w, h, fps) \<Longrightarrow> 360 \<le> w \<and> w \<le> 1920 \<and> 360 \<le> h \<and> h \<le> 1080 \<and> 15 \<le> fps \<and> fps \<le> 60"
  by (simp add: rate_tier_def split: if_splits)

lemma target_valid:
  assumes "adaptive_inv a" and "stream_ok width height"
  obtains t where "adaptive_target a width height = Inr t" and "even (tg_width t)" and "even (tg_height t)"
    and "16 \<le> tg_width t" and "16 \<le> tg_height t"
    and "tg_width t \<le> min width 1920" and "tg_height t \<le> min height 1080"
    and "pixels (tg_width t) (tg_height t) = Inr (tg_width t * tg_height t)"
    and "10 \<le> tg_fps t" and "tg_fps t \<le> 60"
    and "MIN_BITRATE \<le> tg_bitrate t" and "tg_bitrate t \<le> ad_ceiling a"
proof -
  obtain w h fps where tier: "rate_tier (ad_bitrate a) (ad_profile a) = (w, h, fps)"
    by (cases "rate_tier (ad_bitrate a) (ad_profile a)")
  note c = rate_tier_cases [OF tier]
  let ?s = "fit_scale (of_nat w) (of_nat h) width height"
  have b: "16 \<le> width" "width \<le> 4096" "16 \<le> height" "height \<le> 4096"
    using assms by (auto simp: stream_ok_def)
  have p: "pixels width height = Inr (width * height)"
    using assms(2) pixels_stream_ok [of width height "width * height"] by simp
  have f: "10 \<le> ad_fps_ceiling a"
    using assms(1) fps_steps_bounds by (simp add: adaptive_inv_def)
  show thesis
    using fit_both [OF b, of w h ?s] fit_pixels [OF assms(2), of w h ?s] c b p f tier assms(1)
    by (intro that [of "\<lparr>tg_width = fit_dim width ?s, tg_height = fit_dim height ?s,
          tg_fps = min fps (ad_fps_ceiling a), tg_bitrate = ad_bitrate a\<rparr>"])
      (auto simp: adaptive_target_def adaptive_inv_def Let_def)
qed

subsection \<open>Properties of the controller\<close>

definition rate_after :: "nat \<Rightarrow> nat" where
  "rate_after b = max (b * 65 div 100) MIN_BITRATE"

lemma rate_after_mono: "b \<le> c \<Longrightarrow> rate_after b \<le> rate_after c"
  unfolding rate_after_def by (intro max.mono div_le_mono) auto

lemma funpow_12: "(f ^^ 12) x = f (f (f (f (f (f (f (f (f (f (f (f x)))))))))))"
  by (simp add: eval_nat_numeral)

lemma rate_after_12: "b \<le> 50000000 \<Longrightarrow> (rate_after ^^ 12) b \<le> MIN_BITRATE"
proof -
  assume "b \<le> 50000000"
  then have "(rate_after ^^ n) b \<le> (rate_after ^^ n) 50000000" for n
    by (induction n) (auto intro: rate_after_mono)
  also have "(rate_after ^^ 12) 50000000 = MIN_BITRATE"
    by (simp add: funpow_12 rate_after_def MIN_BITRATE_def)
  finally show ?thesis .
qed

lemma saturated_rate:
  assumes "adaptive_inv a" and "list_all fb_saturated fs"
  shows "\<exists>b. observe_all a fs = Some b \<and> adaptive_inv b \<and> ad_bitrate b = (rate_after ^^ length fs) (ad_bitrate a)"
  using assms
proof (induction fs arbitrary: a)
  case (Cons f fs)
  obtain b where b: "observe a f = Some b" "adaptive_inv b" "ad_bitrate b = rate_after (ad_bitrate a)"
    using observe_inv [OF Cons.prems(1), of f] Cons.prems(2) by (auto simp: rate_after_def)
  then show ?case
    using Cons.IH [OF b(2)] Cons.prems(2) by (simp add: funpow_swap1)
qed simp

lemma observe_tier_ceiling: "observe_tier tier a f = Some b \<Longrightarrow> ad_ceiling b = ad_ceiling a"
  by (auto simp: observe_tier_def bind_eq_Some_conv split: if_splits)

lemma observe_rate_ceiling: "observe_rate a f = Some b \<Longrightarrow> ad_ceiling b = ad_ceiling a"
  by (auto simp: observe_rate_def bind_eq_Some_conv split: if_splits)

lemma observe_ceiling: "observe a f = Some b \<Longrightarrow> ad_ceiling b = ad_ceiling a"
  by (auto simp: observe_def bind_eq_Some_conv dest!: observe_tier_ceiling observe_rate_ceiling)
    (simp add: observe_delivery_def Let_def)

lemma observe_all_ceiling: "observe_all a fs = Some b \<Longrightarrow> ad_ceiling b = ad_ceiling a"
  by (induction fs arbitrary: a) (auto simp: bind_eq_Some_conv dest: observe_ceiling)

definition full_display :: "nat \<Rightarrow> nat \<Rightarrow> display" where
  "full_display width height =
     \<lparr>ds_index = 0, ds_name = [], ds_left = 0, ds_top = 0, ds_width = width, ds_height = height\<rparr>"

definition format_of :: "display \<Rightarrow> nat \<Rightarrow> target \<Rightarrow> bool \<Rightarrow> video_format" where
  "format_of d g t hw =
     \<lparr>vf_generation = g, vf_display = d, vf_width = tg_width t, vf_height = tg_height t,
      vf_fps_limit = tg_fps t, vf_bitrate = tg_bitrate t, vf_encoder = [], vf_hardware = hw\<rparr>"


text \<open>Backing off is fast and rising needs evidence. From every state the controller can reach,
  twelve saturated windows in a row bring the rate down to \<open>MIN_BITRATE\<close> and at most 360 lines; and
  a window without any acknowledgement never raises the rate or the frame rate.\<close>

theorem adaptive_backs_off:
  assumes "observe_all (adaptive_new c) fs = Some a" and "length gs = 12" and "list_all fb_saturated gs"
    and "fb_acknowledged h = 0"
  shows "(\<exists>b. observe_all (adaptive_new c) (fs @ gs) = Some b \<and> ad_bitrate b = MIN_BITRATE \<and>
      (\<forall>width height. case adaptive_target b width height of
          Inl e \<Rightarrow> True | Inr t \<Rightarrow> tg_height t \<le> 360 \<and> tg_fps t \<le> 15)) \<and>
    (\<exists>b. observe_all (adaptive_new c) (fs @ [h]) = Some b \<and> ad_bitrate b \<le> ad_bitrate a \<and>
      ad_fps_ceiling b \<le> ad_fps_ceiling a)"
proof -
  have inv: "adaptive_inv a"
    using observe_all_inv [OF adaptive_new_inv, of c fs] assms(1) by simp
  obtain b where b: "observe_all a gs = Some b" "adaptive_inv b" "ad_bitrate b = (rate_after ^^ 12) (ad_bitrate a)"
    using saturated_rate [OF inv assms(3)] assms(2) by auto
  have "ad_bitrate b = MIN_BITRATE"
    using b rate_after_12 [of "ad_bitrate a"] inv by (simp add: adaptive_inv_def)
  moreover have "case adaptive_target b width height of
      Inl e \<Rightarrow> True | Inr t \<Rightarrow> tg_height t \<le> 360 \<and> tg_fps t \<le> 15" for width height
  proof (cases "stream_ok width height")
    case True
    then have "16 \<le> width" "width \<le> 4096" "16 \<le> height" "height \<le> 4096"
      by (auto simp: stream_ok_def)
    then show ?thesis
      using True \<open>ad_bitrate b = MIN_BITRATE\<close> pixels_stream_ok [of width height "width * height"]
        fit_both(2) [of width height 640 360 "fit_scale 640 360 width height"]
      by (simp add: adaptive_target_def rate_tier_def MIN_BITRATE_def Let_def)
  next
    case False
    then show ?thesis
      using pixels_stream_ok [of width height] pixels_cases [of width height]
      by (auto simp: adaptive_target_def)
  qed
  ultimately have down: "\<exists>b. observe_all (adaptive_new c) (fs @ gs) = Some b \<and> ad_bitrate b = MIN_BITRATE \<and>
      (\<forall>width height. case adaptive_target b width height of
          Inl e \<Rightarrow> True | Inr t \<Rightarrow> tg_height t \<le> 360 \<and> tg_fps t \<le> 15)"
    using assms(1) b(1) by (simp add: observe_all_append)
  have "\<exists>b. observe_all (adaptive_new c) (fs @ [h]) = Some b \<and> ad_bitrate b \<le> ad_bitrate a \<and>
      ad_fps_ceiling b \<le> ad_fps_ceiling a"
    using observe_inv [OF inv, of h] assms(1,4) by (auto simp: observe_all_append)
  with down show ?thesis ..
qed

definition demo_saturated :: feedback where
  "demo_saturated = \<lparr>fb_delivery_ms = 80, fb_rtt_ms = 70, fb_decode_us = 0, fb_prepare_encode_us = 0,
     fb_write_stall_ms = 0, fb_acknowledged = 0, fb_saturated = True\<rparr>"

theorem adaptive_backs_off_witness:
  "(\<exists>b. observe_all (adaptive_new DEFAULT_MAX_BITRATE) (replicate 12 demo_saturated) = Some b \<and>
      ad_bitrate b = 300000) \<and>
   (\<exists>b. observe_all (adaptive_new DEFAULT_MAX_BITRATE) [demo_saturated] = Some b \<and> ad_bitrate b \<le> 1800000)"
proof -
  note w = adaptive_backs_off [of DEFAULT_MAX_BITRATE "[]" "adaptive_new DEFAULT_MAX_BITRATE"
      "replicate 12 demo_saturated" demo_saturated]
  have "ad_bitrate (adaptive_new DEFAULT_MAX_BITRATE) = 1800000"
    by (simp add: adaptive_new_def DEFAULT_MAX_BITRATE_def MIN_BITRATE_def Let_def)
  then show ?thesis
    using w by (simp add: demo_saturated_def list_all_iff MIN_BITRATE_def) blast
qed

end
