(* ===== verification/Sensor_Flight.thy ===== *)
theory Sensor_Flight
  imports Sensor_Media
begin

section \<open>sensor-media: the flight window\<close>

text \<open>
  \<open>FlightWindow\<close> holds the frames submitted to the encoder and not yet acknowledged by the viewer:
  sequence number, submission time and compressed size (0 until the encoder reports it). A window
  is followed over any interleaving of submissions (gated by \<open>can_submit\<close>, as the host loop of
  worker.rs does), encoder reports and acknowledgements, wanted or forged.
\<close>

type_synonym flight_frame = "nat \<times> nat \<times> nat"

(* @src crates/sensor-media/src/adaptive.rs:146-150 FlightWindow *)
record flight_window =
  fw_frames :: "flight_frame list"
  fw_bytes :: nat

definition fw_default :: flight_window where
  "fw_default = \<lparr>fw_frames = [], fw_bytes = 0\<rparr>"

definition usize_max :: nat where
  "usize_max = 2 ^ 64 - 1"

(* @src crates/sensor-media/src/adaptive.rs:155-157 FlightWindow::oldest_ms *)
definition oldest_ms :: "flight_window \<Rightarrow> nat \<Rightarrow> nat" where
  "oldest_ms w now = (case fw_frames w of [] \<Rightarrow> 0 | (_, t, _) # _ \<Rightarrow> now - t)"

(* @src crates/sensor-media/src/adaptive.rs:158-162 FlightWindow::can_submit *)
definition can_submit :: "flight_window \<Rightarrow> nat \<Rightarrow> nat \<Rightarrow> bool" where
  "can_submit w now bitrate \<longleftrightarrow>
     length (fw_frames w) < 16 \<and>
     fw_bytes w < min (max (bitrate div 32) (64 * 1024)) (2 * 1024 * 1024) \<and>
     oldest_ms w now < 500"

(* @src crates/sensor-media/src/adaptive.rs:163-165 FlightWindow::submit *)
definition fw_submit :: "flight_window \<Rightarrow> nat \<Rightarrow> nat \<Rightarrow> flight_window" where
  "fw_submit w s now = w\<lparr>fw_frames := fw_frames w @ [(s, now, 0)]\<rparr>"

text \<open>The first frame with a sequence number, and its position.\<close>

fun fw_find :: "nat \<Rightarrow> flight_frame list \<Rightarrow> (nat \<times> flight_frame) option" where
  "fw_find s [] = None"
| "fw_find s (f # fs) =
     (if fst f = s then Some (0, f) else map_option (\<lambda>(i, g). (Suc i, g)) (fw_find s fs))"

(* @src crates/sensor-media/src/adaptive.rs:166-171 FlightWindow::encoded *)
definition fw_encoded :: "flight_window \<Rightarrow> nat \<Rightarrow> nat \<Rightarrow> flight_window" where
  "fw_encoded w s n =
     (case fw_find s (fw_frames w) of
        None \<Rightarrow> w
      | Some (i, f) \<Rightarrow> w\<lparr>fw_bytes := min (fw_bytes w - snd (snd f) + n) usize_max,
                          fw_frames := (fw_frames w)[i := (fst f, fst (snd f), n)]\<rparr>)"

(* @src crates/sensor-media/src/adaptive.rs:174-179 FlightWindow::acknowledge *)
definition fw_acknowledge :: "flight_window \<Rightarrow> nat \<Rightarrow> nat \<Rightarrow> nat option \<times> flight_window" where
  "fw_acknowledge w s now =
     (case fw_find s (fw_frames w) of
        None \<Rightarrow> (None, w)
      | Some (i, f) \<Rightarrow> (Some (now - fst (snd f)),
          w\<lparr>fw_frames := take i (fw_frames w) @ drop (Suc i) (fw_frames w),
            fw_bytes := fw_bytes w - snd (snd f)\<rparr>))"

lemma fw_find_None: "fw_find s fs = None \<longleftrightarrow> s \<notin> fst ` set fs"
  by (induction fs) auto

lemma fw_find_Some:
  assumes "fw_find s fs = Some (i, f)"
  shows "\<exists>xs ys. fs = xs @ f # ys \<and> length xs = i \<and> fst f = s"
  using assms
proof (induction fs arbitrary: i)
  case (Cons g fs)
  show ?case
  proof (cases "fst g = s")
    case True
    then show ?thesis
      using Cons.prems by (intro exI [of _ "[]"] exI [of _ fs]) auto
  next
    case False
    then obtain j where j: "fw_find s fs = Some (j, f)" "i = Suc j"
      using Cons.prems by auto
    then obtain xs ys where "fs = xs @ f # ys \<and> length xs = j \<and> fst f = s"
      using Cons.IH by blast
    then show ?thesis
      using j by (intro exI [of _ "g # xs"] exI [of _ ys]) auto
  qed
qed simp

subsection \<open>Runs\<close>

datatype flight_op =
    FO_Submit nat nat nat
  | FO_Encoded nat nat
  | FO_Ack nat nat

fun flight_step :: "flight_window \<Rightarrow> flight_op \<Rightarrow> flight_window" where
  "flight_step w (FO_Submit s now bitrate) = (if can_submit w now bitrate then fw_submit w s now else w)"
| "flight_step w (FO_Encoded s n) = fw_encoded w s n"
| "flight_step w (FO_Ack s now) = snd (fw_acknowledge w s now)"

definition flight_run :: "flight_op list \<Rightarrow> flight_window" where
  "flight_run ops = foldl flight_step fw_default ops"

fun bounded_op :: "flight_op \<Rightarrow> bool" where
  "bounded_op (FO_Encoded s n) = (n \<le> MAX_ENCODED_FRAME)"
| "bounded_op _ = True"

definition sizes :: "flight_frame list \<Rightarrow> nat" where
  "sizes fs = (\<Sum>f \<leftarrow> fs. snd (snd f))"

lemma sizes_simps [simp]:
  "sizes [] = 0" "sizes (f # fs) = snd (snd f) + sizes fs" "sizes (xs @ ys) = sizes xs + sizes ys"
  by (simp_all add: sizes_def)

definition fw_inv :: "flight_window \<Rightarrow> bool" where
  "fw_inv w \<longleftrightarrow> length (fw_frames w) \<le> 16 \<and> fw_bytes w = sizes (fw_frames w) \<and>
     (\<forall>f \<in> set (fw_frames w). snd (snd f) \<le> MAX_ENCODED_FRAME)"

lemma sizes_le: "\<forall>f \<in> set fs. snd (snd f) \<le> b \<Longrightarrow> sizes fs \<le> length fs * b"
  by (induction fs) auto

lemma fw_encoded_inv:
  assumes "fw_inv w" and "n \<le> MAX_ENCODED_FRAME"
  shows "fw_inv (fw_encoded w s n)"
proof (cases "fw_find s (fw_frames w)")
  case (Some r)
  obtain i f where r: "r = (i, f)"
    by (cases r)
  obtain xs ys where fs: "fw_frames w = xs @ f # ys" "length xs = i"
    using fw_find_Some Some r by metis
  let ?fs = "xs @ (fst f, fst (snd f), n) # ys"
  have b: "\<forall>g \<in> set ?fs. snd (snd g) \<le> MAX_ENCODED_FRAME" and l: "length ?fs \<le> 16"
    using assms fs by (auto simp: fw_inv_def)
  have "sizes ?fs \<le> 16 * MAX_ENCODED_FRAME"
    using sizes_le [OF b] mult_le_mono1 [OF l, of MAX_ENCODED_FRAME] by (rule order_trans)
  then have "sizes ?fs \<le> usize_max"
    by (simp add: usize_max_def MAX_ENCODED_FRAME_def)
  moreover have "fw_frames (fw_encoded w s n) = ?fs"
    using Some r fs by (simp add: fw_encoded_def list_update_append)
  ultimately show ?thesis
    using Some r fs b l assms(1) by (simp add: fw_inv_def fw_encoded_def)
qed (use assms in \<open>simp add: fw_encoded_def\<close>)

lemma fw_acknowledge_inv: "fw_inv w \<Longrightarrow> fw_inv (snd (fw_acknowledge w s now))"
  by (auto simp: fw_acknowledge_def fw_inv_def split: option.splits dest!: fw_find_Some)

lemma flight_step_inv: "fw_inv w \<Longrightarrow> bounded_op op \<Longrightarrow> fw_inv (flight_step w op)"
  by (cases op) (auto simp: fw_encoded_inv fw_acknowledge_inv, auto simp: fw_submit_def fw_inv_def can_submit_def)

lemma flight_run_inv: "list_all bounded_op ops \<Longrightarrow> fw_inv (flight_run ops)"
  unfolding flight_run_def
proof (induction ops rule: rev_induct)
  case Nil
  then show ?case
    by (simp add: fw_inv_def fw_default_def)
next
  case (snoc op ops)
  then show ?case
    by (simp add: flight_step_inv)
qed

text \<open>C34: The flight window keeps exact account. After every interleaving of gated submissions,
  encoder reports of valid frames and acknowledgements, at most 16 frames are in flight and
  \<open>bytes\<close> is exactly the sum of their sizes (it never saturates). An acknowledgement of a sequence
  that is not in flight returns nothing and changes nothing; one that is in flight removes exactly
  one frame of that sequence and its bytes and returns its age.\<close>

theorem flight_window_exact:
  assumes "list_all bounded_op ops"
  defines "w \<equiv> flight_run ops"
  shows "length (fw_frames w) \<le> 16 \<and> fw_bytes w = sizes (fw_frames w) \<and>
    (case fw_acknowledge w s now of
       (None, w') \<Rightarrow> s \<notin> fst ` set (fw_frames w) \<and> w' = w
     | (Some age, w') \<Rightarrow> (\<exists>xs t n ys. fw_frames w = xs @ (s, t, n) # ys \<and> fw_frames w' = xs @ ys \<and>
         age = now - t \<and> fw_bytes w = fw_bytes w' + n \<and> fw_bytes w' = sizes (fw_frames w')))"
proof -
  have inv: "fw_inv w"
    using flight_run_inv [OF assms(1)] by (simp add: w_def)
  show ?thesis
  proof (cases "fw_find s (fw_frames w)")
    case None
    then show ?thesis
      using inv by (simp add: fw_acknowledge_def fw_inv_def flip: fw_find_None)
  next
    case (Some r)
    obtain i f where r: "r = (i, f)"
      by (cases r)
    obtain xs ys where "fw_frames w = xs @ f # ys" "length xs = i" "fst f = s"
      using fw_find_Some Some r by metis
    then show ?thesis
      using inv Some r
      by (cases f) (auto simp: fw_acknowledge_def fw_inv_def intro!: exI [of _ xs])
  qed
qed

definition demo_ops :: "flight_op list" where
  "demo_ops = [FO_Submit 7 100 8000000, FO_Submit 8 110 8000000, FO_Encoded 7 300000, FO_Ack 9 120]"

lemma flight_window_exact_witness:
  "fw_frames (flight_run demo_ops) = [(7, 100, 300000), (8, 110, 0)] \<and>
   fw_bytes (flight_run demo_ops) = sizes (fw_frames (flight_run demo_ops))"
  using flight_window_exact [of demo_ops]
  by (simp add: demo_ops_def flight_run_def fw_default_def can_submit_def oldest_ms_def fw_submit_def
      fw_encoded_def fw_acknowledge_def MAX_ENCODED_FRAME_def usize_max_def)

end
