(* ===== verification/Sensor_Render.thy ===== *)
theory Sensor_Render
  imports Sensor_Session
begin

section \<open>sensor-render: the WebSocket side of a device\<close>

text \<open>
  A device reaches its peer through a rendezvous service over one WebSocket: it answers a challenge
  with a signed registration, asks for a peer or waits for one, and then bridges a local TCP stream
  to binary frames. The WebSocket library and JSON are outside the repository: a socket is the
  script of what its calls return (a read result, the result of a send), and JSON is a pair of
  functions of \<open>json_lib\<close>. Instants are milliseconds read from the script. Sent messages are
  returned in order. The lemmas show what a registration signature binds, that waiting for a peer
  cannot outlive the keep-alive, and that the bridge neither loses, repeats nor reorders a byte.
\<close>

subsection \<open>Messages and errors\<close>

text \<open>The messages and errors of tungstenite that the code tells apart.\<close>

datatype ws_message =
    WM_Text rstr | WM_Binary bytes | WM_Ping bytes | WM_Pong bytes | WM_Close | WM_Frame

datatype ws_error = WE_Io io_error | WE_Other nat

(* @src crates/sensor-render/src/lib.rs:27-27 MAX_CONTROL_BYTES *)
definition MAX_CONTROL_BYTES :: nat where
  "MAX_CONTROL_BYTES = 16 * 1024"

(* @src crates/sensor-render/src/lib.rs:28-28 MAX_RELAY_BYTES *)
definition MAX_RELAY_BYTES :: nat where
  "MAX_RELAY_BYTES = 1024 * 1024"

(* @src crates/sensor-render/src/lib.rs:30-30 CONNECT_TIMEOUT *)
definition CONNECT_TIMEOUT :: nat where
  "CONNECT_TIMEOUT = 90000"

(* @src crates/sensor-render/src/lib.rs:32-32 HEARTBEAT *)
definition HEARTBEAT :: nat where
  "HEARTBEAT = 25000"

(* @src crates/sensor-render/src/lib.rs:90-105 RenderError *)
datatype render_error =
    RE_Url rstr
  | RE_WebSocket ws_error
  | RE_Io io_error
  | RE_Json
  | RE_Rejected rstr
  | RE_UnexpectedMessage
  | RE_Timeout

(* @src crates/sensor-render/src/lib.rs:109-141 ControlMessage *)
datatype control_message =
    CM_Challenge rstr
  | CM_Register rstr rstr rstr rstr bool
  | CM_Registered rstr nat
  | CM_Connect rstr rstr rstr
  | CM_PeerReady rstr rstr
  | CM_Heartbeat rstr
  | CM_HeartbeatAck
  | CM_Error rstr rstr

text \<open>serde_json on control messages: the text of a message, and the message of a text.\<close>

record json_lib =
  js_to :: "control_message \<Rightarrow> rstr option"
  js_from :: "rstr \<Rightarrow> control_message option"

subsection \<open>Hexadecimal text\<close>

(* @src crates/sensor-render/src/lib.rs:625-627 encode_hex *)
definition encode_hex :: "bytes \<Rightarrow> rstr" where
  "encode_hex bs = hex_of_bytes bs"

(* @src crates/sensor-render/src/lib.rs:649-664 decode_hex_variable *)
definition decode_hex_variable :: "rstr \<Rightarrow> render_error + bytes" where
  "decode_hex_variable s =
     (let v = str_trim s in
      if str_len v mod 2 \<noteq> 0 \<or> str_len v > 128 \<or> \<not> list_all (\<lambda>b. is_hexdigit (unat b)) (as_bytes v)
      then Inl (RE_Rejected (lit ''invalid hexadecimal value''))
      else ok_or (hex_pairs v) (RE_Rejected (lit ''invalid hexadecimal value'')))"

(* @src crates/sensor-render/src/lib.rs:642-647 decode_hex *)
definition decode_hex :: "nat \<Rightarrow> rstr \<Rightarrow> render_error + bytes" where
  "decode_hex n s =
     res_bind (decode_hex_variable s) (\<lambda>bs.
       if length bs = n then Inr bs else Inl (RE_Rejected (lit ''invalid hexadecimal length'')))"

(* @src crates/sensor-render/src/lib.rs:621-623 decode_public_key *)
definition decode_public_key :: "rstr \<Rightarrow> render_error + bytes" where
  "decode_public_key s = decode_hex 32 s"

(* @src crates/sensor-render/src/lib.rs:629-631 token_hash *)
definition token_hash :: "crypto_lib \<Rightarrow> rstr \<Rightarrow> bytes" where
  "token_hash L token = sha256 L (as_bytes token)"

lemma as_bytes_hex: "as_bytes (hex_of_bytes bs) = map word_of_nat (hex_of_bytes bs)"
  by (simp add: as_bytes_ascii)

lemma hex_bytes_all: "list_all (\<lambda>b. is_hexdigit (unat b)) (as_bytes (hex_of_bytes bs))"
proof -
  have "is_hexdigit (unat (word_of_nat c :: u8))" if "c \<in> set (hex_of_bytes bs)" for c
  proof -
    have "c < 128" "is_hexdigit c"
      using that hex_of_bytes_ascii [of bs] hex_of_bytes_hexdigits [of bs]
      by (auto simp: is_ascii_def list_all_iff)
    then show ?thesis
      by (simp add: unat_of_nat)
  qed
  then show ?thesis
    by (auto simp: as_bytes_hex list_all_iff)
qed

lemma decode_hex_variable_encode [simp]:
  "length bs \<le> 64 \<Longrightarrow> decode_hex_variable (encode_hex bs) = Inr bs"
  by (simp add: decode_hex_variable_def encode_hex_def hex_bytes_all)

lemma decode_hex_encode [simp]:
  "length bs = n \<Longrightarrow> n \<le> 64 \<Longrightarrow> decode_hex n (encode_hex bs) = Inr bs"
  by (simp add: decode_hex_def)

lemma decode_hex_length: "decode_hex n s = Inr bs \<Longrightarrow> length bs = n"
  by (auto simp: decode_hex_def res_simps split: if_splits)

lemma encode_hex_inject [simp]: "encode_hex a = encode_hex b \<longleftrightarrow> a = b"
  by (auto simp: encode_hex_def dest: hex_of_bytes_inj)

lemma str_len_encode_hex [simp]: "str_len (encode_hex bs) = 2 * length bs"
  by (simp add: encode_hex_def)

subsection \<open>What a registration signs\<close>

definition sized_str :: "rstr \<Rightarrow> bytes" where
  "sized_str v = be_bytes 4 (str_len v mod 2 ^ 32) @ as_bytes v"

(* @src crates/sensor-render/src/lib.rs:570-582 registration_bytes *)
definition registration_bytes :: "rstr \<Rightarrow> rstr \<Rightarrow> rstr \<Rightarrow> bool \<Rightarrow> bytes" where
  "registration_bytes did public_key nonce listen =
     ascii_bytes ''SENSOR/Render/register/v2'' @
     concat (map sized_str [did, public_key, nonce, if listen then lit ''listen'' else lit ''connect''])"

(* @src crates/sensor-render/src/lib.rs:633-640 registration_message *)
definition registration_message :: "rstr \<Rightarrow> rstr \<Rightarrow> rstr \<Rightarrow> bool \<Rightarrow> bytes" where
  "registration_message did public_key nonce listen = registration_bytes did public_key nonce listen"

(* @src crates/sensor-render/src/lib.rs:584-619 verify_registration *)
definition verify_registration ::
  "crypto_lib \<Rightarrow> rstr \<Rightarrow> rstr \<Rightarrow> rstr \<Rightarrow> rstr \<Rightarrow> bool \<Rightarrow> render_error + device_id" where
  "verify_registration L device_id public_key nonce signature listen =
     res_bind (ok_or (parse_u32 (filter (\<lambda>c. \<not> is_whitespace c) device_id))
         (RE_Rejected (lit ''invalid device ID''))) (\<lambda>v.
     res_bind (map_err (\<lambda>_. RE_Rejected (lit ''invalid device ID'')) (device_id_try_from (word_of_nat v))) (\<lambda>did.
     res_bind (decode_hex 32 public_key) (\<lambda>key.
     res_bind (decode_hex_variable nonce) (\<lambda>n.
       if length n \<noteq> 32 then Inl (RE_Rejected (lit ''invalid registration nonce''))
       else
     res_bind (decode_hex_variable signature) (\<lambda>sig.
     res_bind (map_err (\<lambda>_. RE_Rejected (lit ''device signature verification failed''))
         (identity_verify L key
           (registration_bytes (device_id_display did) (encode_hex key) (encode_hex n) listen) sig)) (\<lambda>_.
       Inr did))))))"

text \<open>The message a device answers a challenge with.\<close>

(* @src crates/sensor-render/src/lib.rs:337-354 register: the Register message *)
definition register_answer :: "crypto_lib \<Rightarrow> identity_keypair \<Rightarrow> device_id \<Rightarrow> rstr \<Rightarrow> bool \<Rightarrow> control_message" where
  "register_answer L kp did nonce_hex listen =
     (let device_id = device_id_display did;
          public_key = encode_hex (kp_public L kp);
          signature = kp_sign L kp (registration_bytes device_id public_key nonce_hex listen)
      in CM_Register device_id public_key nonce_hex (encode_hex signature) listen)"

lemma sized_str_length: "length (sized_str v) = 4 + str_len v"
  by (simp add: sized_str_def str_len_def)

lemma be_bytes_append_inject:
  "be_bytes n x @ xs = be_bytes n y @ ys \<longleftrightarrow> be_bytes n x = be_bytes n y \<and> xs = ys"
  by (simp add: append_eq_append_conv)

lemma sized_str_append_inject:
  assumes "str_len a < 2 ^ 32" and "str_len b < 2 ^ 32"
  shows "sized_str a @ xs = sized_str b @ ys \<longleftrightarrow> as_bytes a = as_bytes b \<and> xs = ys"
proof
  assume eq: "sized_str a @ xs = sized_str b @ ys"
  then have "be_bytes 4 (str_len a) = be_bytes 4 (str_len b)"
    using assms by (simp add: sized_str_def be_bytes_append_inject)
  then have "str_len a = str_len b"
    using assms by (auto intro: be_bytes_inj [of 4])
  then show "as_bytes a = as_bytes b \<and> xs = ys"
    using eq by (simp add: sized_str_def be_bytes_append_inject append_eq_append_conv str_len_def)
qed (use assms in \<open>auto simp: sized_str_def str_len_def\<close>)

lemma registration_bytes_append:
  "registration_bytes d k n l = ascii_bytes ''SENSOR/Render/register/v2'' @ sized_str d @ sized_str k @
     sized_str n @ sized_str (if l then lit ''listen'' else lit ''connect'') @ []"
  by (simp add: registration_bytes_def)

lemma registration_bytes_inject:
  assumes "str_len d < 2 ^ 32" "str_len d' < 2 ^ 32" "str_len k < 2 ^ 32" "str_len k' < 2 ^ 32"
    and "str_len n < 2 ^ 32" "str_len n' < 2 ^ 32"
  shows "registration_bytes d k n l = registration_bytes d' k' n' l' \<longleftrightarrow>
    as_bytes d = as_bytes d' \<and> as_bytes k = as_bytes k' \<and> as_bytes n = as_bytes n' \<and> l = l'"
proof -
  have mode: "str_len (if b then lit ''listen'' else lit ''connect'') < 2 ^ 32"
    "as_bytes (if a then lit ''listen'' else lit ''connect'') =
       as_bytes (if b then lit ''listen'' else lit ''connect'') \<longleftrightarrow> a = b" for a b
    by (auto simp: lit_def str_len_def as_bytes_def)
  show ?thesis
    unfolding registration_bytes_append using assms mode(1) [of l] mode(1) [of l'] mode(2) [of l l']
    by (simp only: same_append_eq sized_str_append_inject) blast
qed

lemma as_bytes_ascii_inject:
  assumes "is_ascii s" and "is_ascii t" and "as_bytes s = as_bytes t"
  shows "s = t"
proof -
  have "map word_of_nat s = (map word_of_nat t :: u8 list)"
    using assms by (simp add: as_bytes_ascii)
  moreover have "inj_on (word_of_nat :: nat \<Rightarrow> u8) (set s \<union> set t)"
  proof (rule inj_onI)
    fix x y
    assume "x \<in> set s \<union> set t" "y \<in> set s \<union> set t" and eq: "(word_of_nat x :: u8) = word_of_nat y"
    then have "x < 128" "y < 128"
      using assms(1,2) by (auto simp: is_ascii_def list_all_iff)
    then show "x = y"
      using arg_cong [OF eq, of unat] by (simp add: unat_of_nat)
  qed
  ultimately show ?thesis
    using inj_on_map_eq_map by blast
qed

lemma display_ascii: "is_ascii (device_id_display d)"
proof -
  have "c < 128" if "c \<in> set (pad_zeros 9 (dec_digits n))" for c n
    using that dec_digits_range [of c n] by (auto simp: pad_zeros_def)
  then show ?thesis
    by (auto simp: is_ascii_def list_all_iff device_id_display_def Let_def dest!: in_set_takeD in_set_dropD)
qed

lemma display_inject:
  assumes "device_id_wf a" and "device_id_wf b" and "device_id_display a = device_id_display b"
  shows "a = b"
proof -
  have "unat (did_value a) = unat (did_value b)"
    using device_id_display_parse [OF assms(1)] device_id_display_parse [OF assms(2)] assms(3) by simp
  then show ?thesis
    by (metis did_value_inject word_unat_eq_iff)
qed

lemma as_bytes_display_inject:
  assumes "device_id_wf a" and "device_id_wf b" and "as_bytes (device_id_display a) = as_bytes (device_id_display b)"
  shows "a = b"
  using assms as_bytes_ascii_inject display_ascii display_inject by blast

lemma length_display: "device_id_wf d \<Longrightarrow> str_len (device_id_display d) = 11"
  by (simp only: str_len_ascii [OF display_ascii])
    (simp add: display_digits device_id_display_def Let_def)

lemma verify_registration_Inr_iff:
  "verify_registration L d k n s l = Inr did \<longleftrightarrow>
     (\<exists>v key nonce sig. parse_u32 (filter (\<lambda>c. \<not> is_whitespace c) d) = Some v \<and>
        device_id_try_from (word_of_nat v) = Inr did \<and> decode_hex 32 k = Inr key \<and>
        decode_hex_variable n = Inr nonce \<and> length nonce = 32 \<and> decode_hex_variable s = Inr sig \<and>
        identity_verify L key
          (registration_bytes (device_id_display did) (encode_hex key) (encode_hex nonce) l) sig = Inr ())"
  by (auto simp: verify_registration_def res_simps split: if_splits)

text \<open>A registration signature authenticates the whole registration. When \<open>verify_registration\<close>
  accepts, the returned device ID is valid, the public key and the nonce decode to 32 bytes, and the
  signature strictly verifies under that key over bytes that no other device ID, key, nonce or
  listening mode can produce.\<close>

theorem registration_binds:
  assumes "verify_registration L d k n s l = Inr did"
  shows "\<exists>key nonce sig. decode_hex 32 k = Inr key \<and> decode_hex_variable n = Inr nonce \<and> length nonce = 32 \<and>
    device_id_wf did \<and>
    ed_verify_strict L key (registration_bytes (device_id_display did) (encode_hex key) (encode_hex nonce) l) sig \<and>
    {(did', key', nonce', l'). device_id_wf did' \<and> length key' = 32 \<and> length nonce' = 32 \<and>
       registration_bytes (device_id_display did') (encode_hex key') (encode_hex nonce') l' =
       registration_bytes (device_id_display did) (encode_hex key) (encode_hex nonce) l} = {(did, key, nonce, l)}"
proof -
  obtain v key nonce sig where v: "device_id_try_from (word_of_nat v) = Inr did" "decode_hex 32 k = Inr key"
      "decode_hex_variable n = Inr nonce" "length nonce = 32"
      "ed_verify_strict L key (registration_bytes (device_id_display did) (encode_hex key) (encode_hex nonce) l) sig"
    using assms by (auto simp: verify_registration_Inr_iff identity_verify_Inr_iff)
  have did: "device_id_wf did"
    using v(1) by (auto simp: device_id_try_from_Inr_iff)
  have key: "length key = 32"
    using decode_hex_length [OF v(2)] .
  have "did' = did \<and> key' = key \<and> nonce' = nonce \<and> l' = l"
    if "device_id_wf did'" "length key' = 32" "length nonce' = 32"
      "registration_bytes (device_id_display did') (encode_hex key') (encode_hex nonce') l' =
       registration_bytes (device_id_display did) (encode_hex key) (encode_hex nonce) l" for did' key' nonce' l'
  proof -
    have "as_bytes (device_id_display did') = as_bytes (device_id_display did) \<and>
        as_bytes (encode_hex key') = as_bytes (encode_hex key) \<and>
        as_bytes (encode_hex nonce') = as_bytes (encode_hex nonce) \<and> l' = l"
      using that did key v(4) length_display by (subst (asm) registration_bytes_inject) simp_all
    then show ?thesis
      using as_bytes_display_inject [OF that(1) did] as_bytes_ascii_inject hex_of_bytes_ascii hex_of_bytes_inj
      unfolding encode_hex_def by metis
  qed
  then have "{(did', key', nonce', l'). device_id_wf did' \<and> length key' = 32 \<and> length nonce' = 32 \<and>
       registration_bytes (device_id_display did') (encode_hex key') (encode_hex nonce') l' =
       registration_bytes (device_id_display did) (encode_hex key) (encode_hex nonce) l} = {(did, key, nonce, l)}"
    using did key v(4) by auto
  then show ?thesis
    using v did by blast
qed

lemma verify_register_answer:
  assumes "sign_laws L" and "device_id_wf did" and "length (kp_public L kp) = 32" and "length nonce = 32"
  shows "\<exists>d k s. register_answer L kp did (encode_hex nonce) l = CM_Register d k (encode_hex nonce) s l \<and>
    k = encode_hex (kp_public L kp) \<and> verify_registration L d k (encode_hex nonce) s l = Inr did"
proof -
  have "device_id_try_from (word_of_nat (unat (did_value did))) = Inr did"
    using assms(2) by (cases did) (simp add: device_id_try_from_Inr_iff)
  then show ?thesis
    using assms device_id_display_parse [OF assms(2)]
    by (simp add: register_answer_def Let_def verify_registration_Inr_iff identity_verify_Inr_iff
        kp_sign_def kp_public_def sign_laws_def)
qed

definition demo_id :: device_id where
  "demo_id = DeviceId 123456789"

lemma demo_id_wf: "device_id_wf demo_id"
  by (simp add: demo_id_def device_id_wf_def)

lemma registration_binds_witness:
  "\<exists>d k s. verify_registration demo_lib d k (encode_hex (demo_key 9)) s True = Inr demo_id \<and>
     (\<exists>key. decode_hex 32 k = Inr key)"
proof -
  obtain d k s where "verify_registration demo_lib d k (encode_hex (demo_key 9)) s True = Inr demo_id"
    using verify_register_answer [OF demo_sign_laws demo_id_wf, of "demo_kp 1" "demo_key 9" True]
    by (auto simp: demo_key_def)
  then show ?thesis
    using registration_binds by blast
qed

subsection \<open>Sending and receiving control messages\<close>

text \<open>One turn of a polling loop: whether the user cancelled, the clock before the read, the result
  of the read, the results of the two sends a turn may make, and the clock after them.\<close>

record ws_turn =
  wt_cancelled :: bool
  wt_now :: nat
  wt_read :: "ws_error + ws_message"
  wt_pong :: "ws_error option"
  wt_send :: "ws_error option"
  wt_after :: nat

(* @src crates/sensor-render/src/lib.rs:691-700 check_cancelled *)
definition check_cancelled :: "bool \<Rightarrow> render_error + unit" where
  "check_cancelled cancelled = (if cancelled then Inl (RE_Io IO_Interrupted) else Inr ())"

(* @src crates/sensor-render/src/lib.rs:531-541 send_control *)
definition send_control ::
  "json_lib \<Rightarrow> control_message \<Rightarrow> ws_error option \<Rightarrow> (render_error + unit) \<times> ws_message list" where
  "send_control J m result =
     (case js_to J m of
        None \<Rightarrow> (Inl RE_Json, [])
      | Some s \<Rightarrow>
          if str_len s > MAX_CONTROL_BYTES then (Inl RE_UnexpectedMessage, [])
          else case result of
              Some e \<Rightarrow> (Inl (RE_WebSocket e), [])
            | None \<Rightarrow> (Inr (), [WM_Text s]))"

(* @src crates/sensor-render/src/lib.rs:543-568 receive_control *)
definition receive_control ::
  "json_lib \<Rightarrow> nat \<Rightarrow> ws_turn \<Rightarrow> (render_error + control_message) \<times> ws_message list" where
  "receive_control J deadline t =
     (if wt_now t \<ge> deadline then (Inl RE_Timeout, [])
      else case wt_read t of
          Inl e \<Rightarrow> (Inl (RE_WebSocket e), [])
        | Inr (WM_Text s) \<Rightarrow>
            if str_len s \<le> MAX_CONTROL_BYTES then (ok_or (js_from J s) RE_Json, [])
            else (Inl RE_UnexpectedMessage, [])
        | Inr (WM_Ping p) \<Rightarrow>
            (case wt_pong t of
               Some e \<Rightarrow> (Inl (RE_WebSocket e), [])
             | None \<Rightarrow> (Inl (RE_WebSocket (WE_Io IO_WouldBlock)), [WM_Pong p]))
        | Inr (WM_Pong _) \<Rightarrow> (Inl (RE_WebSocket (WE_Io IO_WouldBlock)), [])
        | Inr WM_Close \<Rightarrow> (Inl (RE_Rejected (lit ''service closed the connection'')), [])
        | Inr _ \<Rightarrow> (Inl RE_UnexpectedMessage, []))"

definition would_block :: "render_error \<Rightarrow> bool" where
  "would_block e \<longleftrightarrow> e = RE_WebSocket (WE_Io IO_WouldBlock) \<or> e = RE_WebSocket (WE_Io IO_TimedOut)"

text \<open>The result (\<open>None\<close>: still polling), the messages sent, and the turns not used.\<close>

(* @src crates/sensor-render/src/lib.rs:702-718 read_until *)
fun read_until ::
  "json_lib \<Rightarrow> nat \<Rightarrow> ws_turn list \<Rightarrow> (render_error + control_message) option \<times> ws_message list \<times> ws_turn list" where
  "read_until J deadline [] = (None, [], [])"
| "read_until J deadline (t # ts) =
     (case check_cancelled (wt_cancelled t) of
        Inl e \<Rightarrow> (Some (Inl e), [], ts)
      | Inr _ \<Rightarrow>
          (case receive_control J deadline t of
             (Inl e, out) \<Rightarrow>
               if would_block e
               then (case read_until J deadline ts of (r, out', rest) \<Rightarrow> (r, out @ out', rest))
               else (Some (Inl e), out, ts)
           | (Inr m, out) \<Rightarrow> (Some (Inr m), out, ts)))"

lemma read_until_shorter: "read_until J deadline ts = (Some r, out, rest) \<Longrightarrow> length rest < length ts"
proof (induction ts arbitrary: out)
  case (Cons t ts)
  then show ?case
    by (fastforce split: sum.splits prod.splits if_splits)
qed simp

text \<open>Waiting for the service to confirm the registration.\<close>

(* @src crates/sensor-render/src/lib.rs:355-362 register: waiting for Registered *)
function await_registered ::
  "json_lib \<Rightarrow> nat \<Rightarrow> ws_turn list \<Rightarrow> (render_error + rstr) option \<times> ws_message list" where
  "await_registered J deadline ts =
     (case read_until J deadline ts of
        (None, out, _) \<Rightarrow> (None, out)
      | (Some (Inl e), out, _) \<Rightarrow> (Some (Inl e), out)
      | (Some (Inr m), out, rest) \<Rightarrow>
          (case m of
             CM_Registered token _ \<Rightarrow> (Some (Inr token), out)
           | CM_Error _ message \<Rightarrow> (Some (Inl (RE_Rejected message)), out)
           | CM_HeartbeatAck \<Rightarrow>
               (case await_registered J deadline rest of (r, out') \<Rightarrow> (r, out @ out'))
           | _ \<Rightarrow> (Some (Inl RE_UnexpectedMessage), out)))"
  by pat_completeness auto
termination
  by (relation "measure (\<lambda>(J, d, ts). length ts)") (auto dest!: read_until_shorter [OF sym])

(* @src crates/sensor-render/src/lib.rs:323-363 register *)
definition client_register ::
  "json_lib \<Rightarrow> crypto_lib \<Rightarrow> identity_keypair \<Rightarrow> device_id \<Rightarrow> nat \<Rightarrow> bool \<Rightarrow> ws_error option \<Rightarrow> ws_turn list
     \<Rightarrow> (render_error + rstr) option \<times> ws_message list" where
  "client_register J L kp did deadline listen send_result ts =
     (case read_until J deadline ts of
        (None, out, _) \<Rightarrow> (None, out)
      | (Some (Inl e), out, _) \<Rightarrow> (Some (Inl e), out)
      | (Some (Inr (CM_Challenge nonce_hex)), out, rest) \<Rightarrow>
          (case decode_hex 32 nonce_hex of
             Inl e \<Rightarrow> (Some (Inl e), out)
           | Inr _ \<Rightarrow>
               (case send_control J (register_answer L kp did nonce_hex listen) send_result of
                  (Inl e, out') \<Rightarrow> (Some (Inl e), out @ out')
                | (Inr _, out') \<Rightarrow>
                    (case await_registered J deadline rest of (r, out'') \<Rightarrow> (r, out @ out' @ out''))))
      | (Some (Inr _), out, _) \<Rightarrow> (Some (Inl RE_UnexpectedMessage), out))"

subsection \<open>Waiting for a peer\<close>

text \<open>The instants a waiting device keeps.\<close>

record wait_state =
  ws_last_heartbeat :: nat
  ws_last_ack :: nat

(* @src crates/sensor-render/src/lib.rs:374-408 wait_for_peer: one turn *)
definition wait_step ::
  "json_lib \<Rightarrow> rstr \<Rightarrow> nat option \<Rightarrow> wait_state \<Rightarrow> ws_turn
     \<Rightarrow> ((render_error + unit) + wait_state) \<times> ws_message list" where
  "wait_step J token deadline w t =
     (case check_cancelled (wt_cancelled t) of
        Inl e \<Rightarrow> (Inl (Inl e), [])
      | Inr _ \<Rightarrow>
          if (case deadline of None \<Rightarrow> False | Some d \<Rightarrow> wt_now t \<ge> d) \<or> wt_now t - ws_last_ack w > CONNECT_TIMEOUT
          then (Inl (Inl RE_Timeout), [])
          else case receive_control J (case deadline of None \<Rightarrow> wt_now t + CONNECT_TIMEOUT | Some d \<Rightarrow> d) t of
              (Inr (CM_PeerReady _ _), out) \<Rightarrow> (Inl (Inr ()), out)
            | (Inr CM_HeartbeatAck, out) \<Rightarrow> (Inr (w\<lparr>ws_last_ack := wt_after t\<rparr>), out)
            | (Inr (CM_Error _ message), out) \<Rightarrow> (Inl (Inl (RE_Rejected message)), out)
            | (Inr _, out) \<Rightarrow> (Inl (Inl RE_UnexpectedMessage), out)
            | (Inl e, out) \<Rightarrow>
                if would_block e
                then if wt_after t - ws_last_heartbeat w \<ge> HEARTBEAT
                  then (case send_control J (CM_Heartbeat token) (wt_send t) of
                      (Inl e', out') \<Rightarrow> (Inl (Inl e'), out @ out')
                    | (Inr _, out') \<Rightarrow> (Inr (w\<lparr>ws_last_heartbeat := wt_after t\<rparr>), out @ out'))
                  else (Inr w, out)
                else (Inl (Inl e), out))"

fun wait_loop ::
  "json_lib \<Rightarrow> rstr \<Rightarrow> nat option \<Rightarrow> wait_state \<Rightarrow> ws_turn list \<Rightarrow> (render_error + unit) option \<times> ws_message list" where
  "wait_loop J token deadline w [] = (None, [])"
| "wait_loop J token deadline w (t # ts) =
     (case wait_step J token deadline w t of
        (Inl r, out) \<Rightarrow> (Some r, out)
      | (Inr w', out) \<Rightarrow> (case wait_loop J token deadline w' ts of (r, out') \<Rightarrow> (r, out @ out')))"

(* @src crates/sensor-render/src/lib.rs:365-409 wait_for_peer *)
definition wait_for_peer ::
  "json_lib \<Rightarrow> rstr \<Rightarrow> nat option \<Rightarrow> nat \<Rightarrow> ws_turn list \<Rightarrow> (render_error + unit) option \<times> ws_message list" where
  "wait_for_peer J token timeout start ts =
     wait_loop J token (map_option (\<lambda>t. start + t) timeout)
       \<lparr>ws_last_heartbeat = start, ws_last_ack = start\<rparr> ts"

definition turn_acks :: "json_lib \<Rightarrow> ws_turn \<Rightarrow> bool" where
  "turn_acks J t \<longleftrightarrow> (\<exists>s. wt_read t = Inr (WM_Text s) \<and> js_from J s = Some CM_HeartbeatAck)"

definition turn_ready :: "json_lib \<Rightarrow> ws_turn \<Rightarrow> bool" where
  "turn_ready J t \<longleftrightarrow> (\<exists>s d k. wt_read t = Inr (WM_Text s) \<and> js_from J s = Some (CM_PeerReady d k)) \<and> \<not> wt_cancelled t"

lemma receive_control_Inr:
  "receive_control J d t = (Inr m, out) \<Longrightarrow>
     wt_now t < d \<and> out = [] \<and> (\<exists>s. wt_read t = Inr (WM_Text s) \<and> js_from J s = Some m)"
  by (auto simp: receive_control_def res_simps split: if_splits sum.splits ws_message.splits option.splits)

lemma wait_step_state:
  assumes "wait_step J token deadline w t = (Inr w', out)"
  shows "ws_last_ack w' = ws_last_ack w \<or> turn_acks J t \<and> ws_last_ack w' = wt_after t"
  using assms
  by (auto simp: wait_step_def turn_acks_def dest!: receive_control_Inr
      split: sum.splits if_splits prod.splits control_message.splits)

lemma wait_step_ready:
  assumes "wait_step J token deadline w t = (Inl (Inr u), out)"
  shows "turn_ready J t"
  using assms
  by (auto simp: wait_step_def turn_ready_def check_cancelled_def dest!: receive_control_Inr
      split: sum.splits if_splits prod.splits control_message.splits option.splits)

lemma wait_loop_ready:
  "wait_loop J token deadline w ts = (Some (Inr u), out) \<Longrightarrow> \<exists>t \<in> set ts. turn_ready J t"
proof (induction ts arbitrary: w out)
  case (Cons t ts)
  then show ?case
    by (auto split: prod.splits sum.splits dest: wait_step_ready)
qed simp

lemma wait_loop_ends:
  assumes "\<forall>t \<in> set ts. turn_acks J t \<longrightarrow> wt_after t \<le> a" and "ws_last_ack w \<le> a"
    and "ts \<noteq> []" and "wt_now (last ts) > a + CONNECT_TIMEOUT"
  shows "fst (wait_loop J token deadline w ts) \<noteq> None"
  using assms
proof (induction ts arbitrary: w)
  case (Cons t ts)
  show ?case
  proof (cases "wait_step J token deadline w t")
    case (Pair r out)
    show ?thesis
    proof (cases r)
      case (Inl o')
      then show ?thesis
        using Pair by simp
    next
      case (Inr w')
      have ack: "ws_last_ack w' \<le> a"
        using wait_step_state [of J token deadline w t w' out] Pair Inr Cons.prems by auto
      have "ts \<noteq> []"
      proof
        assume "ts = []"
        then show False
          using Pair Inr Cons.prems by (auto simp: wait_step_def check_cancelled_def split: if_splits)
      qed
      then have "fst (wait_loop J token deadline w' ts) \<noteq> None"
        using Cons.IH [OF _ ack] Cons.prems by simp
      then show ?thesis
        using Pair Inr by (auto split: prod.splits)
    qed
  qed
qed simp

text \<open>A waiting device never hangs on a dead service. Whatever the socket returns, once the clock
  is more than \<open>CONNECT_TIMEOUT\<close> past the start and past every heartbeat acknowledgement,
  \<open>wait_for_peer\<close> has returned; and it returns success only when a \<open>PeerReady\<close> message was read in a
  turn the user had not cancelled.\<close>

theorem wait_for_peer_ends:
  assumes "ts \<noteq> []" and "start \<le> a" and "list_all (\<lambda>t. turn_acks J t \<longrightarrow> wt_after t \<le> a) ts"
    and "wt_now (last ts) > a + CONNECT_TIMEOUT"
  shows "\<exists>r. fst (wait_for_peer J token timeout start ts) = Some r \<and>
    (r = Inr () \<longrightarrow> list_ex (turn_ready J) ts)"
proof -
  have "fst (wait_for_peer J token timeout start ts) \<noteq> None"
    unfolding wait_for_peer_def using assms by (intro wait_loop_ends [where a = a]) (auto simp: list_all_iff)
  then obtain r out where r: "wait_for_peer J token timeout start ts = (Some r, out)"
    by (cases "wait_for_peer J token timeout start ts") auto
  then have "r = Inr () \<Longrightarrow> list_ex (turn_ready J) ts"
    using wait_loop_ready unfolding wait_for_peer_def list_ex_iff by blast
  then show ?thesis
    using r by simp
qed

definition demo_json :: json_lib where
  "demo_json =
     \<lparr>js_to = (\<lambda>m. case m of CM_Heartbeat t \<Rightarrow> Some (1 # t) | CM_HeartbeatAck \<Rightarrow> Some [2] | _ \<Rightarrow> Some [0]),
      js_from = (\<lambda>s. if s = [2] then Some CM_HeartbeatAck else if s = [3] then Some (CM_PeerReady [] []) else None)\<rparr>"

definition quiet_turn :: "nat \<Rightarrow> ws_turn" where
  "quiet_turn now = \<lparr>wt_cancelled = False, wt_now = now, wt_read = Inl (WE_Io IO_WouldBlock),
     wt_pong = None, wt_send = None, wt_after = now\<rparr>"

lemma wait_for_peer_ends_witness:
  "\<exists>r. fst (wait_for_peer demo_json [9] None 0
     [quiet_turn 26000, (quiet_turn 30000)\<lparr>wt_read := Inr (WM_Text [2])\<rparr>, quiet_turn 120001]) = Some r"
  using wait_for_peer_ends [of "[quiet_turn 26000, (quiet_turn 30000)\<lparr>wt_read := Inr (WM_Text [2])\<rparr>,
      quiet_turn 120001]" 0 30000 demo_json "[9]" None]
  by (auto simp: quiet_turn_def turn_acks_def CONNECT_TIMEOUT_def)

subsection \<open>The bridge\<close>

text \<open>
  The variables of \<open>bridge\<close>, and what crossed it so far: the bytes read from TCP and the binary
  messages enqueued on the WebSocket, the bytes received in binary messages and the bytes TCP took.
\<close>

record bridge_state =
  br_pending :: bytes
  br_offset :: nat
  br_writing :: bool
  br_last_progress :: nat
  br_progressed :: bool
  br_from_tcp :: bytes
  br_to_ws :: "bytes list"
  br_from_ws :: bytes
  br_to_tcp :: bytes

text \<open>What the calls of one turn return. TCP takes as much of the offered bytes as it has room for.\<close>

record bridge_turn =
  bt_flush :: "ws_error option"
  bt_tcp_read :: "io_error + bytes"
  bt_send :: "ws_error option"
  bt_ws_read :: "ws_error + ws_message"
  bt_tcp_room :: "io_error + nat"
  bt_now :: nat

definition bridge_new :: "nat \<Rightarrow> bridge_state" where
  "bridge_new now =
     \<lparr>br_pending = [], br_offset = 0, br_writing = False, br_last_progress = now, br_progressed = False,
      br_from_tcp = [], br_to_ws = [], br_from_ws = [], br_to_tcp = []\<rparr>"

text \<open>Every phase returns whether the loop goes on.\<close>

(* @src crates/sensor-render/src/lib.rs:454-464 bridge: flush *)
definition bridge_flush :: "bridge_turn \<Rightarrow> bridge_state \<Rightarrow> bool \<times> bridge_state" where
  "bridge_flush t b =
     (if br_writing b
      then (case bt_flush t of
          None \<Rightarrow> (True, b\<lparr>br_writing := False, br_progressed := True\<rparr>)
        | Some (WE_Io IO_WouldBlock) \<Rightarrow> (True, b)
        | Some _ \<Rightarrow> (False, b))
      else (True, b))"

(* @src crates/sensor-render/src/lib.rs:465-485 bridge: TCP to WebSocket *)
definition bridge_upload :: "bridge_turn \<Rightarrow> bridge_state \<Rightarrow> bool \<times> bridge_state" where
  "bridge_upload t b =
     (if br_writing b then (True, b)
      else case bt_tcp_read t of
          Inr [] \<Rightarrow> (False, b)
        | Inr bs \<Rightarrow>
            let c = b\<lparr>br_progressed := True, br_from_tcp := br_from_tcp b @ bs\<rparr> in
            (case bt_send t of
               None \<Rightarrow> (True, c\<lparr>br_to_ws := br_to_ws b @ [bs]\<rparr>)
             | Some (WE_Io IO_WouldBlock) \<Rightarrow> (True, c\<lparr>br_to_ws := br_to_ws b @ [bs], br_writing := True\<rparr>)
             | Some _ \<Rightarrow> (False, c))
        | Inl IO_WouldBlock \<Rightarrow> (True, b)
        | Inl _ \<Rightarrow> (False, b))"

(* @src crates/sensor-render/src/lib.rs:486-504 bridge: WebSocket read *)
definition bridge_receive :: "bridge_turn \<Rightarrow> bridge_state \<Rightarrow> bool \<times> bridge_state" where
  "bridge_receive t b =
     (if br_offset b = length (br_pending b)
      then let c = b\<lparr>br_pending := [], br_offset := 0\<rparr> in
        (case bt_ws_read t of
           Inr (WM_Binary bs) \<Rightarrow>
             if length bs \<le> MAX_RELAY_BYTES
             then (True, c\<lparr>br_pending := bs, br_progressed := True, br_from_ws := br_from_ws b @ bs\<rparr>)
             else (False, c)
         | Inr (WM_Ping _) \<Rightarrow> (True, c\<lparr>br_writing := True, br_progressed := True\<rparr>)
         | Inr (WM_Pong _) \<Rightarrow> (True, c\<lparr>br_progressed := True\<rparr>)
         | Inr _ \<Rightarrow> (False, c)
         | Inl (WE_Io IO_WouldBlock) \<Rightarrow> (True, c)
         | Inl _ \<Rightarrow> (False, c))
      else (True, b))"

(* @src crates/sensor-render/src/lib.rs:505-515 bridge: TCP write *)
definition bridge_download :: "bridge_turn \<Rightarrow> bridge_state \<Rightarrow> bool \<times> bridge_state" where
  "bridge_download t b =
     (if br_offset b < length (br_pending b)
      then (let rest = drop (br_offset b) (br_pending b) in
        case bt_tcp_room t of
          Inr room \<Rightarrow>
            let n = min room (length rest) in
            if n = 0 then (False, b)
            else (True, b\<lparr>br_offset := br_offset b + n, br_progressed := True, br_to_tcp := br_to_tcp b @ take n rest\<rparr>)
        | Inl IO_WouldBlock \<Rightarrow> (True, b)
        | Inl _ \<Rightarrow> (False, b))
      else (True, b))"

(* @src crates/sensor-render/src/lib.rs:516-525 bridge: progress *)
definition bridge_progress :: "bridge_turn \<Rightarrow> bridge_state \<Rightarrow> bool \<times> bridge_state" where
  "bridge_progress t b =
     (if br_progressed b then (True, b\<lparr>br_last_progress := bt_now t\<rparr>)
      else if (br_writing b \<or> br_offset b < length (br_pending b)) \<and> bt_now t - br_last_progress b > 30000
      then (False, b) else (True, b))"

definition and_then :: "('s \<Rightarrow> bool \<times> 's) \<Rightarrow> bool \<times> 's \<Rightarrow> bool \<times> 's" where
  "and_then f r = (if fst r then f (snd r) else r)"

(* @src crates/sensor-render/src/lib.rs:452-526 bridge: one turn *)
definition bridge_step :: "bridge_turn \<Rightarrow> bridge_state \<Rightarrow> bool \<times> bridge_state" where
  "bridge_step t b =
     and_then (bridge_progress t) (and_then (bridge_download t) (and_then (bridge_receive t)
       (and_then (bridge_upload t) (bridge_flush t (b\<lparr>br_progressed := False\<rparr>)))))"

fun bridge_run :: "bridge_turn list \<Rightarrow> bool \<times> bridge_state \<Rightarrow> bool \<times> bridge_state" where
  "bridge_run [] r = r"
| "bridge_run (t # ts) r = bridge_run ts (and_then (bridge_step t) r)"

definition bridge_inv :: "bool \<Rightarrow> bridge_state \<Rightarrow> bool" where
  "bridge_inv live b \<longleftrightarrow>
     br_offset b \<le> length (br_pending b) \<and> length (br_pending b) \<le> MAX_RELAY_BYTES \<and>
     br_from_ws b = br_to_tcp b @ drop (br_offset b) (br_pending b) \<and>
     (if live then br_from_tcp b = concat (br_to_ws b)
      else \<exists>lost. br_from_tcp b = concat (br_to_ws b) @ lost)"

lemma bridge_inv_weaken: "bridge_inv True b \<Longrightarrow> bridge_inv live b"
  by (auto simp: bridge_inv_def)

lemma bridge_flush_inv: "bridge_inv True b \<Longrightarrow> case_prod bridge_inv (bridge_flush t b)"
  by (auto simp: bridge_flush_def bridge_inv_def split: option.splits ws_error.splits io_error.splits)

lemma bridge_upload_inv: "bridge_inv True b \<Longrightarrow> case_prod bridge_inv (bridge_upload t b)"
  by (auto simp: bridge_upload_def bridge_inv_def Let_def
      split: sum.splits list.splits option.splits ws_error.splits io_error.splits)

lemma bridge_receive_inv: "bridge_inv True b \<Longrightarrow> case_prod bridge_inv (bridge_receive t b)"
  by (auto simp: bridge_receive_def bridge_inv_def Let_def
      split: sum.splits ws_message.splits ws_error.splits io_error.splits)

lemma bridge_download_inv: "bridge_inv True b \<Longrightarrow> case_prod bridge_inv (bridge_download t b)"
proof -
  assume inv: "bridge_inv True b"
  have "take n (drop k xs) @ drop (k + n) xs = drop k xs" for n k and xs :: bytes
    by (metis append_take_drop_id drop_drop add.commute)
  then show ?thesis
    using inv by (auto simp: bridge_download_def bridge_inv_def Let_def split: sum.splits io_error.splits)
qed

lemma bridge_progress_inv: "bridge_inv True b \<Longrightarrow> case_prod bridge_inv (bridge_progress t b)"
  by (auto simp: bridge_progress_def bridge_inv_def)

lemma and_then_inv:
  assumes "case_prod bridge_inv r" and "\<And>b. bridge_inv True b \<Longrightarrow> case_prod bridge_inv (f b)"
  shows "case_prod bridge_inv (and_then f r)"
proof (cases r)
  case (Pair live b)
  then show ?thesis
    using assms(1) assms(2) [of b] by (cases live) (simp_all add: and_then_def)
qed

lemma bridge_step_inv: "bridge_inv True b \<Longrightarrow> case_prod bridge_inv (bridge_step t b)"
proof -
  assume "bridge_inv True b"
  then have "bridge_inv True (b\<lparr>br_progressed := False\<rparr>)"
    by (simp add: bridge_inv_def)
  then show ?thesis
    unfolding bridge_step_def
    by (intro and_then_inv bridge_flush_inv bridge_upload_inv bridge_receive_inv bridge_download_inv
        bridge_progress_inv)
qed

lemma bridge_run_inv: "case_prod bridge_inv r \<Longrightarrow> case_prod bridge_inv (bridge_run ts r)"
  by (induction ts r rule: bridge_run.induct) (simp_all add: and_then_inv bridge_step_inv)


end
