(* ===== verification/Sensor_Rendezvous.thy ===== *)
theory Sensor_Rendezvous
  imports Sensor_Render "HOL-Library.AList"
begin

section \<open>sensor-rendezvous: presence, registration and pairing\<close>

text \<open>
  The rendezvous server keeps a directory of listening devices behind one mutex and runs one thread
  per WebSocket. A thread authenticates its device with a fresh challenge, then polls its socket and
  its channel of peer offers. The model follows the critical sections: every function that locks the
  directory is a definition on the server state, and one turn of the polling loop is one step. A
  channel is the offer queue of the thread that created it (capacity 1), named by the number of its
  connection. Instants are milliseconds; random values and results of socket calls are inputs.
\<close>

subsection \<open>State\<close>

(* @src crates/sensor-rendezvous/src/main.rs:26-26 TOKEN_TTL_SECONDS *)
definition TOKEN_TTL_SECONDS :: nat where
  "TOKEN_TTL_SECONDS = 2592000"

(* @src crates/sensor-rendezvous/src/main.rs:27-27 PRESENCE_TTL *)
definition PRESENCE_TTL :: nat where
  "PRESENCE_TTL = 90000"

(* @src crates/sensor-rendezvous/src/main.rs:46-52 DeviceEntry *)
record device_entry =
  de_public_key :: bytes
  de_commands :: nat
  de_busy :: bool
  de_connection_id :: nat
  de_last_seen :: nat

(* @src crates/sensor-rendezvous/src/main.rs:54-59 PeerOffer *)
record peer_offer =
  po_initiator_device_id :: rstr
  po_initiator_public_key :: rstr
  po_websocket :: nat

(* @src crates/sensor-rendezvous/src/main.rs:61-70 Registration *)
record registration =
  rg_device_id :: rstr
  rg_public_key :: bytes
  rg_token_hash :: rstr
  rg_receiver :: nat
  rg_connection_id :: nat
  rg_registered_at :: nat
  rg_listen :: bool

text \<open>The variables of \<open>endpoint_loop\<close> beside the registration.\<close>

(* @src crates/sensor-rendezvous/src/main.rs:306-308 endpoint_loop: variables *)
record endpoint = registration +
  ep_last_seen :: nat
  ep_control_window :: nat
  ep_control_count :: nat

text \<open>
  \<open>sv_queue\<close> holds the offer waiting in a channel, \<open>sv_receivers\<close> the channels whose receiver lives,
  and \<open>sv_offers\<close> every offer that was ever put into a channel.
\<close>

(* @src crates/sensor-rendezvous/src/main.rs:72-76 State *)
record server =
  sv_devices :: "(rstr \<times> device_entry) list"
  sv_active_sessions :: nat
  sv_queue :: "nat \<Rightarrow> peer_offer option"
  sv_receivers :: "nat list"
  sv_offers :: "(nat \<times> peer_offer) list"

datatype server_error =
    SV_Text rstr
  | SV_Render render_error
  | SV_Socket ws_error

datatype server_out = SO_Control control_message | SO_Pong bytes

subsection \<open>The directory\<close>

(* @src crates/sensor-rendezvous/src/main.rs:663-667 expire_devices *)
definition expire_devices :: "nat \<Rightarrow> server \<Rightarrow> server" where
  "expire_devices now s =
     s\<lparr>sv_devices := filter (\<lambda>(_, e). now - de_last_seen e < PRESENCE_TTL) (sv_devices s)\<rparr>"

(* @src crates/sensor-rendezvous/src/main.rs:641-649 touch_device *)
definition touch_device :: "nat \<Rightarrow> rstr \<Rightarrow> nat \<Rightarrow> server \<Rightarrow> server" where
  "touch_device now device_id connection_id s =
     (case map_of (sv_devices s) device_id of
        None \<Rightarrow> s
      | Some e \<Rightarrow>
          if de_connection_id e = connection_id
          then s\<lparr>sv_devices := AList.update device_id (e\<lparr>de_last_seen := now\<rparr>) (sv_devices s)\<rparr>
          else s)"

(* @src crates/sensor-rendezvous/src/main.rs:651-661 presence_expired *)
definition presence_expired :: "nat \<Rightarrow> rstr \<Rightarrow> nat \<Rightarrow> server \<Rightarrow> bool" where
  "presence_expired now device_id connection_id s =
     (case map_of (sv_devices s) device_id of
        None \<Rightarrow> True
      | Some e \<Rightarrow> de_connection_id e \<noteq> connection_id \<or> now - de_last_seen e \<ge> PRESENCE_TTL)"

(* @src crates/sensor-rendezvous/src/main.rs:669-678 remove_device *)
definition remove_device :: "rstr \<Rightarrow> nat \<Rightarrow> server \<Rightarrow> server" where
  "remove_device device_id connection_id s =
     (case map_of (sv_devices s) device_id of
        None \<Rightarrow> s
      | Some e \<Rightarrow>
          if de_connection_id e = connection_id
          then s\<lparr>sv_devices := AList.delete device_id (sv_devices s)\<rparr> else s)"

(* @src crates/sensor-rendezvous/src/main.rs:583-602 find_target *)
definition find_target :: "nat \<Rightarrow> rstr \<Rightarrow> rstr \<Rightarrow> server \<Rightarrow> (rstr + nat) \<times> server" where
  "find_target now device_id expected_key s0 =
     (let s = expire_devices now s0 in
      case map_of (sv_devices s) device_id of
        None \<Rightarrow> (Inl (lit ''target device is offline''), s)
      | Some e \<Rightarrow>
          if de_busy e then (Inl (lit ''target is busy''), s)
          else if expected_key \<noteq> encode_hex (de_public_key e) \<and> expected_key \<noteq> encode_hex (replicate 32 0)
          then (Inl (lit ''target public key does not match''), s)
          else (Inr (de_commands e),
            s\<lparr>sv_devices := AList.update device_id (e\<lparr>de_busy := True\<rparr>) (sv_devices s)\<rparr>))"

text \<open>\<open>try_send\<close> on a channel of capacity 1: it fails when the receiver is gone or the channel full.\<close>

definition try_send :: "nat \<Rightarrow> peer_offer \<Rightarrow> server \<Rightarrow> server option" where
  "try_send chan offer s =
     (if chan \<notin> set (sv_receivers s) \<or> sv_queue s chan \<noteq> None then None
      else Some (s\<lparr>sv_queue := (sv_queue s)(chan := Some offer), sv_offers := sv_offers s @ [(chan, offer)]\<rparr>))"

definition try_recv :: "nat \<Rightarrow> server \<Rightarrow> peer_offer option \<times> server" where
  "try_recv chan s = (sv_queue s chan, s\<lparr>sv_queue := (sv_queue s)(chan := None)\<rparr>)"

(* @src crates/sensor-rendezvous/src/main.rs:840-850 canonical_id *)
definition canonical_id :: "rstr \<Rightarrow> rstr + rstr" where
  "canonical_id value =
     (case parse_u32 (filter (\<lambda>c. \<not> is_whitespace c) value) of
        None \<Rightarrow> Inl (lit ''invalid device ID'')
      | Some v \<Rightarrow> (case device_id_try_from (word_of_nat v) of
            Inl _ \<Rightarrow> Inl (lit ''invalid device ID'')
          | Inr d \<Rightarrow> Inr (device_id_display d)))"

subsection \<open>Tokens\<close>

(* @src crates/sensor-rendezvous/src/main.rs:631-633 token_hash_value_as_string *)
definition token_hash_value_as_string :: "bytes \<Rightarrow> rstr" where
  "token_hash_value_as_string value = encode_hex value"

(* @src crates/sensor-rendezvous/src/main.rs:617-629 decode_token_hash *)
definition decode_token_hash :: "rstr \<Rightarrow> bytes" where
  "decode_token_hash value =
     (let bs = as_bytes value in
      map (\<lambda>i. if 2 * i + 2 \<le> length bs
               then (case hex_byte (map unat (take 2 (drop (2 * i) bs))) of None \<Rightarrow> 0 | Some v \<Rightarrow> word_of_nat v)
               else 0) [0..<32])"

(* @src crates/sensor-rendezvous/src/main.rs:604-615 valid_token *)
definition valid_token :: "crypto_lib \<Rightarrow> rstr \<Rightarrow> rstr \<Rightarrow> bool" where
  "valid_token L supplied expected_hash =
     (if str_len supplied \<noteq> 64 \<or> \<not> list_all (\<lambda>b. is_hexdigit (unat b)) (as_bytes supplied) then False
      else fold (\<lambda>(a, b) diff. or diff (xor a b))
             (zip (token_hash L supplied) (decode_token_hash expected_hash)) 0 = 0)"

lemma xor_eq_0_iff: "xor a b = 0 \<longleftrightarrow> a = (b :: 'a :: len word)"
  by (auto simp: bit_eq_iff bit_xor_iff)

lemma fold_diff_eq_0:
  "fold (\<lambda>(a, b) diff. or diff (xor a b)) ps d = 0 \<longleftrightarrow> d = (0 :: u8) \<and> (\<forall>(a, b) \<in> set ps. a = b)"
  by (induction ps arbitrary: d) (auto simp: xor_eq_0_iff or_eq_0_iff)

lemma hex_of_bytes_slice:
  "i < length h \<Longrightarrow> take 2 (drop (2 * i) (hex_of_bytes h)) =
     [hex_char (unat (h ! i) div 16), hex_char (unat (h ! i) mod 16)]"
proof (induction h arbitrary: i)
  case (Cons b h)
  show ?case
  proof (cases i)
    case 0
    then show ?thesis
      by (simp add: hex_of_bytes_Cons numeral_2_eq_2)
  next
    case (Suc j)
    then show ?thesis
      using Cons by (simp add: hex_of_bytes_Cons)
  qed
qed simp

lemma decode_token_hash_encode:
  assumes "length h = 32"
  shows "decode_token_hash (encode_hex h) = h"
proof (rule nth_equalityI)
  fix i
  assume "i < length (decode_token_hash (encode_hex h))"
  then have i: "i < 32"
    by (simp add: decode_token_hash_def Let_def)
  have "unat (word_of_nat (hex_char n) :: u8) = hex_char n" if "n < 16" for n
    using hex_char_ascii [OF that] by (simp add: unat_of_nat)
  then have "map unat (take 2 (drop (2 * i) (as_bytes (encode_hex h)))) =
      [hex_char (unat (h ! i) div 16), hex_char (unat (h ! i) mod 16)]"
    using hex_of_bytes_slice [of i h] i assms
    by (simp add: encode_hex_def as_bytes_hex take_map drop_map)
  then show "decode_token_hash (encode_hex h) ! i = h ! i"
    using i assms by (simp add: decode_token_hash_def encode_hex_def as_bytes_hex hex_byte_of_byte)
qed (simp add: decode_token_hash_def assms Let_def)

lemma valid_token_iff:
  assumes "length h = 32" and "length (token_hash L supplied) = 32"
  shows "valid_token L supplied (token_hash_value_as_string h) \<longleftrightarrow>
    str_len supplied = 64 \<and> list_all (\<lambda>b. is_hexdigit (unat b)) (as_bytes supplied) \<and> token_hash L supplied = h"
proof -
  have "(\<forall>(a, b) \<in> set (zip xs ys). a = b) \<longleftrightarrow> xs = ys" if "length xs = length ys" for xs ys :: bytes
    using that by (induction xs ys rule: list_induct2) auto
  then show ?thesis
    using assms
    by (auto simp: valid_token_def token_hash_value_as_string_def decode_token_hash_encode fold_diff_eq_0)
qed

subsection \<open>Registration\<close>

(* @src crates/sensor-rendezvous/src/main.rs:754-762 send_control *)
definition server_send ::
  "json_lib \<Rightarrow> control_message \<Rightarrow> ws_error option \<Rightarrow> (server_error + unit) \<times> server_out list" where
  "server_send J m result =
     (case js_to J m of
        None \<Rightarrow> (Inl (SV_Text (lit ''json'')), [])
      | Some s \<Rightarrow>
          if str_len s > MAX_CONTROL_BYTES then (Inl (SV_Text (lit ''control message too large'')), [])
          else case result of
              Some e \<Rightarrow> (Inl (SV_Socket e), [])
            | None \<Rightarrow> (Inr (), [SO_Control m]))"

(* @src crates/sensor-rendezvous/src/main.rs:764-772 send_error *)
definition send_error ::
  "json_lib \<Rightarrow> rstr \<Rightarrow> rstr \<Rightarrow> ws_error option \<Rightarrow> (server_error + unit) \<times> server_out list" where
  "send_error J code message result = server_send J (CM_Error code message) result"

(* @src crates/sensor-rendezvous/src/main.rs:774-793 read_control *)
definition read_control ::
  "json_lib \<Rightarrow> ws_error + ws_message \<Rightarrow> ws_error option \<Rightarrow> (ws_error + control_message) \<times> server_out list" where
  "read_control J r pong =
     (case r of
        Inl e \<Rightarrow> (Inl e, [])
      | Inr (WM_Text s) \<Rightarrow>
          if str_len s \<le> MAX_CONTROL_BYTES then (ok_or (js_from J s) (WE_Io IO_InvalidData), [])
          else (Inl (WE_Io IO_InvalidData), [])
      | Inr (WM_Ping p) \<Rightarrow>
          (case pong of
             Some e \<Rightarrow> (Inl e, [])
           | None \<Rightarrow> (Inl (WE_Io IO_WouldBlock), [SO_Pong p]))
      | Inr _ \<Rightarrow> (Inl (WE_Io IO_InvalidData), []))"

text \<open>What a registering thread draws at random, and what its socket calls return.\<close>

record register_input =
  ri_challenge :: bytes
  ri_token :: bytes
  ri_connection_id :: nat
  ri_now :: nat
  ri_read :: "ws_error + ws_message"
  ri_sends :: "ws_error option \<times> ws_error option \<times> ws_error option"

text \<open>The checks of a Register message: the identity it proves.\<close>

(* @src crates/sensor-rendezvous/src/main.rs:221-240 register: checks *)
definition register_checks ::
  "crypto_lib \<Rightarrow> rstr \<Rightarrow> control_message \<Rightarrow> server_error + (rstr \<times> bytes \<times> bool)" where
  "register_checks L challenge m =
     (case m of
        CM_Register device_id public_key nonce signature listen \<Rightarrow>
          if nonce \<noteq> challenge
          then Inl (SV_Text (lit ''registration challenge does not match this connection''))
          else
          res_bind (map_err SV_Render (verify_registration L device_id public_key nonce signature listen)) (\<lambda>did.
          res_bind (map_err SV_Render (decode_public_key public_key)) (\<lambda>key.
            if public_key \<noteq> encode_hex key
            then Inl (SV_Text (lit ''public key must use lowercase hexadecimal encoding''))
            else Inr (device_id_display did, key, listen)))
      | _ \<Rightarrow> Inl (SV_Text (lit ''the first message must register the device'')))"

(* @src crates/sensor-rendezvous/src/main.rs:247-267 register: directory *)
definition register_device :: "rstr \<Rightarrow> bytes \<Rightarrow> nat \<Rightarrow> nat \<Rightarrow> nat \<Rightarrow> server \<Rightarrow> server_error + server" where
  "register_device device_id key chan connection_id now s =
     (if (case map_of (sv_devices s) device_id of None \<Rightarrow> False | Some e \<Rightarrow> de_public_key e \<noteq> key)
      then Inl (SV_Text (lit ''device ID is already registered with a different key''))
      else Inr (s\<lparr>sv_devices := AList.update device_id
             \<lparr>de_public_key = key, de_commands = chan, de_busy = False, de_connection_id = connection_id,
              de_last_seen = now\<rparr> (sv_devices s)\<rparr>))"

text \<open>\<open>chan\<close> is the number of the connection; its channel is created here.\<close>

(* @src crates/sensor-rendezvous/src/main.rs:210-288 register *)
definition server_register ::
  "crypto_lib \<Rightarrow> json_lib \<Rightarrow> nat \<Rightarrow> register_input \<Rightarrow> server
     \<Rightarrow> (server_error + registration) \<times> server_out list \<times> server" where
  "server_register L J chan i s =
     (let challenge = encode_hex (ri_challenge i);
          token = encode_hex (ri_token i);
          (send1, pong, send2) = ri_sends i
      in case server_send J (CM_Challenge challenge) send1 of
          (Inl e, out) \<Rightarrow> (Inl e, out, s)
        | (Inr _, out1) \<Rightarrow>
      (case read_control J (ri_read i) pong of
          (Inl e, out2) \<Rightarrow> (Inl (SV_Socket e), out1 @ out2, s)
        | (Inr m, out2) \<Rightarrow>
      (case register_checks L challenge m of
          Inl e \<Rightarrow> (Inl e, out1 @ out2, s)
        | Inr (device_id, key, listen) \<Rightarrow>
      (case (if listen then register_device device_id key chan (ri_connection_id i) (ri_now i) s else Inr s) of
          Inl e \<Rightarrow> (Inl e, out1 @ out2, s)
        | Inr s1 \<Rightarrow>
      (case server_send J (CM_Registered token TOKEN_TTL_SECONDS) send2 of
          (Inl e, out3) \<Rightarrow> (Inl e, out1 @ out2 @ out3, remove_device device_id (ri_connection_id i) s1)
        | (Inr _, out3) \<Rightarrow>
            (Inr \<lparr>rg_device_id = device_id, rg_public_key = key,
               rg_token_hash = token_hash_value_as_string (token_hash L token), rg_receiver = chan,
               rg_connection_id = ri_connection_id i, rg_registered_at = ri_now i, rg_listen = listen\<rparr>,
             out1 @ out2 @ out3, s1\<lparr>sv_receivers := chan # sv_receivers s1\<rparr>))))))"

subsection \<open>The endpoint loop\<close>

datatype turn_result =
    T_Continue endpoint
  | T_Done "server_error + unit"
  | T_Relay peer_offer
  | T_Handed

(* @src crates/sensor-rendezvous/src/main.rs:290-308 endpoint_loop: start *)
definition endpoint_start :: "registration \<Rightarrow> nat \<Rightarrow> endpoint" where
  "endpoint_start r now = registration.extend r \<lparr>ep_last_seen = now, ep_control_window = now, ep_control_count = 0\<rparr>"

definition ep_reply ::
  "json_lib \<Rightarrow> endpoint \<Rightarrow> control_message \<Rightarrow> ws_error option \<Rightarrow> server \<Rightarrow> turn_result \<times> server_out list \<times> server" where
  "ep_reply J ep m result s =
     (case server_send J m result of
        (Inl e, out) \<Rightarrow> (T_Done (Inl e), out, s)
      | (Inr _, out) \<Rightarrow> (T_Continue ep, out, s))"

(* @src crates/sensor-rendezvous/src/main.rs:356-404 endpoint_loop: Connect *)
definition ep_connect ::
  "crypto_lib \<Rightarrow> json_lib \<Rightarrow> nat \<Rightarrow> endpoint \<Rightarrow> nat \<Rightarrow> ws_error option \<Rightarrow> rstr \<Rightarrow> rstr \<Rightarrow> rstr \<Rightarrow> server
     \<Rightarrow> turn_result \<times> server_out list \<times> server" where
  "ep_connect L J conn ep now send supplied target_device_id target_public_key s =
     (if rg_listen ep
      then ep_reply J ep (CM_Error (lit ''invalid_state'') (lit ''listener cannot initiate a session'')) send s
      else if \<not> valid_token L supplied (rg_token_hash ep)
      then ep_reply J ep (CM_Error (lit ''unauthorized'') (lit ''registration token rejected'')) send s
      else
        (let s1 = touch_device now (rg_device_id ep) (rg_connection_id ep) s in
         case canonical_id target_device_id of
           Inl e \<Rightarrow> (T_Done (Inl (SV_Text e)), [], s1)
         | Inr target_id \<Rightarrow>
             if target_id = rg_device_id ep
             then ep_reply J ep (CM_Error (lit ''self_connection'') (lit ''choose another device'')) send s1
             else case find_target now target_id target_public_key s1 of
                 (Inl e, s2) \<Rightarrow> ep_reply J ep (CM_Error (lit ''target_unavailable'') e) send s2
               | (Inr chan, s2) \<Rightarrow>
                   (case try_send chan \<lparr>po_initiator_device_id = rg_device_id ep,
                        po_initiator_public_key = encode_hex (rg_public_key ep), po_websocket = conn\<rparr> s2 of
                      None \<Rightarrow> (T_Done (Inl (SV_Text (lit ''target disconnected before pairing''))), [], s2)
                    | Some s3 \<Rightarrow> (T_Handed, [], s3))))"

(* @src crates/sensor-rendezvous/src/main.rs:405-417 endpoint_loop: Heartbeat *)
definition ep_heartbeat ::
  "crypto_lib \<Rightarrow> json_lib \<Rightarrow> endpoint \<Rightarrow> nat \<Rightarrow> ws_error option \<Rightarrow> rstr \<Rightarrow> server
     \<Rightarrow> turn_result \<times> server_out list \<times> server" where
  "ep_heartbeat L J ep now send supplied s =
     (if \<not> valid_token L supplied (rg_token_hash ep)
      then ep_reply J ep (CM_Error (lit ''unauthorized'') (lit ''registration token rejected'')) send s
      else ep_reply J (ep\<lparr>ep_last_seen := now\<rparr>) CM_HeartbeatAck send
             (touch_device now (rg_device_id ep) (rg_connection_id ep) s))"

(* @src crates/sensor-rendezvous/src/main.rs:355-431 endpoint_loop: control message *)
definition ep_control ::
  "crypto_lib \<Rightarrow> json_lib \<Rightarrow> nat \<Rightarrow> endpoint \<Rightarrow> nat \<Rightarrow> ws_error option \<Rightarrow> control_message \<Rightarrow> server
     \<Rightarrow> turn_result \<times> server_out list \<times> server" where
  "ep_control L J conn ep now send m s =
     (case m of
        CM_Connect supplied target_device_id target_public_key \<Rightarrow>
          ep_connect L J conn ep now send supplied target_device_id target_public_key s
      | CM_Heartbeat supplied \<Rightarrow> ep_heartbeat L J ep now send supplied s
      | CM_Register _ _ _ _ _ \<Rightarrow>
          ep_reply J ep (CM_Error (lit ''invalid_state'') (lit ''device is already registered'')) send s
      | _ \<Rightarrow> ep_reply J ep (CM_Error (lit ''invalid_state'') (lit ''unexpected control message'')) send s)"

(* @src crates/sensor-rendezvous/src/main.rs:343-352 endpoint_loop: rate limit *)
definition ep_count :: "endpoint \<Rightarrow> nat \<Rightarrow> endpoint" where
  "ep_count ep now =
     (let ep1 = (if now - ep_control_window ep \<ge> 1000 then ep\<lparr>ep_control_window := now, ep_control_count := 0\<rparr> else ep)
      in ep1\<lparr>ep_control_count := ep_control_count ep1 + 1\<rparr>)"

record endpoint_input =
  et_now :: nat
  et_read :: "ws_error + ws_message"
  et_send :: "ws_error option"

(* @src crates/sensor-rendezvous/src/main.rs:343-448 endpoint_loop: read *)
definition ep_read ::
  "crypto_lib \<Rightarrow> json_lib \<Rightarrow> nat \<Rightarrow> endpoint \<Rightarrow> endpoint_input \<Rightarrow> server \<Rightarrow> turn_result \<times> server_out list \<times> server" where
  "ep_read L J conn ep i s =
     (case et_read i of
        Inr (WM_Text text) \<Rightarrow>
          if str_len text \<le> MAX_CONTROL_BYTES
          then (let ep1 = ep_count ep (et_now i) in
            if ep_control_count ep1 > 10 then (T_Done (Inl (SV_Text (lit ''control rate limit exceeded''))), [], s)
            else case js_from J text of
                None \<Rightarrow> (T_Done (Inl (SV_Text (lit ''invalid control JSON''))), [], s)
              | Some m \<Rightarrow> ep_control L J conn ep1 (et_now i) (et_send i) m s)
          else (T_Done (Inl (SV_Text (lit ''control message exceeds size limit''))), [], s)
      | Inr (WM_Ping payload) \<Rightarrow>
          (case et_send i of
             Some e \<Rightarrow> (T_Done (Inl (SV_Socket e)), [], s)
           | None \<Rightarrow> (T_Continue ep, [SO_Pong payload], s))
      | Inr (WM_Pong _) \<Rightarrow> (T_Continue ep, [], s)
      | Inr WM_Close \<Rightarrow> (T_Done (Inr ()), [], s)
      | Inr _ \<Rightarrow> (T_Done (Inl (SV_Text (lit ''binary data arrived before pairing''))), [], s)
      | Inl e \<Rightarrow>
          if e = WE_Io IO_WouldBlock \<or> e = WE_Io IO_TimedOut then (T_Continue ep, [], s)
          else (T_Done (Inl (SV_Socket e)), [], s))"

text \<open>A registered thread keeps a sender of its own channel, so \<open>try_recv\<close> never reports that the
  channel is disconnected: a replaced registration ends by \<open>presence_expired\<close>.\<close>

(* @src crates/sensor-rendezvous/src/main.rs:309-449 endpoint_loop: one turn *)
definition endpoint_turn ::
  "crypto_lib \<Rightarrow> json_lib \<Rightarrow> nat \<Rightarrow> endpoint \<Rightarrow> endpoint_input \<Rightarrow> server \<Rightarrow> turn_result \<times> server_out list \<times> server" where
  "endpoint_turn L J conn ep i s =
     (if et_now i - rg_registered_at ep \<ge> TOKEN_TTL_SECONDS * 1000
      then (T_Done (Inl (SV_Text (lit ''registration token expired''))), [], s)
      else if et_now i - ep_last_seen ep > PRESENCE_TTL \<or>
          (rg_listen ep \<and> presence_expired (et_now i) (rg_device_id ep) (rg_connection_id ep) s)
      then (T_Done (Inl (SV_Text (lit ''device presence expired''))), [], s)
      else case try_recv (rg_receiver ep) s of
          (Some offer, s1) \<Rightarrow> (T_Relay offer, [], s1\<lparr>sv_active_sessions := sv_active_sessions s1 + 1\<rparr>)
        | (None, s1) \<Rightarrow> ep_read L J conn ep i s1)"

subsection \<open>The server\<close>

text \<open>
  A connection is polling its socket or relaying a pair. The history records the connections that
  were opened, the challenges drawn for them, and everything sent to them.
\<close>

datatype conn_phase = CP_Endpoint endpoint | CP_Relay endpoint peer_offer

record system =
  sy_server :: server
  sy_conns :: "nat \<Rightarrow> conn_phase option"
  sy_opened :: "nat list"
  sy_challenges :: "bytes list"
  sy_log :: "(nat \<times> server_out) list"

text \<open>The announcement of a pair: first to the target, then to the initiator.\<close>

(* @src crates/sensor-rendezvous/src/main.rs:452-475 relay_pair: PeerReady *)
definition announce_pair ::
  "json_lib \<Rightarrow> nat \<Rightarrow> endpoint \<Rightarrow> peer_offer \<Rightarrow> ws_error option \<times> ws_error option
     \<Rightarrow> (server_error + unit) \<times> (nat \<times> server_out) list" where
  "announce_pair J conn ep offer r =
     (case server_send J (CM_PeerReady (po_initiator_device_id offer) (po_initiator_public_key offer)) (fst r) of
        (Inl e, out) \<Rightarrow> (Inl e, map (Pair conn) out)
      | (Inr _, out) \<Rightarrow>
          (case server_send J (CM_PeerReady (rg_device_id ep) (encode_hex (rg_public_key ep))) (snd r) of
             (r2, out2) \<Rightarrow> (r2, map (Pair conn) out @ map (Pair (po_websocket offer)) out2)))"

datatype server_event =
    EV_Open nat register_input
  | EV_Turn nat endpoint_input "ws_error option \<times> ws_error option"
  | EV_RelayEnd nat
  | EV_Query nat

definition system_new :: system where
  "system_new =
     \<lparr>sy_server = \<lparr>sv_devices = [], sv_active_sessions = 0, sv_queue = (\<lambda>_. None), sv_receivers = [], sv_offers = []\<rparr>,
      sy_conns = (\<lambda>_. None), sy_opened = [], sy_challenges = [], sy_log = []\<rparr>"

text \<open>The end of a connection: its entry leaves the directory and its receiver is dropped.\<close>

(* @src crates/sensor-rendezvous/src/main.rs:200-207 handle_websocket: end *)
definition endpoint_end :: "endpoint \<Rightarrow> server \<Rightarrow> server" where
  "endpoint_end ep s =
     (let s1 = remove_device (rg_device_id ep) (rg_connection_id ep) s
      in s1\<lparr>sv_receivers := filter (\<lambda>c. c \<noteq> rg_receiver ep) (sv_receivers s1)\<rparr>)"

definition sys_close :: "nat \<Rightarrow> endpoint \<Rightarrow> server \<Rightarrow> system \<Rightarrow> system" where
  "sys_close c ep s y = y\<lparr>sy_server := endpoint_end ep s, sy_conns := (sy_conns y)(c := None)\<rparr>"

definition sys_emit :: "(nat \<times> server_out) list \<Rightarrow> system \<Rightarrow> system" where
  "sys_emit out y = y\<lparr>sy_log := sy_log y @ out\<rparr>"

(* @src crates/sensor-rendezvous/src/main.rs:193-202 handle_websocket: registration *)
definition sys_open :: "crypto_lib \<Rightarrow> json_lib \<Rightarrow> (server_error \<Rightarrow> rstr) \<Rightarrow> nat \<Rightarrow> register_input \<Rightarrow> system \<Rightarrow> system" where
  "sys_open L J txt c i y =
     (let y1 = y\<lparr>sy_opened := c # sy_opened y, sy_challenges := ri_challenge i # sy_challenges y\<rparr> in
      case server_register L J c i (sy_server y) of
        (Inl e, out, s) \<Rightarrow>
          sys_emit (map (Pair c) (out @ snd (send_error J (lit ''registration_failed'') (txt e) (snd (snd (ri_sends i))))))
            (y1\<lparr>sy_server := s\<rparr>)
      | (Inr r, out, s) \<Rightarrow>
          sys_emit (map (Pair c) out)
            (y1\<lparr>sy_server := s, sy_conns := (sy_conns y)(c \<mapsto> CP_Endpoint (endpoint_start r (ri_now i)))\<rparr>))"

(* @src crates/sensor-rendezvous/src/main.rs:318-337 endpoint_loop: pairing *)
definition sys_turn ::
  "crypto_lib \<Rightarrow> json_lib \<Rightarrow> nat \<Rightarrow> endpoint \<Rightarrow> endpoint_input \<Rightarrow> ws_error option \<times> ws_error option \<Rightarrow> system \<Rightarrow> system" where
  "sys_turn L J c ep i r y =
     (case endpoint_turn L J c ep i (sy_server y) of
        (T_Continue ep', out, s) \<Rightarrow>
          sys_emit (map (Pair c) out) (y\<lparr>sy_server := s, sy_conns := (sy_conns y)(c \<mapsto> CP_Endpoint ep')\<rparr>)
      | (T_Done _, out, s) \<Rightarrow> sys_emit (map (Pair c) out) (sys_close c ep s y)
      | (T_Handed, out, s) \<Rightarrow> sys_emit (map (Pair c) out) (sys_close c ep s y)
      | (T_Relay offer, out, s) \<Rightarrow>
          (case announce_pair J c ep offer r of
             (Inl _, out') \<Rightarrow> sys_emit out' (sys_close c ep (s\<lparr>sv_active_sessions := sv_active_sessions s - 1\<rparr>) y)
           | (Inr _, out') \<Rightarrow>
               sys_emit out' (y\<lparr>sy_server := s, sy_conns := (sy_conns y)(c \<mapsto> CP_Relay ep offer)\<rparr>)))"

fun sys_step :: "crypto_lib \<Rightarrow> json_lib \<Rightarrow> (server_error \<Rightarrow> rstr) \<Rightarrow> system \<Rightarrow> server_event \<Rightarrow> system" where
  "sys_step L J txt y (EV_Open c i) = (if c \<in> set (sy_opened y) then y else sys_open L J txt c i y)"
| "sys_step L J txt y (EV_Turn c i r) =
     (case sy_conns y c of Some (CP_Endpoint ep) \<Rightarrow> sys_turn L J c ep i r y | _ \<Rightarrow> y)"
| "sys_step L J txt y (EV_RelayEnd c) =
     (case sy_conns y c of
        Some (CP_Relay ep offer) \<Rightarrow>
          sys_close c ep ((sy_server y)\<lparr>sv_active_sessions := sv_active_sessions (sy_server y) - 1\<rparr>) y
      | _ \<Rightarrow> y)"
| "sys_step L J txt y (EV_Query now) = y\<lparr>sy_server := expire_devices now (sy_server y)\<rparr>"

definition sys_run :: "crypto_lib \<Rightarrow> json_lib \<Rightarrow> (server_error \<Rightarrow> rstr) \<Rightarrow> server_event list \<Rightarrow> system" where
  "sys_run L J txt evs = foldl (sys_step L J txt) system_new evs"

subsection \<open>Vouched identities\<close>

definition vouched :: "crypto_lib \<Rightarrow> bytes list \<Rightarrow> rstr \<Rightarrow> rstr \<Rightarrow> bool" where
  "vouched L challenges device_id key_hex \<longleftrightarrow>
     (\<exists>did key challenge listen sig. device_id = device_id_display did \<and> device_id_wf did \<and>
        key_hex = encode_hex key \<and> length key = 32 \<and> challenge \<in> set challenges \<and>
        ed_verify_strict L key (registration_bytes device_id key_hex (encode_hex challenge) listen) sig)"

lemma vouched_mono: "vouched L cs d k \<Longrightarrow> set cs \<subseteq> set cs' \<Longrightarrow> vouched L cs' d k"
  unfolding vouched_def by blast

lemma decode_hex_of_encode: "decode_hex_variable (encode_hex c) = Inr n \<Longrightarrow> n = c"
  by (auto simp: decode_hex_variable_def encode_hex_def Let_def res_simps split: if_splits)

lemma register_checks_vouched:
  assumes "register_checks L (encode_hex c) m = Inr (d, key, listen)"
  shows "vouched L [c] d (encode_hex key)"
proof -
  obtain d0 k s did where m: "m = CM_Register d0 k (encode_hex c) s listen"
      "verify_registration L d0 k (encode_hex c) s listen = Inr did" "decode_hex 32 k = Inr key"
      "k = encode_hex key" "d = device_id_display did"
    using assms by (auto simp: register_checks_def decode_public_key_def res_simps split: control_message.splits if_splits)
  then show ?thesis
    using decode_hex_length [OF m(3)]
    by (auto simp: vouched_def verify_registration_Inr_iff identity_verify_Inr_iff device_id_try_from_Inr_iff
        dest!: decode_hex_of_encode)
qed

subsection \<open>What the critical sections do to the directory\<close>

abbreviation directory :: "server \<Rightarrow> rstr \<Rightarrow> device_entry option" where
  "directory s \<equiv> map_of (sv_devices s)"

text \<open>Entries may leave or become busy; the keys, channels and offers stay.\<close>

definition refreshes :: "server \<Rightarrow> server \<Rightarrow> bool" where
  "refreshes s s' \<longleftrightarrow>
     (distinct (map fst (sv_devices s)) \<longrightarrow> distinct (map fst (sv_devices s'))) \<and>
     (distinct (map fst (sv_devices s)) \<longrightarrow> (\<forall>d e'. directory s' d = Some e' \<longrightarrow>
        (\<exists>e. directory s d = Some e \<and> de_public_key e' = de_public_key e \<and>
           de_commands e' = de_commands e \<and> (de_busy e \<longrightarrow> de_busy e')))) \<and>
     sv_queue s' = sv_queue s \<and> sv_offers s' = sv_offers s"

lemma refreshes_refl [simp, intro]: "refreshes s s"
  by (auto simp: refreshes_def)

lemma refreshes_trans: "refreshes s t \<Longrightarrow> refreshes t u \<Longrightarrow> refreshes s u"
  unfolding refreshes_def by metis

lemma map_of_filterD:
  "distinct (map fst xs) \<Longrightarrow> map_of (filter P xs) k = Some v \<Longrightarrow> map_of xs k = Some v"
  by (auto dest!: map_of_SomeD intro: map_of_is_SomeI)

lemma distinct_filter_keys: "distinct (map fst xs) \<Longrightarrow> distinct (map fst (filter P xs))"
  by (induction xs) auto

lemma refreshes_expire: "refreshes s (expire_devices now s)"
  by (auto simp: refreshes_def expire_devices_def distinct_filter_keys dest: map_of_filterD)

lemma refreshes_update:
  assumes "directory s d = Some e" and "de_public_key e' = de_public_key e" and "de_commands e' = de_commands e"
    and "de_busy e \<Longrightarrow> de_busy e'"
  shows "refreshes s (s\<lparr>sv_devices := AList.update d e' (sv_devices s)\<rparr>)"
  using assms by (auto simp: refreshes_def update_conv' distinct_update)

lemma refreshes_touch: "refreshes s (touch_device now d c s)"
  by (auto simp: touch_device_def intro: refreshes_update split: option.splits)

lemma refreshes_remove: "refreshes s (remove_device d c s)"
  by (auto simp: remove_device_def refreshes_def delete_conv' distinct_delete simp del: map_of_eq_Some_iff
      split: option.splits if_splits)

lemma refreshes_find_target: "refreshes s (snd (find_target now d k s))"
  by (auto simp: find_target_def Let_def intro: refreshes_expire refreshes_trans [OF refreshes_expire refreshes_update]
      split: option.splits)

lemma find_target_Inr:
  assumes "find_target now d k s = (Inr chan, s')" and "distinct (map fst (sv_devices s))"
  obtains e where "directory s d = Some e" and "de_commands e = chan" and "\<not> de_busy e"
    and "now - de_last_seen e < PRESENCE_TTL"
    and "k = encode_hex (de_public_key e) \<or> k = encode_hex (replicate 32 0)"
    and "directory s' d = Some (e\<lparr>de_busy := True\<rparr>)"
proof -
  let ?s = "expire_devices now s"
  obtain e where e: "directory ?s d = Some e" "\<not> de_busy e" "de_commands e = chan"
      "k = encode_hex (de_public_key e) \<or> k = encode_hex (replicate 32 0)"
      "s' = ?s\<lparr>sv_devices := AList.update d (e\<lparr>de_busy := True\<rparr>) (sv_devices ?s)\<rparr>"
    using assms(1) by (auto simp: find_target_def Let_def split: option.splits if_splits)
  have "directory s d = Some e"
    using e(1) assms(2) by (auto simp: expire_devices_def simp del: map_of_eq_Some_iff dest: map_of_filterD)
  moreover have "now - de_last_seen e < PRESENCE_TTL"
    using e(1) by (auto simp: expire_devices_def dest!: map_of_SomeD)
  ultimately show thesis
    using e that by (simp add: update_conv')
qed

text \<open>One turn: the directory is refreshed, the own queue may be emptied, and only handing over adds an
  offer.\<close>

lemma ep_reply_server [simp]: "snd (snd (ep_reply J ep m r s)) = s"
  by (auto simp: ep_reply_def split: prod.splits sum.splits)

lemma ep_reply_result:
  "fst (ep_reply J ep m r s) = T_Continue ep \<or> (\<exists>e. fst (ep_reply J ep m r s) = T_Done (Inl e))"
  by (auto simp: ep_reply_def split: prod.splits sum.splits)

lemma touch_other: "d' \<noteq> d \<Longrightarrow> directory (touch_device now d c s) d' = directory s d'"
  by (auto simp: touch_device_def update_conv' split: option.splits)

definition quiet :: "server_out list \<Rightarrow> bool" where
  "quiet out \<longleftrightarrow> (\<forall>d k. SO_Control (CM_PeerReady d k) \<notin> set out)"

lemma server_send_quiet: "(\<And>d k. m \<noteq> CM_PeerReady d k) \<Longrightarrow> quiet (snd (server_send J m r))"
  by (auto simp: server_send_def quiet_def split: option.splits)

lemma ep_reply_quiet: "(\<And>d k. m \<noteq> CM_PeerReady d k) \<Longrightarrow> quiet (fst (snd (ep_reply J ep m r s)))"
  using server_send_quiet [of m J r] by (auto simp: ep_reply_def split: prod.splits sum.splits)

text \<open>What every turn that neither hands over nor relays does.\<close>

definition calm_turn :: "endpoint \<Rightarrow> server \<Rightarrow> turn_result \<times> server_out list \<times> server \<Rightarrow> bool" where
  "calm_turn ep s r \<longleftrightarrow>
     (case fst r of
        T_Continue ep' \<Rightarrow> registration.truncate ep' = registration.truncate ep
      | T_Done _ \<Rightarrow> True
      | _ \<Rightarrow> False) \<and> quiet (fst (snd r)) \<and> refreshes s (snd (snd r))"

lemma calm_reply:
  assumes "\<And>d k. m \<noteq> CM_PeerReady d k" and "refreshes s t"
    and "registration.truncate ep' = registration.truncate ep"
  shows "calm_turn ep s (ep_reply J ep' m r t)"
  using ep_reply_result [of J ep' m r t] ep_reply_quiet [OF assms(1), of J ep' r t] assms(2,3)
  by (auto simp: calm_turn_def)

text \<open>Handing over: what the message, the token and the directory were, and the offer that was made.\<close>

definition hands_over ::
  "crypto_lib \<Rightarrow> nat \<Rightarrow> endpoint \<Rightarrow> nat \<Rightarrow> rstr \<Rightarrow> rstr \<Rightarrow> rstr \<Rightarrow> server \<Rightarrow> server \<Rightarrow> bool" where
  "hands_over L conn ep now supplied target key s s' \<longleftrightarrow>
     (\<exists>tid e t. \<not> rg_listen ep \<and> valid_token L supplied (rg_token_hash ep) \<and> canonical_id target = Inr tid \<and>
        tid \<noteq> rg_device_id ep \<and> directory s tid = Some e \<and> \<not> de_busy e \<and>
        now - de_last_seen e < PRESENCE_TTL \<and>
        (key = encode_hex (de_public_key e) \<or> key = encode_hex (replicate 32 0)) \<and>
        refreshes s t \<and> directory t tid = Some (e\<lparr>de_busy := True\<rparr>) \<and>
        try_send (de_commands e) \<lparr>po_initiator_device_id = rg_device_id ep,
          po_initiator_public_key = encode_hex (rg_public_key ep), po_websocket = conn\<rparr> t = Some s')"

lemma ep_connect_cases:
  assumes "distinct (map fst (sv_devices s))"
  shows "calm_turn ep s (ep_connect L J conn ep now send tok target key s) \<or>
    (\<exists>s'. ep_connect L J conn ep now send tok target key s = (T_Handed, [], s') \<and>
       hands_over L conn ep now tok target key s s')"
proof -
  let ?s1 = "touch_device now (rg_device_id ep) (rg_connection_id ep) s"
  let ?r = "ep_connect L J conn ep now send tok target key s"
  have d1: "distinct (map fst (sv_devices ?s1))"
    using refreshes_touch assms unfolding refreshes_def by blast
  show ?thesis
  proof (cases "rg_listen ep \<or> \<not> valid_token L tok (rg_token_hash ep)")
    case True
    then show ?thesis
      by (auto simp: ep_connect_def intro!: calm_reply)
  next
    case auth: False
    show ?thesis
    proof (cases "canonical_id target")
      case (Inl e)
      then show ?thesis
        using auth by (simp add: ep_connect_def calm_turn_def quiet_def refreshes_touch)
    next
      case (Inr tid)
      obtain f s2 where f: "find_target now tid key ?s1 = (f, s2)"
        by (cases "find_target now tid key ?s1")
      have r2: "refreshes s s2"
        using refreshes_trans [OF refreshes_touch refreshes_find_target] f by (metis snd_conv)
      show ?thesis
      proof (cases "tid = rg_device_id ep \<or> isl f")
        case True
        then show ?thesis
          using auth Inr f r2 by (auto simp: ep_connect_def Let_def refreshes_touch intro!: calm_reply split: sum.splits)
      next
        case False
        then obtain chan where chan: "f = Inr chan"
          by (cases f) auto
        obtain e where e: "directory ?s1 tid = Some e" "de_commands e = chan" "\<not> de_busy e"
            "now - de_last_seen e < PRESENCE_TTL"
            "key = encode_hex (de_public_key e) \<or> key = encode_hex (replicate 32 0)"
            "directory s2 tid = Some (e\<lparr>de_busy := True\<rparr>)"
          using find_target_Inr [OF f [unfolded chan] d1] by blast
        have "directory s tid = Some e"
          using e(1) False touch_other by metis
        then show ?thesis
          using auth Inr f chan False e r2
          by (cases "try_send chan \<lparr>po_initiator_device_id = rg_device_id ep,
                po_initiator_public_key = encode_hex (rg_public_key ep), po_websocket = conn\<rparr> s2")
            (auto simp: ep_connect_def Let_def calm_turn_def quiet_def hands_over_def)
      qed
    qed
  qed
qed

lemma truncate_simps [simp]:
  "registration.truncate (ep\<lparr>ep_last_seen := a\<rparr>) = registration.truncate ep"
  "registration.truncate (ep\<lparr>ep_control_window := a\<rparr>) = registration.truncate ep"
  "registration.truncate (ep\<lparr>ep_control_count := b\<rparr>) = registration.truncate ep"
  by (simp_all add: registration.defs)

lemma ep_count_truncate [simp]: "registration.truncate (ep_count ep now) = registration.truncate ep"
  by (simp add: ep_count_def Let_def)

lemma ep_control_cases:
  assumes "distinct (map fst (sv_devices s))"
  shows "calm_turn ep s (ep_control L J conn ep now send m s) \<or>
    (\<exists>tok target key s'. m = CM_Connect tok target key \<and> ep_control L J conn ep now send m s = (T_Handed, [], s') \<and>
       hands_over L conn ep now tok target key s s')"
  using ep_connect_cases [OF assms]
  by (cases m) (auto simp: ep_control_def ep_heartbeat_def refreshes_touch intro!: calm_reply)

lemma endpoint_turn_cases:
  assumes "distinct (map fst (sv_devices s))"
  shows "calm_turn ep s (endpoint_turn L J conn ep i s) \<or>
    (\<exists>offer s'. endpoint_turn L J conn ep i s = (T_Relay offer, [], s') \<and> sv_queue s (rg_receiver ep) = Some offer \<and>
       s' = s\<lparr>sv_queue := (sv_queue s)(rg_receiver ep := None), sv_active_sessions := sv_active_sessions s + 1\<rparr>) \<or>
    (\<exists>text tok target key s'. et_read i = Inr (WM_Text text) \<and> js_from J text = Some (CM_Connect tok target key) \<and>
       endpoint_turn L J conn ep i s = (T_Handed, [], s') \<and>
       hands_over L conn (ep_count ep (et_now i)) (et_now i) tok target key s s')"
proof (cases "sv_queue s (rg_receiver ep)")
  case (Some offer)
  then show ?thesis
    by (auto simp: endpoint_turn_def try_recv_def calm_turn_def quiet_def)
next
  case None
  then have recv: "try_recv (rg_receiver ep) s = (None, s)"
    by (simp add: try_recv_def fun_upd_idem)
  show ?thesis
  proof (cases "\<exists>text m. et_read i = Inr (WM_Text text) \<and> js_from J text = Some m \<and>
      endpoint_turn L J conn ep i s = ep_control L J conn (ep_count ep (et_now i)) (et_now i) (et_send i) m s")
    case True
    then obtain msg m where m: "et_read i = Inr (WM_Text msg)" "js_from J msg = Some m"
      "endpoint_turn L J conn ep i s = ep_control L J conn (ep_count ep (et_now i)) (et_now i) (et_send i) m s"
      by blast
    have "calm_turn (ep_count ep (et_now i)) s r = calm_turn ep s r" for r
      by (cases "fst r") (simp_all add: calm_turn_def)
    then show ?thesis
      using ep_control_cases [OF assms, of "ep_count ep (et_now i)" L J conn "et_now i" "et_send i" m] m
      by (auto simp del: split_paired_Ex)
  next
    case False
    then show ?thesis
      using recv
      by (auto simp: endpoint_turn_def ep_read_def calm_turn_def quiet_def Let_def
          split: sum.splits ws_message.splits option.splits if_splits)
  qed
qed

text \<open>Pairing is authorised. When a turn of a connection ends with its socket handed to a target,
  the connection had not registered as a listener, the message it read was a Connect whose token is a
  64-digit token with the hash of the token issued to this connection, the target is another device
  that is in the directory, seen within \<open>PRESENCE_TTL\<close>, not busy, with the requested key or no key
  requested, and exactly one offer was made, to that device's channel, naming this connection's
  registered identity; the target is now busy.\<close>

theorem connect_requires:
  assumes "endpoint_turn L J conn ep i s = (T_Handed, out, s')" and "distinct (map fst (sv_devices s))"
    and "rg_token_hash ep = token_hash_value_as_string (token_hash L token)"
    and "\<forall>t. length (token_hash L t) = 32"
  shows "\<exists>text supplied target key tid e. et_read i = Inr (WM_Text text) \<and>
    js_from J text = Some (CM_Connect supplied target key) \<and> \<not> rg_listen ep \<and>
    str_len supplied = 64 \<and> token_hash L supplied = token_hash L token \<and>
    canonical_id target = Inr tid \<and> tid \<noteq> rg_device_id ep \<and> directory s tid = Some e \<and>
    \<not> de_busy e \<and> et_now i - de_last_seen e < PRESENCE_TTL \<and>
    (key = encode_hex (de_public_key e) \<or> key = encode_hex (replicate 32 0)) \<and>
    sv_offers s' = sv_offers s @ [(de_commands e, \<lparr>po_initiator_device_id = rg_device_id ep,
      po_initiator_public_key = encode_hex (rg_public_key ep), po_websocket = conn\<rparr>)] \<and>
    directory s' tid = Some (e\<lparr>de_busy := True\<rparr>) \<and> out = []"
proof -
  let ?ep = "ep_count ep (et_now i)"
  obtain msg supplied target key where r: "et_read i = Inr (WM_Text msg)"
      "js_from J msg = Some (CM_Connect supplied target key)" "out = []"
      "hands_over L conn ?ep (et_now i) supplied target key s s'"
    using endpoint_turn_cases [OF assms(2), of ep L J conn i] assms(1) by (auto simp: calm_turn_def)
  have same: "rg_device_id ?ep = rg_device_id ep" "rg_public_key ?ep = rg_public_key ep"
    "rg_token_hash ?ep = rg_token_hash ep" "rg_listen ?ep = rg_listen ep"
    by (simp_all add: ep_count_def Let_def)
  have "str_len supplied = 64 \<and> token_hash L supplied = token_hash L token"
    using r(4) valid_token_iff [of "token_hash L token" L supplied] assms(3,4) same
    by (auto simp: hands_over_def)
  then show ?thesis
    using r same by (auto simp: hands_over_def try_send_def refreshes_def split: if_splits)
qed

subsection \<open>The invariant\<close>

definition offered :: "server \<Rightarrow> nat set" where
  "offered s = fst ` set (sv_offers s)"

lemma offered_append [simp]: "offered (s\<lparr>sv_offers := sv_offers s @ [(c, offer)]\<rparr>) = insert c (offered s)"
  by (auto simp: offered_def)

definition entry_ok :: "(rstr \<Rightarrow> rstr \<Rightarrow> bool) \<Rightarrow> nat list \<Rightarrow> server \<Rightarrow> rstr \<Rightarrow> device_entry \<Rightarrow> bool" where
  "entry_ok V opened s d e \<longleftrightarrow>
     V d (encode_hex (de_public_key e)) \<and> de_commands e \<in> set opened \<and>
     (de_commands e \<in> offered s \<longrightarrow> de_busy e) \<and>
     (\<forall>d' e'. d' \<noteq> d \<longrightarrow> directory s d' = Some e' \<longrightarrow> de_commands e' \<noteq> de_commands e)"

definition server_ok :: "(rstr \<Rightarrow> rstr \<Rightarrow> bool) \<Rightarrow> nat list \<Rightarrow> server \<Rightarrow> bool" where
  "server_ok V opened s \<longleftrightarrow>
     distinct (map fst (sv_devices s)) \<and> distinct (map fst (sv_offers s)) \<and> offered s \<subseteq> set opened \<and>
     (\<forall>d e. directory s d = Some e \<longrightarrow> entry_ok V opened s d e) \<and>
     (\<forall>c offer. sv_queue s c = Some offer \<longrightarrow> V (po_initiator_device_id offer) (po_initiator_public_key offer))"

lemma server_okD:
  assumes "server_ok V opened s"
  shows "distinct (map fst (sv_devices s))" and "distinct (map fst (sv_offers s))"
    and "offered s \<subseteq> set opened"
    and "directory s d = Some e \<Longrightarrow> entry_ok V opened s d e"
    and "sv_queue s c = Some offer \<Longrightarrow> V (po_initiator_device_id offer) (po_initiator_public_key offer)"
  using assms unfolding server_ok_def by blast+

lemma server_okI:
  assumes "distinct (map fst (sv_devices s))" and "distinct (map fst (sv_offers s))"
    and "offered s \<subseteq> set opened"
    and "\<And>d e. directory s d = Some e \<Longrightarrow> entry_ok V opened s d e"
    and "\<And>c offer. sv_queue s c = Some offer \<Longrightarrow> V (po_initiator_device_id offer) (po_initiator_public_key offer)"
  shows "server_ok V opened s"
  using assms unfolding server_ok_def by blast

lemma server_ok_mono:
  assumes "server_ok V opened s" and "\<And>d k. V d k \<Longrightarrow> V' d k" and "set opened \<subseteq> set opened'"
  shows "server_ok V' opened' s"
proof (rule server_okI)
  show "entry_ok V' opened' s d e" if "directory s d = Some e" for d e
    using server_okD(4) [OF assms(1) that] assms(2,3) by (auto simp: entry_ok_def)
qed (use server_okD [OF assms(1)] assms(2,3) in blast)+

lemma server_ok_refreshes:
  assumes "server_ok V opened s" and "refreshes s t"
  shows "server_ok V opened t"
proof -
  note s = server_okD [OF assms(1)]
  have origin: "\<exists>e. directory s d = Some e \<and> de_public_key e' = de_public_key e \<and>
      de_commands e' = de_commands e \<and> (de_busy e \<longrightarrow> de_busy e')" if "directory t d = Some e'" for d e'
    using assms(2) s(1) that unfolding refreshes_def by blast
  have t: "distinct (map fst (sv_devices t))" "sv_queue t = sv_queue s" "sv_offers t = sv_offers s"
      "offered t = offered s"
    using assms(2) s(1) by (auto simp: refreshes_def offered_def)
  show ?thesis
  proof (rule server_okI)
    fix d e'
    assume new: "directory t d = Some e'"
    obtain e where e: "directory s d = Some e" "de_public_key e' = de_public_key e"
        "de_commands e' = de_commands e" "de_busy e \<longrightarrow> de_busy e'"
      using origin [OF new] by blast
    have "de_commands f \<noteq> de_commands e'" if other: "d' \<noteq> d" "directory t d' = Some f" for d' f
      using origin [OF other(2)] s(4) [OF e(1)] e(3) other(1) unfolding entry_ok_def by metis
    then show "entry_ok V opened t d e'"
      using s(4) [OF e(1)] e t(4) by (auto simp: entry_ok_def)
  qed (simp_all only: t s(2,3,5))
qed

lemma server_ok_register:
  assumes "server_ok V opened s" and "c \<notin> set opened" and "V d (encode_hex key)"
    and "register_device d key c cid now s = Inr t"
  shows "server_ok V (c # opened) t"
proof -
  note s = server_okD [OF assms(1)]
  let ?e = "\<lparr>de_public_key = key, de_commands = c, de_busy = False, de_connection_id = cid, de_last_seen = now\<rparr>"
  have t: "directory t = (directory s)(d \<mapsto> ?e)" "distinct (map fst (sv_devices t))"
    "sv_queue t = sv_queue s" "sv_offers t = sv_offers s" "offered t = offered s"
    using assms(4) s(1) by (auto simp: register_device_def update_conv' distinct_update offered_def split: if_splits)
  have c: "c \<notin> offered s"
    using s(3) assms(2) by blast
  have old: "de_commands e \<noteq> c" if "directory s d' = Some e" for d' e
    using s(4) [OF that] assms(2) by (auto simp: entry_ok_def)
  show ?thesis
  proof (rule server_okI)
    fix d' e'
    assume new: "directory t d' = Some e'"
    show "entry_ok V (c # opened) t d' e'"
    proof (cases "d' = d")
      case True
      then show ?thesis
        using new t(1,5) c old assms(3) by (auto simp: entry_ok_def)
    next
      case False
      then have e': "directory s d' = Some e'"
        using new t(1) by simp
      then show ?thesis
        using s(4) [OF e'] old [OF e'] t(1,5) by (auto simp: entry_ok_def split: if_splits)
    qed
  next
    show "offered t \<subseteq> set (c # opened)"
      using s(3) t(5) by auto
  qed (simp_all only: t(2-4) s(2,5))
qed

lemma server_ok_send:
  assumes "server_ok V opened t" and "directory t d = Some e" and "de_busy e"
    and "de_commands e \<notin> offered t" and "V (po_initiator_device_id offer) (po_initiator_public_key offer)"
    and "try_send (de_commands e) offer t = Some u"
  shows "server_ok V opened u"
proof -
  note t = server_okD [OF assms(1)]
  have u: "sv_devices u = sv_devices t" "sv_queue u = (sv_queue t)(de_commands e := Some offer)"
      "sv_offers u = sv_offers t @ [(de_commands e, offer)]" "offered u = insert (de_commands e) (offered t)"
    using assms(6) by (auto simp: try_send_def offered_def split: if_splits)
  have busy: "de_busy f" if "directory t d' = Some f" "de_commands f = de_commands e" for d' f
    using t(4) [OF assms(2)] that assms(2,3) unfolding entry_ok_def by (metis option.inject)
  show ?thesis
  proof (rule server_okI)
    show "entry_ok V opened u d' f" if new: "directory u d' = Some f" for d' f
      using t(4) [of d' f] new busy [of d' f] u by (simp add: entry_ok_def)
    show "distinct (map fst (sv_offers u))"
      using t(2) assms(4) u by (simp add: offered_def)
    show "offered u \<subseteq> set opened"
      using t(3) t(4) [OF assms(2)] u by (simp add: entry_ok_def)
    show "V (po_initiator_device_id x) (po_initiator_public_key x)" if "sv_queue u c = Some x" for c x
      using that t(5) assms(5) u(2) by (auto split: if_splits)
  qed (simp only: t(1) u(1))
qed

lemma server_ok_receivers [simp]:
  "server_ok V opened (s\<lparr>sv_receivers := rs\<rparr>) = server_ok V opened s"
  "server_ok V opened (s\<lparr>sv_active_sessions := n\<rparr>) = server_ok V opened s"
  by (simp_all add: server_ok_def entry_ok_def offered_def)

lemma server_ok_remove: "server_ok V opened s \<Longrightarrow> server_ok V opened (remove_device d c s)"
  using server_ok_refreshes refreshes_remove by blast

lemma server_ok_end: "server_ok V opened s \<Longrightarrow> server_ok V opened (endpoint_end ep s)"
  by (simp add: endpoint_end_def Let_def server_ok_remove)

lemma server_ok_recv:
  assumes "server_ok V opened s"
  shows "server_ok V opened (s\<lparr>sv_queue := (sv_queue s)(c := None), sv_active_sessions := n\<rparr>)"
proof (rule server_okI)
  fix d e
  assume "directory (s\<lparr>sv_queue := (sv_queue s)(c := None), sv_active_sessions := n\<rparr>) d = Some e"
  then show "entry_ok V opened (s\<lparr>sv_queue := (sv_queue s)(c := None), sv_active_sessions := n\<rparr>) d e"
    using server_okD(4) [OF assms, of d e] by (simp add: entry_ok_def offered_def)
qed (use server_okD(1,2,3,5) [OF assms] in \<open>auto simp: offered_def split: if_splits\<close>)

lemma quiet_append [simp]: "quiet (xs @ ys) \<longleftrightarrow> quiet xs \<and> quiet ys"
  by (auto simp: quiet_def)

lemma read_control_quiet: "read_control J r pong = (res, out) \<Longrightarrow> quiet out"
  by (auto simp: read_control_def quiet_def split: sum.splits ws_message.splits if_splits option.splits)

lemma server_send_quiet': "server_send J m r = (res, out) \<Longrightarrow> (\<And>d k. m \<noteq> CM_PeerReady d k) \<Longrightarrow> quiet out"
  using server_send_quiet [of m J r] by simp

lemma server_register_ok:
  assumes "server_ok (vouched L cs) opened s" and "c \<notin> set opened"
    and "server_register L J c i s = (res, out, t)"
  shows "server_ok (vouched L (ri_challenge i # cs)) (c # opened) t" and "quiet out"
    and "res = Inr r \<Longrightarrow> vouched L (ri_challenge i # cs) (rg_device_id r) (encode_hex (rg_public_key r))"
proof -
  let ?V = "vouched L (ri_challenge i # cs)"
  have weak: "server_ok ?V (c # opened) s" and mid: "server_ok ?V opened s"
    using assms(1) by (auto elim!: server_ok_mono intro: vouched_mono)
  obtain r1 pong r2 where sends: "ri_sends i = (r1, pong, r2)"
    by (cases "ri_sends i")
  obtain a out1 where a: "server_send J (CM_Challenge (encode_hex (ri_challenge i))) r1 = (a, out1)" "quiet out1"
    using server_send_quiet' by (metis control_message.distinct(7) surj_pair)
  obtain b out2 where b: "read_control J (ri_read i) pong = (b, out2)" "quiet out2"
    using read_control_quiet by (metis surj_pair)
  obtain g out3 where g: "server_send J (CM_Registered (encode_hex (ri_token i)) TOKEN_TTL_SECONDS) r2 = (g, out3)" "quiet out3"
    using server_send_quiet' by (metis control_message.distinct(29) surj_pair)
  note def = assms(3) [unfolded server_register_def Let_def sends prod.case a(1) b(1) g(1)]
  show "quiet out"
    using def a b g by (auto split: sum.splits prod.splits if_splits)
  have checks: "?V d (encode_hex key)" if "register_checks L (encode_hex (ri_challenge i)) m = Inr (d, key, listen)" for m d key listen
    using register_checks_vouched [OF that] by (rule vouched_mono) simp
  have reg: "server_ok ?V (c # opened) u"
    if "(if listen then register_device d key c cid now s else Inr s) = Inr u" "?V d (encode_hex key)" for listen d key cid now u
    using that server_ok_register [OF mid assms(2)] weak by (auto split: if_splits)
  show "server_ok ?V (c # opened) t"
    using def weak checks reg by (auto split: sum.splits prod.splits intro!: server_ok_remove)
  show "?V (rg_device_id r) (encode_hex (rg_public_key r))" if "res = Inr r"
    using def that checks by (auto split: sum.splits prod.splits)
qed

subsection \<open>The system invariant\<close>

fun phase_endpoint :: "conn_phase \<Rightarrow> endpoint" where
  "phase_endpoint (CP_Endpoint ep) = ep"
| "phase_endpoint (CP_Relay ep offer) = ep"

definition announced :: "(nat \<times> server_out) list \<Rightarrow> (rstr \<times> rstr) set" where
  "announced sent = {(d, k). \<exists>c. (c, SO_Control (CM_PeerReady d k)) \<in> set sent}"

lemma announced_append [simp]: "announced (xs @ ys) = announced xs \<union> announced ys"
  by (auto simp: announced_def)

lemma announced_quiet: "quiet out \<Longrightarrow> announced (map (Pair c) out) = {}"
  by (auto simp: announced_def quiet_def)

definition sys_ok :: "crypto_lib \<Rightarrow> system \<Rightarrow> bool" where
  "sys_ok L y \<longleftrightarrow>
     server_ok (vouched L (sy_challenges y)) (sy_opened y) (sy_server y) \<and>
     (\<forall>c ph. sy_conns y c = Some ph \<longrightarrow>
        vouched L (sy_challenges y) (rg_device_id (phase_endpoint ph)) (encode_hex (rg_public_key (phase_endpoint ph)))) \<and>
     announced (sy_log y) \<subseteq> {(d, k). vouched L (sy_challenges y) d k}"

lemma sys_ok_emit:
  "sys_ok L y \<Longrightarrow> announced out \<subseteq> {(d, k). vouched L (sy_challenges y) d k} \<Longrightarrow> sys_ok L (sys_emit out y)"
  by (simp add: sys_ok_def sys_emit_def)

lemma sys_ok_quiet: "sys_ok L y \<Longrightarrow> quiet out \<Longrightarrow> sys_ok L (sys_emit (map (Pair c) out) y)"
  by (rule sys_ok_emit) (simp_all add: announced_quiet)

lemma sys_ok_close:
  "sys_ok L y \<Longrightarrow> server_ok (vouched L (sy_challenges y)) (sy_opened y) s \<Longrightarrow> sys_ok L (sys_close c ep s y)"
  by (simp add: sys_ok_def sys_close_def server_ok_end)

lemma sys_ok_update:
  assumes "sys_ok L y" and "server_ok (vouched L (sy_challenges y)) (sy_opened y) s"
    and "vouched L (sy_challenges y) (rg_device_id (phase_endpoint ph)) (encode_hex (rg_public_key (phase_endpoint ph)))"
  shows "sys_ok L (y\<lparr>sy_server := s, sy_conns := (sy_conns y)(c \<mapsto> ph)\<rparr>)"
  using assms by (simp add: sys_ok_def)

lemma truncate_same:
  assumes "registration.truncate ep' = registration.truncate ep"
  shows "rg_device_id ep' = rg_device_id ep" and "rg_public_key ep' = rg_public_key ep"
  using assms by (simp_all add: registration.defs)

lemma announce_pair_names:
  assumes "announce_pair J c ep offer r = (res, out)"
  shows "announced out \<subseteq> {(po_initiator_device_id offer, po_initiator_public_key offer),
    (rg_device_id ep, encode_hex (rg_public_key ep))}"
proof -
  have "set out \<subseteq> {(c, SO_Control (CM_PeerReady (po_initiator_device_id offer) (po_initiator_public_key offer))),
      (po_websocket offer, SO_Control (CM_PeerReady (rg_device_id ep) (encode_hex (rg_public_key ep))))}"
    using assms by (auto simp: announce_pair_def server_send_def split: prod.splits sum.splits option.splits if_splits)
  then show ?thesis
    by (auto simp: announced_def)
qed

lemma sys_turn_ok:
  assumes y: "sys_ok L y" and c: "sy_conns y c = Some (CP_Endpoint ep)"
  shows "sys_ok L (sys_turn L J c ep i r y)"
proof -
  let ?V = "vouched L (sy_challenges y)" and ?s = "sy_server y"
  have s: "server_ok ?V (sy_opened y) ?s"
    using y by (simp add: sys_ok_def)
  have self: "?V (rg_device_id ep) (encode_hex (rg_public_key ep))"
    using y c unfolding sys_ok_def by (metis phase_endpoint.simps(1))
  obtain res out t where turn: "endpoint_turn L J c ep i ?s = (res, out, t)"
    by (cases "endpoint_turn L J c ep i ?s")
  consider (calm) "calm_turn ep ?s (res, out, t)"
    | (relay) offer where "res = T_Relay offer" "out = []" "sv_queue ?s (rg_receiver ep) = Some offer"
        "t = ?s\<lparr>sv_queue := (sv_queue ?s)(rg_receiver ep := None), sv_active_sessions := sv_active_sessions ?s + 1\<rparr>"
    | (handed) tok target key where "res = T_Handed" "out = []"
        "hands_over L c (ep_count ep (et_now i)) (et_now i) tok target key ?s t"
    using endpoint_turn_cases [OF server_okD(1) [OF s], of ep L J c i] turn by auto
  then show ?thesis
  proof cases
    case calm
    then have t: "server_ok ?V (sy_opened y) t" and q: "quiet out"
      using server_ok_refreshes [OF s] by (auto simp: calm_turn_def)
    show ?thesis
    proof (cases res)
      case (T_Continue ep')
      then have "?V (rg_device_id ep') (encode_hex (rg_public_key ep'))"
        using calm self truncate_same [of ep' ep] by (simp add: calm_turn_def)
      then show ?thesis
        using turn T_Continue sys_ok_quiet [OF sys_ok_update [OF y t, of "CP_Endpoint ep'"] q]
        by (simp add: sys_turn_def)
    next
      case (T_Done x)
      then show ?thesis
        using turn sys_ok_quiet [OF sys_ok_close [OF y t] q] by (simp add: sys_turn_def)
    qed (use calm in \<open>simp_all add: calm_turn_def\<close>)
  next
    case relay
    have t: "server_ok ?V (sy_opened y) t"
      unfolding relay(4) by (rule server_ok_recv [OF s])
    obtain a out' where a: "announce_pair J c ep offer r = (a, out')"
      by (cases "announce_pair J c ep offer r")
    have names: "announced out' \<subseteq> {(d, k). ?V d k}"
      using announce_pair_names [OF a] self server_okD(5) [OF s relay(3)] by auto
    have "sys_ok L (sys_emit out' (sys_close c ep (t\<lparr>sv_active_sessions := n\<rparr>) y))" for n
      using sys_ok_close [OF y, of "t\<lparr>sv_active_sessions := n\<rparr>" c ep] t names
      by (intro sys_ok_emit) (simp_all add: sys_close_def)
    moreover have "sys_ok L (sys_emit out' (y\<lparr>sy_server := t, sy_conns := (sy_conns y)(c \<mapsto> CP_Relay ep offer)\<rparr>))"
      using sys_ok_update [OF y t, of "CP_Relay ep offer" c] self names by (intro sys_ok_emit) simp_all
    ultimately show ?thesis
      using turn relay(1) a by (cases a) (simp_all add: sys_turn_def)
  next
    case handed
    have same: "rg_device_id (ep_count ep (et_now i)) = rg_device_id ep"
      "rg_public_key (ep_count ep (et_now i)) = rg_public_key ep"
      by (rule truncate_same [OF ep_count_truncate])+
    obtain tid e u where u: "directory ?s tid = Some e" "\<not> de_busy e" "refreshes ?s u"
        "directory u tid = Some (e\<lparr>de_busy := True\<rparr>)"
        "try_send (de_commands e) \<lparr>po_initiator_device_id = rg_device_id ep,
           po_initiator_public_key = encode_hex (rg_public_key ep), po_websocket = c\<rparr> u = Some t"
      using handed(3) same unfolding hands_over_def by auto
    have "de_commands e \<notin> offered u"
      using server_okD(4) [OF s u(1)] u(2,3) by (auto simp: entry_ok_def refreshes_def offered_def)
    moreover have "try_send (de_commands (e\<lparr>de_busy := True\<rparr>)) \<lparr>po_initiator_device_id = rg_device_id ep,
        po_initiator_public_key = encode_hex (rg_public_key ep), po_websocket = c\<rparr> u = Some t"
      using u(5) by simp
    ultimately have t: "server_ok ?V (sy_opened y) t"
      using self by (intro server_ok_send [OF server_ok_refreshes [OF s u(3)] u(4)]) simp_all
    show ?thesis
      using turn handed(1,2) sys_ok_quiet [OF sys_ok_close [OF y t], of "[]" c c ep]
      by (simp add: sys_turn_def quiet_def)
  qed
qed

lemma sys_open_ok:
  assumes y: "sys_ok L y" and "c \<notin> set (sy_opened y)"
  shows "sys_ok L (sys_open L J txt c i y)"
proof -
  let ?y = "y\<lparr>sy_opened := c # sy_opened y, sy_challenges := ri_challenge i # sy_challenges y\<rparr>"
  obtain res out t where reg: "server_register L J c i (sy_server y) = (res, out, t)"
    by (cases "server_register L J c i (sy_server y)")
  have s: "server_ok (vouched L (sy_challenges y)) (sy_opened y) (sy_server y)"
    using y by (simp add: sys_ok_def)
  note r = server_register_ok [OF s assms(2) reg]
  have t: "sys_ok L (?y\<lparr>sy_server := t\<rparr>)"
  proof -
    have mono: "vouched L (ri_challenge i # sy_challenges y) d k" if "vouched L (sy_challenges y) d k" for d k
      using that by (rule vouched_mono) auto
    have "announced (sy_log y) \<subseteq> {(d, k). vouched L (ri_challenge i # sy_challenges y) d k}"
      using y mono unfolding sys_ok_def by blast
    moreover have "vouched L (ri_challenge i # sy_challenges y) (rg_device_id (phase_endpoint ph))
        (encode_hex (rg_public_key (phase_endpoint ph)))" if "sy_conns y c' = Some ph" for c' ph
      using y that mono unfolding sys_ok_def by blast
    ultimately show ?thesis
      using r(1) by (simp add: sys_ok_def)
  qed
  have "quiet (snd (send_error J (lit ''registration_failed'') m x))" for m x
    unfolding send_error_def by (rule server_send_quiet) simp
  then have "sys_ok L (sys_open L J txt c i y)" if "res = Inl e" for e
    using that reg sys_ok_quiet [OF t] r(2) by (simp add: sys_open_def del: map_append)
  moreover have "sys_ok L (sys_open L J txt c i y)" if "res = Inr g" for g
  proof -
    have "rg_device_id (endpoint_start g n) = rg_device_id g" "rg_public_key (endpoint_start g n) = rg_public_key g" for n
      by (simp_all add: endpoint_start_def registration.defs)
    then have "sys_ok L (?y\<lparr>sy_server := t, sy_conns := (sy_conns y)(c \<mapsto> CP_Endpoint (endpoint_start g (ri_now i)))\<rparr>)"
      using sys_ok_update [OF t, of t "CP_Endpoint (endpoint_start g (ri_now i))" c] r(1) r(3) [OF that] by simp
    then show ?thesis
      using that reg sys_ok_quiet r(2) by (simp add: sys_open_def)
  qed
  ultimately show ?thesis
    by (cases res) auto
qed

lemma sys_step_ok: "sys_ok L y \<Longrightarrow> sys_ok L (sys_step L J txt y ev)"
proof (cases ev)
  case (EV_RelayEnd c)
  assume y: "sys_ok L y"
  moreover have "server_ok (vouched L (sy_challenges y)) (sy_opened y) (sy_server y)"
    using y by (simp add: sys_ok_def)
  ultimately show ?thesis
    using EV_RelayEnd by (auto intro!: sys_ok_close split: option.splits conn_phase.splits)
next
  case (EV_Query now)
  assume y: "sys_ok L y"
  then show ?thesis
    using EV_Query server_ok_refreshes [OF _ refreshes_expire] by (simp add: sys_ok_def)
qed (auto intro: sys_open_ok sys_turn_ok split: option.splits conn_phase.splits)

lemma sys_run_ok: "sys_ok L (sys_run L J txt evs)"
  unfolding sys_run_def
proof (induction evs rule: rev_induct)
  case Nil
  then show ?case
    by (simp add: sys_ok_def system_new_def server_ok_def offered_def announced_def)
next
  case (snoc ev evs)
  then show ?case
    by (simp add: sys_step_ok)
qed

text \<open>C5: The server only introduces authenticated devices. After every sequence of connections,
  turns, relays and queries, with any results of the socket calls, every identity named in a
  \<open>PeerReady\<close> message that was ever sent is a valid device ID with a 32-byte key under which a
  registration over one of the challenges this server drew was signed; and so is every directory
  entry.\<close>

theorem peers_vouched:
  "{(d, k). \<exists>c. (c, SO_Control (CM_PeerReady d k)) \<in> set (sy_log (sys_run L J txt evs))} \<union>
   {(d, k). \<exists>e. directory (sy_server (sys_run L J txt evs)) d = Some e \<and> k = encode_hex (de_public_key e)} \<subseteq>
   {(d, k). vouched L (sy_challenges (sys_run L J txt evs)) d k}"
proof -
  let ?y = "sys_run L J txt evs"
  have ok: "sys_ok L ?y"
    by (rule sys_run_ok)
  then have "announced (sy_log ?y) \<subseteq> {(d, k). vouched L (sy_challenges ?y) d k}"
    by (simp add: sys_ok_def)
  moreover have "vouched L (sy_challenges ?y) d (encode_hex (de_public_key e))"
    if "directory (sy_server ?y) d = Some e" for d e
    using ok server_okD(4) [OF _ that] unfolding sys_ok_def entry_ok_def by blast
  ultimately show ?thesis
    by (auto simp: announced_def)
qed

text \<open>C26: A registration is paired at most once. After every run no channel was ever given two offers,
  each channel belongs to at most one directory entry, and an entry whose channel was given an offer
  stays busy until the device registers again.\<close>

theorem one_offer_per_registration:
  "distinct (map fst (sv_offers (sy_server (sys_run L J txt evs)))) \<and>
   distinct (map (de_commands \<circ> snd) (sv_devices (sy_server (sys_run L J txt evs)))) \<and>
   {d. \<exists>e. directory (sy_server (sys_run L J txt evs)) d = Some e \<and> \<not> de_busy e \<and>
      de_commands e \<in> fst ` set (sv_offers (sy_server (sys_run L J txt evs)))} = {}"
proof -
  let ?y = "sys_run L J txt evs" and ?s = "sy_server (sys_run L J txt evs)"
  have ok: "server_ok (vouched L (sy_challenges ?y)) (sy_opened ?y) ?s"
    using sys_run_ok by (simp add: sys_ok_def)
  note s = server_okD [OF ok]
  have "inj_on (de_commands \<circ> snd) (set (sv_devices ?s))"
  proof (rule inj_onI)
    fix x y
    assume xy: "x \<in> set (sv_devices ?s)" "y \<in> set (sv_devices ?s)" "(de_commands \<circ> snd) x = (de_commands \<circ> snd) y"
    then have d: "directory ?s (fst x) = Some (snd x)" "directory ?s (fst y) = Some (snd y)"
      using s(1) by (auto simp: map_of_eq_Some_iff)
    then have "fst x = fst y"
      using s(4) [OF d(1)] xy(3) unfolding entry_ok_def by (metis comp_apply)
    then show "x = y"
      using d by (metis option.inject prod.expand)
  qed
  then have "distinct (map (de_commands \<circ> snd) (sv_devices ?s))"
    using s(1) by (simp add: distinct_map)
  then show ?thesis
    using s(2,4) unfolding entry_ok_def offered_def by blast
qed

text \<open>A run with two devices: a listener and a connecting device that is handed to it.\<close>

definition demo_entry :: device_entry where
  "demo_entry = \<lparr>de_public_key = demo_key 2, de_commands = 7, de_busy = False, de_connection_id = 70, de_last_seen = 0\<rparr>"

definition demo_server :: server where
  "demo_server = \<lparr>sv_devices = [(device_id_display demo_id, demo_entry)], sv_active_sessions = 0,
     sv_queue = (\<lambda>_. None), sv_receivers = [7], sv_offers = []\<rparr>"

definition demo_endpoint :: endpoint where
  "demo_endpoint = endpoint_start \<lparr>rg_device_id = device_id_display (DeviceId 222222222), rg_public_key = demo_key 3,
     rg_token_hash = token_hash_value_as_string (token_hash demo_lib (encode_hex (demo_key 5))), rg_receiver = 8,
     rg_connection_id = 80, rg_registered_at = 0, rg_listen = False\<rparr> 0"

definition demo_control_json :: json_lib where
  "demo_control_json = \<lparr>js_to = (\<lambda>_. Some []),
     js_from = (\<lambda>_. Some (CM_Connect (encode_hex (demo_key 5)) (device_id_display demo_id) (encode_hex (demo_key 2))))\<rparr>"

definition demo_input :: endpoint_input where
  "demo_input = \<lparr>et_now = 10, et_read = Inr (WM_Text []), et_send = None\<rparr>"

lemma canonical_display: "device_id_wf d \<Longrightarrow> canonical_id (device_id_display d) = Inr (device_id_display d)"
proof -
  assume "device_id_wf d"
  moreover from this have "device_id_try_from (word_of_nat (unat (did_value d))) = Inr d"
    by (cases d) (simp add: device_id_try_from_Inr_iff)
  ultimately show ?thesis
    by (simp add: canonical_id_def device_id_display_parse)
qed

lemma demo_token_length: "length (token_hash demo_lib t) = 32"
  by (simp add: token_hash_def demo_lib_def)

lemma demo_display_neq: "device_id_display (DeviceId 222222222) \<noteq> device_id_display demo_id"
proof -
  have "device_id_wf (DeviceId 222222222)" "DeviceId 222222222 \<noteq> demo_id"
    by (simp_all add: device_id_wf_def demo_id_def)
  then show ?thesis
    using display_inject demo_id_wf by blast
qed

lemma demo_valid: "valid_token demo_lib (encode_hex (demo_key 5))
    (token_hash_value_as_string (token_hash demo_lib (encode_hex (demo_key 5))))"
  using valid_token_iff [OF demo_token_length demo_token_length, of "encode_hex (demo_key 5)" "encode_hex (demo_key 5)"]
  by (simp add: hex_bytes_all [folded encode_hex_def] demo_key_def)

lemma demo_turn:
  "\<exists>s'. endpoint_turn demo_lib demo_control_json 8 demo_endpoint demo_input demo_server = (T_Handed, [], s')"
  using demo_display_neq demo_display_neq [symmetric] demo_valid canonical_display [OF demo_id_wf]
  by (simp add: endpoint_turn_def demo_input_def demo_endpoint_def endpoint_start_def registration.defs
      TOKEN_TTL_SECONDS_def PRESENCE_TTL_def try_recv_def demo_server_def ep_read_def ep_count_def
      MAX_CONTROL_BYTES_def demo_control_json_def ep_control_def ep_connect_def Let_def touch_device_def
      find_target_def expire_devices_def demo_entry_def try_send_def)

lemma connect_requires_witness:
  "\<exists>e. directory demo_server (device_id_display demo_id) = Some e \<and> \<not> de_busy e \<and>
     (\<exists>s'. endpoint_turn demo_lib demo_control_json 8 demo_endpoint demo_input demo_server = (T_Handed, [], s') \<and>
        length (sv_offers s') = 1)"
proof -
  obtain s' where s': "endpoint_turn demo_lib demo_control_json 8 demo_endpoint demo_input demo_server = (T_Handed, [], s')"
    using demo_turn by blast
  have "distinct (map fst (sv_devices demo_server))"
    "rg_token_hash demo_endpoint = token_hash_value_as_string (token_hash demo_lib (encode_hex (demo_key 5)))"
    by (simp_all add: demo_server_def demo_endpoint_def endpoint_start_def registration.defs)
  from connect_requires [OF s' this] have "length (sv_offers s') = 1"
    by (auto simp: demo_token_length demo_server_def)
  then show ?thesis
    using s' by (simp add: demo_server_def demo_entry_def)
qed

end
