(* ===== verification/Sensor_RelayPair.thy ===== *)
theory Sensor_RelayPair
  imports Sensor_Render Sensor_Float
begin

section \<open>sensor-rendezvous: relaying a pair\<close>

text \<open>
  Once two devices are paired, one thread forwards binary messages between their sockets. Each
  direction holds at most one message, waits until the pacing limiter allows it, and stops reading
  while the other side cannot take data. Instants are nanoseconds; the results of the socket calls
  of a round are inputs. The lemmas show that each direction forwards every message once, in order
  and unchanged, and never faster than the configured bit rate.
\<close>

subsection \<open>The limiter\<close>

(* @src crates/sensor-rendezvous/src/main.rs:710-713 RateLimiter *)
record rate_limiter =
  rl_max_bitrate :: "nat option"
  rl_next :: nat

(* @src crates/sensor-rendezvous/src/main.rs:716-721 RateLimiter::new *)
definition limiter_new :: "nat option \<Rightarrow> nat \<Rightarrow> rate_limiter" where
  "limiter_new max_bitrate now = \<lparr>rl_max_bitrate = max_bitrate, rl_next = now\<rparr>"

text \<open>\<open>Duration::from_secs_f64\<close> rounds the double to whole nanoseconds, ties to even.\<close>

definition send_nanos :: "nat \<Rightarrow> nat \<Rightarrow> nat" where
  "send_nanos n limit = nat (round_even (f64_round (of_nat (n * 8) / of_nat limit) * 10 ^ 9))"

(* @src crates/sensor-rendezvous/src/main.rs:723-730 RateLimiter::reserve *)
definition reserve :: "rate_limiter \<Rightarrow> nat \<Rightarrow> nat \<Rightarrow> nat \<times> rate_limiter" where
  "reserve l n now =
     (case rl_max_bitrate l of
        None \<Rightarrow> (now, l)
      | Some limit \<Rightarrow>
          if limit > 0
          then (let due = max (rl_next l) now in (due, l\<lparr>rl_next := due + send_nanos n limit\<rparr>))
          else (now, l))"

subsection \<open>Endpoints\<close>

text \<open>
  Beside the fields of the code: every binary message read so far and every message enqueued on the
  other side so far, and the instants at which the limiter released them.
\<close>

(* @src crates/sensor-rendezvous/src/main.rs:507-514 RelayEndpoint *)
record relay_endpoint =
  re_pending :: "bytes option"
  re_ready :: nat
  re_limiter :: rate_limiter
  re_writing :: bool
  re_write_started :: nat
  re_received :: "bytes list"
  re_forwarded :: "bytes list"
  re_dues :: "(nat \<times> nat) list"

(* @src crates/sensor-rendezvous/src/main.rs:516-525 RelayEndpoint::new *)
definition relay_endpoint_new :: "nat option \<Rightarrow> nat \<Rightarrow> relay_endpoint" where
  "relay_endpoint_new bitrate now =
     \<lparr>re_pending = None, re_ready = now, re_limiter = limiter_new bitrate now, re_writing = False,
      re_write_started = now, re_received = [], re_forwarded = [], re_dues = []\<rparr>"

datatype relay_error = RX_Stalled | RX_Socket ws_error | RX_Frame

(* @src crates/sensor-rendezvous/src/main.rs:526-539 RelayEndpoint::flush *)
definition relay_flush :: "ws_error option \<Rightarrow> nat \<Rightarrow> relay_endpoint \<Rightarrow> (relay_error + unit) \<times> relay_endpoint" where
  "relay_flush result now e =
     (if re_writing e
      then case result of
          None \<Rightarrow> (Inr (), e\<lparr>re_writing := False\<rparr>)
        | Some (WE_Io IO_WouldBlock) \<Rightarrow>
            if now - re_write_started e > 5 * 10 ^ 9 then (Inl RX_Stalled, e) else (Inr (), e)
        | Some x \<Rightarrow> (Inl (RX_Socket x), e)
      else (Inr (), e))"

text \<open>What the calls of one step return, and the clock during the step.\<close>

record relay_io =
  ro_now :: nat
  ro_read :: "ws_error + ws_message"
  ro_send :: "ws_error option"

(* @src crates/sensor-rendezvous/src/main.rs:546-567 relay_step: read *)
definition relay_read :: "relay_io \<Rightarrow> relay_endpoint \<Rightarrow> nat \<Rightarrow> (relay_error + bool) \<times> relay_endpoint \<times> nat" where
  "relay_read io src relayed =
     (if re_pending src \<noteq> None then (Inr True, src, relayed)
      else case ro_read io of
          Inr (WM_Binary bs) \<Rightarrow>
            if length bs \<le> MAX_RELAY_BYTES
            then (let (due, l) = reserve (re_limiter src) (length bs) (ro_now io) in
              (Inr True,
               src\<lparr>re_ready := due, re_limiter := l, re_pending := Some bs,
                   re_received := re_received src @ [bs], re_dues := re_dues src @ [(due, length bs)]\<rparr>,
               (relayed + length bs) mod 2 ^ 64))
            else (Inl RX_Frame, src, relayed)
        | Inr (WM_Ping _) \<Rightarrow>
            (Inr True,
             src\<lparr>re_write_started := (if re_writing src then re_write_started src else ro_now io), re_writing := True\<rparr>,
             relayed)
        | Inr (WM_Pong _) \<Rightarrow> (Inr True, src, relayed)
        | Inr WM_Close \<Rightarrow> (Inr False, src, relayed)
        | Inr _ \<Rightarrow> (Inl RX_Frame, src, relayed)
        | Inl (WE_Io IO_WouldBlock) \<Rightarrow> (Inr True, src, relayed)
        | Inl x \<Rightarrow> (Inl (RX_Socket x), src, relayed))"

(* @src crates/sensor-rendezvous/src/main.rs:568-580 relay_step: forward *)
definition relay_forward ::
  "relay_io \<Rightarrow> relay_endpoint \<Rightarrow> relay_endpoint \<Rightarrow> (relay_error + bool) \<times> relay_endpoint \<times> relay_endpoint" where
  "relay_forward io src dst =
     (if \<not> re_writing dst \<and> ro_now io \<ge> re_ready src
      then case re_pending src of
          None \<Rightarrow> (Inr True, src, dst)
        | Some m \<Rightarrow>
            let taken = src\<lparr>re_pending := None\<rparr>; sent = taken\<lparr>re_forwarded := re_forwarded src @ [m]\<rparr> in
            (case ro_send io of
               None \<Rightarrow> (Inr True, sent, dst)
             | Some (WE_Io IO_WouldBlock) \<Rightarrow>
                 (Inr True, sent, dst\<lparr>re_writing := True, re_write_started := ro_now io\<rparr>)
             | Some x \<Rightarrow> (Inl (RX_Socket x), taken, dst))
      else (Inr True, src, dst))"

(* @src crates/sensor-rendezvous/src/main.rs:541-581 relay_step *)
definition relay_step ::
  "relay_io \<Rightarrow> relay_endpoint \<Rightarrow> relay_endpoint \<Rightarrow> nat
     \<Rightarrow> (relay_error + bool) \<times> relay_endpoint \<times> relay_endpoint \<times> nat" where
  "relay_step io src dst relayed =
     (case relay_read io src relayed of
        (Inr True, src1, relayed1) \<Rightarrow>
          (case relay_forward io src1 dst of (r, src2, dst2) \<Rightarrow> (r, src2, dst2, relayed1))
      | (r, src1, relayed1) \<Rightarrow> (r, src1, dst, relayed1))"

subsection \<open>The loop\<close>

record relay_state =
  rs_target :: relay_endpoint
  rs_initiator :: relay_endpoint
  rs_relayed :: nat

record relay_round =
  rr_flush_target :: "ws_error option"
  rr_flush_initiator :: "ws_error option"
  rr_now :: nat
  rr_up :: relay_io
  rr_down :: relay_io

text \<open>One round: both flushes, then initiator to target, then target to initiator.\<close>

(* @src crates/sensor-rendezvous/src/main.rs:490-501 relay_pair: loop *)
definition relay_round_step :: "relay_round \<Rightarrow> relay_state \<Rightarrow> (relay_error + bool) \<times> relay_state" where
  "relay_round_step q s =
     (case relay_flush (rr_flush_target q) (rr_now q) (rs_target s) of
        (Inl x, t) \<Rightarrow> (Inl x, s\<lparr>rs_target := t\<rparr>)
      | (Inr _, t) \<Rightarrow>
     (case relay_flush (rr_flush_initiator q) (rr_now q) (rs_initiator s) of
        (Inl x, i) \<Rightarrow> (Inl x, s\<lparr>rs_target := t, rs_initiator := i\<rparr>)
      | (Inr _, i) \<Rightarrow>
     (case relay_step (rr_up q) i t (rs_relayed s) of
        (Inr True, i1, t1, n1) \<Rightarrow>
          (case relay_step (rr_down q) t1 i1 n1 of
             (r, t2, i2, n2) \<Rightarrow> (r, s\<lparr>rs_target := t2, rs_initiator := i2, rs_relayed := n2\<rparr>))
      | (r, i1, t1, n1) \<Rightarrow> (r, s\<lparr>rs_target := t1, rs_initiator := i1, rs_relayed := n1\<rparr>))))"

fun relay_run :: "relay_round list \<Rightarrow> relay_state \<Rightarrow> (relay_error + bool) \<times> relay_state" where
  "relay_run [] s = (Inr True, s)"
| "relay_run (q # qs) s =
     (case relay_round_step q s of
        (Inr True, t) \<Rightarrow> relay_run qs t
      | (r, t) \<Rightarrow> (r, t))"

(* @src crates/sensor-rendezvous/src/main.rs:488-489 relay_pair: start *)
definition relay_start :: "nat option \<Rightarrow> nat \<Rightarrow> relay_state" where
  "relay_start bitrate now =
     \<lparr>rs_target = relay_endpoint_new bitrate now, rs_initiator = relay_endpoint_new bitrate now, rs_relayed = 0\<rparr>"

subsection \<open>Correctness of a direction\<close>

fun paced :: "nat option \<Rightarrow> (nat \<times> nat) list \<Rightarrow> bool" where
  "paced b ((d, n) # (d', n') # ds) =
     ((case b of None \<Rightarrow> True | Some limit \<Rightarrow> limit = 0 \<or> d + send_nanos n limit \<le> d') \<and> paced b ((d', n') # ds))"
| "paced b ds = True"

definition due_next :: "rate_limiter \<Rightarrow> (nat \<times> nat) list \<Rightarrow> bool" where
  "due_next l ds =
     (case rl_max_bitrate l of
        None \<Rightarrow> True
      | Some limit \<Rightarrow> limit = 0 \<or> ds = [] \<or> rl_next l = fst (last ds) + send_nanos (snd (last ds)) limit)"

definition pending_list :: "relay_endpoint \<Rightarrow> bytes list" where
  "pending_list e = (case re_pending e of None \<Rightarrow> [] | Some m \<Rightarrow> [m])"

definition endpoint_inv :: "nat option \<Rightarrow> relay_endpoint \<Rightarrow> bool" where
  "endpoint_inv b e \<longleftrightarrow>
     re_received e = re_forwarded e @ pending_list e \<and>
     map snd (re_dues e) = map length (re_received e) \<and>
     rl_max_bitrate (re_limiter e) = b \<and> due_next (re_limiter e) (re_dues e) \<and> paced b (re_dues e) \<and>
     list_all (\<lambda>m. length m \<le> MAX_RELAY_BYTES) (re_received e)"

text \<open>After a failed send the message that was taken is lost; the relay has ended.\<close>

definition endpoint_end_inv :: "nat option \<Rightarrow> relay_endpoint \<Rightarrow> bool" where
  "endpoint_end_inv b e \<longleftrightarrow>
     (\<exists>lost. length lost \<le> 1 \<and> re_received e = re_forwarded e @ lost) \<and>
     map snd (re_dues e) = map length (re_received e) \<and> paced b (re_dues e)"

lemma endpoint_inv_end: "endpoint_inv b e \<Longrightarrow> endpoint_end_inv b e"
  by (auto simp: endpoint_inv_def endpoint_end_inv_def pending_list_def split: option.splits)

lemma paced_snoc:
  "paced b (ds @ [(d, n)]) \<longleftrightarrow> paced b ds \<and>
     (ds = [] \<or> (case b of None \<Rightarrow> True | Some limit \<Rightarrow> limit = 0 \<or> fst (last ds) + send_nanos (snd (last ds)) limit \<le> d))"
  by (induction b ds rule: paced.induct) (auto split: option.splits)

lemma relay_flush_inv: "relay_flush r now e = (x, f) \<Longrightarrow> endpoint_inv b e \<Longrightarrow> endpoint_inv b f"
  by (auto simp: relay_flush_def endpoint_inv_def pending_list_def
      split: option.splits ws_error.splits io_error.splits if_splits)

lemma relay_read_inv:
  assumes "relay_read io src n = (x, f, k)" and "endpoint_inv b src"
  shows "endpoint_inv b f"
proof (cases "re_pending src = None \<and> (\<exists>bs. ro_read io = Inr (WM_Binary bs) \<and> length bs \<le> MAX_RELAY_BYTES)")
  case True
  then obtain bs where bs: "ro_read io = Inr (WM_Binary bs)" "length bs \<le> MAX_RELAY_BYTES" "re_pending src = None"
    by blast
  then show ?thesis
    using assms
    by (auto simp: relay_read_def reserve_def endpoint_inv_def pending_list_def paced_snoc due_next_def Let_def
        split: option.splits if_splits)
next
  case False
  then show ?thesis
    using assms
    by (auto simp: relay_read_def endpoint_inv_def pending_list_def
        split: sum.splits ws_message.splits ws_error.splits io_error.splits if_splits)
qed

lemma relay_forward_inv:
  assumes "relay_forward io src dst = (x, f, g)" and "endpoint_inv b src" and "endpoint_inv b dst"
  shows "endpoint_inv b g" and "endpoint_end_inv b f" and "x = Inr c \<Longrightarrow> endpoint_inv b f"
  using assms
  by (auto simp: relay_forward_def endpoint_inv_def endpoint_end_inv_def pending_list_def Let_def
      split: option.splits ws_error.splits io_error.splits if_splits)

lemma relay_step_inv:
  assumes "relay_step io src dst n = (x, f, g, k)" and "endpoint_inv b src" and "endpoint_inv b dst"
  shows "endpoint_inv b g" and "endpoint_end_inv b f" and "x = Inr c \<Longrightarrow> endpoint_inv b f"
proof -
  obtain r s1 k1 where r: "relay_read io src n = (r, s1, k1)"
    by (cases "relay_read io src n")
  have s1: "endpoint_inv b s1"
    by (rule relay_read_inv [OF r assms(2)])
  obtain r2 s2 d2 where f: "relay_forward io s1 dst = (r2, s2, d2)"
    by (cases "relay_forward io s1 dst")
  note fwd = relay_forward_inv [OF f s1 assms(3)]
  have "(x, f, g, k) = (if r = Inr True then (r2, s2, d2, k1) else (r, s1, dst, k1))"
    using assms(1) r f by (auto simp: relay_step_def split: sum.splits bool.splits)
  then show "endpoint_inv b g" and "endpoint_end_inv b f" and "x = Inr c \<Longrightarrow> endpoint_inv b f"
    using fwd s1 assms(3) endpoint_inv_end by (auto split: if_splits)
qed

definition state_inv :: "nat option \<Rightarrow> relay_state \<Rightarrow> bool" where
  "state_inv b s \<longleftrightarrow> endpoint_inv b (rs_target s) \<and> endpoint_inv b (rs_initiator s)"

definition state_end :: "nat option \<Rightarrow> relay_state \<Rightarrow> bool" where
  "state_end b s \<longleftrightarrow> endpoint_end_inv b (rs_target s) \<and> endpoint_end_inv b (rs_initiator s)"

lemma relay_round_inv:
  assumes "state_inv b s" and "relay_round_step q s = (r, t)"
  shows "state_end b t" and "r = Inr c \<Longrightarrow> state_inv b t"
proof -
  obtain x1 t1 where a: "relay_flush (rr_flush_target q) (rr_now q) (rs_target s) = (x1, t1)"
    by (cases "relay_flush (rr_flush_target q) (rr_now q) (rs_target s)")
  obtain x2 i1 where b: "relay_flush (rr_flush_initiator q) (rr_now q) (rs_initiator s) = (x2, i1)"
    by (cases "relay_flush (rr_flush_initiator q) (rr_now q) (rs_initiator s)")
  obtain x3 i2 t2 n2 where c: "relay_step (rr_up q) i1 t1 (rs_relayed s) = (x3, i2, t2, n2)"
    by (cases "relay_step (rr_up q) i1 t1 (rs_relayed s)")
  obtain x4 t3 i3 n3 where d: "relay_step (rr_down q) t2 i2 n2 = (x4, t3, i3, n3)"
    by (cases "relay_step (rr_down q) t2 i2 n2")
  have 1: "endpoint_inv b t1" "endpoint_inv b i1" "endpoint_inv b (rs_target s)" "endpoint_inv b (rs_initiator s)"
    using assms(1) relay_flush_inv [OF a] relay_flush_inv [OF b] by (auto simp: state_inv_def)
  note 2 = relay_step_inv [OF c 1(2,1)]
  have 3: "endpoint_inv b i3" "endpoint_end_inv b t3" "x4 = Inr k \<Longrightarrow> endpoint_inv b t3" if "x3 = Inr True" for k
    using relay_step_inv [OF d 2(1) 2(3) [OF that]] by blast+
  note r = assms(2) [unfolded relay_round_step_def a b prod.case]
  show "state_end b t"
    using r c d 1 2 3 endpoint_inv_end
    by (auto simp: state_end_def split: sum.splits bool.splits)
  show "state_inv b t" if "r = Inr c"
    using r c d 1 2 3 that by (auto simp: state_inv_def split: sum.splits bool.splits)
qed

lemma relay_run_inv:
  "relay_run qs s = (r, t) \<Longrightarrow> state_inv b s \<Longrightarrow> state_end b t"
proof (induction qs arbitrary: s)
  case Nil
  then show ?case
    by (auto simp: state_inv_def state_end_def endpoint_inv_end)
next
  case (Cons q qs)
  obtain x u where x: "relay_round_step q s = (x, u)"
    by (cases "relay_round_step q s")
  show ?case
    using Cons.prems Cons.IH [of u] x relay_round_inv [OF Cons.prems(2) x]
    by (cases "x = Inr True") (auto split: sum.splits bool.splits)
qed

text \<open>C28: A relayed pair is faithful and paced. After every number of rounds, with any results of the
  socket calls, in each direction the messages enqueued on the other side are the messages that were
  read, each once, in order and unchanged, except for at most one that is pending (or was lost with
  the connection); and consecutive messages become due at least the transmission time of the first
  apart at the configured bit rate.\<close>

theorem relay_faithful:
  "let s = snd (relay_run qs (relay_start bitrate now));
       faithful = (\<lambda>e. (\<exists>rest. length rest \<le> 1 \<and> re_received e = re_forwarded e @ rest) \<and>
         map snd (re_dues e) = map length (re_received e) \<and> paced bitrate (re_dues e))
   in faithful (rs_target s) \<and> faithful (rs_initiator s)"
proof -
  have "state_inv bitrate (relay_start bitrate now)"
    by (simp add: state_inv_def relay_start_def relay_endpoint_new_def limiter_new_def endpoint_inv_def
        pending_list_def due_next_def split: option.splits)
  then have "state_end bitrate (snd (relay_run qs (relay_start bitrate now)))"
    using relay_run_inv by (metis surjective_pairing)
  then show ?thesis
    by (simp add: state_end_def endpoint_end_inv_def Let_def)
qed

end
