(* ===== verification/Sensor_Audit.thy ===== *)
theory Sensor_Audit
  imports Sensor_Core Sensor_Crypto Sensor_Codec
begin

section \<open>sensor-audit: the signed, hash-linked log\<close>

text \<open>
  Each line of the audit file is a JSON record: a body that names its number and the hash of the
  record before it, and the device's signature of the body. The theory models reading a log through
  a buffered reader, checking it, and appending to it, with the file as its bytes and the results of
  the system calls as inputs. The lemmas show that checking depends on the content only, what an
  accepted log is, that appending keeps the log valid, and what a crash in an append can leave.
\<close>

subsection \<open>Data\<close>

(* @src crates/sensor-audit/src/lib.rs:15-15 MAX_LINE *)
definition MAX_LINE :: nat where
  "MAX_LINE = 4096"

(* @src crates/sensor-audit/src/lib.rs:16-16 DOMAIN *)
definition AUDIT_DOMAIN :: bytes where
  "AUDIT_DOMAIN = ascii_bytes ''SENSOR/audit/v1''"

(* @src crates/sensor-audit/src/lib.rs:19-29 Action *)
datatype audit_action =
    ConnectionRequested | SessionAccepted | SessionRejected | SessionDisconnected | PermissionChanged
  | FileOffered | FileCompleted | FileCancelled | FileFailed

(* @src crates/sensor-audit/src/lib.rs:31-35 Outcome *)
datatype audit_outcome = Outcome_Success | Outcome_Denied | Outcome_Failed

(* @src crates/sensor-audit/src/lib.rs:38-44 Event *)
record audit_event =
  ev_actor :: device_id
  ev_target :: device_id
  ev_action :: audit_action
  ev_outcome :: audit_outcome
  ev_bytes :: u64

(* @src crates/sensor-audit/src/lib.rs:47-53 Body *)
record audit_body =
  ab_version :: u16
  ab_sequence :: u64
  ab_timestamp_ms :: u64
  ab_previous :: bytes
  ab_event :: audit_event

(* @src crates/sensor-audit/src/lib.rs:55-58 Record *)
record audit_record =
  ar_body :: audit_body
  ar_signature :: bytes

(* @src crates/sensor-audit/src/lib.rs:61-64 AuditHead *)
record audit_head =
  ah_records :: u64
  ah_hash :: bytes

definition head_default :: audit_head where
  "head_default = \<lparr>ah_records = 0, ah_hash = replicate 32 0\<rparr>"

(* @src crates/sensor-audit/src/lib.rs:67-74 AuditError *)
datatype audit_error = AE_Io io_error | AE_Json | AE_Invalid

text \<open>
  The JSON serializer is third-party code: its compact writer for bodies and records and its reader
  for records. Its documented behaviour: a written record contains no line break and is read back
  from its line; a written body is a JSON object, so no written body is a proper prefix of another.
\<close>

record audit_json =
  aj_body :: "audit_body \<Rightarrow> bytes option"
  aj_record :: "audit_record \<Rightarrow> bytes option"
  aj_parse :: "bytes \<Rightarrow> audit_record option"

definition audit_json_ok :: "audit_json \<Rightarrow> bool" where
  "audit_json_ok J \<longleftrightarrow>
     (\<forall>r b. aj_record J r = Some b \<longrightarrow> 10 \<notin> set b \<and> aj_parse J (b @ [10]) = Some r) \<and>
     (\<forall>x y b d r s. aj_body J x = Some b \<and> aj_body J y = Some d \<and> b @ r = d @ s \<longrightarrow> x = y \<and> r = s)"

subsection \<open>Hashing\<close>

(* @src crates/sensor-audit/src/lib.rs:76-80 signable *)
definition signable :: "audit_json \<Rightarrow> audit_body \<Rightarrow> audit_error + bytes" where
  "signable J body = res_bind (ok_or (aj_body J body) AE_Json) (\<lambda>json. Inr (AUDIT_DOMAIN @ json))"

text \<open>\<open>record_preimage\<close> is what is fed to the hash, in two updates.\<close>

definition record_preimage :: "audit_json \<Rightarrow> audit_record \<Rightarrow> audit_error + bytes" where
  "record_preimage J r = res_bind (signable J (ar_body r)) (\<lambda>b. Inr (b @ ar_signature r))"

(* @src crates/sensor-audit/src/lib.rs:81-86 record_hash *)
definition record_hash :: "crypto_lib \<Rightarrow> audit_json \<Rightarrow> audit_record \<Rightarrow> audit_error + bytes" where
  "record_hash L J r = res_bind (record_preimage J r) (\<lambda>p. Inr (sha256 L p))"

subsection \<open>A buffered reader\<close>

text \<open>
  \<open>BufRead\<close> over a file: the bytes buffered, and what the reads to come return. A read of no bytes
  is the end of the file.
\<close>

record buf_reader =
  br_buffer :: bytes
  br_reads :: "(io_error + bytes) list"

definition fill_buf :: "buf_reader \<Rightarrow> (io_error + bytes) \<times> buf_reader" where
  "fill_buf rd =
     (if br_buffer rd \<noteq> [] then (Inr (br_buffer rd), rd)
      else case br_reads rd of
          [] \<Rightarrow> (Inr [], rd)
        | Inl e # rs \<Rightarrow> (Inl e, rd\<lparr>br_reads := rs\<rparr>)
        | Inr bs # rs \<Rightarrow> (Inr bs, \<lparr>br_buffer = bs, br_reads = rs\<rparr>))"

definition consume :: "nat \<Rightarrow> buf_reader \<Rightarrow> buf_reader" where
  "consume n rd = rd\<lparr>br_buffer := drop n (br_buffer rd)\<rparr>"

definition read_bytes :: "io_error + bytes \<Rightarrow> bytes" where
  "read_bytes r = (case r of Inl _ \<Rightarrow> [] | Inr bs \<Rightarrow> bs)"

definition rd_content :: "buf_reader \<Rightarrow> bytes" where
  "rd_content rd = br_buffer rd @ concat (map read_bytes (br_reads rd))"

lemma fill_buf_content:
  "fill_buf rd = (res, rd') \<Longrightarrow> rd_content rd' = rd_content rd"
  by (auto simp: fill_buf_def rd_content_def read_bytes_def split: if_splits list.splits sum.splits)

lemma fill_buf_Inr: "fill_buf rd = (Inr a, rd') \<Longrightarrow> br_buffer rd' = a"
  by (auto simp: fill_buf_def split: if_splits list.splits sum.splits)

lemma consume_length:
  "n \<le> length (br_buffer rd) \<Longrightarrow> length (rd_content (consume n rd)) + n = length (rd_content rd)"
  by (simp add: consume_def rd_content_def)

lemma consume_content: "n \<le> length (br_buffer rd) \<Longrightarrow> rd_content (consume n rd) = drop n (rd_content rd)"
  by (simp add: consume_def rd_content_def)

subsection \<open>Checking a log\<close>

text \<open>The position after the first line break, or the length when there is none.\<close>

definition line_end :: "bytes \<Rightarrow> nat" where
  "line_end a = (if 10 \<in> set a then length (takeWhile (\<lambda>b. b \<noteq> 10) a) + 1 else length a)"

lemma line_end_le [simp]: "line_end a \<le> length a"
proof (cases "10 \<in> set a")
  case True
  then have "takeWhile (\<lambda>b. b \<noteq> 10) a \<noteq> a"
    by (metis (mono_tags, lifting) takeWhile_eq_all_conv)
  then have "length (takeWhile (\<lambda>b. b \<noteq> 10) a) < length a"
    by (metis length_takeWhile_le le_neq_implies_less takeWhile_eq_take take_all)
  then show ?thesis
    by (simp add: line_end_def)
qed (simp add: line_end_def)

lemma line_end_pos [simp]: "0 < line_end a \<longleftrightarrow> a \<noteq> []"
  by (auto simp: line_end_def)

lemma length_take_line_end [simp]: "length (take (line_end a) a) = line_end a"
  by simp

(* @src crates/sensor-audit/src/lib.rs:91-111 verify, reading a line *)
function (sequential) read_line :: "bytes \<Rightarrow> buf_reader \<Rightarrow> (audit_error + bytes) \<times> buf_reader" where
  "read_line line rd =
     (case fill_buf rd of
        (Inl e, rd') \<Rightarrow> (Inl (AE_Io e), rd')
      | (Inr available, rd') \<Rightarrow>
          if available = [] then (Inr line, rd')
          else if length line + line_end available > MAX_LINE then (Inl AE_Invalid, rd')
          else if last (line @ take (line_end available) available) = 10
          then (Inr (line @ take (line_end available) available), consume (line_end available) rd')
          else read_line (line @ take (line_end available) available) (consume (line_end available) rd'))"
  by pat_completeness auto
termination
proof (relation "measure (\<lambda>(line, rd). length (rd_content rd))", goal_cases)
  case (2 line rd r rd' a)
  then have "rd_content rd' = rd_content rd" "br_buffer rd' = a" "a \<noteq> []"
    using fill_buf_content fill_buf_Inr by (metis prod.collapse)+
  moreover have "length (rd_content rd') \<ge> length (br_buffer rd')"
    by (simp add: rd_content_def)
  ultimately show ?case
    using line_end_pos [of a] line_end_le [of a] by (cases "br_buffer rd'") (auto simp: consume_content intro!: diff_less)
qed simp

declare read_line.simps [simp del]

(* @src crates/sensor-audit/src/lib.rs:118-129 verify, checking a line *)
definition check_line ::
  "crypto_lib \<Rightarrow> audit_json \<Rightarrow> bytes \<Rightarrow> audit_head \<Rightarrow> bytes \<Rightarrow> audit_error + audit_head" where
  "check_line L J signer head line =
     res_bind (ok_or (aj_parse J line) AE_Json) (\<lambda>r.
     if ab_version (ar_body r) \<noteq> 1 \<or> ab_sequence (ar_body r) \<noteq> ah_records head \<or>
        ab_previous (ar_body r) \<noteq> ah_hash head
     then Inl AE_Invalid
     else res_bind (signable J (ar_body r)) (\<lambda>message.
     res_bind (map_err (\<lambda>_. AE_Invalid) (identity_verify L signer message (ar_signature r))) (\<lambda>_.
     res_bind (ok_or (checked_succ (ah_records head)) AE_Invalid) (\<lambda>n.
     res_bind (record_hash L J r) (\<lambda>h. Inr \<lparr>ah_records = n, ah_hash = h\<rparr>)))))"


lemma read_line_consumes:
  "read_line line rd = (Inr line', rd') \<Longrightarrow> length (rd_content rd') + length line' = length (rd_content rd) + length line"
proof (induction line rd rule: read_line.induct)
  case (1 line rd)
  obtain res rd1 where f: "fill_buf rd = (res, rd1)"
    by fastforce
  note c = fill_buf_content [OF f]
  show ?case
  proof (cases res)
    case (Inl e)
    then show ?thesis
      using 1(2) f by (simp add: read_line.simps)
  next
    case (Inr a)
    have "length (rd_content (consume (line_end a) rd1)) + line_end a = length (rd_content rd1)"
      using fill_buf_Inr [of rd a rd1] f Inr by (intro consume_length) simp
    then show ?thesis
      using 1 f c Inr fill_buf_Inr [of rd a rd1]
      by (auto simp: read_line.simps [of line rd] simp del: length_take split: if_splits)
  qed
qed

(* @src crates/sensor-audit/src/lib.rs:88-132 verify *)
function (sequential) audit_verify ::
  "crypto_lib \<Rightarrow> audit_json \<Rightarrow> bytes \<Rightarrow> audit_head \<Rightarrow> buf_reader \<Rightarrow> audit_error + audit_head" where
  "audit_verify L J signer head rd =
     (case read_line [] rd of
        (Inl e, _) \<Rightarrow> Inl e
      | (Inr line, rd') \<Rightarrow>
          if line = [] then Inr head
          else if last line \<noteq> 10 then Inl AE_Invalid
          else case check_line L J signer head line of
              Inl e \<Rightarrow> Inl e
            | Inr head' \<Rightarrow> audit_verify L J signer head' rd')"
  by pat_completeness auto
termination
  by (relation "measure (\<lambda>(L, J, signer, head, rd). length (rd_content rd))")
    (auto dest!: sym [of "(Inr _, _)"] read_line_consumes simp: neq_Nil_conv)

declare audit_verify.simps [simp del]

(* @src crates/sensor-audit/src/lib.rs:134-136 verify_file *)
definition verify_file ::
  "crypto_lib \<Rightarrow> audit_json \<Rightarrow> (io_error + buf_reader) \<Rightarrow> bytes \<Rightarrow> audit_error + audit_head" where
  "verify_file L J opened signer =
     res_bind (map_err AE_Io opened) (\<lambda>rd. audit_verify L J signer head_default rd)"

subsection \<open>The log\<close>

text \<open>The open file is its bytes; it is only written at its end.\<close>

(* @src crates/sensor-audit/src/lib.rs:138-143 AuditLog *)
record audit_log =
  al_file :: bytes
  al_identity :: identity_keypair
  al_head :: audit_head
  al_failed :: bool

text \<open>Inputs: the results of opening and of locking the file, the reads, and the result of seeking.\<close>

(* @src crates/sensor-audit/src/lib.rs:146-162 AuditLog::open *)
definition audit_open ::
  "crypto_lib \<Rightarrow> audit_json \<Rightarrow> io_error + bytes \<Rightarrow> io_error + unit \<Rightarrow> (io_error + bytes) list \<Rightarrow> io_error + unit \<Rightarrow>
   identity_keypair \<Rightarrow> audit_error + audit_log" where
  "audit_open L J opened locked reads sought identity =
     res_bind (map_err AE_Io opened) (\<lambda>content.
     res_bind (map_err AE_Io locked) (\<lambda>_.
     res_bind (audit_verify L J (kp_public L identity) head_default \<lparr>br_buffer = [], br_reads = reads\<rparr>) (\<lambda>head.
     res_bind (map_err AE_Io sought) (\<lambda>_.
     Inr \<lparr>al_file = content, al_identity = identity, al_head = head, al_failed = False\<rparr>))))"

text \<open>
  Inputs of an append: the clock in milliseconds since the epoch (\<open>None\<close> before it), and what the
  write does: either all bytes arrive and \<open>sync_data\<close> returns, or some of them do before an error.
\<close>

datatype write_result = Wrote "io_error + unit" | Wrote_part nat io_error

definition written_bytes :: "write_result \<Rightarrow> bytes \<Rightarrow> bytes" where
  "written_bytes w bs = (case w of Wrote _ \<Rightarrow> bs | Wrote_part n _ \<Rightarrow> take n bs)"

definition write_sync :: "write_result \<Rightarrow> io_error + unit" where
  "write_sync w = (case w of Wrote s \<Rightarrow> s | Wrote_part _ e \<Rightarrow> Inl e)"

text \<open>What an append writes and the head after it, or the error before anything is written.\<close>

(* @src crates/sensor-audit/src/lib.rs:167-193 AuditLog::append, the record *)
definition append_prepare ::
  "crypto_lib \<Rightarrow> audit_json \<Rightarrow> audit_log \<Rightarrow> nat option \<Rightarrow> audit_event \<Rightarrow> audit_error + bytes \<times> audit_head" where
  "append_prepare L J al now event =
     res_bind (ok_or (checked_succ (ah_records (al_head al))) AE_Invalid) (\<lambda>next.
     res_bind (ok_or now AE_Invalid) (\<lambda>ms.
     if ms \<ge> 2 ^ 64 then Inl AE_Invalid
     else let body = \<lparr>ab_version = 1, ab_sequence = ah_records (al_head al),
                      ab_timestamp_ms = word_of_nat ms, ab_previous = ah_hash (al_head al),
                      ab_event = event\<rparr>
       in res_bind (signable J body) (\<lambda>message.
       let r = \<lparr>ar_body = body, ar_signature = kp_sign L (al_identity al) message\<rparr>
       in res_bind (ok_or (aj_record J r) AE_Json) (\<lambda>json.
       let bytes = json @ [10]
       in if length bytes > MAX_LINE then Inl AE_Invalid
          else res_bind (record_hash L J r) (\<lambda>hash.
          Inr (bytes, \<lparr>ah_records = next, ah_hash = hash\<rparr>))))))"

(* @src crates/sensor-audit/src/lib.rs:163-206 AuditLog::append *)
definition audit_append ::
  "crypto_lib \<Rightarrow> audit_json \<Rightarrow> audit_log \<Rightarrow> audit_event \<Rightarrow> nat option \<Rightarrow> write_result \<Rightarrow>
   (audit_error + audit_head) \<times> audit_log" where
  "audit_append L J al event now w =
     (if al_failed al then (Inl AE_Invalid, al)
      else case append_prepare L J al now event of
          Inl e \<Rightarrow> (Inl e, al)
        | Inr (bytes, head) \<Rightarrow>
            (let al' = al\<lparr>al_file := al_file al @ written_bytes w bytes\<rparr>
             in case write_sync w of
                  Inl e \<Rightarrow> (Inl (AE_Io e), al'\<lparr>al_failed := True\<rparr>)
                | Inr _ \<Rightarrow> (Inr head, al'\<lparr>al_head := head\<rparr>)))"

(* @src crates/sensor-audit/src/lib.rs:207-209 AuditLog::head *)
definition audit_log_head :: "audit_log \<Rightarrow> audit_head" where
  "audit_log_head al = al_head al"


subsection \<open>Checking depends on the content only\<close>

text \<open>The reference: the content cut after its line breaks, each line checked.\<close>

function (sequential) verify_content ::
  "crypto_lib \<Rightarrow> audit_json \<Rightarrow> bytes \<Rightarrow> audit_head \<Rightarrow> bytes \<Rightarrow> audit_error + audit_head" where
  "verify_content L J signer head c =
     (if c = [] then Inr head
      else if line_end c > MAX_LINE \<or> 10 \<notin> set c then Inl AE_Invalid
      else case check_line L J signer head (take (line_end c) c) of
          Inl e \<Rightarrow> Inl e
        | Inr head' \<Rightarrow> verify_content L J signer head' (drop (line_end c) c))"
  by pat_completeness auto
termination
  by (relation "measure (\<lambda>(L, J, signer, head, c). length c)") (auto intro!: diff_less)

declare verify_content.simps [simp del]

text \<open>Reads that neither fail nor report the end of the file early.\<close>

definition reads_ok :: "(io_error + bytes) list \<Rightarrow> bool" where
  "reads_ok rs \<longleftrightarrow> list_all (\<lambda>r. case r of Inl _ \<Rightarrow> False | Inr bs \<Rightarrow> bs \<noteq> []) rs"

lemma line_end_append:
  "line_end (a @ c) = (if 10 \<in> set a then line_end a else length a + line_end c)"
  by (auto simp: line_end_def takeWhile_append split: if_splits) 

lemma take_line_end_split:
  "10 \<in> set a \<Longrightarrow> \<exists>p. take (line_end a) a = p @ [10] \<and> 10 \<notin> set p"
proof -
  assume "10 \<in> set a"
  then obtain p q where "a = p @ 10 # q" "10 \<notin> set p"
    by (metis split_list_first)
  moreover from this have "takeWhile (\<lambda>b. b \<noteq> 10) a = p"
    by (auto simp: takeWhile_append)
  ultimately show ?thesis
    by (auto simp: line_end_def)
qed

lemma line_end_full: "10 \<notin> set a \<Longrightarrow> line_end a = length a"
  by (simp add: line_end_def)

lemma fill_buf_ok:
  assumes "reads_ok (br_reads rd)" and "rd' = snd (fill_buf rd)"
  shows "fill_buf rd = (Inr (br_buffer rd'), rd') \<and> rd_content rd' = rd_content rd \<and>
    reads_ok (br_reads rd') \<and> (br_buffer rd' = [] \<longleftrightarrow> rd_content rd = []) \<and>
    rd_content rd = br_buffer rd' @ rd_content (rd'\<lparr>br_buffer := []\<rparr>)"
  using assms
  by (cases "br_buffer rd"; cases "br_reads rd")
    (auto simp: fill_buf_def reads_ok_def rd_content_def read_bytes_def split: sum.splits)

lemma consume_reads [simp]: "br_reads (consume n rd) = br_reads rd"
  by (simp add: consume_def)

lemma read_line_content:
  assumes "reads_ok (br_reads rd)" and "10 \<notin> set line"
  shows "if rd_content rd = [] then \<exists>rd'. read_line line rd = (Inr line, rd') \<and> rd_content rd' = [] \<and> reads_ok (br_reads rd')
    else if length line + line_end (rd_content rd) > MAX_LINE
    then \<exists>rd'. read_line line rd = (Inl AE_Invalid, rd')
    else \<exists>rd'. read_line line rd = (Inr (line @ take (line_end (rd_content rd)) (rd_content rd)), rd') \<and>
      rd_content rd' = drop (line_end (rd_content rd)) (rd_content rd) \<and> reads_ok (br_reads rd')"
  using assms
proof (induction "length (rd_content rd)" arbitrary: line rd rule: less_induct)
  case less
  obtain rd' where f: "fill_buf rd = (Inr (br_buffer rd'), rd')" and c: "rd_content rd' = rd_content rd"
    and ok: "reads_ok (br_reads rd')" and e: "br_buffer rd' = [] \<longleftrightarrow> rd_content rd = []"
    and sp: "rd_content rd = br_buffer rd' @ rd_content (rd'\<lparr>br_buffer := []\<rparr>)"
    using fill_buf_ok [OF less.prems(1) refl] by blast
  let ?a = "br_buffer rd'" and ?rest = "rd_content (rd'\<lparr>br_buffer := []\<rparr>)"
  show ?case
  proof (cases "rd_content rd = []")
    case True
    then show ?thesis
      using f e c ok by (simp add: read_line.simps)
  next
    case False
    show ?thesis
    proof (cases "10 \<in> set ?a")
      case True
      then obtain p where p: "take (line_end ?a) ?a = p @ [10]"
        using take_line_end_split by metis
      have n: "line_end (rd_content rd) = line_end ?a"
        using sp True line_end_append by metis
      have "take (line_end ?a) (rd_content rd) = take (line_end ?a) ?a"
        using sp by (metis append.right_neutral diff_is_0_eq' line_end_le take_0 take_append)
      then show ?thesis
        using False f e p c ok n by (auto simp: read_line.simps [of line rd] consume_content)
    next
      case no: False
      then have n: "line_end (rd_content rd) = length ?a + line_end ?rest"
        using sp line_end_append by metis
      have ne: "?a \<noteq> []"
        using False e by simp
      have l: "last (line @ ?a) \<noteq> 10"
        using no ne by (metis last_appendR last_in_set)
      have r: "read_line line rd = (if length line + length ?a > MAX_LINE then (Inl AE_Invalid, rd')
          else read_line (line @ ?a) (rd'\<lparr>br_buffer := []\<rparr>))"
        using f ne l no by (simp add: read_line.simps [of line rd] line_end_full consume_def)
      have "length ?rest < length (rd_content rd)"
        using sp ne by simp
      from less.hyps [OF this, of "line @ ?a"]
      show ?thesis
        using r n sp False ok no less.prems by (auto simp: line_end_def [of "[]"] split: if_splits)
    qed
  qed
qed

lemma audit_verify_content:
  "reads_ok (br_reads rd) \<Longrightarrow> audit_verify L J s head rd = verify_content L J s head (rd_content rd)"
proof (induction "length (rd_content rd)" arbitrary: rd head rule: less_induct)
  case less
  let ?c = "rd_content rd"
  note rl = read_line_content [OF less.prems, of "[]"]
  show ?case
  proof (cases "?c = [] \<or> line_end ?c > MAX_LINE")
    case True
    then show ?thesis
      using rl by (auto simp: audit_verify.simps [of L J s head rd] verify_content.simps [of L J s head ?c])
  next
    case False
    then obtain rd' where r: "read_line [] rd = (Inr (take (line_end ?c) ?c), rd')"
      and c': "rd_content rd' = drop (line_end ?c) ?c" and ok': "reads_ok (br_reads rd')"
      using rl by auto
    have pos: "take (line_end ?c) ?c \<noteq> []"
      using False by simp
    have len: "length (rd_content rd') < length ?c"
      using c' False by (auto intro!: diff_less)
    have "last ?c \<in> set ?c"
      using False by simp
    then have last: "last (take (line_end ?c) ?c) = 10 \<longleftrightarrow> 10 \<in> set ?c"
      using take_line_end_split [of ?c] line_end_full [of ?c] by (cases "10 \<in> set ?c") auto
    show ?thesis
      using False r c' pos less.hyps [OF len ok'] last
      by (auto simp del: take_eq_Nil simp: audit_verify.simps [of L J s head rd] verify_content.simps [of L J s head ?c]
          split: sum.splits)
  qed
qed


lemma verify_content_Nil [simp]: "verify_content L J s head [] = Inr head"
  by (simp add: verify_content.simps)

lemma verify_content_line:
  assumes "10 \<notin> set l" and "length l < MAX_LINE"
  shows "verify_content L J s head (l @ 10 # c) =
    (case check_line L J s head (l @ [10]) of Inl e \<Rightarrow> Inl e | Inr h \<Rightarrow> verify_content L J s h c)"
proof -
  have "line_end (l @ 10 # c) = length l + 1"
    using assms(1) by (simp add: line_end_append) (simp add: line_end_def)
  then show ?thesis
    using assms(2) by (simp add: verify_content.simps [of L J s head "l @ 10 # c"] split: sum.split)
qed

text \<open>The records of a content, as the reader returns them.\<close>

function (sequential) log_lines :: "bytes \<Rightarrow> bytes list" where
  "log_lines c = (if c = [] then [] else take (line_end c) c # log_lines (drop (line_end c) c))"
  by pat_completeness auto
termination
  by (relation "measure length") (auto intro!: diff_less)

declare log_lines.simps [simp del]

definition log_records :: "audit_json \<Rightarrow> bytes \<Rightarrow> audit_record list" where
  "log_records J c = map (\<lambda>l. the (aj_parse J l)) (log_lines c)"

lemma log_records_Nil [simp]: "log_records J [] = []"
  by (simp add: log_records_def log_lines.simps)

text \<open>A chain of records: numbered from the head, each naming the hash before it and signed.\<close>

definition record_step ::
  "crypto_lib \<Rightarrow> audit_json \<Rightarrow> bytes \<Rightarrow> audit_head \<Rightarrow> audit_record \<Rightarrow> audit_head option" where
  "record_step L J s h r =
     (case signable J (ar_body r) of
        Inl _ \<Rightarrow> None
      | Inr m \<Rightarrow>
          if ab_version (ar_body r) = 1 \<and> ab_sequence (ar_body r) = ah_records h \<and>
             ab_previous (ar_body r) = ah_hash h \<and> identity_verify L s m (ar_signature r) = Inr () \<and>
             ah_records h \<noteq> - 1
          then Some \<lparr>ah_records = ah_records h + 1, ah_hash = sha256 L (m @ ar_signature r)\<rparr> else None)"

fun record_chain ::
  "crypto_lib \<Rightarrow> audit_json \<Rightarrow> bytes \<Rightarrow> audit_head \<Rightarrow> audit_record list \<Rightarrow> audit_head option" where
  "record_chain L J s h [] = Some h"
| "record_chain L J s h (r # rs) =
     (case record_step L J s h r of None \<Rightarrow> None | Some g \<Rightarrow> record_chain L J s g rs)"

lemma check_line_Inr:
  "check_line L J s h l = Inr h' \<longleftrightarrow> (\<exists>r. aj_parse J l = Some r \<and> record_step L J s h r = Some h')"
proof (cases "aj_parse J l")
  case (Some r)
  then show ?thesis
    by (cases "signable J (ar_body r)"; cases "identity_verify L s (projr (signable J (ar_body r))) (ar_signature r)")
      (auto simp: check_line_def record_step_def record_hash_def record_preimage_def checked_succ_def)
qed (simp add: check_line_def)

lemma record_chain_append:
  "record_chain L J s h (rs @ qs) =
     (case record_chain L J s h rs of None \<Rightarrow> None | Some g \<Rightarrow> record_chain L J s g qs)"
  by (induction rs arbitrary: h) (auto split: option.splits)

lemma verify_content_chain:
  "verify_content L J s h c = Inr h' \<Longrightarrow> record_chain L J s h (log_records J c) = Some h'"
proof (induction "length c" arbitrary: c h rule: less_induct)
  case less
  show ?case
  proof (cases "c = []")
    case False
    have v: "verify_content L J s h c = (if line_end c > MAX_LINE \<or> 10 \<notin> set c then Inl AE_Invalid
        else case check_line L J s h (take (line_end c) c) of Inl e \<Rightarrow> Inl e
          | Inr g \<Rightarrow> verify_content L J s g (drop (line_end c) c))"
      using False by (simp add: verify_content.simps [of L J s h c])
    then obtain g where g: "check_line L J s h (take (line_end c) c) = Inr g"
      and v': "verify_content L J s g (drop (line_end c) c) = Inr h'"
      using less.prems by (auto split: if_splits sum.splits)
    have "length (drop (line_end c) c) < length c"
      using False by (auto intro!: diff_less)
    from less.hyps [OF this v'] g show ?thesis
      using False by (auto simp: check_line_Inr log_records_def log_lines.simps [of c])
  qed (use less.prems in simp)
qed


subsection \<open>Appending\<close>

lemma verify_content_append:
  "verify_content L J s h c = Inr g \<Longrightarrow> verify_content L J s h (c @ d) = verify_content L J s g d"
proof (induction "length c" arbitrary: c h rule: less_induct)
  case less
  show ?case
  proof (cases "c = []")
    case False
    then obtain k where le: "line_end c \<le> MAX_LINE" "10 \<in> set c"
      and k: "check_line L J s h (take (line_end c) c) = Inr k"
      and v': "verify_content L J s k (drop (line_end c) c) = Inr g"
      using less.prems by (auto simp: verify_content.simps [of L J s h c] split: if_splits sum.splits)
    have "length (drop (line_end c) c) < length c"
      using False by (auto intro!: diff_less)
    moreover have "line_end (c @ d) = line_end c"
      using le by (simp add: line_end_append)
    ultimately show ?thesis
      using less.hyps [OF _ v'] k le False by (simp add: verify_content.simps [of L J s h "c @ d"])
  qed (use less.prems in simp)
qed

text \<open>A prepared append is a line that the check accepts from the current head.\<close>

lemma append_prepare_line:
  assumes "audit_json_ok J" and "sign_laws L" and "append_prepare L J al now e = Inr (bs, g)"
  shows "\<exists>l. bs = l @ [10] \<and> 10 \<notin> set l \<and> length l < MAX_LINE \<and>
    check_line L J (kp_public L (al_identity al)) (al_head al) bs = Inr g"
proof -
  let ?b = "\<lambda>ms. \<lparr>ab_version = 1, ab_sequence = ah_records (al_head al),
    ab_timestamp_ms = word_of_nat ms, ab_previous = ah_hash (al_head al), ab_event = e\<rparr>"
  obtain n ms m j where n: "checked_succ (ah_records (al_head al)) = Some n"
    and m: "signable J (?b ms) = Inr m"
    and j: "aj_record J \<lparr>ar_body = ?b ms, ar_signature = kp_sign L (al_identity al) m\<rparr> = Some j"
    and bs: "bs = j @ [10]" "length bs \<le> MAX_LINE"
    and g: "g = \<lparr>ah_records = n, ah_hash = sha256 L (m @ kp_sign L (al_identity al) m)\<rparr>"
    using assms(3)
    by (auto simp: append_prepare_def record_hash_def record_preimage_def Let_def res_simps split: if_splits)
  have "10 \<notin> set j" "aj_parse J bs = Some \<lparr>ar_body = ?b ms, ar_signature = kp_sign L (al_identity al) m\<rparr>"
    using assms(1) j bs by (auto simp: audit_json_ok_def)
  moreover have "identity_verify L (kp_public L (al_identity al)) m (kp_sign L (al_identity al) m) = Inr ()"
    using assms(2) by (simp add: identity_verify_def kp_public_def kp_sign_def sign_lawsD)
  ultimately show ?thesis
    using n m bs g
    by (auto simp: check_line_Inr record_step_def checked_succ_def split: if_splits)
qed

text \<open>The invariant of an open log: unless an append failed, its file verifies and gives its head.\<close>

definition log_ok :: "crypto_lib \<Rightarrow> audit_json \<Rightarrow> audit_log \<Rightarrow> bool" where
  "log_ok L J al \<longleftrightarrow> al_failed al \<or>
     verify_content L J (kp_public L (al_identity al)) head_default (al_file al) = Inr (al_head al)"

lemma verify_content_single:
  assumes "check_line L J s h (l @ [10]) = Inr g" and "10 \<notin> set l" and "length l < MAX_LINE"
  shows "verify_content L J s h (l @ [10]) = Inr g"
  using verify_content_line [OF assms(2,3), of L J s h "[]"] assms(1) by simp

lemma append_ok:
  assumes "audit_json_ok J" and "sign_laws L" and "log_ok L J al"
  shows "log_ok L J (snd (audit_append L J al e now w))"
proof (cases "al_failed al")
  case False
  show ?thesis
  proof (cases "append_prepare L J al now e")
    case (Inr p)
    obtain bs g where p: "p = (bs, g)"
      by fastforce
    obtain l where l: "bs = l @ [10]" "10 \<notin> set l" "length l < MAX_LINE"
      "check_line L J (kp_public L (al_identity al)) (al_head al) bs = Inr g"
      using append_prepare_line [OF assms(1,2)] Inr p by blast
    have "verify_content L J (kp_public L (al_identity al)) (al_head al) bs = Inr g"
      using l verify_content_single by blast
    then show ?thesis
      using False Inr p assms(3) verify_content_append
      by (cases w) (auto simp: audit_append_def log_ok_def write_sync_def written_bytes_def Let_def
          split: sum.splits)
  qed (use False assms(3) in \<open>simp add: audit_append_def\<close>)
qed (use assms(3) in \<open>simp add: audit_append_def\<close>)

text \<open>A sequence of appends, each with its event, clock and write.\<close>

fun audit_run ::
  "crypto_lib \<Rightarrow> audit_json \<Rightarrow> audit_log \<Rightarrow> (audit_event \<times> nat option \<times> write_result) list \<Rightarrow> audit_log" where
  "audit_run L J al [] = al"
| "audit_run L J al ((e, now, w) # ops) = audit_run L J (snd (audit_append L J al e now w)) ops"

lemma audit_run_ok:
  "audit_json_ok J \<Longrightarrow> sign_laws L \<Longrightarrow> log_ok L J al \<Longrightarrow> log_ok L J (audit_run L J al ops)"
  by (induction L J al ops rule: audit_run.induct) (simp_all add: append_ok)

lemma append_identity [simp]: "al_identity (snd (audit_append L J al e now w)) = al_identity al"
  by (auto simp: audit_append_def Let_def split: sum.splits)

lemma audit_run_identity [simp]: "al_identity (audit_run L J al ops) = al_identity al"
  by (induction L J al ops rule: audit_run.induct) auto

definition reads_of :: "(io_error + bytes) list \<Rightarrow> bytes" where
  "reads_of rs = concat (map read_bytes rs)"

lemma audit_open_Inr:
  assumes "audit_open L J (Inr (reads_of reads)) locked reads sought k = Inr al" and "reads_ok reads"
  shows "log_ok L J al \<and> al_identity al = k \<and> \<not> al_failed al \<and> al_file al = reads_of reads"
  using assms
  by (auto simp: audit_open_def audit_verify_content rd_content_def log_ok_def res_simps reads_of_def)

lemma audit_open_verified:
  "reads_ok reads \<Longrightarrow> audit_open L J (Inr (reads_of reads)) (Inr ()) reads (Inr ()) k =
     res_bind (verify_content L J (kp_public L k) head_default (reads_of reads))
       (\<lambda>h. Inr \<lparr>al_file = reads_of reads, al_identity = k, al_head = h, al_failed = False\<rparr>)"
  by (simp add: audit_open_def audit_verify_content rd_content_def reads_of_def)

text \<open>C22: An audit log reopens. After a log has been opened and any sequence of appends has run
  without a failed write (some may have been refused before writing), opening its file again, read in
  any chunks, succeeds and gives exactly the same log, with the same number of records and hash.\<close>

theorem audit_log_reopens:
  assumes "audit_json_ok J" and "sign_laws L" and "reads_ok reads"
    and "audit_open L J (Inr (reads_of reads)) locked reads sought k = Inr al"
    and "\<not> al_failed (audit_run L J al ops)"
    and "reads_ok reads'" and "reads_of reads' = al_file (audit_run L J al ops)"
  shows "audit_open L J (Inr (reads_of reads')) (Inr ()) reads' (Inr ()) k = Inr (audit_run L J al ops)"
proof -
  have "log_ok L J (audit_run L J al ops)" "al_identity al = k"
    using audit_open_Inr [OF assms(4,3)] audit_run_ok [OF assms(1,2)] by auto
  then show ?thesis
    unfolding audit_open_verified [OF assms(6)] unfolding assms(7) using assms(5) by (simp add: log_ok_def)
qed

lemma append_prepare_no_io: "append_prepare L J al now e = Inl x \<Longrightarrow> x = AE_Json \<or> x = AE_Invalid"
  by (auto simp: append_prepare_def signable_def record_hash_def record_preimage_def Let_def res_simps
      split: if_splits)

lemma audit_append_io:
  assumes "audit_append L J al e now w = (Inl (AE_Io err), al')"
  obtains bs g where "\<not> al_failed al" and "append_prepare L J al now e = Inr (bs, g)"
    and "al' = al\<lparr>al_file := al_file al @ written_bytes w bs, al_failed := True\<rparr>"
    and "snd (audit_append L J al e now (Wrote (Inr ()))) = al\<lparr>al_file := al_file al @ bs, al_head := g\<rparr>"
proof (cases "append_prepare L J al now e")
  case (Inl x)
  then show ?thesis
    using assms append_prepare_no_io [OF Inl] by (auto simp: audit_append_def split: if_splits)
next
  case (Inr p)
  then show ?thesis
    using assms that [of "fst p" "snd p"] by (cases p)
      (auto simp: audit_append_def Let_def write_sync_def written_bytes_def split: if_splits sum.splits)
qed

text \<open>What the check says of a good log followed by a prefix of a good line.\<close>

lemma verify_line_prefix:
  assumes "verify_content L J s head_default c = Inr h" and "check_line L J s h (l @ [10]) = Inr g"
    and "10 \<notin> set l" and "length l < MAX_LINE"
  shows "verify_content L J s head_default (c @ take n (l @ [10])) =
    (if n = 0 then Inr h else if n > length l then Inr g else Inl AE_Invalid)"
proof -
  have "verify_content L J s h (take n l) = Inl AE_Invalid" if "0 < n" "n \<le> length l"
    using that assms(3) by (auto simp: verify_content.simps [of L J s h "take n l"] dest: in_set_takeD)
  then show ?thesis
    using verify_content_append [OF assms(1)] verify_content_single [OF assms(2-4)] by auto
qed

text \<open>C38: A failed append never corrupts the log unnoticed. When writing or syncing a record fails,
  the open log refuses every later append and keeps its head; and whatever prefix of the record
  reached the file, opening it again either finds the log as it was, or with the whole new record, or
  reports that it is invalid.\<close>

theorem audit_crash_detected:
  assumes "audit_json_ok J" and "sign_laws L" and "log_ok L J al" and "reads_ok reads"
    and "audit_append L J al e now w = (Inl (AE_Io err), al')"
    and "reads_of reads = al_file al'"
  shows "fst (audit_append L J al' e' now' w') = Inl AE_Invalid \<and> al_head al' = al_head al \<and>
    audit_open L J (Inr (reads_of reads)) (Inr ()) reads (Inr ()) (al_identity al) \<in>
      {Inr al, Inl AE_Invalid,
       Inr (snd (audit_append L J al e now (Wrote (Inr ()))))}"
proof -
  obtain bs g where ok: "\<not> al_failed al" and pr: "append_prepare L J al now e = Inr (bs, g)"
    and al': "al' = al\<lparr>al_file := al_file al @ written_bytes w bs, al_failed := True\<rparr>"
    and full: "snd (audit_append L J al e now (Wrote (Inr ()))) = al\<lparr>al_file := al_file al @ bs, al_head := g\<rparr>"
    using audit_append_io [OF assms(5)] by metis
  obtain l where l: "bs = l @ [10]" "10 \<notin> set l" "length l < MAX_LINE"
    "check_line L J (kp_public L (al_identity al)) (al_head al) (l @ [10]) = Inr g"
    using append_prepare_line [OF assms(1,2) pr] by metis
  have v: "verify_content L J (kp_public L (al_identity al)) head_default (al_file al) = Inr (al_head al)"
    using assms(3) ok by (simp add: log_ok_def)
  obtain n where n: "written_bytes w bs = take n (l @ [10])"
    using l(1) by (cases w) (auto simp: written_bytes_def intro: that [of "Suc (length l)"] that)
  note vp = verify_line_prefix [OF v l(4,2,3), of n]
  have "audit_open L J (Inr (reads_of reads)) (Inr ()) reads (Inr ()) (al_identity al) \<in>
      {Inr al, Inl AE_Invalid, Inr (al\<lparr>al_file := al_file al @ bs, al_head := g\<rparr>)}"
    unfolding audit_open_verified [OF assms(4)] unfolding assms(6)
    using ok vp n by (cases al) (auto simp: al' l(1))
  then show ?thesis
    unfolding full using al' by (simp add: audit_append_def)
qed


subsection \<open>What a head vouches for\<close>

text \<open>The inputs of the hashes of a list of records.\<close>

definition log_preimages :: "audit_json \<Rightarrow> audit_record list \<Rightarrow> bytes set" where
  "log_preimages J rs = {p. \<exists>r \<in> set rs. record_preimage J r = Inr p}"

lemma record_step_Some:
  "record_step L J s h r = Some g \<longleftrightarrow> (\<exists>m. signable J (ar_body r) = Inr m \<and> ab_version (ar_body r) = 1 \<and>
     ab_sequence (ar_body r) = ah_records h \<and> ab_previous (ar_body r) = ah_hash h \<and>
     identity_verify L s m (ar_signature r) = Inr () \<and> ah_records h \<noteq> - 1 \<and>
     g = \<lparr>ah_records = ah_records h + 1, ah_hash = sha256 L (m @ ar_signature r)\<rparr>)"
  by (cases "signable J (ar_body r)") (auto simp: record_step_def)

lemma record_chain_count:
  "record_chain L J s h rs = Some g \<Longrightarrow> unat (ah_records g) = unat (ah_records h) + length rs"
  by (induction rs arbitrary: h) (auto simp: record_step_Some unat_succ split: option.splits)

lemma record_chain_snoc:
  "record_chain L J s h (rs @ [r]) = Some g \<longleftrightarrow>
     (\<exists>k. record_chain L J s h rs = Some k \<and> record_step L J s k r = Some g)"
  by (auto simp: record_chain_append split: option.splits)

lemma record_chain_signed:
  assumes "record_chain L J s h rs = Some g"
  shows "map (\<lambda>r. unat (ab_sequence (ar_body r))) rs = [unat (ah_records h)..<unat (ah_records g)] \<and>
    list_all (\<lambda>r. case signable J (ar_body r) of Inl _ \<Rightarrow> False
      | Inr m \<Rightarrow> identity_verify L s m (ar_signature r) = Inr ()) rs"
  using assms
proof (induction rs arbitrary: h)
  case (Cons r rs)
  then obtain k where k: "record_step L J s h r = Some k" "record_chain L J s k rs = Some g"
    by (auto split: option.splits)
  then have "unat (ah_records k) = Suc (unat (ah_records h))" "unat (ah_records k) \<le> unat (ah_records g)"
    using record_chain_count [OF k(2)] by (auto simp: record_step_Some unat_succ)
  then show ?case
    using Cons.IH [OF k(2)] k(1) by (auto simp: record_step_Some upt_conv_Cons)
qed simp

lemma record_preimage_inj:
  fixes r r' :: audit_record
  assumes "audit_json_ok J" and "signable J (ar_body r) = Inr m" and "signable J (ar_body r') = Inr m'"
    and "m @ ar_signature r = m' @ ar_signature r'"
  shows "r = r'"
proof -
  have *: "aj_body J x = Some b \<Longrightarrow> aj_body J y = Some d \<Longrightarrow> b @ t = d @ u \<Longrightarrow> x = y \<and> t = u"
    for x y b d t u
    using assms(1) unfolding audit_json_ok_def by blast
  obtain b d where "aj_body J (ar_body r) = Some b" "aj_body J (ar_body r') = Some d"
    "m = AUDIT_DOMAIN @ b" "m' = AUDIT_DOMAIN @ d"
    using assms(2,3) by (auto simp: signable_def res_simps)
  then have "ar_body r = ar_body r' \<and> ar_signature r = ar_signature r'"
    using * [of "ar_body r" b "ar_body r'" d "ar_signature r" "ar_signature r'"] assms(4) by simp
  then show ?thesis
    by (intro audit_record.equality) simp_all
qed

lemma record_chain_binds:
  assumes "audit_json_ok J" and "inj_on (sha256 L) (log_preimages J rs \<union> log_preimages J rs')"
    and "record_chain L J s h rs = Some g" and "record_chain L J s h rs' = Some g"
  shows "rs = rs'"
  using assms(2-)
proof (induction rs arbitrary: rs' g rule: rev_induct)
  case Nil
  then show ?case
    using record_chain_count [of L J s h rs' g] by simp
next
  case (snoc r rs)
  then have "rs' \<noteq> []"
    using record_chain_count [of L J s h "rs @ [r]" g] record_chain_count [of L J s h rs' g] by auto
  then obtain qs q where qs: "rs' = qs @ [q]"
    by (metis rev_exhaust)
  obtain k k' where k: "record_chain L J s h rs = Some k" "record_step L J s k r = Some g"
    and k': "record_chain L J s h qs = Some k'" "record_step L J s k' q = Some g"
    using snoc.prems qs record_chain_snoc by metis
  obtain m m' where m: "signable J (ar_body r) = Inr m" "ah_hash g = sha256 L (m @ ar_signature r)"
    and m': "signable J (ar_body q) = Inr m'" "ah_hash g = sha256 L (m' @ ar_signature q)"
    using k(2) k'(2) by (auto simp: record_step_Some)
  have "m @ ar_signature r \<in> log_preimages J (rs @ [r])" "m' @ ar_signature q \<in> log_preimages J rs'"
    using m m' qs by (auto simp: log_preimages_def record_preimage_def)
  then have "m @ ar_signature r = m' @ ar_signature q"
    using inj_onD [OF snoc.prems(1)] m(2) m'(2) by (metis UnCI)
  then have r: "r = q"
    using record_preimage_inj [OF assms(1) m(1) m'(1)] by simp
  then have "k = k'"
    using k(2) k'(2) by (cases k; cases k') (auto simp: record_step_Some)
  moreover have "inj_on (sha256 L) (log_preimages J rs \<union> log_preimages J qs)"
    using snoc.prems(1) by (rule inj_on_subset) (auto simp: log_preimages_def qs)
  ultimately show ?case
    using snoc.IH k(1) k'(1) r qs by blast
qed

text \<open>A trusted head vouches for the whole log. If two files verify under the same signer with
  the same number of records and the same hash, they hold the same records, provided SHA-256 has no
  collision among what was hashed: nothing can be changed, reordered, inserted or removed, at the
  tail either.\<close>

theorem audit_head_binds:
  assumes "audit_json_ok J" and "reads_ok reads" and "reads_ok reads'"
    and "verify_file L J (Inr \<lparr>br_buffer = [], br_reads = reads\<rparr>) signer = Inr h"
    and "verify_file L J (Inr \<lparr>br_buffer = [], br_reads = reads'\<rparr>) signer = Inr h"
    and "inj_on (sha256 L) (log_preimages J (log_records J (reads_of reads)) \<union>
      log_preimages J (log_records J (reads_of reads')))"
  shows "log_records J (reads_of reads) = log_records J (reads_of reads')"
proof -
  have "verify_content L J signer head_default (reads_of reads) = Inr h"
    "verify_content L J signer head_default (reads_of reads') = Inr h"
    using assms(2-5) by (simp_all add: verify_file_def audit_verify_content rd_content_def reads_of_def)
  then show ?thesis
    using record_chain_binds [OF assms(1,6)] verify_content_chain by blast
qed

text \<open>An accepted log is authentic and complete up to its length. When a file verifies with n
  records, its records are numbered 0 to n-1 without a gap, and the signature of each verifies under
  the signer's key over the domain and the record's body.\<close>

theorem audit_accepts_signed:
  assumes "reads_ok reads"
    and "verify_file L J (Inr \<lparr>br_buffer = [], br_reads = reads\<rparr>) signer = Inr h"
  shows "map (\<lambda>r. unat (ab_sequence (ar_body r))) (log_records J (reads_of reads)) = [0..<unat (ah_records h)] \<and>
    list_all (\<lambda>r. case signable J (ar_body r) of Inl _ \<Rightarrow> False
      | Inr m \<Rightarrow> identity_verify L signer m (ar_signature r) = Inr ()) (log_records J (reads_of reads))"
proof -
  have "verify_content L J signer head_default (reads_of reads) = Inr h"
    using assms by (simp add: verify_file_def audit_verify_content rd_content_def reads_of_def)
  from record_chain_signed [OF verify_content_chain [OF this]] show ?thesis
    by (simp add: head_default_def)
qed

subsection \<open>A concrete serializer and log\<close>

text \<open>An instance of the parameter that satisfies its law; it models no code of the program.\<close>

definition demo_actions :: "audit_action list" where
  "demo_actions = [ConnectionRequested, SessionAccepted, SessionRejected, SessionDisconnected,
     PermissionChanged, FileOffered, FileCompleted, FileCancelled, FileFailed]"

fun action_code :: "audit_action \<Rightarrow> nat" where
  "action_code ConnectionRequested = 0"
| "action_code SessionAccepted = 1"
| "action_code SessionRejected = 2"
| "action_code SessionDisconnected = 3"
| "action_code PermissionChanged = 4"
| "action_code FileOffered = 5"
| "action_code FileCompleted = 6"
| "action_code FileCancelled = 7"
| "action_code FileFailed = 8"

fun outcome_code :: "audit_outcome \<Rightarrow> nat" where
  "outcome_code Outcome_Success = 0"
| "outcome_code Outcome_Denied = 1"
| "outcome_code Outcome_Failed = 2"

definition codec_u :: "nat \<Rightarrow> 'a :: len word codec" where
  "codec_u n = codec_conv unat word_of_nat (codec_be n)"

definition codec_device :: "device_id codec" where
  "codec_device = codec_conv (\<lambda>d. unat (did_value d)) (\<lambda>n. DeviceId (word_of_nat n)) (codec_be 4)"

definition codec_event :: "audit_event codec" where
  "codec_event = codec_conv
     (\<lambda>e. (ev_actor e, ev_target e, action_code (ev_action e), outcome_code (ev_outcome e), ev_bytes e))
     (\<lambda>(a, t, k, u, n). \<lparr>ev_actor = a, ev_target = t, ev_action = demo_actions ! k,
        ev_outcome = [Outcome_Success, Outcome_Denied, Outcome_Failed] ! u, ev_bytes = n\<rparr>)
     (codec_pair codec_device (codec_pair codec_device (codec_pair (codec_be 1) (codec_pair (codec_be 1) (codec_u 8)))))"

definition codec_body :: "audit_body codec" where
  "codec_body = codec_conv
     (\<lambda>b. (ab_version b, ab_sequence b, ab_timestamp_ms b, ab_previous b, ab_event b))
     (\<lambda>(v, s, t, p, e). \<lparr>ab_version = v, ab_sequence = s, ab_timestamp_ms = t, ab_previous = p, ab_event = e\<rparr>)
     (codec_pair (codec_u 2) (codec_pair (codec_u 8) (codec_pair (codec_u 8) (codec_pair codec_blob codec_event))))"

definition codec_record :: "audit_record codec" where
  "codec_record = codec_conv (\<lambda>r. (ar_body r, ar_signature r))
     (\<lambda>(b, s). \<lparr>ar_body = b, ar_signature = s\<rparr>) (codec_pair codec_body codec_blob)"

lemma codec_u_ok [intro, simp]: "codec_ok (codec_u n)"
  unfolding codec_u_def by (intro codec_conv_ok codec_be_ok) simp

lemma codec_device_ok [intro, simp]: "codec_ok codec_device"
proof -
  have "DeviceId (word_of_nat (unat (did_value d))) = d" for d
    by (cases d) simp
  then show ?thesis
    unfolding codec_device_def by (intro codec_conv_ok codec_be_ok)
qed

lemma codec_event_ok [intro, simp]: "codec_ok codec_event"
  unfolding codec_event_def
proof (intro codec_conv_ok codec_pair_ok codec_device_ok codec_be_ok codec_u_ok)
  have "demo_actions ! action_code a = a" for a
    by (cases a) (simp_all add: demo_actions_def)
  moreover have "[Outcome_Success, Outcome_Denied, Outcome_Failed] ! outcome_code u = u" for u
    by (cases u) simp_all
  ultimately show "(case (ev_actor e, ev_target e, action_code (ev_action e), outcome_code (ev_outcome e), ev_bytes e) of
      (a, t, k, u, n) \<Rightarrow> \<lparr>ev_actor = a, ev_target = t, ev_action = demo_actions ! k,
        ev_outcome = [Outcome_Success, Outcome_Denied, Outcome_Failed] ! u, ev_bytes = n\<rparr>) = e" for e
    by simp
qed

lemma codec_body_ok [intro, simp]: "codec_ok codec_body"
  unfolding codec_body_def by (intro codec_conv_ok codec_pair_ok codec_u_ok codec_blob_ok codec_event_ok) simp

lemma codec_record_ok [intro, simp]: "codec_ok codec_record"
  unfolding codec_record_def by (intro codec_conv_ok codec_pair_ok codec_body_ok codec_blob_ok) simp

definition demo_json :: audit_json where
  "demo_json =
     \<lparr>aj_body = cd_ser codec_body,
      aj_record = (\<lambda>r. map_option (\<lambda>b. map word_of_nat (hex_of_bytes b)) (cd_ser codec_record r)),
      aj_parse = (\<lambda>l. case hex_pairs (map unat (butlast l)) of None \<Rightarrow> None
        | Some b \<Rightarrow> map_option fst (cd_take codec_record b))\<rparr>"

lemma hex_word_bytes:
  "map unat (map word_of_nat (hex_of_bytes b) :: bytes) = hex_of_bytes b"
  "10 \<notin> set (map word_of_nat (hex_of_bytes b) :: bytes)"
proof -
  have *: "unat (word_of_nat c :: u8) = c" "c \<noteq> 10" if c: "c \<in> set (hex_of_bytes b)" for c
  proof -
    obtain n where "n < 16" "c = hex_char n"
      using hex_of_bytes_set [OF c] by blast
    then show "unat (word_of_nat c :: u8) = c" "c \<noteq> 10"
      using hex_char_range [of n] by (auto simp: unat_of_nat take_bit_eq_mod)
  qed
  then show "map unat (map word_of_nat (hex_of_bytes b) :: bytes) = hex_of_bytes b"
    by (auto intro!: map_idI)
  have "unat (10 :: u8) = 10"
    by simp
  then show "10 \<notin> set (map word_of_nat (hex_of_bytes b) :: bytes)"
    using * by (metis (no_types, lifting) imageE list.set_map)
qed

lemma demo_json_ok: "audit_json_ok demo_json"
  unfolding audit_json_ok_def
proof (intro conjI allI impI; (elim conjE)?)
  fix r b
  assume "aj_record demo_json r = Some b"
  then obtain c where c: "cd_ser codec_record r = Some c" "b = map word_of_nat (hex_of_bytes c)"
    by (auto simp: demo_json_def)
  then show "10 \<notin> set b" "aj_parse demo_json (b @ [10]) = Some r"
    using hex_word_bytes [of c] codec_okD0 [OF codec_record_ok c(1)] by (simp_all add: demo_json_def)
next
  fix x y b d r s
  assume "aj_body demo_json x = Some b" "aj_body demo_json y = Some d" "b @ r = d @ s"
  then show "x = y" "r = s"
    using codec_prefix_inj [OF codec_body_ok, of x b y d r s] by (simp_all add: demo_json_def)
qed

definition demo_event :: audit_event where
  "demo_event = \<lparr>ev_actor = DeviceId 123456789, ev_target = DeviceId 987654321,
     ev_action = SessionAccepted, ev_outcome = Outcome_Success, ev_bytes = 0\<rparr>"

definition demo_identity :: identity_keypair where
  "demo_identity = IdentityKeypair (replicate 32 5)"

definition demo_log :: audit_log where
  "demo_log = \<lparr>al_file = [], al_identity = demo_identity, al_head = head_default, al_failed = False\<rparr>"

lemma demo_open:
  "audit_open demo_lib demo_json (Inr (reads_of [])) (Inr ()) [] (Inr ()) demo_identity = Inr demo_log"
  by (simp add: audit_open_verified reads_ok_def) (simp add: reads_of_def demo_log_def)

definition log_ready :: "nat \<Rightarrow> audit_log \<Rightarrow> bool" where
  "log_ready n al \<longleftrightarrow> \<not> al_failed al \<and> ah_records (al_head al) = word_of_nat n \<and> length (ah_hash (al_head al)) = 32"

lemma codes_small [simp]: "action_code a < 256" "outcome_code u < 256"
  by (cases a; simp) (cases u; simp)

lemma unat_small [simp]:
  "unat (x :: u64) < 18446744073709551616" "unat (y :: u32) < 4294967296" "unat (z :: u16) < 65536"
  using unsigned_less [of x] unsigned_less [of y] unsigned_less [of z] by simp_all

lemma demo_prepare_any:
  assumes "log_ready n al" and "n < 1000" and "ms < 2 ^ 64"
  shows "is_ok (append_prepare demo_lib demo_json al (Some ms) ev)"
proof -
  have sig: "length (demo_sign k m) = 64" for k m
    by (simp add: demo_sign_def)
  have "unat (word_of_nat n :: u64) \<noteq> unat (- 1 :: u64)"
    using assms(2) by (simp add: unat_of_nat take_bit_eq_mod unsigned_minus_1_eq_mask mask_eq_exp_minus_1)
  then have "(word_of_nat n :: u64) \<noteq> - 1"
    by metis
  then show ?thesis
    using assms
    by (simp add: log_ready_def append_prepare_def signable_def record_hash_def record_preimage_def demo_json_def
        codec_record_def codec_body_def codec_event_def codec_device_def codec_u_def codec_conv_def
        codec_pair_def codec_be_def codec_blob_def Let_def
        checked_succ_def kp_sign_def demo_lib_def sig MAX_LINE_def)
qed

lemma demo_append_any:
  assumes "log_ready n al" and "n < 1000" and "ms < 2 ^ 64"
  shows "\<exists>h al'. audit_append demo_lib demo_json al ev (Some ms) (Wrote (Inr ())) = (Inr h, al') \<and>
    log_ready (Suc n) al'"
proof -
  obtain bs h where p: "append_prepare demo_lib demo_json al (Some ms) ev = Inr (bs, h)"
    using demo_prepare_any [OF assms, of ev] by (auto simp: res_simps)
  then have "ah_records h = word_of_nat n + 1" "length (ah_hash h) = 32"
    using assms(1) by (auto simp: append_prepare_def record_hash_def log_ready_def res_simps Let_def
        checked_succ_def demo_lib_def min_def split: if_splits)
  then show ?thesis
    using p assms(1) by (simp add: audit_append_def Let_def write_sync_def written_bytes_def log_ready_def add.commute)
qed

lemma demo_prepare: "is_ok (append_prepare demo_lib demo_json demo_log (Some 1700000000000) demo_event)"
  by (rule demo_prepare_any [of 0]) (simp_all add: log_ready_def demo_log_def head_default_def)

text \<open>The same log after one successful append, and the lengths of what was written.\<close>

definition demo_log1 :: audit_log where
  "demo_log1 = snd (audit_append demo_lib demo_json demo_log demo_event (Some 1700000000000) (Wrote (Inr ())))"

lemma demo_append:
  obtains bs h where "append_prepare demo_lib demo_json demo_log (Some 1700000000000) demo_event = Inr (bs, h)"
    and "al_file demo_log1 = bs" and "al_head demo_log1 = h" and "\<not> al_failed demo_log1"
    and "al_identity demo_log1 = demo_identity" and "ah_records h = 1" and "bs \<noteq> []"
proof -
  obtain bs h where p: "append_prepare demo_lib demo_json demo_log (Some 1700000000000) demo_event = Inr (bs, h)"
    using demo_prepare by (auto simp: res_simps)
  then have "ah_records h = 1" "bs \<noteq> []"
    by (auto simp: append_prepare_def res_simps Let_def demo_log_def head_default_def checked_succ_def
        split: if_splits)
  then show ?thesis
    using that p by (simp add: demo_log1_def audit_append_def Let_def write_sync_def written_bytes_def demo_log_def)
qed

lemma audit_log_reopens_witness:
  "audit_open demo_lib demo_json (Inr (al_file demo_log1)) (Inr ()) [Inr (al_file demo_log1)] (Inr ())
     demo_identity = Inr demo_log1 \<and> ah_records (al_head demo_log1) = 1"
proof -
  obtain bs h where d: "al_file demo_log1 = bs" "al_head demo_log1 = h" "\<not> al_failed demo_log1"
    "ah_records h = 1" "bs \<noteq> []"
    using demo_append by metis
  have run: "audit_run demo_lib demo_json demo_log [(demo_event, Some 1700000000000, Wrote (Inr ()))] = demo_log1"
    by (simp add: demo_log1_def)
  have "reads_ok ([] :: (io_error + bytes) list)" "reads_ok [Inr (al_file demo_log1)]"
    "reads_of [Inr (al_file demo_log1)] = al_file demo_log1" "\<not> al_failed demo_log1"
    using d by (simp_all add: reads_ok_def reads_of_def read_bytes_def)
  then show ?thesis
    using audit_log_reopens [OF demo_json_ok demo_sign_laws _ demo_open, of
        "[(demo_event, Some 1700000000000, Wrote (Inr ()))]" "[Inr (al_file demo_log1)]"] run d by simp
qed

lemma demo_log1_verifies:
  "verify_file demo_lib demo_json (Inr \<lparr>br_buffer = [], br_reads = [Inr (al_file demo_log1)]\<rparr>)
     (kp_public demo_lib demo_identity) = Inr (al_head demo_log1)"
proof -
  obtain bs h where d: "al_file demo_log1 = bs" "al_head demo_log1 = h" "\<not> al_failed demo_log1"
    "al_identity demo_log1 = demo_identity" "bs \<noteq> []"
    using demo_append by metis
  have "log_ok demo_lib demo_json demo_log1"
    unfolding demo_log1_def using demo_json_ok demo_sign_laws
    by (rule append_ok) (simp add: log_ok_def demo_log_def)
  moreover have "reads_ok [Inr bs]"
    using d by (simp add: reads_ok_def)
  ultimately show ?thesis
    using d by (simp add: log_ok_def verify_file_def audit_verify_content rd_content_def read_bytes_def)
qed

lemma audit_crash_detected_witness:
  "fst (audit_append demo_lib demo_json (demo_log\<lparr>al_file := [], al_failed := True\<rparr>) demo_event (Some 0)
      (Wrote (Inr ()))) = Inl AE_Invalid \<and>
   audit_open demo_lib demo_json (Inr (reads_of [])) (Inr ()) [] (Inr ()) demo_identity \<in>
      {Inr demo_log, Inl AE_Invalid, Inr demo_log1}"
proof -
  obtain bs h where p: "append_prepare demo_lib demo_json demo_log (Some 1700000000000) demo_event = Inr (bs, h)"
    using demo_append by metis
  let ?f = "demo_log\<lparr>al_file := [], al_failed := True\<rparr>"
  have "audit_append demo_lib demo_json demo_log demo_event (Some 1700000000000) (Wrote_part 0 IO_WriteZero) =
      (Inl (AE_Io IO_WriteZero), ?f)"
    using p by (simp add: audit_append_def Let_def write_sync_def written_bytes_def) (simp add: demo_log_def)
  moreover have "log_ok demo_lib demo_json demo_log" "reads_ok []" "reads_of [] = al_file ?f"
    by (simp_all add: log_ok_def demo_log_def reads_ok_def reads_of_def)
  ultimately show ?thesis
    using audit_crash_detected [OF demo_json_ok demo_sign_laws, of demo_log "[]" demo_event "Some 1700000000000"
        "Wrote_part 0 IO_WriteZero" IO_WriteZero ?f demo_event "Some 0" "Wrote (Inr ())"]
    unfolding demo_log1_def by (simp add: demo_log_def)
qed

lemma log_records_single:
  assumes "10 \<notin> set l"
  shows "log_records J (l @ [10]) = [the (aj_parse J (l @ [10]))]"
proof -
  have "line_end (l @ [10]) = length l + 1"
    using assms by (simp add: line_end_append) (simp add: line_end_def)
  then show ?thesis
    by (simp add: log_records_def log_lines.simps)
qed

lemma audit_head_binds_witness:
  "log_records demo_json (reads_of [Inr (al_file demo_log1)]) =
   log_records demo_json (reads_of (map (\<lambda>b. Inr [b]) (al_file demo_log1)))"
proof -
  let ?a = "[Inr (al_file demo_log1)] :: (io_error + bytes) list"
  let ?b = "map (\<lambda>b. Inr [b]) (al_file demo_log1) :: (io_error + bytes) list"
  obtain bs h where p: "append_prepare demo_lib demo_json demo_log (Some 1700000000000) demo_event = Inr (bs, h)"
    and d: "al_file demo_log1 = bs" "al_head demo_log1 = h" "bs \<noteq> []"
    using demo_append by metis
  obtain l where l: "bs = l @ [10]" "10 \<notin> set l"
    using append_prepare_line [OF demo_json_ok demo_sign_laws p] by blast
  have ok: "reads_ok ?a" "reads_ok ?b"
    using d by (simp_all add: reads_ok_def list_all_iff)
  have of: "reads_of ?a = bs" "reads_of ?b = bs"
    using d by (simp_all add: reads_of_def read_bytes_def comp_def)
  have "log_preimages demo_json (log_records demo_json bs) \<subseteq> {p. record_preimage demo_json (the (aj_parse demo_json bs)) = Inr p}"
    using l by (auto simp: log_records_single log_preimages_def)
  then have "inj_on (sha256 demo_lib) (log_preimages demo_json (log_records demo_json bs))"
    by (intro inj_onI) (metis (mono_tags, lifting) mem_Collect_eq subsetD old.sum.inject(2))
  moreover have "verify_file demo_lib demo_json (Inr \<lparr>br_buffer = [], br_reads = ?b\<rparr>)
     (kp_public demo_lib demo_identity) = Inr (al_head demo_log1)"
    using demo_log1_verifies ok of d
    by (simp add: verify_file_def audit_verify_content rd_content_def reads_of_def)
  ultimately show ?thesis
    using audit_head_binds [OF demo_json_ok ok demo_log1_verifies] of by simp
qed

lemma audit_accepts_signed_witness:
  "map (\<lambda>r. unat (ab_sequence (ar_body r))) (log_records demo_json (reads_of [Inr (al_file demo_log1)])) = [0]"
proof -
  obtain bs h where d: "al_file demo_log1 = bs" "al_head demo_log1 = h" "\<not> al_failed demo_log1"
    "ah_records h = 1" "bs \<noteq> []"
    using demo_append by metis
  have "reads_ok [Inr (al_file demo_log1)]"
    using d by (simp add: reads_ok_def)
  then show ?thesis
    using audit_accepts_signed [OF _ demo_log1_verifies] d by simp
qed

end
