(* ===== verification/Sensor_Store.thy ===== *)
theory Sensor_Store
  imports Sensor_Prelude
begin

section \<open>Files that are replaced atomically\<close>

text \<open>
  The identity, the unattended grant, the contacts and the network settings are each one file that is
  read with a size bound and replaced by writing a temporary file, syncing it and renaming it over
  the old one. This theory holds these two steps, and the locale \<open>durable_store\<close>: the contract of
  such a file (what was saved is loaded again, a failed save changes nothing), from which it follows
  that a load returns the last successful save. The stores interpret it.
\<close>

subsection \<open>Reading and replacing a file\<close>

text \<open>A file is \<open>None\<close> when it does not exist. The faults are the errors of the system calls.\<close>

record read_faults =
  rf_open :: "io_error option"
  rf_read :: "io_error option"

definition no_read_faults :: read_faults where
  "no_read_faults = \<lparr>rf_open = None, rf_read = None\<rparr>"

text \<open>The error of \<open>File::open(path)\<close>, if any.\<close>

definition open_error :: "read_faults \<Rightarrow> bytes option \<Rightarrow> io_error option" where
  "open_error f file =
     (case rf_open f of Some e \<Rightarrow> Some e | None \<Rightarrow> if file = None then Some IO_NotFound else None)"

lemma open_error_no_faults [simp]:
  "open_error no_read_faults None = Some IO_NotFound" "open_error no_read_faults (Some c) = None"
  by (simp_all add: open_error_def no_read_faults_def)

text \<open>\<open>File::open(path)\<close>, then \<open>take(limit + 1).read_to_end\<close>.\<close>

definition read_limited :: "read_faults \<Rightarrow> nat \<Rightarrow> bytes option \<Rightarrow> io_error + bytes" where
  "read_limited f limit file =
     (case rf_open f of
        Some e \<Rightarrow> Inl e
      | None \<Rightarrow>
          (case file of
             None \<Rightarrow> Inl IO_NotFound
           | Some content \<Rightarrow>
               (case rf_read f of Some e \<Rightarrow> Inl e | None \<Rightarrow> Inr (take (limit + 1) content))))"

record save_faults =
  sv_temp :: "io_error option"
  sv_write :: "io_error option"
  sv_sync :: "io_error option"
  sv_persist :: "io_error option"

definition no_save_faults :: save_faults where
  "no_save_faults = \<lparr>sv_temp = None, sv_write = None, sv_sync = None, sv_persist = None\<rparr>"

text \<open>A temporary file beside the target is written and synced, then renamed over it. On an error the
  temporary file is removed.\<close>

definition replace_file :: "save_faults \<Rightarrow> bytes \<Rightarrow> bytes option \<Rightarrow> (io_error + unit) \<times> bytes option" where
  "replace_file f content file =
     (case sv_temp f of Some e \<Rightarrow> (Inl e, file) | None \<Rightarrow>
     (case sv_write f of Some e \<Rightarrow> (Inl e, file) | None \<Rightarrow>
     (case sv_sync f of Some e \<Rightarrow> (Inl e, file) | None \<Rightarrow>
     (case sv_persist f of Some e \<Rightarrow> (Inl e, file) | None \<Rightarrow> (Inr (), Some content)))))"

lemma read_limited_None [simp]: "read_limited no_read_faults limit None = Inl IO_NotFound"
  by (simp add: read_limited_def no_read_faults_def)

lemma read_limited_Some [simp]:
  "read_limited no_read_faults limit (Some c) = Inr (take (limit + 1) c)"
  by (simp add: read_limited_def no_read_faults_def)

lemma replace_file_cases:
  "replace_file f c file = (Inr (), Some c) \<or> (\<exists>e. replace_file f c file = (Inl e, file))"
  by (auto simp: replace_file_def split: option.splits)

lemma replace_file_Inl: "replace_file f c file = (Inl e, file') \<Longrightarrow> file' = file"
  using replace_file_cases [of f c "file"] by auto

lemma replace_file_Inr: "replace_file f c file = (Inr u, file') \<Longrightarrow> file' = Some c"
  using replace_file_cases [of f c "file"] by auto

lemma replace_file_no_faults [simp]: "replace_file no_save_faults c file = (Inr (), Some c)"
  by (simp add: replace_file_def no_save_faults_def)

subsection \<open>Saves in sequence\<close>

fun store_run :: "('f \<Rightarrow> 'v \<Rightarrow> 's \<Rightarrow> ('e + unit) \<times> 's) \<Rightarrow> 's \<Rightarrow> ('f \<times> 'v) list \<Rightarrow> 's" where
  "store_run save s [] = s"
| "store_run save s ((f, v) # ops) = store_run save (snd (save f v s)) ops"

text \<open>The value of the last save that succeeded.\<close>

fun last_saved :: "('f \<Rightarrow> 'v \<Rightarrow> 's \<Rightarrow> ('e + unit) \<times> 's) \<Rightarrow> 's \<Rightarrow> ('f \<times> 'v) list \<Rightarrow> 'v option" where
  "last_saved save s [] = None"
| "last_saved save s ((f, v) # ops) =
     (case last_saved save (snd (save f v s)) ops of
        Some w \<Rightarrow> Some w
      | None \<Rightarrow> if is_ok (fst (save f v s)) then Some v else None)"

locale durable_store =
  fixes save :: "'f \<Rightarrow> 'v \<Rightarrow> 's \<Rightarrow> ('e + unit) \<times> 's"
    and load :: "'s \<Rightarrow> 'l + 'v"
    and fit :: "'v \<Rightarrow> bool"
  assumes save_load: "fit v \<Longrightarrow> save f v s = (Inr u, s') \<Longrightarrow> load s' = Inr v"
    and save_atomic: "save f v s = (Inl e, s') \<Longrightarrow> s' = s"
begin

lemma load_last_saved:
  "list_all (\<lambda>op. fit (snd op)) ops \<Longrightarrow> load (store_run save s ops) = (case last_saved save s ops of None \<Rightarrow> load s | Some v \<Rightarrow> Inr v)"
proof (induction ops arbitrary: s)
  case (Cons op ops)
  obtain f v where op: "op = (f, v)"
    by fastforce
  show ?case
  proof (cases "save f v s")
    case (Pair r s')
    then show ?thesis
      using Cons op save_load [of v f s] save_atomic [of f v s] by (cases r) (auto split: option.splits)
  qed
qed simp

end

end
