(* ===== verification/Sensor_Identity.thy ===== *)
theory Sensor_Identity
  imports Sensor_Core Sensor_Crypto Sensor_Codec Sensor_Store
begin

section \<open>sensor-identity: the device identity and its file\<close>

text \<open>
  A device's identity is its ID, its key pair and two optional names. It is stored in one file; the
  private seed is protected by the platform, with the public metadata as authenticated context. The
  serializer and the protector are parameters. The lemmas show that what is saved is loaded, that a
  failed save keeps the old identity, that edited metadata is never accepted, and that an existing
  identity is never replaced by a generated one.
\<close>

subsection \<open>Data\<close>

(* @src crates/sensor-identity/src/lib.rs:21-21 IDENTITY_FILE_VERSION *)
definition IDENTITY_FILE_VERSION :: u16 where
  "IDENTITY_FILE_VERSION = 1"

(* @src crates/sensor-identity/src/lib.rs:22-22 MAX_IDENTITY_BYTES *)
definition MAX_IDENTITY_BYTES :: nat where
  "MAX_IDENTITY_BYTES = 64 * 1024"

(* @src crates/sensor-identity/src/lib.rs:25-38 IdentityError *)
datatype identity_error =
    IE_Serialization
  | IE_Io io_error
  | IE_Protection rstr
  | IE_Malformed
  | IE_KeyMismatch
  | IE_Alias core_error

(* @src crates/sensor-identity/src/lib.rs:42-45 KeyProtector *)
record key_protector =
  pt_protect :: "bytes \<Rightarrow> bytes \<Rightarrow> identity_error + bytes"
  pt_unprotect :: "bytes \<Rightarrow> bytes \<Rightarrow> identity_error + bytes"

text \<open>
  The documented behaviour of a protector: what it protects it gives back under the same context, the
  protected form is not empty, and under another context it is refused.
\<close>

definition protector_ok :: "key_protector \<Rightarrow> bool" where
  "protector_ok K \<longleftrightarrow> (\<forall>d x c. pt_protect K d x = Inr c \<longrightarrow>
     pt_unprotect K c x = Inr d \<and> c \<noteq> [] \<and> (\<forall>y p. pt_unprotect K c y = Inr p \<longrightarrow> y = x))"

lemma protector_okD:
  assumes "protector_ok K" and "pt_protect K d x = Inr c"
  shows "pt_unprotect K c x = Inr d" and "c \<noteq> []" and "pt_unprotect K c y = Inr p \<Longrightarrow> y = x"
  using assms unfolding protector_ok_def by blast+

(* @src crates/sensor-identity/src/lib.rs:48-53 DeviceIdentity *)
record device_identity =
  di_device_id :: device_id
  di_alias :: "device_alias option"
  di_namespace :: "device_alias option"
  di_keypair :: identity_keypair

(* @src crates/sensor-identity/src/lib.rs:66-78 DeviceIdentity::from_parts *)
definition identity_from_parts ::
  "device_id \<Rightarrow> identity_keypair \<Rightarrow> device_alias option \<Rightarrow> device_alias option \<Rightarrow> device_identity" where
  "identity_from_parts did keypair alias namespace =
     \<lparr>di_device_id = did, di_alias = alias, di_namespace = namespace, di_keypair = keypair\<rparr>"

text \<open>The random draws: the generator of the device ID, and the seed of the new key pair.\<close>

(* @src crates/sensor-identity/src/lib.rs:56-64 DeviceIdentity::generate *)
definition identity_generate :: "('g \<Rightarrow> u32 \<times> 'g) \<Rightarrow> 'g \<Rightarrow> bytes \<Rightarrow> device_identity option" where
  "identity_generate next_u32 rng seed =
     (case device_id_generate next_u32 rng of
        None \<Rightarrow> None
      | Some (did, _) \<Rightarrow>
          Some \<lparr>di_device_id = did, di_alias = None, di_namespace = None, di_keypair = IdentityKeypair seed\<rparr>)"

definition alias_of_option :: "rstr option \<Rightarrow> identity_error + device_alias option" where
  "alias_of_option s =
     (case s of None \<Rightarrow> Inr None | Some t \<Rightarrow> res_bind (map_err IE_Alias (device_alias_new t)) (\<lambda>a. Inr (Some a)))"

(* @src crates/sensor-identity/src/lib.rs:96-99 DeviceIdentity::set_alias *)
definition set_alias :: "rstr option \<Rightarrow> device_identity \<Rightarrow> (identity_error + unit) \<times> device_identity" where
  "set_alias s i = (case alias_of_option s of Inl e \<Rightarrow> (Inl e, i) | Inr a \<Rightarrow> (Inr (), i\<lparr>di_alias := a\<rparr>))"

(* @src crates/sensor-identity/src/lib.rs:101-107 DeviceIdentity::set_namespace *)
definition set_namespace :: "rstr option \<Rightarrow> device_identity \<Rightarrow> (identity_error + unit) \<times> device_identity" where
  "set_namespace s i =
     (case alias_of_option s of Inl e \<Rightarrow> (Inl e, i) | Inr a \<Rightarrow> (Inr (), i\<lparr>di_namespace := a\<rparr>))"

(* @src crates/sensor-identity/src/lib.rs:111-118 PersistedIdentity *)
record persisted_identity =
  pi_version :: u16
  pi_device_id :: device_id
  pi_alias :: "device_alias option"
  pi_namespace :: "device_alias option"
  pi_public_key :: bytes
  pi_protected_seed :: bytes

(* @src crates/sensor-identity/src/lib.rs:121-127 ProtectionContext *)
record protection_ctx =
  px_version :: u16
  px_device_id :: device_id
  px_alias :: "device_alias option"
  px_namespace :: "device_alias option"
  px_public_key :: bytes

text \<open>The serializer at the two types.\<close>

record identity_codecs =
  ic_persisted :: "persisted_identity codec"
  ic_context :: "protection_ctx codec"

definition identity_codecs_ok :: "identity_codecs \<Rightarrow> bool" where
  "identity_codecs_ok C \<longleftrightarrow> codec_ok (ic_persisted C) \<and> codec_ok (ic_context C)"

(* @src crates/sensor-identity/src/lib.rs:129-143 protection_context *)
definition protection_context ::
  "identity_codecs \<Rightarrow> u16 \<Rightarrow> device_id \<Rightarrow> device_alias option \<Rightarrow> device_alias option \<Rightarrow> bytes \<Rightarrow>
   identity_error + bytes" where
  "protection_context C version did alias namespace public_key =
     ok_or (cd_ser (ic_context C)
       \<lparr>px_version = version, px_device_id = did, px_alias = alias, px_namespace = namespace,
        px_public_key = public_key\<rparr>) IE_Serialization"

subsection \<open>The file store\<close>

text \<open>What the store works with: the libraries, the serializer and the protector.\<close>

(* @src crates/sensor-identity/src/lib.rs:146-149 IdentityFileStore *)
record identity_env =
  ie_crypto :: crypto_lib
  ie_codecs :: identity_codecs
  ie_protector :: key_protector

(* @src crates/sensor-identity/src/lib.rs:197-237 IdentityFileStore::load *)
definition identity_load :: "identity_env \<Rightarrow> read_faults \<Rightarrow> bytes option \<Rightarrow> identity_error + device_identity" where
  "identity_load E f file =
     res_bind (map_err IE_Io (read_limited f MAX_IDENTITY_BYTES file)) (\<lambda>bytes.
     if length bytes > MAX_IDENTITY_BYTES then Inl IE_Malformed
     else res_bind (ok_or (cd_take (ic_persisted (ie_codecs E)) bytes) IE_Serialization) (\<lambda>(p, trailing).
     if trailing \<noteq> [] then Inl IE_Malformed
     else if pi_version p \<noteq> IDENTITY_FILE_VERSION \<or> pi_protected_seed p = [] then Inl IE_Malformed
     else res_bind (protection_context (ie_codecs E) (pi_version p) (pi_device_id p) (pi_alias p)
       (pi_namespace p) (pi_public_key p)) (\<lambda>context.
     res_bind (pt_unprotect (ie_protector E) (pi_protected_seed p) context) (\<lambda>seed.
     if length seed \<noteq> 32 then Inl IE_Malformed
     else let keypair = IdentityKeypair seed
       in if kp_public (ie_crypto E) keypair \<noteq> pi_public_key p then Inl IE_KeyMismatch
          else Inr (identity_from_parts (pi_device_id p) keypair (pi_alias p) (pi_namespace p))))))"

(* @src crates/sensor-identity/src/lib.rs:244-273 IdentityFileStore::save_locked *)
definition identity_save_locked ::
  "identity_env \<Rightarrow> save_faults \<Rightarrow> device_identity \<Rightarrow> bytes option \<Rightarrow> (identity_error + unit) \<times> bytes option" where
  "identity_save_locked E f i file =
     (let public_key = kp_public (ie_crypto E) (di_keypair i)
      in case protection_context (ie_codecs E) IDENTITY_FILE_VERSION (di_device_id i) (di_alias i)
           (di_namespace i) public_key of
           Inl e \<Rightarrow> (Inl e, file)
         | Inr context \<Rightarrow>
       (case pt_protect (ie_protector E) (kp_seed (di_keypair i)) context of
           Inl e \<Rightarrow> (Inl e, file)
         | Inr protected \<Rightarrow>
       (case cd_ser (ic_persisted (ie_codecs E))
           \<lparr>pi_version = IDENTITY_FILE_VERSION, pi_device_id = di_device_id i, pi_alias = di_alias i,
            pi_namespace = di_namespace i, pi_public_key = public_key, pi_protected_seed = protected\<rparr> of
           None \<Rightarrow> (Inl IE_Serialization, file)
         | Some bytes \<Rightarrow>
             if length bytes > MAX_IDENTITY_BYTES then (Inl IE_Malformed, file)
             else case replace_file f bytes file of (r, file') \<Rightarrow> (map_err IE_Io r, file'))))"

text \<open>
  Taking the lock: creating the directory, opening the lock file beside the identity, locking it. The
  result of each is an input.
\<close>

(* @src crates/sensor-identity/src/lib.rs:183-195 IdentityFileStore::lock *)
definition identity_lock :: "io_error option \<Rightarrow> io_error option \<Rightarrow> io_error option \<Rightarrow> identity_error + unit" where
  "identity_lock create_dir open_lock lock_exclusive =
     (case create_dir of Some e \<Rightarrow> Inl (IE_Io e) | None \<Rightarrow>
     (case open_lock of Some e \<Rightarrow> Inl (IE_Io e) | None \<Rightarrow>
     (case lock_exclusive of Some e \<Rightarrow> Inl (IE_Io e) | None \<Rightarrow> Inr ())))"

(* @src crates/sensor-identity/src/lib.rs:239-242 IdentityFileStore::save *)
definition identity_save ::
  "identity_env \<Rightarrow> (identity_error + unit) \<times> save_faults \<Rightarrow> device_identity \<Rightarrow> bytes option \<Rightarrow>
   (identity_error + unit) \<times> bytes option" where
  "identity_save E f i file =
     (case fst f of Inl e \<Rightarrow> (Inl e, file) | Inr _ \<Rightarrow> identity_save_locked E (snd f) i file)"

(* @src crates/sensor-identity/src/lib.rs:163-174 IdentityFileStore::load_or_create *)
definition identity_load_or_create ::
  "identity_env \<Rightarrow> identity_error + unit \<Rightarrow> read_faults \<Rightarrow> save_faults \<Rightarrow> device_identity \<Rightarrow> bytes option \<Rightarrow>
   (identity_error + device_identity) \<times> bytes option" where
  "identity_load_or_create E lock rf sf generated file =
     (case lock of
        Inl e \<Rightarrow> (Inl e, file)
      | Inr _ \<Rightarrow>
          (case identity_load E rf file of
             Inr identity \<Rightarrow> (Inr identity, file)
           | Inl e \<Rightarrow>
               if e = IE_Io IO_NotFound
               then (case identity_save_locked E sf generated file of
                   (Inl e', file') \<Rightarrow> (Inl e', file')
                 | (Inr _, file') \<Rightarrow> (Inr generated, file'))
               else (Inl e, file)))"

subsection \<open>What is saved is loaded\<close>

definition identity_env_ok :: "identity_env \<Rightarrow> bool" where
  "identity_env_ok E \<longleftrightarrow> identity_codecs_ok (ie_codecs E) \<and> protector_ok (ie_protector E)"

text \<open>The seed is an array of 32 bytes.\<close>

definition identity_wf :: "device_identity \<Rightarrow> bool" where
  "identity_wf i \<longleftrightarrow> length (kp_seed (di_keypair i)) = 32"

lemma identity_save_locked_Inr:
  "identity_save_locked E f i file = (Inr u, file') \<Longrightarrow>
     (\<exists>context protected bytes.
        protection_context (ie_codecs E) IDENTITY_FILE_VERSION (di_device_id i) (di_alias i)
          (di_namespace i) (kp_public (ie_crypto E) (di_keypair i)) = Inr context \<and>
        pt_protect (ie_protector E) (kp_seed (di_keypair i)) context = Inr protected \<and>
        cd_ser (ic_persisted (ie_codecs E))
          \<lparr>pi_version = IDENTITY_FILE_VERSION, pi_device_id = di_device_id i, pi_alias = di_alias i,
           pi_namespace = di_namespace i, pi_public_key = kp_public (ie_crypto E) (di_keypair i),
           pi_protected_seed = protected\<rparr> = Some bytes \<and>
        length bytes \<le> MAX_IDENTITY_BYTES \<and> file' = Some bytes)"
  by (auto simp: identity_save_locked_def Let_def res_simps dest: replace_file_Inr
      split: sum.splits option.splits if_splits prod.splits)

lemma identity_save_locked_Inl: "identity_save_locked E f i file = (Inl e, file') \<Longrightarrow> file' = file"
  by (auto simp: identity_save_locked_def Let_def res_simps dest: replace_file_Inl
      split: sum.splits option.splits if_splits prod.splits)

lemma identity_save_load:
  assumes "identity_env_ok E" and "identity_wf i" and "identity_save_locked E f i file = (Inr u, file')"
  shows "identity_load E no_read_faults file' = Inr i"
proof -
  obtain ctx protected bytes where
    c: "protection_context (ie_codecs E) IDENTITY_FILE_VERSION (di_device_id i) (di_alias i)
          (di_namespace i) (kp_public (ie_crypto E) (di_keypair i)) = Inr ctx"
    and p: "pt_protect (ie_protector E) (kp_seed (di_keypair i)) ctx = Inr protected"
    and b: "cd_ser (ic_persisted (ie_codecs E))
          \<lparr>pi_version = IDENTITY_FILE_VERSION, pi_device_id = di_device_id i, pi_alias = di_alias i,
           pi_namespace = di_namespace i, pi_public_key = kp_public (ie_crypto E) (di_keypair i),
           pi_protected_seed = protected\<rparr> = Some bytes"
    and l: "length bytes \<le> MAX_IDENTITY_BYTES" and f: "file' = Some bytes"
    using identity_save_locked_Inr [OF assms(3)] by auto
  have "pt_unprotect (ie_protector E) protected ctx = Inr (kp_seed (di_keypair i))" "protected \<noteq> []"
    using assms(1) protector_okD(1,2) [OF _ p] by (auto simp: identity_env_ok_def)
  moreover have "codec_ok (ic_persisted (ie_codecs E))"
    using assms(1) by (simp add: identity_env_ok_def identity_codecs_ok_def)
  ultimately show ?thesis
    using codec_okD0 [OF _ b] c l f assms(2)
    by (simp add: identity_load_def identity_wf_def identity_from_parts_def)
qed

lemma identity_durable:
  "durable_store (identity_save E) (identity_load E no_read_faults) (\<lambda>i. identity_env_ok E \<and> identity_wf i)"
proof
  show "identity_load E no_read_faults s' = Inr v"
    if "identity_env_ok E \<and> identity_wf v" "identity_save E f v s = (Inr u, s')" for v f s u s'
    using that identity_save_load by (auto simp: identity_save_def split: sum.splits)
  show "s' = s" if "identity_save E f v s = (Inl e, s')" for f v s e s'
    using that identity_save_locked_Inl by (auto simp: identity_save_def split: sum.splits)
qed

interpretation identity_store: durable_store "identity_save E" "identity_load E no_read_faults"
  "\<lambda>i. identity_env_ok E \<and> identity_wf i"
  by (rule identity_durable)

text \<open>A device keeps its identity. After any sequence of saves, each of which may fail at taking the
  lock, at the temporary file, at writing, syncing or renaming, loading the identity file gives exactly
  the identity of the last save that reported success, and what the file held before if none did.\<close>

theorem identity_durable_saves:
  assumes "identity_env_ok E" and "list_all (\<lambda>op. identity_wf (snd op)) ops"
  shows "identity_load E no_read_faults (store_run (identity_save E) file ops) =
    (case last_saved (identity_save E) file ops of
       None \<Rightarrow> identity_load E no_read_faults file | Some i \<Rightarrow> Inr i)"
  using identity_store.load_last_saved [where E = E and ops = ops] assms by simp

lemma identity_load_Inr:
  "identity_load E rf (Some bs) = Inr j \<Longrightarrow>
     (\<exists>p context seed. length bs \<le> MAX_IDENTITY_BYTES \<and>
        cd_take (ic_persisted (ie_codecs E)) bs = Some (p, []) \<and>
        pi_version p = IDENTITY_FILE_VERSION \<and> pi_protected_seed p \<noteq> [] \<and>
        protection_context (ie_codecs E) (pi_version p) (pi_device_id p) (pi_alias p)
          (pi_namespace p) (pi_public_key p) = Inr context \<and>
        pt_unprotect (ie_protector E) (pi_protected_seed p) context = Inr seed \<and> length seed = 32 \<and>
        kp_public (ie_crypto E) (IdentityKeypair seed) = pi_public_key p \<and>
        j = identity_from_parts (pi_device_id p) (IdentityKeypair seed) (pi_alias p) (pi_namespace p))"
proof -
  assume load: "identity_load E rf (Some bs) = Inr j"
  have "read_limited rf MAX_IDENTITY_BYTES (Some bs) = Inr c \<Longrightarrow> length c \<le> MAX_IDENTITY_BYTES \<Longrightarrow> bs = c" for c
    by (auto simp: read_limited_def split: option.splits)
  with load show ?thesis
    by (fastforce simp: identity_load_def Let_def res_simps split: if_splits)
qed

lemma protection_context_inj:
  assumes "codec_ok (ic_context C)" and "protection_context C v d a n k = Inr x"
    and "protection_context C v' d' a' n' k' = Inr x"
  shows "d = d' \<and> a = a' \<and> n = n' \<and> k = k'"
  using codec_okD0 [OF assms(1)] assms(2,3) unfolding protection_context_def ok_or_Inr_iff
  by (metis option.inject prod.inject protection_ctx.ext_inject)

text \<open>An identity that is there is never replaced, and what is created is what loads afterwards.\<close>

lemma identity_load_or_create_result:
  assumes "identity_env_ok E" and "identity_wf generated"
    and "identity_load_or_create E l no_read_faults sf generated file = (Inr i, file')"
  shows "identity_load E no_read_faults file' = Inr i"
  using assms identity_save_load [OF assms(1,2)]
  by (auto simp: identity_load_or_create_def split: sum.splits if_splits prod.splits)

text \<open>C24: The public part of an identity is bound to its private key. If a file carries the protected
  seed of a saved identity, but was edited in its version, device ID, names or public key, it is not
  loaded: whatever loads from it is the identity that was saved.\<close>

theorem identity_metadata_bound:
  assumes "identity_env_ok E" and "identity_save_locked E f i file = (Inr (), Some bs)"
    and "cd_take (ic_persisted (ie_codecs E)) bs = Some (p, [])"
    and "cd_take (ic_persisted (ie_codecs E)) bs' = Some (p', [])"
    and "pi_protected_seed p' = pi_protected_seed p"
    and "identity_load E rf (Some bs') = Inr j"
  shows "j = i"
proof -
  obtain ctx protected where
    c: "protection_context (ie_codecs E) IDENTITY_FILE_VERSION (di_device_id i) (di_alias i)
          (di_namespace i) (kp_public (ie_crypto E) (di_keypair i)) = Inr ctx"
    and pr: "pt_protect (ie_protector E) (kp_seed (di_keypair i)) ctx = Inr protected"
    and b: "cd_ser (ic_persisted (ie_codecs E))
          \<lparr>pi_version = IDENTITY_FILE_VERSION, pi_device_id = di_device_id i, pi_alias = di_alias i,
           pi_namespace = di_namespace i, pi_public_key = kp_public (ie_crypto E) (di_keypair i),
           pi_protected_seed = protected\<rparr> = Some bs" and len: "length bs \<le> MAX_IDENTITY_BYTES"
    using identity_save_locked_Inr [OF assms(2)] by auto
  have ok: "codec_ok (ic_persisted (ie_codecs E))" "codec_ok (ic_context (ie_codecs E))" "protector_ok (ie_protector E)"
    using assms(1) by (simp_all add: identity_env_ok_def identity_codecs_ok_def)
  have seed: "pi_protected_seed p' = protected"
    using codec_okD0 [OF ok(1) b] assms(3,5) by auto
  obtain ctx' sd where
    c': "protection_context (ie_codecs E) (pi_version p') (pi_device_id p') (pi_alias p')
          (pi_namespace p') (pi_public_key p') = Inr ctx'"
    and u: "pt_unprotect (ie_protector E) protected ctx' = Inr sd"
    and j: "j = identity_from_parts (pi_device_id p') (IdentityKeypair sd) (pi_alias p') (pi_namespace p')"
    using identity_load_Inr [OF assms(6)] assms(4) seed by auto
  have "ctx' = ctx" "sd = kp_seed (di_keypair i)"
    using protector_okD [OF ok(3) pr] u by auto
  moreover from this have "di_device_id i = pi_device_id p' \<and> di_alias i = pi_alias p' \<and>
      di_namespace i = pi_namespace p'"
    using protection_context_inj [OF ok(2) c] c' by blast
  ultimately show ?thesis
    by (cases i; cases "di_keypair i") (auto simp: j identity_from_parts_def)
qed

subsection \<open>A concrete store\<close>

text \<open>Instances of the parameters that satisfy their laws; they model no code of the program.\<close>

definition codec_device_id :: "device_id codec" where
  "codec_device_id = codec_conv (\<lambda>d. unat (did_value d)) (\<lambda>n. DeviceId (word_of_nat n)) (codec_be 4)"

lemma codec_device_id_ok [intro, simp]: "codec_ok codec_device_id"
proof -
  have "DeviceId (word_of_nat (unat (did_value d))) = d" for d
    by (cases d) simp
  then show ?thesis
    unfolding codec_device_id_def by (intro codec_conv_ok codec_be_ok)
qed

definition demo_identity_codecs :: identity_codecs where
  "demo_identity_codecs =
     \<lparr>ic_persisted = codec_conv
        (\<lambda>p. (unat (pi_version p), pi_device_id p, pi_alias p, pi_namespace p, pi_public_key p, pi_protected_seed p))
        (\<lambda>(v, d, a, n, k, s). \<lparr>pi_version = word_of_nat v, pi_device_id = d, pi_alias = a, pi_namespace = n,
           pi_public_key = k, pi_protected_seed = s\<rparr>)
        (codec_pair (codec_be 2) (codec_pair codec_device_id (codec_pair (codec_only None [])
          (codec_pair (codec_only None []) (codec_pair codec_blob codec_blob))))),
      ic_context = codec_conv
        (\<lambda>p. (unat (px_version p), px_device_id p, px_alias p, px_namespace p, px_public_key p))
        (\<lambda>(v, d, a, n, k). \<lparr>px_version = word_of_nat v, px_device_id = d, px_alias = a, px_namespace = n,
           px_public_key = k\<rparr>)
        (codec_pair (codec_be 2) (codec_pair codec_device_id (codec_pair (codec_only None [])
          (codec_pair (codec_only None []) codec_blob))))\<rparr>"

definition demo_protector :: key_protector where
  "demo_protector =
     \<lparr>pt_protect = (\<lambda>d x. if length x < 256 ^ 4 then Inr (be_bytes 4 (length x) @ x @ d)
        else Inl (IE_Protection [])),
      pt_unprotect = (\<lambda>c x. if length x < 256 ^ 4 \<and> take (4 + length x) c = be_bytes 4 (length x) @ x
        then Inr (drop (4 + length x) c) else Inl (IE_Protection []))\<rparr>"

lemma demo_protector_ok: "protector_ok demo_protector"
proof -
  have *: "y = x" if "length x < 256 ^ 4" "length y < 256 ^ 4"
    "take (4 + length y) (be_bytes 4 (length x) @ x @ d) = be_bytes 4 (length y) @ y" for x y d :: bytes
  proof -
    have "be_bytes 4 (length x) = be_bytes 4 (length y)"
      using arg_cong [OF that(3), of "take 4"] by (simp add: min_def)
    then have "length x = length y"
      using from_be_be_bytes that(1,2) by metis
    then show ?thesis
      using that(3) by simp
  qed
  show ?thesis
    unfolding protector_ok_def
  proof (intro allI impI conjI)
    fix d x c
    assume "pt_protect demo_protector d x = Inr c"
    then have c: "length x < 256 ^ 4" "c = be_bytes 4 (length x) @ x @ d"
      by (auto simp: demo_protector_def split: if_splits)
    show "pt_unprotect demo_protector c x = Inr d" "c \<noteq> []"
      using c by (simp_all add: demo_protector_def)
    fix y p
    assume "pt_unprotect demo_protector c y = Inr p"
    then have "length y < 256 ^ 4" "take (4 + length y) c = be_bytes 4 (length y) @ y"
      by (auto simp: demo_protector_def split: if_splits)
    then show "y = x"
      using * [OF c(1)] c(2) by blast
  qed
qed

lemma demo_identity_codecs_ok: "identity_codecs_ok demo_identity_codecs"
  unfolding identity_codecs_ok_def demo_identity_codecs_def
  by simp (intro conjI codec_conv_ok codec_pair_ok codec_be_ok codec_blob_ok codec_only_ok codec_device_id_ok; simp)

definition demo_env :: identity_env where
  "demo_env = \<lparr>ie_crypto = demo_lib, ie_codecs = demo_identity_codecs, ie_protector = demo_protector\<rparr>"

lemma demo_env_ok: "identity_env_ok demo_env"
  by (simp add: identity_env_ok_def demo_env_def demo_identity_codecs_ok demo_protector_ok)

definition demo_device :: "nat \<Rightarrow> device_identity" where
  "demo_device n = \<lparr>di_device_id = DeviceId 123456789, di_alias = None, di_namespace = None,
     di_keypair = IdentityKeypair (replicate 32 (word_of_nat n))\<rparr>"

lemma demo_saves: "\<exists>bs. identity_save_locked demo_env no_save_faults (demo_device n) file = (Inr (), Some bs)"
  by (simp add: Let_def identity_save_locked_def protection_context_def demo_env_def demo_device_def demo_lib_def
      demo_identity_codecs_def demo_protector_def codec_conv_def codec_pair_def codec_be_def codec_only_def
      codec_blob_def codec_device_id_def kp_public_def IDENTITY_FILE_VERSION_def MAX_IDENTITY_BYTES_def)

text \<open>Three saves, the second of which fails when its file is synced.\<close>

lemma identity_durable_saves_witness:
  "identity_load demo_env no_read_faults (store_run (identity_save demo_env) None
      [((Inr (), no_save_faults), demo_device 1),
       ((Inr (), no_save_faults\<lparr>sv_sync := Some IO_TimedOut\<rparr>), demo_device 2)]) = Inr (demo_device 1)"
proof -
  obtain bs where s1: "identity_save_locked demo_env no_save_faults (demo_device 1) None = (Inr (), Some bs)"
    using demo_saves [of 1] by metis
  obtain e where s2: "identity_save_locked demo_env (no_save_faults\<lparr>sv_sync := Some IO_TimedOut\<rparr>) (demo_device 2)
      (Some bs) = (Inl e, Some bs)"
    using demo_saves [of 2 "Some bs"]
    by (auto simp: identity_save_locked_def Let_def replace_file_def no_save_faults_def
        split: sum.splits option.splits if_splits)
  have w: "identity_wf (demo_device n)" for n
    by (simp add: identity_wf_def demo_device_def)
  show ?thesis
    using identity_durable_saves [OF demo_env_ok, of "[((Inr (), no_save_faults), demo_device 1),
       ((Inr (), no_save_faults\<lparr>sv_sync := Some IO_TimedOut\<rparr>), demo_device 2)]" None] s1 s2 w
    by (simp add: identity_save_def)
qed

lemma identity_metadata_bound_witness:
  "\<exists>bs p. identity_save_locked demo_env no_save_faults (demo_device 1) None = (Inr (), Some bs) \<and>
     cd_take (ic_persisted (ie_codecs demo_env)) bs = Some (p, []) \<and>
     (\<forall>j. identity_load demo_env no_read_faults (Some bs) \<noteq> Inr j \<or> j = demo_device 1)"
proof -
  obtain bs where s: "identity_save_locked demo_env no_save_faults (demo_device 1) None = (Inr (), Some bs)"
    using demo_saves [of 1] by metis
  have "identity_load demo_env no_read_faults (Some bs) = Inr (demo_device 1)"
    using identity_save_load [OF demo_env_ok _ s] by (simp add: identity_wf_def demo_device_def)
  then obtain p where p: "cd_take (ic_persisted (ie_codecs demo_env)) bs = Some (p, [])"
    using identity_load_Inr by metis
  show ?thesis
    using identity_metadata_bound [OF demo_env_ok s p p refl] s p by blast
qed

end
