(* ===== verification/Sensor_Client.thy ===== *)
theory Sensor_Client
  imports Sensor_Connection Sensor_Files Sensor_Media Sensor_Audit
begin

section \<open>sensor-client: the endpoint protocol\<close>

text \<open>
  One session of an endpoint: the request and the local decision, the loop that answers chat and file
  messages under the granted permissions, the audit entries around them, and the sending side of a
  file. The code calls a \<open>SecureConnection\<close>; the definitions take its operations as a \<open>link\<close>, of which
  \<open>secure_link\<close> is the one of the program. Clock readings, the user's answers, random transfer IDs and
  the results of writing the audit file are inputs. The lemmas show that nothing touches the file
  system or the peer without consent and an audit entry, that a session never harms existing files,
  and that the two sides of an upload work together.
\<close>

subsection \<open>Data\<close>

(* @src crates/sensor-client/src/lib.rs:22-22 MAX_CHAT_BYTES *)
definition MAX_CHAT_BYTES :: nat where
  "MAX_CHAT_BYTES = 8192"

(* @src crates/sensor-client/src/lib.rs:23-23 DEFAULT_RECEIVE_LIMIT *)
definition DEFAULT_RECEIVE_LIMIT :: nat where
  "DEFAULT_RECEIVE_LIMIT = 1024 * 1024 * 1024"

(* @src crates/sensor-client/src/lib.rs:26-33 Mode *)
datatype mode =
  M_Chat | M_FileTransfer | M_ScreenView | M_RemoteControl | M_ScreenViewClipboard | M_RemoteControlClipboard

(* @src crates/sensor-client/src/lib.rs:35-59 Mode::permissions *)
fun mode_permissions :: "mode \<Rightarrow> permissions" where
  "mode_permissions M_Chat = perms_of [P_Chat]"
| "mode_permissions M_FileTransfer = perms_file_transfer"
| "mode_permissions M_ScreenView = perms_of [P_ViewDesktop, P_RemotePointer]"
| "mode_permissions M_RemoteControl = perms_of [P_ViewDesktop, P_RemotePointer, P_Input]"
| "mode_permissions M_ScreenViewClipboard = perms_of [P_ViewDesktop, P_RemotePointer, P_ClipboardText]"
| "mode_permissions M_RemoteControlClipboard =
     perms_of [P_ViewDesktop, P_RemotePointer, P_Input, P_ClipboardText]"

(* @src crates/sensor-client/src/lib.rs:60-68 Mode::is_desktop *)
definition is_desktop :: "mode \<Rightarrow> bool" where
  "is_desktop m \<longleftrightarrow> m \<in> {M_ScreenView, M_RemoteControl, M_ScreenViewClipboard, M_RemoteControlClipboard}"

(* @src crates/sensor-client/src/lib.rs:69-71 Mode::controls_input *)
definition controls_input :: "mode \<Rightarrow> bool" where
  "controls_input m \<longleftrightarrow> m \<in> {M_RemoteControl, M_RemoteControlClipboard}"

(* @src crates/sensor-client/src/lib.rs:75-102 Message *)
datatype client_message =
    CM_Request mode
  | CM_Accepted permissions
  | CM_Rejected
  | CM_Chat rstr
  | CM_FileOffer manifest
  | CM_Resume bytes
  | CM_Ready bytes nat bytes manifest
  | CM_Chunk nat bytes bytes
  | CM_Progress nat
  | CM_Commit
  | CM_Complete manifest
  | CM_Pause
  | CM_Paused bytes
  | CM_Cancel
  | CM_Cancelled
  | CM_Close
  | CM_Desktop desktop_message

(* @src crates/sensor-client/src/lib.rs:105-122 EndpointError *)
datatype endpoint_error =
    EE_Connection connection_error
  | EE_Permission permission_error
  | EE_File file_error
  | EE_Audit audit_error
  | EE_Io io_error
  | EE_Rejected
  | EE_Invalid
  | EE_Desktop rstr

text \<open>The operations of a connection that a session uses.\<close>

record 'c link =
  lk_send :: "'c \<Rightarrow> client_message \<Rightarrow> (connection_error + unit) \<times> 'c"
  lk_receive :: "'c \<Rightarrow> (connection_error + client_message) \<times> 'c"
  lk_close :: "'c \<Rightarrow> 'c"
  lk_peer :: "'c \<Rightarrow> expected_peer"

text \<open>The program's: a secure connection, and the clock readings its calls will see.\<close>

record timed_connection =
  tc_conn :: secure_connection
  tc_clock :: "nat \<Rightarrow> nat"

definition timed :: "(nat \<Rightarrow> secure_connection \<Rightarrow> 'r \<times> secure_connection) \<Rightarrow> timed_connection \<Rightarrow> 'r \<times> timed_connection" where
  "timed f c = (case f (tc_clock c 0) (tc_conn c) of
     (r, c') \<Rightarrow> (r, \<lparr>tc_conn = c', tc_clock = (\<lambda>n. tc_clock c (Suc n))\<rparr>))"

definition secure_link :: "crypto_lib \<Rightarrow> client_message codec \<Rightarrow> timed_connection link" where
  "secure_link L cd =
     \<lparr>lk_send = (\<lambda>c m. timed (\<lambda>now c. conn_send L cd now c m) c),
      lk_receive = timed (conn_receive L cd),
      lk_close = (\<lambda>c. c\<lparr>tc_conn := conn_close (tc_conn c)\<rparr>),
      lk_peer = (\<lambda>c. cn_peer (tc_conn c))\<rparr>"

subsection \<open>The state of a session\<close>

record 'c client_env =
  cl_crypto :: crypto_lib
  cl_json :: audit_json
  cl_metadata :: "metadata codec"
  cl_link :: "'c link"

record 'c endpoint =
  en_conn :: 'c
  en_fs :: fsys
  en_log :: audit_log
  en_incoming :: "incoming_transfer option"
  en_window :: nat
  en_operations :: nat

text \<open>
  A step ends with the session's result, or with \<open>None\<close> when the session goes on. The \<open>?\<close> operator
  on the calls of a session, in continuation form.
\<close>

type_synonym 'c step_result = "(endpoint_error + unit) option \<times> 'c endpoint"

definition en_send ::
  "'c client_env \<Rightarrow> client_message \<Rightarrow> 'c endpoint \<Rightarrow> ('c endpoint \<Rightarrow> 'c step_result) \<Rightarrow> 'c step_result" where
  "en_send E m st k =
     (case lk_send (cl_link E) (en_conn st) m of
        (Inl e, c) \<Rightarrow> (Some (Inl (EE_Connection e)), st\<lparr>en_conn := c\<rparr>)
      | (Inr _, c) \<Rightarrow> k (st\<lparr>en_conn := c\<rparr>))"

definition en_require ::
  "consent \<Rightarrow> permission \<Rightarrow> 'c endpoint \<Rightarrow> 'c step_result \<Rightarrow> 'c step_result" where
  "en_require consent p st k =
     (case consent_require consent p of
        Inl e \<Rightarrow> (Some (Inl (EE_Permission e)), st) | Inr _ \<Rightarrow> k)"

text \<open>An audit entry: the clock and the result of the write are inputs.\<close>

type_synonym audit_input = "nat option \<times> write_result"

(* @src crates/sensor-client/src/lib.rs:140-156 audit *)
definition en_audit ::
  "'c client_env \<Rightarrow> audit_input \<Rightarrow> device_id \<Rightarrow> device_id \<Rightarrow> audit_action \<Rightarrow> audit_outcome \<Rightarrow> nat \<Rightarrow>
   'c endpoint \<Rightarrow> ('c endpoint \<Rightarrow> 'c step_result) \<Rightarrow> 'c step_result" where
  "en_audit E inp peer local action outcome n st k =
     (case audit_append (cl_crypto E) (cl_json E) (en_log st)
         \<lparr>ev_actor = peer, ev_target = local, ev_action = action, ev_outcome = outcome,
          ev_bytes = word_of_nat n\<rparr> (fst inp) (snd inp) of
        (Inl e, lg) \<Rightarrow> (Some (Inl (EE_Audit e)), st\<lparr>en_log := lg\<rparr>)
      | (Inr _, lg) \<Rightarrow> k (st\<lparr>en_log := lg\<rparr>))"

text \<open>
  What one turn of the loop takes from outside: two readings of the monotonic clock, the user's chat
  reply, the inputs of an audit entry, and the random ID of a transfer.
\<close>

record turn =
  tu_now :: nat
  tu_restart :: nat
  tu_reply :: "rstr option"
  tu_audit :: audit_input
  tu_tid :: bytes

subsection \<open>One message\<close>

(* @src crates/sensor-client/src/lib.rs:249-262 operate, Chat *)
definition operate_chat ::
  "'c client_env \<Rightarrow> consent \<Rightarrow> turn \<Rightarrow> rstr \<Rightarrow> 'c endpoint \<Rightarrow> 'c step_result" where
  "operate_chat E consent t txt st =
     en_require consent P_Chat st
       (if str_len txt > MAX_CHAT_BYTES then (Some (Inl EE_Invalid), st)
        else case tu_reply t of
            None \<Rightarrow> en_send E CM_Close st (\<lambda>st. (Some (Inr ()), st))
          | Some reply \<Rightarrow>
              if str_len reply > MAX_CHAT_BYTES then (Some (Inl EE_Invalid), st)
              else en_send E (CM_Chat reply) st (\<lambda>st. (None, st)))"

text \<open>Announcing an open transfer; on an error it is dropped, which releases its file.\<close>

(* @src crates/sensor-client/src/lib.rs:277-283 operate, announcing a transfer *)
definition operate_ready :: "'c client_env \<Rightarrow> incoming_transfer \<Rightarrow> 'c endpoint \<Rightarrow> 'c step_result" where
  "operate_ready E tr st =
     (case prefix_hash (cl_crypto E) tr (en_fs st) of
        (Inl e, fs) \<Rightarrow> (Some (Inl (EE_File e)), st\<lparr>en_fs := drop_file (it_file tr) fs\<rparr>)
      | (Inr h, fs) \<Rightarrow>
          (case lk_send (cl_link E) (en_conn st)
              (CM_Ready (it_id tr) (it_offset tr) h (md_manifest (it_metadata tr))) of
             (Inl e, c) \<Rightarrow> (Some (Inl (EE_Connection e)),
               st\<lparr>en_conn := c, en_fs := drop_file (it_file tr) fs\<rparr>)
           | (Inr _, c) \<Rightarrow> (None, st\<lparr>en_conn := c, en_fs := fs, en_incoming := Some tr\<rparr>)))"

(* @src crates/sensor-client/src/lib.rs:263-284 operate, FileOffer *)
definition operate_offer ::
  "'c client_env \<Rightarrow> consent \<Rightarrow> expected_peer \<Rightarrow> device_id \<Rightarrow> turn \<Rightarrow> manifest \<Rightarrow> 'c endpoint \<Rightarrow> 'c step_result" where
  "operate_offer E consent peer local t m st =
     en_require consent P_FileManager st
       (if en_incoming st \<noteq> None \<or> mf_size m > DEFAULT_RECEIVE_LIMIT then (Some (Inl EE_Invalid), st)
        else en_audit E (tu_audit t) (ep_device_id peer) local FileOffered Outcome_Success (mf_size m) st (\<lambda>st.
          case receiver_begin (cl_metadata E) consent (ep_public_key peer) m (tu_tid t) (en_fs st) of
            (Inl e, fs) \<Rightarrow> (Some (Inl (EE_File e)), st\<lparr>en_fs := fs\<rparr>)
          | (Inr tr, fs) \<Rightarrow> operate_ready E tr (st\<lparr>en_fs := fs\<rparr>)))"

(* @src crates/sensor-client/src/lib.rs:285-301 operate, Resume *)
definition operate_resume ::
  "'c client_env \<Rightarrow> consent \<Rightarrow> expected_peer \<Rightarrow> bytes \<Rightarrow> 'c endpoint \<Rightarrow> 'c step_result" where
  "operate_resume E consent peer tid st =
     en_require consent P_FileManager st
       (if en_incoming st \<noteq> None then (Some (Inl EE_Invalid), st)
        else case receiver_resume (cl_metadata E) consent (ep_public_key peer) tid (en_fs st) of
            (Inl e, fs) \<Rightarrow> (Some (Inl (EE_File e)), st\<lparr>en_fs := fs\<rparr>)
          | (Inr tr, fs) \<Rightarrow>
              if mf_size (md_manifest (it_metadata tr)) > DEFAULT_RECEIVE_LIMIT
              then (Some (Inl EE_Invalid), st\<lparr>en_fs := drop_file (it_file tr) fs\<rparr>)
              else operate_ready E tr (st\<lparr>en_fs := fs\<rparr>))"

(* @src crates/sensor-client/src/lib.rs:302-312 operate, Chunk *)
definition operate_chunk ::
  "'c client_env \<Rightarrow> consent \<Rightarrow> nat \<Rightarrow> bytes \<Rightarrow> bytes \<Rightarrow> 'c endpoint \<Rightarrow> 'c step_result" where
  "operate_chunk E consent offset bs checksum st =
     en_require consent P_FileManager st
       (case en_incoming st of
          None \<Rightarrow> (Some (Inl EE_Invalid), st)
        | Some tr \<Rightarrow>
            (case write_chunk (cl_crypto E) consent offset bs checksum tr (en_fs st) of
               (Inl e, tr, fs) \<Rightarrow> (Some (Inl (EE_File e)), st\<lparr>en_incoming := Some tr, en_fs := fs\<rparr>)
             | (Inr _, tr, fs) \<Rightarrow>
                 en_send E (CM_Progress (it_offset tr)) (st\<lparr>en_incoming := Some tr, en_fs := fs\<rparr>)
                   (\<lambda>st. (None, st))))"

(* @src crates/sensor-client/src/lib.rs:313-327 operate, Commit *)
definition operate_commit ::
  "'c client_env \<Rightarrow> consent \<Rightarrow> expected_peer \<Rightarrow> device_id \<Rightarrow> turn \<Rightarrow> 'c endpoint \<Rightarrow> 'c step_result" where
  "operate_commit E consent peer local t st =
     en_require consent P_FileManager st
       (case en_incoming st of
          None \<Rightarrow> (Some (Inl EE_Invalid), st)
        | Some tr \<Rightarrow>
            (case transfer_finish (cl_crypto E) consent tr (en_fs st) of
               (Inl e, fs) \<Rightarrow> (Some (Inl (EE_File e)), st\<lparr>en_incoming := None, en_fs := fs\<rparr>)
             | (Inr m, fs) \<Rightarrow>
                 en_audit E (tu_audit t) (ep_device_id peer) local FileCompleted Outcome_Success (mf_size m)
                   (st\<lparr>en_incoming := None, en_fs := fs\<rparr>) (\<lambda>st.
                 en_send E (CM_Complete m) st (\<lambda>st. (Some (Inr ()), st)))))"

(* @src crates/sensor-client/src/lib.rs:328-333 operate, Pause *)
definition operate_pause :: "'c client_env \<Rightarrow> consent \<Rightarrow> 'c endpoint \<Rightarrow> 'c step_result" where
  "operate_pause E consent st =
     en_require consent P_FileManager st
       (case en_incoming st of
          None \<Rightarrow> (Some (Inl EE_Invalid), st)
        | Some tr \<Rightarrow>
            (case transfer_pause tr (en_fs st) of
               (Inl e, fs) \<Rightarrow> (Some (Inl (EE_File e)), st\<lparr>en_incoming := None, en_fs := fs\<rparr>)
             | (Inr tid, fs) \<Rightarrow>
                 en_send E (CM_Paused tid) (st\<lparr>en_incoming := None, en_fs := fs\<rparr>) (\<lambda>st. (Some (Inr ()), st))))"

(* @src crates/sensor-client/src/lib.rs:334-350 operate, Cancel *)
definition operate_cancel ::
  "'c client_env \<Rightarrow> consent \<Rightarrow> expected_peer \<Rightarrow> device_id \<Rightarrow> turn \<Rightarrow> 'c endpoint \<Rightarrow> 'c step_result" where
  "operate_cancel E consent peer local t st =
     en_require consent P_FileManager st
       (case en_incoming st of
          None \<Rightarrow> (Some (Inl EE_Invalid), st)
        | Some tr \<Rightarrow>
            (case transfer_cancel consent tr (en_fs st) of
               (Inl e, fs) \<Rightarrow> (Some (Inl (EE_File e)), st\<lparr>en_incoming := None, en_fs := fs\<rparr>)
             | (Inr _, fs) \<Rightarrow>
                 en_audit E (tu_audit t) (ep_device_id peer) local FileCancelled Outcome_Success 0
                   (st\<lparr>en_incoming := None, en_fs := fs\<rparr>) (\<lambda>st.
                 en_send E CM_Cancelled st (\<lambda>st. (Some (Inr ()), st)))))"

(* @src crates/sensor-client/src/lib.rs:247-352 operate, dispatching *)
definition operate_message ::
  "'c client_env \<Rightarrow> consent \<Rightarrow> expected_peer \<Rightarrow> device_id \<Rightarrow> turn \<Rightarrow> client_message \<Rightarrow> 'c endpoint \<Rightarrow> 'c step_result" where
  "operate_message E consent peer local t m st =
     (case m of
        CM_Close \<Rightarrow> (Some (Inr ()), st)
      | CM_Chat txt \<Rightarrow> operate_chat E consent t txt st
      | CM_FileOffer mf \<Rightarrow> operate_offer E consent peer local t mf st
      | CM_Resume tid \<Rightarrow> operate_resume E consent peer tid st
      | CM_Chunk offset bs checksum \<Rightarrow> operate_chunk E consent offset bs checksum st
      | CM_Commit \<Rightarrow> operate_commit E consent peer local t st
      | CM_Pause \<Rightarrow> operate_pause E consent st
      | CM_Cancel \<Rightarrow> operate_cancel E consent peer local t st
      | _ \<Rightarrow> (Some (Inl EE_Invalid), st))"

subsection \<open>The loop\<close>

text \<open>Receiving a message and counting it: at most 100000 in a window of 60 seconds (in nanoseconds).\<close>

(* @src crates/sensor-client/src/lib.rs:236-246 operate, one turn *)
definition operate_turn ::
  "'c client_env \<Rightarrow> consent \<Rightarrow> expected_peer \<Rightarrow> device_id \<Rightarrow> turn \<Rightarrow> 'c endpoint \<Rightarrow> 'c step_result" where
  "operate_turn E consent peer local t st =
     (case lk_receive (cl_link E) (en_conn st) of
        (Inl e, c) \<Rightarrow> (Some (Inl (EE_Connection e)), st\<lparr>en_conn := c\<rparr>)
      | (Inr m, c) \<Rightarrow>
          (let st = st\<lparr>en_conn := c\<rparr>;
               st = (if tu_now t - en_window st > 60 * 1000000000
                     then st\<lparr>en_window := tu_restart t, en_operations := 0\<rparr> else st);
               st = st\<lparr>en_operations := en_operations st + 1\<rparr>
           in if en_operations st > 100000 then (Some (Inl EE_Invalid), st)
              else operate_message E consent peer local t m st))"

fun operate_loop ::
  "'c client_env \<Rightarrow> consent \<Rightarrow> expected_peer \<Rightarrow> device_id \<Rightarrow> turn list \<Rightarrow> 'c endpoint \<Rightarrow> 'c step_result" where
  "operate_loop E consent peer local [] st = (None, st)"
| "operate_loop E consent peer local (t # ts) st =
     (case operate_turn E consent peer local t st of
        (Some r, st) \<Rightarrow> (Some r, st)
      | (None, st) \<Rightarrow> operate_loop E consent peer local ts st)"

text \<open>A transfer that is still open when the loop returns is dropped.\<close>

definition en_drop :: "'c endpoint \<Rightarrow> 'c endpoint" where
  "en_drop st =
     (case en_incoming st of None \<Rightarrow> st
      | Some tr \<Rightarrow> st\<lparr>en_incoming := None, en_fs := drop_file (it_file tr) (en_fs st)\<rparr>)"

(* @src crates/sensor-client/src/lib.rs:224-354 operate *)
definition operate ::
  "'c client_env \<Rightarrow> consent \<Rightarrow> device_id \<Rightarrow> nat \<Rightarrow> turn list \<Rightarrow> 'c endpoint \<Rightarrow> 'c step_result" where
  "operate E consent local started ts st =
     (case operate_loop E consent (lk_peer (cl_link E) (en_conn st)) local ts
         (st\<lparr>en_incoming := None, en_window := started, en_operations := 0\<rparr>) of
        (None, st) \<Rightarrow> (None, st)
      | (Some r, st) \<Rightarrow> (Some r, en_drop st))"

text \<open>
  Inputs of a session: the user's decision, the audit writes around it, and the turns of the loop.
  \<open>desk\<close> is the desktop handler of the endpoint's user interface.
\<close>

record serve_input =
  si_accept :: bool
  si_requested :: audit_input
  si_decided :: audit_input
  si_started :: nat
  si_turns :: "turn list"
  si_closed :: audit_input

(* @src crates/sensor-client/src/lib.rs:158-222 serve *)
definition serve ::
  "'c client_env \<Rightarrow> ('c \<Rightarrow> consent \<Rightarrow> (endpoint_error + unit) \<times> 'c) \<Rightarrow> device_id \<Rightarrow> serve_input \<Rightarrow>
   'c endpoint \<Rightarrow> 'c step_result" where
  "serve E desk local inp st0 =
     (let peer = lk_peer (cl_link E) (en_conn st0) in
      case lk_receive (cl_link E) (en_conn st0) of
        (Inl e, c) \<Rightarrow> (Some (Inl (EE_Connection e)), st0\<lparr>en_conn := c\<rparr>)
      | (Inr (CM_Request mode), c) \<Rightarrow>
          en_audit E (si_requested inp) (ep_device_id peer) local ConnectionRequested Outcome_Success 0
            (st0\<lparr>en_conn := c\<rparr>) (\<lambda>st.
          let consent = consent_pending (mode_permissions mode) in
          if \<not> si_accept inp
          then (case consent_reject consent of
              (Inl e, _) \<Rightarrow> (Some (Inl (EE_Permission e)), st)
            | (Inr _, _) \<Rightarrow>
                en_audit E (si_decided inp) (ep_device_id peer) local SessionRejected Outcome_Denied 0 st (\<lambda>st.
                en_send E CM_Rejected st (\<lambda>st. (Some (Inr ()), st))))
          else (case consent_accept (mode_permissions mode) consent of
              (Inl e, _) \<Rightarrow> (Some (Inl (EE_Permission e)), st)
            | (Inr _, consent) \<Rightarrow>
                en_audit E (si_decided inp) (ep_device_id peer) local SessionAccepted Outcome_Success 0 st (\<lambda>st.
                en_send E (CM_Accepted (co_granted consent)) st (\<lambda>st.
                case (if is_desktop mode
                      then (case desk (en_conn st) consent of (r, c) \<Rightarrow> (Some r, st\<lparr>en_conn := c\<rparr>))
                      else operate E consent local (si_started inp) (si_turns inp) st) of
                  (None, st) \<Rightarrow> (None, st)
                | (Some r, st) \<Rightarrow>
                    en_audit E (si_closed inp) (ep_device_id peer) local SessionDisconnected
                      (if is_ok r then Outcome_Success else Outcome_Failed) 0
                      (st\<lparr>en_conn := lk_close (cl_link E) (en_conn st)\<rparr>) (\<lambda>st. (Some r, st))))))
      | (Inr _, c) \<Rightarrow> (Some (Inl EE_Invalid), st0\<lparr>en_conn := c\<rparr>))"

subsection \<open>The sending side\<close>

(* @src crates/sensor-client/src/lib.rs:356-363 request *)
definition client_request :: "'c link \<Rightarrow> mode \<Rightarrow> 'c \<Rightarrow> (endpoint_error + unit) \<times> 'c" where
  "client_request lk mode c =
     (case lk_send lk c (CM_Request mode) of
        (Inl e, c) \<Rightarrow> (Inl (EE_Connection e), c)
      | (Inr _, c) \<Rightarrow>
          (case lk_receive lk c of
             (Inl e, c) \<Rightarrow> (Inl (EE_Connection e), c)
           | (Inr (CM_Accepted granted), c) \<Rightarrow>
               if granted = mode_permissions mode then (Inr (), c) else (Inl EE_Invalid, c)
           | (Inr CM_Rejected, c) \<Rightarrow> (Inl EE_Rejected, c)
           | (Inr _, c) \<Rightarrow> (Inl EE_Invalid, c)))"

text \<open>The opened file as it is read: its content, and the position at which reading fails, if any.\<close>

record upload_source =
  us_content :: bytes
  us_fail :: "(nat \<times> io_error) option"

definition source_read_exact :: "upload_source \<Rightarrow> nat \<Rightarrow> nat \<Rightarrow> io_error + bytes" where
  "source_read_exact s pos n =
     (case us_fail s of
        Some (k, e) \<Rightarrow> if pos + n > k then Inl e
          else if pos + n \<le> length (us_content s) then Inr (take n (drop pos (us_content s)))
          else Inl IO_UnexpectedEof
      | None \<Rightarrow> if pos + n \<le> length (us_content s) then Inr (take n (drop pos (us_content s)))
          else Inl IO_UnexpectedEof)"

text \<open>The bytes fed to the hash before the offset.\<close>

(* @src crates/sensor-client/src/lib.rs:389-398 send_file, hashing the prefix *)
function (sequential) hash_prefix :: "upload_source \<Rightarrow> nat \<Rightarrow> nat \<Rightarrow> bytes \<Rightarrow> endpoint_error + bytes" where
  "hash_prefix s pos remaining acc =
     (if remaining = 0 then Inr acc
      else case source_read_exact s pos (min remaining CHUNK_SIZE) of
          Inl e \<Rightarrow> Inl (EE_Io e)
        | Inr bs \<Rightarrow> hash_prefix s (pos + min remaining CHUNK_SIZE) (remaining - min remaining CHUNK_SIZE) (acc @ bs))"
  by pat_completeness auto
termination
  by (relation "measure (\<lambda>(s, pos, remaining, acc). remaining)") (auto simp: CHUNK_SIZE_def)

declare hash_prefix.simps [simp del]

(* @src crates/sensor-client/src/lib.rs:404-418 send_file, the chunks *)
function (sequential) send_chunks ::
  "crypto_lib \<Rightarrow> 'c link \<Rightarrow> upload_source \<Rightarrow> nat \<Rightarrow> nat \<Rightarrow> 'c \<Rightarrow> (endpoint_error + unit) \<times> 'c" where
  "send_chunks L lk s sz offset c =
     (if offset < sz
      then case source_read_exact s offset (min (sz - offset) CHUNK_SIZE) of
          Inl e \<Rightarrow> (Inl (EE_Io e), c)
        | Inr bs \<Rightarrow>
            (case lk_send lk c (CM_Chunk offset bs (sha256 L bs)) of
               (Inl e, c) \<Rightarrow> (Inl (EE_Connection e), c)
             | (Inr _, c) \<Rightarrow>
                 (case lk_receive lk c of
                    (Inl e, c) \<Rightarrow> (Inl (EE_Connection e), c)
                  | (Inr (CM_Progress v), c) \<Rightarrow>
                      if v = offset + min (sz - offset) CHUNK_SIZE
                      then send_chunks L lk s sz (offset + min (sz - offset) CHUNK_SIZE) c
                      else (Inl EE_Invalid, c)
                  | (Inr _, c) \<Rightarrow> (Inl EE_Invalid, c)))
      else (Inr (), c))"
  by pat_completeness auto
termination
  by (relation "measure (\<lambda>(L, lk, s, sz, offset, c). sz - offset)") (auto simp: CHUNK_SIZE_def)

declare send_chunks.simps [simp del]

text \<open>From the peer's announcement on: check it, check the prefix, send the rest, commit.\<close>

(* @src crates/sensor-client/src/lib.rs:384-424 send_file, after Ready *)
definition send_after_ready ::
  "crypto_lib \<Rightarrow> 'c link \<Rightarrow> manifest \<Rightarrow> io_error + upload_source \<Rightarrow> io_error option \<Rightarrow>
   nat \<Rightarrow> bytes \<Rightarrow> manifest \<Rightarrow> 'c \<Rightarrow> (endpoint_error + manifest) \<times> 'c" where
  "send_after_ready L lk m reopened seek offset prefix remote c =
     (if m \<noteq> remote \<or> offset > mf_size m then (Inl EE_Invalid, c)
      else case reopened of
          Inl e \<Rightarrow> (Inl (EE_Io e), c)
        | Inr s \<Rightarrow>
      (case hash_prefix s 0 offset [] of
          Inl e \<Rightarrow> (Inl e, c)
        | Inr pre \<Rightarrow>
            if sha256 L pre \<noteq> prefix then (Inl (EE_File FE_Integrity), c)
            else case seek of Some e \<Rightarrow> (Inl (EE_Io e), c)
            | None \<Rightarrow>
            (case send_chunks L lk s (mf_size m) offset c of
               (Inl e, c) \<Rightarrow> (Inl e, c)
             | (Inr _, c) \<Rightarrow>
                 (case lk_send lk c CM_Commit of
                    (Inl e, c) \<Rightarrow> (Inl (EE_Connection e), c)
                  | (Inr _, c) \<Rightarrow>
                      (case lk_receive lk c of
                         (Inl e, c) \<Rightarrow> (Inl (EE_Connection e), c)
                       | (Inr (CM_Complete completed), c) \<Rightarrow>
                           if completed = m then (Inr completed, c) else (Inl EE_Invalid, c)
                       | (Inr _, c) \<Rightarrow> (Inl EE_Invalid, c))))))"

(* @src crates/sensor-client/src/lib.rs:365-425 send_file *)
definition send_file ::
  "crypto_lib \<Rightarrow> 'c link \<Rightarrow> rstr option \<Rightarrow> io_error + bool \<times> bytes \<Rightarrow> io_error + upload_source \<Rightarrow>
   io_error option \<Rightarrow> bytes option \<Rightarrow> 'c \<Rightarrow> (endpoint_error + manifest) \<times> 'c" where
  "send_file L lk name opened reopened seek resume c =
     (case describe_file L name opened of
        Inl e \<Rightarrow> (Inl (EE_File e), c)
      | Inr m \<Rightarrow>
     (case client_request lk M_FileTransfer c of
        (Inl e, c) \<Rightarrow> (Inl e, c)
      | (Inr _, c) \<Rightarrow>
     (case lk_send lk c (case resume of Some tid \<Rightarrow> CM_Resume tid | None \<Rightarrow> CM_FileOffer m) of
        (Inl e, c) \<Rightarrow> (Inl (EE_Connection e), c)
      | (Inr _, c) \<Rightarrow>
     (case lk_receive lk c of
        (Inl e, c) \<Rightarrow> (Inl (EE_Connection e), c)
      | (Inr (CM_Ready tid offset prefix remote), c) \<Rightarrow>
          send_after_ready L lk m reopened seek offset prefix remote c
      | (Inr _, c) \<Rightarrow> (Inl EE_Invalid, c)))))"

subsection \<open>Without consent nothing happens\<close>

text \<open>The steps that leave the file system alone and open no transfer.\<close>

definition quiet :: "'c endpoint \<Rightarrow> 'c endpoint \<Rightarrow> bool" where
  "quiet st st' \<longleftrightarrow> en_fs st' = en_fs st \<and> en_incoming st' = en_incoming st"

lemma quiet_refl [simp, intro]: "quiet st st"
  by (simp add: quiet_def)

lemma quiet_conn [simp]: "quiet st (st\<lparr>en_conn := c\<rparr>)" "quiet st (st\<lparr>en_log := lg\<rparr>)"
  by (simp_all add: quiet_def)

lemma quiet_trans [trans]: "quiet a b \<Longrightarrow> quiet b c \<Longrightarrow> quiet a c"
  by (simp add: quiet_def)

lemma quiet_send: "(\<And>st'. quiet st st' \<Longrightarrow> quiet st (snd (k st'))) \<Longrightarrow> quiet st (snd (en_send E m st k))"
  by (auto simp: en_send_def split: prod.splits sum.splits)

lemma quiet_audit:
  "(\<And>st'. quiet st st' \<Longrightarrow> quiet st (snd (k st'))) \<Longrightarrow>
     quiet st (snd (en_audit E inp peer local ac oc n st k))"
  by (auto simp: en_audit_def split: prod.splits sum.splits)

lemma require_denied:
  "consent_require consent p = Inl e \<Longrightarrow> en_require consent p st k = (Some (Inl (EE_Permission e)), st)"
  by (simp add: en_require_def)

lemma quiet_message:
  assumes "consent_require consent P_FileManager = Inl e"
  shows "quiet st (snd (operate_message E consent peer local t m st))"
proof (cases m)
  case (CM_Chat body)
  then show ?thesis
    by (auto simp: operate_message_def operate_chat_def en_require_def intro!: quiet_send
        split: sum.splits option.splits)
qed (use assms in \<open>simp_all add: operate_message_def operate_offer_def operate_resume_def operate_chunk_def
      operate_commit_def operate_pause_def operate_cancel_def require_denied\<close>)

lemma quiet_turn:
  assumes "consent_require consent P_FileManager = Inl e"
  shows "quiet st (snd (operate_turn E consent peer local t st))"
proof -
  have "quiet st (snd (operate_message E consent peer local t m st'))" if "quiet st st'" for m st'
    using quiet_message [OF assms] that quiet_trans by blast
  then show ?thesis
    by (auto simp: operate_turn_def Let_def quiet_def split: prod.splits sum.splits)
qed

lemma quiet_loop:
  assumes "consent_require consent P_FileManager = Inl e"
  shows "quiet st (snd (operate_loop E consent peer local ts st))"
proof (induction ts arbitrary: st)
  case (Cons t ts)
  obtain r st' where "operate_turn E consent peer local t st = (r, st')"
    by fastforce
  then show ?case
    using Cons [of st'] quiet_turn [OF assms, of st E peer local t] quiet_trans [of st st']
    by (cases r) simp_all
qed simp

lemma operate_fs:
  assumes "consent_require consent P_FileManager = Inl e"
  shows "en_fs (snd (operate E consent local started ts st)) = en_fs st"
proof -
  let ?st = "st\<lparr>en_incoming := None, en_window := started, en_operations := 0\<rparr>"
  obtain r st' where l: "operate_loop E consent (lk_peer (cl_link E) (en_conn st)) local ts ?st = (r, st')"
    by fastforce
  then have "quiet ?st st'"
    using quiet_loop [OF assms] by (metis snd_conv)
  then show ?thesis
    using l by (auto simp: operate_def quiet_def en_drop_def split: option.splits)
qed

lemma accepted_consent:
  "consent_accept (mode_permissions m) (consent_pending (mode_permissions m)) = (r, c) \<Longrightarrow>
     r = Inr u \<Longrightarrow> m \<noteq> M_FileTransfer \<Longrightarrow> \<exists>e. consent_require c P_FileManager = Inl e"
  by (cases m) (auto simp: consent_accept_def consent_pending_def consent_require_def allows_perms_of
      split: if_splits)

lemma endpoint_fs_send:
  "en_fs st = fs \<Longrightarrow> (\<And>st'. en_fs st' = fs \<Longrightarrow> en_fs (snd (k st')) = fs) \<Longrightarrow>
     en_fs (snd (en_send E m st k)) = fs"
  by (cases "lk_send (cl_link E) (en_conn st) m") (auto simp: en_send_def split: sum.splits)

lemma endpoint_fs_audit:
  "en_fs st = fs \<Longrightarrow> (\<And>st'. en_fs st' = fs \<Longrightarrow> en_fs (snd (k st')) = fs) \<Longrightarrow>
     en_fs (snd (en_audit E inp peer local ac oc n st k)) = fs"
  by (auto simp: en_audit_def split: prod.splits sum.splits)

lemma endpoint_fs_result:
  "en_fs (snd x) = fs \<Longrightarrow> (\<And>r st'. en_fs st' = fs \<Longrightarrow> en_fs (snd (k r st')) = fs) \<Longrightarrow>
     en_fs (snd (case x of (None, st) \<Rightarrow> (None, st) | (Some r, st) \<Rightarrow> k r st)) = fs"
  by (auto split: prod.splits option.splits)

text \<open>C20: Files need consent. Unless the peer asks for a file transfer and the local user accepts it, a
  session leaves the file system as it was, whatever messages an authenticated peer sends and however
  the connection, the clock and the audit file behave.\<close>

theorem serve_needs_consent:
  assumes "fst (lk_receive (cl_link E) (en_conn st)) \<noteq> Inr (CM_Request M_FileTransfer) \<or> \<not> si_accept inp"
  shows "en_fs (snd (serve E desk local inp st)) = en_fs st"
proof -
  obtain r c where rc: "lk_receive (cl_link E) (en_conn st) = (r, c)"
    by fastforce
  show ?thesis
  proof (cases "\<exists>m. r = Inr (CM_Request m)")
    case True
    then obtain m where m: "r = Inr (CM_Request m)" ..
    obtain a con where acc: "consent_accept (mode_permissions m) (consent_pending (mode_permissions m)) = (a, con)"
      by fastforce
    have ops: "en_fs (snd (operate E con local started ts st')) = en_fs st'"
      if "a = Inr u" "si_accept inp" for u started ts st'
      using accepted_consent [OF acc that(1)] assms m rc that(2) operate_fs by fastforce
    have reject: "consent_reject (consent_pending p) = (Inr (), (consent_pending p)\<lparr>co_state := CS_Rejected\<rparr>)" for p
      by (simp add: consent_reject_def consent_pending_def)
    show ?thesis
      using ops
      by (cases "si_accept inp"; cases a)
        (simp_all add: serve_def Let_def rc m acc reject endpoint_fs_audit endpoint_fs_send endpoint_fs_result
          split: prod.split)
  qed (use rc in \<open>auto simp: serve_def Let_def split: sum.splits client_message.splits\<close>)
qed

subsection \<open>No session without its audit entry\<close>

definition session_event :: "device_id \<Rightarrow> device_id \<Rightarrow> audit_action \<Rightarrow> audit_outcome \<Rightarrow> nat \<Rightarrow> audit_event" where
  "session_event peer local action outcome n =
     \<lparr>ev_actor = peer, ev_target = local, ev_action = action, ev_outcome = outcome, ev_bytes = word_of_nat n\<rparr>"

lemma en_audit_Inl:
  "audit_append (cl_crypto E) (cl_json E) (en_log st) (session_event peer local ac oc n) (fst inp) (snd inp) =
     (Inl e, lg) \<Longrightarrow> en_audit E inp peer local ac oc n st k = (Some (Inl (EE_Audit e)), st\<lparr>en_log := lg\<rparr>)"
  by (simp add: en_audit_def session_event_def)

lemma en_audit_Inr:
  "audit_append (cl_crypto E) (cl_json E) (en_log st) (session_event peer local ac oc n) (fst inp) (snd inp) =
     (Inr h, lg) \<Longrightarrow> en_audit E inp peer local ac oc n st k = k (st\<lparr>en_log := lg\<rparr>)"
  by (simp add: en_audit_def session_event_def)

lemma consent_reject_pending:
  "consent_reject (consent_pending p) = (Inr (), (consent_pending p)\<lparr>co_state := CS_Rejected\<rparr>)"
  by (simp add: consent_reject_def consent_pending_def)

lemma consent_accept_pending:
  "consent_accept p (consent_pending p) = (Inr (), \<lparr>co_requested = p, co_granted = p, co_state = CS_Active\<rparr>)"
  by (simp add: consent_accept_def consent_pending_def is_subset_of_def)

text \<open>C23: No session without its audit entry. If the entry for the request, or the entry for the user's
  decision, cannot be written, the session ends with that error before anything was sent to the peer
  and with the file system untouched: neither an acceptance nor a refusal goes out unrecorded.\<close>

theorem serve_audits_first:
  assumes "lk_receive (cl_link E) (en_conn st) = (Inr (CM_Request m), c)"
    and "peer = ep_device_id (lk_peer (cl_link E) (en_conn st))"
    and "audit_append (cl_crypto E) (cl_json E) (en_log st)
      (session_event peer local ConnectionRequested Outcome_Success 0) (fst (si_requested inp)) (snd (si_requested inp)) = (r1, log1)"
    and "audit_append (cl_crypto E) (cl_json E) log1
      (session_event peer local (if si_accept inp then SessionAccepted else SessionRejected)
        (if si_accept inp then Outcome_Success else Outcome_Denied) 0)
      (fst (si_decided inp)) (snd (si_decided inp)) = (r2, log2)"
    and "r1 = Inl e \<or> is_ok r1 \<and> r2 = Inl e"
  shows "fst (serve E desk local inp st) = Some (Inl (EE_Audit e)) \<and>
    en_conn (snd (serve E desk local inp st)) = c \<and> en_fs (snd (serve E desk local inp st)) = en_fs st"
proof (cases "r1 = Inl e")
  case True
  then show ?thesis
    using assms(1-3) by (simp add: serve_def Let_def en_audit_def session_event_def)
next
  case False
  then obtain h where "r1 = Inr h" "r2 = Inl e"
    using assms(5) by (auto simp: res_simps)
  then show ?thesis
    using assms(1-4) by (cases "si_accept inp")
      (simp_all add: serve_def Let_def en_audit_def session_event_def consent_reject_pending consent_accept_pending)
qed

subsection \<open>Floods end\<close>

text \<open>A step that goes on keeps the window and the count of messages.\<close>

definition counted :: "nat \<Rightarrow> nat \<Rightarrow> 'c step_result \<Rightarrow> bool" where
  "counted w n x \<longleftrightarrow> fst x = None \<longrightarrow> en_window (snd x) = w \<and> en_operations (snd x) = n"

lemma counted_simps [simp]:
  "counted w n (Some r, st)"
  "counted w n (None, st) \<longleftrightarrow> en_window st = w \<and> en_operations st = n"
  by (simp_all add: counted_def)

lemma counted_send:
  "(\<And>c. counted w n (k (st\<lparr>en_conn := c\<rparr>))) \<Longrightarrow> counted w n (en_send E m st k)"
  by (cases "lk_send (cl_link E) (en_conn st) m") (auto simp: en_send_def split: sum.splits)

lemma counted_audit:
  "(\<And>lg. counted w n (k (st\<lparr>en_log := lg\<rparr>))) \<Longrightarrow> counted w n (en_audit E inp peer local ac oc i st k)"
  by (auto simp: en_audit_def split: prod.splits sum.splits)

lemma counted_require: "counted w n k \<Longrightarrow> counted w n (en_require consent p st k)"
  by (auto simp: en_require_def split: sum.splits)

lemma counted_ready:
  "en_window st = w \<Longrightarrow> en_operations st = n \<Longrightarrow> counted w n (operate_ready E tr st)"
  by (auto simp: operate_ready_def split: sum.splits prod.splits)

lemma counted_message:
  assumes "en_window st = w" and "en_operations st = n"
  shows "counted w n (operate_message E consent peer local t m st)"
  using assms
  by (cases m)
    (auto simp: operate_message_def operate_chat_def operate_offer_def operate_resume_def operate_chunk_def
      operate_commit_def operate_pause_def operate_cancel_def
      intro!: counted_require counted_send counted_audit counted_ready split: sum.split prod.split option.split)

lemma operate_turn_counts:
  assumes "operate_turn E consent peer local t st = (None, st')" and "tu_now t \<le> en_window st + 60 * 1000000000"
  shows "en_window st' = en_window st \<and> en_operations st' = en_operations st + 1 \<and> en_operations st' \<le> 100000"
proof -
  obtain m c where "lk_receive (cl_link E) (en_conn st) = (Inr m, c)"
    using assms(1) by (auto simp: operate_turn_def split: prod.splits sum.splits)
  then have op: "operate_message E consent peer local t m
      (st\<lparr>en_conn := c, en_operations := en_operations st + 1\<rparr>) = (None, st')" "en_operations st + 1 \<le> 100000"
    using assms by (auto simp: operate_turn_def Let_def split: if_splits)
  then show ?thesis
    using counted_message [of "st\<lparr>en_conn := c, en_operations := en_operations st + 1\<rparr>" "en_window st"
        "en_operations st + 1" E consent peer local t m] by simp
qed

lemma operate_loop_bounded:
  assumes "fst (operate_loop E consent peer local ts st) = None"
    and "list_all (\<lambda>t. tu_now t \<le> en_window st + 60 * 1000000000) ts" and "en_operations st \<le> 100000"
  shows "en_operations st + length ts \<le> 100000"
  using assms
proof (induction ts arbitrary: st)
  case (Cons t ts)
  obtain r st' where t: "operate_turn E consent peer local t st = (r, st')"
    by fastforce
  with Cons.prems(1) have "r = None"
    by (cases r) auto
  with t Cons.prems operate_turn_counts [of E consent peer local t st st'] Cons.IH [of st'] show ?case
    by auto
qed simp

text \<open>A flood of messages ends the session. Within 60 seconds of the start of its window an operation
  loop handles at most 100000 messages: given more turns than that, each seeing the clock within the
  window, the session has returned.\<close>

theorem flood_ends:
  assumes "list_all (\<lambda>t. tu_now t \<le> started + 60 * 1000000000) ts" and "100000 < length ts"
  shows "fst (operate E consent local started ts st) \<noteq> None"
proof -
  let ?st = "st\<lparr>en_incoming := None, en_window := started, en_operations := 0\<rparr>"
  have "fst (operate_loop E consent (lk_peer (cl_link E) (en_conn st)) local ts ?st) \<noteq> None"
    using operate_loop_bounded [of E consent _ local ts ?st] assms by auto
  then show ?thesis
    by (auto simp: operate_def split: prod.splits option.splits)
qed

subsection \<open>A whole upload\<close>

text \<open>An ideal link: the messages to come, and those sent.\<close>

definition queue_link :: "expected_peer \<Rightarrow> (client_message list \<times> client_message list) link" where
  "queue_link peer =
     \<lparr>lk_send = (\<lambda>(i, out) m. (Inr (), (i, out @ [m]))),
      lk_receive = (\<lambda>(i, out). case i of [] \<Rightarrow> (Inl CE_Closed, (i, out)) | m # i \<Rightarrow> (Inr m, (i, out))),
      lk_close = (\<lambda>c. c), lk_peer = (\<lambda>_. peer)\<rparr>"

lemma queue_link_simps [simp]:
  "lk_send (queue_link peer) (i, out) m = (Inr (), (i, out @ [m]))"
  "lk_receive (queue_link peer) (m # i, out) = (Inr m, (i, out))"
  "lk_close (queue_link peer) c = c"
  "lk_peer (queue_link peer) c = peer"
  by (simp_all add: queue_link_def)

text \<open>The pieces of a content, the messages that carry them and the answers.\<close>

function (sequential) file_pieces :: "bytes \<Rightarrow> bytes list" where
  "file_pieces bs = (if bs = [] then [] else take CHUNK_SIZE bs # file_pieces (drop CHUNK_SIZE bs))"
  by pat_completeness auto
termination
  by (relation "measure length") (auto simp: CHUNK_SIZE_def)

declare file_pieces.simps [simp del]

fun chunk_messages :: "crypto_lib \<Rightarrow> nat \<Rightarrow> bytes list \<Rightarrow> client_message list" where
  "chunk_messages L offset [] = []"
| "chunk_messages L offset (b # bs) = CM_Chunk offset b (sha256 L b) # chunk_messages L (offset + length b) bs"

fun progress_messages :: "nat \<Rightarrow> bytes list \<Rightarrow> client_message list" where
  "progress_messages offset [] = []"
| "progress_messages offset (b # bs) = CM_Progress (offset + length b) # progress_messages (offset + length b) bs"

lemma concat_file_pieces [simp]: "concat (file_pieces bs) = bs"
  by (induction bs rule: file_pieces.induct) (subst file_pieces.simps, auto)

lemma file_pieces_sizes: "b \<in> set (file_pieces bs) \<Longrightarrow> b \<noteq> [] \<and> length b \<le> CHUNK_SIZE"
proof (induction bs rule: file_pieces.induct)
  case (1 bs)
  then show ?case
    by (subst (asm) (2) file_pieces.simps) (auto simp: CHUNK_SIZE_def split: if_splits)
qed

lemma length_file_pieces: "length (file_pieces bs) * CHUNK_SIZE < length bs + CHUNK_SIZE"
proof (induction bs rule: file_pieces.induct)
  case (1 bs)
  show ?case
  proof (cases "bs = []")
    case False
    then show ?thesis
      using 1 by (subst file_pieces.simps) (cases "length bs \<le> CHUNK_SIZE"; simp add: file_pieces.simps [of "[]"] CHUNK_SIZE_def)
  qed (simp add: file_pieces.simps CHUNK_SIZE_def)
qed

lemma send_chunks_queue:
  assumes "off \<le> length content"
  shows "send_chunks L (queue_link peer) \<lparr>us_content = content, us_fail = None\<rparr> (length content) off
      (progress_messages off (file_pieces (drop off content)) @ rest, out) =
    (Inr (), (rest, out @ chunk_messages L off (file_pieces (drop off content))))"
  using assms
proof (induction "length content - off" arbitrary: off out rule: less_induct)
  case less
  show ?case
  proof (cases "off < length content")
    case True
    let ?n = "min (length content - off) CHUNK_SIZE"
    have fp: "file_pieces (drop off content) = take CHUNK_SIZE (drop off content) # file_pieces (drop (off + CHUNK_SIZE) content)"
      using True by (subst file_pieces.simps) (simp add: add.commute)
    have tk: "take ?n (drop off content) = take CHUNK_SIZE (drop off content)"
      by (simp add: min_def)
    have len: "off + length (take CHUNK_SIZE (drop off content)) = off + ?n"
      by (simp add: min_def)
    have dr: "drop (off + CHUNK_SIZE) content = drop (off + ?n) content"
      by (simp add: min_def)
    have "length content - (off + ?n) < length content - off" "off + ?n \<le> length content"
      using True by (auto simp: CHUNK_SIZE_def)
    from less.hyps [OF this] show ?thesis
      using True by (subst send_chunks.simps) (simp add: fp source_read_exact_def tk len dr)
  qed (use less.prems in \<open>simp add: send_chunks.simps file_pieces.simps\<close>)
qed

lemma write_chunks_Cons:
  assumes "write_chunks L c (b # bs) t fs = (Inr (), t2, fs2)"
  obtains t1 fs1 where "write_chunk L c (it_offset t) b (sha256 L b) t fs = (Inr (), t1, fs1)"
    and "write_chunks L c bs t1 fs1 = (Inr (), t2, fs2)" and "it_offset t1 = it_offset t + length b"
proof -
  obtain u t1 fs1 where w: "write_chunk L c (it_offset t) b (sha256 L b) t fs = (Inr u, t1, fs1)"
    and "write_chunks L c bs t1 fs1 = (Inr (), t2, fs2)"
    using assms by (auto split: prod.splits sum.splits)
  moreover have "it_offset t1 = it_offset t + length b"
    using w by (auto simp: write_chunk_def split: sum.splits prod.splits if_splits)
  ultimately show ?thesis
    using that by simp
qed

text \<open>One turn of the loop over the ideal link, when the count allows it.\<close>

lemma operate_turn_queue:
  assumes "cl_link E = queue_link peer" and "en_conn st = (m # rest, out)" and "en_operations st < 100000"
  shows "\<exists>w n. n \<le> en_operations st + 1 \<and> operate_turn E consent p local t st =
    operate_message E consent p local t m (st\<lparr>en_conn := (rest, out), en_window := w, en_operations := n\<rparr>)"
proof (cases "tu_now t - en_window st > 60 * 1000000000")
  case True
  then show ?thesis
    using assms by (intro exI [of _ "tu_restart t"] exI [of _ 1]) (simp add: operate_turn_def)
next
  case False
  then show ?thesis
    using assms by (intro exI [of _ "en_window st"] exI [of _ "en_operations st + 1"]) (simp add: operate_turn_def)
qed

lemma operate_chunks:
  assumes "consent_require c P_FileManager = Inr ()" and "cl_link E = queue_link peer"
    and "write_chunks (cl_crypto E) c ps tr fs = (Inr (), tr', fs')" and "length ts = length ps"
    and "en_incoming st = Some tr" and "en_fs st = fs"
    and "en_conn st = (chunk_messages (cl_crypto E) (it_offset tr) ps @ rest, out)"
    and "en_operations st + length ps \<le> 100000"
  shows "\<exists>w n. n \<le> en_operations st + length ps \<and>
    operate_loop E c p local (ts @ ts2) st = operate_loop E c p local ts2
      (st\<lparr>en_conn := (rest, out @ progress_messages (it_offset tr) ps), en_fs := fs', en_incoming := Some tr',
         en_window := w, en_operations := n\<rparr>)"
  using assms(3-)
proof (induction ps arbitrary: tr fs ts st out)
  case Nil
  then show ?case
    by (cases st) (rule exI [of _ "en_window st"], rule exI [of _ "en_operations st"], simp)
next
  case (Cons b ps)
  obtain tr1 fs1 where w1: "write_chunk (cl_crypto E) c (it_offset tr) b (sha256 (cl_crypto E) b) tr fs = (Inr (), tr1, fs1)"
    and w2: "write_chunks (cl_crypto E) c ps tr1 fs1 = (Inr (), tr', fs')" and off: "it_offset tr1 = it_offset tr + length b"
    using write_chunks_Cons [OF Cons.prems(1)] by metis
  obtain t ts' where ts: "ts = t # ts'" "length ts' = length ps"
    using Cons.prems(2) by (cases ts) auto
  have conn: "en_conn st = (CM_Chunk (it_offset tr) b (sha256 (cl_crypto E) b) #
      chunk_messages (cl_crypto E) (it_offset tr1) ps @ rest, out)"
    using Cons.prems(5) off by simp
  obtain w n where n: "n \<le> en_operations st + 1" and turn: "operate_turn E c p local t st =
      operate_message E c p local t (CM_Chunk (it_offset tr) b (sha256 (cl_crypto E) b))
        (st\<lparr>en_conn := (chunk_messages (cl_crypto E) (it_offset tr1) ps @ rest, out), en_window := w, en_operations := n\<rparr>)"
    using operate_turn_queue [OF assms(2) conn] Cons.prems(6) by fastforce
  define st1 where "st1 = st\<lparr>en_conn := (chunk_messages (cl_crypto E) (it_offset tr1) ps @ rest,
      out @ [CM_Progress (it_offset tr1)]), en_fs := fs1, en_incoming := Some tr1, en_window := w, en_operations := n\<rparr>"
  have "operate_turn E c p local t st = (None, st1)"
    using turn w1 Cons.prems(3,4) assms(1,2)
    by (simp add: operate_message_def operate_chunk_def en_require_def en_send_def st1_def)
  then have "operate_loop E c p local (ts @ ts2) st = operate_loop E c p local (ts' @ ts2) st1"
    by (simp add: ts)
  moreover obtain w' n' where "n' \<le> n + length ps" "operate_loop E c p local (ts' @ ts2) st1 =
      operate_loop E c p local ts2 (st1\<lparr>en_conn := (rest, (out @ [CM_Progress (it_offset tr1)]) @ progress_messages (it_offset tr1) ps),
        en_fs := fs', en_incoming := Some tr', en_window := w', en_operations := n'\<rparr>)"
    using Cons.IH [OF w2 ts(2), of st1 "out @ [CM_Progress (it_offset tr1)]"] Cons.prems(6) n by (auto simp: st1_def)
  ultimately show ?case
    using n off by (intro exI [of _ w'] exI [of _ n']) (simp add: st1_def)
qed

text \<open>The conversation of an upload, as each side sends it.\<close>

definition upload_requests :: "crypto_lib \<Rightarrow> manifest \<Rightarrow> bytes \<Rightarrow> client_message list" where
  "upload_requests L m content =
     [CM_Request M_FileTransfer, CM_FileOffer m] @ chunk_messages L 0 (file_pieces content) @ [CM_Commit]"

definition upload_replies :: "crypto_lib \<Rightarrow> bytes \<Rightarrow> manifest \<Rightarrow> bytes \<Rightarrow> client_message list" where
  "upload_replies L tid m content =
     [CM_Accepted perms_file_transfer, CM_Ready tid 0 (sha256 L []) m] @
       progress_messages 0 (file_pieces content) @ [CM_Complete m]"

lemma sender_side:
  assumes "describe_file L name (Inr (True, content)) = Inr m"
  shows "send_file L (queue_link peer) name (Inr (True, content)) (Inr \<lparr>us_content = content, us_fail = None\<rparr>)
      None None (upload_replies L tid m content, []) =
    (Inr m, ([], upload_requests L m content))"
proof -
  have "mf_size m = length content"
    using assms by (auto simp: describe_file_def res_simps split: if_splits)
  then show ?thesis
    using assms send_chunks_queue [of 0 content L peer "[CM_Complete m]" "[CM_Request M_FileTransfer, CM_FileOffer m]"]
    by (simp add: send_file_def client_request_def upload_replies_def upload_requests_def send_after_ready_def
        hash_prefix.simps)
qed

text \<open>The entries of an accepted upload in the audit log.\<close>

definition upload_entries :: "device_id \<Rightarrow> device_id \<Rightarrow> nat \<Rightarrow> audit_event list" where
  "upload_entries peer local n =
     [session_event peer local ConnectionRequested Outcome_Success 0,
      session_event peer local SessionAccepted Outcome_Success 0,
      session_event peer local FileOffered Outcome_Success n,
      session_event peer local FileCompleted Outcome_Success n,
      session_event peer local SessionDisconnected Outcome_Success 0]"

lemma perms_file_consent:
  "consent_require \<lparr>co_requested = perms_file_transfer, co_granted = perms_file_transfer, co_state = CS_Active\<rparr>
     P_FileManager = Inr ()"
  by (simp add: consent_require_iff perms_file_transfer_def allows_perms_of)

text \<open>The receiver's file operations of an upload.\<close>

lemma upload_file_operations:
  fixes L :: crypto_lib and fs :: fsys and m :: manifest and content enc owner tid :: bytes
  defines "tr1 \<equiv> \<lparr>it_file = fs_next fs, it_metadata = \<lparr>md_version = 1, md_owner = owner, md_manifest = m\<rparr>,
      it_id = tid, it_offset = 0, it_pos = 0\<rparr>"
    and "tr2 \<equiv> \<lparr>it_file = fs_next fs, it_metadata = \<lparr>md_version = 1, md_owner = owner, md_manifest = m\<rparr>,
      it_id = tid, it_offset = length content, it_pos = length content\<rparr>"
    and "fs1 \<equiv> begun tid enc fs"
    and "fs2 \<equiv> (begun tid enc fs)\<lparr>fs_data := (fs_data (begun tid enc fs))(fs_next fs := content)\<rparr>"
  assumes "consent_require c P_FileManager = Inr ()" and "fs_faults fs = []"
    and "valid_name (mf_name m)" and "mf_size m = length content" and "mf_sha256 m = sha256 L content"
    and "length content \<le> DEFAULT_RECEIVE_LIMIT" and "fs_names fs (mf_name m) = None"
    and "fs_names fs (transfer_name tid ''part'') = None" and "fs_names fs (transfer_name tid ''meta'') = None"
    and "fs_next fs \<notin> fs_locked fs"
    and "cd_ser cd \<lparr>md_version = 1, md_owner = owner, md_manifest = m\<rparr> = Some enc"
  shows "receiver_begin cd c owner m tid fs = (Inr tr1, fs1)"
    and "prefix_hash L tr1 fs1 = (Inr (sha256 L []), fs1)"
    and "write_chunks L c (file_pieces content) tr1 fs1 = (Inr (), tr2, fs2)"
    and "\<exists>fs3. transfer_finish L c tr2 fs2 = (Inr m, fs3) \<and> visible fs3 (mf_name m) = Some content"
proof -
  have lim: "mf_size m \<le> MAX_FILE_SIZE"
    using assms(8,10) by (simp add: DEFAULT_RECEIVE_LIMIT_def MAX_FILE_SIZE_def)
  show "receiver_begin cd c owner m tid fs = (Inr tr1, fs1)"
    unfolding tr1_def fs1_def
    by (rule receiver_begin_ok) (use assms lim in auto)
  show "prefix_hash L tr1 fs1 = (Inr (sha256 L []), fs1)"
    using assms(6) by (simp add: prefix_hash_def sys_noop_def sys_read_all_def then_do_def run_io_def tr1_def fs1_def begun_def)
  have "write_chunks L c (file_pieces content) tr1 fs1 =
    (Inr (), tr1\<lparr>it_offset := it_offset tr1 + length (concat (file_pieces content)), it_pos := it_pos tr1 + length (concat (file_pieces content))\<rparr>,
     fs1\<lparr>fs_data := (fs_data fs1)(it_file tr1 := fs_data fs1 (it_file tr1) @ concat (file_pieces content))\<rparr>)"
    by (rule write_chunks_ok) (use assms lim file_pieces_sizes in \<open>auto simp: at_end_def tr1_def fs1_def begun_def\<close>)
  then show "write_chunks L c (file_pieces content) tr1 fs1 = (Inr (), tr2, fs2)"
    by (simp add: tr1_def tr2_def fs1_def fs2_def begun_def)
  have "mf_name m \<noteq> transfer_name tid ''part''" "mf_name m \<noteq> transfer_name tid ''meta''"
    using valid_name_not_internal [OF assms(7)] by auto
  then show "\<exists>fs3. transfer_finish L c tr2 fs2 = (Inr m, fs3) \<and> visible fs3 (mf_name m) = Some content"
    using transfer_finish_ok [of c fs2 tr2 L] assms by (simp add: tr2_def fs2_def begun_def) blast
qed

lemma receiver_loop:
  fixes st :: "(client_message list \<times> client_message list) endpoint"
  assumes env: "cl_link E = queue_link peer" "cl_crypto E = L" and c: "consent_require c P_FileManager = Inr ()"
    and st: "en_incoming st = None" "en_operations st = 0" "en_fs st = fs"
      "en_conn st = (CM_FileOffer m # chunk_messages L 0 (file_pieces content) @ [CM_Commit], out)"
    and size: "mf_size m = length content" "length content \<le> DEFAULT_RECEIVE_LIMIT"
    and a3: "audit_append L (cl_json E) (en_log st) (session_event (ep_device_id peer) local FileOffered Outcome_Success
      (length content)) (fst (tu_audit t1)) (snd (tu_audit t1)) = (Inr h3, l3)"
    and a4: "audit_append L (cl_json E) l3 (session_event (ep_device_id peer) local FileCompleted Outcome_Success
      (length content)) (fst (tu_audit t2)) (snd (tu_audit t2)) = (Inr h4, l4)"
    and b: "receiver_begin (cl_metadata E) c (ep_public_key peer) m (tu_tid t1) fs = (Inr tr1, fs1)"
    and tr1: "it_id tr1 = tid" "it_offset tr1 = 0" "md_manifest (it_metadata tr1) = m"
    and p: "prefix_hash L tr1 fs1 = (Inr (sha256 L []), fs1)"
    and w: "write_chunks L c (file_pieces content) tr1 fs1 = (Inr (), tr2, fs2)"
    and f: "transfer_finish L c tr2 fs2 = (Inr m, fs3)"
    and ts: "length ts = length (file_pieces content)"
  shows "\<exists>st'. operate_loop E c peer local ([t1] @ ts @ [t2]) st = (Some (Inr ()), st') \<and>
    en_conn st' = ([], out @ [CM_Ready tid 0 (sha256 L []) m] @ progress_messages 0 (file_pieces content) @ [CM_Complete m]) \<and>
    en_fs st' = fs3 \<and> en_log st' = l4 \<and> en_incoming st' = None"
proof -
  have few: "length (file_pieces content) < 99999"
    using length_file_pieces [of content] size(2) by (simp add: CHUNK_SIZE_def DEFAULT_RECEIVE_LIMIT_def)
  have audit: "en_audit E (tu_audit t) (ep_device_id peer) local ac Outcome_Success (length content) s k =
      k (s\<lparr>en_log := lg'\<rparr>)" if "en_log s = lg" "audit_append L (cl_json E) lg (session_event (ep_device_id peer) local ac
        Outcome_Success (length content)) (fst (tu_audit t)) (snd (tu_audit t)) = (Inr h, lg')" for t ac s lg k h lg'
    using en_audit_Inr [of E s "ep_device_id peer" local ac Outcome_Success "length content" "tu_audit t" h lg' k] that env
    by simp
  obtain w1 n1 where n1: "n1 \<le> 1" and turn1: "operate_turn E c peer local t1 st = operate_message E c peer local t1
      (CM_FileOffer m) (st\<lparr>en_conn := (chunk_messages L 0 (file_pieces content) @ [CM_Commit], out),
        en_window := w1, en_operations := n1\<rparr>)"
    using operate_turn_queue [OF env(1) st(4), of c peer local t1] st(2) by fastforce
  define st1 where "st1 = st\<lparr>en_conn := (chunk_messages L 0 (file_pieces content) @ [CM_Commit],
      out @ [CM_Ready tid 0 (sha256 L []) m]), en_window := w1, en_operations := n1, en_log := l3,
      en_fs := fs1, en_incoming := Some tr1\<rparr>"
  have first: "operate_turn E c peer local t1 st = (None, st1)"
    unfolding turn1 using st size c b p tr1 env
    by (simp add: operate_message_def operate_offer_def en_require_def audit [OF _ a3] operate_ready_def st1_def)
  obtain w2 n2 where n2: "n2 \<le> n1 + length (file_pieces content)" and chunks:
    "operate_loop E c peer local (ts @ [t2]) st1 = operate_loop E c peer local [t2]
      (st1\<lparr>en_conn := ([CM_Commit], (out @ [CM_Ready tid 0 (sha256 L []) m]) @ progress_messages 0 (file_pieces content)),
         en_fs := fs2, en_incoming := Some tr2, en_window := w2, en_operations := n2\<rparr>)"
    using operate_chunks [OF c env(1), of "file_pieces content" tr1 fs1 tr2 fs2 ts st1 "[CM_Commit]" _ peer local "[t2]"]
      w ts few n1 env(2) tr1 by (auto simp: st1_def)
  let ?s = "st1\<lparr>en_conn := ([CM_Commit], (out @ [CM_Ready tid 0 (sha256 L []) m]) @ progress_messages 0 (file_pieces content)),
         en_fs := fs2, en_incoming := Some tr2, en_window := w2, en_operations := n2\<rparr>"
  obtain w3 n3 where turn2: "operate_turn E c peer local t2 ?s = operate_message E c peer local t2 CM_Commit
      (?s\<lparr>en_conn := ([], (out @ [CM_Ready tid 0 (sha256 L []) m]) @ progress_messages 0 (file_pieces content)),
        en_window := w3, en_operations := n3\<rparr>)"
    using operate_turn_queue [OF env(1), of ?s CM_Commit "[]" _ c peer local t2] n1 n2 few by fastforce
  have "operate_turn E c peer local t2 ?s = (Some (Inr ()), ?s\<lparr>en_conn := ([], (out @ [CM_Ready tid 0 (sha256 L []) m]) @
      progress_messages 0 (file_pieces content) @ [CM_Complete m]), en_window := w3, en_operations := n3,
      en_incoming := None, en_fs := fs3, en_log := l4\<rparr>)"
    unfolding turn2 using c f env size(1)
    by (simp add: operate_message_def operate_commit_def en_require_def audit [OF _ a4] en_send_def st1_def)
  then show ?thesis
    using first chunks by simp
qed

text \<open>C9: A complete upload. When a device sends a file of at most 1 GiB and the other side's user
  accepts, with no system failure and the name free there, the messages of the sender and the replies
  of the receiving endpoint fit together: each side, fed with the other's messages, sends exactly the
  messages the other was fed with; both end successfully; the file is published under its name with
  exactly the sent bytes; and the audit log has gained exactly the five entries of the session.\<close>

theorem upload_completes:
  assumes "cl_link E = queue_link peer" and "L = cl_crypto E"
    and "describe_file L (Some name) (Inr (True, content)) = Inr m" and "length content \<le> DEFAULT_RECEIVE_LIMIT"
    and "fs_faults fs = []" and "fs_names fs name = None"
    and "fs_names fs (transfer_name tid ''part'') = None" and "fs_names fs (transfer_name tid ''meta'') = None"
    and "fs_next fs \<notin> fs_locked fs"
    and "cd_ser (cl_metadata E) \<lparr>md_version = 1, md_owner = ep_public_key peer, md_manifest = m\<rparr> = Some enc"
    and "run_ok (\<lambda>al (e, inp). audit_append L (cl_json E) al e (fst inp) (snd inp)) al
      (zip (upload_entries (ep_device_id peer) local (length content)) [a1, a2, a3, a4, a5]) = Some (hs, al')"
    and "si_accept inp" and "si_requested inp = a1" and "si_decided inp = a2" and "si_closed inp = a5"
    and "si_turns inp = [t1] @ ts @ [t2]" and "length ts = length (file_pieces content)"
    and "tu_tid t1 = tid" and "tu_audit t1 = a3" and "tu_audit t2 = a4"
    and "en_conn st = (upload_requests L m content, [])" and "en_fs st = fs" and "en_log st = al"
  shows "send_file L (queue_link receiver) (Some name) (Inr (True, content)) (Inr \<lparr>us_content = content, us_fail = None\<rparr>)
      None None (upload_replies L tid m content, []) = (Inr m, ([], upload_requests L m content)) \<and>
    (\<exists>st'. serve E desk local inp st = (Some (Inr ()), st') \<and> en_conn st' = ([], upload_replies L tid m content) \<and>
      visible (en_fs st') name = Some content \<and> en_log st' = al' \<and> en_incoming st' = None)"
proof -
  let ?c = "\<lparr>co_requested = perms_file_transfer, co_granted = perms_file_transfer, co_state = CS_Active\<rparr>"
  let ?md = "\<lparr>md_version = 1, md_owner = ep_public_key peer, md_manifest = m\<rparr>"
  let ?i = "fs_next fs"
  have m: "valid_name name" "mf_name m = name" "mf_size m = length content" "mf_sha256 m = sha256 L content"
    using assms(3) by (auto simp: describe_file_def res_simps split: if_splits)
  obtain h1 h2 h3 h4 h5 l1 l2 l3 l4 where
    a1: "audit_append L (cl_json E) al (session_event (ep_device_id peer) local ConnectionRequested Outcome_Success 0) (fst a1) (snd a1) = (Inr h1, l1)"
    and a2: "audit_append L (cl_json E) l1 (session_event (ep_device_id peer) local SessionAccepted Outcome_Success 0) (fst a2) (snd a2) = (Inr h2, l2)"
    and a3: "audit_append L (cl_json E) l2 (session_event (ep_device_id peer) local FileOffered Outcome_Success (length content)) (fst a3) (snd a3) = (Inr h3, l3)"
    and a4: "audit_append L (cl_json E) l3 (session_event (ep_device_id peer) local FileCompleted Outcome_Success (length content)) (fst a4) (snd a4) = (Inr h4, l4)"
    and a5: "audit_append L (cl_json E) l4 (session_event (ep_device_id peer) local SessionDisconnected Outcome_Success 0) (fst a5) (snd a5) = (Inr h5, al')"
    using assms(11) by (auto simp: upload_entries_def run_ok_Cons_iff simp del: run_ok.simps(2))
  note ops = upload_file_operations [OF perms_file_consent assms(5), where L = L and m = m and content = content
      and owner = "ep_public_key peer" and tid = tid and cd = "cl_metadata E" and enc = enc]
  note ops' = ops [OF m(1) [folded m(2)] m(3,4) assms(4) assms(6) [folded m(2)] assms(7-10)]
  obtain fs3 where fs3: "transfer_finish L ?c \<lparr>it_file = ?i, it_metadata = ?md, it_id = tid,
      it_offset = length content, it_pos = length content\<rparr>
      ((begun tid enc fs)\<lparr>fs_data := (fs_data (begun tid enc fs))(?i := content)\<rparr>) = (Inr m, fs3)"
    and vis: "visible fs3 name = Some content"
    using ops'(4) m(2) by auto
  define s0 where "s0 = st\<lparr>en_log := l2, en_conn := (CM_FileOffer m # chunk_messages L 0 (file_pieces content) @
      [CM_Commit], [CM_Accepted perms_file_transfer])\<rparr>"
  have "\<exists>st'. operate_loop E ?c peer local ([t1] @ ts @ [t2])
      (s0\<lparr>en_incoming := None, en_window := si_started inp, en_operations := 0\<rparr>) = (Some (Inr ()), st') \<and>
      en_conn st' = ([], [CM_Accepted perms_file_transfer] @ [CM_Ready tid 0 (sha256 L []) m] @
        progress_messages 0 (file_pieces content) @ [CM_Complete m]) \<and>
      en_fs st' = fs3 \<and> en_log st' = l4 \<and> en_incoming st' = None"
    by (rule receiver_loop [where L = L and fs = fs, OF assms(1) assms(2) [symmetric] perms_file_consent _ _ _ _ m(3) assms(4)])
      (use a3 a4 ops'(1-3) fs3 assms(17-22) in \<open>simp_all add: s0_def\<close>)
  then obtain st' where loop: "operate_loop E ?c peer local ([t1] @ ts @ [t2])
      (s0\<lparr>en_incoming := None, en_window := si_started inp, en_operations := 0\<rparr>) = (Some (Inr ()), st')"
    and st': "en_conn st' = ([], upload_replies L tid m content)" "en_fs st' = fs3" "en_log st' = l4" "en_incoming st' = None"
    by (auto simp: upload_replies_def)
  then have op: "operate E ?c local (si_started inp) (si_turns inp) s0 = (Some (Inr ()), st')"
    using assms(1,16) by (simp add: operate_def en_drop_def)
  have "serve E desk local inp st = (Some (Inr ()), st'\<lparr>en_log := al'\<rparr>)"
    using a1 a2 a5 assms(1,2,12-15,21-23) op st'
    by (cases st') (simp add: serve_def Let_def upload_requests_def consent_accept_pending en_audit_def session_event_def
        en_send_def is_desktop_def s0_def)
  moreover have "visible (en_fs (st'\<lparr>en_log := al'\<rparr>)) name = Some content"
    using st' vis by simp
  ultimately show ?thesis
    using sender_side [OF assms(3)] st' by simp
qed

subsection \<open>A concrete session\<close>

definition demo_remote :: expected_peer where
  "demo_remote = \<lparr>ep_device_id = DeviceId 111111111, ep_public_key = demo_key 1\<rparr>"

definition demo_client_env :: "(client_message list \<times> client_message list) client_env" where
  "demo_client_env =
     \<lparr>cl_crypto = demo_lib, cl_json = demo_json,
      cl_metadata = codec_only \<lparr>md_version = 1, md_owner = demo_key 1, md_manifest = demo_manifest\<rparr> [4, 2],
      cl_link = queue_link demo_remote\<rparr>"

definition demo_audit_input :: audit_input where
  "demo_audit_input = (Some 0, Wrote (Inr ()))"

definition demo_turn :: turn where
  "demo_turn = \<lparr>tu_now = 0, tu_restart = 0, tu_reply = None, tu_audit = demo_audit_input, tu_tid = [9]\<rparr>"

definition demo_serve_input :: "bool \<Rightarrow> serve_input" where
  "demo_serve_input accept =
     \<lparr>si_accept = accept, si_requested = demo_audit_input, si_decided = demo_audit_input, si_started = 0,
      si_turns = [demo_turn] @ [demo_turn] @ [demo_turn], si_closed = demo_audit_input\<rparr>"

definition demo_endpoint :: "client_message list \<Rightarrow> audit_log \<Rightarrow> (client_message list \<times> client_message list) endpoint" where
  "demo_endpoint ms al = \<lparr>en_conn = (ms, []), en_fs = demo_fs, en_log = al, en_incoming = None,
     en_window = 0, en_operations = 0\<rparr>"

lemma demo_audit_run:
  assumes "log_ready n al" and "n + length evs < 1000"
  shows "\<exists>hs al'. run_ok (\<lambda>al (e, inp). audit_append demo_lib demo_json al e (fst inp) (snd inp)) al
    (zip evs (replicate (length evs) demo_audit_input)) = Some (hs, al')"
  using assms
proof (induction evs arbitrary: n al)
  case (Cons ev evs)
  obtain h al' where a: "audit_append demo_lib demo_json al ev (Some 0) (Wrote (Inr ())) = (Inr h, al')"
    and r: "log_ready (Suc n) al'"
    using demo_append_any [OF Cons.prems(1), of 0 ev] Cons.prems(2) by auto
  obtain hs al'' where "run_ok (\<lambda>al (e, inp). audit_append demo_lib demo_json al e (fst inp) (snd inp)) al'
      (zip evs (replicate (length evs) demo_audit_input)) = Some (hs, al'')"
    using Cons.IH [OF r] Cons.prems(2) by auto
  then show ?case
    using a by (simp add: demo_audit_input_def)
qed simp

lemma demo_log_ready: "log_ready 0 demo_log"
  by (simp add: log_ready_def demo_log_def head_default_def)

lemma upload_completes_witness:
  "\<exists>st'. serve demo_client_env (\<lambda>c _. (Inr (), c)) (DeviceId 222222222) (demo_serve_input True)
      (demo_endpoint (upload_requests demo_lib demo_manifest [7, 8, 9]) demo_log) = (Some (Inr ()), st') \<and>
    visible (en_fs st') (lit ''data.bin'') = Some [7, 8, 9]"
proof -
  have five: "replicate 5 demo_audit_input =
      [demo_audit_input, demo_audit_input, demo_audit_input, demo_audit_input, demo_audit_input]"
    by (simp add: numeral_eq_Suc)
  obtain hs al' where run: "run_ok (\<lambda>al (e, inp). audit_append demo_lib (cl_json demo_client_env) al e (fst inp) (snd inp)) demo_log
      (zip (upload_entries (ep_device_id demo_remote) (DeviceId 222222222) (length [7, 8, 9 :: u8]))
        [demo_audit_input, demo_audit_input, demo_audit_input, demo_audit_input, demo_audit_input]) = Some (hs, al')"
    using demo_audit_run [OF demo_log_ready, of "upload_entries (ep_device_id demo_remote) (DeviceId 222222222) (length [7, 8, 9 :: u8])"] five
    by (auto simp: upload_entries_def demo_client_env_def simp del: run_ok.simps)
  have desc: "describe_file demo_lib (Some (lit ''data.bin'')) (Inr (True, [7, 8, 9])) = Inr demo_manifest"
    using demo_valid_name by (simp add: describe_file_def demo_manifest_def MAX_FILE_SIZE_def)
  have names: "fs_names demo_fs (lit ''data.bin'') = None"
    using demo_upload_hyps(4) by (simp add: demo_manifest_def)
  have ser: "cd_ser (cl_metadata demo_client_env) \<lparr>md_version = 1, md_owner = ep_public_key demo_remote,
      md_manifest = demo_manifest\<rparr> = Some [4, 2]"
    by (simp add: demo_client_env_def codec_only_def demo_remote_def demo_key_def)
  have pieces: "file_pieces [7, 8, 9 :: u8] = [[7, 8, 9]]"
    by (simp add: file_pieces.simps CHUNK_SIZE_def)
  show ?thesis
    using upload_completes [where E = demo_client_env and L = demo_lib and peer = demo_remote and ts = "[demo_turn]"
        and inp = "demo_serve_input True" and local = "DeviceId 222222222" and desk = "\<lambda>c _. (Inr (), c)"
        and st = "demo_endpoint (upload_requests demo_lib demo_manifest [7, 8, 9]) demo_log" and receiver = demo_remote,
        OF _ _ desc _ demo_upload_hyps(1) names demo_upload_hyps(5-7) ser run]
    by (auto simp: demo_serve_input_def demo_turn_def demo_endpoint_def pieces DEFAULT_RECEIVE_LIMIT_def)
      (simp_all add: demo_client_env_def, blast)
qed

lemma serve_needs_consent_witness:
  "en_fs (snd (serve demo_client_env (\<lambda>c _. (Inr (), c)) (DeviceId 222222222) (demo_serve_input True)
     (demo_endpoint [CM_Request M_Chat, CM_FileOffer demo_manifest] demo_log))) = demo_fs"
  using serve_needs_consent [of demo_client_env "demo_endpoint [CM_Request M_Chat, CM_FileOffer demo_manifest] demo_log"
      "demo_serve_input True" "\<lambda>c _. (Inr (), c)" "DeviceId 222222222"]
  by (simp add: demo_client_env_def demo_endpoint_def)

lemma serve_audits_first_witness:
  "fst (serve demo_client_env (\<lambda>c _. (Inr (), c)) (DeviceId 222222222) (demo_serve_input True)
     (demo_endpoint [CM_Request M_FileTransfer] (demo_log\<lparr>al_failed := True\<rparr>))) = Some (Inl (EE_Audit AE_Invalid))"
  using serve_audits_first [of demo_client_env "demo_endpoint [CM_Request M_FileTransfer] (demo_log\<lparr>al_failed := True\<rparr>)"
      M_FileTransfer "([], [])" "ep_device_id demo_remote" "DeviceId 222222222" "demo_serve_input True" "Inl AE_Invalid"
      "demo_log\<lparr>al_failed := True\<rparr>" "Inl AE_Invalid" "demo_log\<lparr>al_failed := True\<rparr>" AE_Invalid "\<lambda>c _. (Inr (), c)"]
  by (simp add: demo_client_env_def demo_endpoint_def audit_append_def)

lemma flood_ends_witness:
  "fst (operate demo_client_env demo_consent (DeviceId 222222222) 0 (replicate 100001 demo_turn)
     (demo_endpoint (replicate 100001 (CM_Chat [])) demo_log)) \<noteq> None"
proof -
  have "list_all (\<lambda>t. tu_now t \<le> 0 + 60 * 1000000000) (replicate 100001 demo_turn)"
    by (simp add: list_all_iff demo_turn_def)
  moreover have "100000 < length (replicate 100001 demo_turn)"
    by simp
  ultimately show ?thesis
    by (rule flood_ends)
qed

end
