(* ===== verification/Sensor_Settings.thy ===== *)
theory Sensor_Settings
  imports Sensor_Client Sensor_Render Sensor_Identity
begin

section \<open>sensor-desktop: platform, contacts and network settings\<close>

text \<open>
  What the desktop application reads before it connects: the platform selection, the peer typed by
  the user, the contact file that pins the keys of known devices, and the rendezvous server's address
  from the environment, the profile or the package. URI and IP address parsing are parameters, JSON
  too. The lemmas show that a saved key can neither be replaced nor duplicated, that the files survive
  failed saves, and which server addresses are accepted.
\<close>

subsection \<open>Platform\<close>

(* @src crates/sensor-desktop/src/platform.rs:4-7 Presentation *)
datatype presentation = Direct3D12 | OpenGl

(* @src crates/sensor-desktop/src/platform.rs:10-15 Platform *)
record platform =
  pf_os :: "u32 \<times> u32 \<times> u32"
  pf_presentation :: presentation
  pf_legacy_capture :: bool
  pf_unified_build :: bool

text \<open>The refusals, in the order of the code.\<close>

datatype platform_error = PE_ServicePack | PE_ModernRuntime | PE_Unsupported | PE_Renderer

(* @src crates/sensor-desktop/src/platform.rs:17-40 Platform::select *)
definition platform_select :: "u32 \<times> u32 \<times> u32 \<Rightarrow> bool \<Rightarrow> rstr option \<Rightarrow> platform_error + platform" where
  "platform_select os unified_build renderer_override =
     (case os of (major, minor, build) \<Rightarrow>
      res_bind
        (if major = 6 \<and> minor = 1 \<and> build \<ge> 7601 \<and> unified_build then Inr True
         else if major = 6 \<and> minor = 1 \<and> build < 7601 then Inl PE_ServicePack
         else if major = 6 \<and> minor = 1 then Inl PE_ModernRuntime
         else if major \<ge> 10 then Inr False
         else Inl PE_Unsupported) (\<lambda>legacy.
      let wanted = (case renderer_override of None \<Rightarrow> lit ''auto'' | Some r \<Rightarrow> r) in
      res_bind
        (if wanted = lit ''auto'' \<and> \<not> legacy then Inr Direct3D12
         else if wanted = lit ''auto'' \<or> wanted = lit ''glow'' then Inr OpenGl
         else Inl PE_Renderer) (\<lambda>p.
      Inr \<lparr>pf_os = os, pf_presentation = p, pf_legacy_capture = legacy, pf_unified_build = unified_build\<rparr>)))"

(* @src crates/sensor-desktop/src/platform.rs:41-46 Platform::renderer_name *)
definition renderer_name :: "platform \<Rightarrow> string" where
  "renderer_name p = (case pf_presentation p of
     Direct3D12 \<Rightarrow> ''native egui / wgpu DX12'' | OpenGl \<Rightarrow> ''native egui / OpenGL (graphics driver required)'')"

(* @src crates/sensor-desktop/src/platform.rs:47-53 Platform::capture_name *)
definition capture_name :: "platform \<Rightarrow> string" where
  "capture_name p = (if pf_legacy_capture p then ''GDI'' else ''DXGI Desktop Duplication'')"

text \<open>The legacy capture is chosen on Windows 7 SP1 with the unified build only, and there never Direct3D.\<close>

lemma platform_select_legacy:
  "platform_select os unified r = Inr p \<Longrightarrow>
     (pf_legacy_capture p \<longleftrightarrow> fst os = 6 \<and> fst (snd os) = 1 \<and> snd (snd os) \<ge> 7601 \<and> unified) \<and>
     (pf_legacy_capture p \<longrightarrow> pf_presentation p = OpenGl)"
  by (cases os) (auto simp: platform_select_def Let_def res_simps split: if_splits option.splits)

subsection \<open>Typed peers\<close>

text \<open>The application's errors are texts: its own, or the display of another error.\<close>

datatype text_error =
    TE string
  | TE_HexLength nat
  | TE_Io io_error
  | TE_Json
  | TE_Core core_error
  | TE_Render render_error
  | TE_Identity identity_error

(* @src crates/sensor-desktop/src/lib.rs:8-10 hex *)
definition desktop_hex :: "bytes \<Rightarrow> rstr" where
  "desktop_hex bs = hex_of_bytes bs"

(* @src crates/sensor-desktop/src/lib.rs:12-23 parse_hex *)
definition parse_hex :: "nat \<Rightarrow> rstr \<Rightarrow> text_error + bytes" where
  "parse_hex n value =
     (let value = str_trim value in
      if \<not> is_ascii value \<or> str_len value \<noteq> n * 2 then Inl (TE_HexLength (n * 2))
      else ok_or (hex_pairs value) (TE ''Invalid hexadecimal value.''))"

(* @src crates/sensor-desktop/src/lib.rs:25-35 peer *)
definition typed_peer :: "rstr \<Rightarrow> rstr \<Rightarrow> text_error + expected_peer" where
  "typed_peer did key =
     (let did = filter (\<lambda>c. \<not> is_whitespace c) did in
      res_bind (ok_or (parse_u32 did) (TE ''Enter the nine-digit device ID.'')) (\<lambda>n.
      res_bind (map_err TE_Core (device_id_try_from (word_of_nat n))) (\<lambda>d.
      res_bind (parse_hex 32 key) (\<lambda>k.
      Inr \<lparr>ep_device_id = d, ep_public_key = k\<rparr>))))"

subsection \<open>Contacts\<close>

(* @src crates/sensor-desktop/src/settings.rs:66-71 Contact *)
record contact =
  ct_name :: rstr
  ct_id :: rstr
  ct_key :: rstr
  ct_address :: rstr

text \<open>\<open>addr_ok\<close>: whether a text parses as \<open>std::net::SocketAddr\<close>.\<close>

(* @src crates/sensor-desktop/src/settings.rs:74-86 Contact::validate *)
definition contact_validate :: "(rstr \<Rightarrow> bool) \<Rightarrow> contact \<Rightarrow> text_error + unit" where
  "contact_validate addr_ok c =
     res_bind (typed_peer (ct_id c) (ct_key c)) (\<lambda>_.
     if ct_name c = [] \<or> str_len (ct_name c) > 128 \<or> list_ex is_control (ct_name c)
     then Inl (TE ''Contact name must contain 1-128 bytes without control characters.'')
     else if ct_address c \<noteq> [] \<and> \<not> addr_ok (ct_address c)
     then Inl (TE ''Use an IP address and port, or leave empty for Internet routing.'')
     else Inr ())"

(* @src crates/sensor-desktop/src/settings.rs:89-115 known_peer *)
definition known_peer :: "rstr \<Rightarrow> rstr \<Rightarrow> contact list \<Rightarrow> text_error + expected_peer" where
  "known_peer did key contacts =
     res_bind (typed_peer did (if str_trim key = [] then replicate 64 48 else key)) (\<lambda>parsed.
     case List.find (\<lambda>c. case typed_peer (ct_id c) (ct_key c) of
         Inl _ \<Rightarrow> False | Inr known \<Rightarrow> ep_device_id known = ep_device_id parsed) contacts of
       None \<Rightarrow> Inr parsed
     | Some c \<Rightarrow>
         res_bind (typed_peer (ct_id c) (ct_key c)) (\<lambda>known.
         if ep_public_key parsed \<noteq> zero_key \<and> ep_public_key parsed \<noteq> ep_public_key known
         then Inl (TE ''This device's key differs from its saved identity. Connection blocked.'')
         else Inr known))"

text \<open>The loop over the contacts; \<open>ids\<close> is the set of the IDs seen so far.\<close>

fun check_contacts :: "(rstr \<Rightarrow> bool) \<Rightarrow> device_id list \<Rightarrow> contact list \<Rightarrow> text_error + unit" where
  "check_contacts addr_ok ids [] = Inr ()"
| "check_contacts addr_ok ids (c # cs) =
     res_bind (contact_validate addr_ok c) (\<lambda>_.
     res_bind (typed_peer (ct_id c) (ct_key c)) (\<lambda>peer.
     if ep_public_key peer = zero_key
     then Inl (TE ''A trusted contact requires a verified, nonzero public key.'')
     else if ep_device_id peer \<in> set ids
     then Inl (TE ''Duplicate device IDs in the contact store are not allowed.'')
     else check_contacts addr_ok (ep_device_id peer # ids) cs))"

(* @src crates/sensor-desktop/src/settings.rs:135-151 validate_contacts *)
definition validate_contacts :: "(rstr \<Rightarrow> bool) \<Rightarrow> contact list \<Rightarrow> text_error + unit" where
  "validate_contacts addr_ok contacts =
     (if length contacts > 100 then Inl (TE ''Contact limit is 100.'')
      else check_contacts addr_ok [] contacts)"

(* @src crates/sensor-desktop/src/settings.rs:117-133 load *)
definition contacts_load ::
  "(rstr \<Rightarrow> bool) \<Rightarrow> contact list json \<Rightarrow> read_faults \<Rightarrow> bytes option \<Rightarrow> text_error + contact list" where
  "contacts_load addr_ok J f file =
     (case open_error f file of
        Some e \<Rightarrow> if e = IO_NotFound then Inr [] else Inl (TE_Io e)
      | None \<Rightarrow>
          res_bind (map_err TE_Io (read_limited f 65536 file)) (\<lambda>bytes.
          if length bytes > 65536 then Inl (TE ''Contact store exceeds its size limit.'')
          else res_bind (ok_or (jn_from J bytes) TE_Json) (\<lambda>contacts.
            res_bind (validate_contacts addr_ok contacts) (\<lambda>_. Inr contacts))))"

(* @src crates/sensor-desktop/src/settings.rs:153-166 save *)
definition contacts_save ::
  "(rstr \<Rightarrow> bool) \<Rightarrow> contact list json \<Rightarrow> save_faults \<Rightarrow> contact list \<Rightarrow> bytes option \<Rightarrow>
   (text_error + unit) \<times> bytes option" where
  "contacts_save addr_ok J f contacts file =
     (case validate_contacts addr_ok contacts of
        Inl e \<Rightarrow> (Inl e, file)
      | Inr _ \<Rightarrow>
          (case jn_to J contacts of
             None \<Rightarrow> (Inl TE_Json, file)
           | Some bytes \<Rightarrow>
               if length bytes > 65536 then (Inl (TE ''Contact store exceeds its size limit.''), file)
               else case replace_file f bytes file of (r, file') \<Rightarrow> (map_err TE_Io r, file')))"

subsection \<open>The server address\<close>

text \<open>
  \<open>http::Uri\<close>, as far as the program looks at it, and whether a text is an IP address of the loopback.
\<close>

record uri =
  ur_scheme :: "rstr option"
  ur_authority :: "rstr option"
  ur_host :: "rstr option"
  ur_path :: rstr
  ur_query :: "rstr option"

record uri_lib =
  ul_parse :: "rstr \<Rightarrow> uri option"
  ul_loopback :: "rstr \<Rightarrow> bool"

definition strip_prefix :: "rstr \<Rightarrow> rstr \<Rightarrow> rstr option" where
  "strip_prefix p s = (if take (length p) s = p then Some (drop (length p) s) else None)"

definition starts_with :: "rstr \<Rightarrow> rstr \<Rightarrow> bool" where
  "starts_with p s \<longleftrightarrow> take (length p) s = p"

definition ends_with :: "rstr \<Rightarrow> rstr \<Rightarrow> bool" where
  "ends_with p s \<longleftrightarrow> take (length p) (rev s) = rev p"

definition trim_matches :: "nat set \<Rightarrow> rstr \<Rightarrow> rstr" where
  "trim_matches cs s = rev (dropWhile (\<lambda>c. c \<in> cs) (rev (dropWhile (\<lambda>c. c \<in> cs) s)))"

definition trim_end_slashes :: "rstr \<Rightarrow> rstr" where
  "trim_end_slashes s = rev (dropWhile (\<lambda>c. c = 47) (rev s))"

(* @src crates/sensor-render/src/lib.rs:196-207 websocket_url, the scheme *)
definition websocket_scheme :: "rstr \<Rightarrow> render_error + rstr" where
  "websocket_scheme server =
     (let server = trim_end_slashes (str_trim server) in
      case strip_prefix (lit ''https://'') server of
        Some rest \<Rightarrow> Inr (lit ''wss://'' @ rest)
      | None \<Rightarrow>
          (case strip_prefix (lit ''http://'') server of
             Some rest \<Rightarrow> Inr (lit ''ws://'' @ rest)
           | None \<Rightarrow>
               if starts_with (lit ''wss://'') server \<or> starts_with (lit ''ws://'') server then Inr server
               else Inl (RE_Url (lit ''use https://, http://, wss://, or ws://''))))"

(* @src crates/sensor-render/src/lib.rs:195-233 websocket_url *)
definition websocket_url :: "uri_lib \<Rightarrow> rstr \<Rightarrow> render_error + rstr" where
  "websocket_url U server =
     res_bind (websocket_scheme server) (\<lambda>websocket.
     res_bind (ok_or (ul_parse U websocket) (RE_Url (lit ''invalid server URL''))) (\<lambda>uri.
     res_bind (ok_or (ur_host uri) (RE_Url (lit ''server URL has no host''))) (\<lambda>host.
     let loopback = (host = lit ''localhost'' \<or> ul_loopback U (trim_matches {91, 93} host)) in
     if (ur_scheme uri = Some (lit ''ws'') \<and> \<not> loopback) \<or>
        (case ur_authority uri of None \<Rightarrow> False | Some a \<Rightarrow> 64 \<in> set a) \<or>
        ur_query uri \<noteq> None \<or>
        ur_path uri \<notin> {[], lit ''/'', lit ''/ws''}
     then Inl (RE_Url (lit ''use a public HTTPS/WSS base URL; plain WS is restricted to loopback tests''))
     else if ends_with (lit ''/ws'') websocket then Inr websocket
     else Inr (websocket @ lit ''/ws''))))"

text \<open>The settings file holds the server's address.\<close>

(* @src crates/sensor-desktop/src/settings.rs:10-12 Network *)
record network =
  nw_server :: rstr

(* @src crates/sensor-desktop/src/settings.rs:31-47 load_network *)
definition load_network ::
  "uri_lib \<Rightarrow> network json \<Rightarrow> read_faults \<Rightarrow> bytes option \<Rightarrow> text_error + rstr option" where
  "load_network U J f file =
     (case open_error f file of
        Some e \<Rightarrow> if e = IO_NotFound then Inr None else Inl (TE_Io e)
      | None \<Rightarrow>
          res_bind (map_err TE_Io (read_limited f 4096 file)) (\<lambda>bytes.
          if length bytes > 4096 then Inl (TE ''Network settings exceed size limit'')
          else res_bind (ok_or (jn_from J bytes) TE_Json) (\<lambda>settings.
            res_bind (map_err TE_Render (websocket_url U (nw_server settings))) (\<lambda>_.
            Inr (Some (nw_server settings))))))"

(* @src crates/sensor-desktop/src/settings.rs:49-62 save_network *)
definition save_network ::
  "uri_lib \<Rightarrow> network json \<Rightarrow> save_faults \<Rightarrow> rstr \<Rightarrow> bytes option \<Rightarrow> (text_error + unit) \<times> bytes option" where
  "save_network U J f server file =
     (case websocket_url U server of
        Inl e \<Rightarrow> (Inl (TE_Render e), file)
      | Inr _ \<Rightarrow>
          (case jn_to J \<lparr>nw_server = str_trim server\<rparr> of
             None \<Rightarrow> (Inl TE_Json, file)
           | Some bytes \<Rightarrow> (case replace_file f bytes file of (r, file') \<Rightarrow> (map_err TE_Io r, file'))))"

(* @src crates/sensor-desktop/src/settings.rs:16-29 resolve_network *)
definition resolve_network ::
  "uri_lib \<Rightarrow> network json \<Rightarrow> rstr option \<Rightarrow> read_faults \<times> bytes option \<Rightarrow> read_faults \<times> bytes option \<Rightarrow>
   text_error + rstr option" where
  "resolve_network U J environment profile package =
     (case environment of
        Some server \<Rightarrow> res_bind (map_err TE_Render (websocket_url U server)) (\<lambda>_. Inr (Some server))
      | None \<Rightarrow>
          res_bind (load_network U J (fst profile) (snd profile)) (\<lambda>r.
          case r of Some server \<Rightarrow> Inr (Some server)
          | None \<Rightarrow> load_network U J (fst package) (snd package)))"

subsection \<open>Known devices keep their keys\<close>

text \<open>What the contacts say of a device: the key of the first contact with its ID.\<close>

fun saved_key :: "contact list \<Rightarrow> device_id \<Rightarrow> bytes option" where
  "saved_key [] d = None"
| "saved_key (c # cs) d =
     (case typed_peer (ct_id c) (ct_key c) of
        Inr p \<Rightarrow> if ep_device_id p = d then Some (ep_public_key p) else saved_key cs d
      | Inl _ \<Rightarrow> saved_key cs d)"

lemma find_saved_key:
  "(case List.find (\<lambda>c. case typed_peer (ct_id c) (ct_key c) of
       Inl _ \<Rightarrow> False | Inr known \<Rightarrow> ep_device_id known = d) cs of
     None \<Rightarrow> saved_key cs d = None
   | Some c \<Rightarrow> (\<exists>k. typed_peer (ct_id c) (ct_key c) = Inr \<lparr>ep_device_id = d, ep_public_key = k\<rparr> \<and>
       saved_key cs d = Some k))"
  by (induction cs) (auto split: sum.splits option.splits simp: expected_peer.equality)

lemma check_contacts_Inr:
  "check_contacts addr_ok ids cs = Inr u \<Longrightarrow>
     list_all (\<lambda>c. is_ok (contact_validate addr_ok c)) cs \<and>
     (\<exists>ps. map (\<lambda>c. typed_peer (ct_id c) (ct_key c)) cs = map Inr ps \<and>
        distinct (map ep_device_id ps) \<and> set (map ep_device_id ps) \<inter> set ids = {} \<and>
        zero_key \<notin> set (map ep_public_key ps))"
proof (induction addr_ok ids cs rule: check_contacts.induct)
  case (2 addr_ok ids c cs)
  then obtain p where p: "typed_peer (ct_id c) (ct_key c) = Inr p" "is_ok (contact_validate addr_ok c)"
    "ep_public_key p \<noteq> zero_key" "ep_device_id p \<notin> set ids"
    "check_contacts addr_ok (ep_device_id p # ids) cs = Inr u"
    by (auto simp: res_simps split: if_splits)
  obtain v where v: "contact_validate addr_ok c = Inr v"
    using p(2) by (auto simp: res_simps)
  from 2(1) [OF v p(1) p(3) p(4) p(5)] obtain ps where ps:
    "list_all (\<lambda>c. is_ok (contact_validate addr_ok c)) cs"
    "map (\<lambda>c. typed_peer (ct_id c) (ct_key c)) cs = map Inr ps" "distinct (map ep_device_id ps)"
    "set (map ep_device_id ps) \<inter> set (ep_device_id p # ids) = {}" "zero_key \<notin> set (map ep_public_key ps)"
    by blast
  then show ?case
    using p by (intro conjI exI [of _ "p # ps"]) auto
qed simp

lemma saved_key_contact:
  assumes "map (\<lambda>c. typed_peer (ct_id c) (ct_key c)) cs = map Inr ps" and "distinct (map ep_device_id ps)"
    and "c \<in> set cs" and "typed_peer (ct_id c) (ct_key c) = Inr p"
  shows "saved_key cs (ep_device_id p) = Some (ep_public_key p) \<and> p \<in> set ps"
  using assms
proof (induction cs arbitrary: ps)
  case (Cons c' cs)
  then obtain q qs where ps: "ps = q # qs" and q: "typed_peer (ct_id c') (ct_key c') = Inr q"
    and tl: "map (\<lambda>c. typed_peer (ct_id c) (ct_key c)) cs = map Inr qs"
    by (cases ps) auto
  show ?case
  proof (cases "c \<in> set cs")
    case True
    have "saved_key cs (ep_device_id p) = Some (ep_public_key p) \<and> p \<in> set qs"
      using Cons.IH [OF tl _ True Cons.prems(4)] Cons.prems(2) ps by simp
    then show ?thesis
      using Cons.prems(2) ps q by (auto simp: image_iff)
  qed (use Cons.prems ps q in auto)
qed simp

text \<open>C18: A saved key is pinned. When the contacts were loaded or accepted for saving and hold a device,
  asking to connect to that device yields exactly its saved key, which is not zero, however the ID and
  the key were typed; a different key that was typed is refused.\<close>

theorem saved_key_pinned:
  assumes "validate_contacts addr_ok cs = Inr ()" and "c \<in> set cs" and "typed_peer (ct_id c) (ct_key c) = Inr saved"
    and "known_peer did key cs = Inr p" and "ep_device_id p = ep_device_id saved"
  shows "p = saved \<and> ep_public_key p \<noteq> zero_key \<and>
    (\<forall>k. parse_hex 32 key = Inr k \<longrightarrow> k = zero_key \<or> k = ep_public_key saved)"
proof -
  obtain ps where ps: "map (\<lambda>c. typed_peer (ct_id c) (ct_key c)) cs = map Inr ps" "distinct (map ep_device_id ps)"
    "zero_key \<notin> set (map ep_public_key ps)"
    using assms(1) check_contacts_Inr [of addr_ok "[]" cs "()"] by (auto simp: validate_contacts_def split: if_splits)
  have sk: "saved_key cs (ep_device_id saved) = Some (ep_public_key saved)" and mem: "saved \<in> set ps"
    using saved_key_contact [OF ps(1,2) assms(2,3)] by auto
  obtain parsed where parsed: "typed_peer did (if str_trim key = [] then replicate 64 48 else key) = Inr parsed"
    using assms(4) by (auto simp: known_peer_def res_simps)
  define found where "found = List.find (\<lambda>c. case typed_peer (ct_id c) (ct_key c) of
         Inl _ \<Rightarrow> False | Inr known \<Rightarrow> ep_device_id known = ep_device_id parsed) cs"
  have f: "case found of None \<Rightarrow> saved_key cs (ep_device_id parsed) = None
     | Some c \<Rightarrow> \<exists>k. typed_peer (ct_id c) (ct_key c) = Inr \<lparr>ep_device_id = ep_device_id parsed, ep_public_key = k\<rparr> \<and>
       saved_key cs (ep_device_id parsed) = Some k"
    unfolding found_def by (rule find_saved_key)
  have res: "(case found of None \<Rightarrow> Inr parsed
     | Some c \<Rightarrow> res_bind (typed_peer (ct_id c) (ct_key c)) (\<lambda>known.
         if ep_public_key parsed \<noteq> zero_key \<and> ep_public_key parsed \<noteq> ep_public_key known
         then Inl (TE ''This device's key differs from its saved identity. Connection blocked.'')
         else Inr known)) = Inr p"
    using assms(4) parsed by (simp add: known_peer_def found_def)
  have p: "p = saved \<and> (ep_public_key parsed = zero_key \<or> ep_public_key parsed = ep_public_key saved)"
    using f res sk assms(5) by (auto split: option.splits if_splits)
  have "ep_public_key parsed = k" if "parse_hex 32 key = Inr k" for k
  proof -
    have "str_trim key \<noteq> []"
      using that by (auto simp: parse_hex_def Let_def)
    then show ?thesis
      using parsed that by (auto simp: typed_peer_def Let_def res_simps)
  qed
  moreover have "ep_public_key saved \<noteq> zero_key"
    using ps(3) mem by force
  ultimately show ?thesis
    using p by auto
qed

subsection \<open>The stores\<close>

lemma contacts_save_Inr:
  "contacts_save addr_ok J f cs file = (Inr u, file') \<Longrightarrow>
     validate_contacts addr_ok cs = Inr () \<and> (\<exists>bs. jn_to J cs = Some bs \<and> length bs \<le> 65536 \<and> file' = Some bs)"
  by (auto simp: contacts_save_def res_simps dest: replace_file_Inr split: sum.splits option.splits if_splits prod.splits)

lemma contacts_save_Inl: "contacts_save addr_ok J f cs file = (Inl e, file') \<Longrightarrow> file' = file"
  by (auto simp: contacts_save_def res_simps dest: replace_file_Inl split: sum.splits option.splits if_splits prod.splits)

lemma contacts_durable:
  "durable_store (contacts_save addr_ok J) (contacts_load addr_ok J no_read_faults) (\<lambda>_. json_ok J)"
proof
  show "contacts_load addr_ok J no_read_faults s' = Inr v"
    if "json_ok J" "contacts_save addr_ok J f v s = (Inr u, s')" for v f s u s'
    using contacts_save_Inr [OF that(2)] json_okD [OF that(1)] by (auto simp: contacts_load_def)
  show "s' = s" if "contacts_save addr_ok J f v s = (Inl e, s')" for v f s e s'
    using that by (rule contacts_save_Inl)
qed

interpretation contact_store: durable_store "contacts_save addr_ok J" "contacts_load addr_ok J no_read_faults"
  "\<lambda>_. json_ok J"
  by (rule contacts_durable)

text \<open>Contacts survive. After any sequence of attempts to save, with invalid lists and failures at any
  step, loading gives exactly the last list that was saved successfully, or what was there before.\<close>

theorem contacts_durable_saves:
  assumes "json_ok J"
  shows "contacts_load addr_ok J no_read_faults (store_run (contacts_save addr_ok J) file ops) =
    (case last_saved (contacts_save addr_ok J) file ops of
       None \<Rightarrow> contacts_load addr_ok J no_read_faults file | Some cs \<Rightarrow> Inr cs)"
  using contact_store.load_last_saved [where J = J and ops = ops] assms by (simp add: list_all_iff)

subsection \<open>Only encrypted servers\<close>

lemma dropWhile_stops: "dropWhile P xs = [] \<or> \<not> P (hd (dropWhile P xs))"
  by (induction xs) auto

lemma dropWhile_trimmed: "dropWhile P (rev (dropWhile P (rev (dropWhile P s)))) = rev (dropWhile P (rev (dropWhile P s)))"
  (is "dropWhile P (rev (dropWhile P (rev ?a))) = _")
proof (cases "rev (dropWhile P (rev ?a)) = []")
  case False
  have "rev (dropWhile P (rev ?a)) @ rev (takeWhile P (rev ?a)) = ?a"
    by (metis rev_append takeWhile_dropWhile_id rev_rev_ident)
  then have "hd (rev (dropWhile P (rev ?a))) = hd ?a" "?a \<noteq> []"
    using False by (metis hd_append2, fastforce)
  then have "\<not> P (hd (rev (dropWhile P (rev ?a))))"
    using dropWhile_stops [of P s] by metis
  then show ?thesis
    using False by (cases "rev (dropWhile P (rev ?a))") simp_all
qed (metis dropWhile.simps(1))

lemma str_trim_trim [simp]: "str_trim (str_trim s) = str_trim s"
  by (simp add: str_trim_def dropWhile_trimmed dropWhile_idem)

lemma websocket_url_trim [simp]: "websocket_url U (str_trim s) = websocket_url U s"
  by (simp add: websocket_url_def websocket_scheme_def)

text \<open>A saved server is loaded as it was typed, without the surrounding blanks.\<close>

lemma save_network_load:
  assumes "json_ok J" and "save_network U J f server file = (Inr u, file')"
    and "\<And>b. jn_to J \<lparr>nw_server = str_trim server\<rparr> = Some b \<Longrightarrow> length b \<le> 4096"
  shows "load_network U J no_read_faults file' = Inr (Some (str_trim server))"
proof -
  obtain v b where "websocket_url U server = Inr v" "jn_to J \<lparr>nw_server = str_trim server\<rparr> = Some b" "file' = Some b"
    using assms(2) by (auto simp: save_network_def res_simps dest: replace_file_Inr
        split: sum.splits option.splits prod.splits)
  then show ?thesis
    using assms(1,3) json_okD by (fastforce simp: load_network_def)
qed

text \<open>What the program relies on in the URI parser: the scheme it reports is the one in the text.\<close>

definition uri_ok :: "uri_lib \<Rightarrow> bool" where
  "uri_ok U \<longleftrightarrow> (\<forall>s u. ul_parse U s = Some u \<longrightarrow> starts_with (lit ''ws://'') s \<longrightarrow> ur_scheme u = Some (lit ''ws''))"

text \<open>The host that is connected to.\<close>

definition local_host :: "uri_lib \<Rightarrow> rstr \<Rightarrow> bool" where
  "local_host U s \<longleftrightarrow> (case ul_parse U s of None \<Rightarrow> False | Some u \<Rightarrow>
     (case ur_host u of None \<Rightarrow> False
      | Some h \<Rightarrow> h = lit ''localhost'' \<or> ul_loopback U (trim_matches {91, 93} h)))"

lemma starts_with_iff: "starts_with p s \<longleftrightarrow> (\<exists>t. s = p @ t)"
  by (auto simp: starts_with_def intro: exI [of _ "drop (length p) s"]) (metis append_take_drop_id)

text \<open>The rendezvous server is reached over TLS. An address that is accepted, in whichever of the four
  forms it was written, becomes a WebSocket URL that ends in /ws and starts with wss://, unless its host
  is the local machine.\<close>

theorem websocket_url_encrypted:
  assumes "uri_ok U" and "websocket_url U server = Inr url"
  shows "ends_with (lit ''/ws'') url \<and>
    (starts_with (lit ''wss://'') url \<or>
     (\<exists>base. starts_with (lit ''ws://'') base \<and> local_host U base \<and> url \<in> {base, base @ lit ''/ws''}))"
proof -
  obtain ws where ws: "websocket_scheme server = Inr ws"
    using assms(2) by (cases "websocket_scheme server") (auto simp: websocket_url_def)
  obtain u where u: "ul_parse U ws = Some u"
    using assms(2) ws by (cases "ul_parse U ws") (auto simp: websocket_url_def)
  obtain h where h: "ur_host u = Some h"
    using assms(2) ws u by (cases "ur_host u") (auto simp: websocket_url_def)
  have ok: "ur_scheme u \<noteq> Some (lit ''ws'') \<or> h = lit ''localhost'' \<or> ul_loopback U (trim_matches {91, 93} h)"
    and url: "url = (if ends_with (lit ''/ws'') ws then ws else ws @ lit ''/ws'')"
    using assms(2) ws u h unfolding websocket_url_def Let_def by (simp_all split: if_splits)
  have s: "starts_with (lit ''wss://'') ws \<or> starts_with (lit ''ws://'') ws"
    using ws by (auto simp: websocket_scheme_def Let_def starts_with_iff split: option.splits if_splits)
  have e: "ends_with (lit ''/ws'') url"
    using url by (auto simp: ends_with_def)
  have w: "starts_with (lit ''wss://'') url" if "starts_with (lit ''wss://'') ws"
    using that url by (auto simp: starts_with_iff)
  show ?thesis
  proof (cases "starts_with (lit ''wss://'') ws")
    case False
    then have "starts_with (lit ''ws://'') ws" "local_host U ws"
      using s assms(1) u h ok by (auto simp: uri_ok_def local_host_def)
    then show ?thesis
      using e url by auto
  qed (use e w in simp)
qed

subsection \<open>Concrete settings\<close>

definition demo_contact :: contact where
  "demo_contact = \<lparr>ct_name = lit ''pc'', ct_id = device_id_display (DeviceId 123456789),
     ct_key = hex_of_bytes (replicate 32 171), ct_address = []\<rparr>"

lemma demo_typed:
  "typed_peer (device_id_display (DeviceId 123456789)) (hex_of_bytes (replicate 32 171)) =
     Inr \<lparr>ep_device_id = DeviceId 123456789, ep_public_key = replicate 32 171\<rparr>"
proof -
  have "device_id_wf (DeviceId 123456789)"
    by (simp add: device_id_wf_def)
  then show ?thesis
    using device_id_display_parse [of "DeviceId 123456789"]
    by (simp add: typed_peer_def parse_hex_def device_id_try_from_def device_id_new_def
        MIN_DEVICE_ID_def DEVICE_ID_SPAN_def word_less_nat_alt word_le_nat_alt)
qed

lemma demo_validate: "validate_contacts addr_ok [demo_contact] = Inr ()"
  by (simp add: validate_contacts_def contact_validate_def demo_contact_def demo_typed zero_key_def
      str_len_ascii is_ascii_def lit_def is_control_def)

lemma hex_of_zeros: "hex_of_bytes (replicate n 0) = replicate (2 * n) 48"
  by (induction n) (simp_all add: hex_of_bytes_def hex_char_def)

lemma saved_key_pinned_witness:
  "\<exists>p. known_peer (device_id_display (DeviceId 123456789)) [] [demo_contact] = Inr p \<and>
     p = \<lparr>ep_device_id = DeviceId 123456789, ep_public_key = replicate 32 171\<rparr> \<and> ep_public_key p \<noteq> zero_key"
proof -
  have z: "typed_peer (device_id_display (DeviceId 123456789)) (replicate 64 48) =
     Inr \<lparr>ep_device_id = DeviceId 123456789, ep_public_key = replicate 32 0\<rparr>"
  proof -
    have "replicate 64 48 = hex_of_bytes (replicate 32 0)"
      using hex_of_zeros [of 32] by simp
    moreover have "device_id_wf (DeviceId 123456789)"
      by (simp add: device_id_wf_def)
    ultimately show ?thesis
      using device_id_display_parse [of "DeviceId 123456789"]
      by (simp add: typed_peer_def parse_hex_def device_id_try_from_def device_id_new_def
          MIN_DEVICE_ID_def DEVICE_ID_SPAN_def word_less_nat_alt word_le_nat_alt)
  qed
  have t: "typed_peer (ct_id demo_contact) (ct_key demo_contact) =
      Inr \<lparr>ep_device_id = DeviceId 123456789, ep_public_key = replicate 32 171\<rparr>"
    by (simp add: demo_contact_def demo_typed)
  have k: "known_peer (device_id_display (DeviceId 123456789)) [] [demo_contact] =
      Inr \<lparr>ep_device_id = DeviceId 123456789, ep_public_key = replicate 32 171\<rparr>"
    by (simp add: known_peer_def str_trim_def z t zero_key_def)
  show ?thesis
    using saved_key_pinned [OF demo_validate _ t k] k by simp
qed

definition demo_contacts_json :: "contact list json" where
  "demo_contacts_json = json_of_codec (codec_only [demo_contact] [1, 2])"

lemma contacts_durable_saves_witness:
  "contacts_load (\<lambda>_. True) demo_contacts_json no_read_faults
     (store_run (contacts_save (\<lambda>_. True) demo_contacts_json) None
        [(no_save_faults, [demo_contact]), (no_save_faults, [demo_contact, demo_contact])]) = Inr [demo_contact]"
proof -
  have ok: "json_ok demo_contacts_json"
    by (simp add: demo_contacts_json_def)
  have s: "contacts_save (\<lambda>_. True) demo_contacts_json no_save_faults [demo_contact] None = (Inr (), Some [1, 2])"
    by (simp add: contacts_save_def demo_validate demo_contacts_json_def json_of_codec_def codec_only_def)
  have "\<exists>e. validate_contacts (\<lambda>_. True) [demo_contact, demo_contact] = Inl e"
    using demo_validate [of "\<lambda>_. True"] by (auto simp: validate_contacts_def res_simps split: if_splits)
  then obtain e where d: "contacts_save (\<lambda>_. True) demo_contacts_json no_save_faults [demo_contact, demo_contact] (Some [1, 2]) =
      (Inl e, Some [1, 2])"
    by (auto simp: contacts_save_def)
  show ?thesis
    using contacts_durable_saves [OF ok, of "\<lambda>_. True" None
        "[(no_save_faults, [demo_contact]), (no_save_faults, [demo_contact, demo_contact])]"] s d by simp
qed

definition demo_uri_lib :: uri_lib where
  "demo_uri_lib =
     \<lparr>ul_parse = (\<lambda>s. if starts_with (lit ''wss://'') s
          then Some \<lparr>ur_scheme = Some (lit ''wss''), ur_authority = Some (drop 6 s), ur_host = Some (drop 6 s),
            ur_path = lit ''/'', ur_query = None\<rparr> else None),
      ul_loopback = (\<lambda>_. False)\<rparr>"

lemma websocket_url_encrypted_witness:
  "websocket_url demo_uri_lib (lit '' https://sensor.example/'') = Inr (lit ''wss://sensor.example/ws'') \<and>
   starts_with (lit ''wss://'') (lit ''wss://sensor.example/ws'')"
proof -
  have u: "websocket_url demo_uri_lib (lit '' https://sensor.example/'') = Inr (lit ''wss://sensor.example/ws'')"
    by (simp add: websocket_url_def websocket_scheme_def str_trim_def trim_end_slashes_def strip_prefix_def
        demo_uri_lib_def starts_with_def ends_with_def lit_def is_whitespace_def)
  have "uri_ok demo_uri_lib"
    by (auto simp: uri_ok_def demo_uri_lib_def starts_with_iff lit_def)
  from websocket_url_encrypted [OF this u] u show ?thesis
    by (auto simp: starts_with_def lit_def)
qed

end
