(* ===== verification/Sensor_Unattended.thy ===== *)
theory Sensor_Unattended
  imports Sensor_Settings
begin

section \<open>sensor-desktop: the unattended-access grant\<close>

text \<open>
  A device may let one verified peer in without asking. The grant names the peer's ID and key and
  expires after at most thirty days; it is kept in one file, protected by the platform for this
  device's own key. JSON and the protector are parameters. The lemmas show that the authority a file
  gives is that of the last successful save, and to whom, for what and for how long.
\<close>

subsection \<open>The grant\<close>

(* @src crates/sensor-desktop/src/unattended.rs:12-12 CONTEXT *)
definition GRANT_CONTEXT :: bytes where
  "GRANT_CONTEXT = ascii_bytes ''SENSOR/unattended-grant/v1/''"

(* @src crates/sensor-desktop/src/unattended.rs:13-13 MAX_BYTES *)
definition GRANT_MAX_BYTES :: nat where
  "GRANT_MAX_BYTES = 16384"

(* @src crates/sensor-desktop/src/unattended.rs:14-14 MAX_LIFETIME *)
definition MAX_LIFETIME :: nat where
  "MAX_LIFETIME = 30 * 86400"

(* @src crates/sensor-desktop/src/unattended.rs:16-23 Grant *)
record grant =
  gr_device_id :: device_id
  gr_public_key :: bytes
  gr_issued :: nat
  gr_expires :: nat

(* @src crates/sensor-desktop/src/unattended.rs:25-35 Grant::new *)
definition grant_new :: "expected_peer \<Rightarrow> nat \<Rightarrow> text_error + grant" where
  "grant_new peer now =
     (if ep_public_key peer = zero_key
      then Inl (TE ''Unattended access requires a verified nonzero public key'')
      else res_bind (ok_or (checked_add64 now MAX_LIFETIME) (TE ''Invalid grant date'')) (\<lambda>expires.
        Inr \<lparr>gr_device_id = ep_device_id peer, gr_public_key = ep_public_key peer,
             gr_issued = now, gr_expires = expires\<rparr>))"

(* @src crates/sensor-desktop/src/unattended.rs:44-48 Grant::valid *)
definition grant_valid :: "grant \<Rightarrow> bool" where
  "grant_valid g \<longleftrightarrow>
     gr_public_key g \<noteq> zero_key \<and> gr_expires g > gr_issued g \<and> gr_expires g - gr_issued g \<le> MAX_LIFETIME"

(* @src crates/sensor-desktop/src/unattended.rs:36-43 Grant::permits *)
definition grant_permits :: "grant \<Rightarrow> expected_peer \<Rightarrow> mode \<Rightarrow> nat \<Rightarrow> bool" where
  "grant_permits g peer m now \<longleftrightarrow>
     grant_valid g \<and> gr_device_id g = ep_device_id peer \<and> gr_public_key g = ep_public_key peer \<and>
     gr_issued g \<le> now \<and> now < gr_expires g \<and> m \<in> {M_ScreenView, M_RemoteControl}"

subsection \<open>The file\<close>

(* @src crates/sensor-desktop/src/unattended.rs:50-78 load *)
definition grant_load ::
  "grant option json \<Rightarrow> key_protector \<Rightarrow> bytes \<Rightarrow> read_faults \<Rightarrow> bytes option \<Rightarrow> text_error + grant option" where
  "grant_load J K local_key f file =
     (case open_error f file of
        Some e \<Rightarrow> if e = IO_NotFound then Inr None else Inl (TE_Io e)
      | None \<Rightarrow>
          res_bind (map_err TE_Io (read_limited f GRANT_MAX_BYTES file)) (\<lambda>bytes.
          if length bytes > GRANT_MAX_BYTES then Inl (TE ''Unattended settings exceed the size limit'')
          else res_bind (map_err (\<lambda>_. TE ''Unattended authority could not be authenticated; access is disabled'')
            (pt_unprotect K bytes (GRANT_CONTEXT @ local_key))) (\<lambda>data.
          if length data > GRANT_MAX_BYTES then Inl (TE ''Unattended grant is malformed'')
          else res_bind (ok_or (jn_from J data) TE_Json) (\<lambda>grant.
          if \<not> pred_option grant_valid grant then Inl (TE ''Invalid unattended grant'')
          else Inr grant))))"

(* @src crates/sensor-desktop/src/unattended.rs:79-101 save *)
definition grant_save ::
  "grant option json \<Rightarrow> key_protector \<Rightarrow> bytes \<Rightarrow> save_faults \<Rightarrow> grant option \<Rightarrow> bytes option \<Rightarrow>
   (text_error + unit) \<times> bytes option" where
  "grant_save J K local_key f grant file =
     (if \<not> pred_option grant_valid grant then (Inl (TE ''Invalid unattended grant''), file)
      else case jn_to J grant of
        None \<Rightarrow> (Inl TE_Json, file)
      | Some data \<Rightarrow>
          (case pt_protect K data (GRANT_CONTEXT @ local_key) of
             Inl e \<Rightarrow> (Inl (TE_Identity e), file)
           | Inr protected \<Rightarrow>
               if length protected > GRANT_MAX_BYTES
               then (Inl (TE ''Protected grant exceeds the size limit''), file)
               else case replace_file f protected file of (r, file') \<Rightarrow> (map_err TE_Io r, file')))"

subsection \<open>The authority is that of the last save\<close>

lemma grant_new_valid: "grant_new peer now = Inr g \<Longrightarrow> grant_valid g"
  by (auto simp: grant_new_def grant_valid_def checked_add64_Some_iff MAX_LIFETIME_def res_simps split: if_splits)

lemma grant_save_Inr:
  "grant_save J K k f g file = (Inr u, file') \<Longrightarrow>
     pred_option grant_valid g \<and>
     (\<exists>data c. jn_to J g = Some data \<and> pt_protect K data (GRANT_CONTEXT @ k) = Inr c \<and>
        length c \<le> GRANT_MAX_BYTES \<and> file' = Some c)"
  by (auto simp: grant_save_def res_simps dest: replace_file_Inr split: sum.splits option.splits if_splits prod.splits)

lemma grant_save_Inl: "grant_save J K k f g file = (Inl e, file') \<Longrightarrow> file' = file"
  by (auto simp: grant_save_def res_simps dest: replace_file_Inl split: sum.splits option.splits if_splits prod.splits)

text \<open>A grant's JSON text is shorter than the bound, and so it is read again.\<close>

definition grant_env_ok :: "grant option json \<Rightarrow> key_protector \<Rightarrow> bool" where
  "grant_env_ok J K \<longleftrightarrow> json_ok J \<and> protector_ok K \<and>
     (\<forall>g data. jn_to J g = Some data \<longrightarrow> length data \<le> GRANT_MAX_BYTES)"

lemma grant_save_load:
  assumes "grant_env_ok J K" and "grant_save J K k f g file = (Inr u, file')"
  shows "grant_load J K k no_read_faults file' = Inr g"
proof -
  obtain data c where c: "jn_to J g = Some data" "pt_protect K data (GRANT_CONTEXT @ k) = Inr c"
    "length c \<le> GRANT_MAX_BYTES" "file' = Some c" "pred_option grant_valid g"
    using grant_save_Inr [OF assms(2)] by auto
  moreover have "jn_from J data = Some g" "pt_unprotect K c (GRANT_CONTEXT @ k) = Inr data" "length data \<le> GRANT_MAX_BYTES"
    using assms(1) c json_okD [OF _ c(1)] protector_okD(1) [OF _ c(2)] by (auto simp: grant_env_ok_def)
  ultimately show ?thesis
    by (simp add: grant_load_def)
qed

lemma grant_durable:
  "durable_store (grant_save J K k) (grant_load J K k no_read_faults) (\<lambda>_. grant_env_ok J K)"
proof
  show "grant_load J K k no_read_faults s' = Inr v"
    if "grant_env_ok J K" "grant_save J K k f v s = (Inr u, s')" for v f s u s'
    using that by (rule grant_save_load)
  show "s' = s" if "grant_save J K k f v s = (Inl e, s')" for f v s e s'
    using that by (rule grant_save_Inl)
qed

interpretation grant_store: durable_store "grant_save J K k" "grant_load J K k no_read_faults" "\<lambda>_. grant_env_ok J K"
  by (rule grant_durable)

text \<open>Every file that the program leaves is one that a successful save wrote.\<close>

lemma store_run_written:
  "store_run (grant_save J K k) None ops = None \<or>
   (\<exists>data. pt_protect K data (GRANT_CONTEXT @ k) = Inr (the (store_run (grant_save J K k) None ops)))"
proof -
  have "file = None \<or> (\<exists>data. pt_protect K data (GRANT_CONTEXT @ k) = Inr (the file)) \<Longrightarrow>
    store_run (grant_save J K k) file ops = None \<or>
    (\<exists>data. pt_protect K data (GRANT_CONTEXT @ k) = Inr (the (store_run (grant_save J K k) file ops)))" for "file"
  proof (induction ops arbitrary: "file")
    case (Cons op ops)
    obtain f g where op: "op = (f, g)"
      by fastforce
    show ?case
    proof (cases "grant_save J K k f g file")
      case (Pair r s)
      have "s = None \<or> (\<exists>data. pt_protect K data (GRANT_CONTEXT @ k) = Inr (the s))"
        using Pair Cons.prems grant_save_Inr [of J K k f g "file"] grant_save_Inl [of J K k f g "file"]
        by (cases r) fastforce+
      then show ?thesis
        using Cons.IH op Pair by simp
    qed
  qed simp
  then show ?thesis
    by blast
qed

lemma grant_load_other_key:
  assumes "grant_env_ok J K" and "grant_load J K k' no_read_faults (store_run (grant_save J K k) None ops) = Inr (Some g)"
  shows "k' = k"
proof -
  obtain c where c: "store_run (grant_save J K k) None ops = Some c"
    using assms(2) by (cases "store_run (grant_save J K k) None ops") (auto simp: grant_load_def)
  then obtain data where data: "pt_protect K data (GRANT_CONTEXT @ k) = Inr c"
    using store_run_written [of J K k ops] by auto
  obtain p where "pt_unprotect K c (GRANT_CONTEXT @ k') = Inr p"
    using assms(2) c by (auto simp: grant_load_def res_simps split: if_splits)
  then have "GRANT_CONTEXT @ k' = GRANT_CONTEXT @ k"
    using protector_okD(3) [OF _ data] assms(1) by (simp add: grant_env_ok_def)
  then show ?thesis
    by simp
qed

text \<open>C19: Unattended access is narrow and revocable. Whoever is let in by the stored grant, after any
  history of grants, revocations and failed writes, holds exactly the device ID and the key of the last
  grant that was saved on this device, with nothing saved after it; is let in to view or control the
  screen only; and at a time less than thirty days after the grant was issued.\<close>

theorem unattended_scoped:
  assumes "grant_env_ok J K"
    and "grant_load J K k' no_read_faults (store_run (grant_save J K k) None ops) = Inr (Some g)"
    and "grant_permits g peer m now"
  shows "k' = k \<and> last_saved (grant_save J K k) None ops = Some (Some g) \<and>
    peer = \<lparr>ep_device_id = gr_device_id g, ep_public_key = gr_public_key g\<rparr> \<and> ep_public_key peer \<noteq> zero_key \<and>
    mode_permissions m \<in> {mode_permissions M_ScreenView, mode_permissions M_RemoteControl} \<and>
    gr_issued g \<le> now \<and> now < gr_issued g + MAX_LIFETIME"
proof -
  have k: "k' = k"
    using grant_load_other_key [OF assms(1,2)] .
  have "(case last_saved (grant_save J K k) None ops of None \<Rightarrow> Inr None | Some v \<Rightarrow> Inr v) = (Inr (Some g) :: text_error + grant option)"
    using grant_store.load_last_saved [where J = J and K = K and k = k and s = None and ops = ops] assms(1,2) k
    by (simp add: list_all_iff grant_load_def split: option.splits)
  then have "last_saved (grant_save J K k) None ops = Some (Some g)"
    by (simp split: option.splits)
  then show ?thesis
    using assms(3) k by (cases peer) (auto simp: grant_permits_def grant_valid_def)
qed

text \<open>A revocation takes effect with the save, whatever was granted before.\<close>

lemma revoked_denies:
  assumes "grant_env_ok J K" and "grant_save J K k f None file = (Inr (), file')"
  shows "grant_load J K k no_read_faults file' = Inr None"
  using grant_save_load [OF assms] .

subsection \<open>A concrete grant\<close>

definition demo_grant :: grant where
  "demo_grant = \<lparr>gr_device_id = DeviceId 123456789, gr_public_key = replicate 32 1, gr_issued = 100, gr_expires = 2592100\<rparr>"

definition demo_grant_json :: "grant option json" where
  "demo_grant_json = json_of_codec (codec_only (Some demo_grant) [1, 2])"

lemma unattended_scoped_witness:
  "grant_permits demo_grant \<lparr>ep_device_id = DeviceId 123456789, ep_public_key = replicate 32 1\<rparr> M_RemoteControl 101 \<and>
   last_saved (grant_save demo_grant_json demo_protector [3]) None [(no_save_faults, Some demo_grant)] = Some (Some demo_grant)"
proof -
  have ok: "grant_env_ok demo_grant_json demo_protector"
    by (auto simp: grant_env_ok_def demo_grant_json_def demo_protector_ok json_of_codec_def codec_only_def
        json_ok_def GRANT_MAX_BYTES_def split: if_splits)
  have v: "grant_valid demo_grant"
    by (simp add: grant_valid_def demo_grant_def zero_key_def MAX_LIFETIME_def)
  have p: "grant_permits demo_grant \<lparr>ep_device_id = DeviceId 123456789, ep_public_key = replicate 32 1\<rparr> M_RemoteControl 101"
    using v by (simp add: grant_permits_def demo_grant_def)
  have s: "\<exists>c. grant_save demo_grant_json demo_protector [3] no_save_faults (Some demo_grant) None = (Inr (), Some c)"
    using v by (simp add: grant_save_def demo_grant_json_def json_of_codec_def codec_only_def demo_protector_def
        GRANT_MAX_BYTES_def GRANT_CONTEXT_def ascii_bytes_def)
  then obtain c where c: "grant_save demo_grant_json demo_protector [3] no_save_faults (Some demo_grant) None = (Inr (), Some c)"
    by blast
  have "grant_load demo_grant_json demo_protector [3] no_read_faults
      (store_run (grant_save demo_grant_json demo_protector [3]) None [(no_save_faults, Some demo_grant)]) = Inr (Some demo_grant)"
    using grant_save_load [OF ok c] c by simp
  from unattended_scoped [OF ok this p] p show ?thesis
    by simp
qed

end
