(* ===== verification/Sensor_Updates.thy ===== *)
theory Sensor_Updates
  imports Sensor_Unattended
begin

section \<open>sensor-desktop: publisher-signed updates\<close>

text \<open>
  An update is a release manifest signed by the publisher, and an installer that the manifest names by
  size and hash. The installer is copied into a fresh staging directory, the copy is hashed, and only
  a copy with the signed hash gets an executable name. JSON and the cryptography are parameters; a
  source is read in pieces of any sizes and any call may fail. The lemmas show which manifests are
  accepted, that nothing else is ever published, and that a failure leaves the staging root as it was.
\<close>

subsection \<open>Releases\<close>

(* @src crates/sensor-desktop/src/updates.rs:12-12 DOMAIN *)
definition UPDATE_DOMAIN :: bytes where
  "UPDATE_DOMAIN = ascii_bytes ''SENSOR/publisher-update/v1'' @ [0]"

(* @src crates/sensor-desktop/src/updates.rs:13-13 MAX_MANIFEST *)
definition MAX_MANIFEST :: nat where
  "MAX_MANIFEST = 16 * 1024"

(* @src crates/sensor-desktop/src/updates.rs:14-14 MAX_INSTALLER *)
definition MAX_INSTALLER :: nat where
  "MAX_INSTALLER = 256 * 1024 * 1024"

(* @src crates/sensor-desktop/src/updates.rs:15-15 TARGET *)
definition TARGET :: rstr where
  "TARGET = lit ''x86_64-pc-windows-msvc''"

text \<open>A \<open>[u32; 3]\<close>, compared as arrays are.\<close>

type_synonym release_version = "nat \<times> nat \<times> nat"

fun version_le :: "release_version \<Rightarrow> release_version \<Rightarrow> bool" where
  "version_le (a, b, c) (a', b', c') \<longleftrightarrow> a < a' \<or> a = a' \<and> (b < b' \<or> b = b' \<and> c \<le> c')"

(* @src crates/sensor-desktop/src/updates.rs:17-28 Release *)
record release =
  rs_schema :: nat
  rs_product :: rstr
  rs_target :: rstr
  rs_version :: release_version
  rs_issued :: nat
  rs_expires :: nat
  rs_installer_bytes :: nat
  rs_installer_sha256 :: bytes

(* @src crates/sensor-desktop/src/updates.rs:29-34 Envelope *)
record envelope =
  ev_payload :: bytes
  ev_signature :: bytes

text \<open>One part of a version.\<close>

(* @src crates/sensor-desktop/src/updates.rs:42-49 version, one part *)
definition version_part :: "rstr \<Rightarrow> text_error + nat" where
  "version_part t =
     (if t = [] \<or> \<not> list_all (\<lambda>c. 48 \<le> c \<and> c \<le> 57) t \<or> (str_len t > 1 \<and> hd t = 48)
      then Inl (TE ''Invalid release version'')
      else ok_or (parse_u32 t) (TE ''Invalid release version''))"

(* @src crates/sensor-desktop/src/updates.rs:36-52 version *)
definition version_parse :: "rstr \<Rightarrow> text_error + release_version" where
  "version_parse t =
     (case split_on 46 t of
        [a, b, c] \<Rightarrow>
          res_bind (version_part a) (\<lambda>a. res_bind (version_part b) (\<lambda>b. res_bind (version_part c) (\<lambda>c. Inr (a, b, c))))
      | _ \<Rightarrow> Inl (TE ''Expected a three-part release version''))"

text \<open>The key that is compiled in, from \<open>assets/update-public-key.txt\<close>.\<close>

definition PUBLISHER_KEY_TEXT :: rstr where
  "PUBLISHER_KEY_TEXT = lit ''f3ffe88aeb043e5a18899339ca64fe685d5a277cf6d7da240bc4587085958032'' @ [10]"

(* @src crates/sensor-desktop/src/updates.rs:53-59 publisher_key *)
definition publisher_key :: "text_error + bytes" where
  "publisher_key =
     res_bind (parse_hex 32 PUBLISHER_KEY_TEXT) (\<lambda>key.
     if key = zero_key then Inl (TE ''Publisher update key has not been provisioned'') else Inr key)"

text \<open>The clock: the seconds since the epoch, none when it stands before the epoch.\<close>

(* @src crates/sensor-desktop/src/updates.rs:60-65 now *)
definition update_now :: "nat option \<Rightarrow> text_error + nat" where
  "update_now clock = ok_or clock (TE ''Invalid system clock'')"

subsection \<open>Signing and verifying\<close>

record update_env =
  up_crypto :: crypto_lib
  up_release :: "release json"
  up_envelope :: "envelope json"

(* @src crates/sensor-desktop/src/updates.rs:66-70 sign *)
definition update_sign :: "update_env \<Rightarrow> release \<Rightarrow> identity_keypair \<Rightarrow> text_error + bytes" where
  "update_sign E release key =
     res_bind (ok_or (jn_to (up_release E) release) TE_Json) (\<lambda>payload.
     ok_or (jn_to (up_envelope E)
       \<lparr>ev_payload = payload, ev_signature = kp_sign (up_crypto E) key (UPDATE_DOMAIN @ payload)\<rparr>) TE_Json)"

(* @src crates/sensor-desktop/src/updates.rs:89-108 verify, the authenticated policy *)
definition release_policy :: "release_version \<Rightarrow> nat \<Rightarrow> release \<Rightarrow> text_error + release" where
  "release_policy installed time r =
     (if rs_schema r \<noteq> 1 \<or> rs_product r \<noteq> lit ''SENSOR Remote Access'' \<or> rs_target r \<noteq> TARGET
      then Inl (TE ''Update is for another product, platform or schema'')
      else if version_le (rs_version r) installed
      then Inl (TE ''Update would reinstall or downgrade the installed version'')
      else if rs_issued r > time \<or> rs_expires r \<le> time \<or> rs_expires r \<le> rs_issued r \<or>
        rs_expires r - rs_issued r > 90 * 86400
      then Inl (TE ''Update manifest is expired, not yet valid or exceeds 90 days'')
      else if rs_installer_bytes r = 0 \<or> rs_installer_bytes r > MAX_INSTALLER
      then Inl (TE ''Installer exceeds its permitted size'')
      else Inr r)"

(* @src crates/sensor-desktop/src/updates.rs:71-109 verify *)
definition update_verify ::
  "update_env \<Rightarrow> bytes \<Rightarrow> bytes \<Rightarrow> release_version \<Rightarrow> nat \<Rightarrow> text_error + release" where
  "update_verify E bytes key installed time =
     (if length bytes > MAX_MANIFEST \<or> key = zero_key
      then Inl (TE ''Invalid update manifest size or publisher key'')
      else res_bind (ok_or (jn_from (up_envelope E) bytes) TE_Json) (\<lambda>envelope.
      if length (ev_payload envelope) > 4096 \<or> length (ev_signature envelope) \<noteq> 64
      then Inl (TE ''Invalid signed envelope'')
      else res_bind (map_err (\<lambda>_. TE ''Publisher signature verification failed'')
        (identity_verify (up_crypto E) key (UPDATE_DOMAIN @ ev_payload envelope) (ev_signature envelope))) (\<lambda>_.
      res_bind (ok_or (jn_from (up_release E) (ev_payload envelope)) TE_Json) (release_policy installed time))))"

subsection \<open>Reading in pieces\<close>

text \<open>
  A source: the bytes it holds, and how the coming \<open>read\<close> calls behave. A call fails, or returns at most
  so many bytes, at least one when there is one and room for it; after the plan a call returns all
  that fits.
\<close>

record reader =
  rd_data :: bytes
  rd_plan :: "(io_error + nat) list"

fun reader_read :: "nat \<Rightarrow> reader \<Rightarrow> (io_error + bytes) \<times> reader" where
  "reader_read want r =
     (case rd_plan r of
        [] \<Rightarrow> (Inr (take want (rd_data r)), r\<lparr>rd_data := drop want (rd_data r)\<rparr>)
      | Inl e # p \<Rightarrow> (Inl e, r\<lparr>rd_plan := p\<rparr>)
      | Inr k # p \<Rightarrow> (Inr (take (min want (Suc k)) (rd_data r)),
          \<lparr>rd_data = drop (min want (Suc k)) (rd_data r), rd_plan = p\<rparr>))"

declare reader_read.simps [simp del]

text \<open>\<open>take(limit)\<close>: never more than the limit, and nothing is read once it is used up.\<close>

definition take_read :: "nat \<Rightarrow> nat \<Rightarrow> reader \<Rightarrow> (io_error + bytes) \<times> reader" where
  "take_read want limit r = (if limit = 0 then (Inr [], r) else reader_read (min want limit) r)"

lemma reader_read_Inr:
  "reader_read want r = (Inr c, r') \<Longrightarrow> rd_data r = c @ rd_data r' \<and> length c \<le> want \<and> length (rd_plan r') \<le> length (rd_plan r) \<and>
     (c = [] \<longrightarrow> want = 0 \<or> rd_data r = [])"
  by (auto simp: reader_read.simps split: list.splits sum.splits)

lemma reader_read_Inl:
  "reader_read want r = (Inl e, r') \<Longrightarrow> rd_data r' = rd_data r \<and> length (rd_plan r') < length (rd_plan r)"
  by (auto simp: reader_read.simps split: list.splits sum.splits)

lemma take_read_Inr:
  "take_read want limit r = (Inr c, r') \<Longrightarrow> rd_data r = c @ rd_data r' \<and> length c \<le> limit \<and> length (rd_plan r') \<le> length (rd_plan r) \<and>
     (c = [] \<longrightarrow> want = 0 \<or> limit = 0 \<or> rd_data r = [])"
  using reader_read_Inr [of "min want limit" r c r'] by (auto simp: take_read_def split: if_splits)

lemma take_read_Inl:
  "take_read want limit r = (Inl e, r') \<Longrightarrow> rd_data r' = rd_data r \<and> length (rd_plan r') < length (rd_plan r)"
  using reader_read_Inl [of "min want limit" r e r'] by (auto simp: take_read_def split: if_splits)

lemma take_read_less: "take_read want limit r = (Inr c, r') \<Longrightarrow> c \<noteq> [] \<Longrightarrow> limit - length c < limit"
  using take_read_Inr [of want limit r c r'] by (cases c) auto

text \<open>The loop of \<open>digest\<close>; the hash state is the bytes it was fed.\<close>

(* @src crates/sensor-desktop/src/updates.rs:115-122 digest, the loop *)
function digest_loop :: "nat \<Rightarrow> reader \<Rightarrow> bytes \<Rightarrow> io_error + bytes" where
  "digest_loop limit r acc =
     (case take_read 65536 limit r of
        (Inl e, r') \<Rightarrow> Inl e
      | (Inr c, r') \<Rightarrow> if c = [] then Inr acc else digest_loop (limit - length c) r' (acc @ c))"
  by pat_completeness auto
termination
  by (relation "measure fst") (auto dest: take_read_less [OF sym])

declare digest_loop.simps [simp del]

(* @src crates/sensor-desktop/src/updates.rs:110-127 digest *)
definition update_digest :: "crypto_lib \<Rightarrow> reader \<Rightarrow> text_error + nat \<times> bytes" where
  "update_digest L r =
     res_bind (map_err TE_Io (digest_loop (MAX_INSTALLER + 1) r [])) (\<lambda>bytes.
     if bytes = [] \<or> length bytes > MAX_INSTALLER then Inl (TE ''Invalid installer size'')
     else Inr (length bytes, sha256 L bytes))"

text \<open>\<open>std::io::copy\<close> from a limited source: an interrupted read is tried again. Its buffer has 8 KiB.\<close>

function io_copy :: "nat \<Rightarrow> reader \<Rightarrow> bytes \<Rightarrow> io_error + bytes" where
  "io_copy limit r acc =
     (case take_read 8192 limit r of
        (Inl e, r') \<Rightarrow> if e = IO_Interrupted then io_copy limit r' acc else Inl e
      | (Inr c, r') \<Rightarrow> if c = [] then Inr acc else io_copy (limit - length c) r' (acc @ c))"
  by pat_completeness auto
termination
  by (relation "measures [\<lambda>(limit, r, acc). limit, \<lambda>(limit, r, acc). length (rd_plan r)]")
    (auto dest: take_read_less [OF sym] take_read_Inl [OF sym])

declare io_copy.simps [simp del]

text \<open>However a source is read, what is read is its first bytes.\<close>

lemma digest_loop_Inr: "digest_loop limit r acc = Inr c \<Longrightarrow> c = acc @ take limit (rd_data r)"
proof (induction limit r acc rule: digest_loop.induct)
  case (1 limit r acc)
  obtain x r' where t: "take_read 65536 limit r = (Inr x, r')"
    using "1.prems" by (subst (asm) digest_loop.simps) (auto split: prod.splits sum.splits)
  note r = take_read_Inr [OF t]
  show ?case
  proof (cases "x = []")
    case True
    then show ?thesis
      using "1.prems" t r by (subst (asm) digest_loop.simps) auto
  next
    case False
    then have "c = (acc @ x) @ take (limit - length x) (rd_data r')"
      using "1.IH" [OF t [symmetric]] "1.prems" t by (subst (asm) digest_loop.simps) auto
    then show ?thesis
      using r by simp
  qed
qed

lemma io_copy_Inr: "io_copy limit r acc = Inr c \<Longrightarrow> c = acc @ take limit (rd_data r)"
proof (induction limit r acc rule: io_copy.induct)
  case (1 limit r acc)
  show ?case
  proof (cases "take_read 8192 limit r")
    case (Pair x r')
    show ?thesis
    proof (cases x)
      case (Inl e)
      then have "io_copy limit r' acc = Inr c" "e = IO_Interrupted"
        using "1.prems" Pair by (subst (asm) io_copy.simps; auto split: if_splits)+
      then show ?thesis
        using "1.IH"(1) [OF Pair [symmetric] Inl] take_read_Inl Pair Inl by auto
    next
      case (Inr y)
      note r = take_read_Inr [OF Pair [unfolded Inr]]
      show ?thesis
      proof (cases "y = []")
        case True
        then show ?thesis
          using "1.prems" Pair Inr r by (subst (asm) io_copy.simps) auto
      next
        case False
        then have "c = (acc @ y) @ take (limit - length y) (rd_data r')"
          using "1.IH"(2) [OF Pair [symmetric] Inr False] "1.prems" Pair Inr by (subst (asm) io_copy.simps) auto
        then show ?thesis
          using r by simp
      qed
    qed
  qed
qed

lemma digest_loop_total:
  "list_all is_ok (rd_plan r) \<Longrightarrow> digest_loop limit r acc = Inr (acc @ take limit (rd_data r))"
proof (induction limit r acc rule: digest_loop.induct)
  case (1 limit r acc)
  have ok: "\<exists>x r'. take_read 65536 limit r = (Inr x, r') \<and> list_all is_ok (rd_plan r')"
    using "1.prems" by (auto simp: take_read_def reader_read.simps split: list.splits sum.splits)
  then obtain x r' where t: "take_read 65536 limit r = (Inr x, r')" "list_all is_ok (rd_plan r')"
    by blast
  note r = take_read_Inr [OF t(1)]
  show ?case
  proof (cases "x = []")
    case True
    then show ?thesis
      using t r by (subst digest_loop.simps) auto
  next
    case False
    then have "digest_loop (limit - length x) r' (acc @ x) = Inr ((acc @ x) @ take (limit - length x) (rd_data r'))"
      using "1.IH" [OF t(1) [symmetric]] t(2) by simp
    then show ?thesis
      using False t r by (subst digest_loop.simps) auto
  qed
qed

text \<open>The digest does not depend on how the file is read.\<close>

lemma update_digest_pieces:
  assumes "list_all is_ok (rd_plan r)"
  shows "update_digest L r = (if rd_data r = [] \<or> length (rd_data r) > MAX_INSTALLER
    then Inl (TE ''Invalid installer size'') else Inr (length (rd_data r), sha256 L (rd_data r)))"
  using digest_loop_total [OF assms, of "MAX_INSTALLER + 1" "[]"] by (auto simp: update_digest_def min_def)

subsection \<open>Staging\<close>

text \<open>
  The staging root: the directories in it, and the files in each. \<open>None\<close> when the root does not exist is
  not told apart from an empty root. What each call may fail with is an input, and so are the source's
  metadata, the way its reads and those of the copy are split, and the name drawn for the directory.
\<close>

type_synonym staging = "rstr \<rightharpoonup> (rstr \<rightharpoonup> bytes)"

record stage_faults =
  sg_open :: "io_error option"
  sg_metadata :: "io_error + bool"
  sg_root :: "io_error option"
  sg_directory :: "io_error option"
  sg_temp :: "io_error option"
  sg_write :: "io_error option"
  sg_flush :: "io_error option"
  sg_reopen :: "io_error option"
  sg_reads :: "(io_error + nat) list"
  sg_sync :: "io_error option"
  sg_persist :: "io_error option"

definition sys :: "io_error option \<Rightarrow> text_error + unit" where
  "sys e = (case e of Some e \<Rightarrow> Inl (TE_Io e) | None \<Rightarrow> Inr ())"

lemma sys_Inr_iff [res_simps]: "sys e = Inr u \<longleftrightarrow> e = None"
  by (auto simp: sys_def split: option.splits)

lemma sys_None [simp]: "sys None = Inr ()"
  by (simp add: sys_def)

definition SETUP_NAME :: rstr where
  "SETUP_NAME = lit ''SENSOR-Verified-Setup.exe''"

text \<open>
  The copy that is published; an early return drops the temporary file and its directory, so only a
  result \<open>Inr\<close> changes the root.
\<close>

(* @src crates/sensor-desktop/src/updates.rs:156-188 stage_with_policy, the copy *)
definition staged_copy ::
  "update_env \<Rightarrow> stage_faults \<Rightarrow> reader \<Rightarrow> rstr \<Rightarrow> release \<Rightarrow> staging \<Rightarrow> text_error + bytes" where
  "staged_copy E f source directory release dirs =
     res_bind (sys (sg_open f)) (\<lambda>_.
     res_bind (map_err TE_Io (sg_metadata f)) (\<lambda>regular.
     if \<not> regular then Inl (TE ''Installer must be a regular file'')
     else res_bind (sys (sg_root f)) (\<lambda>_.
     res_bind (sys (if dirs directory = None then sg_directory f else Some IO_AlreadyExists)) (\<lambda>_.
     res_bind (sys (sg_temp f)) (\<lambda>_.
     res_bind (map_err TE_Io (io_copy (rs_installer_bytes release + 1) source [])) (\<lambda>copied.
     res_bind (sys (sg_write f)) (\<lambda>_.
     res_bind (sys (sg_flush f)) (\<lambda>_.
     if length copied \<noteq> rs_installer_bytes release
     then Inl (TE ''Installer size does not match the signed release'')
     else res_bind (sys (sg_reopen f)) (\<lambda>_.
     res_bind (update_digest (up_crypto E) \<lparr>rd_data = copied, rd_plan = sg_reads f\<rparr>) (\<lambda>(_, hash).
     if hash \<noteq> rs_installer_sha256 release
     then Inl (TE ''Installer hash does not match the signed release'')
     else res_bind (sys (sg_sync f)) (\<lambda>_.
     res_bind (sys (sg_persist f)) (\<lambda>_. Inr copied))))))))))))"

(* @src crates/sensor-desktop/src/updates.rs:147-192 stage_with_policy *)
definition stage_with_policy ::
  "update_env \<Rightarrow> read_faults \<Rightarrow> stage_faults \<Rightarrow> bytes option \<Rightarrow> reader \<Rightarrow> rstr \<Rightarrow> release_version \<Rightarrow> bytes \<Rightarrow> nat \<Rightarrow>
   staging \<Rightarrow> (text_error + (rstr \<times> rstr) \<times> release) \<times> staging" where
  "stage_with_policy E rf f manifest source directory installed key time dirs =
     (case map_err TE_Io (read_limited rf MAX_MANIFEST manifest) of
        Inl e \<Rightarrow> (Inl e, dirs)
      | Inr bytes \<Rightarrow>
     (case update_verify E bytes key installed time of
        Inl e \<Rightarrow> (Inl e, dirs)
      | Inr release \<Rightarrow>
     (case staged_copy E f source directory release dirs of
        Inl e \<Rightarrow> (Inl e, dirs)
      | Inr copied \<Rightarrow> (Inr ((directory, SETUP_NAME), release), dirs(directory \<mapsto> [SETUP_NAME \<mapsto> copied])))))"

(* @src crates/sensor-desktop/src/updates.rs:129-146 stage *)
definition update_stage ::
  "update_env \<Rightarrow> nat option \<Rightarrow> read_faults \<Rightarrow> stage_faults \<Rightarrow> bytes option \<Rightarrow> reader \<Rightarrow> rstr \<Rightarrow> release_version \<Rightarrow>
   staging \<Rightarrow> (text_error + (rstr \<times> rstr) \<times> release) \<times> staging" where
  "update_stage E clock rf f manifest source directory installed dirs =
     (case publisher_key of
        Inl e \<Rightarrow> (Inl e, dirs)
      | Inr key \<Rightarrow>
          (case update_now clock of
             Inl e \<Rightarrow> (Inl e, dirs)
           | Inr time \<Rightarrow> stage_with_policy E rf f manifest source directory installed key time dirs))"

subsection \<open>What is accepted and what is published\<close>

definition release_ok :: "release_version \<Rightarrow> nat \<Rightarrow> release \<Rightarrow> bool" where
  "release_ok installed time r \<longleftrightarrow>
     rs_schema r = 1 \<and> rs_product r = lit ''SENSOR Remote Access'' \<and> rs_target r = TARGET \<and>
     \<not> version_le (rs_version r) installed \<and>
     rs_issued r \<le> time \<and> time < rs_expires r \<and> rs_expires r \<le> rs_issued r + 90 * 86400 \<and>
     0 < rs_installer_bytes r \<and> rs_installer_bytes r \<le> MAX_INSTALLER"

lemma release_policy_Inr_iff: "release_policy installed time r = Inr r' \<longleftrightarrow> r' = r \<and> release_ok installed time r"
  by (auto simp: release_policy_def release_ok_def)

text \<open>Accepted means signed by the publisher, within the policy.\<close>

definition publisher_signed :: "update_env \<Rightarrow> bytes \<Rightarrow> release \<Rightarrow> bool" where
  "publisher_signed E key r \<longleftrightarrow> (\<exists>payload signature. jn_from (up_release E) payload = Some r \<and>
     identity_verify (up_crypto E) key (UPDATE_DOMAIN @ payload) signature = Inr ())"

lemma update_verify_Inr:
  "update_verify E bytes key installed time = Inr r \<Longrightarrow>
     publisher_signed E key r \<and> release_ok installed time r \<and> key \<noteq> zero_key"
  by (auto simp: update_verify_def publisher_signed_def res_simps release_policy_Inr_iff split: if_splits)

lemma update_verify_signed:
  assumes "sign_laws (up_crypto E)" and "json_ok (up_release E)" and "json_ok (up_envelope E)"
    and "kp_public (up_crypto E) key \<noteq> zero_key"
    and "update_sign E release key = Inr bytes" and "length bytes \<le> MAX_MANIFEST"
    and "\<And>payload. jn_to (up_release E) release = Some payload \<Longrightarrow> length payload \<le> 4096"
  shows "update_verify E bytes (kp_public (up_crypto E) key) installed time = release_policy installed time release"
proof -
  obtain payload where p: "jn_to (up_release E) release = Some payload"
    and b: "jn_to (up_envelope E) \<lparr>ev_payload = payload,
      ev_signature = kp_sign (up_crypto E) key (UPDATE_DOMAIN @ payload)\<rparr> = Some bytes"
    using assms(5) by (auto simp: update_sign_def res_simps)
  have "length (kp_sign (up_crypto E) key m) = 64" for m
    using sign_lawsD(2) [OF assms(1)] by (simp add: kp_sign_def)
  then show ?thesis
    using assms(4,6,7) p json_okD [OF assms(2) p] json_okD [OF assms(3) b] identity_verify_own [OF assms(1)]
    by (simp add: update_verify_def)
qed

text \<open>Signing and verifying agree. What a publisher signs, if it fits the size bounds, is accepted under
  the publisher's key exactly when it is a release of this product and target, newer than what is
  installed, within its validity of at most ninety days, and of a permitted size; and it is then the
  release that was signed.\<close>

theorem update_sign_verify:
  assumes "sign_laws (up_crypto E)" and "json_ok (up_release E)" and "json_ok (up_envelope E)"
    and "kp_public (up_crypto E) key \<noteq> zero_key"
    and "update_sign E release key = Inr bytes" and "length bytes \<le> MAX_MANIFEST"
    and "\<And>payload. jn_to (up_release E) release = Some payload \<Longrightarrow> length payload \<le> 4096"
  shows "update_verify E bytes (kp_public (up_crypto E) key) installed time = Inr r \<longleftrightarrow>
    r = release \<and> release_ok installed time release"
  using update_verify_signed [OF assms] by (simp add: release_policy_Inr_iff)

lemma update_digest_Inr: "update_digest L r = Inr (n, h) \<Longrightarrow> h = sha256 L (take (MAX_INSTALLER + 1) (rd_data r))"
  by (auto simp: update_digest_def res_simps dest!: digest_loop_Inr split: if_splits)

lemma staged_copy_Inr:
  assumes "staged_copy E f source directory release dirs = Inr copied" and "rs_installer_bytes release \<le> MAX_INSTALLER"
  shows "dirs directory = None \<and> copied = rd_data source \<and> length copied = rs_installer_bytes release \<and>
    sha256 (up_crypto E) copied = rs_installer_sha256 release"
proof -
  have c: "io_copy (rs_installer_bytes release + 1) source [] = Inr copied" "length copied = rs_installer_bytes release"
    "dirs directory = None"
    and h: "\<exists>n. update_digest (up_crypto E) \<lparr>rd_data = copied, rd_plan = sg_reads f\<rparr> = Inr (n, rs_installer_sha256 release)"
    using assms(1) by (auto simp: staged_copy_def res_simps split: if_splits)
  have "copied = rd_data source"
    using io_copy_Inr [OF c(1)] c(2) by (simp add: min_def split: if_splits)
  then show ?thesis
    using c h assms(2) by (auto dest!: update_digest_Inr)
qed

text \<open>C17: Only the signed installer is published. Whatever fails and however the files are read, staging an
  update either reports an error and leaves the staging root as it was, or adds one new directory
  with one file in it, the executable: all the bytes of the source, of exactly the size and with
  exactly the hash of a release that the publisher signed, that is newer than the installed version
  and within its dates. Nothing that was staged before is touched.\<close>

theorem update_stage_verified:
  assumes "update_stage E clock rf f manifest source directory installed dirs = (result, dirs')"
  shows "case result of
      Inl e \<Rightarrow> dirs' = dirs
    | Inr (path, r) \<Rightarrow> (\<exists>key time. publisher_key = Inr key \<and> clock = Some time \<and>
        publisher_signed E key r \<and> release_ok installed time r \<and>
        path = (directory, SETUP_NAME) \<and> dirs directory = None \<and>
        dirs' = dirs(directory \<mapsto> [SETUP_NAME \<mapsto> rd_data source]) \<and>
        length (rd_data source) = rs_installer_bytes r \<and>
        sha256 (up_crypto E) (rd_data source) = rs_installer_sha256 r)"
proof (cases result)
  case (Inl e)
  then show ?thesis
    using assms by (auto simp: update_stage_def stage_with_policy_def split: sum.splits)
next
  case (Inr pr)
  obtain path r where pr: "pr = (path, r)"
    by fastforce
  obtain key time bytes copied where k: "publisher_key = Inr key" "clock = Some time"
    and v: "update_verify E bytes key installed time = Inr r"
    and c: "staged_copy E f source directory r dirs = Inr copied"
    and p: "path = (directory, SETUP_NAME)" "dirs' = dirs(directory \<mapsto> [SETUP_NAME \<mapsto> copied])"
    using assms Inr pr by (auto simp: update_stage_def stage_with_policy_def update_now_def res_simps split: sum.splits)
  have "publisher_signed E key r" "release_ok installed time r"
    using update_verify_Inr [OF v] by auto
  moreover from this have "rs_installer_bytes r \<le> MAX_INSTALLER"
    by (simp add: release_ok_def)
  ultimately show ?thesis
    using k p staged_copy_Inr [OF c] Inr pr by auto
qed

subsection \<open>Version texts\<close>

lemma split_on_last: "d \<notin> set a \<Longrightarrow> split_on d a = [a]"
  by (induction a) auto

lemma split_on_first: "d \<notin> set a \<Longrightarrow> split_on d (a @ d # s) = a # split_on d s"
  by (induction a) auto

lemma split_on_Cons:
  "split_on d s = a # ps \<Longrightarrow> d \<notin> set a \<and> (if ps = [] then s = a else \<exists>s'. s = a @ d # s' \<and> split_on d s' = ps)"
proof (induction s arbitrary: a ps)
  case (Cons c s)
  show ?case
  proof (cases "c = d")
    case True
    then show ?thesis
      using Cons.prems split_on_not_Nil [of d s] by auto
  next
    case False
    then obtain q where q: "split_on d s = q # ps" "a = c # q"
      using Cons.prems by (auto split: list.splits)
    then show ?thesis
      using Cons.IH [OF q(1)] False by (auto split: if_splits)
  qed
qed auto

lemma split_on_three:
  "split_on d s = [a, b, c] \<longleftrightarrow> s = a @ d # b @ d # c \<and> d \<notin> set a \<and> d \<notin> set b \<and> d \<notin> set c"
  by (auto simp: split_on_first split_on_last dest!: split_on_Cons)

lemma dec_val_Some: "dec_val c = Some d \<Longrightarrow> d = c - 48 \<and> 48 \<le> c \<and> c \<le> 57"
  by (auto simp: dec_val_def split: if_splits)

lemma canonical_digits:
  "digits_value dec_val 10 0 t = Some v \<Longrightarrow> t \<noteq> [] \<Longrightarrow> (length t > 1 \<Longrightarrow> hd t \<noteq> 48) \<Longrightarrow>
     dec_digits v = t \<and> (hd t \<noteq> 48 \<longrightarrow> 0 < v)"
proof (induction t arbitrary: v rule: rev_induct)
  case (snoc c t)
  obtain w where w: "digits_value dec_val 10 0 t = Some w" and v: "v = w * 10 + (c - 48)" and c: "48 \<le> c" "c \<le> 57"
    using snoc.prems(1) by (auto simp: digits_value_append split: option.splits dest: dec_val_Some)
  show ?case
  proof (cases "t = []")
    case True
    then show ?thesis
      using w v c by (auto simp: dec_digits.simps)
  next
    case False
    then have "hd t \<noteq> 48"
      using snoc.prems(3) by (cases t) auto
    then have "dec_digits w = t" "0 < w"
      using snoc.IH [OF w False] by auto
    moreover obtain d where d: "c = 48 + d" "d < 10"
      using c by (intro that [of "c - 48"]) auto
    ultimately show ?thesis
      using v by (subst dec_digits.simps) auto
  qed
qed simp

lemma dec_digits_head: "10 \<le> n \<Longrightarrow> hd (dec_digits n) \<noteq> 48"
proof (induction n rule: dec_digits.induct)
  case (1 n)
  then have d: "dec_digits n = dec_digits (n div 10) @ [48 + n mod 10]"
    by (subst dec_digits.simps) simp
  show ?case
  proof (cases "n div 10 < 10")
    case True
    then have "dec_digits (n div 10) = [48 + n div 10]"
      by (simp add: dec_digits.simps)
    then show ?thesis
      using d 1 by simp
  qed (use 1 d in simp)
qed

lemma version_part_Inr_iff: "version_part t = Inr n \<longleftrightarrow> n < 2 ^ 32 \<and> t = dec_digits n"
proof
  assume v: "version_part t = Inr n"
  then have t: "t \<noteq> []" "list_all (\<lambda>c. 48 \<le> c \<and> c \<le> 57) t" "\<not> (str_len t > 1 \<and> hd t = 48)" and p: "parse_u32 t = Some n"
    by (auto simp: version_part_def res_simps split: if_splits)
  have "str_len t = length t"
    using t(2) by (intro str_len_ascii) (auto simp: is_ascii_def list_all_iff)
  moreover have "digits_value dec_val 10 0 t = Some n"
    using p t(1,2) by (auto simp: parse_u32_def from_radix_def Let_def split: list.splits if_splits option.splits)
  ultimately show "n < 2 ^ 32 \<and> t = dec_digits n"
    using canonical_digits [of t n] t parse_u32_less [OF p] by auto
next
  assume n: "n < 2 ^ 32 \<and> t = dec_digits n"
  have "list_all (\<lambda>c. 48 \<le> c \<and> c \<le> 57) (dec_digits n)"
    by (auto simp: list_all_iff dest: dec_digits_range)
  moreover from this have "str_len (dec_digits n) = length (dec_digits n)"
    by (intro str_len_ascii) (auto simp: is_ascii_def list_all_iff)
  moreover have "length (dec_digits n) > 1 \<Longrightarrow> hd (dec_digits n) \<noteq> 48"
    using dec_digits_head [of n] by (cases "10 \<le> n") (simp_all add: dec_digits.simps [of n])
  ultimately show "version_part t = Inr n"
    using n by (auto simp: version_part_def parse_u32_dec_digits)
qed

lemma dec_digits_no_dot: "46 \<notin> set (dec_digits n)"
  by (auto dest: dec_digits_range)

text \<open>A version has one text. What \<open>version\<close> reads as the numbers a, b and c is exactly their decimal
  texts with dots between them, and each fits 32 bits: no signs, blanks, leading zeros, suffixes or
  missing parts, and every such triple is read back from its text.\<close>

theorem version_parse_iff:
  "version_parse t = Inr (a, b, c) \<longleftrightarrow>
     a < 2 ^ 32 \<and> b < 2 ^ 32 \<and> c < 2 ^ 32 \<and> t = dec_digits a @ 46 # dec_digits b @ 46 # dec_digits c"
proof -
  have "version_parse t = Inr (a, b, c) \<longleftrightarrow>
    (\<exists>x y z. split_on 46 t = [x, y, z] \<and> version_part x = Inr a \<and> version_part y = Inr b \<and> version_part z = Inr c)"
    by (auto simp: version_parse_def res_simps split: list.splits)
  then show ?thesis
    by (auto simp: split_on_three version_part_Inr_iff dec_digits_no_dot)
qed

subsection \<open>A concrete update\<close>

lemma publisher_key_provisioned: "case publisher_key of Inl e \<Rightarrow> False | Inr key \<Rightarrow> length key = 32 \<and> key \<noteq> zero_key"
  by code_simp

definition demo_release :: release where
  "demo_release = \<lparr>rs_schema = 1, rs_product = lit ''SENSOR Remote Access'', rs_target = TARGET, rs_version = (0, 3, 3),
     rs_issued = 100, rs_expires = 200, rs_installer_bytes = 5, rs_installer_sha256 = sha256 demo_lib [1, 2, 3, 4, 5]\<rparr>"

definition demo_update_env :: update_env where
  "demo_update_env = \<lparr>up_crypto = demo_lib, up_release = json_of_codec (codec_only demo_release [1, 2]),
     up_envelope = json_of_codec (codec_conv (\<lambda>e. (ev_payload e, ev_signature e))
       (\<lambda>(p, s). \<lparr>ev_payload = p, ev_signature = s\<rparr>) (codec_pair codec_blob codec_blob))\<rparr>"

lemma demo_update_laws:
  "sign_laws (up_crypto demo_update_env)" "json_ok (up_release demo_update_env)" "json_ok (up_envelope demo_update_env)"
  by (auto simp: demo_update_env_def demo_sign_laws intro!: json_of_codec_ok codec_conv_ok codec_pair_ok)

lemma demo_signed:
  "\<exists>bytes. update_sign demo_update_env demo_release (IdentityKeypair k) = Inr bytes \<and> length bytes \<le> MAX_MANIFEST"
  using sign_lawsD(2) [OF demo_sign_laws]
  by (auto simp: update_sign_def demo_update_env_def json_of_codec_def codec_only_def codec_conv_def codec_pair_def
      codec_blob_def kp_sign_def MAX_MANIFEST_def)

lemma demo_payload: "jn_to (up_release demo_update_env) demo_release = Some payload \<Longrightarrow> length payload \<le> 4096"
  by (auto simp: demo_update_env_def json_of_codec_def codec_only_def)

lemma demo_release_ok: "release_ok (0, 3, 2) 150 demo_release"
  by (simp add: release_ok_def demo_release_def MAX_INSTALLER_def)

lemma demo_update_public: "kp_public (up_crypto demo_update_env) (IdentityKeypair k) = k"
  by (simp add: demo_update_env_def kp_public_def demo_lib_def)

lemma update_sign_verify_witness:
  "\<exists>bytes. update_sign demo_update_env demo_release (IdentityKeypair (replicate 32 1)) = Inr bytes \<and>
     update_verify demo_update_env bytes (replicate 32 1) (0, 3, 2) 150 = Inr demo_release"
proof -
  let ?k = "IdentityKeypair (replicate 32 1)"
  have pub: "kp_public (up_crypto demo_update_env) ?k \<noteq> zero_key"
    by (simp add: demo_update_public zero_key_def)
  obtain bytes where b: "update_sign demo_update_env demo_release ?k = Inr bytes" "length bytes \<le> MAX_MANIFEST"
    using demo_signed by blast
  have "update_verify demo_update_env bytes (kp_public (up_crypto demo_update_env) ?k) (0, 3, 2) 150 = Inr demo_release"
    using update_sign_verify [OF demo_update_laws pub b demo_payload, of "(0, 3, 2)" 150 demo_release] demo_release_ok by blast
  then show ?thesis
    using b by (simp add: demo_update_public)
qed

definition no_stage_faults :: stage_faults where
  "no_stage_faults = \<lparr>sg_open = None, sg_metadata = Inr True, sg_root = None, sg_directory = None, sg_temp = None,
     sg_write = None, sg_flush = None, sg_reopen = None, sg_reads = [Inr 0, Inr 1], sg_sync = None, sg_persist = None\<rparr>"

lemma demo_copied: "staged_copy demo_update_env no_stage_faults \<lparr>rd_data = [1, 2, 3, 4, 5], rd_plan = [Inr 2]\<rparr> [9] demo_release dirs
    = (if dirs [9] = None then Inr [1, 2, 3, 4, 5] else Inl (TE_Io IO_AlreadyExists))"
proof -
  have "io_copy 6 \<lparr>rd_data = [1, 2, 3, 4, 5], rd_plan = [Inr 2]\<rparr> [] = Inr [1, 2, 3, 4, 5]"
    by (simp add: io_copy.simps take_read_def reader_read.simps)
  then show ?thesis
    by (simp add: staged_copy_def no_stage_faults_def demo_release_def update_digest_pieces MAX_INSTALLER_def
        demo_update_env_def sys_def)
qed

lemma update_stage_verified_witness:
  "\<exists>manifest dirs'. update_stage demo_update_env (Some 150) no_read_faults no_stage_faults (Some manifest)
      \<lparr>rd_data = [1, 2, 3, 4, 5], rd_plan = [Inr 2]\<rparr> [9] (0, 3, 2) Map.empty = (Inr (([9], SETUP_NAME), demo_release), dirs') \<and>
     dirs' = [[9] \<mapsto> [SETUP_NAME \<mapsto> [1, 2, 3, 4, 5]]]"
proof -
  obtain k where k: "publisher_key = Inr k" "k \<noteq> zero_key"
    using publisher_key_provisioned by (auto split: sum.splits)
  then have pub: "kp_public (up_crypto demo_update_env) (IdentityKeypair k) \<noteq> zero_key"
    by (simp add: demo_update_public)
  obtain bytes where b: "update_sign demo_update_env demo_release (IdentityKeypair k) = Inr bytes" "length bytes \<le> MAX_MANIFEST"
    using demo_signed by blast
  have "update_verify demo_update_env bytes k (0, 3, 2) 150 = Inr demo_release"
    using update_verify_signed [OF demo_update_laws pub b demo_payload, of "(0, 3, 2)" 150] demo_release_ok
    by (simp add: demo_update_public release_policy_Inr_iff)
  then have s: "\<exists>dirs'. update_stage demo_update_env (Some 150) no_read_faults no_stage_faults (Some bytes)
      \<lparr>rd_data = [1, 2, 3, 4, 5], rd_plan = [Inr 2]\<rparr> [9] (0, 3, 2) Map.empty = (Inr (([9], SETUP_NAME), demo_release), dirs')"
    using b(2) unfolding update_stage_def k(1) by (simp add: stage_with_policy_def update_now_def demo_copied)
  then obtain dirs' where d: "update_stage demo_update_env (Some 150) no_read_faults no_stage_faults (Some bytes)
      \<lparr>rd_data = [1, 2, 3, 4, 5], rd_plan = [Inr 2]\<rparr> [9] (0, 3, 2) Map.empty = (Inr (([9], SETUP_NAME), demo_release), dirs')"
    by blast
  from update_stage_verified [OF d] have "dirs' = [[9] \<mapsto> [SETUP_NAME \<mapsto> [1, 2, 3, 4, 5]]]"
    by auto
  then show ?thesis
    using d by blast
qed

end
