(* ===== verification/Sensor_Input.thy ===== *)
theory Sensor_Input
  imports Sensor_Media Sensor_Permissions Sensor_Crypto
begin

section \<open>Input, clipboard and desktop checks\<close>

text \<open>
  The host side of a remote desktop session in sensor-windows: the check that the user's own desktop is
  visible, the injector that turns messages into Windows input and remembers what it pressed, and the
  text clipboard with its loop prevention; and the viewer side of sensor-desktop that cuts typed text
  into packets. Windows calls are inputs of the model: what they report, and how many events they
  take. The lemmas show that nothing stays pressed, that no input passes without the permission, that
  a clipboard text is never sent back, and that typed text arrives complete.
\<close>

subsection \<open>UTF-16\<close>

text \<open>Decoding: a unit or pair that encodes no character is \<open>None\<close>.\<close>

fun utf16_decode :: "nat list \<Rightarrow> nat option list" where
  "utf16_decode [] = []"
| "utf16_decode (u # us) =
     (if u < 55296 \<or> 57343 < u then Some u # utf16_decode us
      else case us of
          [] \<Rightarrow> [None]
        | v # vs \<Rightarrow>
            if u < 56320 \<and> 56320 \<le> v \<and> v \<le> 57343
            then Some (65536 + (u - 55296) * 1024 + (v - 56320)) # utf16_decode vs
            else None # utf16_decode us)"

definition from_utf16 :: "nat list \<Rightarrow> rstr option" where
  "from_utf16 us = (if None \<in> set (utf16_decode us) then None else Some (map the (utf16_decode us)))"

definition from_utf16_lossy :: "nat list \<Rightarrow> rstr" where
  "from_utf16_lossy us = map (case_option 65533 id) (utf16_decode us)"

definition encode_utf16 :: "rstr \<Rightarrow> nat list" where
  "encode_utf16 s = concat (map (\<lambda>c. if c < 65536 then [c]
     else [55296 + (c - 65536) div 1024, 56320 + (c - 65536) mod 1024]) s)"

definition scalar_value :: "nat \<Rightarrow> bool" where
  "scalar_value c \<longleftrightarrow> c < 55296 \<or> (57343 < c \<and> c < 1114112)"

lemma utf16_decode_encode: "list_all scalar_value s \<Longrightarrow> utf16_decode (encode_utf16 s) = map Some s"
proof (induction s)
  case (Cons c s)
  show ?case
  proof (cases "c < 65536")
    case False
    then have c: "c - 65536 < 1048576" "65536 \<le> c"
      using Cons.prems by (auto simp: scalar_value_def)
    then have "(c - 65536) div 1024 < 1024"
      by (simp add: less_mult_imp_div_less)
    moreover have "65536 + (c - 65536) div 1024 * 1024 + (c - 65536) mod 1024 = c"
      using c by simp
    ultimately show ?thesis
      using Cons False by (simp add: encode_utf16_def)
  qed (use Cons in \<open>auto simp: encode_utf16_def scalar_value_def\<close>)
qed (simp add: encode_utf16_def)

subsection \<open>The interactive desktop\<close>

(* @src crates/sensor-windows/src/desktop.rs:50-63 DesktopError *)
datatype desktop_error =
    DE_Windows nat
  | DE_Permission permission_error
  | DE_Media media_error
  | DE_Locked
  | DE_Monitor
  | DE_Changed

text \<open>
  What Windows reports: the version, none when the call fails; the session information, none when the
  query fails, and an empty answer when the buffer is missing or short; whether the input desktop
  opens; the units of its name.
\<close>

record session_info =
  wi_level :: nat
  wi_active :: bool
  wi_flags :: int

record probe =
  pb_version :: "(nat \<times> nat \<times> nat) option"
  pb_session :: "session_info option option"
  pb_open :: bool
  pb_name :: "nat list option"

(* @src crates/sensor-windows/src/desktop.rs:21-47 os_version *)
definition os_version :: "probe \<Rightarrow> desktop_error + nat \<times> nat \<times> nat" where
  "os_version p = ok_or (pb_version p) DE_Monitor"

text \<open>\<open>WTS_SESSIONSTATE_LOCK\<close> is 0 and \<open>WTS_SESSIONSTATE_UNLOCK\<close> is 1.\<close>

(* @src crates/sensor-windows/src/desktop.rs:81-94 interactive_desktop, unlocked *)
definition session_unlocked :: "nat \<times> nat \<times> nat \<Rightarrow> session_info option \<Rightarrow> bool" where
  "session_unlocked version info =
     (case info of
        None \<Rightarrow> False
      | Some i \<Rightarrow> wi_level i = 1 \<and> wi_active i \<and>
          wi_flags i = (if (fst version, fst (snd version)) = (6, 1) then 0 else 1))"

(* @src crates/sensor-windows/src/desktop.rs:66-120 interactive_desktop *)
definition interactive_desktop :: "probe \<Rightarrow> desktop_error + unit" where
  "interactive_desktop p =
     res_bind (os_version p) (\<lambda>version.
     res_bind (ok_or (pb_session p) DE_Locked) (\<lambda>info.
     if \<not> session_unlocked version info then Inl DE_Locked
     else if \<not> pb_open p then Inl DE_Locked
     else res_bind (ok_or (pb_name p) DE_Locked) (\<lambda>name.
       if 0 \<notin> set name then Inl DE_Locked
       else if from_utf16_lossy (takeWhile (\<lambda>u. u \<noteq> 0) name) \<noteq> lit ''Default'' then Inl DE_Locked
       else Inr ())))"

subsection \<open>Injecting input\<close>

text \<open>One entry of \<open>SendInput\<close>, and the host: what it reports at each call, how many of the entries of
  each call it takes (\<open>None\<close>: all of them), and the entries it has taken so far.\<close>

datatype mouse_flags = MF_Move | MF_Button mouse_button bool | MF_Wheel | MF_HWheel

datatype os_input =
    OS_Key nat bool bool
  | OS_Mouse mouse_flags int int u32
  | OS_Unicode nat bool

record host =
  ho_probe :: "nat \<Rightarrow> probe"
  ho_takes :: "nat \<Rightarrow> nat option"
  ho_calls :: nat
  ho_screen :: "int \<times> int \<times> int \<times> int"
  ho_events :: "os_input list"

definition check_desktop :: "host \<Rightarrow> (desktop_error + unit) \<times> host" where
  "check_desktop h = (interactive_desktop (ho_probe h (ho_calls h)), h\<lparr>ho_calls := Suc (ho_calls h)\<rparr>)"

(* @src crates/sensor-windows/src/input.rs:8-32 keyboard *)
definition keyboard :: "nat \<Rightarrow> bool \<Rightarrow> os_input" where
  "keyboard key down =
     OS_Key key down ((33 \<le> key \<and> key \<le> 40) \<or> key \<in> {45, 46, 91, 92, 111, 144, 163, 165})"

(* @src crates/sensor-windows/src/input.rs:33-46 mouse *)
definition mouse :: "mouse_flags \<Rightarrow> int \<Rightarrow> int \<Rightarrow> u32 \<Rightarrow> os_input" where
  "mouse flags dx dy data = OS_Mouse flags dx dy data"

(* @src crates/sensor-windows/src/input.rs:47-56 button_flag *)
definition button_flag :: "mouse_button \<Rightarrow> bool \<Rightarrow> mouse_flags" where
  "button_flag button down = MF_Button button down"

(* @src crates/sensor-windows/src/input.rs:57-67 send *)
definition send_input :: "os_input list \<Rightarrow> host \<Rightarrow> (desktop_error + unit) \<times> host" where
  "send_input inputs h =
     (if inputs = [] then (Inr (), h)
      else case check_desktop h of
          (Inl e, h) \<Rightarrow> (Inl e, h)
        | (Inr _, h) \<Rightarrow>
            (let n = (case ho_takes h (ho_calls h) of None \<Rightarrow> length inputs | Some k \<Rightarrow> min k (length inputs));
                 h = h\<lparr>ho_calls := Suc (ho_calls h), ho_events := ho_events h @ take n inputs\<rparr>
             in if n \<noteq> length inputs then (Inl (DE_Windows n), h) else (Inr (), h)))"

text \<open>The keys are a \<open>BTreeSet\<close>: a sorted list without duplicates.\<close>

(* @src crates/sensor-windows/src/input.rs:69-73 Injector *)
record injector =
  ij_keys :: "nat list"
  ij_buttons :: "mouse_button list"

definition injector_default :: injector where
  "injector_default = \<lparr>ij_keys = [], ij_buttons = []\<rparr>"

text \<open>A coordinate on the virtual screen, in \<open>i64\<close>; the division truncates.\<close>

(* @src crates/sensor-windows/src/input.rs:93-98 Injector::apply, one coordinate *)
definition screen_axis :: "int \<Rightarrow> nat \<Rightarrow> int \<Rightarrow> int \<Rightarrow> int" where
  "screen_axis origin pos start extent =
     (let n = (origin + int pos - start) * 65535 in clamp_int 0 65535 (sgn n * (\<bar>n\<bar> div (extent - 1))))"

(* @src crates/sensor-windows/src/input.rs:153-164 Injector::release *)
definition injector_release :: "injector \<Rightarrow> host \<Rightarrow> (desktop_error + unit) \<times> injector \<times> host" where
  "injector_release ij h =
     (case send_input (map (\<lambda>k. keyboard k False) (ij_keys ij) @
          map (\<lambda>b. mouse (button_flag b False) 0 0 0) (ij_buttons ij)) h of
        (r, h) \<Rightarrow> (r, ij\<lparr>ij_keys := [], ij_buttons := []\<rparr>, h))"

definition text_events :: "rstr \<Rightarrow> os_input list" where
  "text_events s = concat (map (\<lambda>u. [OS_Unicode u True, OS_Unicode u False]) (encode_utf16 s))"

(* @src crates/sensor-windows/src/input.rs:84-150 Injector::apply, the event *)
fun inject :: "input \<Rightarrow> display \<Rightarrow> injector \<Rightarrow> host \<Rightarrow> (desktop_error + unit) \<times> injector \<times> host" where
  "inject (I_Move x y) d ij h =
     (case ho_screen h of (sx, sy, width, height) \<Rightarrow>
        if width \<le> 1 \<or> height \<le> 1 then (Inl DE_Monitor, ij, h)
        else case send_input [mouse MF_Move (screen_axis (ds_left d) x sx width)
            (screen_axis (ds_top d) y sy height) 0] h of (r, h) \<Rightarrow> (r, ij, h))"
| "inject (I_Button button down) d ij h =
     (case send_input [mouse (button_flag button down) 0 0 0] h of
        (Inl e, h) \<Rightarrow> (Inl e, ij, h)
      | (Inr _, h) \<Rightarrow> (Inr (), ij\<lparr>ij_buttons := filter (\<lambda>b. b \<noteq> button) (ij_buttons ij) @
          (if down then [button] else [])\<rparr>, h))"
| "inject (I_Wheel delta horizontal) d ij h =
     (case send_input [mouse (if horizontal then MF_HWheel else MF_Wheel) 0 0 (word_of_int delta)] h of
        (r, h) \<Rightarrow> (r, ij, h))"
| "inject (I_Key virtual_key down) d ij h =
     (case send_input [keyboard virtual_key down] h of
        (Inl e, h) \<Rightarrow> (Inl e, ij, h)
      | (Inr _, h) \<Rightarrow> (Inr (), ij\<lparr>ij_keys :=
          if down then insort_insert virtual_key (ij_keys ij) else remove1 virtual_key (ij_keys ij)\<rparr>, h))"
| "inject (I_Text s) d ij h = (case send_input (text_events s) h of (r, h) \<Rightarrow> (r, ij, h))"
| "inject I_ReleaseAll d ij h = injector_release ij h"

(* @src crates/sensor-windows/src/input.rs:75-152 Injector::apply *)
definition injector_apply ::
  "input \<Rightarrow> display \<Rightarrow> consent \<Rightarrow> injector \<Rightarrow> host \<Rightarrow> (desktop_error + unit) \<times> injector \<times> host" where
  "injector_apply ev d consent ij h =
     (case res_bind (map_err DE_Permission (consent_require consent P_Input))
          (\<lambda>_. map_err DE_Media (input_validate d ev)) of
        Inl e \<Rightarrow> (Inl e, ij, h)
      | Inr _ \<Rightarrow>
          (case check_desktop h of
             (Inl e, h) \<Rightarrow> (Inl e, ij, h)
           | (Inr _, h) \<Rightarrow> inject ev d ij h))"

subsection \<open>Nothing stays pressed\<close>

text \<open>What is held down after a sequence of entries: keys and buttons.\<close>

fun held_step :: "nat set \<times> mouse_button set \<Rightarrow> os_input \<Rightarrow> nat set \<times> mouse_button set" where
  "held_step (ks, bs) (OS_Key k down ext) = ((if down then insert k ks else ks - {k}), bs)"
| "held_step (ks, bs) (OS_Mouse (MF_Button b down) dx dy data) = (ks, if down then insert b bs else bs - {b})"
| "held_step s ev = s"

definition held :: "os_input list \<Rightarrow> nat set \<times> mouse_button set" where
  "held evs = foldl held_step ({}, {}) evs"

lemma held_Nil [simp]: "held [] = ({}, {})"
  by (simp add: held_def)

lemma held_append: "held (evs @ evs') = foldl held_step (held evs) evs'"
  by (simp add: held_def)

lemma foldl_held_keys: "foldl held_step (ks, bs) (map (\<lambda>k. keyboard k False) xs) = (ks - set xs, bs)"
  by (induction xs arbitrary: ks) (auto simp: keyboard_def)

lemma foldl_held_buttons:
  "foldl held_step (ks, bs) (map (\<lambda>b. mouse (button_flag b False) 0 0 0) xs) = (ks, bs - set xs)"
  by (induction xs arbitrary: bs) (auto simp: mouse_def button_flag_def)

fun is_unicode :: "os_input \<Rightarrow> bool" where
  "is_unicode (OS_Unicode u down) \<longleftrightarrow> True"
| "is_unicode ev \<longleftrightarrow> False"

lemma foldl_held_unicode: "list_all is_unicode evs \<Longrightarrow> foldl held_step s evs = s"
proof (induction evs)
  case (Cons ev evs)
  then show ?case
    by (cases ev; cases s) auto
qed simp

lemma foldl_held_text: "foldl held_step s (take n (text_events t)) = s"
  by (rule foldl_held_unicode) (auto simp: list_all_iff text_events_def dest!: in_set_takeD)

text \<open>What a call of \<open>send_input\<close> leaves: the first entries were taken, all of them when it succeeds.\<close>

lemma send_input_events:
  "send_input inputs h = (r, h') \<Longrightarrow> \<exists>n. ho_events h' = ho_events h @ take n inputs \<and>
     (r = Inr () \<longrightarrow> n = length inputs) \<and> (r \<noteq> Inr () \<longrightarrow> n < length inputs)"
  by (auto simp: send_input_def check_desktop_def Let_def min_def split: if_splits sum.splits option.splits intro: exI [of _ 0])

lemma send_input_one:
  "send_input [x] h = (r, h') \<Longrightarrow> ho_events h' = ho_events h @ (if r = Inr () then [x] else [])"
  using send_input_events [of "[x]" h r h'] by auto

text \<open>The injector tracks exactly what is held.\<close>

definition tracks :: "injector \<Rightarrow> host \<Rightarrow> bool" where
  "tracks ij h \<longleftrightarrow> distinct (ij_keys ij) \<and> sorted (ij_keys ij) \<and>
     held (ho_events h) = (set (ij_keys ij), set (ij_buttons ij))"

lemma injector_release_Inr:
  assumes "tracks ij h" and "injector_release ij h = (Inr u, ij', h')"
  shows "tracks ij' h' \<and> held (ho_events h') = ({}, {})"
proof -
  let ?evs = "map (\<lambda>k. keyboard k False) (ij_keys ij) @ map (\<lambda>b. mouse (button_flag b False) 0 0 0) (ij_buttons ij)"
  have "send_input ?evs h = (Inr (), h')" and ij': "ij' = ij\<lparr>ij_keys := [], ij_buttons := []\<rparr>"
    using assms(2) by (auto simp: injector_release_def split: prod.splits)
  then have "ho_events h' = ho_events h @ ?evs"
    using send_input_events by fastforce
  moreover have "foldl held_step (held (ho_events h)) ?evs = ({}, {})"
    using assms(1) unfolding tracks_def by (simp only: foldl_append foldl_held_keys foldl_held_buttons) simp
  ultimately show ?thesis
    using ij' by (simp add: tracks_def held_append)
qed

lemma inject_tracks:
  assumes "tracks ij h" and "inject ev d ij h = (r, ij', h')" and "r = Inr () \<or> ev \<noteq> I_ReleaseAll"
  shows "tracks ij' h'"
  using assms
proof (cases ev)
  case (I_Text s)
  then obtain n where "ho_events h' = ho_events h @ take n (text_events s)" "ij' = ij"
    using assms(2) send_input_events [of "text_events s" h] by (auto split: prod.splits)
  then show ?thesis
    using assms(1) by (simp add: tracks_def held_append foldl_held_text)
next
  case I_ReleaseAll
  then show ?thesis
    using assms injector_release_Inr by auto
qed (auto simp: tracks_def held_append keyboard_def mouse_def button_flag_def set_insort_insert
    distinct_insort_insert sorted_insort_insert sorted_remove1
    dest!: send_input_one split: prod.splits sum.splits if_splits)

lemma injector_apply_tracks:
  assumes "tracks ij h" and "injector_apply ev d consent ij h = (r, ij', h')" and "r = Inr () \<or> ev \<noteq> I_ReleaseAll"
  shows "tracks ij' h'"
proof -
  have t: "tracks ij (h\<lparr>ho_calls := n\<rparr>)" for n
    using assms(1) by (simp add: tracks_def)
  then show ?thesis
    using assms inject_tracks [OF t]
    by (auto simp: injector_apply_def check_desktop_def split: sum.splits dest: inject_tracks)
qed

lemma injector_apply_denied:
  assumes "consent_require consent P_Input = Inl e" and "injector_apply ev d consent ij h = (r, ij', h')"
  shows "r = Inl (DE_Permission e) \<and> ij' = ij \<and> h' = h"
  using assms by (auto simp: injector_apply_def)

text \<open>The host's reader: events are applied until one fails, and what is held is released at the end.\<close>

fun inject_run ::
  "consent \<Rightarrow> (input \<times> display) list \<Rightarrow> injector \<Rightarrow> host \<Rightarrow> (desktop_error + unit) \<times> injector \<times> host" where
  "inject_run consent [] ij h = (Inr (), ij, h)"
| "inject_run consent ((ev, d) # evs) ij h =
     (case injector_apply ev d consent ij h of
        (Inl e, ij, h) \<Rightarrow> (Inl e, ij, h)
      | (Inr _, ij, h) \<Rightarrow> inject_run consent evs ij h)"

lemma inject_run_tracks:
  "tracks ij h \<Longrightarrow> inject_run consent evs ij h = (r, ij', h') \<Longrightarrow> r = Inr () \<or> I_ReleaseAll \<notin> fst ` set evs \<Longrightarrow> tracks ij' h'"
proof (induction consent evs ij h rule: inject_run.induct)
  case (2 consent ev d evs ij h)
  obtain q i1 h1 where a: "injector_apply ev d consent ij h = (q, i1, h1)"
    using prod_cases3 by blast
  have "tracks i1 h1" if "q = Inr () \<or> ev \<noteq> I_ReleaseAll"
    using injector_apply_tracks [OF "2.prems"(1) a that] .
  then show ?case
    using 2 a by (cases q) auto
qed simp

lemma inject_run_denied:
  assumes "consent_require consent P_Input = Inl e" and "inject_run consent evs ij h = (r, ij', h')"
  shows "ij' = ij \<and> h' = h"
proof (cases evs)
  case (Cons ev evs)
  then show ?thesis
    using assms by (cases ev) (simp add: injector_apply_def)
qed (use assms in simp)

text \<open>Nothing stays pressed. Whatever events a viewer sends, in any order, and wherever they stop
  because an event is invalid, the permission is missing, the desktop is locked or Windows takes fewer
  entries than it was given: when the final release goes through, no key and no button is held down on
  the host. And without the input permission nothing at all was injected.\<close>

theorem input_released:
  assumes "inject_run consent evs injector_default (h\<lparr>ho_events := []\<rparr>) = (r, ij, h1)"
    and "injector_release ij h1 = (Inr (), ij', h2)"
    and "r = Inr () \<or> I_ReleaseAll \<notin> fst ` set evs"
  shows "held (ho_events h2) = ({}, {}) \<and> (consent_require consent P_Input \<noteq> Inr () \<longrightarrow> ho_events h2 = [])"
proof -
  have t: "tracks injector_default (h\<lparr>ho_events := []\<rparr>)"
    by (simp add: tracks_def injector_default_def)
  have "held (ho_events h2) = ({}, {})"
    using injector_release_Inr [OF inject_run_tracks [OF t assms(1,3)] assms(2)] by simp
  moreover have "ho_events h2 = []" if denied: "consent_require consent P_Input \<noteq> Inr ()"
  proof -
    obtain e where e: "consent_require consent P_Input = Inl e"
      using denied by (cases "consent_require consent P_Input") auto
    have "ho_events h1 = []" "ij = injector_default"
      using inject_run_denied [OF e assms(1)] by auto
    then show ?thesis
      using assms(2) by (simp add: injector_release_def injector_default_def send_input_def)
  qed
  ultimately show ?thesis
    by blast
qed

subsection \<open>The text clipboard\<close>

text \<open>What Windows reports of its clipboard: whether it opens, the units of its text if it holds any, the
  size of their memory in bytes, whether the memory locks.\<close>

record clip_probe =
  cb_open :: bool
  cb_data :: "nat list option"
  cb_size :: nat
  cb_lock :: bool

(* @src crates/sensor-windows/src/clipboard.rs:10-49 bounded_text *)
definition bounded_text :: "clip_probe \<Rightarrow> rstr option" where
  "bounded_text p =
     (if \<not> cb_open p then None
      else case cb_data p of
          None \<Rightarrow> None
        | Some data \<Rightarrow>
            if \<not> (2 \<le> cb_size p \<and> cb_size p \<le> (MAX_CLIPBOARD_BYTES + 1) * 2) \<or> cb_size p mod 2 \<noteq> 0 then None
            else if \<not> cb_lock p then None
            else let units = take (cb_size p div 2) data
              in if 0 \<notin> set units then None else from_utf16 (takeWhile (\<lambda>u. u \<noteq> 0) units))"

(* @src crates/sensor-windows/src/clipboard.rs:51-55 TextClipboard *)
record text_clipboard =
  tx_clipboard :: bool
  tx_fingerprint :: "bytes option"

definition clipboard_default :: text_clipboard where
  "clipboard_default = \<lparr>tx_clipboard = False, tx_fingerprint = None\<rparr>"

definition text_digest :: "crypto_lib \<Rightarrow> rstr \<Rightarrow> bytes" where
  "text_digest L s = sha256 L (as_bytes s)"

(* @src crates/sensor-windows/src/clipboard.rs:69-76 TextClipboard::observe *)
definition clip_observe :: "crypto_lib \<Rightarrow> rstr \<Rightarrow> text_clipboard \<Rightarrow> rstr option \<times> text_clipboard" where
  "clip_observe L s cb =
     (if \<not> is_ok (validate_clipboard s) then (None, cb)
      else let digest = text_digest L s; previous = tx_fingerprint cb
        in (if previous \<noteq> None \<and> previous \<noteq> Some digest then Some s else None, cb\<lparr>tx_fingerprint := Some digest\<rparr>))"

(* @src crates/sensor-windows/src/clipboard.rs:58-67 TextClipboard::poll *)
definition clip_poll ::
  "crypto_lib \<Rightarrow> bool \<Rightarrow> consent \<Rightarrow> clip_probe \<Rightarrow> text_clipboard \<Rightarrow> rstr option \<times> text_clipboard" where
  "clip_poll L enabled consent p cb =
     (if \<not> enabled \<or> \<not> is_ok (consent_require consent P_ClipboardText) then (None, cb\<lparr>tx_fingerprint := None\<rparr>)
      else case bounded_text p of None \<Rightarrow> (None, cb) | Some s \<Rightarrow> clip_observe L s cb)"

datatype clip_error = CE_Permission permission_error | CE_Media media_error | CE_Unavailable | CE_Busy

text \<open>\<open>opens\<close> and \<open>sets\<close>: whether the clipboard can be opened and written.\<close>

(* @src crates/sensor-windows/src/clipboard.rs:78-97 TextClipboard::apply *)
definition clip_apply ::
  "crypto_lib \<Rightarrow> rstr \<Rightarrow> bool \<Rightarrow> consent \<Rightarrow> bool \<Rightarrow> bool \<Rightarrow> text_clipboard \<Rightarrow> (clip_error + bool) \<times> text_clipboard" where
  "clip_apply L s enabled consent opens sets cb =
     (case res_bind (map_err CE_Permission (consent_require consent P_ClipboardText))
          (\<lambda>_. map_err CE_Media (validate_clipboard s)) of
        Inl e \<Rightarrow> (Inl e, cb)
      | Inr _ \<Rightarrow>
          if \<not> enabled then (Inr False, cb)
          else if \<not> tx_clipboard cb \<and> \<not> opens then (Inl CE_Unavailable, cb)
          else let cb = cb\<lparr>tx_clipboard := True\<rparr>
            in if \<not> sets then (Inl CE_Busy, cb)
               else (Inr True, cb\<lparr>tx_fingerprint := Some (text_digest L s)\<rparr>))"

datatype clip_op =
    CO_Poll bool clip_probe
  | CO_Apply rstr bool bool bool

fun clip_step :: "crypto_lib \<Rightarrow> consent \<Rightarrow> text_clipboard \<Rightarrow> clip_op \<Rightarrow> text_clipboard" where
  "clip_step L consent cb (CO_Poll enabled p) = snd (clip_poll L enabled consent p cb)"
| "clip_step L consent cb (CO_Apply s enabled opens sets) = snd (clip_apply L s enabled consent opens sets cb)"

text \<open>The specification: the text that was last seen on the clipboard, by reading it or by writing it,
  since synchronization was last switched off.\<close>

fun last_seen :: "consent \<Rightarrow> bool \<times> rstr option \<Rightarrow> clip_op \<Rightarrow> bool \<times> rstr option" where
  "last_seen consent (opened, seen) (CO_Poll enabled p) =
     (if \<not> enabled \<or> \<not> is_ok (consent_require consent P_ClipboardText) then (opened, None)
      else case bounded_text p of
          None \<Rightarrow> (opened, seen)
        | Some s \<Rightarrow> (opened, if is_ok (validate_clipboard s) then Some s else seen))"
| "last_seen consent (opened, seen) (CO_Apply s enabled opens sets) =
     (if \<not> is_ok (consent_require consent P_ClipboardText) \<or> \<not> is_ok (validate_clipboard s) \<or> \<not> enabled \<or>
        \<not> (opened \<or> opens) then (opened, seen)
      else (True, if sets then Some s else seen))"

definition clip_run :: "crypto_lib \<Rightarrow> consent \<Rightarrow> clip_op list \<Rightarrow> text_clipboard" where
  "clip_run L consent ops = foldl (clip_step L consent) clipboard_default ops"

definition seen_text :: "consent \<Rightarrow> clip_op list \<Rightarrow> rstr option" where
  "seen_text consent ops = snd (foldl (last_seen consent) (False, None) ops)"

lemma clip_step_last_seen:
  "tx_clipboard (clip_step L consent cb c) = fst (last_seen consent (tx_clipboard cb, seen) c) \<and>
   (tx_fingerprint cb = map_option (text_digest L) seen \<longrightarrow>
     tx_fingerprint (clip_step L consent cb c) = map_option (text_digest L) (snd (last_seen consent (tx_clipboard cb, seen) c)))"
  by (cases c) (auto simp: clip_poll_def clip_observe_def clip_apply_def Let_def res_simps split: option.splits sum.splits)

lemma clip_run_seen: "tx_fingerprint (clip_run L consent ops) = map_option (text_digest L) (seen_text consent ops)"
proof -
  have "tx_clipboard (clip_run L consent ops) = fst (foldl (last_seen consent) (False, None) ops) \<and>
    tx_fingerprint (clip_run L consent ops) = map_option (text_digest L) (snd (foldl (last_seen consent) (False, None) ops))"
  proof (induction ops rule: rev_induct)
    case (snoc c ops)
    obtain opened seen where f: "foldl (last_seen consent) (False, None) ops = (opened, seen)"
      by fastforce
    show ?case
      using snoc clip_step_last_seen [of L consent "clip_run L consent ops" c seen] f by (simp add: clip_run_def)
  qed (simp add: clip_run_def clipboard_default_def)
  then show ?thesis
    by (simp add: seen_text_def)
qed

text \<open>The clipboard does not echo or leak. After any sequence of polls and of texts received from the
  peer, a poll sends a text only while synchronization is on and permitted, only a valid text that is on
  the clipboard now, and only if another text was seen there since synchronization was last switched on:
  so never what the peer just sent, never the same text twice in a row, and never what lay on the
  clipboard before.\<close>

theorem clipboard_no_echo:
  assumes "clip_poll L enabled consent p (clip_run L consent ops) = (Some s, cb)"
  shows "enabled \<and> consent_require consent P_ClipboardText = Inr () \<and> bounded_text p = Some s \<and>
    validate_clipboard s = Inr () \<and> (\<exists>t. seen_text consent ops = Some t \<and> t \<noteq> s)"
  using assms by (auto simp: clip_poll_def clip_observe_def clip_run_seen Let_def res_simps
      split: if_splits option.splits)

subsection \<open>Typed text\<close>

text \<open>\<open>is_char_boundary\<close>, and splitting there.\<close>

fun is_char_boundary :: "rstr \<Rightarrow> nat \<Rightarrow> bool" where
  "is_char_boundary [] n \<longleftrightarrow> n = 0"
| "is_char_boundary (c # s) n \<longleftrightarrow>
     n = 0 \<or> (length (utf8_char c) \<le> n \<and> is_char_boundary s (n - length (utf8_char c)))"

fun split_bytes :: "rstr \<Rightarrow> nat \<Rightarrow> rstr \<times> rstr" where
  "split_bytes [] n = ([], [])"
| "split_bytes (c # s) n =
     (if n = 0 then ([], c # s)
      else case split_bytes s (n - length (utf8_char c)) of (a, b) \<Rightarrow> (c # a, b))"

(* @src crates/sensor-desktop/src/remote_input.rs:18-20 text_input, the boundary *)
fun retreat :: "rstr \<Rightarrow> nat \<Rightarrow> nat" where
  "retreat s 0 = 0"
| "retreat s (Suc e) = (if is_char_boundary s (Suc e) then Suc e else retreat s e)"

lemma split_bytes_boundary:
  "is_char_boundary s n \<Longrightarrow> split_bytes s n = (a, b) \<Longrightarrow> s = a @ b \<and> str_len a = n"
  by (induction s n arbitrary: a b rule: split_bytes.induct) (auto simp: str_len_Cons split: if_splits prod.splits)

lemma retreat_boundary: "is_char_boundary s (retreat s e) \<and> retreat s e \<le> e"
  by (induction e) (auto elim: is_char_boundary.elims, cases s, auto)

lemma retreat_pos:
  assumes "s \<noteq> []" and "length (utf8_char (hd s)) \<le> e"
  shows "0 < retreat s e"
proof -
  have b: "is_char_boundary s (length (utf8_char (hd s)))"
    using assms(1) by (cases s) (simp_all, metis is_char_boundary.elims(3))
  have "is_char_boundary s m \<Longrightarrow> m \<le> e \<Longrightarrow> m \<le> retreat s e" for m
    by (induction e) (auto simp: le_Suc_eq)
  from this [OF b assms(2)] show ?thesis
    using utf8_char_pos [of "hd s"] by linarith
qed

definition next_packet :: "rstr \<Rightarrow> rstr \<times> rstr" where
  "next_packet s = split_bytes s (retreat s (min (str_len s) 1024))"

lemma next_packet:
  assumes "next_packet s = (a, b)" and "s \<noteq> []"
  shows "s = a @ b \<and> a \<noteq> [] \<and> str_len a \<le> 1024"
proof -
  let ?e = "retreat s (min (str_len s) 1024)"
  have "length (utf8_char (hd s)) \<le> min (str_len s) 1024"
    using assms(2) utf8_char_le4 [of "hd s"] by (cases s) (auto simp: str_len_Cons)
  then have "0 < ?e"
    using assms(2) by (rule retreat_pos [rotated])
  moreover have "s = a @ b" "str_len a = ?e" "?e \<le> 1024"
    using split_bytes_boundary assms(1) retreat_boundary [of s "min (str_len s) 1024"]
    by (auto simp: next_packet_def)
  ultimately show ?thesis
    by (metis less_numeral_extra(3) str_len_Nil)
qed

(* @src crates/sensor-desktop/src/remote_input.rs:14-24 text_input, the packets *)
function cut_text :: "rstr \<Rightarrow> input list" where
  "cut_text s =
     (if s = [] then [] else case next_packet s of (packet, rest) \<Rightarrow> I_Text packet # cut_text rest)"
  by pat_completeness auto
termination
  by (relation "measure length") (auto dest!: next_packet [OF sym])

declare cut_text.simps [simp del]

datatype viewport_event = VE_Text rstr | VE_Paste rstr | VE_Other

(* @src crates/sensor-desktop/src/remote_input.rs:8-26 text_input *)
definition text_input :: "viewport_event \<Rightarrow> (unit + input list) option" where
  "text_input ev =
     (case (case ev of VE_Text s \<Rightarrow> Some s | VE_Paste s \<Rightarrow> Some s | VE_Other \<Rightarrow> None) of
        None \<Rightarrow> None
      | Some s \<Rightarrow> Some (if str_len s > MAX_CLIPBOARD_BYTES \<or> list_ex is_control s then Inl () else Inr (cut_text s)))"

lemma cut_text_chunks:
  "\<exists>chunks. cut_text s = map I_Text chunks \<and> concat chunks = s \<and> list_all (\<lambda>c. c \<noteq> [] \<and> str_len c \<le> 1024) chunks"
proof (induction s rule: cut_text.induct)
  case (1 s)
  show ?case
  proof (cases "s = []")
    case False
    obtain a b where p: "next_packet s = (a, b)"
      by fastforce
    note n = next_packet [OF p False]
    obtain chunks where "cut_text b = map I_Text chunks" "concat chunks = b"
      "list_all (\<lambda>c. c \<noteq> [] \<and> str_len c \<le> 1024) chunks"
      using 1 [OF False p [symmetric]] by blast
    then show ?thesis
      using n p False by (subst cut_text.simps) (auto intro!: exI [of _ "a # chunks"])
  qed (simp add: cut_text.simps)
qed

text \<open>Typed text arrives complete. Text or a paste is refused exactly when it exceeds 64 KiB or has a
  control character; otherwise it becomes packets that are not empty, that the host accepts on any
  display, and whose texts in order are exactly what was typed, no character cut in two.\<close>

theorem typed_text_complete:
  "text_input (VE_Paste s) = text_input (VE_Text s) \<and>
   (case text_input (VE_Text s) of
      Some (Inl _) \<Rightarrow> str_len s > MAX_CLIPBOARD_BYTES \<or> list_ex is_control s
    | Some (Inr packets) \<Rightarrow> \<exists>chunks. packets = map I_Text chunks \<and> concat chunks = s \<and> [] \<notin> set chunks \<and>
        list_all (\<lambda>p. input_validate d p = Inr ()) packets
    | None \<Rightarrow> False)"
proof (cases "str_len s > MAX_CLIPBOARD_BYTES \<or> list_ex is_control s")
  case True
  then show ?thesis
    by (auto simp: text_input_def)
next
  case False
  obtain chunks where c: "cut_text s = map I_Text chunks" "concat chunks = s" "list_all (\<lambda>c. c \<noteq> [] \<and> str_len c \<le> 1024) chunks"
    using cut_text_chunks by blast
  have "\<not> list_ex is_control c" if "c \<in> set chunks" for c
    using False that c(2) by (force simp: list_ex_iff)
  then have "list_all (\<lambda>p. input_validate d p = Inr ()) (cut_text s)" "[] \<notin> set chunks"
    using c by (auto simp: list_all_iff)
  then show ?thesis
    using False c by (auto simp: text_input_def)
qed

subsection \<open>A concrete host\<close>

definition demo_probe :: probe where
  "demo_probe = \<lparr>pb_version = Some (10, 0, 19045), pb_session = Some (Some \<lparr>wi_level = 1, wi_active = True, wi_flags = 1\<rparr>),
     pb_open = True, pb_name = Some (lit ''Default'' @ [0])\<rparr>"

lemma demo_probe_ok: "interactive_desktop demo_probe = Inr ()"
  by (simp add: interactive_desktop_def demo_probe_def os_version_def session_unlocked_def from_utf16_lossy_def lit_def)

definition demo_host :: host where
  "demo_host = \<lparr>ho_probe = (\<lambda>_. demo_probe), ho_takes = (\<lambda>_. None), ho_calls = 0, ho_screen = (0, 0, 1920, 1080), ho_events = []\<rparr>"

definition demo_display :: display where
  "demo_display = \<lparr>ds_index = 0, ds_name = lit ''test'', ds_left = 0, ds_top = 0, ds_width = 1920, ds_height = 1080\<rparr>"

definition demo_granted :: "permission list \<Rightarrow> consent" where
  "demo_granted ps = snd (consent_accept (perms_of ps) (consent_pending (perms_of ps)))"

lemma demo_granted_input: "consent_require (demo_granted [P_Input]) P_Input = Inr ()"
  by code_simp

lemma demo_granted_clipboard: "consent_require (demo_granted [P_ClipboardText]) P_ClipboardText = Inr ()"
  by code_simp

lemma input_released_witness:
  "\<exists>h1 h2. inject_run (demo_granted [P_Input]) [(I_Key 65 True, demo_display), (I_Button MB_Left True, demo_display)]
       injector_default demo_host = (Inr (), \<lparr>ij_keys = [65], ij_buttons = [MB_Left]\<rparr>, h1) \<and>
     held (ho_events h1) = ({65}, {MB_Left}) \<and>
     injector_release \<lparr>ij_keys = [65], ij_buttons = [MB_Left]\<rparr> h1 = (Inr (), injector_default, h2) \<and> held (ho_events h2) = ({}, {})"
proof -
  let ?c = "demo_granted [P_Input]" and ?evs = "[(I_Key 65 True, demo_display), (I_Button MB_Left True, demo_display)]"
  obtain h1 where h1: "inject_run ?c ?evs injector_default (demo_host\<lparr>ho_events := []\<rparr>) =
      (Inr (), \<lparr>ij_keys = [65], ij_buttons = [MB_Left]\<rparr>, h1)"
    "held (ho_events h1) = ({65}, {MB_Left})" "ho_probe h1 = (\<lambda>_. demo_probe)" "ho_takes h1 = (\<lambda>_. None)"
    by (simp add: injector_apply_def demo_granted_input demo_host_def check_desktop_def demo_probe_ok send_input_def
        injector_default_def keyboard_def mouse_def button_flag_def held_def insort_insert_key_def)
  moreover obtain h2 where h2: "injector_release \<lparr>ij_keys = [65], ij_buttons = [MB_Left]\<rparr> h1 = (Inr (), injector_default, h2)"
    using h1(3,4) by (simp add: injector_release_def send_input_def check_desktop_def demo_probe_ok injector_default_def)
  moreover have "held (ho_events h2) = ({}, {})"
    using input_released [OF h1(1) h2] by simp
  moreover have "demo_host\<lparr>ho_events := []\<rparr> = demo_host"
    by (simp add: demo_host_def)
  ultimately show ?thesis
    by (intro exI [of _ h1] exI [of _ h2]) simp
qed

definition demo_clip :: "string \<Rightarrow> clip_probe" where
  "demo_clip s = \<lparr>cb_open = True, cb_data = Some (lit s @ [0]), cb_size = 2 * (length s + 1), cb_lock = True\<rparr>"

lemma clipboard_no_echo_witness:
  "\<exists>cb. clip_poll demo_lib True (demo_granted [P_ClipboardText]) (demo_clip ''b'')
       (clip_run demo_lib (demo_granted [P_ClipboardText]) [CO_Poll True (demo_clip ''a'')]) = (Some (lit ''b''), cb) \<and>
     seen_text (demo_granted [P_ClipboardText]) [CO_Poll True (demo_clip ''a'')] = Some (lit ''a'')"
proof -
  let ?c = "demo_granted [P_ClipboardText]" and ?ops = "[CO_Poll True (demo_clip ''a'')]"
  have t: "bounded_text (demo_clip [x]) = Some (lit [x])" if "x = CHR ''a'' \<or> x = CHR ''b''" for x
    using that by (auto simp: bounded_text_def demo_clip_def MAX_CLIPBOARD_BYTES_def from_utf16_def lit_def)
  have v: "validate_clipboard (lit [x]) = Inr ()" if "x = CHR ''a'' \<or> x = CHR ''b''" for x
    using that by (auto simp: validate_clipboard_def lit_def str_len_Cons MAX_CLIPBOARD_BYTES_def)
  have s: "seen_text ?c ?ops = Some (lit ''a'')"
    by (simp add: seen_text_def demo_granted_clipboard t v)
  have "text_digest demo_lib (lit ''a'') \<noteq> text_digest demo_lib (lit ''b'')"
    by (simp add: text_digest_def demo_lib_def lit_def as_bytes_Cons)
  then obtain cb where p: "clip_poll demo_lib True ?c (demo_clip ''b'') (clip_run demo_lib ?c ?ops) = (Some (lit ''b''), cb)"
    by (simp add: clip_poll_def clip_observe_def demo_granted_clipboard t v clip_run_seen s Let_def)
  then show ?thesis
    using clipboard_no_echo [OF p] s by auto
qed

end
