(* ===== verification/Sensor_Control.thy ===== *)
theory Sensor_Control
  imports Sensor_Client Sensor_Pixels
begin

section \<open>sensor-desktop: controlling a session\<close>

text \<open>
  A session of the desktop application runs on worker threads; the window holds a \<open>Control\<close> that the
  threads share: whether the session is cancelled or was stopped by the user, the handle that aborts
  its socket, the bounded queue to the thread that writes, whether the clipboard is synchronized, the
  last picture and counters. Each operation is one step on this state. The lemmas show what a stop
  means: that nothing the user does afterwards reaches the peer, that a cancelled session has no live
  socket, and that the clipboard is never on without the session's permission.
\<close>

subsection \<open>State\<close>

text \<open>
  The handles of the sockets are numbered; \<open>ct_aborted\<close> are those that were shut down. \<open>ct_sender\<close>:
  whether the window holds a sender of the queue, whose contents, capacity and receiver are next. The
  counters are 64 bits and wrap.
\<close>

(* @src crates/sensor-desktop/src/worker.rs:103-118 Control *)
record control =
  ct_cancelled :: bool
  ct_local_stop :: bool
  ct_socket :: "nat option"
  ct_aborted :: "nat list"
  ct_sender :: bool
  ct_queue :: "desktop_message list"
  ct_capacity :: nat
  ct_receiver :: bool
  ct_frame :: "decoded_frame option"
  ct_clip_enabled :: bool
  ct_clip_allowed :: bool
  ct_decoded :: u64
  ct_video_bytes :: u64
  ct_rtt :: u64
  ct_captured :: u64
  ct_encoded :: u64
  ct_telemetry :: "telemetry option"
  ct_presented :: u64

definition control_default :: control where
  "control_default =
     \<lparr>ct_cancelled = False, ct_local_stop = False, ct_socket = None, ct_aborted = [], ct_sender = False,
      ct_queue = [], ct_capacity = 256, ct_receiver = False, ct_frame = None, ct_clip_enabled = False,
      ct_clip_allowed = False, ct_decoded = 0, ct_video_bytes = 0, ct_rtt = 0, ct_captured = 0, ct_encoded = 0,
      ct_telemetry = None, ct_presented = 0\<rparr>"

datatype send_result = Sent | Queue_Full | Disconnected

text \<open>\<open>SyncSender::try_send\<close>.\<close>

definition try_send :: "desktop_message \<Rightarrow> control \<Rightarrow> send_result \<times> control" where
  "try_send m c =
     (if \<not> ct_receiver c then (Disconnected, c)
      else if length (ct_queue c) \<ge> ct_capacity c then (Queue_Full, c)
      else (Sent, c\<lparr>ct_queue := ct_queue c @ [m]\<rparr>))"

subsection \<open>Operations\<close>

(* @src crates/sensor-desktop/src/worker.rs:123-125 Control::mark_presented *)
definition mark_presented :: "control \<Rightarrow> control" where
  "mark_presented c = c\<lparr>ct_presented := ct_presented c + 1\<rparr>"

(* @src crates/sensor-desktop/src/worker.rs:129-135 Control::set_clipboard_enabled *)
definition set_clipboard_enabled :: "bool \<Rightarrow> control \<Rightarrow> control" where
  "set_clipboard_enabled enabled c = c\<lparr>ct_clip_enabled := enabled \<and> ct_clip_allowed c\<rparr>"

(* @src crates/sensor-desktop/src/worker.rs:136-139 Control::grant_clipboard *)
definition grant_clipboard :: "bool \<Rightarrow> control \<Rightarrow> control" where
  "grant_clipboard allowed c = set_clipboard_enabled allowed (c\<lparr>ct_clip_allowed := allowed\<rparr>)"

(* @src crates/sensor-desktop/src/worker.rs:143-149 Control::statistics *)
definition statistics :: "control \<Rightarrow> u64 \<times> u64 \<times> u64" where
  "statistics c = (ct_decoded c, ct_video_bytes c, ct_rtt c)"

(* @src crates/sensor-desktop/src/worker.rs:150-155 Control::capture_statistics *)
definition capture_statistics :: "control \<Rightarrow> u64 \<times> u64" where
  "capture_statistics c = (ct_captured c, ct_encoded c)"

(* @src crates/sensor-desktop/src/worker.rs:188-194 Control::close_socket *)
definition close_socket :: "control \<Rightarrow> control" where
  "close_socket c =
     (case ct_socket c of None \<Rightarrow> c | Some s \<Rightarrow> c\<lparr>ct_socket := None, ct_aborted := s # ct_aborted c\<rparr>)"

(* @src crates/sensor-desktop/src/worker.rs:184-187 Control::abort *)
definition control_abort :: "control \<Rightarrow> control" where
  "control_abort c = close_socket (c\<lparr>ct_cancelled := True\<rparr>)"

text \<open>
  The result says whether the thread was started that waits for the peer to close, for at most 750
  milliseconds, and then aborts (\<open>grace_end\<close>).
\<close>

(* @src crates/sensor-desktop/src/worker.rs:156-180 Control::stop *)
definition control_stop :: "control \<Rightarrow> bool \<times> control" where
  "control_stop c =
     (if ct_local_stop c then (False, control_abort c)
      else let c = set_clipboard_enabled False (c\<lparr>ct_local_stop := True\<rparr>);
               held = ct_sender c;
               c = c\<lparr>ct_sender := False\<rparr>
        in if held
           then (case try_send DM_Close c of
               (Sent, c) \<Rightarrow> (True, c)
             | (_, c) \<Rightarrow> (False, control_abort c))
           else (False, control_abort c))"

(* @src crates/sensor-desktop/src/worker.rs:171-175 Control::stop, the waiting thread *)
fun grace_wait :: "nat \<Rightarrow> (nat \<times> bool) list \<Rightarrow> control \<Rightarrow> control option" where
  "grace_wait until [] c = None"
| "grace_wait until ((now, stopped) # polls) c =
     (if \<not> stopped \<and> now < until then grace_wait until polls c else Some (control_abort c))"

(* @src crates/sensor-desktop/src/worker.rs:198-226 Control::send_remote *)
definition send_remote :: "desktop_message \<Rightarrow> control \<Rightarrow> bool \<times> control" where
  "send_remote m c =
     (if ct_local_stop c \<or> ct_cancelled c then (False, c)
      else if \<not> ct_sender c then (False, c)
      else case try_send m c of
          (Sent, c) \<Rightarrow> (True, c)
        | (Disconnected, c) \<Rightarrow> (False, c)
        | (Queue_Full, c) \<Rightarrow> (False, c\<lparr>ct_cancelled := True,
            ct_aborted := (case ct_socket c of None \<Rightarrow> ct_aborted c | Some s \<Rightarrow> s # ct_aborted c)\<rparr>))"

(* @src crates/sensor-desktop/src/worker.rs:234-238 Control::set_remote_sender *)
definition set_remote_sender :: "nat \<Rightarrow> control \<Rightarrow> control" where
  "set_remote_sender capacity c =
     c\<lparr>ct_sender := True, ct_queue := [], ct_capacity := capacity, ct_receiver := True\<rparr>"

(* @src crates/sensor-desktop/src/worker.rs:240-244 Control::clear_remote_sender *)
definition clear_remote_sender :: "control \<Rightarrow> control" where
  "clear_remote_sender c = c\<lparr>ct_sender := False\<rparr>"

(* @src crates/sensor-desktop/src/worker.rs:246-251 Control::publish_frame *)
definition publish_frame :: "decoded_frame \<Rightarrow> control \<Rightarrow> control" where
  "publish_frame f c = c\<lparr>ct_decoded := ct_decoded c + 1, ct_frame := Some f\<rparr>"

text \<open>Keeping the handle of a new socket; it may fail to be made.\<close>

(* @src crates/sensor-desktop/src/worker.rs:252-264 Control::socket *)
definition control_socket :: "io_error + nat \<Rightarrow> control \<Rightarrow> (io_error option + unit) \<times> control" where
  "control_socket handle c =
     (case handle of
        Inl e \<Rightarrow> (Inl (Some e), c)
      | Inr s \<Rightarrow>
          if ct_cancelled c then (Inl None, c\<lparr>ct_aborted := s # ct_aborted c\<rparr>)
          else (Inr (), c\<lparr>ct_socket := Some s\<rparr>))"

subsection \<open>What a stop means\<close>

text \<open>The operations of the window, of the threads and of the waiting thread, in any order.\<close>

datatype control_op =
    Op_Send desktop_message
  | Op_Stop
  | Op_Grace
  | Op_Abort
  | Op_Close_Socket
  | Op_Socket "io_error + nat"
  | Op_Sender nat
  | Op_Clear_Sender
  | Op_Taken
  | Op_Enable bool
  | Op_Grant bool
  | Op_Frame decoded_frame

text \<open>The state after a step, and whether a message of the viewer was accepted. \<open>Op_Taken\<close> is the
  writing thread taking a message from the queue.\<close>

fun control_step :: "control \<Rightarrow> control_op \<Rightarrow> bool \<times> control" where
  "control_step c (Op_Send m) = send_remote m c"
| "control_step c Op_Stop = (False, snd (control_stop c))"
| "control_step c Op_Grace = (False, control_abort c)"
| "control_step c Op_Abort = (False, control_abort c)"
| "control_step c Op_Close_Socket = (False, close_socket c)"
| "control_step c (Op_Socket h) = (False, snd (control_socket h c))"
| "control_step c (Op_Sender n) = (False, set_remote_sender n c)"
| "control_step c Op_Clear_Sender = (False, clear_remote_sender c)"
| "control_step c Op_Taken = (False, c\<lparr>ct_queue := tl (ct_queue c)\<rparr>)"
| "control_step c (Op_Enable e) = (False, set_clipboard_enabled e c)"
| "control_step c (Op_Grant a) = (False, grant_clipboard a c)"
| "control_step c (Op_Frame f) = (False, publish_frame f c)"

definition control_run :: "control \<Rightarrow> control_op list \<Rightarrow> control" where
  "control_run c ops = foldl (\<lambda>c op. snd (control_step c op)) c ops"

lemmas control_defs = mark_presented_def set_clipboard_enabled_def grant_clipboard_def close_socket_def
  control_abort_def control_stop_def send_remote_def set_remote_sender_def clear_remote_sender_def
  publish_frame_def control_socket_def try_send_def

definition control_inv :: "control \<Rightarrow> bool" where
  "control_inv c \<longleftrightarrow> (ct_clip_enabled c \<longrightarrow> ct_clip_allowed c) \<and>
     (ct_cancelled c \<longrightarrow> set_option (ct_socket c) \<subseteq> set (ct_aborted c))"

lemma control_step_inv: "control_inv c \<Longrightarrow> control_inv (snd (control_step c op))"
  by (cases op) (auto simp: control_inv_def control_defs Let_def split: if_splits option.splits sum.splits)

lemma control_step_stop:
  "ct_local_stop c \<Longrightarrow> ct_local_stop (snd (control_step c op)) \<and> \<not> fst (control_step c op) \<and>
     (ct_cancelled c \<longrightarrow> ct_cancelled (snd (control_step c op)))"
  by (cases op) (auto simp: control_defs Let_def split: if_splits option.splits sum.splits)

lemma control_run_simps [simp]:
  "control_run c [] = c" "control_run c (op # ops) = control_run (snd (control_step c op)) ops"
  "control_run c (ops @ ops') = control_run (control_run c ops) ops'"
  by (simp_all add: control_run_def)

lemma control_run_inv: "control_inv c \<Longrightarrow> control_inv (control_run c ops)"
  by (induction ops arbitrary: c) (auto intro: control_step_inv)

lemma control_run_stopped:
  "ct_local_stop c \<Longrightarrow> ct_local_stop (control_run c ops) \<and> (ct_cancelled c \<longrightarrow> ct_cancelled (control_run c ops))"
proof (induction ops arbitrary: c)
  case (Cons op ops)
  then show ?case
    using control_step_stop [of c op] by auto
qed simp

lemma control_stop_local: "ct_local_stop (snd (control_stop c))"
  by (auto simp: control_defs Let_def split: option.splits)

text \<open>A stop is final. After the user stops a session, whatever the window and the worker threads do
  and in whatever order: the session counts as stopped by the user, no message of the viewer is
  accepted for the peer any more, and once it is cancelled, by the peer closing or by the wait running
  out, it stays cancelled and every socket it ever gets hold of is shut down. The clipboard is
  synchronized at no time without the session's permission.\<close>

theorem stop_is_final:
  "ct_local_stop (control_run control_default (before @ Op_Stop # after)) \<and>
   \<not> fst (control_step (control_run control_default (before @ Op_Stop # after)) (Op_Send m)) \<and>
   ct_cancelled (control_run control_default (before @ Op_Stop # after @ Op_Grace # rest)) \<and>
   set_option (ct_socket (control_run control_default (before @ Op_Stop # after @ Op_Grace # rest))) \<subseteq>
     set (ct_aborted (control_run control_default (before @ Op_Stop # after @ Op_Grace # rest))) \<and>
   (if ct_clip_enabled (control_run control_default ops) then ct_clip_allowed (control_run control_default ops) else True)"
proof -
  let ?stopped = "control_run (snd (control_stop (control_run control_default before))) after"
  have s: "ct_local_stop ?stopped"
    using control_run_stopped control_stop_local by blast
  then have g: "ct_local_stop (control_abort ?stopped)" "ct_cancelled (control_abort ?stopped)"
    by (auto simp: control_defs split: option.splits)
  have i: "control_inv (control_run control_default ops)" for ops
    by (rule control_run_inv) (simp add: control_inv_def control_default_def)
  have c: "ct_cancelled (control_run control_default (before @ Op_Stop # after @ Op_Grace # rest))"
    using control_run_stopped [OF g(1)] g(2) by simp
  then have "set_option (ct_socket (control_run control_default (before @ Op_Stop # after @ Op_Grace # rest))) \<subseteq>
     set (ct_aborted (control_run control_default (before @ Op_Stop # after @ Op_Grace # rest)))"
    using i [of "before @ Op_Stop # after @ Op_Grace # rest"] unfolding control_inv_def by blast
  moreover have "(if ct_clip_enabled (control_run control_default ops) then ct_clip_allowed (control_run control_default ops) else True)"
    using i [of ops] by (auto simp: control_inv_def)
  ultimately show ?thesis
    using s c control_step_stop [OF s, of "Op_Send m"] by simp
qed

subsection \<open>Asking the user\<close>

text \<open>One wait of 100 milliseconds: whether the session was cancelled and the clock before it, and what
  arrived: nothing, the end of the channel, or the answer.\<close>

datatype 'a reply = No_Reply | Reply_Gone | Reply 'a

(* @src crates/sensor-desktop/src/worker.rs:304-314 wait_reply *)
fun wait_reply_loop :: "nat \<Rightarrow> (bool \<times> nat \<times> 'a reply) list \<Rightarrow> 'a option option" where
  "wait_reply_loop deadline [] = None"
| "wait_reply_loop deadline ((stopped, now, r) # polls) =
     (if stopped \<or> now \<ge> deadline then Some None
      else case r of
          Reply v \<Rightarrow> Some (Some v)
        | Reply_Gone \<Rightarrow> Some None
        | No_Reply \<Rightarrow> wait_reply_loop deadline polls)"

definition wait_reply :: "nat \<Rightarrow> (bool \<times> nat \<times> 'a reply) list \<Rightarrow> 'a option option" where
  "wait_reply start polls = wait_reply_loop (start + 120 * 1000) polls"

text \<open>
  The decision about a session: whether it is accepted by the local profile; whether the question
  reached the window; the waits. \<open>None\<close>: still waiting.
\<close>

(* @src crates/sensor-desktop/src/worker.rs:324-354 Interaction::accept *)
definition interaction_accept ::
  "bool \<Rightarrow> mode \<Rightarrow> bool \<Rightarrow> nat \<Rightarrow> (bool \<times> nat \<times> bool reply) list \<Rightarrow> control \<Rightarrow> bool option \<times> control" where
  "interaction_accept auto_accept m asked start polls c =
     (if auto_accept then (Some True, grant_clipboard (allows (mode_permissions m) P_ClipboardText) c)
      else case (if asked then wait_reply start polls else Some None) of
          None \<Rightarrow> (None, c)
        | Some answer \<Rightarrow>
            if answer = Some True then (Some True, grant_clipboard (allows (mode_permissions m) P_ClipboardText) c)
            else (Some False, c))"

(* @src crates/sensor-desktop/src/worker.rs:384-388 compose *)
definition compose :: "bool \<Rightarrow> nat \<Rightarrow> (bool \<times> nat \<times> 'a option reply) list \<Rightarrow> 'a option option" where
  "compose asked start polls =
     (if asked then map_option (\<lambda>r. case r of Some (Some t) \<Rightarrow> Some t | _ \<Rightarrow> None) (wait_reply start polls)
      else Some None)"

lemma wait_reply_loop_Some:
  "wait_reply_loop deadline polls = Some (Some v) \<Longrightarrow> \<exists>now. (False, now, Reply v) \<in> set polls \<and> now < deadline"
  by (induction deadline polls rule: wait_reply_loop.induct) (auto split: if_splits reply.splits)

text \<open>The wait ends: with the clock past the deadline there is an answer or a refusal.\<close>

lemma wait_reply_ends:
  "\<exists>(stopped, now, r) \<in> set polls. start + 120000 \<le> now \<Longrightarrow> wait_reply start polls \<noteq> None"
proof -
  have "\<exists>(stopped, now, r) \<in> set polls. d \<le> now \<Longrightarrow> wait_reply_loop d polls \<noteq> None" for d
    by (induction d polls rule: wait_reply_loop.induct) (auto split: if_splits reply.splits)
  then show "\<exists>(stopped, now, r) \<in> set polls. start + 120000 \<le> now \<Longrightarrow> wait_reply start polls \<noteq> None"
    by (simp add: wait_reply_def)
qed

text \<open>Without a local profile only a yes of the user within two minutes accepts, and a refusal gives no
  clipboard.\<close>

lemma interaction_accept_True:
  assumes "interaction_accept auto_accept m asked start polls c = (Some True, c')"
  shows "auto_accept \<or> (asked \<and> (\<exists>now. (False, now, Reply True) \<in> set polls \<and> now < start + 120000))"
  using assms wait_reply_loop_Some by (fastforce simp: interaction_accept_def wait_reply_def split: option.splits if_splits)

end
