(* ===== verification/Sensor_Reader.thy ===== *)
theory Sensor_Reader
  imports Sensor_Control Sensor_Input
begin

section \<open>sensor-desktop: the host's reader\<close>

text \<open>
  While a host shows its desktop, one thread reads the viewer's messages and injects input, and another
  captures and writes. They share the control, the bounded command queue and the target of the input:
  the generation of the video format and its display. The reader is followed under any interleaving
  with the writer's steps. The lemmas show that input is injected for the current picture only, under
  the input permission, and that nothing is held down when the reader ends.
\<close>

subsection \<open>Shared state\<close>

text \<open>The errors of the reader that the writer reports.\<close>

datatype host_failure =
    HF_Text string
  | HF_Desktop desktop_error
  | HF_Connection connection_error
  | HF_Media media_error

(* @src crates/sensor-desktop/src/worker.rs:667-680 HostCommand *)
datatype host_command =
    HC_SelectDisplay nat
  | HC_SelectVideoProfile video_profile
  | HC_Pong nat
  | HC_Close
  | HC_Failed host_failure
  | HC_Clipboard rstr
  | HC_Ack nat nat nat nat

(* @src crates/sensor-desktop/src/worker.rs:682-686 InputTarget *)
record input_target =
  nt_generation :: nat
  nt_display :: display

record host_reader =
  hr_running :: bool
  hr_control :: control
  hr_commands :: "host_command list"
  hr_receiver :: bool
  hr_target :: input_target
  hr_injector :: injector
  hr_injected :: nat
  hr_os :: host

text \<open>The queue holds 64 commands.\<close>

(* @src crates/sensor-desktop/src/worker.rs:689-700 HostCommands::send *)
definition command_send :: "host_command \<Rightarrow> host_reader \<Rightarrow> bool \<times> host_reader" where
  "command_send cmd st =
     (if \<not> hr_receiver st \<or> length (hr_commands st) \<ge> 64 then (False, st\<lparr>hr_control := control_abort (hr_control st)\<rparr>)
      else (True, st\<lparr>hr_commands := hr_commands st @ [cmd]\<rparr>))"

definition reader_release :: "host_reader \<Rightarrow> (desktop_error + unit) \<times> host_reader" where
  "reader_release st =
     (case injector_release (hr_injector st) (hr_os st) of
        (r, ij, os) \<Rightarrow> (r, st\<lparr>hr_injector := ij, hr_os := os\<rparr>))"

definition reader_fail :: "host_failure \<Rightarrow> host_reader \<Rightarrow> bool \<times> host_reader" where
  "reader_fail e st = (False, snd (command_send (HC_Failed e) st))"

subsection \<open>One message\<close>

text \<open>A step says whether the loop goes on.\<close>

(* @src crates/sensor-desktop/src/worker.rs:803-830 spawn_host_reader, Input *)
definition reader_input :: "consent \<Rightarrow> nat \<Rightarrow> input \<Rightarrow> host_reader \<Rightarrow> bool \<times> host_reader" where
  "reader_input consent generation ev st =
     (let target = hr_target st in
      if nt_generation target = 0 \<or> generation \<noteq> nt_generation target then (True, st)
      else let st = (if hr_injected st \<noteq> nt_generation target
                     then (snd (reader_release st))\<lparr>hr_injected := nt_generation target\<rparr> else st)
        in case injector_apply ev (nt_display target) consent (hr_injector st) (hr_os st) of
             (Inl e, ij, os) \<Rightarrow> reader_fail (HF_Desktop e) (st\<lparr>hr_injector := ij, hr_os := os\<rparr>)
           | (Inr _, ij, os) \<Rightarrow> (True, st\<lparr>hr_injector := ij, hr_os := os\<rparr>))"

(* @src crates/sensor-desktop/src/worker.rs:831-870 spawn_host_reader, SelectDisplay and SelectVideoProfile *)
definition reader_select :: "display list \<Rightarrow> nat + video_profile \<Rightarrow> host_reader \<Rightarrow> bool \<times> host_reader" where
  "reader_select displays choice st =
     (let index = (case choice of Inl index \<Rightarrow> index | Inr _ \<Rightarrow> ds_index (nt_display (hr_target st))) in
      if \<not> list_ex (\<lambda>d. ds_index d = index) displays then reader_fail (HF_Text ''Unknown monitor selected.'') st
      else case reader_release st of
          (Inl e, st) \<Rightarrow> reader_fail (HF_Desktop e) st
        | (Inr _, st) \<Rightarrow>
            command_send (case choice of Inl _ \<Rightarrow> HC_SelectDisplay index | Inr profile \<Rightarrow> HC_SelectVideoProfile profile)
              (st\<lparr>hr_target := (hr_target st)\<lparr>nt_generation := 0\<rparr>\<rparr>))"

(* @src crates/sensor-desktop/src/worker.rs:894-908 spawn_host_reader, ClipboardText *)
definition reader_clipboard :: "consent \<Rightarrow> rstr \<Rightarrow> host_reader \<Rightarrow> bool \<times> host_reader" where
  "reader_clipboard consent s st =
     (if \<not> is_ok (consent_require consent P_ClipboardText) \<or> \<not> is_ok (validate_clipboard s)
      then reader_fail (HF_Text ''Clipboard permission denied or invalid text.'') st
      else command_send (HC_Clipboard s) st)"

text \<open>After a close the reader waits, with the connection open, until the session is cancelled.\<close>

(* @src crates/sensor-desktop/src/worker.rs:909-920 spawn_host_reader, Close *)
definition reader_close :: "host_reader \<Rightarrow> bool \<times> host_reader" where
  "reader_close st = (False, snd (command_send HC_Close (snd (reader_release st))))"

(* @src crates/sensor-desktop/src/worker.rs:803-927 spawn_host_reader, dispatching *)
definition reader_message :: "display list \<Rightarrow> consent \<Rightarrow> client_message \<Rightarrow> host_reader \<Rightarrow> bool \<times> host_reader" where
  "reader_message displays consent m st =
     (case m of
        CM_Desktop (DM_Input generation ev) \<Rightarrow> reader_input consent generation ev st
      | CM_Desktop (DM_SelectDisplay index) \<Rightarrow> reader_select displays (Inl index) st
      | CM_Desktop (DM_SelectVideoProfile profile) \<Rightarrow> reader_select displays (Inr profile) st
      | CM_Desktop (DM_Ping v) \<Rightarrow> command_send (HC_Pong v) st
      | CM_Desktop (DM_FrameAck generation s decode_us rtt_us) \<Rightarrow> command_send (HC_Ack generation s decode_us rtt_us) st
      | CM_Desktop (DM_ClipboardText s) \<Rightarrow> reader_clipboard consent s st
      | CM_Desktop DM_Close \<Rightarrow> reader_close st
      | CM_Close \<Rightarrow> reader_close st
      | _ \<Rightarrow> reader_fail (HF_Text ''Unexpected remote desktop command.'') st)"

text \<open>Leaving the loop releases what is held.\<close>

definition reader_finish :: "host_reader \<Rightarrow> host_reader" where
  "reader_finish st = (snd (reader_release st))\<lparr>hr_running := False\<rparr>"

text \<open>\<open>late\<close>: the session was cancelled after the check at the top of the loop, during the receive.\<close>

(* @src crates/sensor-desktop/src/worker.rs:790-802 spawn_host_reader, one turn *)
definition reader_turn ::
  "display list \<Rightarrow> consent \<Rightarrow> bool \<Rightarrow> connection_error + client_message \<Rightarrow> host_reader \<Rightarrow> bool \<times> host_reader" where
  "reader_turn displays consent late received st =
     (if ct_cancelled (hr_control st) \<and> \<not> late then (False, st)
      else case received of
          Inl e \<Rightarrow> if ct_cancelled (hr_control st) then (False, st) else reader_fail (HF_Connection e) st
        | Inr m \<Rightarrow> reader_message displays consent m st)"

text \<open>What happens, in any order: the reader takes a turn; the writer takes a command, sets the target,
  goes away; an operation on the control.\<close>

datatype reader_event =
    RV_Turn bool "connection_error + client_message"
  | RV_Taken
  | RV_Target input_target
  | RV_Writer_Gone
  | RV_Control control_op

fun reader_step :: "display list \<Rightarrow> consent \<Rightarrow> host_reader \<Rightarrow> reader_event \<Rightarrow> host_reader" where
  "reader_step displays consent st (RV_Turn late r) =
     (if \<not> hr_running st then st
      else case reader_turn displays consent late r st of (True, st) \<Rightarrow> st | (False, st) \<Rightarrow> reader_finish st)"
| "reader_step displays consent st RV_Taken = st\<lparr>hr_commands := tl (hr_commands st)\<rparr>"
| "reader_step displays consent st (RV_Target t) = st\<lparr>hr_target := t\<rparr>"
| "reader_step displays consent st RV_Writer_Gone = st\<lparr>hr_receiver := False\<rparr>"
| "reader_step displays consent st (RV_Control op) = st\<lparr>hr_control := snd (control_step (hr_control st) op)\<rparr>"

text \<open>The reader works under a consent of its own, to the permissions of the session.\<close>

(* @src crates/sensor-desktop/src/worker.rs:783-789 spawn_host_reader, its consent *)
definition reader_consent :: "permissions \<Rightarrow> (permission_error + unit) \<times> consent" where
  "reader_consent permissions = consent_accept permissions (consent_pending permissions)"

(* @src crates/sensor-desktop/src/worker.rs:771-931 spawn_host_reader *)
definition host_reader_run :: "display list \<Rightarrow> permissions \<Rightarrow> host_reader \<Rightarrow> reader_event list \<Rightarrow> host_reader" where
  "host_reader_run displays permissions st evs =
     (case reader_consent permissions of
        (Inl _, _) \<Rightarrow> (snd (reader_fail (HF_Text ''Input permission state was invalid.'') st))\<lparr>hr_running := False\<rparr>
      | (Inr _, consent) \<Rightarrow> foldl (reader_step displays consent) st evs)"

definition reader_start :: "control \<Rightarrow> input_target \<Rightarrow> host \<Rightarrow> host_reader" where
  "reader_start c target os =
     \<lparr>hr_running = True, hr_control = c, hr_commands = [], hr_receiver = True, hr_target = target,
      hr_injector = injector_default, hr_injected = 0, hr_os = os\<lparr>ho_events := []\<rparr>\<rparr>"

subsection \<open>Input is for the current picture only\<close>

text \<open>Entries that do more than let go of a key or a button.\<close>

fun presses :: "os_input \<Rightarrow> bool" where
  "presses (OS_Key k down ext) = down"
| "presses (OS_Mouse (MF_Button b down) dx dy data) = down"
| "presses (OS_Mouse _ dx dy data) = True"
| "presses (OS_Unicode u down) = True"

definition adds :: "host \<Rightarrow> host \<Rightarrow> os_input list \<Rightarrow> bool" where
  "adds os os' new \<longleftrightarrow> ho_events os' = ho_events os @ new"

definition adds_releases :: "host \<Rightarrow> host \<Rightarrow> bool" where
  "adds_releases os os' \<longleftrightarrow> (\<exists>new. adds os os' new \<and> \<not> list_ex presses new)"

lemma adds_releases_refl [simp, intro]: "adds_releases os os"
  by (auto simp: adds_releases_def adds_def intro: exI [of _ "[]"])

lemma adds_releases_trans: "adds_releases a b \<Longrightarrow> adds_releases b c \<Longrightarrow> adds_releases a c"
  by (fastforce simp: adds_releases_def adds_def)

lemma injector_release_adds: "injector_release ij os = (r, ij', os') \<Longrightarrow> adds_releases os os'"
proof -
  assume a: "injector_release ij os = (r, ij', os')"
  let ?evs = "map (\<lambda>k. keyboard k False) (ij_keys ij) @ map (\<lambda>b. mouse (button_flag b False) 0 0 0) (ij_buttons ij)"
  obtain n where "ho_events os' = ho_events os @ take n ?evs"
    using a send_input_events [of ?evs os] by (auto simp: injector_release_def split: prod.splits)
  moreover have "\<not> list_ex presses (take n ?evs)"
    by (auto simp: list_ex_iff keyboard_def mouse_def button_flag_def dest!: in_set_takeD)
  ultimately show ?thesis
    unfolding adds_releases_def adds_def by blast
qed

lemma reader_release_adds: "adds_releases (hr_os st) (hr_os (snd (reader_release st)))"
  using injector_release_adds by (auto simp: reader_release_def split: prod.splits)

lemma command_send_fields [simp]:
  "hr_os (snd (command_send c st)) = hr_os st" "hr_injector (snd (command_send c st)) = hr_injector st"
  "hr_target (snd (command_send c st)) = hr_target st" "hr_running (snd (command_send c st)) = hr_running st"
  by (simp_all add: command_send_def)

lemma reader_fail_fields [simp]:
  "hr_os (snd (reader_fail e st)) = hr_os st" "hr_injector (snd (reader_fail e st)) = hr_injector st"
  "fst (reader_fail e st) = False"
  by (simp_all add: reader_fail_def)

lemma injector_apply_adds:
  assumes "injector_apply ev d consent ij os = (r, ij', os')"
  shows "adds_releases os os' \<or> ((\<exists>new. adds os os' new) \<and>
    consent_require consent P_Input = Inr () \<and> input_validate d ev = Inr ())"
proof (cases "consent_require consent P_Input = Inr () \<and> input_validate d ev = Inr ()")
  case True
  have "\<exists>new. adds os2 os3 new" if "inject ev d ij os2 = (r2, ij3, os3)" for os2 os3 r2 ij3
    using that injector_release_adds [of ij os2 r2 ij3 os3]
    by (cases ev) (auto simp: adds_def adds_releases_def dest!: send_input_events split: prod.splits if_splits sum.splits)
  then show ?thesis
    using assms True by (fastforce simp: injector_apply_def check_desktop_def adds_def split: sum.splits)
next
  case False
  then have "os' = os"
    using assms by (cases "consent_require consent P_Input"; cases "input_validate d ev") (auto simp: injector_apply_def)
  then show ?thesis
    by simp
qed

lemma reader_message_adds:
  assumes "\<And>g ev. m = CM_Desktop (DM_Input g ev) \<Longrightarrow> \<not> (g = nt_generation (hr_target st) \<and> g \<noteq> 0 \<and>
      consent_require consent P_Input = Inr () \<and> input_validate (nt_display (hr_target st)) ev = Inr ())"
  shows "adds_releases (hr_os st) (hr_os (snd (reader_message displays consent m st)))"
proof (cases "\<exists>g ev. m = CM_Desktop (DM_Input g ev)")
  case True
  then obtain g ev where m: "m = CM_Desktop (DM_Input g ev)"
    by blast
  let ?t = "hr_target st"
  show ?thesis
  proof (cases "nt_generation ?t = 0 \<or> g \<noteq> nt_generation ?t")
    case False
    let ?st = "if hr_injected st \<noteq> nt_generation ?t
      then (snd (reader_release st))\<lparr>hr_injected := nt_generation ?t\<rparr> else st"
    obtain r ij os where a: "injector_apply ev (nt_display ?t) consent (hr_injector ?st) (hr_os ?st) = (r, ij, os)"
      using prod_cases3 by blast
    have "adds_releases (hr_os st) (hr_os ?st)"
      by (simp add: reader_release_adds)
    moreover have "adds_releases (hr_os ?st) os"
      using injector_apply_adds [OF a] assms [OF m] False by auto
    moreover have "hr_os (snd (reader_message displays consent m st)) = os"
      using False a by (cases r) (simp_all add: m reader_message_def reader_input_def Let_def)
    ultimately show ?thesis
      using adds_releases_trans by metis
  qed (auto simp: m reader_message_def reader_input_def Let_def)
next
  case False
  have s: "adds_releases (hr_os st) (hr_os (snd (reader_select displays c st)))" for c
    using reader_release_adds [of st] by (auto simp: reader_select_def Let_def split: prod.splits sum.splits)
  have k: "adds_releases (hr_os st) (hr_os (snd (reader_close st)))" "hr_os (snd (reader_clipboard consent t st)) = hr_os st" for t
    using reader_release_adds [of st] by (auto simp: reader_close_def reader_clipboard_def)
  show ?thesis
    using False by (auto simp: reader_message_def s k split: client_message.splits desktop_message.splits)
qed

lemma reader_finish_adds: "adds_releases (hr_os st) (hr_os (reader_finish st))"
  using reader_release_adds [of st] by (simp add: reader_finish_def)

text \<open>C10: Input is for the current picture. Whatever the viewer sends and however the reader and the
  writer interleave, an entry that presses, types or moves reaches Windows only in a step of the reader
  on an input message that carries the generation of the picture now shown, not while the display is
  being switched, with the input permission granted, and with coordinates and keys that are valid on
  that picture's display. Every other step at most lets go of keys and buttons.\<close>

theorem reader_input_guarded:
  assumes "\<not> adds_releases (hr_os st) (hr_os (reader_step displays consent st e))"
  shows "\<exists>late g ev. e = RV_Turn late (Inr (CM_Desktop (DM_Input g ev))) \<and> g = nt_generation (hr_target st) \<and> g \<noteq> 0 \<and>
    consent_require consent P_Input = Inr () \<and> input_validate (nt_display (hr_target st)) ev = Inr ()"
proof (rule ccontr)
  assume no: "\<not> ?thesis"
  have "adds_releases (hr_os st) (hr_os (reader_step displays consent st e))"
  proof (cases e)
    case (RV_Turn late r)
    have t: "adds_releases (hr_os st) (hr_os (snd (reader_turn displays consent late r st)))"
    proof (cases r)
      case (Inr m)
      have "adds_releases (hr_os st) (hr_os (snd (reader_message displays consent m st)))"
        using no RV_Turn Inr by (intro reader_message_adds) auto
      then show ?thesis
        by (simp add: reader_turn_def Inr)
    qed (simp add: reader_turn_def)
    obtain go st' where g: "reader_turn displays consent late r st = (go, st')"
      by fastforce
    show ?thesis
      using t g adds_releases_trans [OF _ reader_finish_adds] by (cases go) (auto simp: RV_Turn)
  qed simp_all
  with assms show False
    by simp
qed

text \<open>While a display is being switched nothing is injected: a selection clears the generation.\<close>

lemma reader_select_clears:
  assumes "reader_select displays c st = (True, st')"
  shows "nt_generation (hr_target st') = 0"
proof -
  obtain r s where r: "reader_release st = (r, s)"
    by fastforce
  obtain cmd where "command_send cmd (s\<lparr>hr_target := (hr_target s)\<lparr>nt_generation := 0\<rparr>\<rparr>) = (True, st')"
    using assms r by (cases r) (simp_all add: reader_select_def reader_fail_def Let_def split: if_splits)
  then show ?thesis
    using command_send_fields(3) [of cmd "s\<lparr>hr_target := (hr_target s)\<lparr>nt_generation := 0\<rparr>\<rparr>"] by simp
qed

subsection \<open>Nothing is held when the reader ends\<close>

text \<open>A host that takes what it is given.\<close>

definition responsive :: "host \<Rightarrow> bool" where
  "responsive os \<longleftrightarrow> (\<forall>n. interactive_desktop (ho_probe os n) = Inr () \<and> ho_takes os n = None)"

lemma send_input_responsive:
  "responsive os \<Longrightarrow> \<exists>os'. send_input evs os = (Inr (), os') \<and> responsive os'"
  by (auto simp: responsive_def send_input_def check_desktop_def Let_def)

lemma responsive_calls [simp]: "responsive (os\<lparr>ho_calls := n\<rparr>) = responsive os" "responsive (os\<lparr>ho_events := evs\<rparr>) = responsive os"
  by (simp_all add: responsive_def)

lemma injector_release_responsive:
  assumes "responsive os" and "tracks ij os"
  shows "\<exists>ij' os'. injector_release ij os = (Inr (), ij', os') \<and> responsive os' \<and> tracks ij' os' \<and>
    held (ho_events os') = ({}, {})"
proof -
  obtain os' where "send_input (map (\<lambda>k. keyboard k False) (ij_keys ij) @
      map (\<lambda>b. mouse (button_flag b False) 0 0 0) (ij_buttons ij)) os = (Inr (), os')" "responsive os'"
    using send_input_responsive [OF assms(1)] by blast
  then have "injector_release ij os = (Inr (), ij\<lparr>ij_keys := [], ij_buttons := []\<rparr>, os')"
    by (simp add: injector_release_def)
  then show ?thesis
    using injector_release_Inr [OF assms(2)] \<open>responsive os'\<close> by blast
qed

lemma inject_responsive:
  assumes "responsive os" and "tracks ij os" and "inject ev d ij os = (r, ij', os')"
  shows "responsive os' \<and> tracks ij' os'"
proof -
  have "responsive os' \<and> (ev = I_ReleaseAll \<longrightarrow> r = Inr ())"
    using assms send_input_responsive [OF assms(1)] injector_release_responsive [OF assms(1,2)]
    by (cases ev) (auto split: prod.splits if_splits sum.splits, (metis prod.inject)+)
  then show ?thesis
    using inject_tracks [OF assms(2,3)] by (cases "ev = I_ReleaseAll") auto
qed

lemma injector_apply_responsive:
  assumes "responsive os" and "tracks ij os" and "injector_apply ev d consent ij os = (r, ij', os')"
  shows "responsive os' \<and> tracks ij' os'"
proof -
  let ?os = "os\<lparr>ho_calls := Suc (ho_calls os)\<rparr>"
  have t: "tracks ij ?os" "responsive ?os"
    using assms(1,2) by (simp_all add: tracks_def)
  have "(ij' = ij \<and> (os' = os \<or> os' = ?os)) \<or> inject ev d ij ?os = (r, ij', os')"
    using assms(3) by (auto simp: injector_apply_def check_desktop_def split: sum.splits)
  then show ?thesis
    using assms(1,2) t inject_responsive [OF t(2,1)] by metis
qed

definition reader_inv :: "host_reader \<Rightarrow> bool" where
  "reader_inv st \<longleftrightarrow> responsive (hr_os st) \<and> tracks (hr_injector st) (hr_os st)"

lemma reader_inv_cong:
  "hr_os st' = hr_os st \<Longrightarrow> hr_injector st' = hr_injector st \<Longrightarrow> reader_inv st' = reader_inv st"
  by (simp add: reader_inv_def)

lemma reader_inv_updates [simp]:
  "reader_inv (st\<lparr>hr_running := b\<rparr>) = reader_inv st" "reader_inv (st\<lparr>hr_control := c\<rparr>) = reader_inv st"
  "reader_inv (st\<lparr>hr_commands := q\<rparr>) = reader_inv st" "reader_inv (st\<lparr>hr_receiver := b\<rparr>) = reader_inv st"
  "reader_inv (st\<lparr>hr_target := t\<rparr>) = reader_inv st" "reader_inv (st\<lparr>hr_injected := n\<rparr>) = reader_inv st"
  "reader_inv (snd (command_send cmd st)) = reader_inv st" "reader_inv (snd (reader_fail e st)) = reader_inv st"
  by (simp_all add: reader_inv_def)

lemma reader_release_inv:
  assumes "reader_inv st"
  shows "reader_inv (snd (reader_release st)) \<and> held (ho_events (hr_os (snd (reader_release st)))) = ({}, {})"
  using injector_release_responsive [of "hr_os st" "hr_injector st"] assms
  by (auto simp: reader_inv_def reader_release_def)

lemma reader_input_inv:
  assumes "reader_inv st"
  shows "reader_inv (snd (reader_input consent g ev st))"
proof (cases "nt_generation (hr_target st) = 0 \<or> g \<noteq> nt_generation (hr_target st)")
  case False
  let ?t = "hr_target st"
  let ?st = "if hr_injected st \<noteq> nt_generation ?t
      then (snd (reader_release st))\<lparr>hr_injected := nt_generation ?t\<rparr> else st"
  obtain r ij os where a: "injector_apply ev (nt_display ?t) consent (hr_injector ?st) (hr_os ?st) = (r, ij, os)"
    using prod_cases3 by blast
  have "reader_inv ?st"
    using assms reader_release_inv by simp
  then have "responsive os \<and> tracks ij os"
    using injector_apply_responsive [OF _ _ a] unfolding reader_inv_def by blast
  then show ?thesis
    using False a by (cases r) (simp_all add: reader_input_def Let_def reader_inv_def)
qed (use assms in \<open>auto simp: reader_input_def Let_def\<close>)

lemma reader_message_inv:
  assumes "reader_inv st"
  shows "reader_inv (snd (reader_message displays consent m st))"
proof -
  have "reader_inv (snd (reader_select displays c st))" for c
    using assms reader_release_inv [OF assms] by (auto simp: reader_select_def Let_def split: prod.splits sum.splits)
  moreover have "reader_inv (snd (reader_close st))" "reader_inv (snd (reader_clipboard consent t st))" for t
    using assms reader_release_inv [OF assms] by (simp_all add: reader_close_def reader_clipboard_def)
  ultimately show ?thesis
    using assms reader_input_inv [OF assms]
    by (simp add: reader_message_def split: client_message.splits desktop_message.splits)
qed

lemma reader_turn_running: "hr_running (snd (reader_turn displays consent late r st)) = hr_running st"
proof -
  have r: "hr_running (snd (reader_release st)) = hr_running st" for st
    by (simp add: reader_release_def split: prod.split)
  have f: "hr_running (snd (reader_fail e st)) = hr_running st" for e st
    by (simp add: reader_fail_def)
  have "hr_running (snd (reader_select displays c st)) = hr_running st" for c
    using r [of st] by (cases "reader_release st") (simp add: reader_select_def Let_def f split: sum.split)
  moreover have "hr_running (snd (reader_input consent g ev st)) = hr_running st" for g ev
    using r [of st] by (simp add: reader_input_def Let_def f split: prod.split sum.split)
  ultimately show ?thesis
    by (simp add: reader_turn_def reader_message_def reader_close_def reader_clipboard_def r f
        split: sum.split client_message.split desktop_message.split)
qed

lemma reader_step_inv:
  assumes "reader_inv st \<and> (\<not> hr_running st \<longrightarrow> held (ho_events (hr_os st)) = ({}, {}))"
  shows "reader_inv (reader_step displays consent st e) \<and>
    (\<not> hr_running (reader_step displays consent st e) \<longrightarrow>
      held (ho_events (hr_os (reader_step displays consent st e))) = ({}, {}))"
proof (cases e)
  case (RV_Turn late r)
  obtain go st' where g: "reader_turn displays consent late r st = (go, st')"
    by fastforce
  have "reader_inv (snd (reader_turn displays consent late r st))"
    using assms reader_message_inv by (simp add: reader_turn_def split: sum.split)
  then have i: "reader_inv st'"
    by (simp add: g)
  have f: "reader_inv (reader_finish st')" "held (ho_events (hr_os (reader_finish st'))) = ({}, {})"
    using reader_release_inv [OF i] by (simp_all add: reader_finish_def)
  have "hr_running st' = hr_running st"
    using reader_turn_running [of displays consent late r st] g by simp
  then show ?thesis
    using assms i f g by (cases go) (auto simp: RV_Turn)
qed (use assms in simp_all)

text \<open>C39: No key stays down. Whatever the viewer sends, valid or not, however the reader, the writer and the
  window interleave, and whether the session ends by a close, an error, a full queue or a cancel: on a
  host that takes its input, once the reader has ended no key and no button is held.\<close>

theorem reader_leaves_nothing_held:
  assumes "responsive os"
    and "host_reader_run displays permissions (reader_start c target os) evs = st" and "\<not> hr_running st"
  shows "held (ho_events (hr_os st)) = ({}, {})"
proof -
  let ?P = "\<lambda>st. reader_inv st \<and> (\<not> hr_running st \<longrightarrow> held (ho_events (hr_os st)) = ({}, {}))"
  have start: "?P (reader_start c target os)"
    using assms(1) by (simp add: reader_start_def reader_inv_def tracks_def injector_default_def)
  have "?P (foldl (reader_step displays consent) s evs)" if "?P s" for consent s
    using that by (induction evs arbitrary: s) (auto simp: reader_step_inv)
  then have "?P (foldl (reader_step displays consent) (reader_start c target os) evs)" for consent
    using start by blast
  then show ?thesis
    using assms(2,3) by (auto simp: host_reader_run_def reader_start_def split: prod.splits sum.splits)
qed

subsection \<open>A concrete reader\<close>

lemma demo_responsive: "responsive demo_host"
  by (simp add: responsive_def demo_host_def demo_probe_ok)

definition demo_reader :: host_reader where
  "demo_reader = reader_start control_default \<lparr>nt_generation = 1, nt_display = demo_display\<rparr> demo_host"

lemma reader_input_guarded_witness:
  "\<exists>late g ev. RV_Turn False (Inr (CM_Desktop (DM_Input 1 (I_Key 65 True)))) = RV_Turn late (Inr (CM_Desktop (DM_Input g ev))) \<and>
     g = nt_generation (hr_target demo_reader)"
proof -
  let ?e = "RV_Turn False (Inr (CM_Desktop (DM_Input 1 (I_Key 65 True))))"
  have "\<exists>ij os. injector_apply (I_Key 65 True) demo_display (demo_granted [P_Input]) injector_default
      (demo_host\<lparr>ho_events := []\<rparr>) = (Inr (), ij, os) \<and> ho_events os = [keyboard 65 True]"
    by (simp add: injector_apply_def demo_granted_input demo_host_def check_desktop_def demo_probe_ok send_input_def)
  then have "ho_events (hr_os (reader_step [demo_display] (demo_granted [P_Input]) demo_reader ?e)) = [keyboard 65 True]"
    by (auto simp: demo_reader_def reader_start_def reader_turn_def reader_message_def reader_input_def
        reader_release_def injector_release_def injector_default_def send_input_def control_default_def)
  then have "\<not> adds_releases (hr_os demo_reader) (hr_os (reader_step [demo_display] (demo_granted [P_Input]) demo_reader ?e))"
    by (auto simp: adds_releases_def adds_def demo_reader_def reader_start_def keyboard_def)
  from reader_input_guarded [OF this] show ?thesis
    by blast
qed

lemma reader_leaves_nothing_held_witness:
  "held (ho_events (hr_os (host_reader_run [demo_display] (perms_of [P_Input]) demo_reader
     [RV_Turn False (Inr (CM_Desktop (DM_Input 1 (I_Key 65 True)))), RV_Turn False (Inr CM_Close)]))) = ({}, {})"
proof -
  let ?evs = "[RV_Turn False (Inr (CM_Desktop (DM_Input 1 (I_Key 65 True)))), RV_Turn False (Inr CM_Close)]"
  have "\<not> hr_running (reader_step ds consent st (RV_Turn False (Inr CM_Close)))" if "hr_running st" for ds consent st
    using that by (simp add: reader_turn_def reader_message_def reader_close_def reader_finish_def)
  then have "\<not> hr_running (reader_step ds consent st (RV_Turn False (Inr CM_Close)))" for ds consent st
    by (cases "hr_running st") simp_all
  then have "\<not> hr_running (host_reader_run [demo_display] (perms_of [P_Input])
      (reader_start control_default \<lparr>nt_generation = 1, nt_display = demo_display\<rparr> demo_host) ?evs)"
    by (simp add: host_reader_run_def split: prod.split sum.split)
  from reader_leaves_nothing_held [OF demo_responsive refl this] show ?thesis
    by (simp only: demo_reader_def)
qed

end
