(* ===== verification/Sensor_Host.thy ===== *)
theory Sensor_Host
  imports Sensor_Reader Sensor_Flight Sensor_Adaptive
begin

section \<open>sensor-desktop: the host's capture and writer loop\<close>

text \<open>
  The host's main loop drains the reader's commands, adapts the video format to the feedback, captures,
  converts and encodes frames, and writes them in fragments. Capture devices and encoders are Windows:
  what they return in each turn is an input, as are the clock readings, numbered by the places where
  the loop reads the clock. The lemmas show that what is written is always a well-formed desktop
  stream: every fragment follows the format of its generation, and the fragments of every frame
  assemble to exactly the encoder's packets.
\<close>

subsection \<open>The writer\<close>

datatype host_error =
    HE_Connection connection_error
  | HE_Failed host_failure
  | HE_Text string
  | HE_Media media_error
  | HE_Desktop desktop_error
  | HE_Codec nat
  | HE_Panic

text \<open>The writing half with the clock readings of its calls; \<open>hw_sent\<close> records what was sent in full.\<close>

record host_writer =
  hw_duplex :: duplex
  hw_clock :: "nat \<Rightarrow> nat"
  hw_sent :: "desktop_message list"

record host_env =
  he_crypto :: crypto_lib
  he_codec :: "client_message codec"
  he_consent :: consent
  he_displays :: "display list"

(* @src crates/sensor-desktop/src/worker.rs:711-718 desktop_message *)
definition desktop_send :: "host_env \<Rightarrow> desktop_message \<Rightarrow> host_writer \<Rightarrow> (host_error + unit) \<times> host_writer" where
  "desktop_send E m w =
     (case writer_send (he_crypto E) (he_codec E) (hw_clock w 0) (hw_duplex w) (CM_Desktop m) of
        (Inl e, d) \<Rightarrow> (Inl (HE_Connection e), w\<lparr>hw_duplex := d, hw_clock := (\<lambda>n. hw_clock w (Suc n))\<rparr>)
      | (Inr _, d) \<Rightarrow> (Inr (), w\<lparr>hw_duplex := d, hw_clock := (\<lambda>n. hw_clock w (Suc n)), hw_sent := hw_sent w @ [m]\<rparr>))"

lemma desktop_send_sent:
  "desktop_send E m w = (r, w') \<Longrightarrow> hw_sent w' = hw_sent w @ (if r = Inr () then [m] else [])"
  by (auto simp: desktop_send_def split: prod.splits sum.splits)

subsection \<open>State\<close>

record host_loop =
  hl_writer :: host_writer
  hl_control :: control
  hl_target :: input_target
  hl_generation :: nat
  hl_adaptive :: adaptive
  hl_hardware :: bool
  hl_rotation :: nat
  hl_format :: video_format
  hl_flight :: flight_window
  hl_telemetry :: telemetry
  hl_previous :: telemetry
  hl_feedback :: feedback
  hl_reconfigure :: "nat option"
  hl_clipboard :: text_clipboard
  hl_cursor :: "(int \<times> int \<times> bool) option"
  hl_started :: nat
  hl_measured_at :: nat
  hl_clipboard_at :: nat
  hl_last_frame :: nat
  hl_cursor_at :: nat

text \<open>What a step of a turn decides: on with the turn, on with the next turn, or the end.\<close>

datatype flow = Go | Again | Done "host_error + unit"

type_synonym host_step = "flow \<times> host_loop"

definition then_go :: "host_step \<Rightarrow> (host_loop \<Rightarrow> host_step) \<Rightarrow> host_step" where
  "then_go fs k = (case fst fs of Go \<Rightarrow> k (snd fs) | _ \<Rightarrow> fs)"

definition host_send :: "host_env \<Rightarrow> desktop_message \<Rightarrow> host_loop \<Rightarrow> host_step" where
  "host_send E m st =
     (case desktop_send E m (hl_writer st) of
        (Inl e, w) \<Rightarrow> (Done (Inl e), st\<lparr>hl_writer := w\<rparr>)
      | (Inr _, w) \<Rightarrow> (Go, st\<lparr>hl_writer := w\<rparr>))"

subsection \<open>Frames in fragments\<close>

text \<open>An encoded packet, the milliseconds its sending has taken at each fragment, and the microseconds
  in all.\<close>

record packet_io =
  pk_frame :: encoded_frame
  pk_elapsed :: "nat \<Rightarrow> nat"
  pk_us :: nat

text \<open>\<open>slice::chunks\<close>.\<close>

function chunks :: "nat \<Rightarrow> 'a list \<Rightarrow> 'a list list" where
  "chunks n xs = (if n = 0 \<or> xs = [] then [] else take n xs # chunks n (drop n xs))"
  by pat_completeness auto
termination
  by (relation "measure (\<lambda>(n, xs). length xs)") auto

declare chunks.simps [simp del]

text \<open>A cast from \<open>i64\<close> to \<open>u64\<close>.\<close>

definition as_u64 :: "int \<Rightarrow> nat" where
  "as_u64 i = nat (i mod 2 ^ 64)"

definition fragment_of :: "nat \<Rightarrow> encoded_frame \<Rightarrow> fragment" where
  "fragment_of generation p =
     \<lparr>fg_generation = generation, fg_sequence = as_u64 (ef_timestamp p), fg_timestamp = ef_timestamp p,
      fg_keyframe = ef_keyframe p, fg_offset = 0, fg_total = length (ef_bytes p), fg_bytes = []\<rparr>"

(* @src crates/sensor-desktop/src/worker.rs:736-762 send_video_packets, the fragments *)
fun send_fragments :: "host_env \<Rightarrow> fragment \<Rightarrow> (nat \<Rightarrow> nat) \<Rightarrow> nat \<Rightarrow> bytes list \<Rightarrow> host_loop \<Rightarrow> host_step" where
  "send_fragments E f elapsed index [] st = (Go, st)"
| "send_fragments E f elapsed index (b # bs) st =
     (if elapsed index > 500
      then (Done (Inl (HE_Text ''Video writer exceeded its interactive deadline; session closed to prevent stale input.'')), st)
      else if index * VIDEO_FRAGMENT \<ge> 2 ^ 32
      then (Done (Inl (HE_Text ''Encoded frame offset overflow.'')), st)
      else then_go (host_send E (DM_Fragment (f\<lparr>fg_offset := index * VIDEO_FRAGMENT, fg_bytes := b\<rparr>)) st)
        (send_fragments E f elapsed (Suc index) bs))"

(* @src crates/sensor-desktop/src/worker.rs:729-766 send_video_packets, one packet *)
definition send_packet :: "host_env \<Rightarrow> packet_io \<Rightarrow> host_loop \<Rightarrow> host_step" where
  "send_packet E p st =
     (let bytes = ef_bytes (pk_frame p);
          st = st\<lparr>hl_flight := fw_encoded (hl_flight st) (as_u64 (ef_timestamp (pk_frame p))) (length bytes),
            hl_telemetry := (hl_telemetry st)\<lparr>tm_bytes := tm_bytes (hl_telemetry st) + length bytes\<rparr>\<rparr>
      in if length bytes \<ge> 2 ^ 32 then (Done (Inl (HE_Text ''Encoded frame is too large.'')), st)
         else then_go (send_fragments E (fragment_of (hl_generation st) (pk_frame p)) (pk_elapsed p) 0
             (chunks VIDEO_FRAGMENT bytes) st) (\<lambda>st.
           (Go, st\<lparr>hl_control := (hl_control st)\<lparr>ct_encoded := ct_encoded (hl_control st) + 1\<rparr>,
             hl_telemetry := (hl_telemetry st)\<lparr>tm_encoded := tm_encoded (hl_telemetry st) + 1,
               tm_send_us := tm_send_us (hl_telemetry st) + pk_us p\<rparr>\<rparr>)))"

(* @src crates/sensor-desktop/src/worker.rs:720-768 send_video_packets *)
fun send_video_packets :: "host_env \<Rightarrow> packet_io list \<Rightarrow> host_loop \<Rightarrow> host_step" where
  "send_video_packets E [] st = (Go, st)"
| "send_video_packets E (p # ps) st = then_go (send_packet E p st) (send_video_packets E ps)"

subsection \<open>A turn\<close>

text \<open>What a turn takes from outside: the clock (nanoseconds) at each place that reads it; the commands
  waiting; the results of the clipboard, of setting the bitrate, of making a capture and an encoder,
  of asking the encoder for output, of capturing, encoding and reading the cursor.\<close>

record host_turn =
  ht_clock :: "nat \<Rightarrow> nat"
  ht_commands :: "host_command list"
  ht_clip :: "bool \<times> bool"
  ht_clip_probe :: clip_probe
  ht_set_bitrate :: bool
  ht_capture_new :: "nat \<Rightarrow> desktop_error + display \<times> nat"
  ht_encoder_new :: "target \<Rightarrow> bool \<Rightarrow> nat + rstr \<times> bool"
  ht_available :: "nat + packet_io list"
  ht_next :: "desktop_error + bgra_frame option"
  ht_encode :: "bytes \<Rightarrow> int \<Rightarrow> nat + packet_io list"
  ht_cursor :: "desktop_error + int \<times> int \<times> bool"

definition millis :: "nat \<Rightarrow> nat" where
  "millis ns = ns div 1000000"

definition micros :: "nat \<Rightarrow> nat" where
  "micros ns = ns div 1000"

definition feedback_default :: feedback where
  "feedback_default = \<lparr>fb_delivery_ms = 0, fb_rtt_ms = 0, fb_decode_us = 0, fb_prepare_encode_us = 0,
     fb_write_stall_ms = 0, fb_acknowledged = 0, fb_saturated = False\<rparr>"

(* @src crates/sensor-desktop/src/worker.rs:1087-1104 host_desktop, Ack *)
definition host_ack :: "host_turn \<Rightarrow> nat \<Rightarrow> nat \<Rightarrow> nat \<Rightarrow> nat \<Rightarrow> host_loop \<Rightarrow> host_loop" where
  "host_ack t generation s decode_us rtt_us st =
     (if generation \<noteq> hl_generation st then st
      else case fw_acknowledge (hl_flight st) s (millis (ht_clock t 0 - hl_started st)) of
          (None, fw) \<Rightarrow> st\<lparr>hl_flight := fw\<rparr>
        | (Some delay, fw) \<Rightarrow> (let fb = hl_feedback st in
            st\<lparr>hl_flight := fw,
              hl_feedback := fb\<lparr>fb_delivery_ms := max (fb_delivery_ms fb) delay,
                fb_decode_us := max (fb_decode_us fb) (min decode_us 5000000),
                fb_rtt_ms := min rtt_us 10000000 div 1000, fb_acknowledged := fb_acknowledged fb + 1\<rparr>,
              hl_telemetry := (hl_telemetry st)\<lparr>tm_delivery_ms := delay\<rparr>\<rparr>))"

(* @src crates/sensor-desktop/src/worker.rs:1057-1105 host_desktop, one command *)
fun host_command_step :: "host_env \<Rightarrow> host_turn \<Rightarrow> host_command \<Rightarrow> host_loop \<Rightarrow> host_step" where
  "host_command_step E t (HC_SelectDisplay index) st =
     (if index \<ge> length (he_displays E) then (Done (Inl (HE_Text ''Unknown monitor selected.'')), st)
      else (Go, st\<lparr>hl_reconfigure := Some index\<rparr>))"
| "host_command_step E t (HC_SelectVideoProfile profile) st =
     (let st = st\<lparr>hl_adaptive := (hl_adaptive st)\<lparr>ad_profile := profile\<rparr>\<rparr>;
          index = ds_index (vf_display (hl_format st))
      in if index \<ge> length (he_displays E) then (Done (Inl (HE_Text ''Unknown monitor selected.'')), st)
         else (Go, st\<lparr>hl_reconfigure := Some index\<rparr>))"
| "host_command_step E t (HC_Pong v) st = host_send E (DM_Pong v) st"
| "host_command_step E t HC_Close st = (Done (Inr ()), snd (host_send E DM_Close st))"
| "host_command_step E t (HC_Failed e) st = (Done (Inl (HE_Failed e)), st)"
| "host_command_step E t (HC_Clipboard s) st =
     (Go, st\<lparr>hl_clipboard := snd (clip_apply (he_crypto E) s (ct_clip_enabled (hl_control st)) (he_consent E)
        (fst (ht_clip t)) (snd (ht_clip t)) (hl_clipboard st))\<rparr>)"
| "host_command_step E t (HC_Ack generation s decode_us rtt_us) st = (Go, host_ack t generation s decode_us rtt_us st)"

(* @src crates/sensor-desktop/src/worker.rs:1052-1106 host_desktop, draining the commands *)
fun host_drain :: "host_env \<Rightarrow> host_turn \<Rightarrow> host_command list \<Rightarrow> host_loop \<Rightarrow> host_step" where
  "host_drain E t [] st = (Go, st)"
| "host_drain E t (c # cs) st = then_go (host_command_step E t c st) (host_drain E t cs)"

text \<open>Once a second: feed the controller and apply its target.\<close>

(* @src crates/sensor-desktop/src/worker.rs:1115-1120 host_desktop, the feedback *)
definition host_feedback :: "nat \<Rightarrow> host_loop \<Rightarrow> feedback" where
  "host_feedback now_ms st =
     (let fb = hl_feedback st; tm = hl_telemetry st; pr = hl_previous st in
      fb\<lparr>fb_delivery_ms := max (fb_delivery_ms fb) (oldest_ms (hl_flight st) now_ms),
        fb_prepare_encode_us :=
          ((tm_capture_us tm + tm_prepare_us tm + tm_encode_us tm) -
            (tm_capture_us pr + tm_prepare_us pr + tm_encode_us pr)) div
          max (tm_captured tm - tm_captured pr) 1\<rparr>)"

(* @src crates/sensor-desktop/src/worker.rs:1125-1138 host_desktop, applying the target *)
definition host_retarget :: "host_turn \<Rightarrow> target \<Rightarrow> host_loop \<Rightarrow> host_loop" where
  "host_retarget t target st =
     (let f = hl_format st in
      if (tg_width target, tg_height target, tg_fps target) \<noteq> (vf_width f, vf_height f, vf_fps_limit f)
      then st\<lparr>hl_reconfigure := Some (ds_index (vf_display f))\<rparr>
      else if tg_bitrate target \<noteq> vf_bitrate f
      then if ht_set_bitrate t then st\<lparr>hl_format := f\<lparr>vf_bitrate := tg_bitrate target\<rparr>\<rparr>
           else st\<lparr>hl_reconfigure := Some (ds_index (vf_display f))\<rparr>
      else st)"

(* @src crates/sensor-desktop/src/worker.rs:1114-1150 host_desktop, measuring *)
definition host_measure :: "host_env \<Rightarrow> host_turn \<Rightarrow> nat \<Rightarrow> host_loop \<Rightarrow> host_step" where
  "host_measure E t now_ms st =
     (if ht_clock t 2 - hl_measured_at st < 1000000000 then (Go, st)
      else case observe (hl_adaptive st) (host_feedback now_ms st) of
          None \<Rightarrow> (Done (Inl HE_Panic), st)
        | Some ad \<Rightarrow>
            (let st = st\<lparr>hl_feedback := host_feedback now_ms st, hl_adaptive := ad\<rparr> in
             case adaptive_target ad (ds_width (vf_display (hl_format st))) (ds_height (vf_display (hl_format st))) of
               Inl e \<Rightarrow> (Done (Inl (HE_Media e)), st)
             | Inr target \<Rightarrow>
                 (let st = host_retarget t target st;
                      tm = (hl_telemetry st)\<lparr>tm_elapsed_ms := now_ms, tm_in_flight_bytes := fw_bytes (hl_flight st),
                        tm_profile := ad_profile ad, tm_congestion := ad_congested ad\<rparr>;
                      st = st\<lparr>hl_telemetry := tm, hl_control := (hl_control st)\<lparr>ct_telemetry := Some tm\<rparr>\<rparr>
                  in then_go (host_send E (DM_Telemetry tm) st) (\<lambda>st.
                    (Go, st\<lparr>hl_previous := tm, hl_feedback := feedback_default, hl_measured_at := ht_clock t 3\<rparr>)))))"

text \<open>Making a capture and an encoder for a display. The rotated sizes cancel out.\<close>

(* @src crates/sensor-desktop/src/worker.rs:977-1029 host_desktop, setup *)
definition host_setup ::
  "host_turn \<Rightarrow> nat \<Rightarrow> nat \<Rightarrow> adaptive \<Rightarrow> bool \<Rightarrow> host_error + nat \<times> video_format" where
  "host_setup t index generation ad prefer_hardware =
     res_bind (map_err HE_Desktop (ht_capture_new t index)) (\<lambda>(d, rotation).
     let turned = (rotation = 90 \<or> rotation = 270);
         raw_width = (if turned then ds_height d else ds_width d);
         raw_height = (if turned then ds_width d else ds_height d);
         output_width = (if turned then raw_height else raw_width);
         output_height = (if turned then raw_width else raw_height)
     in res_bind (map_err HE_Media (adaptive_target ad output_width output_height)) (\<lambda>target.
        res_bind (map_err HE_Codec (ht_encoder_new t target prefer_hardware)) (\<lambda>(encoder, hardware).
        let f = \<lparr>vf_generation = generation, vf_display = d, vf_width = tg_width target,
              vf_height = tg_height target, vf_fps_limit = tg_fps target, vf_bitrate = tg_bitrate target,
              vf_encoder = encoder, vf_hardware = hardware\<rparr>
        in res_bind (map_err HE_Media (format_validate f)) (\<lambda>_. Inr (rotation, f)))))"

(* @src crates/sensor-desktop/src/worker.rs:1151-1170 host_desktop, switching *)
definition host_reconfigure :: "host_env \<Rightarrow> host_turn \<Rightarrow> host_loop \<Rightarrow> host_step" where
  "host_reconfigure E t st =
     (case hl_reconfigure st of
        None \<Rightarrow> (Go, st)
      | Some index \<Rightarrow>
          (let st = st\<lparr>hl_reconfigure := None, hl_generation := hl_generation st + 1\<rparr> in
           case host_setup t index (hl_generation st) (hl_adaptive st) (hl_hardware st) of
             Inl e \<Rightarrow> (Done (Inl e), st)
           | Inr (rotation, f) \<Rightarrow>
               then_go (host_send E (DM_Format f) (st\<lparr>hl_rotation := rotation, hl_format := f, hl_flight := fw_default\<rparr>))
                 (\<lambda>st. (Go, st\<lparr>hl_target := \<lparr>nt_generation = hl_generation st, nt_display = vf_display f\<rparr>\<rparr>))))"

text \<open>An encoder that fails is replaced once by a software encoder.\<close>

definition host_fallback :: "nat \<Rightarrow> host_loop \<Rightarrow> host_step" where
  "host_fallback e st =
     (if hl_hardware st \<and> vf_hardware (hl_format st)
      then (Again, st\<lparr>hl_hardware := False, hl_reconfigure := Some (ds_index (vf_display (hl_format st)))\<rparr>)
      else (Done (Inl (HE_Codec e)), st))"

definition host_stall :: "nat \<Rightarrow> host_loop \<Rightarrow> host_loop" where
  "host_stall ms st =
     st\<lparr>hl_feedback := (hl_feedback st)\<lparr>fb_write_stall_ms := max (fb_write_stall_ms (hl_feedback st)) ms\<rparr>\<rparr>"

(* @src crates/sensor-desktop/src/worker.rs:1172-1192 host_desktop, pending output *)
definition host_pending :: "host_env \<Rightarrow> host_turn \<Rightarrow> host_loop \<Rightarrow> host_step" where
  "host_pending E t st =
     (case ht_available t of
        Inl e \<Rightarrow> host_fallback e st
      | Inr ps \<Rightarrow> then_go (send_video_packets E ps st) (\<lambda>st. (Go, host_stall (millis (ht_clock t 5 - ht_clock t 4)) st)))"

(* @src crates/sensor-desktop/src/worker.rs:1193-1198 host_desktop, clipboard *)
definition host_clipboard :: "host_env \<Rightarrow> host_turn \<Rightarrow> host_loop \<Rightarrow> host_step" where
  "host_clipboard E t st =
     (if ht_clock t 6 - hl_clipboard_at st < 250000000 then (Go, st)
      else case clip_poll (he_crypto E) (ct_clip_enabled (hl_control st)) (he_consent E) (ht_clip_probe t) (hl_clipboard st) of
          (r, cb) \<Rightarrow> then_go (case r of None \<Rightarrow> (Go, st\<lparr>hl_clipboard := cb\<rparr>)
              | Some s \<Rightarrow> host_send E (DM_ClipboardText s) (st\<lparr>hl_clipboard := cb\<rparr>))
            (\<lambda>st. (Go, st\<lparr>hl_clipboard_at := ht_clock t 7\<rparr>)))"

text \<open>\<open>Duration::from_secs_f64(1.0 / fps)\<close> in nanoseconds.\<close>

definition frame_interval :: "nat \<Rightarrow> nat" where
  "frame_interval fps = nat (round (f64_round (1 / of_nat fps) * 1000000000))"

(* @src crates/sensor-desktop/src/worker.rs:1220-1268 host_desktop, one captured frame *)
definition host_encode :: "host_env \<Rightarrow> host_turn \<Rightarrow> nat \<Rightarrow> bgra_frame \<Rightarrow> host_loop \<Rightarrow> host_step" where
  "host_encode E t now_ms frame st =
     (let tm = hl_telemetry st;
          st = st\<lparr>hl_telemetry := tm\<lparr>tm_capture_us := tm_capture_us tm + micros (ht_clock t 10 - ht_clock t 9),
                tm_captured := tm_captured tm + 1\<rparr>,
              hl_control := (hl_control st)\<lparr>ct_captured := ct_captured (hl_control st) + 1\<rparr>\<rparr>
      in case res_bind (rotate_scale_bgra frame (hl_rotation st) (vf_width (hl_format st)) (vf_height (hl_format st)))
            bgra_to_nv12 of
          Inl e \<Rightarrow> (Done (Inl (HE_Media e)), st)
        | Inr nv12 \<Rightarrow>
            (let timestamp = int (min (micros (ht_clock t 12 - hl_started st) * 10) (2 ^ 63 - 1));
                 st = st\<lparr>hl_telemetry := (hl_telemetry st)\<lparr>tm_prepare_us :=
                       tm_prepare_us (hl_telemetry st) + micros (ht_clock t 13 - ht_clock t 11)\<rparr>,
                     hl_flight := fw_submit (hl_flight st) (as_u64 timestamp) now_ms\<rparr>
             in case ht_encode t nv12 timestamp of
                 Inl e \<Rightarrow> host_fallback e st
               | Inr ps \<Rightarrow>
                   (let st = st\<lparr>hl_telemetry := (hl_telemetry st)\<lparr>tm_encode_us :=
                       tm_encode_us (hl_telemetry st) + micros (ht_clock t 15 - ht_clock t 14)\<rparr>\<rparr>
                    in then_go (send_video_packets E ps st) (\<lambda>st.
                      (Go, (host_stall (millis (ht_clock t 17 - ht_clock t 16)) st)\<lparr>hl_last_frame := ht_clock t 9\<rparr>)))))"

(* @src crates/sensor-desktop/src/worker.rs:1205-1273 host_desktop, capturing *)
definition host_frame :: "host_env \<Rightarrow> host_turn \<Rightarrow> nat \<Rightarrow> host_loop \<Rightarrow> host_step" where
  "host_frame E t now_ms st =
     (if ht_clock t 8 - hl_last_frame st < frame_interval (vf_fps_limit (hl_format st)) then (Go, st)
      else if \<not> can_submit (hl_flight st) now_ms (ad_bitrate (hl_adaptive st))
      then (Again, st\<lparr>hl_telemetry := (hl_telemetry st)\<lparr>tm_skipped := tm_skipped (hl_telemetry st) + 1\<rparr>,
          hl_feedback := (hl_feedback st)\<lparr>fb_saturated :=
            fb_saturated (hl_feedback st) \<or> oldest_ms (hl_flight st) now_ms \<ge> 500\<rparr>,
          hl_last_frame := ht_clock t 9\<rparr>)
      else case ht_next t of
          Inl e \<Rightarrow> (Done (Inl (HE_Desktop e)), st)
        | Inr None \<Rightarrow> (Go, st)
        | Inr (Some frame) \<Rightarrow> host_encode E t now_ms frame st)"

(* @src crates/sensor-desktop/src/worker.rs:1274-1291 host_desktop, cursor *)
definition host_cursor :: "host_env \<Rightarrow> host_turn \<Rightarrow> host_loop \<Rightarrow> host_step" where
  "host_cursor E t st =
     (if ht_clock t 18 - hl_cursor_at st < 100000000 then (Go, st)
      else case ht_cursor t of
          Inl e \<Rightarrow> (Done (Inl (HE_Desktop e)), st)
        | Inr (x, y, shown) \<Rightarrow>
            then_go (if hl_cursor st \<noteq> Some (x, y, shown)
                then then_go (host_send E (DM_Cursor (hl_generation st) x y shown) st)
                  (\<lambda>st. (Go, st\<lparr>hl_cursor := Some (x, y, shown)\<rparr>))
                else (Go, st))
              (\<lambda>st. (Go, st\<lparr>hl_cursor_at := ht_clock t 19\<rparr>)))"

(* @src crates/sensor-desktop/src/worker.rs:1048-1298 host_desktop, one turn *)
definition host_turn_step :: "host_env \<Rightarrow> host_turn \<Rightarrow> host_loop \<Rightarrow> host_step" where
  "host_turn_step E t st =
     (if ct_cancelled (hl_control st) then (Done (Inr ()), st)
      else then_go (host_drain E t (take 64 (ht_commands t)) st) (\<lambda>st.
        let now_ms = millis (ht_clock t 1 - hl_started st) in
        if oldest_ms (hl_flight st) now_ms > 5000
        then (Done (Inl (HE_Text ''Video delivery stalled for 5 seconds; reconnect after checking the network.'')), st)
        else then_go (host_measure E t now_ms st) (\<lambda>st.
          then_go (host_reconfigure E t st) (\<lambda>st.
          then_go (host_pending E t st) (\<lambda>st.
          then_go (host_clipboard E t st) (\<lambda>st.
          then_go (host_frame E t now_ms st) (host_cursor E t)))))))"

text \<open>Between the turns the reader and the window act: they clear the target's generation, and operate on
  the control.\<close>

datatype host_event =
    HV_Turn host_turn
  | HV_Clear_Target
  | HV_Control control_op

fun host_run :: "host_env \<Rightarrow> host_event list \<Rightarrow> host_loop \<Rightarrow> (host_error + unit) option \<times> host_loop" where
  "host_run E [] st = (None, st)"
| "host_run E (HV_Turn t # evs) st =
     (case host_turn_step E t st of
        (Done r, st) \<Rightarrow> (Some r, st\<lparr>hl_control := control_abort (hl_control st)\<rparr>)
      | (_, st) \<Rightarrow> host_run E evs st)"
| "host_run E (HV_Clear_Target # evs) st =
     host_run E evs (st\<lparr>hl_target := (hl_target st)\<lparr>nt_generation := 0\<rparr>\<rparr>)"
| "host_run E (HV_Control op # evs) st = host_run E evs (st\<lparr>hl_control := snd (control_step (hl_control st) op)\<rparr>)"

subsection \<open>Starting\<close>

definition telemetry_default :: telemetry where
  "telemetry_default = \<lparr>tm_elapsed_ms = 0, tm_captured = 0, tm_encoded = 0, tm_bytes = 0, tm_skipped = 0,
     tm_capture_us = 0, tm_prepare_us = 0, tm_encode_us = 0, tm_send_us = 0, tm_in_flight_bytes = 0,
     tm_delivery_ms = 0, tm_profile = VP_Auto, tm_congestion = False\<rparr>"

text \<open>
  \<open>listed\<close> is the error of listing the displays, if any; the ceiling is the environment's, when it
  parses; the clock's readings 20 to 24 are the instants set. An error here leaves the function, which
  aborts the session and with it the reader.
\<close>

(* @src crates/sensor-desktop/src/worker.rs:934-1047 host_desktop, until the loop *)
definition host_start ::
  "host_env \<Rightarrow> host_turn \<Rightarrow> desktop_error option \<Rightarrow> connection_error + duplex \<Rightarrow> (nat \<Rightarrow> nat) \<Rightarrow> rstr option \<Rightarrow>
   control \<Rightarrow> host_error + host_loop" where
  "host_start E t listed split_result wclock rate_limit c =
     (case listed of
        Some e \<Rightarrow> Inl (HE_Desktop e)
      | None \<Rightarrow>
     if he_displays E = [] then Inl (HE_Text ''No attached desktop display is available.'')
     else res_bind (map_err HE_Connection split_result) (\<lambda>d.
     case writer_set_timeout (250 * 1000000) d of
       (Inl e, _) \<Rightarrow> Inl (HE_Connection e)
     | (Inr _, d) \<Rightarrow>
     (case desktop_send E (DM_Displays (he_displays E)) \<lparr>hw_duplex = d, hw_clock = wclock, hw_sent = []\<rparr> of
       (Inl e, _) \<Rightarrow> Inl e
     | (Inr _, w) \<Rightarrow>
         let ad = adaptive_new (case Option.bind rate_limit parse_u32 of None \<Rightarrow> DEFAULT_MAX_BITRATE | Some n \<Rightarrow> n)
         in res_bind (host_setup t 0 1 ad True) (\<lambda>(rotation, f).
            case desktop_send E (DM_Format f) w of
              (Inl e, _) \<Rightarrow> Inl e
            | (Inr _, w) \<Rightarrow> Inr
                \<lparr>hl_writer = w, hl_control = c, hl_target = \<lparr>nt_generation = 1, nt_display = hd (he_displays E)\<rparr>,
                 hl_generation = 1, hl_adaptive = ad, hl_hardware = True, hl_rotation = rotation, hl_format = f,
                 hl_flight = fw_default, hl_telemetry = telemetry_default, hl_previous = telemetry_default,
                 hl_feedback = feedback_default, hl_reconfigure = None, hl_clipboard = clipboard_default,
                 hl_cursor = None, hl_started = ht_clock t 20, hl_measured_at = ht_clock t 21,
                 hl_clipboard_at = ht_clock t 22, hl_last_frame = ht_clock t 23 - 34000000,
                 hl_cursor_at = ht_clock t 24 - 101000000\<rparr>))))"

text \<open>The consent under which the displays are listed is checked first.\<close>

(* @src crates/sensor-windows/src/desktop.rs:165-172 displays *)
definition list_displays :: "consent \<Rightarrow> probe \<Rightarrow> desktop_error + display list \<Rightarrow> desktop_error + display list" where
  "list_displays consent p outputs =
     res_bind (map_err DE_Permission (consent_require consent P_ViewDesktop)) (\<lambda>_.
     res_bind (interactive_desktop p) (\<lambda>_. outputs))"

subsection \<open>The stream\<close>

text \<open>What a desktop stream may contain: the generation of the last format and the assembler's state.
  A message that the viewer would refuse makes the stream bad.\<close>

type_synonym stream_state = "nat option \<times> pending_frame option"

definition displays_ok :: "display list \<Rightarrow> bool" where
  "displays_ok ds \<longleftrightarrow> ds \<noteq> [] \<and> length ds \<le> 64 \<and> list_all (\<lambda>d. display_validate d = Inr ()) ds"

fun stream_step :: "bool \<Rightarrow> stream_state \<Rightarrow> desktop_message \<Rightarrow> stream_state option" where
  "stream_step clip (g, p) (DM_Displays ds) = (if displays_ok ds then Some (g, p) else None)"
| "stream_step clip (g, p) (DM_Format f) = (if format_validate f = Inr () then Some (Some (vf_generation f), None) else None)"
| "stream_step clip (g, p) (DM_Fragment fr) =
     (if g = Some (fg_generation fr)
      then (case assembler_push p (DM_Fragment fr) of (Inl e, _) \<Rightarrow> None | (Inr _, p) \<Rightarrow> Some (g, p)) else None)"
| "stream_step clip s (DM_ClipboardText t) = (if clip \<and> validate_clipboard t = Inr () then Some s else None)"
| "stream_step clip s (DM_Telemetry tm) = Some s"
| "stream_step clip s (DM_Pong v) = Some s"
| "stream_step clip s (DM_Cursor g x y v) = Some s"
| "stream_step clip s DM_Close = Some s"
| "stream_step clip s _ = None"

fun stream_run :: "bool \<Rightarrow> stream_state \<Rightarrow> desktop_message list \<Rightarrow> stream_state option" where
  "stream_run clip s [] = Some s"
| "stream_run clip s (m # ms) = Option.bind (stream_step clip s m) (\<lambda>s. stream_run clip s ms)"

lemma stream_run_append: "stream_run clip s (ms @ ms') = Option.bind (stream_run clip s ms) (\<lambda>s. stream_run clip s ms')"
  by (induction ms arbitrary: s) (auto split: Option.bind_splits)

text \<open>The fragments of a packet pass the stream and complete it.\<close>

lemma chunks_pieces:
  "0 < n \<Longrightarrow> concat (chunks n xs) = xs \<and> list_all (\<lambda>c. c \<noteq> [] \<and> length c \<le> n) (chunks n xs)"
proof (induction n xs rule: chunks.induct)
  case (1 n xs)
  then show ?case
    by (subst (1 2) chunks.simps) auto
qed

definition packet_ok :: "packet_io \<Rightarrow> bool" where
  "packet_ok p \<longleftrightarrow> ef_bytes (pk_frame p) \<noteq> [] \<and> length (ef_bytes (pk_frame p)) \<le> MAX_ENCODED_FRAME"

definition turn_ok :: "host_turn \<Rightarrow> bool" where
  "turn_ok t \<longleftrightarrow> (\<forall>ps. ht_available t = Inr ps \<longrightarrow> list_all packet_ok ps) \<and>
     (\<forall>nv12 ts ps. ht_encode t nv12 ts = Inr ps \<longrightarrow> list_all packet_ok ps)"

definition stream_of :: "bool \<Rightarrow> host_loop \<Rightarrow> stream_state option" where
  "stream_of clip st = stream_run clip (None, None) (hw_sent (hl_writer st))"

text \<open>The invariant of the loop between its steps.\<close>

definition ready :: "bool \<Rightarrow> host_loop \<Rightarrow> bool" where
  "ready clip st \<longleftrightarrow> stream_of clip st = Some (Some (hl_generation st), None) \<and>
     adaptive_inv (hl_adaptive st) \<and> fw_inv (hl_flight st) \<and> nt_generation (hl_target st) \<in> {0, hl_generation st}"

fun step_ok :: "bool \<Rightarrow> host_step \<Rightarrow> bool" where
  "step_ok clip (Done r, st) \<longleftrightarrow> stream_of clip st \<noteq> None \<and> r \<noteq> Inl HE_Panic"
| "step_ok clip (_, st) \<longleftrightarrow> ready clip st"

lemma stream_of_updates [simp]:
  "stream_of clip (st\<lparr>hl_control := x1\<rparr>) = stream_of clip st" "stream_of clip (st\<lparr>hl_target := x2\<rparr>) = stream_of clip st"
  "stream_of clip (st\<lparr>hl_generation := x3\<rparr>) = stream_of clip st" "stream_of clip (st\<lparr>hl_adaptive := x4\<rparr>) = stream_of clip st"
  "stream_of clip (st\<lparr>hl_hardware := x5\<rparr>) = stream_of clip st" "stream_of clip (st\<lparr>hl_rotation := x6\<rparr>) = stream_of clip st"
  "stream_of clip (st\<lparr>hl_format := x7\<rparr>) = stream_of clip st" "stream_of clip (st\<lparr>hl_flight := x8\<rparr>) = stream_of clip st"
  "stream_of clip (st\<lparr>hl_telemetry := x9\<rparr>) = stream_of clip st" "stream_of clip (st\<lparr>hl_previous := y1\<rparr>) = stream_of clip st"
  "stream_of clip (st\<lparr>hl_feedback := y2\<rparr>) = stream_of clip st" "stream_of clip (st\<lparr>hl_reconfigure := y3\<rparr>) = stream_of clip st"
  "stream_of clip (st\<lparr>hl_clipboard := y4\<rparr>) = stream_of clip st" "stream_of clip (st\<lparr>hl_cursor := y5\<rparr>) = stream_of clip st"
  "stream_of clip (st\<lparr>hl_measured_at := y6\<rparr>) = stream_of clip st" "stream_of clip (st\<lparr>hl_clipboard_at := y7\<rparr>) = stream_of clip st"
  "stream_of clip (st\<lparr>hl_last_frame := y8\<rparr>) = stream_of clip st" "stream_of clip (st\<lparr>hl_cursor_at := y9\<rparr>) = stream_of clip st"
  by (simp_all add: stream_of_def)

lemma ready_updates [simp]:
  "ready clip (st\<lparr>hl_control := x1\<rparr>) = ready clip st" "ready clip (st\<lparr>hl_hardware := x5\<rparr>) = ready clip st"
  "ready clip (st\<lparr>hl_rotation := x6\<rparr>) = ready clip st" "ready clip (st\<lparr>hl_format := x7\<rparr>) = ready clip st"
  "ready clip (st\<lparr>hl_telemetry := x9\<rparr>) = ready clip st" "ready clip (st\<lparr>hl_previous := y1\<rparr>) = ready clip st"
  "ready clip (st\<lparr>hl_feedback := y2\<rparr>) = ready clip st" "ready clip (st\<lparr>hl_reconfigure := y3\<rparr>) = ready clip st"
  "ready clip (st\<lparr>hl_clipboard := y4\<rparr>) = ready clip st" "ready clip (st\<lparr>hl_cursor := y5\<rparr>) = ready clip st"
  "ready clip (st\<lparr>hl_measured_at := y6\<rparr>) = ready clip st" "ready clip (st\<lparr>hl_clipboard_at := y7\<rparr>) = ready clip st"
  "ready clip (st\<lparr>hl_last_frame := y8\<rparr>) = ready clip st" "ready clip (st\<lparr>hl_cursor_at := y9\<rparr>) = ready clip st"
  by (simp_all add: ready_def)

lemma ready_stream: "ready clip st \<Longrightarrow> stream_of clip st \<noteq> None"
  by (simp add: ready_def)

lemma then_go_ok:
  assumes "step_ok clip fs" and "\<And>st. ready clip st \<Longrightarrow> step_ok clip (k st)"
  shows "step_ok clip (then_go fs k)"
  using assms by (cases fs; cases "fst fs") (auto simp: then_go_def)

lemma host_send_cases:
  obtains w where "host_send E m st = (Go, st\<lparr>hl_writer := w\<rparr>)"
      "stream_of clip (st\<lparr>hl_writer := w\<rparr>) = Option.bind (stream_of clip st) (\<lambda>s. stream_step clip s m)"
  | e w where "host_send E m st = (Done (Inl (HE_Connection e)), st\<lparr>hl_writer := w\<rparr>)"
      "stream_of clip (st\<lparr>hl_writer := w\<rparr>) = stream_of clip st"
proof -
  obtain r w where w: "desktop_send E m (hl_writer st) = (r, w)"
    by fastforce
  note s = desktop_send_sent [OF w]
  show thesis
  proof (cases r)
    case (Inl e)
    then obtain e' where "r = Inl (HE_Connection e')"
      using w by (auto simp: desktop_send_def split: prod.splits sum.splits)
    then show thesis
      using that(2) [of e' w] w s by (simp add: host_send_def stream_of_def)
  next
    case (Inr u)
    then show thesis
      using that(1) [of w] w s by (simp add: host_send_def stream_of_def stream_run_append)
  qed
qed

lemma ready_writer:
  "ready clip st \<Longrightarrow> stream_of clip (st\<lparr>hl_writer := w\<rparr>) = Some (Some (hl_generation st), None) \<Longrightarrow> ready clip (st\<lparr>hl_writer := w\<rparr>)"
  by (simp add: ready_def)

text \<open>A message that leaves the stream's state alone.\<close>

lemma host_send_ok:
  assumes "ready clip st" and "stream_step clip (Some (hl_generation st), None) m = Some (Some (hl_generation st), None)"
  shows "step_ok clip (host_send E m st)"
  using assms ready_writer [OF assms(1)]
  by (cases rule: host_send_cases [of E m st clip]) (auto simp: ready_def)

lemma host_send_then_ok:
  assumes "ready clip st" and "stream_step clip (Some (hl_generation st), None) m = Some (Some (hl_generation st), None)"
    and "\<And>st. ready clip st \<Longrightarrow> step_ok clip (k st)"
  shows "step_ok clip (then_go (host_send E m st) k)"
  using then_go_ok host_send_ok assms by blast

subsection \<open>Every step keeps the stream\<close>

lemma push_fragment:
  assumes "fg_total f \<le> MAX_ENCODED_FRAME" and "b \<noteq> []" and "length b \<le> VIDEO_FRAGMENT"
    and "length buf + length b \<le> fg_total f"
  shows "\<exists>r. assembler_push (if buf = [] then None else Some (start_pending f\<lparr>pf_buffer := buf\<rparr>))
      (DM_Fragment (f\<lparr>fg_offset := length buf, fg_bytes := b\<rparr>)) =
    (Inr r, if length buf + length b = fg_total f then None else Some (start_pending f\<lparr>pf_buffer := buf @ b\<rparr>))"
  using assms by (auto simp: assembler_push_def push_inner_def start_pending_def Let_def)

lemma send_fragments_ok:
  assumes "stream_of clip st = Some (Some (fg_generation f), if buf = [] then None else Some (start_pending f\<lparr>pf_buffer := buf\<rparr>))"
    and "fg_total f = length buf + length xs" and "fg_total f \<le> MAX_ENCODED_FRAME"
    and "xs \<noteq> []" and "length buf = index * VIDEO_FRAGMENT"
    and "send_fragments E f el index (chunks VIDEO_FRAGMENT xs) st = (fl, st')"
  shows "(\<exists>w. st' = st\<lparr>hl_writer := w\<rparr>) \<and>
    (fl = Go \<and> stream_of clip st' = Some (Some (fg_generation f), None) \<or>
     (\<exists>r. fl = Done r \<and> r \<noteq> Inl HE_Panic \<and> stream_of clip st' \<noteq> None))"
  using assms
proof (induction VIDEO_FRAGMENT xs arbitrary: buf index st rule: chunks.induct)
  case (1 xs)
  let ?b = "take VIDEO_FRAGMENT xs" and ?rest = "drop VIDEO_FRAGMENT xs"
  let ?m = "DM_Fragment (f\<lparr>fg_offset := index * VIDEO_FRAGMENT, fg_bytes := ?b\<rparr>)"
  have V: "0 < VIDEO_FRAGMENT"
    by (simp add: VIDEO_FRAGMENT_def)
  have ch: "chunks VIDEO_FRAGMENT xs = ?b # chunks VIDEO_FRAGMENT ?rest"
    using "1.prems"(4) V by (subst chunks.simps) simp
  have b: "?b \<noteq> []" "length ?b \<le> VIDEO_FRAGMENT" "length buf + length ?b \<le> fg_total f"
    using "1.prems"(2,4) V by auto
  show ?case
  proof (cases "el index > 500 \<or> index * VIDEO_FRAGMENT \<ge> 2 ^ 32")
    case True
    then show ?thesis
      using "1.prems"(1,6) ch by (auto intro: exI [of _ "hl_writer st"] split: if_splits)
  next
    case False
    then have s: "send_fragments E f el index (chunks VIDEO_FRAGMENT xs) st =
        then_go (host_send E ?m st) (send_fragments E f el (Suc index) (chunks VIDEO_FRAGMENT ?rest))"
      by (simp add: ch)
    have push: "\<exists>r. assembler_push (if buf = [] then None else Some (start_pending f\<lparr>pf_buffer := buf\<rparr>)) ?m =
        (Inr r, if length buf + length ?b = fg_total f then None else Some (start_pending f\<lparr>pf_buffer := buf @ ?b\<rparr>))"
      using push_fragment [OF "1.prems"(3) b] "1.prems"(5) by simp
    then have step: "Option.bind (stream_of clip st) (\<lambda>s. stream_step clip s ?m) =
        Some (Some (fg_generation f), if length buf + length ?b = fg_total f then None
          else Some (start_pending f\<lparr>pf_buffer := buf @ ?b\<rparr>))"
      using "1.prems"(1) by auto
    show ?thesis
    proof (cases rule: host_send_cases [of E ?m st clip])
      case (1 w)
      then have st': "send_fragments E f el (Suc index) (chunks VIDEO_FRAGMENT ?rest) (st\<lparr>hl_writer := w\<rparr>) = (fl, st')"
        using s "1.prems"(6) by (simp add: then_go_def)
      show ?thesis
      proof (cases "?rest = []")
        case True
        then have "length buf + length ?b = fg_total f"
          using "1.prems"(2) by simp
        then show ?thesis
          using 1 step st' True by (auto simp: chunks.simps)
      next
        case False
        then have l: "length ?b = VIDEO_FRAGMENT"
          by simp
        then have ne: "length buf + length ?b \<noteq> fg_total f"
          using "1.prems"(2) False by auto
        have "(\<exists>w'. st' = (st\<lparr>hl_writer := w\<rparr>)\<lparr>hl_writer := w'\<rparr>) \<and>
          (fl = Go \<and> stream_of clip st' = Some (Some (fg_generation f), None) \<or>
           (\<exists>r. fl = Done r \<and> r \<noteq> Inl HE_Panic \<and> stream_of clip st' \<noteq> None))"
        proof (rule "1.hyps")
          show "stream_of clip (st\<lparr>hl_writer := w\<rparr>) = Some (Some (fg_generation f),
              if buf @ ?b = [] then None else Some (start_pending f\<lparr>pf_buffer := buf @ ?b\<rparr>))"
            using 1 step ne b(1) by simp
          show "length (buf @ ?b) = Suc index * VIDEO_FRAGMENT"
            using l "1.prems"(5) by simp
        qed (use "1.prems" False V st' in auto)
        then show ?thesis
          by auto
      qed
    next
      case (2 e w)
      then show ?thesis
        using s "1.prems"(1,6) by (auto simp: then_go_def)
    qed
  qed
qed

lemma send_packet_ok:
  assumes "ready clip st" and "packet_ok p"
  shows "step_ok clip (send_packet E p st)"
proof -
  let ?bytes = "ef_bytes (pk_frame p)"
  let ?st = "st\<lparr>hl_flight := fw_encoded (hl_flight st) (as_u64 (ef_timestamp (pk_frame p))) (length ?bytes),
    hl_telemetry := (hl_telemetry st)\<lparr>tm_bytes := tm_bytes (hl_telemetry st) + length ?bytes\<rparr>\<rparr>"
  let ?f = "fragment_of (hl_generation st) (pk_frame p)"
  have r: "ready clip ?st"
    using assms fw_encoded_inv by (simp add: ready_def packet_ok_def)
  have small: "length ?bytes < 2 ^ 32"
    using assms(2) by (simp add: packet_ok_def MAX_ENCODED_FRAME_def)
  obtain fl st' where f: "send_fragments E ?f (pk_elapsed p) 0 (chunks VIDEO_FRAGMENT ?bytes) ?st = (fl, st')"
    by fastforce
  have "(\<exists>w. st' = ?st\<lparr>hl_writer := w\<rparr>) \<and>
    (fl = Go \<and> stream_of clip st' = Some (Some (fg_generation ?f), None) \<or>
     (\<exists>r. fl = Done r \<and> r \<noteq> Inl HE_Panic \<and> stream_of clip st' \<noteq> None))"
    by (rule send_fragments_ok [where buf = "[]", OF _ _ _ _ _ f])
      (use r assms(2) in \<open>auto simp: ready_def fragment_of_def packet_ok_def\<close>)
  then have "step_ok clip (fl, st')"
    using ready_writer [OF r] by (auto simp: fragment_of_def)
  then have "step_ok clip (then_go (fl, st') (\<lambda>st.
      (Go, st\<lparr>hl_control := (hl_control st)\<lparr>ct_encoded := ct_encoded (hl_control st) + 1\<rparr>,
        hl_telemetry := (hl_telemetry st)\<lparr>tm_encoded := tm_encoded (hl_telemetry st) + 1,
          tm_send_us := tm_send_us (hl_telemetry st) + pk_us p\<rparr>\<rparr>)))"
    by (rule then_go_ok) simp
  then show ?thesis
    using small f by (simp add: send_packet_def Let_def)
qed

lemma send_video_packets_ok:
  "ready clip st \<Longrightarrow> list_all packet_ok ps \<Longrightarrow> step_ok clip (send_video_packets E ps st)"
  by (induction ps arbitrary: st) (auto intro!: then_go_ok send_packet_ok)

lemma host_ack_ready: "ready clip st \<Longrightarrow> ready clip (host_ack t g s d r st)"
proof -
  assume r: "ready clip st"
  have "fw_inv (snd (fw_acknowledge (hl_flight st) s now))" for now
    using r fw_acknowledge_inv by (simp add: ready_def)
  then have "fw_acknowledge (hl_flight st) s now = (q, fw) \<Longrightarrow> fw_inv fw" for now q fw
    by (metis snd_conv)
  then show ?thesis
    using r by (auto simp: host_ack_def Let_def ready_def split: prod.splits option.splits)
qed

lemma host_command_ok: "ready clip st \<Longrightarrow> step_ok clip (host_command_step E t c st)"
proof (cases c)
  case (HC_SelectVideoProfile p)
  assume r: "ready clip st"
  then have "ready clip (st\<lparr>hl_adaptive := (hl_adaptive st)\<lparr>ad_profile := p\<rparr>\<rparr>)"
    by (simp add: ready_def adaptive_inv_def)
  then show ?thesis
    using HC_SelectVideoProfile ready_stream [OF r] by (auto simp: Let_def)
next
  case HC_Close
  assume r: "ready clip st"
  then show ?thesis
    by (cases rule: host_send_cases [of E DM_Close st clip]) (auto simp: HC_Close ready_def)
qed (auto simp: host_ack_ready ready_stream intro: host_send_ok)

lemma host_drain_ok: "ready clip st \<Longrightarrow> step_ok clip (host_drain E t cs st)"
  by (induction cs arbitrary: st) (auto intro!: then_go_ok host_command_ok)

lemma host_retarget_ready: "ready clip st \<Longrightarrow> ready clip (host_retarget t target st)"
  by (simp add: host_retarget_def Let_def)

lemma host_measure_ok: "ready clip st \<Longrightarrow> step_ok clip (host_measure E t now st)"
proof -
  assume r: "ready clip st"
  obtain ad where ad: "observe (hl_adaptive st) (host_feedback now st) = Some ad" "adaptive_inv ad"
    using r observe_inv [of "hl_adaptive st" "host_feedback now st"] by (auto simp: ready_def)
  have r': "ready clip (st\<lparr>hl_feedback := fb, hl_adaptive := ad\<rparr>)" for fb
    using r ad by (simp add: ready_def)
  show ?thesis
    using r r' ad ready_stream [OF r]
    by (auto simp: host_measure_def Let_def host_retarget_ready intro!: host_send_then_ok split: sum.split)
qed

lemma host_setup_format: "host_setup t index g ad hw = Inr (rotation, f) \<Longrightarrow> format_validate f = Inr () \<and> vf_generation f = g"
  by (auto simp: host_setup_def Let_def res_simps)

lemma host_reconfigure_ok:
  assumes "ready clip st"
  shows "step_ok clip (host_reconfigure E t st)"
proof (cases "hl_reconfigure st")
  case (Some index)
  let ?st = "st\<lparr>hl_reconfigure := None, hl_generation := hl_generation st + 1\<rparr>"
  show ?thesis
  proof (cases "host_setup t index (hl_generation ?st) (hl_adaptive ?st) (hl_hardware ?st)")
    case (Inl e)
    have "e \<noteq> HE_Panic"
      using Inl by (auto simp: host_setup_def Let_def res_bind_def map_err_def split: sum.splits prod.splits)
    then show ?thesis
      using Inl Some assms by (auto simp: host_reconfigure_def Let_def ready_def)
  next
    case (Inr rf)
    obtain rotation f where rf: "rf = (rotation, f)"
      by fastforce
    note f = host_setup_format [OF Inr [unfolded rf]]
    let ?st' = "?st\<lparr>hl_rotation := rotation, hl_format := f, hl_flight := fw_default\<rparr>"
    have s: "Option.bind (stream_of clip ?st') (\<lambda>s. stream_step clip s (DM_Format f)) = Some (Some (hl_generation ?st'), None)"
      using assms f by (simp add: ready_def)
    have fw: "fw_inv fw_default"
      by (simp add: fw_inv_def fw_default_def)
    show ?thesis
      using Some Inr rf s assms fw
      by (cases rule: host_send_cases [of E "DM_Format f" ?st' clip])
        (auto simp: host_reconfigure_def Let_def then_go_def ready_def)
  qed
qed (use assms in \<open>simp add: host_reconfigure_def\<close>)

lemma host_fallback_ok: "ready clip st \<Longrightarrow> step_ok clip (host_fallback e st)"
  using ready_stream by (auto simp: host_fallback_def)

lemma host_pending_ok: "ready clip st \<Longrightarrow> turn_ok t \<Longrightarrow> step_ok clip (host_pending E t st)"
  by (auto simp: host_pending_def host_fallback_ok turn_ok_def host_stall_def
      intro!: then_go_ok send_video_packets_ok split: sum.split)

lemma host_clipboard_ok:
  assumes "ready (is_ok (consent_require (he_consent E) P_ClipboardText)) st"
  shows "step_ok (is_ok (consent_require (he_consent E) P_ClipboardText)) (host_clipboard E t st)"
proof -
  have "is_ok (consent_require c P_ClipboardText) \<and> validate_clipboard s = Inr ()"
    if "clip_poll L enabled c p cb = (Some s, cb')" for L enabled c p cb cb' s
    using that by (auto simp: clip_poll_def clip_observe_def Let_def is_ok_iff split: if_splits option.splits)
  then show ?thesis
    using assms by (auto simp: host_clipboard_def intro!: then_go_ok host_send_ok split: prod.splits option.split)
qed

lemma host_encode_ok:
  assumes "ready clip st" and "turn_ok t" and "can_submit (hl_flight st) now rate"
  shows "step_ok clip (host_encode E t now frame st)"
proof -
  have fw: "fw_inv (fw_submit (hl_flight st) s now)" for s
    using assms flight_step_inv [of "hl_flight st" "FO_Submit s now rate"] by (simp add: ready_def)
  show ?thesis
    unfolding host_encode_def Let_def
    using assms fw ready_stream
    by (auto simp: turn_ok_def host_stall_def intro!: host_fallback_ok then_go_ok send_video_packets_ok split: sum.split)
      (simp_all add: ready_def)
qed

lemma host_frame_ok: "ready clip st \<Longrightarrow> turn_ok t \<Longrightarrow> step_ok clip (host_frame E t now st)"
  using ready_stream by (auto simp: host_frame_def host_encode_ok split: sum.split option.split)

lemma host_cursor_ok: "ready clip st \<Longrightarrow> step_ok clip (host_cursor E t st)"
  using ready_stream by (auto simp: host_cursor_def intro!: then_go_ok host_send_ok split: sum.split)

lemma host_turn_ok:
  assumes "ready (is_ok (consent_require (he_consent E) P_ClipboardText)) st" and "turn_ok t"
  shows "step_ok (is_ok (consent_require (he_consent E) P_ClipboardText)) (host_turn_step E t st)"
  using assms ready_stream
  by (auto simp: host_turn_step_def Let_def
      intro!: then_go_ok host_drain_ok host_measure_ok host_reconfigure_ok host_pending_ok host_clipboard_ok
        host_frame_ok host_cursor_ok)

lemma host_run_ok:
  assumes "ready (is_ok (consent_require (he_consent E) P_ClipboardText)) st"
    and "\<And>t. HV_Turn t \<in> set evs \<Longrightarrow> turn_ok t" and "host_run E evs st = (r, st')"
  shows "case r of None \<Rightarrow> ready (is_ok (consent_require (he_consent E) P_ClipboardText)) st'
    | Some q \<Rightarrow> stream_of (is_ok (consent_require (he_consent E) P_ClipboardText)) st' \<noteq> None \<and> q \<noteq> Inl HE_Panic"
  using assms
proof (induction E evs st rule: host_run.induct)
  case (2 E t evs st)
  let ?clip = "is_ok (consent_require (he_consent E) P_ClipboardText)"
  obtain fl s where f: "host_turn_step E t st = (fl, s)"
    by fastforce
  have ok: "step_ok ?clip (fl, s)"
    using host_turn_ok [OF "2.prems"(1), of t] "2.prems"(2) f by simp
  show ?case
  proof (cases fl)
    case Go
    then show ?thesis
      using 2 f ok by simp
  next
    case Again
    then show ?thesis
      using 2 f ok by simp
  next
    case (Done q)
    then show ?thesis
      using "2.prems"(3) f ok by auto
  qed
next
  case (3 E evs st)
  have "ready clip st \<Longrightarrow> ready clip (st\<lparr>hl_target := (hl_target st)\<lparr>nt_generation := 0\<rparr>\<rparr>)" for clip
    by (simp add: ready_def)
  then show ?case
    using 3 by simp
qed auto

lemma host_start_ready:
  assumes "host_start E t listed split_result wclock rate_limit c = Inr st" and "displays_ok (he_displays E)"
  shows "ready clip st"
proof -
  define ad where "ad = adaptive_new (case Option.bind rate_limit parse_u32 of None \<Rightarrow> DEFAULT_MAX_BITRATE | Some n \<Rightarrow> n)"
  note start = assms(1) [unfolded host_start_def Let_def, folded ad_def]
  obtain d0 where d0: "listed = None" "he_displays E \<noteq> []" "split_result = Inr d0"
    using start by (cases split_result) (auto split: option.splits if_splits)
  note start = start [unfolded d0(1,3) option.case map_err_simps res_bind_simps, simplified d0(2) if_False]
  obtain r1 d where d1: "writer_set_timeout (250 * 1000000) d0 = (r1, d)"
    by fastforce
  obtain r2 w where d: "desktop_send E (DM_Displays (he_displays E)) \<lparr>hw_duplex = d, hw_clock = wclock, hw_sent = []\<rparr> = (r2, w)"
    by fastforce
  have r: "r1 = Inr ()" "r2 = Inr ()"
    using start d1 d by (cases r1; cases r2; simp)+
  obtain rotation f where f: "host_setup t 0 1 ad True = Inr (rotation, f)"
    using start d1 d r by (cases "host_setup t 0 1 ad True") auto
  obtain r3 w' where w: "desktop_send E (DM_Format f) w = (r3, w')"
    by fastforce
  have r3: "r3 = Inr ()"
    and st: "hl_writer st = w'" "hl_generation st = 1" "hl_adaptive st = ad" "hl_flight st = fw_default" "nt_generation (hl_target st) = 1"
    using start d1 d r f w by (cases r3; auto)+
  have "hw_sent w' = [DM_Displays (he_displays E), DM_Format f]"
    using desktop_send_sent [OF d] desktop_send_sent [OF w] r r3 by simp
  then show ?thesis
    using st assms(2) host_setup_format [OF f] adaptive_new_inv
    by (simp add: ready_def stream_of_def ad_def fw_inv_def fw_default_def)
qed


subsection \<open>A concrete host\<close>

lemma writer_send_ok:
  assumes "\<not> dx_failed d" and "aead_laws L"
    and "frame_new cd MT_Control m = Inr f" and "frame_encode f = Inr pt"
    and "length pt \<le> MAX_FRAME_SIZE - 64" and "session_seal L AAD (dx_session d) pt = (Inr r, s')"
    and "lively (now + dx_write_timeout d) n (st_writes (dx_stream d))" and "length pt + 35 \<le> n"
  shows "\<exists>bs sc. writer_send L cd now d m = (Inr (), d\<lparr>dx_session := s', dx_stream :=
      (dx_stream d)\<lparr>st_out := st_out (dx_stream d) @ framed bs, st_writes := sc\<rparr>\<rparr>) \<and>
    lively (now + dx_write_timeout d) (n - (length pt + 35)) sc"
proof -
  have ct: "length (er_ciphertext r) = length pt + 16"
    using assms(2,6) aead_lawsD(2) by (auto simp: session_seal_Inr_iff channel_seal_Inr_iff)
  then obtain bs where bs: "frame_encode (record_frame r) = Inr bs"
    using assms(5)
    by (auto simp: frame_encode_Inr_iff record_frame_def MAX_FRAME_SIZE_def HEADER_SIZE_def)
  have "length bs = length pt + 31"
    using length_frame_encode [OF bs] ct by (simp add: HEADER_SIZE_def record_frame_def)
  then obtain sc where "write_frame (record_frame r) (now + dx_write_timeout d) (dx_stream d) =
      (Inr (), (dx_stream d)\<lparr>st_out := st_out (dx_stream d) @ framed bs, st_writes := sc\<rparr>)"
    "lively (now + dx_write_timeout d) (n - (length pt + 35)) sc"
    using write_frame_lively [OF bs assms(7)] assms(8) by (auto simp: add.commute)
  then show ?thesis
    using assms by (intro exI [of _ bs] exI [of _ sc]) (simp add: writer_send_def fail_on_error_def)
qed

definition demo_message_codec :: "client_message codec" where
  "demo_message_codec = \<lparr>cd_ser = (\<lambda>_. Some []), cd_take = (\<lambda>_. None)\<rparr>"

definition demo_host_env :: host_env where
  "demo_host_env = \<lparr>he_crypto = demo_lib, he_codec = demo_message_codec, he_consent = demo_granted [P_Input],
     he_displays = [demo_display]\<rparr>"

definition demo_duplex :: duplex where
  "demo_duplex = \<lparr>dx_stream = demo_stream\<lparr>st_writes := replicate 200 (3, Moved 99)\<rparr>,
     dx_session = demo_session (channel_initiator demo_keys), dx_failed = False, dx_read_timeout = 15, dx_write_timeout = 15\<rparr>"

lemma demo_desktop_send:
  assumes "\<not> dx_failed (hw_duplex w)" and "sc_next_send (ss_channel (dx_session (hw_duplex w))) \<noteq> - 1"
    and "lively (hw_clock w 0 + dx_write_timeout (hw_duplex w)) n (st_writes (dx_stream (hw_duplex w)))" and "46 \<le> n"
  shows "\<exists>w'. desktop_send demo_host_env m w = (Inr (), w') \<and> \<not> dx_failed (hw_duplex w') \<and>
    dx_write_timeout (hw_duplex w') = dx_write_timeout (hw_duplex w) \<and> hw_clock w' = (\<lambda>n. hw_clock w (Suc n)) \<and>
    sc_next_send (ss_channel (dx_session (hw_duplex w'))) = sc_next_send (ss_channel (dx_session (hw_duplex w))) + 1 \<and>
    lively (hw_clock w 0 + dx_write_timeout (hw_duplex w)) (n - 46) (st_writes (dx_stream (hw_duplex w')))"
proof -
  obtain f pt where f: "frame_new demo_message_codec MT_Control (CM_Desktop m) = Inr f" "frame_encode f = Inr pt" "length pt = 7"
    by (auto simp: frame_new_def demo_message_codec_def frame_encode_def PROTOCOL_VERSION_def)
  obtain r where r: "session_seal demo_lib AAD (dx_session (hw_duplex w)) pt = (Inr r, (dx_session (hw_duplex w))\<lparr>ss_channel :=
       (ss_channel (dx_session (hw_duplex w)))\<lparr>sc_next_send := sc_next_send (ss_channel (dx_session (hw_duplex w))) + 1\<rparr>\<rparr>)"
    using demo_session_seal [OF assms(2)] by blast
  have "length pt \<le> MAX_FRAME_SIZE - 64" "length pt + 35 \<le> n"
    using assms(4) f(3) by (simp_all add: MAX_FRAME_SIZE_def)
  from writer_send_ok [OF assms(1) demo_aead_laws f(1,2) this(1) r assms(3) this(2)]
  obtain bs sc where s: "writer_send demo_lib demo_message_codec (hw_clock w 0) (hw_duplex w) (CM_Desktop m) =
      (Inr (), (hw_duplex w)\<lparr>dx_session := (dx_session (hw_duplex w))\<lparr>ss_channel :=
       (ss_channel (dx_session (hw_duplex w)))\<lparr>sc_next_send := sc_next_send (ss_channel (dx_session (hw_duplex w))) + 1\<rparr>\<rparr>,
       dx_stream := (dx_stream (hw_duplex w))\<lparr>st_out := st_out (dx_stream (hw_duplex w)) @ framed bs, st_writes := sc\<rparr>\<rparr>)"
    and l: "lively (hw_clock w 0 + dx_write_timeout (hw_duplex w)) (n - (length pt + 35)) sc"
    by blast
  have "lively (hw_clock w 0 + dx_write_timeout (hw_duplex w)) (n - 46) sc"
    using l f(3) by (simp add: lively_def) linarith
  then show ?thesis
    using s assms(1) by (simp add: desktop_send_def demo_host_env_def)
qed

definition demo_turn :: host_turn where
  "demo_turn = \<lparr>ht_clock = (\<lambda>_. 0), ht_commands = [HC_Close], ht_clip = (False, False),
     ht_clip_probe = demo_clip ''a'', ht_set_bitrate = True, ht_capture_new = (\<lambda>_. Inr (demo_display, 0)),
     ht_encoder_new = (\<lambda>_ _. Inr ([], True)), ht_available = Inr [], ht_next = Inr None,
     ht_encode = (\<lambda>_ _. Inr []), ht_cursor = Inr (0, 0, True)\<rparr>"

lemma demo_turn_ok: "turn_ok demo_turn"
  by (simp add: turn_ok_def demo_turn_def)

lemma demo_setup: "\<exists>f. host_setup demo_turn 0 1 (adaptive_new c) True = Inr (0, f)"
proof -
  have "stream_ok (ds_width demo_display) (ds_height demo_display)"
    by (simp add: stream_ok_def demo_display_def)
  from target_valid [OF adaptive_new_inv this] obtain t where
    t: "adaptive_target (adaptive_new c) (ds_width demo_display) (ds_height demo_display) = Inr t"
      "even (tg_width t)" "even (tg_height t)" "pixels (tg_width t) (tg_height t) = Inr (tg_width t * tg_height t)"
      "10 \<le> tg_fps t" "tg_fps t \<le> 60" "MIN_BITRATE \<le> tg_bitrate t" "tg_bitrate t \<le> ad_ceiling (adaptive_new c)"
    by metis
  have "tg_bitrate t \<le> 50000000"
    using t(8) adaptive_new_inv [of c] by (simp add: adaptive_inv_def)
  moreover have "display_validate demo_display = Inr ()"
    by (simp add: display_validate_iff demo_display_def str_len_ascii is_ascii_def lit_def)
  ultimately have "format_validate \<lparr>vf_generation = 1, vf_display = demo_display, vf_width = tg_width t,
      vf_height = tg_height t, vf_fps_limit = tg_fps t, vf_bitrate = tg_bitrate t, vf_encoder = [], vf_hardware = True\<rparr> = Inr ()"
    using t by (simp add: format_validate_iff MIN_BITRATE_def)
  then show ?thesis
    using t(1) by (simp add: host_setup_def demo_turn_def Let_def)
qed

lemma demo_host_runs:
  "\<exists>st0 r st. host_start demo_host_env demo_turn None (Inr demo_duplex) (\<lambda>_. 0) None control_default = Inr st0 \<and>
     host_run demo_host_env [HV_Turn demo_turn] st0 = (r, st)"
proof -
  obtain f where f: "host_setup demo_turn 0 1 (adaptive_new DEFAULT_MAX_BITRATE) True = Inr (0, f)"
    using demo_setup by blast
  let ?d = "demo_duplex\<lparr>dx_write_timeout := 250000000\<rparr>"
  let ?w = "\<lparr>hw_duplex = ?d, hw_clock = (\<lambda>_. 0), hw_sent = []\<rparr>"
  have d: "writer_set_timeout (250 * 1000000) demo_duplex = (Inr (), ?d)"
    by (simp add: writer_set_timeout_def)
  have l: "lively (hw_clock ?w 0 + dx_write_timeout (hw_duplex ?w)) 100 (st_writes (dx_stream (hw_duplex ?w)))"
    by (simp add: demo_duplex_def lively_replicate)
  obtain w1 where w1: "desktop_send demo_host_env (DM_Displays (he_displays demo_host_env)) ?w = (Inr (), w1)"
    "\<not> dx_failed (hw_duplex w1)" "dx_write_timeout (hw_duplex w1) = 250000000" "hw_clock w1 = (\<lambda>_. 0)"
    "sc_next_send (ss_channel (dx_session (hw_duplex w1))) = 1"
    "lively (hw_clock w1 0 + dx_write_timeout (hw_duplex w1)) 54 (st_writes (dx_stream (hw_duplex w1)))"
    using demo_desktop_send [of ?w 100 "DM_Displays (he_displays demo_host_env)"] l
    by (auto simp: demo_duplex_def demo_session_def channel_initiator_def)
  obtain w2 where w2: "desktop_send demo_host_env (DM_Format f) w1 = (Inr (), w2)"
    using demo_desktop_send [of w1 54 "DM_Format f"] w1 by auto
  obtain st0 where st0: "host_start demo_host_env demo_turn None (Inr demo_duplex) (\<lambda>_. 0) None control_default = Inr st0"
    using f w1(1) w2 d by (simp add: host_start_def demo_host_env_def Let_def)
  then show ?thesis
    by (metis surj_pair)
qed

lemma demo_host_displays: "displays_ok (he_displays demo_host_env)"
  by (simp add: displays_ok_def demo_host_env_def display_validate_iff demo_display_def str_len_ascii is_ascii_def lit_def)


end
