(* ===== verification/Sensor_Viewer.thy ===== *)
theory Sensor_Viewer
  imports Sensor_Host
begin

section \<open>sensor-desktop: the viewer of a remote desktop\<close>

text \<open>
  The viewer's main thread reads what the host sends, decodes the video and shows it; a second thread
  writes the user's input, the acknowledgements, pings and the clipboard. They share the control with
  its bounded queue, and a queue for one clipboard text. The decoder and the window are outside: what
  they answer is an input of each step. The lemmas show that a viewer never refuses what a host of this
  program sends, and that whatever another host sends, only validated displays, formats, texts and
  completely assembled frames come through.
\<close>

subsection \<open>State\<close>

datatype viewer_error =
    VX_Connection connection_error
  | VX_Window
  | VX_Media media_error
  | VX_Codec nat
  | VX_Stalled
  | VX_Peer rstr
  | VX_Text string

(* @src crates/sensor-desktop/src/worker.rs:31-50 Event, those of a viewer *)
datatype window_event =
    WE_RemoteDisplays "display list"
  | WE_RemoteFormat video_format
  | WE_RemoteCursor int int bool

text \<open>
  \<open>vw_decoder\<close>: the format the decoder was made for, if there is one; \<open>vw_decoded\<close> records what it was
  given. \<open>vw_clips\<close> is the queue for clipboard texts; \<open>vw_writing\<close> and \<open>vw_reading\<close> say whether the threads
  are in their loops.
\<close>

record viewer =
  vw_control :: control
  vw_clip_mode :: bool
  vw_assembler :: "pending_frame option"
  vw_decoder :: "(nat \<times> nat \<times> nat) option"
  vw_decoded :: "encoded_frame list"
  vw_generation :: nat
  vw_events :: "window_event list"
  vw_clips :: "rstr list"
  vw_reading :: bool
  vw_writing :: bool
  vw_writer :: host_writer
  vw_clipboard :: text_clipboard
  vw_last_ping :: nat
  vw_clipboard_at :: nat

text \<open>What a step of the reading thread takes from outside: whether the window still takes events; the
  results of making a decoder and of decoding; the microseconds of decoding; the session's clock in
  microseconds.\<close>

record viewer_io =
  vi_window :: bool
  vi_decoder_new :: "nat option"
  vi_decode :: "nat + decoded_frame list"
  vi_decode_us :: nat
  vi_now :: nat

type_synonym viewer_step = "(viewer_error + unit) option \<times> viewer"

definition show_event :: "viewer_io \<Rightarrow> window_event \<Rightarrow> viewer \<Rightarrow> viewer_step" where
  "show_event io e v =
     (if vi_window io then (None, v\<lparr>vw_events := vw_events v @ [e]\<rparr>) else (Some (Inl VX_Window), v))"

subsection \<open>One message\<close>

(* @src crates/sensor-desktop/src/worker.rs:1410-1420 execute_remote, Displays *)
definition viewer_displays :: "viewer_io \<Rightarrow> display list \<Rightarrow> viewer \<Rightarrow> viewer_step" where
  "viewer_displays io displays v =
     (if displays = [] \<or> length displays > 64 then (Some (Inl (VX_Text ''Invalid monitor list'')), v)
      else case foldr (\<lambda>d r. res_bind (display_validate d) (\<lambda>_. r)) displays (Inr ()) of
          Inl e \<Rightarrow> (Some (Inl (VX_Media e)), v)
        | Inr _ \<Rightarrow> show_event io (WE_RemoteDisplays displays) v)"

(* @src crates/sensor-desktop/src/worker.rs:1421-1432 execute_remote, Format *)
definition viewer_format :: "viewer_io \<Rightarrow> video_format \<Rightarrow> viewer \<Rightarrow> viewer_step" where
  "viewer_format io f v =
     (case format_validate f of
        Inl e \<Rightarrow> (Some (Inl (VX_Media e)), v)
      | Inr _ \<Rightarrow>
          (case vi_decoder_new io of
             Some e \<Rightarrow> (Some (Inl (VX_Codec e)), v\<lparr>vw_generation := vf_generation f\<rparr>)
           | None \<Rightarrow> show_event io (WE_RemoteFormat f)
               (v\<lparr>vw_generation := vf_generation f, vw_decoder := Some (vf_width f, vf_height f, vf_fps_limit f),
                  vw_assembler := None\<rparr>)))"

(* @src crates/sensor-desktop/src/worker.rs:1433-1457 execute_remote, Fragment *)
definition viewer_fragment :: "viewer_io \<Rightarrow> fragment \<Rightarrow> viewer \<Rightarrow> viewer_step" where
  "viewer_fragment io fr v =
     (case assembler_push (vw_assembler v) (DM_Fragment fr) of
        (Inl e, p) \<Rightarrow> (Some (Inl (VX_Media e)), v\<lparr>vw_assembler := p\<rparr>)
      | (Inr None, p) \<Rightarrow> (None, v\<lparr>vw_assembler := p\<rparr>)
      | (Inr (Some frame), p) \<Rightarrow>
          (let c = vw_control v;
               v = v\<lparr>vw_assembler := p,
                 vw_control := c\<lparr>ct_video_bytes := ct_video_bytes c + of_nat (length (ef_bytes frame))\<rparr>\<rparr>
           in case vw_decoder v of
               None \<Rightarrow> (Some (Inl (VX_Text ''Received video before its format.'')), v)
             | Some _ \<Rightarrow>
                 (let v = v\<lparr>vw_decoded := vw_decoded v @ [frame]\<rparr> in
                  case vi_decode io of
                    Inl e \<Rightarrow> (Some (Inl (VX_Codec e)), v)
                  | Inr pictures \<Rightarrow>
                      (let c = fold publish_frame pictures (vw_control v);
                           ack = DM_FrameAck (vw_generation v) (as_u64 (ef_timestamp frame)) (vi_decode_us io) (unat (ct_rtt c))
                       in case try_send ack c of
                           (Sent, c) \<Rightarrow> (None, v\<lparr>vw_control := c\<rparr>)
                         | (_, c) \<Rightarrow> (Some (Inl VX_Stalled), v\<lparr>vw_control := c\<rparr>)))))"

(* @src crates/sensor-desktop/src/worker.rs:1467-1472 execute_remote, Pong *)
definition viewer_pong :: "viewer_io \<Rightarrow> nat \<Rightarrow> viewer \<Rightarrow> viewer" where
  "viewer_pong io stamp v =
     (if stamp \<le> vi_now io
      then v\<lparr>vw_control := (vw_control v)\<lparr>ct_rtt := of_nat (vi_now io - stamp)\<rparr>\<rparr> else v)"

text \<open>The queue for clipboard texts has room for one; a text that finds it full is lost.\<close>

(* @src crates/sensor-desktop/src/worker.rs:1473-1480 execute_remote, ClipboardText *)
definition viewer_clipboard :: "rstr \<Rightarrow> viewer \<Rightarrow> viewer_step" where
  "viewer_clipboard s v =
     (if \<not> vw_clip_mode v \<or> \<not> is_ok (validate_clipboard s)
      then (Some (Inl (VX_Text ''Clipboard permission denied or invalid text.'')), v)
      else (None, if ct_clip_enabled (vw_control v) \<and> vw_writing v \<and> vw_clips v = []
        then v\<lparr>vw_clips := [s]\<rparr> else v))"

(* @src crates/sensor-desktop/src/worker.rs:1409-1498 execute_remote, dispatching *)
definition viewer_message :: "viewer_io \<Rightarrow> client_message \<Rightarrow> viewer \<Rightarrow> viewer_step" where
  "viewer_message io m v =
     (case m of
        CM_Desktop (DM_Displays displays) \<Rightarrow> viewer_displays io displays v
      | CM_Desktop (DM_Format f) \<Rightarrow> viewer_format io f v
      | CM_Desktop (DM_Fragment fr) \<Rightarrow> viewer_fragment io fr v
      | CM_Desktop (DM_Cursor g x y shown) \<Rightarrow> show_event io (WE_RemoteCursor x y shown) v
      | CM_Desktop (DM_Ping value) \<Rightarrow> (None, v\<lparr>vw_control := snd (try_send (DM_Pong value) (vw_control v))\<rparr>)
      | CM_Desktop DM_Close \<Rightarrow> (Some (Inr ()), v)
      | CM_Close \<Rightarrow> (Some (Inr ()), v)
      | CM_Desktop (DM_Pong stamp) \<Rightarrow> (None, viewer_pong io stamp v)
      | CM_Desktop (DM_ClipboardText s) \<Rightarrow> viewer_clipboard s v
      | CM_Desktop (DM_Error e) \<Rightarrow> (Some (Inl (VX_Peer e)), v)
      | CM_Desktop (DM_Telemetry tm) \<Rightarrow> (None, v\<lparr>vw_control := (vw_control v)\<lparr>ct_telemetry := Some tm\<rparr>\<rparr>)
      | CM_Desktop (DM_Input g ev) \<Rightarrow> (Some (Inl (VX_Text ''Peer sent an invalid desktop command.'')), v)
      | CM_Desktop (DM_SelectDisplay index) \<Rightarrow> (Some (Inl (VX_Text ''Peer sent an invalid desktop command.'')), v)
      | CM_Desktop (DM_SelectVideoProfile profile) \<Rightarrow> (Some (Inl (VX_Text ''Peer sent an invalid desktop command.'')), v)
      | CM_Desktop (DM_FrameAck g s d r) \<Rightarrow> (Some (Inl (VX_Text ''Invalid viewer feedback direction'')), v)
      | _ \<Rightarrow> (Some (Inl (VX_Text ''Unexpected message in remote desktop session.'')), v))"

text \<open>A failed receive fails both halves of the connection; after the session was cancelled it is its end.\<close>

(* @src crates/sensor-desktop/src/worker.rs:1403-1408 execute_remote, receiving *)
definition viewer_turn :: "viewer_io \<Rightarrow> connection_error + client_message \<Rightarrow> viewer \<Rightarrow> viewer_step" where
  "viewer_turn io received v =
     (case received of
        Inl e \<Rightarrow> (Some (if ct_cancelled (vw_control v) then Inr () else Inl (VX_Connection e)),
          v\<lparr>vw_writer := (vw_writer v)\<lparr>hw_duplex := fail_duplex (hw_duplex (vw_writer v))\<rparr>\<rparr>)
      | Inr m \<Rightarrow> viewer_message io m v)"

text \<open>Leaving the loop drops the sender and cancels the session.\<close>

(* @src crates/sensor-desktop/src/worker.rs:1500-1503 execute_remote, leaving *)
definition viewer_finish :: "viewer \<Rightarrow> viewer" where
  "viewer_finish v = v\<lparr>vw_reading := False, vw_control := control_abort (clear_remote_sender (vw_control v))\<rparr>"

subsection \<open>The writing thread\<close>

text \<open>What a turn takes from outside: the clock in nanoseconds (since the session began) where it is
  read; what the clipboard holds and whether it opens and is written.\<close>

record writer_io =
  wi_clock :: "nat \<Rightarrow> nat"
  wi_probe :: clip_probe
  wi_clip :: "bool \<times> bool"

text \<open>The end of the thread drops the receiving ends of both queues.\<close>

definition viewer_stop_writing :: "viewer \<Rightarrow> viewer" where
  "viewer_stop_writing v =
     v\<lparr>vw_writing := False, vw_clips := [], vw_control := (vw_control v)\<lparr>ct_receiver := False\<rparr>\<rparr>"

text \<open>A failed write cancels the session and ends the thread.\<close>

definition viewer_write :: "host_env \<Rightarrow> desktop_message \<Rightarrow> viewer \<Rightarrow> viewer" where
  "viewer_write E m v =
     (case desktop_send E m (vw_writer v) of
        (Inl _, w) \<Rightarrow> viewer_stop_writing (v\<lparr>vw_writer := w, vw_control := control_abort (vw_control v)\<rparr>)
      | (Inr _, w) \<Rightarrow> v\<lparr>vw_writer := w\<rparr>)"

(* @src crates/sensor-desktop/src/worker.rs:1361-1363 execute_remote, a text for the clipboard *)
definition writer_apply :: "host_env \<Rightarrow> writer_io \<Rightarrow> viewer \<Rightarrow> viewer" where
  "writer_apply E io v =
     (case vw_clips v of
        [] \<Rightarrow> v
      | s # rest \<Rightarrow> v\<lparr>vw_clips := rest, vw_clipboard := snd (clip_apply (he_crypto E) s (ct_clip_enabled (vw_control v))
          (he_consent E) (fst (wi_clip io)) (snd (wi_clip io)) (vw_clipboard v))\<rparr>)"

(* @src crates/sensor-desktop/src/worker.rs:1364-1375 execute_remote, polling the clipboard *)
definition writer_poll :: "host_env \<Rightarrow> writer_io \<Rightarrow> viewer \<Rightarrow> viewer" where
  "writer_poll E io v =
     (if wi_clock io 0 - vw_clipboard_at v < 250 * 1000000 then v
      else case clip_poll (he_crypto E) (ct_clip_enabled (vw_control v)) (he_consent E) (wi_probe io) (vw_clipboard v) of
          (None, cb) \<Rightarrow> v\<lparr>vw_clipboard := cb, vw_clipboard_at := wi_clock io 1\<rparr>
        | (Some s, cb) \<Rightarrow>
            (let v = viewer_write E (DM_ClipboardText s) (v\<lparr>vw_clipboard := cb\<rparr>)
             in if vw_writing v then v\<lparr>vw_clipboard_at := wi_clock io 1\<rparr> else v))"

(* @src crates/sensor-desktop/src/worker.rs:1376-1386 execute_remote, pinging *)
definition writer_ping :: "host_env \<Rightarrow> writer_io \<Rightarrow> viewer \<Rightarrow> viewer" where
  "writer_ping E io v =
     (if wi_clock io 2 - vw_last_ping v < 2 * 1000000000 then v
      else let v = viewer_write E (DM_Ping (min (micros (wi_clock io 3)) (2 ^ 64 - 1))) v
        in if vw_writing v then v\<lparr>vw_last_ping := wi_clock io 4\<rparr> else v)"

text \<open>The turn in two steps, since other threads may act before the queue is read.\<close>

(* @src crates/sensor-desktop/src/worker.rs:1357-1386 execute_remote, the writer until the queue *)
definition writer_turn :: "host_env \<Rightarrow> writer_io \<Rightarrow> viewer \<Rightarrow> viewer" where
  "writer_turn E io v =
     (if ct_cancelled (vw_control v) then viewer_stop_writing v
      else let v = writer_poll E io (writer_apply E io v)
        in if vw_writing v then writer_ping E io v else v)"

text \<open>An empty queue is waited for in vain unless both senders are gone.\<close>

(* @src crates/sensor-desktop/src/worker.rs:1387-1396 execute_remote, the writer at the queue *)
definition writer_take :: "host_env \<Rightarrow> viewer \<Rightarrow> viewer" where
  "writer_take E v =
     (let c = vw_control v in
      case ct_queue c of
        m # rest \<Rightarrow> viewer_write E m (v\<lparr>vw_control := c\<lparr>ct_queue := rest\<rparr>\<rparr>)
      | [] \<Rightarrow> if \<not> ct_sender c \<and> \<not> vw_reading v then viewer_stop_writing v else v)"

subsection \<open>Starting and running\<close>

(* @src crates/sensor-desktop/src/worker.rs:1324-1329 execute_remote, the mode *)
definition remote_mode :: "bool \<Rightarrow> bool \<Rightarrow> mode" where
  "remote_mode control_mode clipboard_mode =
     (if control_mode then (if clipboard_mode then M_RemoteControlClipboard else M_RemoteControl)
      else (if clipboard_mode then M_ScreenViewClipboard else M_ScreenView))"

text \<open>The two threads once the host has accepted, at the time \<open>now\<close>. The writer works under a consent
  of its own; it ends at once if that cannot be made.\<close>

(* @src crates/sensor-desktop/src/worker.rs:1338-1356 execute_remote, starting *)
definition viewer_start ::
  "bool \<Rightarrow> connection_error + duplex \<Rightarrow> (nat \<Rightarrow> nat) \<Rightarrow> nat \<Rightarrow> control \<Rightarrow> viewer_error + viewer" where
  "viewer_start clipboard_mode split_result wclock now c =
     res_bind (map_err VX_Connection split_result) (\<lambda>d.
     case writer_set_timeout (250 * 1000000) d of
       (Inl e, _) \<Rightarrow> Inl (VX_Connection e)
     | (Inr _, d) \<Rightarrow> Inr
         \<lparr>vw_control = set_remote_sender 256 (grant_clipboard clipboard_mode c), vw_clip_mode = clipboard_mode,
          vw_assembler = None, vw_decoder = None, vw_decoded = [], vw_generation = 0, vw_events = [], vw_clips = [],
          vw_reading = True, vw_writing = True, vw_writer = \<lparr>hw_duplex = d, hw_clock = wclock, hw_sent = []\<rparr>,
          vw_clipboard = clipboard_default, vw_last_ping = now, vw_clipboard_at = now\<rparr>)"

text \<open>The threads and the window in any order, until the reading thread is done.\<close>

datatype viewer_op =
    VO_Read viewer_io "connection_error + client_message"
  | VO_Write writer_io
  | VO_Take
  | VO_Control control_op

fun viewer_run :: "host_env \<Rightarrow> viewer_op list \<Rightarrow> viewer \<Rightarrow> viewer_step" where
  "viewer_run E [] v = (None, v)"
| "viewer_run E (VO_Read io r # ops) v =
     (case viewer_turn io r v of
        (None, v) \<Rightarrow> viewer_run E ops v
      | (Some q, v) \<Rightarrow> (Some q, viewer_finish v))"
| "viewer_run E (VO_Write io # ops) v = viewer_run E ops (if vw_writing v then writer_turn E io v else v)"
| "viewer_run E (VO_Take # ops) v = viewer_run E ops (if vw_writing v then writer_take E v else v)"
| "viewer_run E (VO_Control op # ops) v = viewer_run E ops (v\<lparr>vw_control := snd (control_step (vw_control v) op)\<rparr>)"

fun received :: "viewer_op list \<Rightarrow> client_message list" where
  "received [] = []"
| "received (VO_Read io (Inr m) # ops) = m # received ops"
| "received (op # ops) = received ops"

subsection \<open>A host of this program is never refused\<close>

text \<open>The failures that are not the host's messages'.\<close>

definition local_failure :: "viewer_error \<Rightarrow> bool" where
  "local_failure e \<longleftrightarrow> e = VX_Window \<or> e = VX_Stalled \<or> (\<exists>n. e = VX_Codec n) \<or> (\<exists>c. e = VX_Connection c)"

definition follows :: "stream_state \<Rightarrow> viewer \<Rightarrow> bool" where
  "follows s v \<longleftrightarrow> vw_assembler v = snd s \<and> (\<forall>g. fst s = Some g \<longrightarrow> vw_generation v = g \<and> vw_decoder v \<noteq> None)"

lemma validate_all:
  "(\<exists>u. foldr (\<lambda>d r. res_bind (display_validate d) (\<lambda>_. r)) ds (Inr ()) = Inr u) \<longleftrightarrow>
     list_all (\<lambda>d. display_validate d = Inr ()) ds"
  by (induction ds) (auto simp: res_simps)

lemma viewer_displays_valid:
  "displays_ok ds \<Longrightarrow> viewer_displays io ds v = show_event io (WE_RemoteDisplays ds) v"
  using validate_all [of ds] by (auto simp: viewer_displays_def displays_ok_def)

lemma viewer_step_follows:
  assumes "follows s v" and "stream_step clip s m = Some s'" and "clip \<Longrightarrow> vw_clip_mode v"
    and "viewer_message io (CM_Desktop m) v = (q, v')"
  shows "vw_clip_mode v' = vw_clip_mode v \<and>
    (case q of None \<Rightarrow> follows s' v' | Some (Inl e) \<Rightarrow> local_failure e | Some (Inr _) \<Rightarrow> True)"
proof (cases m)
  case (DM_Displays ds)
  then show ?thesis
    using assms by (cases s) (auto simp: viewer_message_def viewer_displays_valid show_event_def follows_def local_failure_def
      split: if_splits)
next
  case (DM_Format f)
  then show ?thesis
    using assms by (cases s) (auto simp: viewer_message_def viewer_format_def show_event_def follows_def local_failure_def
      split: if_splits option.splits)
next
  case (DM_Fragment fr)
  then show ?thesis
    using assms by (cases s) (auto simp: viewer_message_def viewer_fragment_def follows_def local_failure_def Let_def
      split: if_splits option.splits sum.splits prod.splits send_result.splits)
next
  case (DM_Cursor g x y vis)
  then show ?thesis
    using assms by (cases s) (auto simp: viewer_message_def show_event_def follows_def local_failure_def split: if_splits)
next
  case (DM_ClipboardText t)
  then show ?thesis
    using assms by (cases s) (auto simp: viewer_message_def viewer_clipboard_def follows_def is_ok_iff split: if_splits)
next
  case (DM_Pong stamp)
  then show ?thesis
    using assms by (cases s) (auto simp: viewer_message_def viewer_pong_def follows_def split: if_splits)
qed (use assms in \<open>cases s; auto simp: viewer_message_def follows_def\<close>)+

lemma viewer_write_keeps:
  "follows s (viewer_write E m v) = follows s v" "vw_clip_mode (viewer_write E m v) = vw_clip_mode v"
  by (auto simp: viewer_write_def viewer_stop_writing_def follows_def split: prod.splits sum.splits)

lemma writer_steps_keep:
  "follows s (writer_apply E io v) = follows s v" "vw_clip_mode (writer_apply E io v) = vw_clip_mode v"
  "follows s (viewer_stop_writing v) = follows s v" "vw_clip_mode (viewer_stop_writing v) = vw_clip_mode v"
  "follows s (v\<lparr>vw_clipboard := cb\<rparr>) = follows s v" "follows s (v\<lparr>vw_clipboard_at := n\<rparr>) = follows s v"
  "follows s (v\<lparr>vw_last_ping := n\<rparr>) = follows s v"
  by (simp_all add: follows_def writer_apply_def viewer_stop_writing_def split: list.split)

lemma writer_poll_keeps:
  "follows s (writer_poll E io v) = follows s v" "vw_clip_mode (writer_poll E io v) = vw_clip_mode v"
  by (simp_all add: writer_poll_def Let_def viewer_write_keeps writer_steps_keep split: option.split prod.split)

lemma writer_ping_keeps:
  "follows s (writer_ping E io v) = follows s v" "vw_clip_mode (writer_ping E io v) = vw_clip_mode v"
  by (simp_all add: writer_ping_def Let_def viewer_write_keeps writer_steps_keep)

lemma writer_turn_keeps:
  "follows s (writer_turn E io v) = follows s v" "vw_clip_mode (writer_turn E io v) = vw_clip_mode v"
  by (simp_all add: writer_turn_def Let_def writer_ping_keeps writer_poll_keeps writer_steps_keep)

lemma writer_take_keeps:
  "follows s (writer_take E v) = follows s v" "vw_clip_mode (writer_take E v) = vw_clip_mode v"
  by (auto simp: writer_take_def Let_def viewer_stop_writing_def viewer_write_keeps split: list.split)
    (simp_all add: follows_def)

lemma viewer_run_follows:
  assumes "received ops = map CM_Desktop ms" and "stream_run clip s ms = Some s'" and "follows s v"
    and "clip \<Longrightarrow> vw_clip_mode v" and "viewer_run E ops v = (q, v')"
  shows "case q of None \<Rightarrow> follows s' v' | Some (Inl e) \<Rightarrow> local_failure e | Some (Inr _) \<Rightarrow> True"
  using assms
proof (induction E ops v arbitrary: ms s rule: viewer_run.induct)
  case (2 E io r ops v)
  obtain o1 v1 where t: "viewer_turn io r v = (o1, v1)"
    by fastforce
  show ?case
  proof (cases r)
    case (Inl e)
    then show ?thesis
      using "2.prems"(5) t by (auto simp: viewer_turn_def local_failure_def split: if_splits)
  next
    case (Inr cm)
    then obtain m ms' where m: "ms = m # ms'" "cm = CM_Desktop m" "received ops = map CM_Desktop ms'"
      using "2.prems"(1) by (cases ms) auto
    then obtain s1 where s1: "stream_step clip s m = Some s1" "stream_run clip s1 ms' = Some s'"
      using "2.prems"(2) by (cases "stream_step clip s m") auto
    have "viewer_message io (CM_Desktop m) v = (o1, v1)"
      using t Inr m(2) by (simp add: viewer_turn_def)
    note f = viewer_step_follows [OF "2.prems"(3) s1(1) "2.prems"(4) this]
    show ?thesis
    proof (cases o1)
      case None
      then show ?thesis
        using "2.IH" [OF t [symmetric] None m(3) s1(2)] f "2.prems"(4,5) t by simp
    next
      case (Some res)
      then show ?thesis
        using f "2.prems"(5) t by auto
    qed
  qed
next
  case (5 E op ops v)
  have "follows s (v\<lparr>vw_control := c\<rparr>) = follows s v" for c
    by (simp add: follows_def)
  then show ?case
    using 5 by simp
qed (auto simp: writer_turn_keeps writer_take_keeps)

text \<open>C15: A viewer never refuses an honest host. Let a host run in any way, and let a viewer in clipboard
  mode whenever the host's consent includes the clipboard receive any initial part of what the host
  sends, in order, interleaved in any way with its own writing thread, its window and the operations on
  its control. Then the viewer never ends with a protocol, format, fragment, clipboard or peer error:
  it can only end by a close or by a failure of its own window, decoder, feedback queue or connection.
  While it goes on, its assembler and its format generation are those of the host's stream.\<close>

theorem viewer_accepts_host:
  assumes "host_start E t listed split_result wclock rate_limit c = Inr st0" and "displays_ok (he_displays E)"
    and "\<And>t. HV_Turn t \<in> set evs \<Longrightarrow> turn_ok t" and "host_run E evs st0 = (r, st)"
    and "viewer_start clipboard_mode split' wclock' now c' = Inr v0"
    and "is_ok (consent_require (he_consent E) P_ClipboardText) \<Longrightarrow> clipboard_mode"
    and "received ops = map CM_Desktop (take n (hw_sent (hl_writer st)))"
    and "viewer_run E' ops v0 = (q, v)"
  shows "(\<exists>s. q = None \<and> follows s v \<and>
      stream_run (is_ok (consent_require (he_consent E) P_ClipboardText)) (None, None) (take n (hw_sent (hl_writer st))) = Some s) \<or>
    (\<exists>e. q = Some (Inl e) \<and> local_failure e) \<or> q = Some (Inr ())"
proof -
  let ?clip = "is_ok (consent_require (he_consent E) P_ClipboardText)"
  let ?ms = "hw_sent (hl_writer st)"
  have "stream_run ?clip (None, None) (take n ?ms @ drop n ?ms) \<noteq> None"
    using host_run_ok [OF host_start_ready [OF assms(1,2)] assms(3,4)]
    by (auto simp: ready_def stream_of_def split: option.splits)
  then obtain s where s: "stream_run ?clip (None, None) (take n ?ms) = Some s"
    by (metis (no_types, lifting) Option.bind.bind_lzero not_Some_eq stream_run_append)
  have v0: "follows (None, None) v0" "vw_clip_mode v0 = clipboard_mode"
    using assms(5) by (auto simp: viewer_start_def writer_set_timeout_def follows_def res_simps)
  have "case q of None \<Rightarrow> follows s v | Some (Inl e) \<Rightarrow> local_failure e | Some (Inr _) \<Rightarrow> True"
    using viewer_run_follows [OF assms(7) s v0(1) _ assms(8)] assms(6) v0(2) by simp
  then show ?thesis
  proof (cases q)
    case None
    with \<open>case q of None \<Rightarrow> _ | Some _ \<Rightarrow> _\<close> have "follows s v"
      by simp
    with None s show ?thesis
      by blast
  qed (auto split: sum.splits)
qed

subsection \<open>What another host can do\<close>

fun event_valid :: "window_event \<Rightarrow> bool" where
  "event_valid (WE_RemoteDisplays ds) = displays_ok ds"
| "event_valid (WE_RemoteFormat f) = (format_validate f = Inr ())"
| "event_valid (WE_RemoteCursor x y shown) = True"

definition decoder_valid :: "nat \<times> nat \<times> nat \<Rightarrow> bool" where
  "decoder_valid d \<longleftrightarrow> (case d of (w, h, fps) \<Rightarrow>
     is_ok (pixels w h) \<and> even w \<and> even h \<and> 1 \<le> fps \<and> fps \<le> 60)"

definition frame_valid :: "encoded_frame \<Rightarrow> bool" where
  "frame_valid f \<longleftrightarrow> ef_bytes f \<noteq> [] \<and> length (ef_bytes f) \<le> MAX_ENCODED_FRAME"

definition viewer_inv :: "viewer \<Rightarrow> bool" where
  "viewer_inv v \<longleftrightarrow> list_all event_valid (vw_events v) \<and> pred_option decoder_valid (vw_decoder v) \<and>
     list_all frame_valid (vw_decoded v) \<and> (vw_decoded v \<noteq> [] \<longrightarrow> vw_decoder v \<noteq> None) \<and> assembler_inv (vw_assembler v) \<and>
     length (vw_clips v) \<le> 1 \<and> list_all (\<lambda>s. vw_clip_mode v \<and> validate_clipboard s = Inr ()) (vw_clips v)"

lemma assembler_push_frame:
  assumes "assembler_inv s" and "assembler_push s (DM_Fragment fr) = (Inr (Some f), s')"
  shows "frame_valid f"
  using assms by (auto simp: assembler_push_def push_inner_def start_pending_def assembler_inv_def frame_valid_def Let_def
      split: option.splits if_splits)

lemma viewer_displays_inv: "viewer_inv v \<Longrightarrow> viewer_inv (snd (viewer_displays io ds v))"
  using validate_all [of ds]
  by (auto simp: viewer_displays_def show_event_def viewer_inv_def displays_ok_def split: sum.split)

lemma viewer_format_inv: "viewer_inv v \<Longrightarrow> viewer_inv (snd (viewer_format io f v))"
  by (auto simp: viewer_format_def show_event_def viewer_inv_def decoder_valid_def assembler_inv_def format_validate_iff
      split: sum.split option.split)

lemma viewer_fragment_inv: "viewer_inv v \<Longrightarrow> viewer_inv (snd (viewer_fragment io fr v))"
  using assembler_inv_push [of "vw_assembler v" "DM_Fragment fr"] assembler_push_frame [of "vw_assembler v" fr]
  by (auto simp: viewer_fragment_def viewer_inv_def Let_def split: sum.split option.split prod.split send_result.split)

lemma viewer_message_inv: "viewer_inv v \<Longrightarrow> viewer_inv (snd (viewer_message io m v))"
proof -
  assume i: "viewer_inv v"
  have k: "viewer_inv (v\<lparr>vw_control := c\<rparr>)" for c
    using i by (simp add: viewer_inv_def)
  have c: "viewer_inv (snd (viewer_clipboard s v))" for s
    using i by (auto simp: viewer_clipboard_def viewer_inv_def is_ok_iff)
  have e: "viewer_inv (snd (show_event io (WE_RemoteCursor x y shown) v))" for x y shown
    using i by (auto simp: show_event_def viewer_inv_def)
  show ?thesis
    using i k c e by (auto simp: viewer_message_def viewer_pong_def viewer_displays_inv viewer_format_inv viewer_fragment_inv
      split: client_message.split desktop_message.split)
qed

lemma viewer_write_inv: "viewer_inv v \<Longrightarrow> viewer_inv (viewer_write E m v)"
  by (auto simp: viewer_write_def viewer_stop_writing_def viewer_inv_def split: prod.split sum.split)

lemma writer_turn_inv: "viewer_inv v \<Longrightarrow> viewer_inv (writer_turn E io v)"
proof -
  assume i: "viewer_inv v"
  have u: "viewer_inv (w\<lparr>vw_clipboard := cb\<rparr>) = viewer_inv w" "viewer_inv (w\<lparr>vw_clipboard_at := t\<rparr>) = viewer_inv w"
    "viewer_inv (w\<lparr>vw_last_ping := t\<rparr>) = viewer_inv w" "viewer_inv w \<Longrightarrow> viewer_inv (viewer_stop_writing w)" for w cb t
    by (simp_all add: viewer_inv_def viewer_stop_writing_def)
  have "viewer_inv (writer_apply E io v)"
    using i by (auto simp: writer_apply_def viewer_inv_def split: list.split)
  then have "viewer_inv (writer_poll E io (writer_apply E io v))"
    by (simp add: writer_poll_def Let_def u viewer_write_inv split: option.split prod.split)
  moreover have "viewer_inv w \<Longrightarrow> viewer_inv (writer_ping E io w)" for w
    by (simp add: writer_ping_def Let_def u viewer_write_inv)
  ultimately show ?thesis
    using i by (simp add: writer_turn_def Let_def u)
qed

lemma writer_take_inv: "viewer_inv v \<Longrightarrow> viewer_inv (writer_take E v)"
  by (auto simp: writer_take_def Let_def viewer_stop_writing_def intro!: viewer_write_inv split: list.split)
    (simp_all add: viewer_inv_def)

lemma viewer_run_inv: "viewer_inv v \<Longrightarrow> viewer_inv (snd (viewer_run E ops v))"
proof (induction E ops v rule: viewer_run.induct)
  case (2 E io r ops v)
  obtain o1 v1 where t: "viewer_turn io r v = (o1, v1)"
    by fastforce
  have "viewer_inv v1"
    using "2.prems" viewer_message_inv [of v io] t
    by (cases r) (auto simp: viewer_turn_def viewer_inv_def, (metis snd_conv)+)
  then show ?case
    using "2.IH" [OF t [symmetric]] t by (cases o1) (simp_all add: viewer_finish_def viewer_inv_def)
next
  case (5 E op ops v)
  then show ?case
    by (simp add: viewer_inv_def)
qed (auto simp: writer_turn_inv writer_take_inv)

text \<open>A viewer takes nothing unchecked from its host. Whatever the host sends, in any order and
  interleaving: every list of displays and every format that the window gets is valid, there is at most
  one decoder, made for a valid even picture size and rate, it gets only completely assembled frames of
  at most 8 MiB and none before a format, the assembler holds at most one bounded frame, and a clipboard
  text waits, one at most, only in a session in clipboard mode and only within the limits.\<close>

theorem viewer_checks_host:
  assumes "viewer_start clipboard_mode split_result wclock now c = Inr v0"
  shows "viewer_inv (snd (viewer_run E ops v0))"
  using assms by (intro viewer_run_inv)
    (auto simp: viewer_start_def writer_set_timeout_def viewer_inv_def assembler_inv_def res_simps)

subsection \<open>A concrete session\<close>

definition demo_viewer_io :: viewer_io where
  "demo_viewer_io = \<lparr>vi_window = True, vi_decoder_new = None, vi_decode = Inr [], vi_decode_us = 0, vi_now = 0\<rparr>"

lemma received_map [simp]: "received (map (\<lambda>m. VO_Read io (Inr (CM_Desktop m))) ms) = map CM_Desktop ms"
  by (induction ms) auto

lemma demo_viewer_start:
  "\<exists>v0. viewer_start mode_clip (Inr demo_duplex) wclock now c = Inr v0"
  by (simp add: viewer_start_def writer_set_timeout_def)

lemma viewer_accepts_host_witness:
  "\<exists>st0 r st v0 q v. host_start demo_host_env demo_turn None (Inr demo_duplex) (\<lambda>_. 0) None control_default = Inr st0 \<and>
     host_run demo_host_env [HV_Turn demo_turn] st0 = (r, st) \<and>
     viewer_start True (Inr demo_duplex) (\<lambda>_. 0) 0 control_default = Inr v0 \<and>
     viewer_run demo_host_env (map (\<lambda>m. VO_Read demo_viewer_io (Inr (CM_Desktop m))) (hw_sent (hl_writer st))) v0 = (q, v) \<and>
     (case q of Some (Inl e) \<Rightarrow> local_failure e | _ \<Rightarrow> True)"
proof -
  obtain st0 r st where h: "host_start demo_host_env demo_turn None (Inr demo_duplex) (\<lambda>_. 0) None control_default = Inr st0"
    "host_run demo_host_env [HV_Turn demo_turn] st0 = (r, st)"
    using demo_host_runs by blast
  obtain v0 where v0: "viewer_start True (Inr demo_duplex) (\<lambda>_. 0) 0 control_default = Inr v0"
    using demo_viewer_start by blast
  let ?ops = "map (\<lambda>m. VO_Read demo_viewer_io (Inr (CM_Desktop m))) (hw_sent (hl_writer st))"
  obtain q v where run: "viewer_run demo_host_env ?ops v0 = (q, v)"
    by fastforce
  have "received ?ops = map CM_Desktop (take (length (hw_sent (hl_writer st))) (hw_sent (hl_writer st)))"
    by simp
  from viewer_accepts_host [OF h(1) demo_host_displays _ h(2) v0 _ this run] demo_turn_ok
  have "case q of Some (Inl e) \<Rightarrow> local_failure e | _ \<Rightarrow> True"
    by auto
  then show ?thesis
    using h v0 run by blast
qed

lemma viewer_checks_host_witness:
  "\<exists>v0. viewer_start True (Inr demo_duplex) (\<lambda>_. 0) 0 control_default = Inr v0 \<and>
     viewer_inv (snd (viewer_run demo_host_env [VO_Read demo_viewer_io (Inr (CM_Desktop (DM_ClipboardText (lit ''a''))))] v0))"
  using viewer_checks_host demo_viewer_start by metis

end
