(* ===== verification/Sensor_Relay.thy ===== *)
theory Sensor_Relay
  imports Sensor_Connection Sensor_Settings
begin

section \<open>sensor-relay: the provisioned relay of one pair\<close>

text \<open>
  A relay that an operator runs for two endpoints whose keys it is given. An endpoint joins by signing
  the relay's challenge; when both have joined, their bytes are copied in both directions. Sockets are
  the streams of the connections, with a script of what the system answers; here only reads that
  \<open>receive\<close> makes check a deadline, other calls wait for the timeout that was set on the socket. The
  lemmas show who can join, that an honest endpoint and relay agree, and that the bytes of the two are
  neither changed nor mixed with anything else; and what ends a relay that should run for ever.
\<close>

subsection \<open>Joining\<close>

(* @src crates/sensor-relay/src/lib.rs:18-30 RelayError *)
datatype relay_error =
    LE_Io io_error
  | LE_Crypto crypto_error
  | LE_Unauthorized
  | LE_Timeout
  | LE_Worker

(* @src crates/sensor-relay/src/lib.rs:14-14 CHALLENGE_DOMAIN *)
definition CHALLENGE_DOMAIN :: bytes where
  "CHALLENGE_DOMAIN = ascii_bytes ''SENSOR/relay/challenge/v1''"

(* @src crates/sensor-relay/src/lib.rs:15-15 RESPONSE_DOMAIN *)
definition RESPONSE_DOMAIN :: bytes where
  "RESPONSE_DOMAIN = ascii_bytes ''SENSOR/relay/join/v1''"

(* @src crates/sensor-relay/src/lib.rs:16-16 MAGIC *)
definition RELAY_MAGIC :: bytes where
  "RELAY_MAGIC = ascii_bytes ''SRL1''"

(* @src crates/sensor-relay/src/lib.rs:32-37 deadline_left *)
definition deadline_left :: "nat \<Rightarrow> nat \<Rightarrow> relay_error + nat" where
  "deadline_left now deadline = (if now < deadline then Inr (deadline - now) else Inl LE_Timeout)"

(* @src crates/sensor-relay/src/lib.rs:39-58 receive, the loop *)
fun relay_receive_loop ::
  "nat \<Rightarrow> nat \<Rightarrow> bytes \<Rightarrow> (nat \<times> io_event) list \<Rightarrow> (relay_error + bytes) \<times> bytes \<times> (nat \<times> io_event) list" where
  "relay_receive_loop deadline 0 inp script = (Inr [], inp, script)"
| "relay_receive_loop deadline (Suc n) inp [] = (Inl (LE_Io IO_TimedOut), inp, [])"
| "relay_receive_loop deadline (Suc n) inp ((now, ev) # script) =
     (case deadline_left now deadline of
        Inl e \<Rightarrow> (Inl e, inp, (now, ev) # script)
      | Inr _ \<Rightarrow> (case ev of
          Moved k \<Rightarrow>
            (let count = min k (min (Suc n) (length inp))
             in if count = 0 then (Inl (LE_Io IO_UnexpectedEof), inp, script)
                else (case relay_receive_loop deadline (Suc n - count) (drop count inp) script of
                    (Inl e, r) \<Rightarrow> (Inl e, r)
                  | (Inr bs, r) \<Rightarrow> (Inr (take count inp @ bs), r)))
        | Interrupted \<Rightarrow> relay_receive_loop deadline (Suc n) inp script
        | Failed e \<Rightarrow> (Inl (LE_Io e), inp, script)))"

(* @src crates/sensor-relay/src/lib.rs:39-58 receive *)
definition relay_receive :: "nat \<Rightarrow> nat \<Rightarrow> tcp_stream \<Rightarrow> (relay_error + bytes) \<times> tcp_stream" where
  "relay_receive deadline n s =
     (let (r, inp, script) = relay_receive_loop deadline n (st_in s) (st_reads s)
      in (r, s\<lparr>st_in := inp, st_reads := script\<rparr>))"

text \<open>\<open>write_all\<close> of the standard library: it repeats the call until all is written, without a clock.\<close>

definition untimed :: "(nat \<times> io_event) list \<Rightarrow> (nat \<times> io_event) list" where
  "untimed script = map (\<lambda>e. (0, snd e)) script"

definition relay_write :: "bytes \<Rightarrow> tcp_stream \<Rightarrow> (relay_error + unit) \<times> tcp_stream" where
  "relay_write bs s =
     (let (r, out, script) = write_loop 1 bs (st_out s) (untimed (st_writes s))
      in (map_err LE_Io r, s\<lparr>st_out := out, st_writes := script\<rparr>))"

(* @src crates/sensor-relay/src/lib.rs:60-64 challenge_bytes *)
definition challenge_bytes :: "bytes \<Rightarrow> bytes" where
  "challenge_bytes nonce = CHALLENGE_DOMAIN @ nonce"

(* @src crates/sensor-relay/src/lib.rs:65-70 response_bytes *)
definition response_bytes :: "bytes \<Rightarrow> bytes \<Rightarrow> bytes" where
  "response_bytes challenge key = RESPONSE_DOMAIN @ challenge @ key"

text \<open>The endpoint's answer to a challenge.\<close>

(* @src crates/sensor-relay/src/lib.rs:86-96 join, the answer *)
definition join_answer :: "crypto_lib \<Rightarrow> identity_keypair \<Rightarrow> bytes \<Rightarrow> bytes \<Rightarrow> relay_error + bytes" where
  "join_answer L local relay_key challenge =
     (if take 4 challenge \<noteq> RELAY_MAGIC \<or> take 32 (drop 36 challenge) \<noteq> relay_key then Inl LE_Unauthorized
      else res_bind (map_err LE_Crypto
          (identity_verify L relay_key (challenge_bytes (take 32 (drop 4 challenge))) (drop 68 challenge))) (\<lambda>_.
        Inr (kp_public L local @ kp_sign L local (response_bytes challenge (kp_public L local)))))"

text \<open>The clock is read at the start, before connecting and before the write timeout is set.\<close>

(* @src crates/sensor-relay/src/lib.rs:74-104 join *)
definition relay_join ::
  "crypto_lib \<Rightarrow> identity_keypair \<Rightarrow> bytes \<Rightarrow> nat \<Rightarrow> nat \<times> nat \<times> nat \<Rightarrow> io_error + tcp_stream \<Rightarrow> relay_error + tcp_stream" where
  "relay_join L local relay_key timeout clock socket =
     (case clock of (start, now1, now2) \<Rightarrow>
      let deadline = start + timeout in
      res_bind (deadline_left now1 deadline) (\<lambda>_.
      res_bind (map_err LE_Io socket) (\<lambda>s.
      case st_nodelay s of Some e \<Rightarrow> Inl (LE_Io e) | None \<Rightarrow>
      res_bind (deadline_left now2 deadline) (\<lambda>_.
      case relay_receive deadline 132 s of
        (Inl e, _) \<Rightarrow> Inl e
      | (Inr challenge, s) \<Rightarrow>
          res_bind (join_answer L local relay_key challenge) (\<lambda>response.
          case relay_write response s of
            (Inl e, _) \<Rightarrow> Inl e
          | (Inr _, s) \<Rightarrow>
              (case relay_receive deadline 1 s of
                 (Inl e, _) \<Rightarrow> Inl e
               | (Inr ready, s) \<Rightarrow> if ready \<noteq> [1] then Inl LE_Unauthorized else Inr s))))))"

(* @src crates/sensor-relay/src/lib.rs:114-119 authenticate, the challenge *)
definition relay_challenge :: "crypto_lib \<Rightarrow> identity_keypair \<Rightarrow> bytes \<Rightarrow> bytes" where
  "relay_challenge L relay nonce = RELAY_MAGIC @ nonce @ kp_public L relay @ kp_sign L relay (challenge_bytes nonce)"

text \<open>The role is the position of the key among the two that are allowed.\<close>

definition role_of :: "bytes \<times> bytes \<Rightarrow> bytes \<Rightarrow> nat option" where
  "role_of allowed key = (if fst allowed = key then Some 0 else if snd allowed = key then Some 1 else None)"

(* @src crates/sensor-relay/src/lib.rs:123-134 authenticate, the answer *)
definition check_answer :: "crypto_lib \<Rightarrow> bytes \<times> bytes \<Rightarrow> bytes \<Rightarrow> bytes \<Rightarrow> relay_error + nat" where
  "check_answer L allowed challenge response =
     res_bind (ok_or (role_of allowed (take 32 response)) LE_Unauthorized) (\<lambda>role.
     res_bind (map_err LE_Crypto (identity_verify L (take 32 response)
         (response_bytes challenge (take 32 response)) (drop 32 response))) (\<lambda>_. Inr role))"

(* @src crates/sensor-relay/src/lib.rs:106-136 authenticate *)
definition authenticate ::
  "crypto_lib \<Rightarrow> identity_keypair \<Rightarrow> bytes \<times> bytes \<Rightarrow> nat \<Rightarrow> nat \<Rightarrow> bytes \<Rightarrow> tcp_stream \<Rightarrow> relay_error + nat \<times> tcp_stream" where
  "authenticate L relay allowed deadline now nonce s =
     (case st_nodelay s of Some e \<Rightarrow> Inl (LE_Io e) | None \<Rightarrow>
      res_bind (deadline_left now deadline) (\<lambda>_.
      case relay_write (relay_challenge L relay nonce) s of
        (Inl e, _) \<Rightarrow> Inl e
      | (Inr _, s) \<Rightarrow>
          (case relay_receive deadline 96 s of
             (Inl e, _) \<Rightarrow> Inl e
           | (Inr response, s) \<Rightarrow>
               res_bind (check_answer L allowed (relay_challenge L relay nonce) response) (\<lambda>role. Inr (role, s)))))"

subsection \<open>A pair\<close>

text \<open>What \<open>accept\<close> returns: nothing yet, an error, or a stream, with the error of making it blocking if
  any, the clock when its authentication starts, the nonce drawn for it and the clock at its write
  timeout. A session of the listener comes with the clock at each look.\<close>

datatype accepted =
    AC_None
  | AC_Failed io_error
  | AC_Stream tcp_stream "io_error option" nat bytes nat

type_synonym seats = "tcp_stream option \<times> tcp_stream option"

definition seat :: "seats \<Rightarrow> nat \<Rightarrow> tcp_stream option" where
  "seat seats role = (if role = 0 then fst seats else snd seats)"

text \<open>A stream is seated if it is authenticated and its seat is free.\<close>

definition seated :: "seats \<Rightarrow> relay_error + nat \<times> tcp_stream \<Rightarrow> seats option" where
  "seated seats r =
     (case r of
        Inl _ \<Rightarrow> None
      | Inr (role, s) \<Rightarrow>
          if seat seats role \<noteq> None then None
          else Some (if role = 0 then (Some s, snd seats) else (fst seats, Some s)))"

text \<open>\<open>None\<close>: still waiting.\<close>

(* @src crates/sensor-relay/src/lib.rs:160-184 serve_pair, pairing *)
fun pair_loop ::
  "crypto_lib \<Rightarrow> identity_keypair \<Rightarrow> bytes \<times> bytes \<Rightarrow> nat \<Rightarrow> seats \<Rightarrow> nat \<Rightarrow> (nat \<times> accepted) list \<Rightarrow>
   (relay_error + tcp_stream \<times> tcp_stream) option" where
  "pair_loop L relay allowed deadline (Some l, Some r) rejected script = Some (Inr (l, r))"
| "pair_loop L relay allowed deadline seats rejected [] = None"
| "pair_loop L relay allowed deadline seats rejected ((now, ev) # script) =
     (case deadline_left now deadline of
        Inl e \<Rightarrow> Some (Inl e)
      | Inr _ \<Rightarrow> (case ev of
          AC_None \<Rightarrow> pair_loop L relay allowed deadline seats rejected script
        | AC_Failed e \<Rightarrow> Some (Inl (LE_Io e))
        | AC_Stream s blocking start nonce now2 \<Rightarrow>
            (case blocking of
               Some e \<Rightarrow> Some (Inl (LE_Io e))
             | None \<Rightarrow>
                 (case seated seats (authenticate L relay allowed (min (start + 5 * 1000000000) deadline) now2 nonce s) of
                    Some seats \<Rightarrow> pair_loop L relay allowed deadline seats rejected script
                  | None \<Rightarrow>
                      if rejected + 1 \<ge> 16 then Some (Inl LE_Unauthorized)
                      else pair_loop L relay allowed deadline seats (rejected + 1) script))))"

text \<open>\<open>io::copy\<close>: it reads at most 8 KiB, retries an interruption, ends with the source and fails with
  the first failed read or write. A source that stays silent runs into the idle timeout.\<close>

fun copy_loop ::
  "bytes \<Rightarrow> (nat \<times> io_event) list \<Rightarrow> tcp_stream \<Rightarrow> nat \<Rightarrow> (relay_error + nat) \<times> tcp_stream" where
  "copy_loop inp [] dst copied = (Inl (LE_Io IO_TimedOut), dst)"
| "copy_loop inp ((now, ev) # script) dst copied =
     (case ev of
        Moved k \<Rightarrow>
          (let count = min k (min 8192 (length inp))
           in if count = 0 then (Inr copied, dst)
              else (case relay_write (take count inp) dst of
                  (Inl e, dst) \<Rightarrow> (Inl e, dst)
                | (Inr _, dst) \<Rightarrow> copy_loop (drop count inp) script dst (copied + count)))
      | Interrupted \<Rightarrow> copy_loop inp script dst copied
      | Failed e \<Rightarrow> (Inl (LE_Io e), dst))"

(* @src crates/sensor-relay/src/lib.rs:138-142 RelayStats *)
record relay_stats =
  ls_left_to_right :: nat
  ls_right_to_left :: nat

text \<open>The outcome and what the two sockets hold at the end. The forward direction is the thread's; the
  shutdown of a direction that ended shows in the script of the other.\<close>

(* @src crates/sensor-relay/src/lib.rs:190-218 serve_pair, forwarding *)
definition forward_pair ::
  "io_error option \<Rightarrow> tcp_stream \<times> tcp_stream \<Rightarrow> (relay_error + relay_stats) \<times> tcp_stream \<times> tcp_stream" where
  "forward_pair cloned pair =
     (case pair of (left, right) \<Rightarrow>
      case cloned of Some e \<Rightarrow> (Inl (LE_Io e), left, right) | None \<Rightarrow>
      (case copy_loop (st_in left) (st_reads left) right 0 of (forward, right') \<Rightarrow>
      case copy_loop (st_in right) (st_reads right) left 0 of (backward, left') \<Rightarrow>
        (res_bind forward (\<lambda>f. res_bind backward (\<lambda>b. Inr \<lparr>ls_left_to_right = f, ls_right_to_left = b\<rparr>)),
         left', right')))"

text \<open>What one run takes from outside: the error of making the listener non-blocking, the clock at the
  start, the script of the listener, the error of duplicating the sockets.\<close>

record pair_io =
  pr_nonblocking :: "io_error option"
  pr_start :: nat
  pr_script :: "(nat \<times> accepted) list"
  pr_cloned :: "io_error option"

(* @src crates/sensor-relay/src/lib.rs:146-218 serve_pair *)
definition serve_pair ::
  "crypto_lib \<Rightarrow> identity_keypair \<Rightarrow> bytes \<times> bytes \<Rightarrow> nat \<Rightarrow> nat \<Rightarrow> pair_io \<Rightarrow>
   ((relay_error + relay_stats) \<times> (tcp_stream \<times> tcp_stream) option) option" where
  "serve_pair L relay allowed pairing_timeout idle_timeout io =
     (if fst allowed = snd allowed \<or> pairing_timeout = 0 \<or> idle_timeout = 0 then Some (Inl LE_Unauthorized, None)
      else case pr_nonblocking io of Some e \<Rightarrow> Some (Inl (LE_Io e), None) | None \<Rightarrow>
      (case pair_loop L relay allowed (pr_start io + pairing_timeout) (None, None) 0 (pr_script io) of
         None \<Rightarrow> None
       | Some (Inl e) \<Rightarrow> Some (Inl e, None)
       | Some (Inr (left, right)) \<Rightarrow>
           (case relay_write [1] left of
              (Inl e, left) \<Rightarrow> Some (Inl e, Some (left, right))
            | (Inr _, left) \<Rightarrow>
                (case relay_write [1] right of
                   (Inl e, right) \<Rightarrow> Some (Inl e, Some (left, right))
                 | (Inr _, right) \<Rightarrow>
                     (case forward_pair (pr_cloned io) (left, right) of (r, pair) \<Rightarrow> Some (r, Some pair))))))"

text \<open>Over the runs so far, each with the error of duplicating the listener; \<open>None\<close>: it goes on.\<close>

(* @src crates/sensor-relay/src/lib.rs:225-244 serve_forever *)
fun serve_forever ::
  "crypto_lib \<Rightarrow> identity_keypair \<Rightarrow> bytes \<times> bytes \<Rightarrow> nat \<Rightarrow> nat \<Rightarrow> (io_error option \<times> pair_io) list \<Rightarrow> relay_error option" where
  "serve_forever L relay allowed pairing_timeout idle_timeout [] = None"
| "serve_forever L relay allowed pairing_timeout idle_timeout ((cloned, io) # ios) =
     (case cloned of Some e \<Rightarrow> Some (LE_Io e) | None \<Rightarrow>
      (case serve_pair L relay allowed pairing_timeout idle_timeout io of
         None \<Rightarrow> None
       | Some (Inr _, _) \<Rightarrow> serve_forever L relay allowed pairing_timeout idle_timeout ios
       | Some (Inl e, _) \<Rightarrow>
           if e = LE_Timeout \<or> e = LE_Unauthorized
           then serve_forever L relay allowed pairing_timeout idle_timeout ios else Some e))"

subsection \<open>Reading and writing\<close>

lemma relay_receive_loop_Inr_iff:
  "relay_receive_loop dl n inp script = (Inr bs, rest) \<longleftrightarrow> read_loop dl n inp script = (Inr bs, rest)"
proof (induction dl n inp script arbitrary: bs rest rule: relay_receive_loop.induct)
  case (3 dl n inp now ev script)
  show ?case
  proof (cases ev)
    case (Moved k)
    define c where "c = min k (min (Suc n) (length inp))"
    show ?thesis
    proof (cases "c = 0 \<or> \<not> now < dl")
      case False
      then have i: "relay_receive_loop dl (Suc n - c) (drop c inp) script = (Inr bs', rest) \<longleftrightarrow>
          read_loop dl (Suc n - c) (drop c inp) script = (Inr bs', rest)" for bs'
        using "3.IH"(1) [OF _ Moved c_def] by (simp add: deadline_left_def)
      have "relay_receive_loop dl (Suc n) inp ((now, ev) # script) = (Inr bs, rest) \<longleftrightarrow>
          (\<exists>bs'. relay_receive_loop dl (Suc n - c) (drop c inp) script = (Inr bs', rest) \<and> bs = take c inp @ bs')"
        using False Moved by (auto simp: c_def [symmetric] Let_def deadline_left_def split: prod.split sum.split)
      moreover have "read_loop dl (Suc n) inp ((now, ev) # script) = (Inr bs, rest) \<longleftrightarrow>
          (\<exists>bs'. read_loop dl (Suc n - c) (drop c inp) script = (Inr bs', rest) \<and> bs = take c inp @ bs')"
        using False Moved by (auto simp: c_def [symmetric] Let_def io_remaining_def split: prod.split sum.split)
      ultimately show ?thesis
        using i by simp
    qed (use Moved in \<open>auto simp: c_def [symmetric] Let_def io_remaining_def deadline_left_def\<close>)
  qed (use 3 in \<open>auto simp: io_remaining_def deadline_left_def\<close>)
qed auto

lemma relay_receive_Inr:
  "relay_receive dl n s = (Inr bs, s') \<Longrightarrow>
     length bs = n \<and> st_in s = bs @ st_in s' \<and> st_out s' = st_out s \<and> st_writes s' = st_writes s"
  using read_loop_Inr by (auto simp: relay_receive_def relay_receive_loop_Inr_iff split: prod.splits)

lemma relay_receive_lively:
  assumes "lively dl m (st_reads s)" and "length bs \<le> m" and "st_in s = bs @ rest"
  shows "\<exists>script. relay_receive dl (length bs) s = (Inr bs, s\<lparr>st_in := rest, st_reads := script\<rparr>) \<and>
    lively dl (m - length bs) script"
proof -
  obtain script where "read_loop dl (length bs) (st_in s) (st_reads s) = (Inr bs, rest, script)"
    "lively dl (m - length bs) script"
    using read_loop_lively [OF assms(1,2), of "st_in s"] assms(3) by auto
  moreover from this have "relay_receive_loop dl (length bs) (st_in s) (st_reads s) = (Inr bs, rest, script)"
    by (simp only: relay_receive_loop_Inr_iff)
  ultimately show ?thesis
    by (intro exI [of _ script]) (simp add: relay_receive_def)
qed

lemma relay_write_out:
  "relay_write bs s = (r, s') \<Longrightarrow> st_in s' = st_in s \<and> st_reads s' = st_reads s \<and> st_nodelay s' = st_nodelay s \<and>
     (\<exists>k. st_out s' = st_out s @ take k bs) \<and> (r = Inr () \<longrightarrow> st_out s' = st_out s @ bs)"
proof -
  assume a: "relay_write bs s = (r, s')"
  obtain r0 out script where w: "write_loop 1 bs (st_out s) (untimed (st_writes s)) = (r0, out, script)"
    using prod_cases3 by blast
  then show ?thesis
    using a write_loop_prefix [OF w] by (cases r0) (auto simp: relay_write_def)
qed

lemma relay_write_lively:
  assumes "lively 1 m (untimed (st_writes s))" and "length bs \<le> m"
  shows "\<exists>script. relay_write bs s = (Inr (), s\<lparr>st_out := st_out s @ bs, st_writes := script\<rparr>) \<and>
    lively 1 (m - length bs) script"
  using write_loop_lively [OF assms, of "st_out s"] by (auto simp: relay_write_def)

subsection \<open>Who can join\<close>

lemma check_answer_Inr_iff:
  "check_answer L allowed c response = Inr role \<longleftrightarrow> role_of allowed (take 32 response) = Some role \<and>
     identity_verify L (take 32 response) (response_bytes c (take 32 response)) (drop 32 response) = Inr ()"
  by (auto simp: check_answer_def res_simps)

lemma authenticate_Inr:
  assumes "authenticate L relay allowed dl now nonce s = Inr (role, s')"
  shows "\<exists>key sig. role_of allowed key = Some role \<and> st_in s = key @ sig @ st_in s' \<and> length key = 32 \<and>
    identity_verify L key (response_bytes (relay_challenge L relay nonce) key) sig = Inr () \<and>
    st_out s' = st_out s @ relay_challenge L relay nonce"
proof -
  obtain s1 where w: "relay_write (relay_challenge L relay nonce) s = (Inr (), s1)"
    and a: "(case relay_receive dl 96 s1 of (Inl e, _) \<Rightarrow> Inl e
      | (Inr response, s) \<Rightarrow> res_bind (check_answer L allowed (relay_challenge L relay nonce) response) (\<lambda>role. Inr (role, s))) =
      Inr (role, s')"
    using assms by (auto simp: authenticate_def res_simps split: option.splits prod.splits sum.splits)
  obtain response where r: "relay_receive dl 96 s1 = (Inr response, s')"
    and c: "check_answer L allowed (relay_challenge L relay nonce) response = Inr role"
    using a by (auto simp: res_simps split: prod.splits sum.splits)
  have "st_in s = response @ st_in s'" "length response = 96" "st_out s' = st_out s @ relay_challenge L relay nonce"
    using relay_write_out [OF w] relay_receive_Inr [OF r] by simp_all
  then have "st_in s = take 32 response @ drop 32 response @ st_in s'" "length (take 32 response) = 32"
    "st_out s' = st_out s @ relay_challenge L relay nonce"
    by (simp_all flip: append_assoc)
  then show ?thesis
    using c unfolding check_answer_Inr_iff by blast
qed

text \<open>A stream in a seat came from the listener and was authenticated for it.\<close>

definition admitted ::
  "crypto_lib \<Rightarrow> identity_keypair \<Rightarrow> bytes \<times> bytes \<Rightarrow> (nat \<times> accepted) list \<Rightarrow> nat \<Rightarrow> tcp_stream \<Rightarrow> bool" where
  "admitted L relay allowed script role s \<longleftrightarrow>
     (\<exists>now s0 start nonce now2 dl. (now, AC_Stream s0 None start nonce now2) \<in> set script \<and>
        authenticate L relay allowed dl now2 nonce s0 = Inr (role, s))"

lemma authenticate_role: "authenticate L relay allowed dl now nonce s = Inr (role, s') \<Longrightarrow> role = 0 \<or> role = 1"
  using authenticate_Inr by (fastforce simp: role_of_def split: if_splits)

lemma seated_Some:
  assumes "seated seats (authenticate L relay allowed dl now2 nonce s) = Some seats'"
    and "(now, AC_Stream s None start nonce now2) \<in> set script"
  shows "(fst seats' = fst seats \<or> (\<exists>l. fst seats' = Some l \<and> admitted L relay allowed script 0 l)) \<and>
    (snd seats' = snd seats \<or> (\<exists>r. snd seats' = Some r \<and> admitted L relay allowed script 1 r))"
proof -
  obtain role s' where a: "authenticate L relay allowed dl now2 nonce s = Inr (role, s')"
    and s: "seats' = (if role = 0 then (Some s', snd seats) else (fst seats, Some s'))"
    using assms(1) by (auto simp: seated_def split: sum.splits if_splits)
  have "admitted L relay allowed script role s'"
    using a assms(2) unfolding admitted_def by blast
  then show ?thesis
    using s authenticate_role [OF a] by auto
qed

lemma pair_loop_admits:
  assumes "pair_loop L relay allowed dl seats rejected script = Some (Inr (l, r))" and "set script \<subseteq> set script0"
    and "pred_option (admitted L relay allowed script0 0) (fst seats)"
    and "pred_option (admitted L relay allowed script0 1) (snd seats)"
  shows "admitted L relay allowed script0 0 l \<and> admitted L relay allowed script0 1 r"
  using assms
proof (induction script arbitrary: seats rejected)
  case Nil
  then show ?case
    by (cases seats; cases "fst seats"; cases "snd seats") auto
next
  case (Cons e script)
  obtain now ev where e: "e = (now, ev)"
    by fastforce
  show ?case
  proof (cases "fst seats \<noteq> None \<and> snd seats \<noteq> None")
    case True
    then show ?thesis
      using Cons.prems by (cases seats) auto
  next
    case False
    then have step: "pair_loop L relay allowed dl seats rejected (e # script) =
     (case deadline_left now dl of
        Inl e \<Rightarrow> Some (Inl e)
      | Inr _ \<Rightarrow> (case ev of
          AC_None \<Rightarrow> pair_loop L relay allowed dl seats rejected script
        | AC_Failed e \<Rightarrow> Some (Inl (LE_Io e))
        | AC_Stream s blocking start nonce now2 \<Rightarrow>
            (case blocking of
               Some e \<Rightarrow> Some (Inl (LE_Io e))
             | None \<Rightarrow>
                 (case seated seats (authenticate L relay allowed (min (start + 5 * 1000000000) dl) now2 nonce s) of
                    Some seats \<Rightarrow> pair_loop L relay allowed dl seats rejected script
                  | None \<Rightarrow>
                      if rejected + 1 \<ge> 16 then Some (Inl LE_Unauthorized)
                      else pair_loop L relay allowed dl seats (rejected + 1) script))))"
      unfolding e by (cases seats; cases "fst seats"; cases "snd seats") auto
    note run = Cons.prems(1) [unfolded step]
    have sub: "set script \<subseteq> set script0"
      using Cons.prems(2) by simp
    show ?thesis
    proof (cases ev)
      case AC_None
      then show ?thesis
        using run Cons.IH [OF _ sub Cons.prems(3,4)] by (auto split: sum.splits)
    next
      case (AC_Failed e)
      then show ?thesis
        using run by (auto split: sum.splits)
    next
      case (AC_Stream s blocking start nonce now2)
      let ?r = "seated seats (authenticate L relay allowed (min (start + 5 * 1000000000) dl) now2 nonce s)"
      have b: "blocking = None"
        using run AC_Stream by (cases blocking) (auto split: sum.splits)
      show ?thesis
      proof (cases ?r)
        case None
        then show ?thesis
          using run AC_Stream b Cons.IH [OF _ sub Cons.prems(3,4)] by (auto split: sum.splits if_splits)
      next
        case (Some seats')
        have "(now, AC_Stream s None start nonce now2) \<in> set script0"
          using Cons.prems(2) e AC_Stream b by simp
        from seated_Some [OF Some this] Cons.prems(3,4)
        have "pred_option (admitted L relay allowed script0 0) (fst seats')"
          "pred_option (admitted L relay allowed script0 1) (snd seats')"
          by auto
        then show ?thesis
          using run AC_Stream b Some Cons.IH [OF _ sub] by (auto split: sum.splits)
      qed
    qed
  qed
qed

subsection \<open>What the two endpoints get\<close>

lemma copy_loop_prefix:
  "copy_loop inp script dst n = (r, dst') \<Longrightarrow>
     \<exists>k. st_out dst' = st_out dst @ take k inp \<and> (\<forall>m. r = Inr m \<longrightarrow> m = n + k \<and> k \<le> length inp)"
proof (induction inp script dst n rule: copy_loop.induct)
  case (2 inp now ev script dst n)
  show ?case
  proof (cases ev)
    case (Moved k)
    define c where "c = min k (min 8192 (length inp))"
    obtain rw d where w: "relay_write (take c inp) dst = (rw, d)"
      by fastforce
    show ?thesis
    proof (cases "c = 0")
      case True
      then show ?thesis
        using "2.prems" Moved by (auto simp: c_def [symmetric] Let_def intro!: exI [of _ 0])
    next
      case False
      show ?thesis
      proof (cases rw)
        case (Inl e)
        then have "r = Inl e" "dst' = d"
          using "2.prems" Moved False w by (auto simp: c_def [symmetric] Let_def)
        moreover obtain j where "st_out d = st_out dst @ take j (take c inp)"
          using relay_write_out [OF w] by blast
        ultimately show ?thesis
          by (auto simp: take_take)
      next
        case (Inr u)
        then have c: "copy_loop (drop c inp) script d (n + c) = (r, dst')"
          using "2.prems" Moved False w by (auto simp: c_def [symmetric] Let_def)
        from "2.IH"(1) [OF Moved c_def False w [symmetric] Inr c] obtain j where
          j: "st_out dst' = st_out d @ take j (drop c inp)"
            "\<forall>m. r = Inr m \<longrightarrow> m = n + c + j \<and> j \<le> length (drop c inp)"
          by blast
        have "st_out dst' = st_out dst @ take (c + j) inp"
          using relay_write_out [OF w] Inr j(1) by (simp add: take_add)
        moreover have "\<forall>m. r = Inr m \<longrightarrow> m = n + (c + j) \<and> c + j \<le> length inp"
        proof (intro allI impI)
          fix m
          assume "r = Inr m"
          then have "m = n + c + j" "j \<le> length (drop c inp)"
            using j(2) by blast+
          moreover have "c \<le> length inp"
            by (simp add: c_def)
          ultimately show "m = n + (c + j) \<and> c + j \<le> length inp"
            by simp
        qed
        ultimately show ?thesis
          by blast
      qed
    qed
  qed (use 2 in \<open>auto intro: exI [of _ 0]\<close>)
qed (auto intro: exI [of _ 0])

lemma serve_pair_Inr:
  assumes "serve_pair L relay (a, b) pairing_timeout idle_timeout io = Some (Inr stats, Some (l', r'))"
  obtains l r l1 r1 where "a \<noteq> b"
    and "pair_loop L relay (a, b) (pr_start io + pairing_timeout) (None, None) 0 (pr_script io) = Some (Inr (l, r))"
    and "relay_write [1] l = (Inr (), l1)" and "relay_write [1] r = (Inr (), r1)"
    and "forward_pair (pr_cloned io) (l1, r1) = (Inr stats, l', r')"
proof -
  note run = assms [unfolded serve_pair_def prod.sel]
  have ab: "a \<noteq> b" and io: "pr_nonblocking io = None"
    and g: "\<not> (a = b \<or> pairing_timeout = 0 \<or> idle_timeout = 0)"
    using run by (simp_all split: if_splits option.splits)
  note run = run [unfolded if_not_P [OF g] io option.case]
  obtain l r where p: "pair_loop L relay (a, b) (pr_start io + pairing_timeout) (None, None) 0 (pr_script io) = Some (Inr (l, r))"
    using run by (cases "pair_loop L relay (a, b) (pr_start io + pairing_timeout) (None, None) 0 (pr_script io)")
      (simp_all split: sum.splits prod.splits)
  obtain q1 l1 where l: "relay_write [1] l = (q1, l1)"
    by fastforce
  obtain q2 r1 where r: "relay_write [1] r = (q2, r1)"
    by fastforce
  have q: "q1 = Inr ()" "q2 = Inr ()"
    using run p l r by (cases q1; cases q2; simp)+
  then have "forward_pair (pr_cloned io) (l1, r1) = (Inr stats, l', r')"
    using run p l r by (simp split: prod.splits)
  then show ?thesis
    using that ab p l r q by blast
qed

text \<open>C29: The relay joins the two provisioned endpoints and nothing else. When a pair was served, each of the
  two sockets came from the listener and began with the key of its endpoint and a signature under that
  key on the challenge that this socket was sent, with its own nonce; the two keys differ; and each
  endpoint was sent exactly its challenge, one ready byte and then, unchanged and in order, the first
  bytes of what the other one sent after joining, as many as the statistics say.\<close>

theorem relay_pair_isolated:
  assumes "serve_pair L relay (a, b) pairing_timeout idle_timeout io = Some (Inr stats, Some (l', r'))"
  shows "a \<noteq> b \<and> (\<exists>sl sr na nb siga sigb ta tb.
    (\<exists>t. AC_Stream sl None (fst t) na (snd t) \<in> snd ` set (pr_script io)) \<and>
    (\<exists>t. AC_Stream sr None (fst t) nb (snd t) \<in> snd ` set (pr_script io)) \<and>
    st_in sl = a @ siga @ ta \<and> identity_verify L a (response_bytes (relay_challenge L relay na) a) siga = Inr () \<and>
    st_in sr = b @ sigb @ tb \<and> identity_verify L b (response_bytes (relay_challenge L relay nb) b) sigb = Inr () \<and>
    st_out r' = st_out sr @ relay_challenge L relay nb @ [1] @ take (ls_left_to_right stats) ta \<and>
    ls_left_to_right stats \<le> length ta \<and>
    st_out l' = st_out sl @ relay_challenge L relay na @ [1] @ take (ls_right_to_left stats) tb \<and>
    ls_right_to_left stats \<le> length tb)"
proof -
  let ?dl = "pr_start io + pairing_timeout"
  obtain l r l1 r1 where ab: "a \<noteq> b"
    and p: "pair_loop L relay (a, b) ?dl (None, None) 0 (pr_script io) = Some (Inr (l, r))"
    and wl: "relay_write [1] l = (Inr (), l1)" and wr: "relay_write [1] r = (Inr (), r1)"
    and f: "forward_pair (pr_cloned io) (l1, r1) = (Inr stats, l', r')"
    using serve_pair_Inr [OF assms] .
  obtain kl kr where c: "copy_loop (st_in l1) (st_reads l1) r1 0 = (Inr kl, r')"
    "copy_loop (st_in r1) (st_reads r1) l1 0 = (Inr kr, l')" "stats = \<lparr>ls_left_to_right = kl, ls_right_to_left = kr\<rparr>"
    using f by (auto simp: forward_pair_def res_simps split: option.splits prod.splits)
  have "admitted L relay (a, b) (pr_script io) 0 l" "admitted L relay (a, b) (pr_script io) 1 r"
    using pair_loop_admits [OF p subset_refl] by auto
  then obtain t1 sl u1 na v1 d1 t2 sr u2 nb v2 d2 where
    e: "(t1, AC_Stream sl None u1 na v1) \<in> set (pr_script io)" "(t2, AC_Stream sr None u2 nb v2) \<in> set (pr_script io)"
    and auth: "authenticate L relay (a, b) d1 v1 na sl = Inr (0, l)" "authenticate L relay (a, b) d2 v2 nb sr = Inr (1, r)"
    unfolding admitted_def by blast
  obtain siga where l: "st_in sl = a @ siga @ st_in l" "st_out l = st_out sl @ relay_challenge L relay na"
    "identity_verify L a (response_bytes (relay_challenge L relay na) a) siga = Inr ()"
    using authenticate_Inr [OF auth(1)] by (auto simp: role_of_def split: if_splits)
  obtain sigb where r: "st_in sr = b @ sigb @ st_in r" "st_out r = st_out sr @ relay_challenge L relay nb"
    "identity_verify L b (response_bytes (relay_challenge L relay nb) b) sigb = Inr ()"
    using authenticate_Inr [OF auth(2)] by (auto simp: role_of_def split: if_splits)
  have o: "st_out r' = st_out r @ [1] @ take kl (st_in l)" "kl \<le> length (st_in l)"
    "st_out l' = st_out l @ [1] @ take kr (st_in r)" "kr \<le> length (st_in r)"
    using copy_loop_prefix [OF c(1)] copy_loop_prefix [OF c(2)] relay_write_out [OF wl] relay_write_out [OF wr] by auto
  have s: "AC_Stream sl None (fst (u1, v1)) na (snd (u1, v1)) \<in> snd ` set (pr_script io)"
    "AC_Stream sr None (fst (u2, v2)) nb (snd (u2, v2)) \<in> snd ` set (pr_script io)"
    using e by force+
  have "st_out r' = st_out sr @ relay_challenge L relay nb @ [1] @ take (ls_left_to_right stats) (st_in l)"
    "st_out l' = st_out sl @ relay_challenge L relay na @ [1] @ take (ls_right_to_left stats) (st_in r)"
    "ls_left_to_right stats \<le> length (st_in l)" "ls_right_to_left stats \<le> length (st_in r)"
    using o l r c(3) by simp_all
  then show ?thesis
    using ab s l(1,3) r(1,3) by blast
qed

subsection \<open>Honest endpoints are let in\<close>

lemma relay_challenge_parts:
  assumes "length nonce = 32" and "length (kp_public L relay) = 32" and "sign_laws L"
  shows "take 4 (relay_challenge L relay nonce) = RELAY_MAGIC" "take 32 (drop 4 (relay_challenge L relay nonce)) = nonce"
    "take 32 (drop 36 (relay_challenge L relay nonce)) = kp_public L relay"
    "drop 68 (relay_challenge L relay nonce) = kp_sign L relay (challenge_bytes nonce)"
    "length (relay_challenge L relay nonce) = 132"
  using assms by (simp_all add: relay_challenge_def RELAY_MAGIC_def ascii_bytes_def kp_sign_def sign_lawsD)

definition answer_of :: "crypto_lib \<Rightarrow> identity_keypair \<Rightarrow> bytes \<Rightarrow> bytes" where
  "answer_of L k c = kp_public L k @ kp_sign L k (response_bytes c (kp_public L k))"

lemma join_answer_relay:
  assumes "length nonce = 32" and "length (kp_public L relay) = 32" and "sign_laws L"
  shows "join_answer L k (kp_public L relay) (relay_challenge L relay nonce) = Inr (answer_of L k (relay_challenge L relay nonce))"
  by (simp add: join_answer_def relay_challenge_parts [OF assms] identity_verify_own assms answer_of_def)

lemma check_answer_join:
  assumes "sign_laws L" and "length (kp_public L k) = 32" and "role_of allowed (kp_public L k) = Some role"
  shows "check_answer L allowed c (answer_of L k c) = Inr role"
  using assms by (simp add: check_answer_Inr_iff answer_of_def identity_verify_own)

lemma length_answer_of: "sign_laws L \<Longrightarrow> length (kp_public L k) = 32 \<Longrightarrow> length (answer_of L k c) = 96"
  by (simp add: answer_of_def kp_sign_def sign_lawsD)

lemma authenticate_ok:
  assumes "sign_laws L" and "length nonce = 32" and "length (kp_public L relay) = 32" and "length (kp_public L k) = 32"
    and "role_of allowed (kp_public L k) = Some role" and "st_nodelay s = None" and "now < dl"
    and "lively 1 132 (untimed (st_writes s))" and "lively dl 96 (st_reads s)"
    and "st_in s = answer_of L k (relay_challenge L relay nonce) @ rest"
  shows "\<exists>reads writes. authenticate L relay allowed dl now nonce s = Inr (role,
    s\<lparr>st_in := rest, st_reads := reads, st_out := st_out s @ relay_challenge L relay nonce, st_writes := writes\<rparr>)"
proof -
  let ?c = "relay_challenge L relay nonce"
  obtain writes where w: "relay_write ?c s = (Inr (), s\<lparr>st_out := st_out s @ ?c, st_writes := writes\<rparr>)"
    using relay_write_lively [OF assms(8), of ?c] relay_challenge_parts(5) [OF assms(2,3,1)] by auto
  obtain reads where r: "relay_receive dl 96 (s\<lparr>st_out := st_out s @ ?c, st_writes := writes\<rparr>) = (Inr (answer_of L k ?c),
      s\<lparr>st_out := st_out s @ ?c, st_writes := writes, st_in := rest, st_reads := reads\<rparr>)"
    using relay_receive_lively [of dl 96 "s\<lparr>st_out := st_out s @ ?c, st_writes := writes\<rparr>" "answer_of L k ?c" rest]
      assms(9,10) length_answer_of [OF assms(1,4)] by auto
  have "authenticate L relay allowed dl now nonce s = Inr (role,
      s\<lparr>st_out := st_out s @ ?c, st_writes := writes, st_in := rest, st_reads := reads\<rparr>)"
    using assms(6,7) w r check_answer_join [OF assms(1,4,5)] by (simp add: authenticate_def deadline_left_def)
  then show ?thesis
    by (intro exI [of _ reads] exI [of _ writes]) simp
qed

lemma relay_join_ok:
  assumes "sign_laws L" and "length nonce = 32" and "length (kp_public L relay) = 32" and "length (kp_public L k) = 32"
    and "st_nodelay s = None" and "t1 < start + timeout" and "t2 < start + timeout"
    and "lively (start + timeout) 133 (st_reads s)" and "lively 1 96 (untimed (st_writes s))"
    and "st_in s = relay_challenge L relay nonce @ [1] @ rest"
  shows "\<exists>reads writes. relay_join L k (kp_public L relay) timeout (start, t1, t2) (Inr s) = Inr
    (s\<lparr>st_in := rest, st_reads := reads, st_out := st_out s @ answer_of L k (relay_challenge L relay nonce), st_writes := writes\<rparr>)"
proof -
  let ?c = "relay_challenge L relay nonce"
  let ?a = "answer_of L k ?c"
  have lc: "length ?c = 132"
    using relay_challenge_parts(5) [OF assms(2,3,1)] .
  obtain reads where r: "relay_receive (start + timeout) 132 s = (Inr ?c, s\<lparr>st_in := [1] @ rest, st_reads := reads\<rparr>)"
    "lively (start + timeout) 1 reads"
    using relay_receive_lively [OF assms(8), of ?c "[1] @ rest"] assms(10) lc by auto
  let ?s1 = "s\<lparr>st_in := [1] @ rest, st_reads := reads\<rparr>"
  obtain writes where w: "relay_write ?a ?s1 = (Inr (), ?s1\<lparr>st_out := st_out s @ ?a, st_writes := writes\<rparr>)"
    using relay_write_lively [of 96 ?s1 ?a] assms(9) length_answer_of [OF assms(1,4)] by auto
  let ?s2 = "?s1\<lparr>st_out := st_out s @ ?a, st_writes := writes\<rparr>"
  obtain reads' where r2: "relay_receive (start + timeout) 1 ?s2 = (Inr [1], ?s2\<lparr>st_in := rest, st_reads := reads'\<rparr>)"
    using relay_receive_lively [of "start + timeout" 1 ?s2 "[1]" rest] r(2) by auto
  have "relay_join L k (kp_public L relay) timeout (start, t1, t2) (Inr s) = Inr (?s2\<lparr>st_in := rest, st_reads := reads'\<rparr>)"
    using assms(5,6,7) r(1) w r2 join_answer_relay [OF assms(2,3,1)]
    by (simp add: relay_join_def deadline_left_def)
  then show ?thesis
    by (intro exI [of _ reads'] exI [of _ writes]) simp
qed

text \<open>An honest endpoint and an honest relay agree. With keys of 32 bytes and signatures that verify,
  over sockets that move the bytes before the deadlines, in whatever pieces: an endpoint that receives a
  challenge of the relay whose key it was given answers it and, when the ready byte follows, has its
  socket with nothing lost of what comes after; and a relay that receives exactly this answer on the
  socket where it sent the challenge admits the endpoint, under the role of its key.\<close>

theorem relay_join_completes:
  assumes "sign_laws L" and "length nonce = 32" and "length (kp_public L relay) = 32" and "length (kp_public L k) = 32"
    and "role_of allowed (kp_public L k) = Some role"
    and "st_nodelay sj = None" and "t1 < start + timeout" and "t2 < start + timeout"
    and "lively (start + timeout) 133 (st_reads sj)" and "lively 1 96 (untimed (st_writes sj))"
    and "st_in sj = relay_challenge L relay nonce @ [1] @ after"
    and "st_nodelay sr = None" and "now < dl" and "lively 1 132 (untimed (st_writes sr))" and "lively dl 96 (st_reads sr)"
    and "st_in sr = answer_of L k (relay_challenge L relay nonce) @ rest"
  shows "(\<exists>sj'. relay_join L k (kp_public L relay) timeout (start, t1, t2) (Inr sj) = Inr sj' \<and>
      st_out sj' = st_out sj @ answer_of L k (relay_challenge L relay nonce) \<and> st_in sj' = after) \<and>
    (\<exists>sr'. authenticate L relay allowed dl now nonce sr = Inr (role, sr') \<and>
      st_out sr' = st_out sr @ relay_challenge L relay nonce \<and> st_in sr' = rest)"
  using relay_join_ok [OF assms(1-4,6-11)] authenticate_ok [OF assms(1-5,12-16)] by force

text \<open>The assumption on a signature that was received: if it verifies, the endpoint made it, in answer to a
  challenge that it checked, or for another purpose than joining a relay. Then the endpoint answered
  the challenge of this relay, with this nonce.\<close>

definition join_genuine :: "crypto_lib \<Rightarrow> identity_keypair \<Rightarrow> bytes \<Rightarrow> bytes \<Rightarrow> bytes \<Rightarrow> bool" where
  "join_genuine L k relay_key m sig \<longleftrightarrow>
     (ed_verify_strict L (kp_public L k) m sig \<longrightarrow>
       (\<exists>c r. join_answer L k relay_key c = Inr r \<and> m = response_bytes c (kp_public L k)) \<or>
       (\<forall>x. m \<noteq> RESPONSE_DOMAIN @ x))"

lemma authenticated_endpoint_joined:
  assumes "authenticate L relay allowed dl now nonce s = Inr (role, s')" and "role_of allowed (kp_public L k) = Some role"
    and "fst allowed \<noteq> snd allowed"
    and "\<And>sig. join_genuine L k (kp_public L relay) (response_bytes (relay_challenge L relay nonce) (kp_public L k)) sig"
  shows "\<exists>r. join_answer L k (kp_public L relay) (relay_challenge L relay nonce) = Inr r"
proof -
  obtain key sig where a: "role_of allowed key = Some role"
    "identity_verify L key (response_bytes (relay_challenge L relay nonce) key) sig = Inr ()"
    using authenticate_Inr [OF assms(1)] by blast
  have k: "key = kp_public L k"
    using a(1) assms(2,3) by (auto simp: role_of_def split: if_splits)
  then have "ed_verify_strict L (kp_public L k) (response_bytes (relay_challenge L relay nonce) (kp_public L k)) sig"
    using a(2) by (simp add: identity_verify_def ensure_def split: if_splits)
  then show ?thesis
    using assms(4) [of sig] by (auto simp: join_genuine_def response_bytes_def)
qed

subsection \<open>What ends a relay\<close>

text \<open>
  A failed or late attempt does not end a relay, but a pair does in which one side stays silent for the
  idle timeout: the copy fails with the timeout of the socket, which is an I/O error and not
  \<open>RelayError::Timeout\<close>, so \<open>serve_forever\<close> returns, whatever would have come next.
\<close>

lemma silent_pair_fails:
  assumes "fst allowed \<noteq> snd allowed" and "0 < pairing_timeout" and "0 < idle_timeout" and "pr_nonblocking io = None"
    and "pair_loop L relay allowed (pr_start io + pairing_timeout) (None, None) 0 (pr_script io) = Some (Inr (left, right))"
    and "relay_write [1] left = (Inr (), left')" and "relay_write [1] right = (Inr (), right')" and "pr_cloned io = None"
    and "st_reads left = []"
  shows "\<exists>pair. serve_pair L relay allowed pairing_timeout idle_timeout io = Some (Inl (LE_Io IO_TimedOut), pair)"
  using assms relay_write_out [OF assms(6)]
  by (auto simp: serve_pair_def forward_pair_def split: prod.split)

lemma silent_pair_ends_relay:
  assumes "fst allowed \<noteq> snd allowed" and "0 < pairing_timeout" and "0 < idle_timeout" and "pr_nonblocking io = None"
    and "pair_loop L relay allowed (pr_start io + pairing_timeout) (None, None) 0 (pr_script io) = Some (Inr (left, right))"
    and "relay_write [1] left = (Inr (), left')" and "relay_write [1] right = (Inr (), right')" and "pr_cloned io = None"
    and "st_reads left = []"
  shows "serve_forever L relay allowed pairing_timeout idle_timeout ((None, io) # later) = Some (LE_Io IO_TimedOut)"
  using silent_pair_fails [OF assms] by auto

text \<open>A relay goes on after every attempt to join that is late or refused, and after every pair that ends
  well.\<close>

lemma relay_keeps_serving:
  "serve_forever L relay allowed pairing_timeout idle_timeout ios = Some e \<Longrightarrow>
    (\<exists>x io. (Some x, io) \<in> set ios \<and> e = LE_Io x) \<or>
    (\<exists>io pair. (None, io) \<in> set ios \<and> serve_pair L relay allowed pairing_timeout idle_timeout io = Some (Inl e, pair) \<and>
      e \<noteq> LE_Timeout \<and> e \<noteq> LE_Unauthorized)"
proof (induction ios)
  case (Cons c ios)
  obtain cl io where c: "c = (cl, io)"
    by fastforce
  show ?case
  proof (cases "cl \<noteq> None \<or> serve_forever L relay allowed pairing_timeout idle_timeout (c # ios) \<noteq>
      serve_forever L relay allowed pairing_timeout idle_timeout ios")
    case True
    then show ?thesis
      using Cons.prems c by (auto split: option.splits prod.splits sum.splits if_splits) (blast+)?
  next
    case False
    then have "serve_forever L relay allowed pairing_timeout idle_timeout ios = Some e"
      using Cons.prems by simp
    from Cons.IH [OF this] show ?thesis
      by auto
  qed
qed simp

subsection \<open>The program\<close>

datatype relay_main_error =
    MX_Text string
  | MX_Hex nat
  | MX_Address
  | MX_Number
  | MX_Io io_error

(* @src crates/sensor-relay/src/main.rs:22-33 parse_hex *)
definition relay_parse_hex :: "nat \<Rightarrow> rstr \<Rightarrow> relay_main_error + bytes" where
  "relay_parse_hex n value =
     (let value = str_trim value in
      if str_len value \<noteq> n * 2 \<or> \<not> is_ascii value then Inl (MX_Hex (n * 2))
      else ok_or (hex_pairs value) (MX_Text ''invalid hexadecimal value''))"

definition parse_u64 :: "rstr \<Rightarrow> nat option" where
  "parse_u64 s = from_radix dec_val 10 (2 ^ 64) s"

definition seconds_arg :: "rstr list \<Rightarrow> nat \<Rightarrow> nat \<Rightarrow> relay_main_error + nat" where
  "seconds_arg args i usual =
     (if i < length args then map_sum id (clamp_nat 5 3600) (ok_or (parse_u64 (args ! i)) MX_Number)
      else Inr (clamp_nat 5 3600 usual))"

datatype 'a relay_command =
    RC_Usage
  | RC_Version
  | RC_Identity rstr
  | RC_Serve rstr 'a bytes bytes nat nat

text \<open>The command line, with the parser of socket addresses. What it asks for, or an error.\<close>

(* @src crates/sensor-relay/src/main.rs:72-113 run, the arguments *)
definition relay_command :: "(rstr \<Rightarrow> 'a option) \<Rightarrow> rstr list \<Rightarrow> relay_main_error + 'a relay_command" where
  "relay_command parse_addr args =
     (if args = [] \<or> hd args = lit ''help'' \<or> hd args = lit ''--help'' then Inr RC_Usage
      else if hd args = lit ''--version'' \<and> length args = 1 then Inr RC_Version
      else if hd args = lit ''identity'' \<and> length args = 2 then Inr (RC_Identity (args ! 1))
      else if hd args = lit ''serve'' \<and> 5 \<le> length args \<and> length args \<le> 7
      then res_bind (ok_or (parse_addr (args ! 2)) MX_Address) (\<lambda>bind.
           res_bind (relay_parse_hex 32 (args ! 3)) (\<lambda>left.
           res_bind (relay_parse_hex 32 (args ! 4)) (\<lambda>right.
           if left = right then Inl (MX_Text ''the two provisioned endpoint keys must differ'')
           else res_bind (seconds_arg args 5 120) (\<lambda>pairing.
                res_bind (seconds_arg args 6 300) (\<lambda>idle.
                Inr (RC_Serve (args ! 1) bind left right pairing idle))))))
      else Inl (MX_Text ''unknown command or invalid arguments''))"

text \<open>What the system answers while the seed is loaded or made: errors of creating the directory, of reading,
  of creating the file, of writing (after some bytes) and of syncing; the random bytes.\<close>

record seed_io =
  si_dir :: "io_error option"
  si_read :: "io_error option"
  si_random :: bytes
  si_open :: "io_error option"
  si_write :: "(nat \<times> io_error) option"
  si_sync :: "io_error option"

(* @src crates/sensor-relay/src/main.rs:39-60 load_or_create *)
definition relay_identity :: "seed_io \<Rightarrow> bytes option \<Rightarrow> (relay_main_error + identity_keypair) \<times> bytes option" where
  "relay_identity io stored =
     (case si_dir io of Some e \<Rightarrow> (Inl (MX_Io e), stored) | None \<Rightarrow>
     (case si_read io of Some e \<Rightarrow> (Inl (MX_Io e), stored) | None \<Rightarrow>
     (case stored of
        Some bytes \<Rightarrow>
          (if length bytes = 32 then (Inr (IdentityKeypair bytes), stored)
           else (Inl (MX_Text ''relay-seed.bin must contain exactly 32 bytes''), stored))
      | None \<Rightarrow>
          (case si_open io of Some e \<Rightarrow> (Inl (MX_Io e), stored) | None \<Rightarrow>
          (case si_write io of Some (k, e) \<Rightarrow> (Inl (MX_Io e), Some (take k (si_random io))) | None \<Rightarrow>
          (case si_sync io of Some e \<Rightarrow> (Inl (MX_Io e), Some (si_random io)) | None \<Rightarrow>
             (Inr (IdentityKeypair (si_random io)), Some (si_random io))))))))"

text \<open>What a relay serves: two different keys and timeouts of 5 seconds to an hour, so that no run of it is
  refused for its arguments.\<close>

lemma relay_parse_hex_length:
  assumes "relay_parse_hex 32 s = Inr key"
  shows "length key = 32"
proof -
  have "is_ascii (str_trim s)" "str_len (str_trim s) = 64" "hex_pairs (str_trim s) = Some key"
    using assms by (auto simp: relay_parse_hex_def Let_def ok_or_Inr_iff split: if_splits)
  then show ?thesis
    using hex_pairs_length str_len_ascii by fastforce
qed

lemma relay_command_serve:
  assumes "relay_command parse_addr args = Inr (RC_Serve config bind left right pairing idle)"
  shows "left \<noteq> right \<and> length left = 32 \<and> length right = 32 \<and> 5 \<le> pairing \<and> pairing \<le> 3600 \<and> 5 \<le> idle \<and> idle \<le> 3600"
proof -
  have s: "5 \<le> n \<and> n \<le> 3600" if "seconds_arg args i d = Inr n" for i d n
    using that by (auto simp: seconds_arg_def clamp_nat_def map_sum_def ok_or_def split: if_splits option.splits)
  have "relay_parse_hex 32 (args ! 3) = Inr left" "relay_parse_hex 32 (args ! 4) = Inr right" "left \<noteq> right"
    "seconds_arg args 5 120 = Inr pairing" "seconds_arg args 6 300 = Inr idle"
    using assms by (auto simp: relay_command_def res_simps split: if_splits)
  then show ?thesis
    using relay_parse_hex_length s by blast
qed

text \<open>A relay keeps its identity: a key that was once returned is the one that every later start returns, and
  a seed that exists is never replaced.\<close>

lemma relay_identity_stable:
  assumes "relay_identity io stored = (Inr k, stored')" and "length (si_random io) = 32"
  shows "stored' = Some (kp_seed k) \<and> (stored \<noteq> None \<longrightarrow> stored' = stored) \<and>
    (relay_identity io' stored' = (Inr k, stored') \<or> (\<exists>e. relay_identity io' stored' = (Inl (MX_Io e), stored')))"
  using assms by (auto simp: relay_identity_def split: option.splits if_splits prod.splits)

subsection \<open>A concrete pair\<close>

lemma relay_join_completes_witness:
  "\<exists>sj'. relay_join demo_lib (demo_kp 1) (kp_public demo_lib (demo_kp 3)) 10 (0, 1, 1)
     (Inr (demo_stream\<lparr>st_in := relay_challenge demo_lib (demo_kp 3) (demo_key 5) @ [1] @ [7],
        st_reads := replicate 140 (1, Moved 200), st_writes := replicate 140 (1, Moved 200)\<rparr>)) = Inr sj' \<and> st_in sj' = [7]"
  using relay_join_completes [of demo_lib "demo_key 5" "demo_kp 3" "demo_kp 1" "(demo_key 1, demo_key 2)" 0
      "demo_stream\<lparr>st_in := relay_challenge demo_lib (demo_kp 3) (demo_key 5) @ [1] @ [7],
        st_reads := replicate 140 (1, Moved 200), st_writes := replicate 140 (1, Moved 200)\<rparr>" 1 0 10 1 "[7]"
      "demo_stream\<lparr>st_in := answer_of demo_lib (demo_kp 1) (relay_challenge demo_lib (demo_kp 3) (demo_key 5)) @ [8],
        st_reads := replicate 140 (1, Moved 200), st_writes := replicate 140 (1, Moved 200)\<rparr>" 1 10 "[8]"]
  by (force simp: demo_sign_laws role_of_def demo_stream_def untimed_def lively_replicate demo_key_def)

lemma relay_write_big:
  assumes "bs \<noteq> []" and "length bs \<le> 200" and "st_writes s = (t, Moved 200) # script"
  shows "relay_write bs s = (Inr (), s\<lparr>st_out := st_out s @ bs, st_writes := untimed script\<rparr>)"
  using assms by (cases bs) (simp_all add: relay_write_def untimed_def io_remaining_def)

lemma relay_receive_big:
  assumes "bs \<noteq> []" and "length bs \<le> 200" and "st_in s = bs @ rest" and "now < dl" and "st_reads s = (now, Moved 200) # script"
    and "n = length bs"
  shows "relay_receive dl n s = (Inr bs, s\<lparr>st_in := rest, st_reads := script\<rparr>)"
  using assms by (cases bs) (simp_all add: relay_receive_def deadline_left_def min_def)

lemma authenticate_big:
  assumes "sign_laws L" and "length nonce = 32" and "length (kp_public L relay) = 32" and "length (kp_public L k) = 32"
    and "role_of allowed (kp_public L k) = Some role" and "st_nodelay s = None" and "now < dl"
    and "st_writes s = (t, Moved 200) # writes" and "st_reads s = (now, Moved 200) # reads"
    and "st_in s = answer_of L k (relay_challenge L relay nonce) @ rest"
  shows "authenticate L relay allowed dl now nonce s = Inr (role,
    s\<lparr>st_in := rest, st_reads := reads, st_out := st_out s @ relay_challenge L relay nonce, st_writes := untimed writes\<rparr>)"
proof -
  let ?c = "relay_challenge L relay nonce"
  let ?s = "s\<lparr>st_out := st_out s @ ?c, st_writes := untimed writes\<rparr>"
  have c: "length ?c = 132" and a: "length (answer_of L k ?c) = 96"
    using relay_challenge_parts(5) [OF assms(2,3,1)] length_answer_of [OF assms(1,4)] by auto
  then have w: "relay_write ?c s = (Inr (), ?s)"
    using assms(8) by (intro relay_write_big) auto
  have "relay_receive dl 96 ?s = (Inr (answer_of L k ?c), ?s\<lparr>st_in := rest, st_reads := reads\<rparr>)"
    using a assms(7,9,10) by (intro relay_receive_big) auto
  then show ?thesis
    using w assms(6,7) check_answer_join [OF assms(1,4,5)] by (simp add: authenticate_def deadline_left_def)
qed

definition demo_joiner :: "nat \<Rightarrow> nat \<Rightarrow> u8 \<Rightarrow> tcp_stream" where
  "demo_joiner k n b =
     \<lparr>st_in = answer_of demo_lib (demo_kp k) (relay_challenge demo_lib (demo_kp 3) (demo_key n)) @ [b],
      st_reads = [(1, Moved 200), (1, Moved 200), (1, Moved 0)], st_out = [], st_writes = replicate 3 (1, Moved 200),
      st_nodelay = None, st_shut = False\<rparr>"

definition demo_pair_io :: pair_io where
  "demo_pair_io = \<lparr>pr_nonblocking = None, pr_start = 0,
     pr_script = [(1, AC_None), (1, AC_Stream (demo_joiner 1 5 7) None 1 (demo_key 5) 1),
       (1, AC_Stream (demo_joiner 2 6 8) None 1 (demo_key 6) 1)], pr_cloned = None\<rparr>"

lemma demo_pair_served:
  "\<exists>l r. serve_pair demo_lib (demo_kp 3) (demo_key 1, demo_key 2) 10 10 demo_pair_io =
     Some (Inr \<lparr>ls_left_to_right = 1, ls_right_to_left = 1\<rparr>, Some (l, r))"
proof -
  let ?w = "untimed [(1, Moved 200), (1, Moved 200)]"
  let ?l = "\<lambda>n b. \<lparr>st_in = [b], st_reads = [(1, Moved 200), (1, Moved 0)],
      st_out = relay_challenge demo_lib (demo_kp 3) (demo_key n), st_writes = ?w, st_nodelay = None, st_shut = False\<rparr>"
  have a: "authenticate demo_lib (demo_kp 3) (demo_key 1, demo_key 2) 10 1 (demo_key n) (demo_joiner k n b) = Inr (role, ?l n b)"
    if "(k, role) = (1, 0) \<or> (k, role) = (2, 1)" for k n b role
    using that demo_sign_laws
    by (subst authenticate_big [where k = "demo_kp k" and role = role and t = 1 and rest = "[b]"
        and writes = "[(1, Moved 200), (1, Moved 200)]" and reads = "[(1, Moved 200), (1, Moved 0)]"])
      (auto simp: role_of_def demo_joiner_def demo_key_def numeral_2_eq_2 numeral_3_eq_3)
  have p: "pair_loop demo_lib (demo_kp 3) (demo_key 1, demo_key 2) 10 (None, None) 0 (pr_script demo_pair_io) = Some (Inr (?l 5 7, ?l 6 8))"
    using a [of 1 0 5 7] a [of 2 1 6 8] by (simp add: demo_pair_io_def deadline_left_def seated_def seat_def)
  show ?thesis
    using p by (simp add: serve_pair_def demo_pair_io_def forward_pair_def relay_write_big untimed_def demo_key_def)
qed

lemma relay_pair_isolated_witness:
  "\<exists>l r. serve_pair demo_lib (demo_kp 3) (demo_key 1, demo_key 2) 10 10 demo_pair_io =
      Some (Inr \<lparr>ls_left_to_right = 1, ls_right_to_left = 1\<rparr>, Some (l, r)) \<and> demo_key 1 \<noteq> demo_key 2"
  using demo_pair_served relay_pair_isolated by blast

end
