(* ===== verification/Sensor_Slots.thy ===== *)
theory Sensor_Slots
  imports Sensor_Prelude
begin

section \<open>Bounded slots\<close>

text \<open>
  The program bounds its threads by a shared counter in two places: the connections of the rendezvous
  server and the outstanding name look-ups of a device. A holder takes a slot before its thread starts
  and a guard gives it back when it is dropped, on every path. This theory states the contract once: the
  counter is the number of the holders, never exceeds the limit, and refuses only at the limit.
\<close>

datatype slot_event = SE_Enter | SE_Leave

text \<open>The counter and the number of the holders; leaving is dropping a guard, so it takes a holder.\<close>

fun slot_step :: "(nat \<Rightarrow> nat option) \<Rightarrow> (nat \<Rightarrow> nat) \<Rightarrow> nat \<times> nat \<Rightarrow> slot_event \<Rightarrow> nat \<times> nat" where
  "slot_step enter leave (count, holders) SE_Enter =
     (case enter count of None \<Rightarrow> (count, holders) | Some count \<Rightarrow> (count, Suc holders))"
| "slot_step enter leave (count, Suc holders) SE_Leave = (leave count, holders)"
| "slot_step enter leave (count, 0) SE_Leave = (count, 0)"

definition slot_run :: "(nat \<Rightarrow> nat option) \<Rightarrow> (nat \<Rightarrow> nat) \<Rightarrow> slot_event list \<Rightarrow> nat \<times> nat" where
  "slot_run enter leave evs = foldl (slot_step enter leave) (0, 0) evs"

locale slots =
  fixes limit :: nat
    and enter :: "nat \<Rightarrow> nat option"
    and leave :: "nat \<Rightarrow> nat"
  assumes enter_below: "n < limit \<Longrightarrow> enter n = Some (Suc n)"
    and enter_full: "limit \<le> n \<Longrightarrow> enter n = None"
    and leave_held: "leave (Suc n) = n"
begin

lemma step_inv:
  "fst s = snd s \<Longrightarrow> snd s \<le> limit \<Longrightarrow>
     fst (slot_step enter leave s e) = snd (slot_step enter leave s e) \<and> snd (slot_step enter leave s e) \<le> limit"
  by (cases "fst s < limit"; cases "(enter, leave, s, e)" rule: slot_step.cases)
    (auto simp: enter_below enter_full leave_held)

lemma run_inv: "fst (slot_run enter leave evs) = snd (slot_run enter leave evs) \<and> snd (slot_run enter leave evs) \<le> limit"
proof (induction evs rule: rev_induct)
  case (snoc e evs)
  then show ?case
    using step_inv by (simp add: slot_run_def)
qed (simp add: slot_run_def)

lemma refused_full: "enter (fst (slot_run enter leave evs)) = None \<longleftrightarrow> snd (slot_run enter leave evs) = limit"
  using run_inv [of evs] enter_below enter_full
  by (metis le_neq_implies_less option.distinct(1) order_refl)

end

end
