(* ===== verification/Sensor_Front.thy ===== *)
theory Sensor_Front
  imports Sensor_Rendezvous Sensor_Settings Sensor_Slots
begin

section \<open>sensor-rendezvous: the HTTP front\<close>

text \<open>
  What the rendezvous server does with a new connection before it is a WebSocket: the limit on
  connections, the request line that it peeks, the look-up and health pages, and its settings. A peek
  returns what has arrived so far, without taking it; JSON and the WebSocket handshake are outside. The
  lemmas show that the number of connections is bounded, that the pieces in which a request arrives do
  not matter, and what a look-up tells.
\<close>

subsection \<open>Requests\<close>

(* @src crates/sensor-rendezvous/src/main.rs:28-28 HTTP_HEADER_LIMIT *)
definition HTTP_HEADER_LIMIT :: nat where
  "HTTP_HEADER_LIMIT = 16 * 1024"

text \<open>\<open>std::str::from_utf8\<close>: the next character, if its bytes are the shortest encoding of a scalar value.\<close>

definition utf8_value :: "nat list \<Rightarrow> nat \<times> nat" where
  "utf8_value bs =
     (let c = (\<lambda>i. bs ! i mod 64) in
      if bs ! 0 < 128 then (1, bs ! 0)
      else if bs ! 0 < 224 then (2, bs ! 0 mod 32 * 64 + c 1)
      else if bs ! 0 < 240 then (3, (bs ! 0 mod 16 * 64 + c 1) * 64 + c 2)
      else (4, ((bs ! 0 mod 8 * 64 + c 1) * 64 + c 2) * 64 + c 3))"

function from_utf8 :: "nat list \<Rightarrow> rstr option" where
  "from_utf8 bs =
     (if bs = [] then Some []
      else case utf8_value (bs @ [0, 0, 0]) of (k, cp) \<Rightarrow>
        if k \<le> length bs \<and> utf8_char cp = take k bs \<and> cp < 0x110000 \<and> \<not> (0xD800 \<le> cp \<and> cp \<le> 0xDFFF)
        then map_option ((#) cp) (from_utf8 (drop (max 1 k) bs)) else None)"
  by pat_completeness auto
termination
  by (relation "measure length") auto

declare from_utf8.simps [simp del]

text \<open>The first line, without its end, and its pieces between white space.\<close>

definition first_line :: "rstr \<Rightarrow> rstr" where
  "first_line s =
     (let line = takeWhile (\<lambda>c. c \<noteq> 10) s in
      if line \<noteq> [] \<and> last line = 13 \<and> length line < length s then butlast line else line)"

fun split_whitespace :: "rstr \<Rightarrow> rstr \<Rightarrow> rstr list" where
  "split_whitespace word [] = (if word = [] then [] else [word])"
| "split_whitespace word (c # s) =
     (if is_whitespace c then (if word = [] then [] else [word]) @ split_whitespace [] s
      else split_whitespace (word @ [c]) s)"

(* @src crates/sensor-rendezvous/src/main.rs:817-829 peek_path, the request line *)
definition request_path :: "bytes \<Rightarrow> io_error + rstr" where
  "request_path header =
     res_bind (ok_or (from_utf8 (map unat header)) IO_InvalidData) (\<lambda>request.
     case split_whitespace [] (first_line request) of
       [m, path, version] \<Rightarrow>
         (if m = lit ''GET'' \<and> (version = lit ''HTTP/1.1'' \<or> version = lit ''HTTP/1.0'') \<and> starts_with (lit ''/'') path
          then Inr path else Inl IO_InvalidData)
     | _ \<Rightarrow> Inl IO_InvalidData)"

definition BLANK_LINE :: bytes where
  "BLANK_LINE = [13, 10, 13, 10]"

text \<open>Where the blank line begins.\<close>

fun header_end :: "bytes \<Rightarrow> nat option" where
  "header_end bs =
     (if take 4 bs = BLANK_LINE then Some 0
      else case bs of [] \<Rightarrow> None | b # bs \<Rightarrow> map_option Suc (header_end bs))"

declare header_end.simps [simp del]

text \<open>One peek: the clock before it, and an error or what has arrived. \<open>None\<close>: still waiting.\<close>

(* @src crates/sensor-rendezvous/src/main.rs:795-838 peek_path *)
fun peek_path :: "nat \<Rightarrow> (nat \<times> (io_error + bytes)) list \<Rightarrow> (io_error + rstr) option" where
  "peek_path deadline [] = None"
| "peek_path deadline ((now, peeked) # peeks) =
     (if deadline \<le> now then Some (Inl IO_TimedOut)
      else case peeked of
          Inl e \<Rightarrow> Some (Inl e)
        | Inr arrived \<Rightarrow>
            (let buffer = take HTTP_HEADER_LIMIT arrived in
             if buffer = [] then Some (Inl IO_UnexpectedEof)
             else case header_end buffer of
                 Some n \<Rightarrow> Some (request_path (take (n + 4) buffer))
               | None \<Rightarrow>
                   if length buffer = HTTP_HEADER_LIMIT then Some (Inl IO_InvalidData)
                   else peek_path deadline peeks))"

text \<open>The reads of at most 1024 bytes that take the header.\<close>

(* @src crates/sensor-rendezvous/src/main.rs:862-884 consume_headers *)
fun consume_headers :: "bytes \<Rightarrow> (io_error + bytes) list \<Rightarrow> (io_error + unit) option" where
  "consume_headers buffer [] = None"
| "consume_headers buffer (r # reads) =
     (case r of
        Inl e \<Rightarrow> Some (Inl e)
      | Inr chunk \<Rightarrow>
          if chunk = [] then Some (Inl IO_UnexpectedEof)
          else let buffer = buffer @ take 1024 chunk in
            if header_end buffer \<noteq> None then Some (Inr ())
            else if length buffer \<ge> HTTP_HEADER_LIMIT then Some (Inl IO_InvalidData)
            else consume_headers buffer reads)"

subsection \<open>Pages\<close>

(* @src crates/sensor-rendezvous/src/main.rs:39-44 Limits *)
record limits =
  lm_max_bitrate :: "nat option"
  lm_max_fps :: "nat option"
  lm_max_resolution :: "rstr option"

text \<open>The bodies, as their fields; \<open>body_json\<close> below is serde_json on them.\<close>

datatype body =
    BD_Error rstr
  | BD_Health nat nat nat limits
  | BD_Lookup rstr bool

text \<open>The relayed bytes are counted beside the directory.\<close>

(* @src crates/sensor-rendezvous/src/main.rs:680-696 health *)
definition health :: "nat \<Rightarrow> limits \<Rightarrow> nat \<Rightarrow> server \<Rightarrow> body \<times> server" where
  "health now limits relayed s =
     (let s = expire_devices now s
      in (BD_Health (length (sv_devices s)) (sv_active_sessions s) relayed limits, s))"

(* @src crates/sensor-rendezvous/src/main.rs:733-752 lookup *)
definition lookup_device :: "nat \<Rightarrow> rstr \<Rightarrow> server \<Rightarrow> (nat \<times> body) \<times> server" where
  "lookup_device now device_id s =
     (let s = expire_devices now s in
      case canonical_id device_id of
        Inl _ \<Rightarrow> ((400, BD_Error (lit ''invalid device ID'')), s)
      | Inr did \<Rightarrow>
          (let online = (case map_of (sv_devices s) did of None \<Rightarrow> False | Some e \<Rightarrow> \<not> de_busy e)
           in ((if online then 200 else 404, BD_Lookup did online), s)))"

definition status_reason :: "nat \<Rightarrow> string" where
  "status_reason status =
     (if status = 200 then ''OK'' else if status = 400 then ''Bad Request''
      else if status = 404 then ''Not Found'' else ''Error'')"

definition CRLF :: rstr where
  "CRLF = [13, 10]"

(* @src crates/sensor-rendezvous/src/main.rs:886-900 http_response *)
definition http_response :: "(body \<Rightarrow> bytes option) \<Rightarrow> nat \<Rightarrow> body \<Rightarrow> bytes option" where
  "http_response body_json status body =
     map_option (\<lambda>bytes. as_bytes (lit ''HTTP/1.1 '' @ dec_digits status @ lit '' '' @ lit (status_reason status) @ CRLF @
       lit ''Content-Type: application/json'' @ CRLF @ lit ''Content-Length: '' @ dec_digits (length bytes) @ CRLF @
       lit ''Connection: close'' @ CRLF @ CRLF) @ bytes) (body_json body)"

datatype front_result = FR_Response nat body | FR_WebSocket

text \<open>What the connection comes to. The header is consumed before a page is made, and its failure is a page
  of its own; the directory is only read.\<close>

(* @src crates/sensor-rendezvous/src/main.rs:144-184 handle_connection *)
definition handle_connection ::
  "nat \<Rightarrow> limits \<Rightarrow> nat \<Rightarrow> (io_error \<Rightarrow> rstr) \<Rightarrow> io_error + rstr \<Rightarrow> io_error + unit \<Rightarrow> server \<Rightarrow> front_result \<times> server" where
  "handle_connection now limits relayed error_text path consumed s =
     (case path of
        Inl e \<Rightarrow> (FR_Response 400 (BD_Error (error_text e)), s)
      | Inr path \<Rightarrow>
          if path = lit ''/health'' \<or> path = lit ''/''
          then (case consumed of
              Inl _ \<Rightarrow> (FR_Response 400 (BD_Error (lit ''invalid headers'')), s)
            | Inr _ \<Rightarrow> (case health now limits relayed s of (page, s) \<Rightarrow> (FR_Response 200 page, s)))
          else case (case strip_prefix (lit ''/api/v1/lookup/'') path of
              Some d \<Rightarrow> Some d | None \<Rightarrow> strip_prefix (lit ''/devices/'') path) of
            Some device_id \<Rightarrow>
              (case consumed of
                 Inl _ \<Rightarrow> (FR_Response 400 (BD_Error (lit ''invalid headers'')), s)
               | Inr _ \<Rightarrow> (case lookup_device now device_id s of ((status, page), s) \<Rightarrow> (FR_Response status page, s)))
          | None \<Rightarrow>
              if path = lit ''/ws'' \<or> path = lit ''/relay'' then (FR_WebSocket, s)
              else (FR_Response 404 (BD_Error (lit ''not found'')), s))"

subsection \<open>Settings\<close>

(* @src crates/sensor-rendezvous/src/main.rs:698-708 optional_u64 *)
definition optional_u64 :: "rstr option \<Rightarrow> io_error + nat option" where
  "optional_u64 var =
     (case var of
        None \<Rightarrow> Inr None
      | Some value \<Rightarrow>
          if str_trim value = [] then Inr None
          else map_sum id Some (ok_or (from_radix dec_val 10 (2 ^ 64) value) IO_InvalidInput))"

(* @src crates/sensor-rendezvous/src/main.rs:92-104 main, the limits *)
definition server_limits :: "rstr option \<Rightarrow> rstr option \<Rightarrow> rstr option \<Rightarrow> io_error + limits" where
  "server_limits bitrate fps resolution =
     res_bind (optional_u64 bitrate) (\<lambda>b.
     res_bind (optional_u64 fps) (\<lambda>f.
     Inr \<lparr>lm_max_bitrate = Some (clamp_nat 300000 50000000 (case b of None \<Rightarrow> 20000000 | Some n \<Rightarrow> n)),
          lm_max_fps = Some (case f of None \<Rightarrow> 60 | Some n \<Rightarrow> n mod 2 ^ 32),
          lm_max_resolution = Some (case resolution of None \<Rightarrow> lit ''1920x1080'' | Some r \<Rightarrow> r)\<rparr>))"

subsection \<open>The number of connections\<close>

text \<open>The counter is raised first and lowered again when it was at the limit; only the accepting thread
  raises it. A guard lowers it when a connection is dropped, also when its thread cannot be started.\<close>

(* @src crates/sensor-rendezvous/src/main.rs:113-127 main, accepting *)
definition connection_enter :: "nat \<Rightarrow> nat option" where
  "connection_enter connections =
     (let raised = connections + 1 in if connections \<ge> 64 then None else Some raised)"

(* @src crates/sensor-rendezvous/src/main.rs:852-860 Drop for ConnectionGuard *)
definition connection_leave :: "nat \<Rightarrow> nat" where
  "connection_leave connections = connections - 1"

interpretation connections: slots 64 connection_enter connection_leave
  by unfold_locales (simp_all add: connection_enter_def connection_leave_def)

lemma connections_bounded:
  "fst (slot_run connection_enter connection_leave evs) = snd (slot_run connection_enter connection_leave evs) \<and>
   snd (slot_run connection_enter connection_leave evs) \<le> 64"
  by (rule connections.run_inv)

subsection \<open>A request arrives in pieces\<close>

lemma header_end_short: "length bs < 4 \<Longrightarrow> header_end bs = None"
  by (induction bs) (subst header_end.simps, auto simp: BLANK_LINE_def)+

lemma header_end_take:
  "header_end bs = Some n \<Longrightarrow> header_end (take m bs) = (if n + 4 \<le> m then Some n else None)"
proof (induction bs arbitrary: m n)
  case Nil
  then show ?case
    by (simp add: header_end_short)
next
  case (Cons b bs)
  note h = Cons.prems [unfolded header_end.simps [of "b # bs"]]
  show ?case
  proof (cases "take 4 (b # bs) = BLANK_LINE")
    case True
    then have n: "n = 0"
      using h by simp
    show ?thesis
    proof (cases "4 \<le> m")
      case True
      then have "take 4 (take m (b # bs)) = BLANK_LINE"
        using \<open>take 4 (b # bs) = BLANK_LINE\<close> by (simp add: min_def)
      then show ?thesis
        using n True by (subst header_end.simps) simp
    next
      case False
      then show ?thesis
        using n by (simp add: header_end_short)
    qed
  next
    case False
    then obtain k where k: "header_end bs = Some k" "n = Suc k"
      using h by auto
    show ?thesis
    proof (cases m)
      case 0
      then show ?thesis
        by (simp add: header_end_short)
    next
      case (Suc j)
      have "take 4 (take m (b # bs)) \<noteq> BLANK_LINE"
      proof
        assume t: "take 4 (take m (b # bs)) = BLANK_LINE"
        then have "4 \<le> m"
          by (auto simp: BLANK_LINE_def dest!: arg_cong [where f = length])
        then show False
          using t False by (simp add: min_def)
      qed
      then show ?thesis
        using Cons.IH [OF k(1), of j] k(2) Suc by (subst header_end.simps) simp
    qed
  qed
qed

text \<open>A request is understood however it arrives. If what has arrived at every look, before the deadline,
  is a first part of the request, not empty, and some look finds its whole header, within 16 KiB, then
  the connection is served by the path of the request line of exactly that header, and by nothing of
  what follows it.\<close>

theorem request_pieces:
  assumes "header_end request = Some n" and "n + 4 \<le> HTTP_HEADER_LIMIT"
    and "list_all (\<lambda>(now, len). now < deadline \<and> 0 < len) looks"
    and "list_ex (\<lambda>(now, len). n + 4 \<le> len) looks"
  shows "peek_path deadline (map (\<lambda>(now, len). (now, Inr (take len request))) looks) =
    Some (request_path (take (n + 4) request))"
proof -
  have l: "n + 4 \<le> length request"
    using header_end_take [OF assms(1), of "length request"] assms(1) by (simp split: if_splits)
  show ?thesis
    using assms(3,4)
  proof (induction looks)
    case (Cons look looks)
    obtain now len where look: "look = (now, len)"
      by fastforce
    define buffer where "buffer = take HTTP_HEADER_LIMIT (take len request)"
    have now: "now < deadline" "0 < len"
      using Cons.prems(1) look by auto
    then have ne: "buffer \<noteq> []"
      using l by (auto simp: buffer_def HTTP_HEADER_LIMIT_def)
    have h: "header_end buffer = (if n + 4 \<le> len then Some n else None)"
      using header_end_take [OF assms(1), of "min HTTP_HEADER_LIMIT len"] assms(2) by (simp add: buffer_def take_take)
    show ?case
    proof (cases "n + 4 \<le> len")
      case True
      then have "take (n + 4) buffer = take (n + 4) request"
        using assms(2) by (simp add: buffer_def take_take min_def)
      then show ?thesis
        using True now(1) ne h by (simp add: look buffer_def [symmetric] Let_def del: take_take)
    next
      case False
      then have "length buffer \<noteq> HTTP_HEADER_LIMIT" "list_ex (\<lambda>(now, len). n + 4 \<le> len) looks"
        using assms(2) Cons.prems(2) look by (simp_all add: buffer_def)
      then show ?thesis
        using False now(1) ne h Cons.IH Cons.prems(1) by (simp add: look buffer_def [symmetric] Let_def del: take_take)
    qed
  qed simp
qed

text \<open>A concrete request, in two pieces.\<close>

definition demo_request :: bytes where
  "demo_request = ascii_bytes ''GET /ws HTTP/1.1'' @ BLANK_LINE @ [1]"

lemma request_pieces_witness:
  "peek_path 10 [(1, Inr (take 5 demo_request)), (2, Inr (take 21 demo_request))] = Some (Inr (lit ''/ws''))"
proof -
  have h: "header_end demo_request = Some 16"
    by (simp add: demo_request_def ascii_bytes_def BLANK_LINE_def header_end.simps)
  have p: "request_path (take 20 demo_request) = Inr (lit ''/ws'')"
    by (simp add: demo_request_def request_path_def ascii_bytes_def BLANK_LINE_def from_utf8.simps utf8_value_def
        first_line_def is_whitespace_def starts_with_def lit_def Let_def)
  show ?thesis
    using request_pieces [OF h, of 10 "[(1, 5), (2, 21)]"] p by (simp add: HTTP_HEADER_LIMIT_def)
qed

subsection \<open>What a look-up tells\<close>

lemma map_of_filter_distinct:
  "distinct (map fst xs) \<Longrightarrow> map_of (filter (\<lambda>(_, e). P e) xs) k =
     (case map_of xs k of None \<Rightarrow> None | Some e \<Rightarrow> if P e then Some e else None)"
  by (induction xs) (auto simp: map_of_eq_None_iff rev_image_eqI split: option.split)

text \<open>C27: A look-up tells the truth. A device is reported online, with status 200, exactly when the text is an
  identifier, the directory has an entry for it that was seen within the presence time, and that entry is
  not already taken by a session; otherwise the status is 404, or 400 for a text that is no identifier. The
  look-up changes nothing but to forget the devices whose presence has expired.\<close>

theorem lookup_truthful:
  assumes "distinct (map fst (sv_devices s))"
  shows "(fst (fst (lookup_device now device_id s)) = 200 \<longleftrightarrow>
      (\<exists>did e. canonical_id device_id = Inr did \<and> directory s did = Some e \<and> now - de_last_seen e < PRESENCE_TTL \<and>
        \<not> de_busy e \<and> snd (fst (lookup_device now device_id s)) = BD_Lookup did True)) \<and>
    (fst (fst (lookup_device now device_id s)) = 400 \<longleftrightarrow> \<not> is_ok (canonical_id device_id)) \<and>
    fst (fst (lookup_device now device_id s)) \<in> {200, 400, 404} \<and>
    snd (lookup_device now device_id s) = expire_devices now s"
proof -
  have m: "map_of (sv_devices (expire_devices now s)) did =
      (case directory s did of None \<Rightarrow> None | Some e \<Rightarrow> if now - de_last_seen e < PRESENCE_TTL then Some e else None)" for did
    unfolding expire_devices_def using assms by (simp add: map_of_filter_distinct)
  show ?thesis
    by (auto simp: lookup_device_def Let_def m is_ok_iff split: sum.split option.split)
qed

lemma lookup_truthful_witness:
  "fst (fst (lookup_device 0 (lit ''123456789'') demo_server)) = 200"
proof -
  have "canonical_id (lit ''123456789'') = Inr (device_id_display demo_id)"
    using device_id_try_from_Inr_iff [of 123456789 demo_id] demo_id_wf
    by (simp add: canonical_id_def demo_id_def parse_u32_def from_radix_def dec_val_def lit_def is_whitespace_def)
  then show ?thesis
    using lookup_truthful [of demo_server 0 "lit ''123456789''"]
    by (simp add: demo_server_def demo_entry_def PRESENCE_TTL_def lookup_device_def expire_devices_def Let_def)
qed

end
