(* ===== verification/Sensor_Dial.thy ===== *)
theory Sensor_Dial
  imports Sensor_Settings Sensor_Slots
begin

section \<open>sensor-render: reaching the service\<close>

text \<open>
  How a device opens its WebSocket to the rendezvous service: the host is resolved on a thread of its own,
  of which there are at most four, every address is tried until the deadline with growing pauses, and the
  user can cancel at every step. Then the device registers and asks for a peer or waits for one. What the
  resolver, TCP, TLS and the WebSocket handshake answer is an input, with the clock (milliseconds) and
  the cancel flag at every look. The lemmas show that the resolver threads are bounded and that opening
  ends when the deadline has passed.
\<close>

subsection \<open>Names\<close>

(* @src crates/sensor-render/src/lib.rs:54-59 resolve, taking a slot *)
definition dns_enter :: "nat \<Rightarrow> nat option" where
  "dns_enter count = (if count < 4 then Some (count + 1) else None)"

(* @src crates/sensor-render/src/lib.rs:35-40 Drop for DnsSlot *)
definition dns_leave :: "nat \<Rightarrow> nat" where
  "dns_leave count = count - 1"

interpretation dns: slots 4 dns_enter dns_leave
  by unfold_locales (simp_all add: dns_enter_def dns_leave_def)

text \<open>What a wait of 50 milliseconds ends with.\<close>

datatype 'a dns_poll = DP_Waiting | DP_Stopped | DP_Answer "io_error + 'a list"

text \<open>The thread keeps 32 addresses.\<close>

definition dns_answer :: "io_error + 'a list \<Rightarrow> 'a dns_poll" where
  "dns_answer looked_up = DP_Answer (map_sum id (take 32) looked_up)"

(* @src crates/sensor-render/src/lib.rs:71-84 resolve, waiting *)
fun resolve_wait :: "nat \<Rightarrow> (bool \<times> nat \<times> 'a dns_poll) list \<Rightarrow> (render_error + 'a list) option" where
  "resolve_wait deadline [] = None"
| "resolve_wait deadline ((cancelled, now, poll) # polls) =
     (case check_cancelled cancelled of
        Inl e \<Rightarrow> Some (Inl e)
      | Inr _ \<Rightarrow>
          if deadline \<le> now then Some (Inl RE_Timeout)
          else case poll of
              DP_Answer r \<Rightarrow> Some (map_err RE_Io r)
            | DP_Waiting \<Rightarrow> resolve_wait deadline polls
            | DP_Stopped \<Rightarrow> Some (Inl (RE_Io (IO_Other 0))))"

text \<open>The result, if it is there, and the number of threads in flight. A thread that cannot be started drops
  its slot; one that runs gives it back at its end, whatever became of the caller.\<close>

(* @src crates/sensor-render/src/lib.rs:44-85 resolve *)
definition resolve ::
  "bool \<Rightarrow> nat \<Rightarrow> nat \<Rightarrow> io_error option \<Rightarrow> (bool \<times> nat \<times> 'a dns_poll) list \<Rightarrow> nat \<Rightarrow> (render_error + 'a list) option \<times> nat" where
  "resolve cancelled now deadline spawned polls in_flight =
     (case check_cancelled cancelled of
        Inl e \<Rightarrow> (Some (Inl e), in_flight)
      | Inr _ \<Rightarrow>
          if deadline \<le> now then (Some (Inl RE_Timeout), in_flight)
          else case dns_enter in_flight of
              None \<Rightarrow> (Some (Inl (RE_Io IO_WouldBlock)), in_flight)
            | Some in_flight \<Rightarrow>
                (case spawned of
                   Some e \<Rightarrow> (Some (Inl (RE_Io e)), dns_leave in_flight)
                 | None \<Rightarrow> (resolve_wait deadline polls, in_flight)))"

subsection \<open>Opening\<close>

text \<open>\<open>port_of\<close> is the port of a URI, if it has one.\<close>

(* @src crates/sensor-render/src/lib.rs:245-258 open, the address *)
definition open_target :: "uri_lib \<Rightarrow> (uri \<Rightarrow> nat option) \<Rightarrow> rstr \<Rightarrow> render_error + rstr \<times> rstr \<times> nat" where
  "open_target U port_of server =
     res_bind (websocket_url U server) (\<lambda>url.
     res_bind (ok_or (ul_parse U url) (RE_Url (lit ''invalid WebSocket URL''))) (\<lambda>uri.
     res_bind (ok_or (ur_host uri) (RE_Url (lit ''WebSocket URL has no host''))) (\<lambda>host.
     let port = (case port_of uri of Some p \<Rightarrow> p | None \<Rightarrow> if ur_scheme uri = Some (lit ''wss'') then 443 else 80)
     in Inr (url, trim_matches {91, 93} host, port))))"

text \<open>What comes of one address: no TCP connection, a failed or interrupted handshake, or a WebSocket, with the
  error of setting its timeouts, if any.\<close>

datatype dial_outcome =
    DL_Refused io_error
  | DL_Handshake ws_error
  | DL_Interrupted
  | DL_Open "io_error option"

record dial_try =
  dy_cancelled :: bool
  dy_now :: nat
  dy_outcome :: dial_outcome

definition dial_timeout :: "ws_error option \<Rightarrow> render_error" where
  "dial_timeout latest = (case latest of Some e \<Rightarrow> RE_WebSocket e | None \<Rightarrow> RE_Timeout)"

text \<open>One pass over the addresses: the end, or the last error. \<open>None\<close>: in the middle of it.\<close>

(* @src crates/sensor-render/src/lib.rs:268-307 open, the addresses *)
fun dial_tries ::
  "nat \<Rightarrow> ws_error option \<Rightarrow> 'a list \<Rightarrow> dial_try list \<Rightarrow> ((render_error + unit) + ws_error option) option" where
  "dial_tries deadline latest [] ts = Some (Inr latest)"
| "dial_tries deadline latest (a # as) [] = None"
| "dial_tries deadline latest (a # as) (t # ts) =
     (case check_cancelled (dy_cancelled t) of
        Inl e \<Rightarrow> Some (Inl (Inl e))
      | Inr _ \<Rightarrow>
          if deadline \<le> dy_now t then Some (Inl (Inl (dial_timeout latest)))
          else case dy_outcome t of
              DL_Open None \<Rightarrow> Some (Inl (Inr ()))
            | DL_Open (Some e) \<Rightarrow> Some (Inl (Inl (RE_Io e)))
            | DL_Handshake e \<Rightarrow> dial_tries deadline (Some e) as ts
            | DL_Interrupted \<Rightarrow> dial_tries deadline (Some (WE_Io (IO_Other 0))) as ts
            | DL_Refused e \<Rightarrow> dial_tries deadline (Some (WE_Io e)) as ts)"

(* @src crates/sensor-render/src/lib.rs:315-318 open, the pause *)
fun dial_pause :: "nat \<Rightarrow> (nat \<times> bool) list \<Rightarrow> (render_error + unit) option" where
  "dial_pause retry_at [] = None"
| "dial_pause retry_at ((now, cancelled) # looks) =
     (if now < retry_at
      then (case check_cancelled cancelled of Inl e \<Rightarrow> Some (Inl e) | Inr _ \<Rightarrow> dial_pause retry_at looks)
      else Some (Inr ()))"

text \<open>A round: the cancel flag before it, the tries, the clock after them, the two clock readings of the pause's
  end, and the looks of the pause.\<close>

record dial_round =
  dr_cancelled :: bool
  dr_tries :: "dial_try list"
  dr_now :: nat
  dr_pause :: "nat \<times> nat"
  dr_looks :: "(nat \<times> bool) list"

(* @src crates/sensor-render/src/lib.rs:313-314 open, the end of the pause *)
definition retry_at :: "nat \<Rightarrow> nat \<Rightarrow> dial_round \<Rightarrow> nat" where
  "retry_at deadline delay r = fst (dr_pause r) + min delay (deadline - snd (dr_pause r))"

(* @src crates/sensor-render/src/lib.rs:264-320 open, the rounds *)
fun dial_loop ::
  "nat \<Rightarrow> ws_error option \<Rightarrow> nat \<Rightarrow> 'a list \<Rightarrow> dial_round list \<Rightarrow> (render_error + unit) option" where
  "dial_loop deadline latest delay addresses [] = None"
| "dial_loop deadline latest delay addresses (r # rs) =
     (case check_cancelled (dr_cancelled r) of
        Inl e \<Rightarrow> Some (Inl e)
      | Inr _ \<Rightarrow>
          (case dial_tries deadline latest addresses (dr_tries r) of
             None \<Rightarrow> None
           | Some (Inl result) \<Rightarrow> Some result
           | Some (Inr latest) \<Rightarrow>
               if deadline \<le> dr_now r then Some (Inl (dial_timeout latest))
               else case dial_pause (retry_at deadline delay r) (dr_looks r) of
                   None \<Rightarrow> None
                 | Some (Inl e) \<Rightarrow> Some (Inl e)
                 | Some (Inr _) \<Rightarrow> dial_loop deadline latest (min (delay * 2) 4000) addresses rs))"

text \<open>The whole: \<open>start\<close> is the clock when the deadline is set, \<open>now\<close> when the name is resolved.\<close>

(* @src crates/sensor-render/src/lib.rs:235-321 open *)
definition render_open ::
  "uri_lib \<Rightarrow> (uri \<Rightarrow> nat option) \<Rightarrow> rstr \<Rightarrow> nat \<Rightarrow> nat \<Rightarrow> bool \<Rightarrow> nat \<Rightarrow> io_error option \<Rightarrow> (bool \<times> nat \<times> 'a dns_poll) list \<Rightarrow>
   dial_round list \<Rightarrow> nat \<Rightarrow> (render_error + unit) option \<times> nat" where
  "render_open U port_of server timeout start cancelled now spawned polls rounds in_flight =
     (case open_target U port_of server of
        Inl e \<Rightarrow> (Some (Inl e), in_flight)
      | Inr _ \<Rightarrow>
          (case resolve cancelled now (start + timeout) spawned polls in_flight of
             (None, in_flight) \<Rightarrow> (None, in_flight)
           | (Some (Inl e), in_flight) \<Rightarrow> (Some (Inl e), in_flight)
           | (Some (Inr addresses), in_flight) \<Rightarrow>
               if addresses = [] then (Some (Inl (RE_Url (lit ''WebSocket host has no addresses''))), in_flight)
               else (dial_loop (start + timeout) None 250 addresses rounds, in_flight)))"

subsection \<open>Asking for a peer and waiting for one\<close>

text \<open>What comes after opening, on the open WebSocket: the turns of the registration and of the wait, each with
  its clock at the start; the results of two sends; and the local stream of the bridge. The result, if
  there is one yet, and the messages sent.\<close>

record peer_io =
  pi_register_start :: nat
  pi_register_send :: "ws_error option"
  pi_register_turns :: "ws_turn list"
  pi_connect_send :: "ws_error option"
  pi_wait_start :: nat
  pi_wait_turns :: "ws_turn list"
  pi_local :: "io_error option"

definition bridged :: "peer_io \<Rightarrow> (render_error + unit) option \<Rightarrow> (render_error + unit) option" where
  "bridged io r = map_option (\<lambda>r. res_bind r (\<lambda>_. case pi_local io of None \<Rightarrow> Inr () | Some e \<Rightarrow> Inl (RE_Io e))) r"

(* @src crates/sensor-render/src/lib.rs:152-171 connect_with_control *)
definition render_connect ::
  "json_lib \<Rightarrow> crypto_lib \<Rightarrow> identity_keypair \<Rightarrow> device_id \<Rightarrow> expected_peer \<Rightarrow> nat \<Rightarrow> peer_io \<Rightarrow>
   (render_error + unit) option \<times> ws_message list" where
  "render_connect J L kp did target timeout io =
     (case client_register J L kp did (pi_register_start io + timeout) False (pi_register_send io) (pi_register_turns io) of
        (None, out) \<Rightarrow> (None, out)
      | (Some (Inl e), out) \<Rightarrow> (Some (Inl e), out)
      | (Some (Inr token), out) \<Rightarrow>
          (case send_control J (CM_Connect token (device_id_display (ep_device_id target)) (encode_hex (ep_public_key target)))
              (pi_connect_send io) of
             (Inl e, out') \<Rightarrow> (Some (Inl e), out @ out')
           | (Inr _, out') \<Rightarrow>
               (case wait_for_peer J token (Some timeout) (pi_wait_start io) (pi_wait_turns io) of
                  (r, out'') \<Rightarrow> (bridged io r, out @ out' @ out''))))"

text \<open>\<open>ready\<close> is called once the service has confirmed; here it is the second component.\<close>

(* @src crates/sensor-render/src/lib.rs:181-193 accept_with_control *)
definition render_accept ::
  "json_lib \<Rightarrow> crypto_lib \<Rightarrow> identity_keypair \<Rightarrow> device_id \<Rightarrow> nat \<Rightarrow> peer_io \<Rightarrow>
   (render_error + unit) option \<times> bool \<times> ws_message list" where
  "render_accept J L kp did timeout io =
     (case client_register J L kp did (pi_register_start io + timeout) True (pi_register_send io) (pi_register_turns io) of
        (None, out) \<Rightarrow> (None, False, out)
      | (Some (Inl e), out) \<Rightarrow> (Some (Inl e), False, out)
      | (Some (Inr token), out) \<Rightarrow>
          (case wait_for_peer J token None (pi_wait_start io) (pi_wait_turns io) of
             (r, out') \<Rightarrow> (bridged io r, True, out @ out')))"

subsection \<open>The resolver threads are bounded\<close>

text \<open>The calls of any number of threads of the program, and the ends of resolver threads.\<close>

datatype 'a dns_event =
    DE_Resolve bool nat nat "io_error option" "(bool \<times> nat \<times> 'a dns_poll) list"
  | DE_Thread_Ends

text \<open>The counter and the number of resolver threads that run.\<close>

fun dns_step :: "nat \<times> nat \<Rightarrow> 'a dns_event \<Rightarrow> nat \<times> nat" where
  "dns_step (in_flight, threads) (DE_Resolve cancelled now deadline spawned polls) =
     (let in_flight' = snd (resolve cancelled now deadline spawned polls in_flight);
          started = \<not> cancelled \<and> now < deadline \<and> dns_enter in_flight \<noteq> None \<and> spawned = None
      in (in_flight', if started then Suc threads else threads))"
| "dns_step (in_flight, Suc threads) DE_Thread_Ends = (dns_leave in_flight, threads)"
| "dns_step (in_flight, 0) DE_Thread_Ends = (in_flight, 0)"

definition dns_run :: "'a dns_event list \<Rightarrow> nat \<times> nat" where
  "dns_run evs = foldl dns_step (0, 0) evs"

text \<open>Every step of the look-ups is a step of the slots, so their contract holds of it.\<close>

lemma dns_step_slots:
  "fst s = snd s \<Longrightarrow> dns_step s e = s \<or> dns_step s e = slot_step dns_enter dns_leave s SE_Enter \<or>
     dns_step s e = slot_step dns_enter dns_leave s SE_Leave"
proof (cases "(s, e)" rule: dns_step.cases)
  case (1 in_flight threads cancelled now deadline spawned polls)
  then show ?thesis
    by (cases "dns_enter in_flight"; cases spawned)
      (auto simp: resolve_def check_cancelled_def dns_enter_def dns_leave_def split: if_splits)
qed auto

text \<open>Name resolution cannot pile up. Whatever number of connections the program opens, cancels or gives up, and
  however long the system's resolver blocks: there are never more than four resolver threads, their
  counter is exact, and a look-up is refused for lack of a slot only while four of them run.\<close>

theorem resolver_bounded:
  "fst (dns_run evs) = snd (dns_run evs) \<and> snd (dns_run evs) \<le> 4 \<and>
   (resolve False now (Suc now) None polls (fst (dns_run evs)) = (Some (Inl (RE_Io IO_WouldBlock)), fst (dns_run evs))
     \<longleftrightarrow> snd (dns_run evs) = 4)"
proof -
  have inv: "fst (dns_run evs) = snd (dns_run evs) \<and> snd (dns_run evs) \<le> 4"
  proof (induction evs rule: rev_induct)
    case (snoc e evs)
    then show ?case
      using dns_step_slots [of "dns_run evs" e] dns.step_inv [of "dns_run evs"] by (auto simp: dns_run_def)
  qed (simp add: dns_run_def)
  then show ?thesis
    by (auto simp: resolve_def check_cancelled_def dns_enter_def)
qed

subsection \<open>Opening ends\<close>

text \<open>A round that was followed to its end: a try for every address, and looks until the pause is over.\<close>

definition round_complete :: "nat \<Rightarrow> 'a list \<Rightarrow> dial_round \<Rightarrow> bool" where
  "round_complete deadline addresses r \<longleftrightarrow> length addresses \<le> length (dr_tries r) \<and> fst (dr_pause r) \<le> snd (dr_pause r) \<and>
     list_ex (\<lambda>look. max deadline (fst (dr_pause r)) \<le> fst look) (dr_looks r)"

lemma dial_tries_done: "length addresses \<le> length ts \<Longrightarrow> dial_tries deadline latest addresses ts \<noteq> None"
  by (induction deadline latest addresses ts rule: dial_tries.induct) (auto split: sum.splits dial_outcome.splits option.splits)

lemma dial_pause_done: "list_ex (\<lambda>look. t \<le> fst look) looks \<Longrightarrow> dial_pause t looks \<noteq> None"
  by (induction t looks rule: dial_pause.induct) (auto simp: check_cancelled_def)

lemma retry_at_le: "fst (dr_pause r) \<le> snd (dr_pause r) \<Longrightarrow> retry_at deadline delay r \<le> max deadline (fst (dr_pause r))"
  by (auto simp: retry_at_def)

lemma round_pause_done: "round_complete deadline addresses r \<Longrightarrow> dial_pause (retry_at deadline delay r) (dr_looks r) \<noteq> None"
proof -
  assume c: "round_complete deadline addresses r"
  then have "retry_at deadline delay r \<le> max deadline (fst (dr_pause r))"
    by (intro retry_at_le) (simp add: round_complete_def)
  moreover obtain look where "look \<in> set (dr_looks r)" "max deadline (fst (dr_pause r)) \<le> fst look"
    using c by (auto simp: round_complete_def list_ex_iff)
  ultimately show ?thesis
    by (intro dial_pause_done) (metis list_ex_iff order_trans)
qed

lemma dial_loop_done:
  "list_all (round_complete deadline addresses) rounds \<Longrightarrow> list_ex (\<lambda>r. deadline \<le> dr_now r) rounds \<Longrightarrow>
     dial_loop deadline latest delay addresses rounds \<noteq> None"
proof (induction rounds arbitrary: latest delay)
  case (Cons r rs)
  have t: "dial_tries deadline latest addresses (dr_tries r) \<noteq> None"
    using Cons.prems(1) by (intro dial_tries_done) (simp add: round_complete_def)
  have p: "dial_pause (retry_at deadline delay r) (dr_looks r) \<noteq> None"
    using Cons.prems(1) round_pause_done [of deadline addresses r delay] by simp
  have rest: "dial_loop deadline latest' delay' addresses rs \<noteq> None" if "\<not> deadline \<le> dr_now r" for latest' delay'
    using Cons that by simp
  show ?case
    using t p rest by (auto split: sum.splits)
qed simp

lemma dial_tries_open:
  "dial_tries deadline latest addresses ts = Some (Inl (Inr u)) \<Longrightarrow>
     \<exists>t \<in> set ts. dy_outcome t = DL_Open None \<and> dy_now t < deadline \<and> \<not> dy_cancelled t"
  by (induction deadline latest addresses ts rule: dial_tries.induct)
    (auto simp: check_cancelled_def split: if_splits dial_outcome.splits option.splits)

lemma dial_loop_open:
  "dial_loop deadline latest delay addresses rounds = Some (Inr u) \<Longrightarrow>
     \<exists>r \<in> set rounds. \<exists>t \<in> set (dr_tries r). dy_outcome t = DL_Open None \<and> dy_now t < deadline \<and> \<not> dy_cancelled t"
proof (induction deadline latest delay addresses rounds rule: dial_loop.induct)
  case (2 deadline latest delay addresses r rs)
  show ?case
  proof (cases "dial_tries deadline latest addresses (dr_tries r) = Some (Inl (Inr ()))")
    case True
    then show ?thesis
      using dial_tries_open by fastforce
  next
    case False
    then show ?thesis
      using 2 by (auto split: sum.splits option.splits if_splits)
  qed
qed simp

text \<open>C36: Opening the connection to the service always ends. Whatever the addresses answer, if the rounds are
  followed until the clock after the tries of one of them has reached the deadline, opening has ended: with
  a WebSocket that one of the addresses accepted before the deadline while the user had not cancelled, or
  with an error.\<close>

theorem dial_ends:
  assumes "list_all (round_complete deadline addresses) rounds" and "list_ex (\<lambda>r. deadline \<le> dr_now r) rounds"
  shows "\<exists>result. dial_loop deadline None 250 addresses rounds = Some result \<and>
    (is_ok result \<longrightarrow> (\<exists>r \<in> set rounds. \<exists>t \<in> set (dr_tries r).
       dy_outcome t = DL_Open None \<and> dy_now t < deadline \<and> \<not> dy_cancelled t))"
proof -
  obtain result where r: "dial_loop deadline None 250 addresses rounds = Some result"
    using dial_loop_done [OF assms, of None 250] by blast
  then show ?thesis
    using dial_loop_open [of deadline None 250 addresses rounds] by (auto simp: is_ok_iff)
qed

definition demo_round :: "nat \<Rightarrow> dial_outcome \<Rightarrow> dial_round" where
  "demo_round now outcome = \<lparr>dr_cancelled = False,
     dr_tries = [\<lparr>dy_cancelled = False, dy_now = now, dy_outcome = outcome\<rparr>], dr_now = now + 1,
     dr_pause = (now + 1, now + 1), dr_looks = [(now + 2, False), (2000, False)]\<rparr>"

lemma dial_ends_witness:
  "\<exists>result. dial_loop 1000 None 250 [1 :: nat] [demo_round 0 (DL_Refused IO_TimedOut), demo_round 300 DL_Interrupted,
      demo_round 999 (DL_Handshake (WE_Other 1))] = Some result"
  using dial_ends [of 1000 "[1 :: nat]" "[demo_round 0 (DL_Refused IO_TimedOut), demo_round 300 DL_Interrupted,
      demo_round 999 (DL_Handshake (WE_Other 1))]"] by (auto simp: round_complete_def demo_round_def)

subsection \<open>What is asked for\<close>

text \<open>The peer is asked for with the token of this registration, by the identifier and the key that were given.\<close>

lemma render_connect_asks:
  assumes "render_connect J L kp did target timeout io = (Some (Inr ()), out)"
  shows "\<exists>token out1 out2 s. client_register J L kp did (pi_register_start io + timeout) False (pi_register_send io)
      (pi_register_turns io) = (Some (Inr token), out1) \<and>
    js_to J (CM_Connect token (device_id_display (ep_device_id target)) (encode_hex (ep_public_key target))) = Some s \<and>
    out = out1 @ [WM_Text s] @ out2"
  using assms by (auto simp: render_connect_def send_control_def bridged_def
      split: option.splits sum.splits prod.splits if_splits)

end
