(* ===== verification/Sensor_Worker.thy ===== *)
theory Sensor_Worker
  imports Sensor_Establish Sensor_Viewer Sensor_Relay Sensor_Dial Sensor_Unattended
begin

section \<open>sensor-desktop: the worker of a session\<close>

text \<open>
  What the thread of a session does from its start to its end (\<open>execute\<close>): a host listens on one of the
  three routes, refuses what fails the handshake and listens again, and serves the first connection that
  passes; a client connects, asks, and sends a file or chats. The window shares the session's \<open>control\<close>:
  its operations come between the worker's steps as lists. What the system, the relay and the rendezvous
  service answer is an input, with the clock in nanoseconds. The lemmas show whom a host serves without
  asking, that the sockets of refused connections are shut down, and that a stopped chat says nothing.
\<close>

subsection \<open>Routes and tasks\<close>

text \<open>A socket address is its text.\<close>

(* @src crates/sensor-desktop/src/worker.rs:52-68 Route, RelayRoute, RenderRoute *)
datatype route =
    RT_Direct rstr
  | RT_Relay rstr bytes
  | RT_Render rstr

(* @src crates/sensor-desktop/src/worker.rs:70-78 Route::label *)
fun route_label :: "route \<Rightarrow> string" where
  "route_label (RT_Direct _) = ''Direct TCP''"
| "route_label (RT_Relay _ _) = ''Secure relay''"
| "route_label (RT_Render _) = ''Render HTTPS/WSS''"

(* @src crates/sensor-desktop/src/worker.rs:80-100 Task *)
datatype task =
    TK_Host route rstr bool bool
  | TK_Chat route
  | TK_Send route rstr "bytes option"
  | TK_Remote route bool bool

(* @src crates/sensor-transport/src/connection.rs:28-28 DEFAULT_TIMEOUT *)
definition DEFAULT_TIMEOUT :: nat where
  "DEFAULT_TIMEOUT = 15 * 1000000000"

text \<open>The worker's errors are texts: its own, or the display of another error.\<close>

datatype worker_error =
    WX_Text string
  | WX_Io io_error
  | WX_Relay relay_error
  | WX_Render render_error
  | WX_File file_error
  | WX_Audit audit_error
  | WX_Connection connection_error
  | WX_Endpoint endpoint_error
  | WX_Panic

datatype worker_report =
    WR_Text string
  | WR_Records nat
  | WR_Delivered manifest

type_synonym worker_result = "worker_error + worker_report"

text \<open>A step ends the worker, with its result, or goes on with a value; \<open>None\<close>: it is in the middle.\<close>

type_synonym 'a worker_step = "(worker_result + 'a) option \<times> control"

definition Window_Closed :: worker_error where
  "Window_Closed = WX_Text ''Window closed''"

subsection \<open>Waiting for a connection\<close>

text \<open>The answers of \<open>accept\<close> on a non-blocking listener; a stream comes with the result of making it
  blocking.\<close>

datatype listen_poll =
    LP_Stream tcp_stream "io_error option"
  | LP_WouldBlock
  | LP_Error io_error

(* @src crates/sensor-desktop/src/worker.rs:472-486 execute, the listener *)
fun listen_wait :: "(control_op list \<times> listen_poll) list \<Rightarrow> control \<Rightarrow> tcp_stream worker_step" where
  "listen_wait [] c = (None, c)"
| "listen_wait ((ops, p) # ps) c =
     (let c = control_run c ops in
      if ct_cancelled c then (Some (Inl (Inr (WR_Text ''Listener stopped. No incoming connections accepted.''))), c)
      else case p of
          LP_Stream s None \<Rightarrow> (Some (Inr s), c)
        | LP_Stream s (Some e) \<Rightarrow> (Some (Inl (Inl (WX_Io e))), c)
        | LP_WouldBlock \<Rightarrow> listen_wait ps c
        | LP_Error e \<Rightarrow> (Some (Inl (Inl (WX_Io e))), c))"

text \<open>One attempt through the rendezvous service: the window's operations during it, its result, whether
  the window takes the message about a failure, and then the clock at the pause's start and the looks.\<close>

record render_try =
  rn_ops :: "control_op list"
  rn_result :: "render_error + tcp_stream"
  rn_status :: bool
  rn_pause :: nat
  rn_looks :: "(nat \<times> control_op list) list"

definition Internet_Stopped :: worker_result where
  "Internet_Stopped = Inr (WR_Text ''Internet listener stopped.'')"

(* @src crates/sensor-desktop/src/worker.rs:517-523 execute, the pause *)
fun render_pause :: "nat \<Rightarrow> (nat \<times> control_op list) list \<Rightarrow> control \<Rightarrow> unit worker_step" where
  "render_pause until [] c = (None, c)"
| "render_pause until ((now, ops) # looks) c =
     (if now < until
      then let c = control_run c ops in
        if ct_cancelled c then (Some (Inl Internet_Stopped), c) else render_pause until looks c
      else (Some (Inr ()), c))"

text \<open>The delay is in seconds.\<close>

(* @src crates/sensor-desktop/src/worker.rs:495-528 execute, through the service *)
fun render_wait :: "nat \<Rightarrow> render_try list \<Rightarrow> control \<Rightarrow> tcp_stream worker_step" where
  "render_wait delay [] c = (None, c)"
| "render_wait delay (t # ts) c =
     (let c = control_run c (rn_ops t) in
      case rn_result t of
        Inr s \<Rightarrow> (Some (Inr s), c)
      | Inl e \<Rightarrow>
          if ct_cancelled c then (Some (Inl Internet_Stopped), c)
          else if \<not> rn_status t then (Some (Inl (Inl Window_Closed)), c)
          else (case render_pause (rn_pause t + delay * 1000000000) (rn_looks t) c of
              (None, c) \<Rightarrow> (None, c)
            | (Some (Inl r), c) \<Rightarrow> (Some (Inl r), c)
            | (Some (Inr _), c) \<Rightarrow> render_wait (min (delay * 2) 30) ts c))"

text \<open>What a round of the host's loop takes from outside: the wait of its route; the handle of the
  stream; the clock, the ephemeral key and the nonce of the handshake; the window's operations during the
  relay's join and during the handshake; whether the window takes the message about a refusal.\<close>

record host_round =
  hn_listen :: "(control_op list \<times> listen_poll) list"
  hn_relay :: "control_op list \<times> (relay_error + tcp_stream)"
  hn_render :: "render_try list"
  hn_handle :: "io_error + nat"
  hn_now :: nat
  hn_ephemeral :: bytes
  hn_nonce :: bytes
  hn_ops :: "control_op list"
  hn_status :: bool

(* @src crates/sensor-desktop/src/worker.rs:471-531 execute, the stream *)
definition host_stream :: "route \<Rightarrow> host_round \<Rightarrow> control \<Rightarrow> tcp_stream worker_step" where
  "host_stream R h c =
     (case R of
        RT_Direct _ \<Rightarrow> listen_wait (hn_listen h) c
      | RT_Relay _ _ \<Rightarrow>
          (Some (case snd (hn_relay h) of Inl e \<Rightarrow> Inl (Inl (WX_Relay e)) | Inr s \<Rightarrow> Inr s),
           control_run c (fst (hn_relay h)))
      | RT_Render _ \<Rightarrow> render_wait 1 (hn_render h) c)"

text \<open>The device: its cryptography, the handshake's codecs, its key and identifier.\<close>

record device =
  dv_crypto :: crypto_lib
  dv_codecs :: proto_codecs
  dv_key :: identity_keypair
  dv_id :: device_id

(* @src crates/sensor-desktop/src/worker.rs:533-537 execute, the handshake *)
definition host_handshake ::
  "device \<Rightarrow> bool \<Rightarrow> expected_peer \<Rightarrow> host_round \<Rightarrow> tcp_stream \<Rightarrow> connection_error + secure_connection" where
  "host_handshake D accept_any peer h s = fst
     (if accept_any
      then conn_accept_unpinned (dv_crypto D) (dv_codecs D) s (dv_key D) (dv_id D) DEFAULT_TIMEOUT (hn_now h)
        (hn_ephemeral h) (hn_nonce h)
      else conn_accept (dv_crypto D) (dv_codecs D) s (dv_key D) (dv_id D) peer DEFAULT_TIMEOUT (hn_now h)
        (hn_ephemeral h) (hn_nonce h))"

definition listens_on :: "route \<Rightarrow> bool" where
  "listens_on R = (case R of RT_Relay _ _ \<Rightarrow> False | _ \<Rightarrow> True)"

(* @src crates/sensor-desktop/src/worker.rs:470-554 execute, until a connection *)
fun host_connection ::
  "device \<Rightarrow> route \<Rightarrow> bool \<Rightarrow> expected_peer \<Rightarrow> host_round list \<Rightarrow> control \<Rightarrow> secure_connection worker_step" where
  "host_connection D R accept_any peer [] c = (None, c)"
| "host_connection D R accept_any peer (h # hs) c =
     (case host_stream R h c of
        (None, c) \<Rightarrow> (None, c)
      | (Some (Inl r), c) \<Rightarrow> (Some (Inl r), c)
      | (Some (Inr s), c) \<Rightarrow>
          (case control_socket (hn_handle h) c of
             (Inl (Some e), c) \<Rightarrow> (Some (Inl (Inl (WX_Io e))), c)
           | (Inl None, c) \<Rightarrow> (Some (Inl (Inl (WX_Text ''Stopped locally''))), c)
           | (Inr _, c) \<Rightarrow>
               (let c = control_run c (hn_ops h) in
                case host_handshake D accept_any peer h s of
                  Inr conn \<Rightarrow> (Some (Inr conn), c)
                | Inl e \<Rightarrow>
                    if listens_on R \<and> \<not> ct_cancelled c
                    then let c = close_socket c in
                      if \<not> hn_status h then (Some (Inl (Inl Window_Closed)), c)
                      else host_connection D R accept_any peer hs c
                    else (Some (Inl (Inl (WX_Connection e))), c))))"

subsection \<open>Hosting\<close>

text \<open>The user's decision is asked for once the entry of the request is written. \<open>None\<close>: it was never
  asked for.\<close>

definition asked_mode :: "'c client_env \<Rightarrow> device_id \<Rightarrow> serve_input \<Rightarrow> 'c endpoint \<Rightarrow> mode option" where
  "asked_mode E local inp st =
     (case fst (lk_receive (cl_link E) (en_conn st)) of
        Inr (CM_Request m) \<Rightarrow>
          if is_ok (fst (audit_append (cl_crypto E) (cl_json E) (en_log st)
              (session_event (ep_device_id (lk_peer (cl_link E) (en_conn st))) local ConnectionRequested Outcome_Success 0)
              (fst (si_requested inp)) (snd (si_requested inp))))
          then Some m else None
      | _ \<Rightarrow> None)"

text \<open>What the question to the user takes from outside: whether the window takes it, its time in
  milliseconds, and the waits for the answer.\<close>

record question =
  qs_asked :: bool
  qs_start :: nat
  qs_polls :: "(bool \<times> nat \<times> bool reply) list"

text \<open>The session of a host, with what was decided about it; \<open>None\<close> in place of a decision: not asked, or
  still waiting.\<close>

(* @src crates/sensor-desktop/src/worker.rs:563-577 execute, serving *)
definition host_session ::
  "'c client_env \<Rightarrow> ('c \<Rightarrow> consent \<Rightarrow> (endpoint_error + unit) \<times> 'c) \<Rightarrow> device_id \<Rightarrow> bool \<Rightarrow> question \<Rightarrow> serve_input \<Rightarrow>
   'c endpoint \<Rightarrow> control \<Rightarrow> bool option \<times> 'c step_result \<times> control" where
  "host_session E desk local auto_accept q inp st c =
     (case asked_mode E local inp st of
        None \<Rightarrow> (None, serve E desk local (inp\<lparr>si_accept := False\<rparr>) st, c)
      | Some m \<Rightarrow>
          (case interaction_accept auto_accept m (qs_asked q) (qs_start q) (qs_polls q) c of
             (None, c) \<Rightarrow> (None, (None, st), c)
           | (Some accepted, c) \<Rightarrow> (Some accepted, serve E desk local (inp\<lparr>si_accept := accepted\<rparr>) st, c)))"

text \<open>What a host's session takes from outside before its loop and after it: the receive folder, the
  audit file, the listener, the window's message line; the clock readings of the connection.\<close>

record host_input =
  hi_receiver :: "file_error option"
  hi_log :: "audit_error + audit_log"
  hi_bind :: "io_error option"
  hi_status :: bool
  hi_rounds :: "host_round list"
  hi_authenticated :: bool
  hi_clock :: "nat \<Rightarrow> nat"
  hi_question :: question
  hi_serve :: serve_input

record host_outcome =
  hx_result :: "worker_result option"
  hx_control :: control
  hx_served :: "secure_connection option"
  hx_decision :: "bool option"
  hx_files :: fsys

definition host_ends :: "worker_result option \<Rightarrow> control \<Rightarrow> fsys \<Rightarrow> host_outcome" where
  "host_ends r c fs = \<lparr>hx_result = r, hx_control = c, hx_served = None, hx_decision = None, hx_files = fs\<rparr>"

text \<open>The record of an endpoint that begins to serve a connection.\<close>

definition endpoint_on :: "secure_connection \<Rightarrow> (nat \<Rightarrow> nat) \<Rightarrow> fsys \<Rightarrow> audit_log \<Rightarrow> timed_connection endpoint" where
  "endpoint_on conn clock fs lg =
     \<lparr>en_conn = \<lparr>tc_conn = conn, tc_clock = clock\<rparr>, en_fs = fs, en_log = lg, en_incoming = None,
      en_window = 0, en_operations = 0\<rparr>"

(* @src crates/sensor-desktop/src/worker.rs:429-582 execute, a host *)
definition execute_host ::
  "device \<Rightarrow> timed_connection client_env \<Rightarrow>
   (timed_connection \<Rightarrow> consent \<Rightarrow> (endpoint_error + unit) \<times> timed_connection) \<Rightarrow>
   route \<Rightarrow> bool \<Rightarrow> bool \<Rightarrow> expected_peer \<Rightarrow> host_input \<Rightarrow> fsys \<Rightarrow> control \<Rightarrow> host_outcome" where
  "execute_host D E desk R auto_accept accept_any peer inp fs c =
     (if auto_accept \<and> (accept_any \<or> ep_public_key peer = zero_key)
      then host_ends (Some (Inl (WX_Text ''Automatic acceptance requires one explicitly pinned peer; unknown peers always require local consent.''))) c fs
      else case hi_receiver inp of Some e \<Rightarrow> host_ends (Some (Inl (WX_File e))) c fs | None \<Rightarrow>
      (case hi_log inp of Inl e \<Rightarrow> host_ends (Some (Inl (WX_Audit e))) c fs | Inr lg \<Rightarrow>
      (case (case R of RT_Direct _ \<Rightarrow> hi_bind inp | _ \<Rightarrow> None) of
         Some e \<Rightarrow> host_ends (Some (Inl (WX_Io e))) c fs
       | None \<Rightarrow>
      if \<not> hi_status inp then host_ends (Some (Inl Window_Closed)) c fs
      else case host_connection D R accept_any peer (hi_rounds inp) c of
          (None, c) \<Rightarrow> host_ends None c fs
        | (Some (Inl r), c) \<Rightarrow> host_ends (Some r) c fs
        | (Some (Inr conn), c) \<Rightarrow>
            (case conn_set_timeout (120 * 1000000000) conn of
               (Inl e, _) \<Rightarrow> host_ends (Some (Inl (WX_Connection e))) c fs
             | (Inr _, conn) \<Rightarrow>
                 if \<not> hi_authenticated inp then host_ends (Some (Inl Window_Closed)) c fs
                 else (case host_session E desk (dv_id D) auto_accept (hi_question inp) (hi_serve inp)
                     (endpoint_on conn (hi_clock inp) fs lg) c of
                   (decision, (r, st), c) \<Rightarrow>
                     \<lparr>hx_result = (case r of None \<Rightarrow> None | Some (Inl e) \<Rightarrow> Some (Inl (WX_Endpoint e))
                        | Some (Inr _) \<Rightarrow> Some (Inr (WR_Records (unat (ah_records (al_head (en_log st))))))),
                      hx_control = c, hx_served = Some conn, hx_decision = decision, hx_files = en_fs st\<rparr>)))))"

subsection \<open>Connecting\<close>

text \<open>What the three routes answer: the results of a TCP connect, of joining the relay's pair and of
  asking the rendezvous service.\<close>

record dialed =
  dd_direct :: "io_error + tcp_stream"
  dd_relay :: "relay_error + tcp_stream"
  dd_render :: "render_error + tcp_stream"

(* @src crates/sensor-desktop/src/worker.rs:390-414 connect_route *)
definition connect_route :: "route \<Rightarrow> dialed \<Rightarrow> worker_error + tcp_stream" where
  "connect_route R d =
     (case R of
        RT_Direct _ \<Rightarrow> map_err WX_Io (dd_direct d)
      | RT_Relay _ _ \<Rightarrow> map_err WX_Relay (dd_relay d)
      | RT_Render _ \<Rightarrow> map_err WX_Render (dd_render d))"

text \<open>What reaching the peer takes from outside. A panic of the handshake is \<open>WX_Panic\<close>.\<close>

record client_input =
  ci_status :: "bool \<times> bool"
  ci_dialed :: dialed
  ci_dial_ops :: "control_op list"
  ci_handle :: "io_error + nat"
  ci_now :: nat
  ci_ephemeral :: bytes
  ci_nonce :: bytes
  ci_ops :: "control_op list"

(* @src crates/sensor-desktop/src/worker.rs:602-614 execute, connecting *)
definition client_connection ::
  "device \<Rightarrow> route \<Rightarrow> expected_peer \<Rightarrow> client_input \<Rightarrow> control \<Rightarrow> (worker_error + secure_connection) \<times> control" where
  "client_connection D R peer inp c =
     (if \<not> fst (ci_status inp) then (Inl Window_Closed, c)
      else let c = control_run c (ci_dial_ops inp) in
      case connect_route R (ci_dialed inp) of
        Inl e \<Rightarrow> (Inl e, c)
      | Inr s \<Rightarrow>
          (case control_socket (ci_handle inp) c of
             (Inl (Some e), c) \<Rightarrow> (Inl (WX_Io e), c)
           | (Inl None, c) \<Rightarrow> (Inl (WX_Text ''Stopped locally''), c)
           | (Inr _, c) \<Rightarrow>
               (let c = control_run c (ci_ops inp) in
                case conn_initiate (dv_crypto D) (dv_codecs D) s (dv_key D) (dv_id D) peer DEFAULT_TIMEOUT
                    (ci_now inp) (ci_ephemeral inp) (ci_nonce inp) of
                  None \<Rightarrow> (Inl WX_Panic, c)
                | Some (Inl e, _) \<Rightarrow> (Inl (WX_Connection e), c)
                | Some (Inr conn, _) \<Rightarrow>
                    (case conn_set_timeout (120 * 1000000000) conn of
                       (Inl e, _) \<Rightarrow> (Inl (WX_Connection e), c)
                     | (Inr _, conn) \<Rightarrow> if snd (ci_status inp) then (Inr conn, c) else (Inl Window_Closed, c)))))"

subsection \<open>Chatting\<close>

text \<open>A round of the chat: the window's operations while the user writes, the question for a text and the
  waits for it, the operations while the peer writes, and whether the window shows the reply.\<close>

record chat_round =
  ch_ops :: "control_op list"
  ch_asked :: bool
  ch_start :: nat
  ch_polls :: "(bool \<times> nat \<times> rstr option reply) list"
  ch_peer_ops :: "control_op list"
  ch_shown :: bool

text \<open>The end of a chat says \<open>Close\<close> to the peer unless the session was stopped.\<close>

(* @src crates/sensor-desktop/src/worker.rs:655-663 execute, ending the chat *)
definition chat_close :: "'c link \<Rightarrow> 'c \<Rightarrow> control \<Rightarrow> worker_result \<times> 'c" where
  "chat_close lk conn c =
     (if ct_local_stop c \<or> ct_cancelled c then (Inr (WR_Text ''Chat closed.''), conn)
      else case lk_send lk conn CM_Close of
          (Inl e, conn) \<Rightarrow> (Inl (WX_Connection e), conn)
        | (Inr _, conn) \<Rightarrow> (Inr (WR_Text ''Chat closed.''), conn))"

text \<open>The result, the connection, the control, and the texts shown.\<close>

(* @src crates/sensor-desktop/src/worker.rs:641-663 execute, the chat *)
fun chat_loop ::
  "'c link \<Rightarrow> chat_round list \<Rightarrow> 'c \<Rightarrow> control \<Rightarrow> rstr list \<Rightarrow> worker_result option \<times> 'c \<times> control \<times> rstr list" where
  "chat_loop lk [] conn c shown = (None, conn, c, shown)"
| "chat_loop lk (t # ts) conn c shown =
     (let c = control_run c (ch_ops t) in
      case compose (ch_asked t) (ch_start t) (ch_polls t) of
        None \<Rightarrow> (None, conn, c, shown)
      | Some None \<Rightarrow> (case chat_close lk conn c of (r, conn) \<Rightarrow> (Some r, conn, c, shown))
      | Some (Some s) \<Rightarrow>
          (case lk_send lk conn (CM_Chat s) of
             (Inl e, conn) \<Rightarrow> (Some (Inl (WX_Connection e)), conn, c, shown)
           | (Inr _, conn) \<Rightarrow>
               (let c = control_run c (ch_peer_ops t) in
                case lk_receive lk conn of
                  (Inl e, conn) \<Rightarrow> (Some (Inl (WX_Connection e)), conn, c, shown)
                | (Inr (CM_Chat reply), conn) \<Rightarrow>
                    if str_len reply > MAX_CHAT_BYTES
                    then (Some (Inl (WX_Text ''Invalid chat response.'')), conn, c, shown)
                    else if \<not> ch_shown t then (Some (Inl Window_Closed), conn, c, shown)
                    else chat_loop lk ts conn c (shown @ [reply])
                | (Inr CM_Close, conn) \<Rightarrow> (Some (Inr (WR_Text ''Peer ended the chat.'')), conn, c, shown)
                | (Inr _, conn) \<Rightarrow> (Some (Inl (WX_Text ''Invalid chat response.'')), conn, c, shown))))"

(* @src crates/sensor-desktop/src/worker.rs:635-663 execute, a chat *)
definition execute_chat ::
  "'c link \<Rightarrow> bool \<Rightarrow> chat_round list \<Rightarrow> 'c \<Rightarrow> control \<Rightarrow> worker_result option \<times> 'c \<times> control \<times> rstr list" where
  "execute_chat lk status ts conn c =
     (case client_request lk M_Chat conn of
        (Inl e, conn) \<Rightarrow> (Some (Inl (WX_Endpoint e)), conn, c, [])
      | (Inr _, conn) \<Rightarrow>
          if \<not> status then (Some (Inl Window_Closed), conn, c, []) else chat_loop lk ts conn c [])"

text \<open>Sending a file: the source as \<open>send_file\<close> reads it.\<close>

record file_source =
  fl_name :: "rstr option"
  fl_opened :: "io_error + bool \<times> bytes"
  fl_reopened :: "io_error + upload_source"
  fl_seek :: "io_error option"

(* @src crates/sensor-desktop/src/worker.rs:615-634 execute, sending a file *)
definition execute_send ::
  "crypto_lib \<Rightarrow> 'c link \<Rightarrow> file_source \<Rightarrow> bytes option \<Rightarrow> 'c \<Rightarrow> worker_result \<times> 'c" where
  "execute_send L lk s resume conn =
     (case send_file L lk (fl_name s) (fl_opened s) (fl_reopened s) (fl_seek s) resume conn of
        (r, conn) \<Rightarrow> (map_sum WX_Endpoint WR_Delivered r, conn))"

text \<open>A session's thread ends with the last event; dropping the job stops the session. \<open>Job::drop\<close> is
  \<open>control_stop\<close> of \<open>Sensor_Control\<close>.\<close>

text \<open>A viewer begins likewise, and asks for its mode at once.\<close>

(* @src crates/sensor-desktop/src/worker.rs:1301-1337 execute_remote, connecting and asking *)
definition remote_connection ::
  "device \<Rightarrow> client_message codec \<Rightarrow> route \<Rightarrow> bool \<Rightarrow> bool \<Rightarrow> expected_peer \<Rightarrow> client_input \<Rightarrow> (nat \<Rightarrow> nat) \<Rightarrow> control \<Rightarrow>
   (worker_error + timed_connection) \<times> control" where
  "remote_connection D cd R control_mode clipboard_mode peer inp clock c =
     (case client_connection D R peer (inp\<lparr>ci_status := (fst (ci_status inp), True)\<rparr>) c of
        (Inl e, c) \<Rightarrow> (Inl e, c)
      | (Inr conn, c) \<Rightarrow>
          (case client_request (secure_link (dv_crypto D) cd) (remote_mode control_mode clipboard_mode)
              \<lparr>tc_conn = conn, tc_clock = clock\<rparr> of
             (Inl e, _) \<Rightarrow> (Inl (WX_Endpoint e), c)
           | (Inr _, conn) \<Rightarrow> if snd (ci_status inp) then (Inr conn, c) else (Inl Window_Closed, c)))"

subsection \<open>Whom a host serves\<close>

lemma close_on_error_peer [simp]: "cn_peer (snd (close_on_error rc)) = cn_peer (snd rc)"
  by (auto simp: close_on_error_def conn_close_def split: sum.splits)

lemma receive_record_peer: "cn_peer (snd (receive_record L d c)) = cn_peer c"
  by (auto simp: receive_record_def split: sum.splits option.splits prod.splits)

lemma send_record_peer: "cn_peer (snd (send_record L bs d c)) = cn_peer c"
  by (auto simp: send_record_def split: sum.splits option.splits prod.splits)

lemma receive_bytes_peer: "receive_bytes L d c = (r, c') \<Longrightarrow> cn_peer c' = cn_peer c"
  by (metis close_on_error_peer receive_record_peer receive_bytes_def snd_conv)

lemma send_bytes_peer: "send_bytes L bs d c = (r, c') \<Longrightarrow> cn_peer c' = cn_peer c"
  by (metis close_on_error_peer send_record_peer send_bytes_def snd_conv)

lemma conn_respond_peer:
  assumes "conn_respond L P timeout d s accepted = (Inr conn, s')"
  shows "\<exists>pending response session. accepted = Inr (pending, response) \<and> finish_responder L P pending = Inr session \<and>
    cn_peer conn = \<lparr>ep_device_id = ss_peer_device_id session, ep_public_key = ss_peer_identity_key session\<rparr>"
  using assms
  by (auto simp: conn_respond_def new_connection_def split: sum.splits prod.splits if_splits
    dest!: receive_bytes_peer send_bytes_peer)

text \<open>The peer of a connection has signed a hello to this device with the key it names.\<close>

definition authentic :: "device \<Rightarrow> secure_connection \<Rightarrow> bool" where
  "authentic D conn \<longleftrightarrow> (\<exists>h m.
     client_signature_bytes (dv_codecs D) h = Inr m \<and>
     identity_verify (dv_crypto D) (ep_public_key (cn_peer conn)) m (ch_signature h) = Inr () \<and>
     cn_peer conn = \<lparr>ep_device_id = ch_device_id h, ep_public_key = ch_identity_public_key h\<rparr> \<and>
     ch_target_device_id h = dv_id D)"

lemma accepted_hello_authentic:
  assumes "accept_hello_unpinned (dv_crypto D) (dv_codecs D) (dv_key D) (dv_id D) h eph n = Inr (pending, response)"
    and "finish_responder (dv_crypto D) (dv_codecs D) pending = Inr session"
    and "cn_peer conn = \<lparr>ep_device_id = ss_peer_device_id session, ep_public_key = ss_peer_identity_key session\<rparr>"
  shows "authentic D conn \<and> cn_peer conn = \<lparr>ep_device_id = ch_device_id h, ep_public_key = ch_identity_public_key h\<rparr>"
proof -
  have r: "respond_hello (dv_crypto D) (dv_codecs D) (dv_key D) (dv_id D) h eph n = Inr (pending, response)"
    and v: "verify_client_hello (dv_crypto D) (dv_codecs D) h = Inr ()" and t: "ch_target_device_id h = dv_id D"
    using assms(1) by (auto simp: accept_hello_unpinned_Inr_iff)
  have p: "cn_peer conn = \<lparr>ep_device_id = ch_device_id h, ep_public_key = ch_identity_public_key h\<rparr>"
    using assms(2,3) respond_hello_Inr(1) [OF r] by (auto simp: finish_responder_Inr_iff)
  obtain m where "client_signature_bytes (dv_codecs D) h = Inr m"
    and "identity_verify (dv_crypto D) (ch_identity_public_key h) m (ch_signature h) = Inr ()"
    using v by (auto simp: verify_client_hello_def res_simps)
  then have "authentic D conn"
    unfolding authentic_def using p t by (intro exI [of _ h] exI [of _ m]) simp
  with p show ?thesis
    by blast
qed

lemma host_handshake_peer:
  assumes "host_handshake D accept_any peer h s = Inr conn"
  shows "authentic D conn \<and> (accept_any \<or> cn_peer conn = peer)"
proof (cases accept_any)
  case True
  then obtain s' where "conn_accept_unpinned (dv_crypto D) (dv_codecs D) s (dv_key D) (dv_id D) DEFAULT_TIMEOUT
      (hn_now h) (hn_ephemeral h) (hn_nonce h) = (Inr conn, s')"
    using assms by (cases "conn_accept_unpinned (dv_crypto D) (dv_codecs D) s (dv_key D) (dv_id D) DEFAULT_TIMEOUT
      (hn_now h) (hn_ephemeral h) (hn_nonce h)") (simp add: host_handshake_def)
  then show ?thesis
    using True accepted_hello_authentic
    by (auto simp: conn_accept_unpinned_def split: option.splits prod.splits sum.splits dest!: conn_respond_peer)
next
  case False
  then obtain s' where "conn_accept (dv_crypto D) (dv_codecs D) s (dv_key D) (dv_id D) peer DEFAULT_TIMEOUT
      (hn_now h) (hn_ephemeral h) (hn_nonce h) = (Inr conn, s')"
    using assms by (cases "conn_accept (dv_crypto D) (dv_codecs D) s (dv_key D) (dv_id D) peer DEFAULT_TIMEOUT
      (hn_now h) (hn_ephemeral h) (hn_nonce h)") (simp add: host_handshake_def)
  then obtain hello pending response session where
    "accept_hello (dv_crypto D) (dv_codecs D) (dv_key D) (dv_id D) hello peer (hn_ephemeral h) (hn_nonce h) =
      Inr (pending, response)"
    and "finish_responder (dv_crypto D) (dv_codecs D) pending = Inr session"
    and "cn_peer conn = \<lparr>ep_device_id = ss_peer_device_id session, ep_public_key = ss_peer_identity_key session\<rparr>"
    by (auto simp: conn_accept_def split: option.splits prod.splits sum.splits dest!: conn_respond_peer)
  then show ?thesis
    using accepted_hello_authentic [of D hello "hn_ephemeral h" "hn_nonce h" pending response session conn]
    by (auto simp: accept_hello_Inr_iff)
qed

lemma host_connection_peer:
  "fst (host_connection D R accept_any peer hs c) = Some (Inr conn) \<Longrightarrow>
     authentic D conn \<and> (accept_any \<or> cn_peer conn = peer)"
proof (induction hs arbitrary: c)
  case (Cons h hs)
  show ?case
    using Cons.prems Cons.IH host_handshake_peer [of D accept_any peer h]
    by (auto simp: Let_def split: prod.splits option.splits sum.splits if_splits)
qed simp

lemma serve_rejected_fs: "\<not> si_accept inp \<Longrightarrow> en_fs (snd (serve E desk local inp st)) = en_fs st"
  by (cases "lk_receive (cl_link E) (en_conn st)")
    (auto simp: serve_def Let_def consent_reject_pending endpoint_fs_audit endpoint_fs_send
      split: sum.splits client_message.splits)

lemma host_session_approved:
  assumes "host_session E desk local auto_accept q inp st c = (decision, (r, st'), c')"
  shows "(en_fs st' \<noteq> en_fs st \<longrightarrow> decision = Some True) \<and>
    (decision = Some True \<longrightarrow> auto_accept \<or>
      (qs_asked q \<and> (\<exists>now. (False, now, Reply True) \<in> set (qs_polls q) \<and> now < qs_start q + 120000)))"
proof (cases "asked_mode E local inp st")
  case None
  then show ?thesis
    using assms serve_rejected_fs [of "inp\<lparr>si_accept := False\<rparr>" E desk local st] by (auto simp: host_session_def)
next
  case (Some m)
  obtain a c1 where a: "interaction_accept auto_accept m (qs_asked q) (qs_start q) (qs_polls q) c = (a, c1)"
    by fastforce
  show ?thesis
  proof (cases a)
    case None
    then show ?thesis
      using assms a Some by (auto simp: host_session_def)
  next
    case (Some accepted)
    have d: "decision = Some accepted" and s: "serve E desk local (inp\<lparr>si_accept := accepted\<rparr>) st = (r, st')"
      using assms a Some \<open>asked_mode E local inp st = Some m\<close> by (auto simp: host_session_def)
    have "\<not> accepted \<Longrightarrow> en_fs st' = en_fs st"
      using serve_rejected_fs [of "inp\<lparr>si_accept := accepted\<rparr>" E desk local st] s by simp
    moreover have "accepted \<Longrightarrow> auto_accept \<or>
      (qs_asked q \<and> (\<exists>now. (False, now, Reply True) \<in> set (qs_polls q) \<and> now < qs_start q + 120000))"
      using interaction_accept_True [of auto_accept m "qs_asked q" "qs_start q" "qs_polls q" c c1] a Some by simp
    ultimately show ?thesis
      using d by auto
  qed
qed

text \<open>C12: A host serves only whom it may. However the listener, the relay, the service, the handshakes and the
  window behave: the connection a host serves has a peer that signed a hello to this device with the key
  it names, and is exactly the chosen peer unless any peer may connect; and a session is accepted, or the
  file system changed, only when the chosen peer has a key and acceptance is automatic, or the user said
  yes within two minutes of the question and before the session was stopped.\<close>

theorem host_serves_approved:
  assumes "execute_host D E desk R auto_accept accept_any peer inp fs c = x"
    and "hx_decision x = Some True \<or> hx_files x \<noteq> fs"
  shows "hx_decision x = Some True \<and>
    (\<exists>conn. hx_served x = Some conn \<and> authentic D conn \<and> (accept_any \<or> cn_peer conn = peer)) \<and>
    (if auto_accept then \<not> accept_any \<and> ep_public_key peer \<noteq> zero_key
     else qs_asked (hi_question inp) \<and> (\<exists>now. (False, now, Reply True) \<in> set (qs_polls (hi_question inp)) \<and>
       now < qs_start (hi_question inp) + 120000))"
proof -
  have guard: "\<not> (auto_accept \<and> (accept_any \<or> ep_public_key peer = zero_key))"
    using assms by (auto simp: execute_host_def host_ends_def)
  have ends: "x \<noteq> host_ends r c' fs" for r c'
    using assms(2) by (auto simp: host_ends_def)
  obtain conn c1 lg r st where conn: "fst (host_connection D R accept_any peer (hi_rounds inp) c) = Some (Inr conn)"
    and served: "hx_served x = Some (conn\<lparr>cn_timeout := 120 * 1000000000\<rparr>)" "hx_files x = en_fs st"
    and session: "host_session E desk (dv_id D) auto_accept (hi_question inp) (hi_serve inp)
      (endpoint_on (conn\<lparr>cn_timeout := 120 * 1000000000\<rparr>) (hi_clock inp) fs lg) c1 = (hx_decision x, (r, st), hx_control x)"
    using assms(1) guard ends
    by (auto simp: execute_host_def conn_set_timeout_def split: option.splits sum.splits prod.splits if_splits)
  have "authentic D conn \<and> (accept_any \<or> cn_peer conn = peer)"
    by (rule host_connection_peer [OF conn])
  moreover have "hx_decision x = Some True"
    using host_session_approved [OF session] assms(2) served(2) by (auto simp: endpoint_on_def)
  moreover note host_session_approved [OF session]
  ultimately show ?thesis
    using guard served(1) by (auto simp: authentic_def)
qed

subsection \<open>A refused peer is not left waiting\<close>

text \<open>What the window and the waiting thread of a stop do; only the worker gets sockets.\<close>

definition window_op :: "control_op \<Rightarrow> bool" where
  "window_op op \<longleftrightarrow> (case op of Op_Socket h \<Rightarrow> False | _ \<Rightarrow> True)"

text \<open>A socket that the control once held is its current one or was shut down.\<close>

definition held :: "nat \<Rightarrow> control \<Rightarrow> bool" where
  "held s c \<longleftrightarrow> ct_socket c = Some s \<or> s \<in> set (ct_aborted c)"

lemma control_step_held: "window_op op \<Longrightarrow> held s c \<Longrightarrow> held s (snd (control_step c op))"
  by (cases op) (auto simp: window_op_def held_def control_defs Let_def split: if_splits option.splits)

lemma control_run_held: "list_all window_op ops \<Longrightarrow> held s c \<Longrightarrow> held s (control_run c ops)"
  by (induction ops arbitrary: c) (auto intro: control_step_held)

lemma refused_peer_closed:
  assumes "host_stream R h c = (Some (Inr s), c1)" and "hn_handle h = Inr k" and "\<not> ct_cancelled c1"
    and "list_all window_op (hn_ops h)" and "host_handshake D accept_any peer h s = Inl e"
    and "c2 = control_run (c1\<lparr>ct_socket := Some k\<rparr>) (hn_ops h)" and "listens_on R" and "\<not> ct_cancelled c2" and "hn_status h"
  shows "host_connection D R accept_any peer (h # hs) c = host_connection D R accept_any peer hs (close_socket c2) \<and>
    k \<in> set (ct_aborted (close_socket c2)) \<and> ct_socket (close_socket c2) = None"
proof -
  have "held k c2"
    unfolding assms(6) by (rule control_run_held [OF assms(4)]) (simp add: held_def)
  then have "k \<in> set (ct_aborted (close_socket c2)) \<and> ct_socket (close_socket c2) = None"
    by (auto simp: held_def close_socket_def split: option.splits)
  then show ?thesis
    using assms by (simp add: control_socket_def)
qed

text \<open>A session that was stopped, by the user or by an abort, says nothing more in a chat.\<close>

lemma stopped_chat_silent:
  "ct_local_stop c \<or> ct_cancelled c \<Longrightarrow> chat_close lk conn c = (Inr (WR_Text ''Chat closed.''), conn)"
  by (auto simp: chat_close_def)

subsection \<open>A concrete host\<close>

definition demo_device :: device where
  "demo_device = \<lparr>dv_crypto = demo_lib, dv_codecs = demo_codecs, dv_key = demo_kp 2, dv_id = DeviceId 222222222\<rparr>"

definition demo_caller :: expected_peer where
  "demo_caller = \<lparr>ep_device_id = DeviceId 111111111, ep_public_key = demo_key 1\<rparr>"

definition demo_worker_env :: "timed_connection client_env" where
  "demo_worker_env =
     \<lparr>cl_crypto = demo_lib, cl_json = Sensor_Audit.demo_json, cl_metadata = cl_metadata demo_client_env,
      cl_link = \<lparr>lk_send = (\<lambda>c m. (Inr (), c)), lk_receive = (\<lambda>c. (Inr (CM_Request M_Chat), c)), lk_close = id,
        lk_peer = (\<lambda>c. cn_peer (tc_conn c))\<rparr>\<rparr>"

definition demo_host_input :: "tcp_stream \<Rightarrow> host_input" where
  "demo_host_input s =
     \<lparr>hi_receiver = None, hi_log = Inr demo_log, hi_bind = None, hi_status = True,
      hi_rounds = [\<lparr>hn_listen = [([], LP_WouldBlock), ([], LP_Stream s None)], hn_relay = ([], Inl LE_Timeout),
        hn_render = [], hn_handle = Inr 7, hn_now = 0, hn_ephemeral = demo_key 5, hn_nonce = demo_key 6, hn_ops = [],
        hn_status = True\<rparr>],
      hi_authenticated = True, hi_clock = (\<lambda>n. n),
      hi_question = \<lparr>qs_asked = True, qs_start = 0, qs_polls = [(False, 100, No_Reply), (False, 200, Reply True)]\<rparr>,
      hi_serve = demo_serve_input True\<rparr>"

lemma demo_host_accepts:
  assumes "conn_accept demo_lib demo_codecs s (demo_kp 2) (DeviceId 222222222) demo_caller 15000000000 0
    (demo_key 5) (demo_key 6) = (Inr cb, cn_stream cb)"
  shows "hx_decision (execute_host demo_device demo_worker_env (\<lambda>c _. (Inr (), c)) (RT_Direct []) False False
    demo_caller (demo_host_input s) demo_fs control_default) = Some True"
proof -
  have "is_ok (fst (audit_append demo_lib Sensor_Audit.demo_json demo_log ev (Some 0) (Wrote (Inr ()))))" for ev
    using demo_append_any [OF demo_log_ready, of 0 ev] by auto
  then show ?thesis
    using assms
    by (simp add: execute_host_def demo_host_input_def host_stream_def control_default_def control_socket_def
      host_handshake_def demo_device_def DEFAULT_TIMEOUT_def conn_set_timeout_def host_session_def asked_mode_def
      demo_worker_env_def endpoint_on_def demo_serve_input_def demo_audit_input_def interaction_accept_def wait_reply_def split: prod.split)
qed

lemma host_serves_approved_witness:
  "\<exists>s conn. hx_served (execute_host demo_device demo_worker_env (\<lambda>c _. (Inr (), c)) (RT_Direct []) False False
    demo_caller (demo_host_input s) demo_fs control_default) = Some conn \<and> authentic demo_device conn \<and>
    cn_peer conn = demo_caller"
proof -
  obtain s cb where "conn_accept demo_lib demo_codecs s (demo_kp 2) (DeviceId 222222222) demo_caller 15000000000 0
    (demo_key 5) (demo_key 6) = (Inr cb, cn_stream cb)"
    using demo_accepted unfolding demo_caller_def by blast
  from demo_host_accepts [OF this] host_serves_approved [OF refl, of demo_device demo_worker_env
    "\<lambda>c _. (Inr (), c)" "RT_Direct []" False False demo_caller "demo_host_input s" demo_fs control_default]
  show ?thesis
    by blast
qed

end
