(* ===== verification/Sensor_Window.thy ===== *)
theory Sensor_Window
  imports Sensor_Worker Sensor_Updates
begin

section \<open>sensor-desktop: the window\<close>

text \<open>
  The state behind the application's window, without its drawing: what the user typed, the job of an
  outgoing or attended session, the listener at the rendezvous service, the question for consent, the
  turn of a chat, and what is shown of a remote desktop. The workers' events are polled once per frame;
  buttons start and stop jobs. The lemmas show when a request of a peer is answered with yes, that a
  session takes the place of every other, that only a pinned peer is ever accepted automatically, and
  that after a stop nothing starts again by itself.
\<close>

subsection \<open>State\<close>

(* @src crates/sensor-desktop/src/ui.rs:30-38 Page *)
datatype page = PG_Connect | PG_Files | PG_Chat | PG_Contacts | PG_Diagnostics | PG_Remote

text \<open>The peer and network settings as typed.\<close>

(* @src crates/sensor-desktop/src/ui.rs:231-242 App, the form *)
record form =
  fo_peer_id :: rstr
  fo_peer_key :: rstr
  fo_address :: rstr
  fo_bind :: rstr
  fo_use_relay :: bool
  fo_relay_address :: rstr
  fo_relay_key :: rstr
  fo_use_render :: bool
  fo_render_server :: rstr
  fo_auto_accept :: bool
  fo_allow_unpinned :: bool
  fo_confirmed :: bool

text \<open>What is shown of a remote desktop; the textures and the rates are drawing.\<close>

(* @src crates/sensor-desktop/src/ui.rs:267-286 App, the remote desktop *)
record remote_view =
  rv_frame :: "decoded_frame option"
  rv_displays :: "display list"
  rv_format :: "video_format option"
  rv_cursor :: "(int \<times> int \<times> bool) option"
  rv_generation :: nat
  rv_control :: bool
  rv_profile :: video_profile
  rv_listener :: bool
  rv_buttons :: "bool list"
  rv_focused :: bool
  rv_modifiers :: "bool list"
  rv_close_at :: "nat option"

text \<open>The channels on which the workers wait for answers are numbered. \<open>pr_opened\<close>: milliseconds.\<close>

(* @src crates/sensor-desktop/src/ui.rs:217-223 ConsentPrompt *)
record consent_prompt =
  pr_peer :: expected_peer
  pr_mode :: mode
  pr_reply :: nat
  pr_opened :: nat
  pr_listener :: bool

(* @src crates/sensor-desktop/src/worker.rs:267-271 Job *)
record job =
  jb_task :: task
  jb_peer :: expected_peer
  jb_control :: control

datatype notice =
    NO_Text string
  | NO_Error text_error
  | NO_Check text_error
  | NO_Unattended device_id
  | NO_Listener worker_error
  | NO_Report worker_report
  | NO_Session worker_error
  | NO_Revocation text_error

text \<open>
  \<open>ap_answers\<close>, \<open>ap_replies\<close> and \<open>ap_begun\<close> record what was answered to requests for consent and for chat
  texts, and which jobs were started, the latest last; the last two fields are files.
\<close>

(* @src crates/sensor-desktop/src/ui.rs:224-287 App *)
record app =
  ap_form :: form
  ap_view :: remote_view
  ap_page :: page
  ap_receive :: rstr
  ap_contacts :: "contact list"
  ap_unattended :: "grant option"
  ap_status :: rstr
  ap_notice :: "notice option"
  ap_job :: "job option"
  ap_listener :: "job option"
  ap_listener_enabled :: bool
  ap_listener_route :: "route option"
  ap_listener_busy :: bool
  ap_listener_registered :: bool
  ap_consent :: "consent_prompt option"
  ap_compose :: "nat option"
  ap_compose_listener :: bool
  ap_draft :: rstr
  ap_history :: "(bool \<times> rstr) list"
  ap_progress :: "(nat \<times> nat) option"
  ap_resume :: rstr
  ap_file :: "rstr option"
  ap_contact_name :: rstr
  ap_request_clipboard :: bool
  ap_answers :: "(nat \<times> bool) list"
  ap_replies :: "(nat \<times> rstr option) list"
  ap_begun :: "(task \<times> expected_peer) list"
  ap_contacts_file :: "bytes option"
  ap_grant_file :: "bytes option"

text \<open>Parsing of URLs and of socket addresses, JSON, the platform's protection, and the device's own key.\<close>

record app_env =
  ae_uri :: uri_lib
  ae_addr_ok :: "rstr \<Rightarrow> bool"
  ae_contacts :: "contact list json"
  ae_grants :: "grant option json"
  ae_protector :: key_protector
  ae_key :: bytes

text \<open>Two texts with a bullet between them.\<close>

definition dotted :: "string \<Rightarrow> string \<Rightarrow> rstr" where
  "dotted s t = lit s @ [32, 8226, 32] @ lit t"

primrec is_some_and :: "('a \<Rightarrow> bool) \<Rightarrow> 'a option \<Rightarrow> bool" where
  "is_some_and f None = False"
| "is_some_and f (Some x) = f x"

definition notify :: "notice \<Rightarrow> app \<Rightarrow> app" where
  "notify n a = a\<lparr>ap_notice := Some n\<rparr>"

definition job_started :: "task \<Rightarrow> expected_peer \<Rightarrow> job" where
  "job_started t peer = \<lparr>jb_task = t, jb_peer = peer, jb_control = control_default\<rparr>"

definition stopped_locally :: "job option \<Rightarrow> bool" where
  "stopped_locally j = (case j of None \<Rightarrow> False | Some j \<Rightarrow> ct_local_stop (jb_control j))"

subsection \<open>Peers and routes\<close>

(* @src crates/sensor-desktop/src/ui.rs:434-436 App::session_active *)
definition session_active :: "app \<Rightarrow> bool" where
  "session_active a \<longleftrightarrow> ap_job a \<noteq> None \<or> ap_listener a \<noteq> None"

(* @src crates/sensor-desktop/src/ui.rs:458-460 App::unpinned_peer *)
definition unpinned_peer :: "app \<Rightarrow> rstr \<Rightarrow> text_error + expected_peer" where
  "unpinned_peer a did = known_peer did [] (ap_contacts a)"

(* @src crates/sensor-desktop/src/ui.rs:438-448 App::ready *)
definition ready :: "app \<Rightarrow> bool" where
  "ready a \<longleftrightarrow> (let f = ap_form a in
     ap_job a = None \<and> \<not> ap_listener_busy a \<and>
     (fo_confirmed f \<or> (fo_use_render f \<and> fo_allow_unpinned f \<and> str_trim (fo_peer_key f) = [])) \<and>
     (is_ok (typed_peer (fo_peer_id f) (fo_peer_key f)) \<or>
      (fo_allow_unpinned f \<and> str_trim (fo_peer_id f) \<noteq> [] \<and> str_trim (fo_peer_key f) = [] \<and>
       is_ok (unpinned_peer a (fo_peer_id f)))))"

(* @src crates/sensor-desktop/src/ui.rs:449-457 App::ready_host *)
definition ready_host :: "app \<Rightarrow> bool" where
  "ready_host a \<longleftrightarrow> (let f = ap_form a in
     ap_job a = None \<and> ap_listener a = None \<and> fo_confirmed f \<and>
     (ready a \<or> (fo_allow_unpinned f \<and> str_trim (fo_peer_key f) = [] \<and> str_trim (fo_peer_id f) = [])))"

text \<open>The peer that stands for any.\<close>

definition any_peer :: "expected_peer option" where
  "any_peer = map_option (\<lambda>d. \<lparr>ep_device_id = d, ep_public_key = zero_key\<rparr>) (device_id_new 100000000)"

(* @src crates/sensor-desktop/src/ui.rs:461-473 App::expected_peer *)
definition app_peer :: "bool \<Rightarrow> app \<Rightarrow> text_error + expected_peer" where
  "app_peer host_any a = (let f = ap_form a in
     if fo_allow_unpinned f \<and> str_trim (fo_peer_key f) = []
     then if host_any \<and> str_trim (fo_peer_id f) = []
          then ok_or any_peer (TE ''Could not create wildcard device ID.'')
          else unpinned_peer a (fo_peer_id f)
     else known_peer (fo_peer_id f) (fo_peer_key f) (ap_contacts a))"

(* @src crates/sensor-desktop/src/ui.rs:474-488 App::relay_route *)
definition relay_route :: "app_env \<Rightarrow> app \<Rightarrow> text_error + route" where
  "relay_route V a = (let f = ap_form a in
     if fo_allow_unpinned f \<and> str_trim (fo_peer_key f) = []
     then Inl (TE ''Provisioned relay mode requires both endpoint public keys; use Direct TCP for first connection trust.'')
     else if \<not> ae_addr_ok V (str_trim (fo_relay_address f)) then Inl (TE ''Use a valid relay IP address and port.'')
     else res_bind (parse_hex 32 (fo_relay_key f)) (\<lambda>key. Inr (RT_Relay (str_trim (fo_relay_address f)) key)))"

(* @src crates/sensor-desktop/src/ui.rs:489-507 App::render_route *)
definition render_route :: "app_env \<Rightarrow> app \<Rightarrow> text_error + route" where
  "render_route V a = (let server = str_trim (fo_render_server (ap_form a)) in
     res_bind (map_err TE_Render (websocket_url (ae_uri V) server)) (\<lambda>_.
     if server = [] then Inl (TE ''Enter SENSOR_SERVER, for example https://sensor-test.onrender.com.'')
     else if \<not> (starts_with (lit ''https://'') server \<or> starts_with (lit ''http://'') server \<or>
         starts_with (lit ''wss://'') server \<or> starts_with (lit ''ws://'') server)
     then Inl (TE ''SENSOR_SERVER must start with https:// or wss://.'')
     else Inr (RT_Render server)))"

definition direct_route :: "app_env \<Rightarrow> rstr \<Rightarrow> string \<Rightarrow> text_error + route" where
  "direct_route V address e = (if ae_addr_ok V (str_trim address) then Inr (RT_Direct (str_trim address)) else Inl (TE e))"

(* @src crates/sensor-desktop/src/ui.rs:595-605 App::outbound_route *)
definition outbound_route :: "app_env \<Rightarrow> app \<Rightarrow> text_error + route" where
  "outbound_route V a =
     (if fo_use_render (ap_form a) then render_route V a
      else if fo_use_relay (ap_form a) then relay_route V a
      else direct_route V (fo_address (ap_form a)) ''Use a valid remote IP address and port.'')"

(* @src crates/sensor-desktop/src/ui.rs:606-616 App::listen_route *)
definition listen_route :: "app_env \<Rightarrow> app \<Rightarrow> text_error + route" where
  "listen_route V a =
     (if fo_use_render (ap_form a) then render_route V a
      else if fo_use_relay (ap_form a) then relay_route V a
      else direct_route V (fo_bind (ap_form a)) ''Use a valid local IP address and port.'')"

subsection \<open>Starting\<close>

(* @src crates/sensor-desktop/src/ui.rs:508-537 App::spawn_render_listener *)
definition spawn_render_listener :: "route \<Rightarrow> app \<Rightarrow> app" where
  "spawn_render_listener R a =
     (if ap_listener a \<noteq> None then a
      else case any_peer of
          None \<Rightarrow> notify (NO_Text ''Could not create the Render listener identity.'') (a\<lparr>ap_listener_enabled := False\<rparr>)
        | Some peer \<Rightarrow>
            (let t = TK_Host R (ap_receive a) False True
             in a\<lparr>ap_listener_route := Some R, ap_listener_registered := False,
                  ap_status := lit ''Connecting to SENSOR service...'', ap_listener := Some (job_started t peer),
                  ap_begun := ap_begun a @ [(t, peer)]\<rparr>))"

text \<open>\<open>saved\<close> is the result of writing the network settings.\<close>

(* @src crates/sensor-desktop/src/ui.rs:538-557 App::start_render_listener *)
definition start_render_listener :: "app_env \<Rightarrow> text_error + unit \<Rightarrow> app \<Rightarrow> app" where
  "start_render_listener V saved a =
     (case render_route V a of
        Inr R \<Rightarrow>
          (case saved of
             Inl e \<Rightarrow> notify (NO_Error e) a
           | Inr _ \<Rightarrow> spawn_render_listener R (a\<lparr>ap_listener_enabled := True, ap_notice := None\<rparr>))
      | Inl e \<Rightarrow> notify (NO_Error e) (a\<lparr>ap_listener_enabled := False\<rparr>))"

definition released :: "remote_view \<Rightarrow> remote_view" where
  "released v = v\<lparr>rv_buttons := replicate 3 False, rv_focused := False, rv_modifiers := replicate 3 False\<rparr>"

definition host_any :: "task \<Rightarrow> bool" where
  "host_any t = (case t of TK_Host R dir auto_accept accept_any \<Rightarrow> accept_any | _ \<Rightarrow> False)"

definition auto_any :: "task \<Rightarrow> bool" where
  "auto_any t = (case t of TK_Host R dir auto_accept accept_any \<Rightarrow> auto_accept \<and> accept_any | _ \<Rightarrow> False)"

text \<open>What the view becomes when a task begins; only a remote desktop clears it.\<close>

(* @src crates/sensor-desktop/src/ui.rs:631-645 App::begin, the view *)
definition begin_view :: "task \<Rightarrow> remote_view \<Rightarrow> remote_view" where
  "begin_view t v =
     (case t of
        TK_Remote R control clipboard \<Rightarrow>
          released (v\<lparr>rv_control := control, rv_close_at := None, rv_listener := False, rv_frame := None,
            rv_displays := [], rv_format := None, rv_cursor := None, rv_generation := 0\<rparr>)
      | _ \<Rightarrow> v\<lparr>rv_control := False\<rparr>)"

(* @src crates/sensor-desktop/src/ui.rs:617-678 App::begin *)
definition begin_task :: "task \<Rightarrow> app \<Rightarrow> app" where
  "begin_task t a =
     (if auto_any t
      then notify (NO_Text ''Auto-accept is available only with a pinned public key. Turn off first-connection trust before enabling it.'') a
      else let a = a\<lparr>ap_view := begin_view t (ap_view a),
               ap_page := (case t of TK_Remote R control clipboard \<Rightarrow> PG_Remote | _ \<Rightarrow> ap_page a)\<rparr>;
             task_ready = (if host_any t then ready_host a else ready a)
        in case app_peer (host_any t) a of
            Inr peer \<Rightarrow>
              if task_ready
              then a\<lparr>ap_notice := None, ap_progress := None, ap_status := lit ''Starting...'',
                     ap_job := Some (job_started t peer), ap_begun := ap_begun a @ [(t, peer)]\<rparr>
              else notify (NO_Text ''Verify the peer key and finish the current session first.'') a
          | Inl e \<Rightarrow> notify (NO_Error e) a)"

subsection \<open>The remote session's control\<close>

(* @src crates/sensor-desktop/src/ui.rs:907-913 App::active_remote_control *)
definition active_job :: "app \<Rightarrow> job option" where
  "active_job a = (if rv_listener (ap_view a) then ap_listener a else ap_job a)"

definition set_active_control :: "control \<Rightarrow> app \<Rightarrow> app" where
  "set_active_control c a =
     (if rv_listener (ap_view a) then a\<lparr>ap_listener := map_option (jb_control_update (\<lambda>_. c)) (ap_listener a)\<rparr>
      else a\<lparr>ap_job := map_option (jb_control_update (\<lambda>_. c)) (ap_job a)\<rparr>)"

text \<open>A message to the writing thread of the session shown.\<close>

definition send_active :: "desktop_message \<Rightarrow> app \<Rightarrow> (bool \<times> app) option" where
  "send_active m a =
     (case active_job a of
        None \<Rightarrow> None
      | Some j \<Rightarrow> (case send_remote m (jb_control j) of (sent, c) \<Rightarrow> Some (sent, set_active_control c a)))"

(* @src crates/sensor-desktop/src/ui.rs:915-928 App::send_remote *)
definition app_send_remote :: "input \<Rightarrow> app \<Rightarrow> bool \<times> app" where
  "app_send_remote ev a =
     (case send_active (DM_Input (rv_generation (ap_view a)) ev) a of
        None \<Rightarrow> (False, a)
      | Some (True, a) \<Rightarrow> (True, a)
      | Some (False, a) \<Rightarrow>
          (False, notify (NO_Text ''The remote input channel stopped; the session is being closed safely.'') a))"

(* @src crates/sensor-desktop/src/ui.rs:929-936 App::release_remote_input *)
definition release_remote_input :: "app \<Rightarrow> app" where
  "release_remote_input a =
     (let a = (if rv_control (ap_view a) \<and> (ap_job a \<noteq> None \<or> ap_listener a \<noteq> None)
          then snd (app_send_remote I_ReleaseAll a) else a)
      in a\<lparr>ap_view := released (ap_view a)\<rparr>)"

(* @src crates/sensor-desktop/src/ui.rs:937-952 App::select_remote_display *)
definition select_remote_display :: "nat \<Rightarrow> app \<Rightarrow> bool \<times> app" where
  "select_remote_display index a =
     (case send_active (DM_SelectDisplay index) a of
        None \<Rightarrow> (False, a)
      | Some (True, a) \<Rightarrow> (True, a)
      | Some (False, a) \<Rightarrow> (False, notify (NO_Text ''The remote monitor-selection channel is unavailable.'') a))"


subsection \<open>Ending a session\<close>

definition answer :: "nat \<Rightarrow> bool \<Rightarrow> app \<Rightarrow> app" where
  "answer r b a = a\<lparr>ap_answers := ap_answers a @ [(r, b)]\<rparr>"

definition reply_text :: "nat \<Rightarrow> rstr option \<Rightarrow> app \<Rightarrow> app" where
  "reply_text r t a = a\<lparr>ap_replies := ap_replies a @ [(r, t)]\<rparr>"

text \<open>A question that is dropped is answered with no, and a requested text with none.\<close>

definition drop_consent :: "app \<Rightarrow> app" where
  "drop_consent a = (case ap_consent a of None \<Rightarrow> a | Some pr \<Rightarrow> answer (pr_reply pr) False (a\<lparr>ap_consent := None\<rparr>))"

definition drop_compose :: "app \<Rightarrow> app" where
  "drop_compose a = (case ap_compose a of None \<Rightarrow> a | Some r \<Rightarrow> reply_text r None (a\<lparr>ap_compose := None\<rparr>))"

(* @src crates/sensor-desktop/src/ui.rs:576-593 App::clear_session_state, the view *)
definition clear_view :: "remote_view \<Rightarrow> remote_view" where
  "clear_view v =
     v\<lparr>rv_frame := None, rv_displays := [], rv_format := None, rv_cursor := None, rv_control := False,
       rv_profile := VP_Auto, rv_listener := False, rv_buttons := replicate 3 False, rv_focused := False,
       rv_modifiers := replicate 3 False, rv_close_at := None\<rparr>"

(* @src crates/sensor-desktop/src/ui.rs:558-594 App::clear_session_state *)
definition clear_session_state :: "bool \<Rightarrow> app \<Rightarrow> app" where
  "clear_session_state listener a =
     (let a = (if listener then a\<lparr>ap_listener_busy := False\<rparr> else a);
          a = (if is_some_and (\<lambda>pr. pr_listener pr = listener) (ap_consent a) then drop_consent a else a);
          a = (if ap_compose_listener a = listener then drop_compose a else a)
      in if rv_listener (ap_view a) = listener then a\<lparr>ap_view := clear_view (ap_view a)\<rparr> else a)"

definition stop_job :: "job \<Rightarrow> job" where
  "stop_job j = jb_control_update (\<lambda>c. snd (control_stop c)) j"

(* @src crates/sensor-desktop/src/ui.rs:679-697 App::stop *)
definition app_stop :: "app \<Rightarrow> app" where
  "app_stop a =
     (let a = drop_compose (drop_consent (release_remote_input a));
          a = a\<lparr>ap_job := map_option stop_job (ap_job a), ap_listener := map_option stop_job (ap_listener a),
                ap_listener_enabled := False\<rparr>
      in if ap_job a \<noteq> None \<or> ap_listener a \<noteq> None then a\<lparr>ap_status := lit ''Stopping session...''\<rparr> else a)"

(* @src crates/sensor-desktop/src/ui.rs:698-703 App::push_chat *)
definition push_chat :: "bool \<Rightarrow> rstr \<Rightarrow> app \<Rightarrow> app" where
  "push_chat own t a =
     a\<lparr>ap_history := (if length (ap_history a) = 200 then tl (ap_history a) else ap_history a) @ [(own, t)]\<rparr>"

subsection \<open>The events of the workers\<close>

(* @src crates/sensor-desktop/src/worker.rs:31-50 Event *)
datatype worker_event =
    WE_Online bool
  | WE_Status rstr
  | WE_Consent expected_peer mode nat
  | WE_Chat rstr
  | WE_Compose nat
  | WE_Progress "bytes option" nat nat
  | WE_RemoteDisplays "display list"
  | WE_RemoteFormat video_format
  | WE_RemoteCursor int int bool
  | WE_Finished worker_result

text \<open>\<open>now\<close>: the clock in milliseconds; \<open>unix\<close>: the system time in seconds, if it is valid.\<close>

(* @src crates/sensor-desktop/src/ui.rs:752-793 App::poll, Consent *)
definition poll_consent ::
  "bool \<Rightarrow> nat \<Rightarrow> text_error + nat \<Rightarrow> expected_peer \<Rightarrow> mode \<Rightarrow> nat \<Rightarrow> app \<Rightarrow> app" where
  "poll_consent listener now unix peer m r a =
     (case known_peer (device_id_display (ep_device_id peer)) (desktop_hex (ep_public_key peer)) (ap_contacts a) of
        Inl e \<Rightarrow> notify (NO_Check e) (answer r False a)
      | Inr _ \<Rightarrow>
          if ap_consent a \<noteq> None \<or> (listener \<and> (ap_job a \<noteq> None \<or> ap_listener_busy a)) then answer r False a
          else let a = (if listener then a\<lparr>ap_listener_busy := True\<rparr> else a);
                   a = (if is_desktop m
                        then a\<lparr>ap_page := PG_Remote,
                               ap_view := (ap_view a)\<lparr>rv_control := controls_input m, rv_listener := listener\<rparr>\<rparr>
                        else a)
               in if listener \<and> is_some_and (\<lambda>g. case unix of Inl _ \<Rightarrow> False | Inr t \<Rightarrow> grant_permits g peer m t)
                      (ap_unattended a)
                  then answer r True (notify (NO_Unattended (ep_device_id peer)) a)
                  else a\<lparr>ap_consent := Some \<lparr>pr_peer = peer, pr_mode = m, pr_reply = r, pr_opened = now,
                         pr_listener = listener\<rparr>\<rparr>)"

(* @src crates/sensor-desktop/src/ui.rs:827-847 App::poll, Finished of the listener *)
definition listener_finished :: "worker_result \<Rightarrow> app \<Rightarrow> app" where
  "listener_finished result a =
     (let stopped = stopped_locally (ap_listener a);
          a = clear_session_state True
                (a\<lparr>ap_listener := None, ap_listener_busy := False, ap_listener_registered := False\<rparr>)
      in if ap_listener_enabled a \<and> \<not> stopped
         then (case ap_listener_route a of None \<Rightarrow> a | Some R \<Rightarrow> spawn_render_listener R a)
         else if ap_job a = None
         then let a = a\<lparr>ap_status := dotted ''Offline '' '' Render listener stopped''\<rparr>
              in (case result of Inl e \<Rightarrow> notify (NO_Listener e) a | Inr _ \<Rightarrow> a)
         else a)"

(* @src crates/sensor-desktop/src/ui.rs:849-867 App::poll, Finished of the job *)
definition job_finished :: "worker_result \<Rightarrow> app \<Rightarrow> app" where
  "job_finished result a =
     (let stopped = stopped_locally (ap_job a);
          a = clear_session_state False (a\<lparr>ap_job := None\<rparr>);
          a = a\<lparr>ap_status := (if ap_listener_registered a then dotted ''Online '' '' Listener ready''
                else dotted ''Offline '' '' Session closed'')\<rparr>
      in notify (case result of
           Inr message \<Rightarrow> NO_Report message
         | Inl e \<Rightarrow>
             if stopped then NO_Text ''Stopped locally. Incomplete files are retained for an explicitly accepted resume.''
             else NO_Session e) a)"

text \<open>One event, of the listener or of the job. The flag tells that the listener's channel is closed.\<close>

(* @src crates/sensor-desktop/src/ui.rs:733-869 App::poll, the events *)
fun poll_event :: "bool \<Rightarrow> nat \<Rightarrow> text_error + nat \<Rightarrow> worker_event \<Rightarrow> bool \<times> app \<Rightarrow> bool \<times> app" where
  "poll_event listener now unix (WE_Online online) (gone, a) =
     (gone, if listener
       then let a = a\<lparr>ap_listener_registered := online\<rparr>
            in (if ap_job a = None
                then a\<lparr>ap_status := (if online then dotted ''Online '' '' Ready for an attended connection''
                       else dotted ''Connecting '' '' Internet listener'')\<rparr>
                else a)
       else a)"
| "poll_event listener now unix (WE_Status s) (gone, a) =
     (gone, if \<not> listener \<or> ap_job a = None then a\<lparr>ap_status := s\<rparr> else a)"
| "poll_event listener now unix (WE_Consent peer m r) (gone, a) = (gone, poll_consent listener now unix peer m r a)"
| "poll_event listener now unix (WE_Chat t) (gone, a) =
     (gone, if ap_job a \<noteq> None \<or> ap_listener a \<noteq> None then push_chat False t a else a)"
| "poll_event listener now unix (WE_Compose r) (gone, a) =
     (gone, if ap_compose a = None \<and> \<not> (listener \<and> ap_job a \<noteq> None)
       then a\<lparr>ap_compose := Some r, ap_compose_listener := listener, ap_page := PG_Chat\<rparr>
       else reply_text r None a)"
| "poll_event listener now unix (WE_RemoteDisplays ds) (gone, a) =
     (gone, a\<lparr>ap_view := (ap_view a)\<lparr>rv_listener := listener, rv_displays := ds\<rparr>\<rparr>)"
| "poll_event listener now unix (WE_RemoteFormat f) (gone, a) =
     (gone, a\<lparr>ap_view := (ap_view a)\<lparr>rv_listener := listener, rv_generation := vf_generation f, rv_format := Some f\<rparr>\<rparr>)"
| "poll_event listener now unix (WE_RemoteCursor x y shown) (gone, a) =
     (gone, a\<lparr>ap_view := (ap_view a)\<lparr>rv_listener := listener, rv_cursor := Some (x, y, shown)\<rparr>\<rparr>)"
| "poll_event listener now unix (WE_Progress transfer_id n whole) (gone, a) =
     (gone, let a = a\<lparr>ap_progress := Some (n, whole)\<rparr>
            in (case transfer_id of None \<Rightarrow> a | Some i \<Rightarrow> a\<lparr>ap_resume := desktop_hex i\<rparr>))"
| "poll_event listener now unix (WE_Finished result) (gone, a) =
     (if listener then (False, listener_finished result a) else (gone, job_finished result a))"

text \<open>A worker that went away without a result.\<close>

(* @src crates/sensor-desktop/src/ui.rs:870-881 App::poll, the job's worker is gone *)
definition job_vanished :: "app \<Rightarrow> app" where
  "job_vanished a =
     (let a = clear_session_state False (a\<lparr>ap_job := None\<rparr>)
      in notify (NO_Text ''The foreground worker stopped unexpectedly.'')
           (a\<lparr>ap_status := (if ap_listener_registered a then dotted ''Online '' '' Listener ready''
             else dotted ''Offline '' '' Worker stopped unexpectedly'')\<rparr>))"

(* @src crates/sensor-desktop/src/ui.rs:882-894 App::poll, the listener's worker is gone *)
definition listener_vanished :: "app \<Rightarrow> app" where
  "listener_vanished a =
     (let a = clear_session_state True
                (a\<lparr>ap_listener_registered := False, ap_listener := None, ap_listener_busy := False\<rparr>)
      in if ap_listener_enabled a
         then (case ap_listener_route a of None \<Rightarrow> a | Some R \<Rightarrow> spawn_render_listener R a)
         else if ap_job a = None then a\<lparr>ap_status := dotted ''Offline '' '' Render listener stopped''\<rparr>
         else a)"

record poll_input =
  pl_job :: "(nat \<times> (text_error + nat) \<times> worker_event) list"
  pl_job_gone :: bool
  pl_listener :: "(nat \<times> (text_error + nat) \<times> worker_event) list"
  pl_listener_gone :: bool

(* @src crates/sensor-desktop/src/ui.rs:732-733 App::poll, the events in order *)
fun poll_events :: "(bool \<times> nat \<times> (text_error + nat) \<times> worker_event) list \<Rightarrow> bool \<times> app \<Rightarrow> bool \<times> app" where
  "poll_events [] s = s"
| "poll_events ((listener, now, unix, ev) # evs) s = poll_events evs (poll_event listener now unix ev s)"

(* @src crates/sensor-desktop/src/ui.rs:705-731 App::poll, the queues *)
definition polled :: "poll_input \<Rightarrow> app \<Rightarrow> (bool \<times> nat \<times> (text_error + nat) \<times> worker_event) list" where
  "polled io a =
     (if ap_job a = None then [] else map (Pair False) (pl_job io)) @
     (if ap_listener a = None then [] else map (Pair True) (pl_listener io))"

(* @src crates/sensor-desktop/src/ui.rs:870-894 App::poll, workers that are gone *)
definition poll_gone :: "bool \<Rightarrow> bool \<Rightarrow> app \<Rightarrow> app" where
  "poll_gone job_gone listener_gone a =
     (let a = (if job_gone \<and> ap_job a \<noteq> None then job_vanished a else a)
      in if listener_gone \<and> ap_listener a \<noteq> None then listener_vanished a else a)"

(* @src crates/sensor-desktop/src/ui.rs:895-904 App::poll, the latest frame *)
definition poll_frame :: "app \<Rightarrow> app" where
  "poll_frame a =
     (case active_job a of
        None \<Rightarrow> a
      | Some j \<Rightarrow> (case ct_frame (jb_control j) of
          None \<Rightarrow> a | Some f \<Rightarrow> a\<lparr>ap_view := (ap_view a)\<lparr>rv_frame := Some f\<rparr>\<rparr>))"

(* @src crates/sensor-desktop/src/ui.rs:704-905 App::poll *)
definition app_poll :: "poll_input \<Rightarrow> app \<Rightarrow> app" where
  "app_poll io a =
     (let job_gone = ap_job a \<noteq> None \<and> pl_job_gone io;
          listener_gone = ap_listener a \<noteq> None \<and> pl_listener_gone io;
          (listener_gone, a) = poll_events (polled io a) (listener_gone, a)
      in poll_frame (poll_gone job_gone listener_gone a))"

subsection \<open>The user's actions\<close>

text \<open>A remote session that was asked to close is stopped after two seconds.\<close>

(* @src crates/sensor-desktop/src/ui.rs:2100-2108 App::update, the closing session *)
definition close_timer :: "nat \<Rightarrow> app \<Rightarrow> app" where
  "close_timer now a =
     (if is_some_and (\<lambda>since. 2000 \<le> now - since) (rv_close_at (ap_view a))
      then a\<lparr>ap_job := map_option stop_job (ap_job a), ap_view := (ap_view a)\<lparr>rv_close_at := None\<rparr>\<rparr> else a)"

text \<open>\<open>pressed\<close>: the button of the question that was pressed in this frame; \<open>sent\<close>: whether the worker still waits.\<close>

(* @src crates/sensor-desktop/src/ui.rs:2301-2316 App::update, the question for consent *)
definition consent_answer :: "bool option \<Rightarrow> nat \<Rightarrow> bool \<Rightarrow> app \<Rightarrow> app" where
  "consent_answer pressed now sent a =
     (case ap_consent a of
        None \<Rightarrow> a
      | Some pr \<Rightarrow>
          (case (if 120000 \<le> now - pr_opened pr then Some False else pressed) of
             None \<Rightarrow> a
           | Some b \<Rightarrow>
               (let a = answer (pr_reply pr) b (a\<lparr>ap_consent := None\<rparr>)
                in if sent then a else notify (NO_Text ''Request expired; no permission was granted.'') a)))"

(* @src crates/sensor-desktop/src/ui.rs:1335-1351 App::chat, the button *)
definition chat_send :: "bool \<Rightarrow> app \<Rightarrow> app" where
  "chat_send sent a =
     (case ap_compose a of
        None \<Rightarrow> a
      | Some r \<Rightarrow>
          if ap_draft a = [] \<or> MAX_CHAT_BYTES < str_len (ap_draft a) then a
          else let a' = reply_text r (Some (ap_draft a)) (a\<lparr>ap_compose := None, ap_draft := []\<rparr>)
               in if sent then push_chat True (ap_draft a) a'
                  else notify (NO_Text ''Session no longer accepts messages.'') a')"

(* @src crates/sensor-desktop/src/ui.rs:1366-1388 App::remote, Disconnect *)
definition disconnect :: "nat \<Rightarrow> app \<Rightarrow> app" where
  "disconnect now a =
     (if rv_close_at (ap_view a) \<noteq> None then a
      else let a = release_remote_input a
        in if rv_listener (ap_view a) then app_stop a
           else case ap_job a of
               None \<Rightarrow> a
             | Some j \<Rightarrow>
                 (case send_remote DM_Close (jb_control j) of
                    (True, c) \<Rightarrow>
                      a\<lparr>ap_job := Some (j\<lparr>jb_control := c\<rparr>), ap_view := (ap_view a)\<lparr>rv_close_at := Some now\<rparr>,
                        ap_status := lit ''Disconnecting remote desktop'' @ [8230]\<rparr>
                  | (False, c) \<Rightarrow> a\<lparr>ap_job := Some (stop_job (j\<lparr>jb_control := c\<rparr>))\<rparr>))"

(* @src crates/sensor-desktop/src/ui.rs:1460-1477 App::remote, the quality *)
definition select_profile :: "video_profile \<Rightarrow> app \<Rightarrow> app" where
  "select_profile profile a =
     (if rv_frame (ap_view a) = None \<or> rv_listener (ap_view a) \<or> profile = rv_profile (ap_view a) then a
      else case send_active (DM_SelectVideoProfile profile) (release_remote_input a) of
          Some (True, a) \<Rightarrow> a\<lparr>ap_view := (ap_view a)\<lparr>rv_profile := profile\<rparr>\<rparr>
        | Some (False, a) \<Rightarrow> a
        | None \<Rightarrow> release_remote_input a)"

(* @src crates/sensor-desktop/src/ui.rs:1404-1416 App::remote, the clipboard *)
definition toggle_clipboard :: "bool \<Rightarrow> app \<Rightarrow> app" where
  "toggle_clipboard enabled a =
     (case active_job a of
        None \<Rightarrow> a
      | Some j \<Rightarrow> if ct_clip_allowed (jb_control j) then set_active_control (set_clipboard_enabled enabled (jb_control j)) a
          else a)"

(* @src crates/sensor-desktop/src/ui.rs:1500-1526 App::remote, the monitor *)
definition select_monitor :: "nat \<Rightarrow> app \<Rightarrow> app" where
  "select_monitor selected a =
     (case rv_displays (ap_view a) of
        [] \<Rightarrow> a
      | d # ds \<Rightarrow>
          (let current = (case rv_format (ap_view a) of None \<Rightarrow> ds_index d | Some f \<Rightarrow> ds_index (vf_display f))
           in if selected \<in> ds_index ` set (d # ds) \<and> selected \<noteq> current then snd (select_remote_display selected a) else a))"

text \<open>The peer's identity as typed; \<open>changed\<close>: whether the ID or the key was edited, \<open>ticked\<close>: the box of the
  confirmation, when it was clicked.\<close>

(* @src crates/sensor-desktop/src/ui.rs:953-984 App::peer_form *)
definition peer_form :: "bool \<Rightarrow> rstr \<Rightarrow> rstr \<Rightarrow> bool \<Rightarrow> bool option \<Rightarrow> app \<Rightarrow> app" where
  "peer_form changed did key unpinned ticked a =
     (let f = (ap_form a)\<lparr>fo_peer_id := did, fo_peer_key := key\<rparr>;
          f = (if changed then f\<lparr>fo_confirmed := False\<rparr> else f);
          f = f\<lparr>fo_allow_unpinned := unpinned\<rparr>
      in a\<lparr>ap_form := (case ticked of None \<Rightarrow> f | Some b \<Rightarrow> f\<lparr>fo_confirmed := b\<rparr>)\<rparr>)"

(* @src crates/sensor-desktop/src/ui.rs:1039-1061 App::connect, the transport *)
definition select_transport :: "bool \<Rightarrow> bool \<Rightarrow> app \<Rightarrow> app" where
  "select_transport relay render a =
     a\<lparr>ap_form := (ap_form a)\<lparr>fo_use_relay := relay \<and> \<not> render, fo_use_render := render\<rparr>\<rparr>"

(* @src crates/sensor-desktop/src/ui.rs:1165-1170 App::connect, automatic acceptance *)
definition set_auto_accept :: "bool \<Rightarrow> app \<Rightarrow> app" where
  "set_auto_accept b a =
     (if \<not> fo_allow_unpinned (ap_form a) \<and> \<not> fo_use_render (ap_form a)
      then a\<lparr>ap_form := (ap_form a)\<lparr>fo_auto_accept := b\<rparr>\<rparr> else a)"

definition begin_on :: "app_env \<Rightarrow> (route \<Rightarrow> task) \<Rightarrow> app \<Rightarrow> app" where
  "begin_on V t a =
     (if \<not> ready a then a
      else case outbound_route V a of Inr R \<Rightarrow> begin_task (t R) a | Inl e \<Rightarrow> notify (NO_Error e) a)"

(* @src crates/sensor-desktop/src/ui.rs:1109-1114 App::connect, chat *)
definition start_chat :: "app_env \<Rightarrow> app \<Rightarrow> app" where
  "start_chat V = begin_on V TK_Chat"

(* @src crates/sensor-desktop/src/ui.rs:1020-1033 App::connect, view and control *)
definition start_remote :: "app_env \<Rightarrow> bool \<Rightarrow> app \<Rightarrow> app" where
  "start_remote V control a = begin_on V (\<lambda>R. TK_Remote R control (ap_request_clipboard a)) a"

(* @src crates/sensor-desktop/src/ui.rs:1178-1207 App::connect, listening *)
definition start_listening :: "app_env \<Rightarrow> text_error + unit \<Rightarrow> app \<Rightarrow> app" where
  "start_listening V saved a =
     (let f = ap_form a in
      if fo_use_render f
      then if ap_listener a = None \<and> is_ok (render_route V a) then start_render_listener V saved a else a
      else if \<not> ready_host a then a
      else case listen_route V a of
          Inr R \<Rightarrow> begin_task (TK_Host R (ap_receive a) (fo_auto_accept f)
                     (fo_allow_unpinned f \<and> str_trim (fo_peer_key f) = [])) a
        | Inl e \<Rightarrow> notify (NO_Error e) a)"

(* @src crates/sensor-desktop/src/ui.rs:1263-1279 App::files, Send file *)
definition start_sending :: "app_env \<Rightarrow> app \<Rightarrow> app" where
  "start_sending V a =
     (if \<not> ready a \<or> ap_file a = None then a
      else let resume = (if str_trim (ap_resume a) = [] then Inr None
             else res_bind (parse_hex 16 (ap_resume a)) (\<lambda>i. Inr (Some i)))
        in case (outbound_route V a, resume, ap_file a) of
             (Inr R, Inr resume, Some f) \<Rightarrow> begin_task (TK_Send R f resume) a
           | (_, Inl e, _) \<Rightarrow> notify (NO_Error e) a
           | (Inl e, _, _) \<Rightarrow> notify (NO_Error e) a
           | _ \<Rightarrow> notify (NO_Text ''Choose a file first.'') a)"

definition without_spaces :: "rstr \<Rightarrow> rstr" where
  "without_spaces s = filter (\<lambda>c. c \<noteq> 32) s"

(* @src crates/sensor-desktop/src/ui.rs:1798-1822 App::contacts, Save verified contact *)
definition save_contact :: "app_env \<Rightarrow> save_faults \<Rightarrow> app \<Rightarrow> app" where
  "save_contact V flt a =
     (if \<not> ready a then a
      else let f = ap_form a;
             contact = \<lparr>ct_name = str_trim (ap_contact_name a), ct_id = fo_peer_id f, ct_key = fo_peer_key f,
               ct_address = fo_address f\<rparr>
        in if list_ex (\<lambda>c. without_spaces (ct_id c) = without_spaces (ct_id contact)) (ap_contacts a)
           then notify (NO_Text ''That device already exists. Existing pinned keys are not silently replaced.'') a
           else (let next = ap_contacts a @ [contact];
                     (r, file) = contacts_save (ae_addr_ok V) (ae_contacts V) flt next (ap_contacts_file a);
                     a = a\<lparr>ap_contacts_file := file\<rparr>
                 in case r of
                      Inr _ \<Rightarrow> notify (NO_Text ''Verified contact saved locally.'') (a\<lparr>ap_contacts := next\<rparr>)
                    | Inl e \<Rightarrow> notify (NO_Error e) a))"

(* @src crates/sensor-desktop/src/ui.rs:1867-1889 App::contacts, Allow unattended *)
definition allow_unattended :: "app_env \<Rightarrow> save_faults \<Rightarrow> text_error + nat \<Rightarrow> nat \<Rightarrow> app \<Rightarrow> app" where
  "allow_unattended V flt unix index a =
     (if ap_listener_busy a \<or> ap_job a \<noteq> None \<or> length (ap_contacts a) \<le> index then a
      else let contact = ap_contacts a ! index
        in case res_bind (typed_peer (ct_id contact) (ct_key contact)) (\<lambda>p. res_bind unix (grant_new p)) of
             Inl e \<Rightarrow> notify (NO_Error e) a
           | Inr g \<Rightarrow>
               (let (r, file) = grant_save (ae_grants V) (ae_protector V) (ae_key V) flt (Some g) (ap_grant_file a);
                    a = a\<lparr>ap_grant_file := file\<rparr>
                in case r of
                     Inr _ \<Rightarrow> notify (NO_Text ''Unattended view/control authorized for this verified device for 30 days. Keep SENSOR open; this is not a boot-time service.'')
                       (a\<lparr>ap_unattended := Some g\<rparr>)
                   | Inl e \<Rightarrow> notify (NO_Error e) a))"

(* @src crates/sensor-desktop/src/ui.rs:1890-1895 App::contacts, Revoke unattended *)
definition revoke_unattended :: "app_env \<Rightarrow> save_faults \<Rightarrow> app \<Rightarrow> app" where
  "revoke_unattended V flt a =
     (if ap_unattended a = None then a
      else let a = app_stop (a\<lparr>ap_unattended := None\<rparr>);
             (r, file) = grant_save (ae_grants V) (ae_protector V) (ae_key V) flt None (ap_grant_file a)
        in notify (case r of
             Inr _ \<Rightarrow> NO_Text ''Unattended authority revoked and current sessions stopped.''
           | Inl e \<Rightarrow> NO_Revocation e) (a\<lparr>ap_grant_file := file\<rparr>))"

(* @src crates/sensor-desktop/src/ui.rs:1896-1903 App::contacts, Use contact *)
definition use_contact :: "nat \<Rightarrow> app \<Rightarrow> app" where
  "use_contact index a =
     (if ap_job a \<noteq> None \<or> length (ap_contacts a) \<le> index then a
      else let contact = ap_contacts a ! index
        in a\<lparr>ap_form := (ap_form a)\<lparr>fo_peer_id := ct_id contact, fo_peer_key := ct_key contact,
               fo_address := ct_address contact, fo_confirmed := True\<rparr>, ap_page := PG_Connect\<rparr>)"

(* @src crates/sensor-desktop/src/ui.rs:2196-2202 App::update, the pages *)
definition select_page :: "page \<Rightarrow> app \<Rightarrow> app" where
  "select_page p a = (if ap_page a = PG_Remote \<and> p \<noteq> PG_Remote then release_remote_input a else a)\<lparr>ap_page := p\<rparr>"

text \<open>The text fields and boxes that no other action reads while it is edited.\<close>

datatype typed =
    TY_Address rstr
  | TY_Bind rstr
  | TY_RelayAddress rstr
  | TY_RelayKey rstr
  | TY_Server rstr
  | TY_Resume rstr
  | TY_File rstr
  | TY_Receive rstr
  | TY_Draft rstr
  | TY_ContactName rstr
  | TY_Clipboard bool

fun type_text :: "typed \<Rightarrow> app \<Rightarrow> app" where
  "type_text (TY_Address s) a = a\<lparr>ap_form := (ap_form a)\<lparr>fo_address := s\<rparr>\<rparr>"
| "type_text (TY_Bind s) a = a\<lparr>ap_form := (ap_form a)\<lparr>fo_bind := s\<rparr>\<rparr>"
| "type_text (TY_RelayAddress s) a = a\<lparr>ap_form := (ap_form a)\<lparr>fo_relay_address := s\<rparr>\<rparr>"
| "type_text (TY_RelayKey s) a = a\<lparr>ap_form := (ap_form a)\<lparr>fo_relay_key := s\<rparr>\<rparr>"
| "type_text (TY_Server s) a = a\<lparr>ap_form := (ap_form a)\<lparr>fo_render_server := s\<rparr>\<rparr>"
| "type_text (TY_Resume s) a = a\<lparr>ap_resume := s\<rparr>"
| "type_text (TY_File s) a = a\<lparr>ap_file := Some s, ap_resume := []\<rparr>"
| "type_text (TY_Receive s) a = (if ap_job a = None then a\<lparr>ap_receive := s\<rparr> else a)"
| "type_text (TY_Draft s) a = (if ap_compose a \<noteq> None then a\<lparr>ap_draft := s\<rparr> else a)"
| "type_text (TY_ContactName s) a = a\<lparr>ap_contact_name := s\<rparr>"
| "type_text (TY_Clipboard b) a = a\<lparr>ap_request_clipboard := b\<rparr>"

text \<open>A frame of the window is a sequence of such steps.\<close>

datatype app_op =
    OP_Poll poll_input
  | OP_CloseTimer nat
  | OP_Consent "bool option" nat bool
  | OP_Chat bool
  | OP_Disconnect nat
  | OP_Profile video_profile
  | OP_Clipboard bool
  | OP_Monitor nat
  | OP_Input input
  | OP_Release
  | OP_Peer bool rstr rstr bool "bool option"
  | OP_Transport bool bool
  | OP_AutoAccept bool
  | OP_Type typed
  | OP_Page page
  | OP_StartChat
  | OP_StartRemote bool
  | OP_Listen "text_error + unit"
  | OP_SendFile
  | OP_SaveContact save_faults
  | OP_Allow save_faults "text_error + nat" nat
  | OP_Revoke save_faults
  | OP_UseContact nat
  | OP_Stop

fun app_step :: "app_env \<Rightarrow> app_op \<Rightarrow> app \<Rightarrow> app" where
  "app_step V (OP_Poll io) a = app_poll io a"
| "app_step V (OP_CloseTimer now) a = close_timer now a"
| "app_step V (OP_Consent pressed now sent) a = consent_answer pressed now sent a"
| "app_step V (OP_Chat sent) a = chat_send sent a"
| "app_step V (OP_Disconnect now) a = disconnect now a"
| "app_step V (OP_Profile profile) a = select_profile profile a"
| "app_step V (OP_Clipboard enabled) a = toggle_clipboard enabled a"
| "app_step V (OP_Monitor index) a = select_monitor index a"
| "app_step V (OP_Input ev) a = snd (app_send_remote ev a)"
| "app_step V OP_Release a = release_remote_input a"
| "app_step V (OP_Peer changed did key unpinned ticked) a = peer_form changed did key unpinned ticked a"
| "app_step V (OP_Transport relay render) a = select_transport relay render a"
| "app_step V (OP_AutoAccept b) a = set_auto_accept b a"
| "app_step V (OP_Type t) a = type_text t a"
| "app_step V (OP_Page p) a = select_page p a"
| "app_step V OP_StartChat a = start_chat V a"
| "app_step V (OP_StartRemote control) a = start_remote V control a"
| "app_step V (OP_Listen saved) a = start_listening V saved a"
| "app_step V OP_SendFile a = start_sending V a"
| "app_step V (OP_SaveContact flt) a = save_contact V flt a"
| "app_step V (OP_Allow flt unix index) a = allow_unattended V flt unix index a"
| "app_step V (OP_Revoke flt) a = revoke_unattended V flt a"
| "app_step V (OP_UseContact index) a = use_contact index a"
| "app_step V OP_Stop a = app_stop a"

fun app_run :: "app_env \<Rightarrow> app_op list \<Rightarrow> app \<Rightarrow> app" where
  "app_run V [] a = a"
| "app_run V (op # ops) a = app_run V ops (app_step V op a)"

text \<open>A window that has just opened; \<open>render\<close> and \<open>server\<close> are the saved network settings, \<open>files\<close> the
  files of the contacts and of the unattended grant.\<close>

(* @src crates/sensor-desktop/src/ui.rs:144-207 main, the App *)
definition app_new ::
  "rstr \<Rightarrow> contact list \<Rightarrow> grant option \<Rightarrow> bool \<Rightarrow> rstr \<Rightarrow> bytes option \<times> bytes option \<Rightarrow> app" where
  "app_new receive contacts unattended render server files =
     \<lparr>ap_form = \<lparr>fo_peer_id = [], fo_peer_key = [], fo_address = lit ''127.0.0.1:5909'', fo_bind = lit ''0.0.0.0:5909'',
        fo_use_relay = False, fo_relay_address = lit ''127.0.0.1:5910'', fo_relay_key = [], fo_use_render = render,
        fo_render_server = server, fo_auto_accept = False, fo_allow_unpinned = True, fo_confirmed = False\<rparr>,
      ap_view = \<lparr>rv_frame = None, rv_displays = [], rv_format = None, rv_cursor = None, rv_generation = 0,
        rv_control = False, rv_profile = VP_Auto, rv_listener = False, rv_buttons = replicate 3 False,
        rv_focused = False, rv_modifiers = replicate 3 False, rv_close_at = None\<rparr>,
      ap_page = PG_Connect, ap_receive = receive, ap_contacts = contacts, ap_unattended = unattended,
      ap_status = dotted ''Offline '' '' No listener started'', ap_notice = None, ap_job = None, ap_listener = None,
      ap_listener_enabled = False, ap_listener_route = None, ap_listener_busy = False,
      ap_listener_registered = False, ap_consent = None, ap_compose = None, ap_compose_listener = False,
      ap_draft = [], ap_history = [], ap_progress = None, ap_resume = [], ap_file = None, ap_contact_name = [],
      ap_request_clipboard = False, ap_answers = [], ap_replies = [], ap_begun = [],
      ap_contacts_file = fst files, ap_grant_file = snd files\<rparr>"

text \<open>An application starts its listener at once when a server is configured.\<close>

(* @src crates/sensor-desktop/src/ui.rs:208-210 main, the listener *)
definition app_open :: "app_env \<Rightarrow> text_error + unit \<Rightarrow> app \<Rightarrow> app" where
  "app_open V saved a =
     (if fo_use_render (ap_form a) \<and> str_trim (fo_render_server (ap_form a)) \<noteq> []
      then start_render_listener V saved a else a)"

subsection \<open>What a step leaves alone\<close>

text \<open>Steps that touch neither the sessions nor what is asked: two states agree on all that the invariants read.\<close>

definition session_of :: "job option \<Rightarrow> (task \<times> expected_peer) option" where
  "session_of j = map_option (\<lambda>j. (jb_task j, jb_peer j)) j"

definition quiet :: "app \<Rightarrow> app \<Rightarrow> bool" where
  "quiet a b \<longleftrightarrow>
     (ap_contacts b, ap_unattended b, ap_consent b, ap_compose b, ap_compose_listener b, ap_history b) =
       (ap_contacts a, ap_unattended a, ap_consent a, ap_compose a, ap_compose_listener a, ap_history a) \<and>
     (ap_answers b, ap_begun b, ap_listener_enabled b, ap_listener_route b, ap_listener_busy b) =
       (ap_answers a, ap_begun a, ap_listener_enabled a, ap_listener_route a, ap_listener_busy a) \<and>
     (session_of (ap_job b), session_of (ap_listener b)) = (session_of (ap_job a), session_of (ap_listener a))"

lemma session_of_simps [simp]:
  "session_of None = None" "session_of (Some j) = Some (jb_task j, jb_peer j)"
  "session_of (map_option (jb_control_update f) x) = session_of x" "session_of (map_option stop_job x) = session_of x"
  "(session_of x = None) = (x = None)"
  by (cases x; simp add: session_of_def stop_job_def)+

lemma calm_refl [simp]: "quiet a a"
  by (simp add: quiet_def)

lemma calm_trans: "quiet a b \<Longrightarrow> quiet b c \<Longrightarrow> quiet a c"
  by (simp add: quiet_def)

lemma quiet_notify [simp]: "quiet a (notify n b) = quiet a b"
  by (simp add: quiet_def notify_def)

lemma quiet_form [simp]: "quiet a (b\<lparr>ap_form := f\<rparr>) = quiet a b" "quiet a (b\<lparr>ap_view := v\<rparr>) = quiet a b"
  "quiet a (b\<lparr>ap_page := p\<rparr>) = quiet a b" "quiet a (b\<lparr>ap_status := s\<rparr>) = quiet a b"
  by (simp_all add: quiet_def)

lemma quiet_control: "quiet a (set_active_control c a)"
  by (simp add: quiet_def set_active_control_def)

lemma quiet_send_active: "send_active m a = Some (sent, b) \<Longrightarrow> quiet a b"
  by (auto simp: send_active_def quiet_control split: option.splits prod.splits)

lemma calm_send: "quiet a (snd (app_send_remote ev a))"
  using quiet_send_active [of "DM_Input (rv_generation (ap_view a)) ev" a]
  by (auto simp: app_send_remote_def split: option.split prod.split bool.split)

lemma quiet_release [simp]: "quiet a (release_remote_input a)"
  using calm_send [of a I_ReleaseAll] by (auto simp: release_remote_input_def Let_def)

lemma quiet_select: "quiet a (snd (select_remote_display index a))"
  using quiet_send_active [of "DM_SelectDisplay index" a]
  by (auto simp: select_remote_display_def split: option.split prod.split bool.split)

lemma quiet_profile: "quiet a (select_profile profile a)"
  using calm_trans [OF quiet_release quiet_send_active, of "DM_SelectVideoProfile profile" a]
  by (auto simp: select_profile_def split: option.split prod.split bool.split)

lemma quiet_step:
  "quiet a (close_timer now a)" "quiet a (toggle_clipboard enabled a)" "quiet a (select_monitor index a)"
  "quiet a (peer_form changed did key unpinned ticked a)" "quiet a (select_transport relay render a)"
  "quiet a (set_auto_accept b a)" "quiet a (type_text t a)" "quiet a (select_page pg a)" "quiet a (use_contact index a)"
proof -
  show "quiet a (close_timer now a)"
    by (simp add: close_timer_def quiet_def)
  show "quiet a (toggle_clipboard enabled a)"
    using quiet_control by (simp add: toggle_clipboard_def split: option.split)
  show "quiet a (select_monitor index a)"
    using quiet_select by (simp add: select_monitor_def Let_def split: list.split)
  show "quiet a (type_text t a)"
    by (cases t) (auto simp: quiet_def)
  show "quiet a (peer_form changed did key unpinned ticked a)"
    by (simp add: peer_form_def Let_def)
qed (simp_all add: select_transport_def set_auto_accept_def select_page_def use_contact_def Let_def)

subsection \<open>Who says yes\<close>

definition said_yes :: "app \<Rightarrow> nat \<Rightarrow> bool" where
  "said_yes a r \<longleftrightarrow> (r, True) \<in> set (ap_answers a)"

text \<open>The identity does not contradict the saved contacts.\<close>

definition recognised :: "app \<Rightarrow> expected_peer \<Rightarrow> bool" where
  "recognised a peer \<longleftrightarrow>
     is_ok (known_peer (device_id_display (ep_device_id peer)) (desktop_hex (ep_public_key peer)) (ap_contacts a))"

lemma typed_peer_display:
  assumes "device_id_wf (ep_device_id p)" and "length (ep_public_key p) = 32"
  shows "typed_peer (device_id_display (ep_device_id p)) (desktop_hex (ep_public_key p)) = Inr p"
proof -
  have "DeviceId (did_value (ep_device_id p)) = ep_device_id p"
    by (cases "ep_device_id p") simp
  then show ?thesis
    using assms device_id_display_parse [OF assms(1)]
    by (simp add: typed_peer_def parse_hex_def desktop_hex_def device_id_try_from_def device_id_new_def
        device_id_wf_def MIN_DEVICE_ID_def DEVICE_ID_SPAN_def word_less_nat_alt word_le_nat_alt)
qed

text \<open>A peer with a key is recognised only when the saved contact of its ID, if there is one, has this key.\<close>

lemma recognised_key:
  assumes "recognised a p" and "device_id_wf (ep_device_id p)" and "length (ep_public_key p) = 32"
    and "ep_public_key p \<noteq> zero_key"
    and "List.find (\<lambda>c. case typed_peer (ct_id c) (ct_key c) of
         Inl _ \<Rightarrow> False | Inr known \<Rightarrow> ep_device_id known = ep_device_id p) (ap_contacts a) = Some c"
  shows "typed_peer (ct_id c) (ct_key c) = Inr p"
proof -
  have "str_trim (desktop_hex (ep_public_key p)) \<noteq> []"
    using assms(3) length_hex_of_bytes [of "ep_public_key p"] by (auto simp: desktop_hex_def simp del: length_hex_of_bytes)
  then have known: "known_peer (device_id_display (ep_device_id p)) (desktop_hex (ep_public_key p)) (ap_contacts a) =
      res_bind (typed_peer (ct_id c) (ct_key c)) (\<lambda>known.
         if ep_public_key p \<noteq> zero_key \<and> ep_public_key p \<noteq> ep_public_key known
         then Inl (TE ''This device's key differs from its saved identity. Connection blocked.'')
         else Inr known)"
    using assms(5) by (simp add: known_peer_def typed_peer_display [OF assms(2,3)])
  have "case typed_peer (ct_id c) (ct_key c) of Inl _ \<Rightarrow> False | Inr known \<Rightarrow> ep_device_id known = ep_device_id p"
    using assms(5) unfolding find_Some_iff by blast
  then obtain k where k: "typed_peer (ct_id c) (ct_key c) = Inr k" and "ep_device_id k = ep_device_id p"
    by (cases "typed_peer (ct_id c) (ct_key c)") simp_all
  moreover have "ep_public_key k = ep_public_key p"
    using assms(1,4) known k by (auto simp: recognised_def is_ok_iff split: if_splits)
  ultimately show ?thesis
    by simp
qed

text \<open>A step that answers nothing with yes and asks no new question.\<close>

definition withdraws :: "app \<Rightarrow> app \<Rightarrow> bool" where
  "withdraws a b \<longleftrightarrow> said_yes b = said_yes a \<and> (ap_consent b = ap_consent a \<or> ap_consent b = None)"

lemma withdraws_refl [simp]: "withdraws a a"
  by (simp add: withdraws_def)

lemma withdraws_trans: "withdraws a b \<Longrightarrow> withdraws b c \<Longrightarrow> withdraws a c"
  by (auto simp: withdraws_def)

lemma quiet_withdraws: "quiet a b \<Longrightarrow> withdraws a b"
  by (simp add: withdraws_def quiet_def said_yes_def fun_eq_iff)

lemma withdraws_update [simp]:
  "withdraws a (notify n b) = withdraws a b" "withdraws a (b\<lparr>ap_status := s\<rparr>) = withdraws a b"
  "withdraws a (b\<lparr>ap_view := v\<rparr>) = withdraws a b" "withdraws a (b\<lparr>ap_job := j\<rparr>) = withdraws a b"
  "withdraws a (b\<lparr>ap_listener := j\<rparr>) = withdraws a b" "withdraws a (b\<lparr>ap_listener_busy := x\<rparr>) = withdraws a b"
  "withdraws a (b\<lparr>ap_listener_registered := x\<rparr>) = withdraws a b" "withdraws a (b\<lparr>ap_page := p\<rparr>) = withdraws a b"
  "withdraws a (b\<lparr>ap_listener_enabled := x\<rparr>) = withdraws a b" "withdraws a (b\<lparr>ap_compose := c\<rparr>) = withdraws a b"
  "withdraws a (b\<lparr>ap_notice := nn\<rparr>) = withdraws a b" "withdraws a (b\<lparr>ap_draft := s\<rparr>) = withdraws a b"
  "withdraws a (b\<lparr>ap_contacts_file := ff\<rparr>) = withdraws a b" "withdraws a (b\<lparr>ap_grant_file := ff\<rparr>) = withdraws a b"
  "withdraws a (b\<lparr>ap_contacts := cs\<rparr>) = withdraws a b" "withdraws a (b\<lparr>ap_unattended := u\<rparr>) = withdraws a b"
  "withdraws a (b\<lparr>ap_compose_listener := x\<rparr>) = withdraws a b" "withdraws a (b\<lparr>ap_progress := pg\<rparr>) = withdraws a b"
  "withdraws a (b\<lparr>ap_resume := s\<rparr>) = withdraws a b" "withdraws a (b\<lparr>ap_begun := bs\<rparr>) = withdraws a b"
  "withdraws a (reply_text r t b) = withdraws a b" "withdraws a (push_chat own u' b) = withdraws a b"
  by (simp_all add: withdraws_def said_yes_def fun_eq_iff notify_def reply_text_def push_chat_def)

lemma withdraws_drop:
  "withdraws a (drop_consent a)" "withdraws a (drop_compose a)"
  by (auto simp: drop_consent_def drop_compose_def answer_def withdraws_def said_yes_def fun_eq_iff reply_text_def
      split: option.split)

lemma withdraws_clear: "withdraws a (clear_session_state l a)"
proof -
  let ?a = "if l then a\<lparr>ap_listener_busy := False\<rparr> else a"
  let ?b = "if is_some_and (\<lambda>pr. pr_listener pr = l) (ap_consent ?a) then drop_consent ?a else ?a"
  have "withdraws ?a ?b" "withdraws a ?a"
    using withdraws_drop(1) [of ?a] by auto
  then have "withdraws a ?b"
    by (blast intro: withdraws_trans)
  then show ?thesis
    using withdraws_trans [OF _ withdraws_drop(2), of a ?b] by (simp add: clear_session_state_def Let_def)
qed

lemma withdraws_clears: "withdraws a b \<Longrightarrow> withdraws a (clear_session_state l b)"
  using withdraws_clear withdraws_trans by blast

lemma withdraws_spawn: "withdraws a (spawn_render_listener R a)"
  by (auto simp: spawn_render_listener_def withdraws_def said_yes_def fun_eq_iff notify_def Let_def split: option.split)

lemma withdraws_spawns: "withdraws a b \<Longrightarrow> withdraws a (spawn_render_listener R b)"
  using withdraws_spawn withdraws_trans by blast

lemma withdraws_ends:
  "withdraws a (listener_finished result a)" "withdraws a (job_finished result a)"
  "withdraws a (job_vanished a)" "withdraws a (listener_vanished a)"
  by (auto simp: listener_finished_def job_finished_def job_vanished_def listener_vanished_def Let_def
      intro!: withdraws_spawns withdraws_clears split: option.split sum.split)

lemma withdraws_stop: "withdraws a (app_stop a)"
proof -
  have "withdraws a (drop_compose (drop_consent (release_remote_input a)))"
    by (blast intro: withdraws_trans withdraws_drop quiet_withdraws quiet_release)
  then show ?thesis
    by (simp add: app_stop_def Let_def)
qed

text \<open>Of the workers' events, only a request asks; it is answered with yes at once only by the unattended grant.\<close>

lemma poll_event_asks:
  assumes "poll_event l now unix ev (gone, a) = (gone', b)"
  shows "said_yes b r \<Longrightarrow> said_yes a r \<or> (l \<and> (\<exists>peer m g t. ev = WE_Consent peer m r \<and> ap_unattended a = Some g \<and>
      unix = Inr t \<and> grant_permits g peer m t \<and> recognised a peer))"
    and "ap_consent b = Some pr \<Longrightarrow> ap_consent a = Some pr \<or>
      (ev = WE_Consent (pr_peer pr) (pr_mode pr) (pr_reply pr) \<and> pr_opened pr = now \<and> pr_listener pr = l \<and>
       recognised a (pr_peer pr))"
proof -
  have *: "(said_yes b r \<longrightarrow> said_yes a r \<or> (l \<and> (\<exists>peer m g t. ev = WE_Consent peer m r \<and> ap_unattended a = Some g \<and>
      unix = Inr t \<and> grant_permits g peer m t \<and> recognised a peer))) \<and>
    (ap_consent b = Some pr \<longrightarrow> ap_consent a = Some pr \<or>
      (ev = WE_Consent (pr_peer pr) (pr_mode pr) (pr_reply pr) \<and> pr_opened pr = now \<and> pr_listener pr = l \<and>
       recognised a (pr_peer pr)))"
  proof (cases "\<exists>peer m q. ev = WE_Consent peer m q")
    case True
    then obtain peer m q where ev: "ev = WE_Consent peer m q"
      by blast
    have b: "b = poll_consent l now unix peer m q a"
      using assms ev by simp
    show ?thesis
    proof (cases "ap_unattended a")
      case None
      then show ?thesis
        unfolding b ev poll_consent_def
        by (auto simp: recognised_def is_ok_iff answer_def notify_def said_yes_def Let_def split: sum.splits if_splits)
    next
      case (Some g)
      then show ?thesis
        unfolding b ev poll_consent_def
        by (auto simp: recognised_def is_ok_iff answer_def notify_def said_yes_def Let_def split: sum.splits if_splits)
    qed
  next
    case False
    have "withdraws a b"
      using False assms withdraws_ends
      by (cases ev) (auto simp: Let_def split: if_splits option.splits)
    then show ?thesis
      by (auto simp: withdraws_def)
  qed
  show "said_yes b r \<Longrightarrow> said_yes a r \<or> (l \<and> (\<exists>peer m g t. ev = WE_Consent peer m r \<and> ap_unattended a = Some g \<and>
      unix = Inr t \<and> grant_permits g peer m t \<and> recognised a peer))"
    and "ap_consent b = Some pr \<Longrightarrow> ap_consent a = Some pr \<or>
      (ev = WE_Consent (pr_peer pr) (pr_mode pr) (pr_reply pr) \<and> pr_opened pr = now \<and> pr_listener pr = l \<and>
       recognised a (pr_peer pr))"
    using * by blast+
qed

text \<open>The contacts and the unattended grant are not changed by the workers' events.\<close>

definition trusts :: "app \<Rightarrow> contact list \<times> grant option" where
  "trusts a = (ap_contacts a, ap_unattended a)"

lemma trusts_update [simp]:
  "trusts (notify n a) = trusts a" "trusts (a\<lparr>ap_status := s\<rparr>) = trusts a" "trusts (a\<lparr>ap_view := v\<rparr>) = trusts a"
  "trusts (a\<lparr>ap_job := j\<rparr>) = trusts a" "trusts (a\<lparr>ap_listener := j\<rparr>) = trusts a"
  "trusts (a\<lparr>ap_listener_busy := x\<rparr>) = trusts a" "trusts (a\<lparr>ap_listener_registered := x\<rparr>) = trusts a"
  "trusts (a\<lparr>ap_page := p\<rparr>) = trusts a" "trusts (a\<lparr>ap_compose := c\<rparr>) = trusts a"
  "trusts (a\<lparr>ap_compose_listener := x\<rparr>) = trusts a" "trusts (a\<lparr>ap_progress := pg\<rparr>) = trusts a"
  "trusts (a\<lparr>ap_resume := s\<rparr>) = trusts a" "trusts (a\<lparr>ap_consent := q\<rparr>) = trusts a"
  "trusts (reply_text r t a) = trusts a" "trusts (push_chat own u a) = trusts a" "trusts (answer r b a) = trusts a"
  by (simp_all add: trusts_def notify_def reply_text_def push_chat_def answer_def)

lemma trusts_helpers [simp]:
  "trusts (drop_consent a) = trusts a" "trusts (drop_compose a) = trusts a"
  by (simp_all add: drop_consent_def drop_compose_def split: option.split)

lemma trusts_clear [simp]: "trusts (clear_session_state l a) = trusts a"
  by (simp add: clear_session_state_def Let_def)

lemma trusts_spawn [simp]: "trusts (spawn_render_listener R a) = trusts a"
  by (simp add: spawn_render_listener_def Let_def split: option.split) (simp add: trusts_def notify_def split: option.split)

lemma trusts_ends [simp]:
  "trusts (listener_finished result a) = trusts a" "trusts (job_finished result a) = trusts a"
  "trusts (job_vanished a) = trusts a" "trusts (listener_vanished a) = trusts a"
  by (simp_all add: listener_finished_def job_finished_def job_vanished_def listener_vanished_def Let_def
      split: option.split sum.split)

lemma trusts_event [simp]: "trusts (snd (poll_event l now unix ev (gone, a))) = trusts a"
  by (cases ev) (simp_all add: Let_def poll_consent_def split: option.split sum.split)

lemma trusts_recognised: "trusts b = trusts a \<Longrightarrow> recognised b = recognised a"
  "trusts b = trusts a \<Longrightarrow> ap_unattended b = ap_unattended a"
  by (simp_all add: trusts_def recognised_def fun_eq_iff)

text \<open>A request that arrives with a poll: its clock, its peer, its mode and its channel.\<close>

definition arrives :: "(bool \<times> nat \<times> (text_error + nat) \<times> worker_event) list \<Rightarrow> app \<Rightarrow> consent_prompt \<Rightarrow> bool" where
  "arrives evs a pr \<longleftrightarrow> recognised a (pr_peer pr) \<and>
     (\<exists>unix. (pr_listener pr, pr_opened pr, unix, WE_Consent (pr_peer pr) (pr_mode pr) (pr_reply pr)) \<in> set evs)"

text \<open>A request to the listener that the unattended grant permits.\<close>

definition granted_in :: "(bool \<times> nat \<times> (text_error + nat) \<times> worker_event) list \<Rightarrow> app \<Rightarrow> nat \<Rightarrow> bool" where
  "granted_in evs a r \<longleftrightarrow> (\<exists>now t peer m g. (True, now, Inr t, WE_Consent peer m r) \<in> set evs \<and>
     ap_unattended a = Some g \<and> grant_permits g peer m t \<and> recognised a peer)"

lemma arrives_cons: "arrives evs b pr \<Longrightarrow> trusts b = trusts a \<Longrightarrow> arrives (e # evs) a pr"
  using trusts_recognised [of b a] by (auto simp: arrives_def)

lemma granted_cons: "granted_in evs b r \<Longrightarrow> trusts b = trusts a \<Longrightarrow> granted_in (e # evs) a r"
  using trusts_recognised [of b a] unfolding granted_in_def by (metis list.set_intros(2))

lemma poll_events_asks:
  "poll_events evs (gone, a) = (gone', b) \<Longrightarrow>
    trusts b = trusts a \<and> (said_yes b r \<longrightarrow> said_yes a r \<or> granted_in evs a r) \<and>
    (ap_consent b = Some pr \<longrightarrow> ap_consent a = Some pr \<or> arrives evs a pr)"
proof (induction evs arbitrary: gone a)
  case (Cons e evs)
  obtain l now unix ev where e: "e = (l, now, unix, ev)"
    by (cases e)
  obtain g1 a1 where step: "poll_event l now unix ev (gone, a) = (g1, a1)"
    by (cases "poll_event l now unix ev (gone, a)")
  have t: "trusts a1 = trusts a"
    using trusts_event [of l now unix ev gone a] step by simp
  have ih: "trusts b = trusts a1 \<and> (said_yes b r \<longrightarrow> said_yes a1 r \<or> granted_in evs a1 r) \<and>
      (ap_consent b = Some pr \<longrightarrow> ap_consent a1 = Some pr \<or> arrives evs a1 pr)"
    using Cons.IH [of g1 a1] Cons.prems step e by simp
  have "said_yes a1 r \<Longrightarrow> said_yes a r \<or> granted_in (e # evs) a r"
    using poll_event_asks(1) [OF step, of r] by (simp add: granted_in_def e) blast
  moreover have "ap_consent a1 = Some pr \<Longrightarrow> ap_consent a = Some pr \<or> arrives (e # evs) a pr"
    using poll_event_asks(2) [OF step, of pr] unfolding arrives_def e by auto
  ultimately show ?case
    using ih t granted_cons [of evs a1 r a e] arrives_cons [of evs a1 pr a e] by argo
qed simp

lemma withdraws_gone: "withdraws a (poll_gone j l a)"
proof -
  let ?b = "if j \<and> ap_job a \<noteq> None then job_vanished a else a"
  have "withdraws a ?b" "withdraws ?b (if l \<and> ap_listener ?b \<noteq> None then listener_vanished ?b else ?b)"
    by (simp_all add: withdraws_ends)
  then show ?thesis
    unfolding poll_gone_def Let_def by (rule withdraws_trans)
qed

lemma withdraws_frame: "withdraws a (poll_frame a)"
  by (simp add: poll_frame_def split: option.split)

lemma app_poll_asks:
  "said_yes (app_poll io a) r \<Longrightarrow> said_yes a r \<or> granted_in (polled io a) a r"
  "ap_consent (app_poll io a) = Some pr \<Longrightarrow> ap_consent a = Some pr \<or> arrives (polled io a) a pr"
  "trusts (app_poll io a) = trusts a"
proof -
  obtain g b where pe: "poll_events (polled io a) (ap_listener a \<noteq> None \<and> pl_listener_gone io, a) = (g, b)"
    by (cases "poll_events (polled io a) (ap_listener a \<noteq> None \<and> pl_listener_gone io, a)")
  have ap: "app_poll io a = poll_frame (poll_gone (ap_job a \<noteq> None \<and> pl_job_gone io) g b)"
    by (simp only: app_poll_def Let_def pe prod.case)
  have w: "withdraws b (app_poll io a)"
    using withdraws_trans [OF withdraws_gone withdraws_frame] by (simp add: ap)
  have "trusts (app_poll io a) = trusts b"
    by (simp add: ap poll_frame_def poll_gone_def Let_def split: option.split)
  then show "trusts (app_poll io a) = trusts a"
    using poll_events_asks [OF pe] by simp
  show "said_yes (app_poll io a) r \<Longrightarrow> said_yes a r \<or> granted_in (polled io a) a r"
    using w poll_events_asks [OF pe] by (auto simp: withdraws_def)
  show "ap_consent (app_poll io a) = Some pr \<Longrightarrow> ap_consent a = Some pr \<or> arrives (polled io a) a pr"
    using w poll_events_asks [OF pe] by (metis withdraws_def option.distinct(1))
qed

lemma withdraws_begin: "withdraws a (begin_task t a)"
  by (simp add: begin_task_def Let_def split: sum.split)

lemma withdraws_starts:
  "withdraws a (begin_on V f a)" "withdraws a (start_render_listener V saved a)"
  "withdraws a (start_listening V saved a)" "withdraws a (start_sending V a)"
proof -
  show r: "withdraws a (start_render_listener V saved a)" for a
    by (simp add: start_render_listener_def withdraws_spawns split: sum.split)
  show "withdraws a (begin_on V f a)"
    by (simp add: begin_on_def withdraws_begin split: sum.split)
  show "withdraws a (start_listening V saved a)"
    by (simp add: start_listening_def withdraws_begin r Let_def split: sum.split)
  show "withdraws a (start_sending V a)"
    by (simp add: start_sending_def withdraws_begin Let_def split: sum.split option.split)
qed

lemma withdraws_disconnect: "withdraws a (disconnect now a)"
proof -
  have r: "withdraws a (release_remote_input a)"
    by (simp add: quiet_withdraws)
  then show ?thesis
    by (auto simp: disconnect_def Let_def intro: withdraws_trans [OF r withdraws_stop] split: option.split prod.split bool.split)
qed

lemma withdraws_trust:
  "withdraws a (save_contact V flt a)" "withdraws a (allow_unattended V flt unix index a)"
  "withdraws a (revoke_unattended V flt a)"
proof -
  show "withdraws a (revoke_unattended V flt a)"
    using withdraws_trans [OF _ withdraws_stop, of a "a\<lparr>ap_unattended := None\<rparr>"]
    by (simp add: revoke_unattended_def Let_def split: prod.split)
qed (simp_all add: save_contact_def allow_unattended_def Let_def split: sum.split prod.split)

lemma withdraws_step:
  assumes "\<not> (\<exists>io. op = OP_Poll io)" and "\<not> (\<exists>b now sent. op = OP_Consent b now sent)"
  shows "withdraws a (app_step V op a)"
  using assms
  by (cases op) (simp_all add: quiet_withdraws quiet_step quiet_profile calm_send withdraws_disconnect withdraws_trust
      withdraws_starts withdraws_stop start_chat_def start_remote_def chat_send_def Let_def split: option.split)

lemma consent_answer_asks:
  "said_yes (consent_answer pressed now sent a) r \<Longrightarrow> said_yes a r \<or>
     (\<exists>pr. pressed = Some True \<and> ap_consent a = Some pr \<and> pr_reply pr = r \<and> now < pr_opened pr + 120000)"
  "ap_consent (consent_answer pressed now sent a) = Some pr \<Longrightarrow> ap_consent a = Some pr"
  by (auto simp: consent_answer_def answer_def notify_def said_yes_def Let_def split: option.splits if_splits)

text \<open>The user's yes to a question that is open and younger than two minutes.\<close>

definition allows :: "app_op \<Rightarrow> app \<Rightarrow> consent_prompt \<Rightarrow> bool" where
  "allows op a pr \<longleftrightarrow> (\<exists>now sent. op = OP_Consent (Some True) now sent \<and> ap_consent a = Some pr \<and>
     now < pr_opened pr + 120000)"

definition polls :: "app_op \<Rightarrow> app \<Rightarrow> (bool \<times> nat \<times> (text_error + nat) \<times> worker_event) list" where
  "polls op a = (case op of OP_Poll io \<Rightarrow> polled io a | _ \<Rightarrow> [])"

lemma asks_nothing [simp]: "\<not> granted_in [] a r" "\<not> arrives [] a pr"
  by (simp_all add: granted_in_def arrives_def)

lemma app_step_asks:
  "said_yes (app_step V op a) r \<Longrightarrow>
    said_yes a r \<or> granted_in (polls op a) a r \<or> (\<exists>pr. pr_reply pr = r \<and> allows op a pr)"
  "ap_consent (app_step V op a) = Some pr \<Longrightarrow> ap_consent a = Some pr \<or> arrives (polls op a) a pr"
proof -
  have *: "(said_yes (app_step V op a) r \<longrightarrow>
      said_yes a r \<or> granted_in (polls op a) a r \<or> (\<exists>pr. pr_reply pr = r \<and> allows op a pr)) \<and>
    (ap_consent (app_step V op a) = Some pr \<longrightarrow> ap_consent a = Some pr \<or> arrives (polls op a) a pr)"
  proof (cases "\<exists>io. op = OP_Poll io")
    case True
    then obtain io where op: "op = OP_Poll io"
      by blast
    show ?thesis
      using app_poll_asks(1) [of io a r] app_poll_asks(2) [of io a pr] by (auto simp: op polls_def)
  next
    case no_poll: False
    show ?thesis
    proof (cases "\<exists>b now sent. op = OP_Consent b now sent")
      case True
      then obtain b now sent where op: "op = OP_Consent b now sent"
        by blast
      show ?thesis
        using consent_answer_asks(1) [of b now sent a r] consent_answer_asks(2) [of b now sent a pr]
        by (auto simp: op polls_def allows_def)
    next
      case False
      then have "withdraws a (app_step V op a)"
        using no_poll by (intro withdraws_step)
      then show ?thesis
        by (auto simp: withdraws_def)
    qed
  qed
  show "said_yes (app_step V op a) r \<Longrightarrow>
      said_yes a r \<or> granted_in (polls op a) a r \<or> (\<exists>pr. pr_reply pr = r \<and> allows op a pr)"
    and "ap_consent (app_step V op a) = Some pr \<Longrightarrow> ap_consent a = Some pr \<or> arrives (polls op a) a pr"
    using * by blast+
qed

lemma app_run_snoc [simp]: "app_run V (ops @ [op]) a = app_step V op (app_run V ops a)"
  by (induction ops arbitrary: a) simp_all

lemma run_prompt:
  "ap_consent (app_run V ops a) = Some pr \<Longrightarrow> ap_consent a = None \<Longrightarrow>
    \<exists>pre op post. ops = pre @ op # post \<and> arrives (polls op (app_run V pre a)) (app_run V pre a) pr"
proof (induction ops rule: rev_induct)
  case (snoc op ops)
  show ?case
  proof (cases "arrives (polls op (app_run V ops a)) (app_run V ops a) pr")
    case False
    then obtain pre op' post where "ops = pre @ op' # post"
        "arrives (polls op' (app_run V pre a)) (app_run V pre a) pr"
      using app_step_asks(2) [of V op "app_run V ops a" pr] snoc by auto
    then have "ops @ [op] = pre @ op' # (post @ [op]) \<and> arrives (polls op' (app_run V pre a)) (app_run V pre a) pr"
      by simp
    then show ?thesis
      by blast
  qed blast
qed simp

lemma run_yes:
  "said_yes (app_run V ops a) r \<Longrightarrow> \<not> said_yes a r \<Longrightarrow>
    \<exists>pre op post. ops = pre @ op # post \<and> (granted_in (polls op (app_run V pre a)) (app_run V pre a) r \<or>
      (\<exists>pr. pr_reply pr = r \<and> allows op (app_run V pre a) pr))"
proof (induction ops rule: rev_induct)
  case (snoc op ops)
  show ?case
  proof (cases "said_yes (app_run V ops a) r")
    case True
    then obtain pre op' post where ops: "ops = pre @ op' # post"
      and "granted_in (polls op' (app_run V pre a)) (app_run V pre a) r \<or>
        (\<exists>pr. pr_reply pr = r \<and> allows op' (app_run V pre a) pr)"
      using snoc by blast
    moreover have "ops @ [op] = pre @ op' # (post @ [op])"
      by (simp add: ops)
    ultimately show ?thesis
      by blast
  next
    case False
    then show ?thesis
      using app_step_asks(1) [of V op "app_run V ops a" r] snoc.prems by auto
  qed
qed simp

text \<open>The window as the application opens it.\<close>

lemma app_open_asks_nothing:
  "\<not> said_yes (app_open V saved (app_new receive contacts unattended render server files)) r"
  "ap_consent (app_open V saved (app_new receive contacts unattended render server files)) = None"
proof -
  have "withdraws a (app_open V saved a)" for a
    by (simp add: app_open_def withdraws_starts)
  from this [of "app_new receive contacts unattended render server files"]
  show "\<not> said_yes (app_open V saved (app_new receive contacts unattended render server files)) r"
    and "ap_consent (app_open V saved (app_new receive contacts unattended render server files)) = None"
    by (auto simp: withdraws_def said_yes_def app_new_def)
qed

text \<open>C13: A request is granted only by the user or by the unattended grant. Whatever the workers report and the
  user does, in any order, since the window opened: a request is answered with yes only when the user
  presses Accept while the question of exactly this request is open and less than two minutes old, a question
  that is asked only for a peer whose identity does not contradict the saved contacts; or when the request
  came to the listener and the unattended grant in force at that moment permits this peer and this mode.\<close>

theorem window_grants_requests:
  assumes "a0 = app_open V saved (app_new receive contacts unattended render server files)"
    and "said_yes (app_run V ops a0) r"
  shows "\<exists>pre op post. ops = pre @ op # post \<and>
    (granted_in (polls op (app_run V pre a0)) (app_run V pre a0) r \<or>
     (\<exists>pr. pr_reply pr = r \<and> allows op (app_run V pre a0) pr \<and>
        (\<exists>before ask between. pre = before @ ask # between \<and>
           arrives (polls ask (app_run V before a0)) (app_run V before a0) pr)))"
proof -
  obtain pre op post where ops: "ops = pre @ op # post" and yes: "granted_in (polls op (app_run V pre a0)) (app_run V pre a0) r \<or>
      (\<exists>pr. pr_reply pr = r \<and> allows op (app_run V pre a0) pr)"
    using run_yes [OF assms(2)] app_open_asks_nothing(1) assms(1) by blast
  have "\<exists>before ask between. pre = before @ ask # between \<and>
      arrives (polls ask (app_run V before a0)) (app_run V before a0) pr" if "allows op (app_run V pre a0) pr" for pr
  proof -
    have "ap_consent (app_run V pre a0) = Some pr" and "ap_consent a0 = None"
      using that app_open_asks_nothing(2) by (auto simp: allows_def assms(1) simp del: app_run.simps)
    then show ?thesis
      by (rule run_prompt)
  qed
  with yes have "granted_in (polls op (app_run V pre a0)) (app_run V pre a0) r \<or>
     (\<exists>pr. pr_reply pr = r \<and> allows op (app_run V pre a0) pr \<and>
        (\<exists>before ask between. pre = before @ ask # between \<and>
           arrives (polls ask (app_run V before a0)) (app_run V before a0) pr))"
    by blast
  with ops show ?thesis
    by blast
qed

definition demo_app_env :: app_env where
  "demo_app_env = \<lparr>ae_uri = demo_uri_lib, ae_addr_ok = (\<lambda>_. True), ae_contacts = demo_contacts_json,
     ae_grants = demo_grant_json, ae_protector = demo_protector, ae_key = replicate 32 9\<rparr>"

definition demo_requester :: expected_peer where
  "demo_requester = \<lparr>ep_device_id = DeviceId 123456789, ep_public_key = replicate 32 7\<rparr>"

definition demo_app :: app where
  "demo_app = app_open demo_app_env (Inr ()) (app_new [] [] None False [] (None, None))"

text \<open>A listener for any peer is started, a request for chat arrives, and the user accepts it.\<close>

definition demo_ops :: "app_op list" where
  "demo_ops = [OP_Peer False [] [] True (Some True), OP_Listen (Inr ()),
     OP_Poll \<lparr>pl_job = [(100, Inr 0, WE_Consent demo_requester M_Chat 7)], pl_job_gone = False, pl_listener = [],
       pl_listener_gone = False\<rparr>,
     OP_Consent (Some True) 5000 True]"

lemma demo_recognised:
  "known_peer (device_id_display (ep_device_id demo_requester)) (desktop_hex (ep_public_key demo_requester)) [] =
    Inr demo_requester"
proof -
  have "str_trim (hex_of_bytes (replicate 32 7)) \<noteq> []"
    using length_hex_of_bytes [of "replicate 32 7"] by (auto simp del: length_hex_of_bytes)
  then show ?thesis
    using typed_peer_display [of demo_requester]
    by (simp add: known_peer_def demo_requester_def desktop_hex_def device_id_wf_def)
qed

lemma any_peer_eq: "any_peer = Some \<lparr>ep_device_id = DeviceId 100000000, ep_public_key = zero_key\<rparr>"
  by (simp add: any_peer_def device_id_new_def MIN_DEVICE_ID_def DEVICE_ID_SPAN_def word_less_nat_alt word_le_nat_alt)

lemma demo_run_yes: "said_yes (app_run demo_app_env demo_ops demo_app) 7"
proof -
  have "ready_host (app_step demo_app_env (OP_Peer False [] [] True (Some True)) demo_app)"
    by (simp add: demo_app_def app_open_def app_new_def peer_form_def ready_host_def str_trim_def)
  then show ?thesis
    using demo_recognised
    by (simp add: demo_ops_def demo_app_def app_open_def app_new_def peer_form_def start_listening_def listen_route_def
        direct_route_def demo_app_env_def begin_task_def auto_any_def host_any_def begin_view_def app_peer_def any_peer_eq
        str_trim_def ok_or_def app_poll_def polled_def poll_consent_def poll_gone_def poll_frame_def active_job_def
        job_started_def control_default_def consent_answer_def answer_def said_yes_def is_desktop_def Let_def)
qed

lemma window_grants_requests_witness:
  "\<exists>pre op post. demo_ops = pre @ op # post \<and>
    (granted_in (polls op (app_run demo_app_env pre demo_app)) (app_run demo_app_env pre demo_app) 7 \<or>
     (\<exists>pr. pr_reply pr = 7 \<and> allows op (app_run demo_app_env pre demo_app) pr \<and>
        (\<exists>before ask between. pre = before @ ask # between \<and>
           arrives (polls ask (app_run demo_app_env before demo_app)) (app_run demo_app_env before demo_app) pr)))"
  by (rule window_grants_requests [OF demo_app_def demo_run_yes])

subsection \<open>One session at a time\<close>

definition window_ok :: "app \<Rightarrow> bool" where
  "window_ok a \<longleftrightarrow>
     (ap_listener_busy a \<longrightarrow> ap_job a = None \<and> ap_listener a \<noteq> None) \<and>
     (\<forall>pr. ap_consent a = Some pr \<longrightarrow> (if pr_listener pr then ap_listener_busy a else ap_job a \<noteq> None)) \<and>
     (ap_compose a \<noteq> None \<longrightarrow> (if ap_compose_listener a then ap_listener a \<noteq> None else ap_job a \<noteq> None)) \<and>
     length (ap_history a) \<le> 200 \<and> (\<forall>(t, p) \<in> set (ap_begun a). \<not> auto_any t) \<and>
     (\<forall>t p. session_of (ap_listener a) = Some (t, p) \<longrightarrow> (\<exists>R dir. t = TK_Host R dir False True))"

lemma window_ok_quiet: "quiet a b \<Longrightarrow> window_ok b = window_ok a"
proof -
  assume q: "quiet a b"
  then have "session_of (ap_job b) = session_of (ap_job a)" "session_of (ap_listener b) = session_of (ap_listener a)"
    by (simp_all add: quiet_def)
  then have "(ap_job b = None) = (ap_job a = None)" "(ap_listener b = None) = (ap_listener a = None)"
    using session_of_simps(5) by metis+
  then show ?thesis
    using q by (simp add: quiet_def window_ok_def)
qed

lemma window_ok_update [simp]:
  "window_ok (notify n a) = window_ok a" "window_ok (answer r b a) = window_ok a"
  "window_ok (reply_text r t a) = window_ok a" "window_ok (a\<lparr>ap_view := v\<rparr>) = window_ok a"
  "window_ok (a\<lparr>ap_page := pg\<rparr>) = window_ok a" "window_ok (a\<lparr>ap_status := s\<rparr>) = window_ok a"
  "window_ok (a\<lparr>ap_listener_registered := x\<rparr>) = window_ok a" "window_ok (a\<lparr>ap_listener_enabled := x\<rparr>) = window_ok a"
  "window_ok (a\<lparr>ap_progress := g\<rparr>) = window_ok a" "window_ok (a\<lparr>ap_resume := s\<rparr>) = window_ok a"
  "window_ok (a\<lparr>ap_notice := nn\<rparr>) = window_ok a" "window_ok (a\<lparr>ap_draft := s\<rparr>) = window_ok a"
  "window_ok (a\<lparr>ap_contacts := cs\<rparr>) = window_ok a" "window_ok (a\<lparr>ap_contacts_file := ff\<rparr>) = window_ok a"
  "window_ok (a\<lparr>ap_grant_file := ff\<rparr>) = window_ok a" "window_ok (a\<lparr>ap_unattended := u\<rparr>) = window_ok a"
  by (simp_all add: window_ok_def notify_def answer_def reply_text_def)

lemma window_ok_chat: "window_ok a \<Longrightarrow> window_ok (push_chat own t a)"
  by (auto simp: window_ok_def push_chat_def)

lemma window_ok_drop: "window_ok a \<Longrightarrow> window_ok (drop_consent a)" "window_ok a \<Longrightarrow> window_ok (drop_compose a)"
  by (auto simp: drop_consent_def drop_compose_def window_ok_def answer_def reply_text_def split: option.split)

lemma window_ok_spawn: "window_ok a \<Longrightarrow> window_ok (spawn_render_listener R a)"
  by (auto simp: spawn_render_listener_def window_ok_def notify_def job_started_def auto_any_def Let_def split: option.split)

text \<open>What a finished session leaves is cleared.\<close>

lemma window_ok_clear:
  "window_ok a \<Longrightarrow> window_ok (clear_session_state True (a\<lparr>ap_listener := None, ap_listener_busy := False\<rparr>))"
  "window_ok a \<Longrightarrow> window_ok (clear_session_state False (a\<lparr>ap_job := None\<rparr>))"
proof -
  assume ok: "window_ok a"
  show "window_ok (clear_session_state True (a\<lparr>ap_listener := None, ap_listener_busy := False\<rparr>))"
    using ok by (cases "ap_consent a"; cases "ap_compose a")
      (auto simp: clear_session_state_def drop_consent_def drop_compose_def window_ok_def answer_def reply_text_def Let_def
        split: if_splits)
  show "window_ok (clear_session_state False (a\<lparr>ap_job := None\<rparr>))"
    using ok by (cases "ap_consent a"; cases "ap_compose a")
      (auto simp: clear_session_state_def drop_consent_def drop_compose_def window_ok_def answer_def reply_text_def Let_def
        split: if_splits)
qed

lemma clear_order [simp]:
  "a\<lparr>ap_listener := None, ap_listener_busy := False, ap_listener_registered := False\<rparr> =
    (a\<lparr>ap_listener_registered := False\<rparr>)\<lparr>ap_listener := None, ap_listener_busy := False\<rparr>"
  by simp

lemma window_ok_ends:
  assumes "window_ok a"
  shows "window_ok (listener_finished result a)" "window_ok (job_finished result a)" "window_ok (job_vanished a)"
    "window_ok (listener_vanished a)"
proof -
  have r: "window_ok (a\<lparr>ap_listener_registered := False\<rparr>)"
    using assms by simp
  show "window_ok (job_finished result a)" "window_ok (job_vanished a)"
    using window_ok_clear(2) [OF assms] by (simp_all add: job_finished_def job_vanished_def Let_def)
  show "window_ok (listener_vanished a)"
    using window_ok_clear(1) [OF r] window_ok_spawn
    by (simp add: listener_vanished_def Let_def split: option.split)
  show "window_ok (listener_finished result a)"
    using window_ok_clear(1) [OF r] window_ok_spawn
    by (simp add: listener_finished_def Let_def split: option.split sum.split)
qed

text \<open>
  A worker's thread sends its requests and then its result on one channel, so in the events of a poll no
  request follows a result.
\<close>

fun is_request :: "worker_event \<Rightarrow> bool" where
  "is_request (WE_Consent peer m r) = True"
| "is_request (WE_Compose r) = True"
| "is_request _ = False"

fun is_result :: "worker_event \<Rightarrow> bool" where
  "is_result (WE_Finished r) = True"
| "is_result _ = False"

fun orderly :: "worker_event list \<Rightarrow> bool" where
  "orderly [] = True"
| "orderly (e # es) \<longleftrightarrow> (is_result e \<longrightarrow> \<not> list_ex is_request es) \<and> orderly es"

definition worker_of :: "bool \<Rightarrow> app \<Rightarrow> job option" where
  "worker_of l a = (if l then ap_listener a else ap_job a)"

definition events_of :: "bool \<Rightarrow> (bool \<times> nat \<times> (text_error + nat) \<times> worker_event) list \<Rightarrow> worker_event list" where
  "events_of l evs = map (\<lambda>(k, now, unix, ev). ev) (filter (\<lambda>(k, e). k = l) evs)"

text \<open>Requests that are still to be handled have a worker.\<close>

definition tidy :: "(bool \<times> nat \<times> (text_error + nat) \<times> worker_event) list \<Rightarrow> app \<Rightarrow> bool" where
  "tidy evs a \<longleftrightarrow> (\<forall>l. orderly (events_of l evs) \<and> (list_ex is_request (events_of l evs) \<longrightarrow> worker_of l a \<noteq> None))"

lemma events_of_simps [simp]:
  "events_of l [] = []" "events_of l ((k, now, unix, ev) # evs) = (if k = l then ev # events_of l evs else events_of l evs)"
  "events_of l (xs @ ys) = events_of l xs @ events_of l ys"
  "events_of l (map (Pair k) zs) = (if k = l then map (\<lambda>(now, unix, ev). ev) zs else [])"
  by (auto simp: events_of_def filter_map comp_def split_def)

lemma drop_workers [simp]:
  "ap_job (drop_consent a) = ap_job a" "ap_listener (drop_consent a) = ap_listener a"
  "ap_job (drop_compose a) = ap_job a" "ap_listener (drop_compose a) = ap_listener a"
  by (simp_all add: drop_consent_def drop_compose_def answer_def reply_text_def split: option.split)

lemma clear_workers [simp]:
  "ap_job (clear_session_state l a) = ap_job a" "ap_listener (clear_session_state l a) = ap_listener a"
  by (simp_all add: clear_session_state_def Let_def)

lemma spawn_workers [simp]: "ap_job (spawn_render_listener R a) = ap_job a"
  by (simp add: spawn_render_listener_def notify_def Let_def split: option.split)

lemma notify_workers [simp]: "ap_job (notify n a) = ap_job a" "ap_listener (notify n a) = ap_listener a"
  by (simp_all add: notify_def)

lemma finished_workers: "ap_job (listener_finished result a) = ap_job a" "ap_listener (job_finished result a) = ap_listener a"
  by (simp_all add: listener_finished_def job_finished_def Let_def split: option.split sum.split)

text \<open>Only its result ends a worker.\<close>

lemma poll_event_workers:
  assumes "worker_of k (snd (poll_event l now unix ev (gone, a))) = None" and "worker_of k a \<noteq> None"
  shows "k = l \<and> is_result ev"
  using assms
  by (cases ev; cases k; cases l)
    (auto simp: worker_of_def finished_workers poll_consent_def push_chat_def answer_def reply_text_def notify_def Let_def
      split: if_splits option.splits sum.splits)

lemma tidy_step:
  assumes "tidy ((l, now, unix, ev) # evs) a" and "poll_event l now unix ev (gone, a) = (gone', b)"
  shows "tidy evs b"
proof -
  have "worker_of k b \<noteq> None" if ask: "list_ex is_request (events_of k evs)" for k
  proof
    assume none: "worker_of k b = None"
    have "worker_of k a \<noteq> None"
      using assms(1) ask unfolding tidy_def by (auto dest: spec [of _ k] split: if_splits)
    then have "k = l \<and> is_result ev"
      using poll_event_workers [of k l now unix ev gone a] assms(2) none by simp
    then show False
      using assms(1) ask unfolding tidy_def by (auto dest: spec [of _ k])
  qed
  moreover have "orderly (events_of k evs)" for k
    using assms(1) unfolding tidy_def by (auto dest: spec [of _ k] split: if_splits)
  ultimately show ?thesis
    by (simp add: tidy_def)
qed

lemma window_ok_ask:
  "window_ok a \<Longrightarrow> (if pr_listener pr then ap_listener_busy a else ap_job a \<noteq> None) \<Longrightarrow> window_ok (a\<lparr>ap_consent := Some pr\<rparr>)"
  by (simp add: window_ok_def)

lemma window_ok_busy:
  "window_ok a \<Longrightarrow> ap_job a = None \<Longrightarrow> ap_listener a \<noteq> None \<Longrightarrow> window_ok (a\<lparr>ap_listener_busy := True\<rparr>)"
  by (auto simp: window_ok_def split: if_splits)

lemma window_ok_request:
  assumes "window_ok a" and "worker_of l a \<noteq> None"
  shows "window_ok (poll_consent l now unix peer m r a)"
proof (cases "ap_consent a \<noteq> None \<or> (l \<and> (ap_job a \<noteq> None \<or> ap_listener_busy a))")
  case True
  then show ?thesis
    using assms(1) by (simp add: poll_consent_def split: sum.split)
next
  case False
  define c where "c = (if l then a\<lparr>ap_listener_busy := True\<rparr> else a)"
  define d where "d = (if is_desktop m
    then c\<lparr>ap_page := PG_Remote, ap_view := (ap_view c)\<lparr>rv_control := controls_input m, rv_listener := l\<rparr>\<rparr> else c)"
  have "window_ok c"
    using False assms window_ok_busy [of a] by (auto simp: c_def worker_of_def)
  then have d: "window_ok d"
    by (simp add: d_def)
  have "if l then ap_listener_busy d else ap_job d \<noteq> None"
    using assms(2) by (cases l) (simp_all add: c_def d_def worker_of_def)
  then have q: "window_ok (d\<lparr>ap_consent := Some \<lparr>pr_peer = peer, pr_mode = m, pr_reply = r, pr_opened = now, pr_listener = l\<rparr>\<rparr>)"
    by (intro window_ok_ask [OF d]) simp
  show ?thesis
    unfolding poll_consent_def Let_def c_def [symmetric] d_def [symmetric] using False d q assms(1)
    by (simp split: sum.split)
qed

lemma window_ok_event:
  assumes "window_ok a" and "is_request ev \<longrightarrow> worker_of l a \<noteq> None" and "poll_event l now unix ev (gone, a) = (gone', b)"
  shows "window_ok b"
proof (cases ev)
  case (WE_Consent peer m r)
  then have "b = poll_consent l now unix peer m r a" "worker_of l a \<noteq> None"
    using assms(2,3) by simp_all
  then show ?thesis
    using window_ok_request [OF assms(1)] by simp
next
  case (WE_Compose r)
  have "window_ok (a\<lparr>ap_compose := Some r, ap_compose_listener := l, ap_page := PG_Chat\<rparr>)"
    using assms(1,2) WE_Compose by (cases l) (simp_all add: worker_of_def window_ok_def)
  then show ?thesis
    using assms(1,3) WE_Compose by (auto split: if_splits)
qed (use assms(1,3) in \<open>auto simp: window_ok_ends window_ok_chat Let_def split: if_splits option.splits\<close>)

lemma window_ok_events:
  "window_ok a \<Longrightarrow> tidy evs a \<Longrightarrow> poll_events evs (gone, a) = (gone', b) \<Longrightarrow> window_ok b"
proof (induction evs arbitrary: gone a)
  case (Cons e evs)
  obtain l now unix ev where e: "e = (l, now, unix, ev)"
    by (cases e)
  obtain g1 a1 where step: "poll_event l now unix ev (gone, a) = (g1, a1)"
    by (cases "poll_event l now unix ev (gone, a)")
  have "is_request ev \<longrightarrow> worker_of l a \<noteq> None"
    using Cons.prems(2) unfolding tidy_def e by (auto dest: spec [of _ l])
  then have "window_ok a1" "tidy evs a1"
    using window_ok_event [OF Cons.prems(1) _ step] tidy_step [OF Cons.prems(2) [unfolded e] step] by blast+
  then show ?case
    using Cons.IH [of a1 g1] Cons.prems(3) step e by simp
qed simp

definition poll_orderly :: "poll_input \<Rightarrow> bool" where
  "poll_orderly io \<longleftrightarrow> orderly (map (\<lambda>(now, unix, ev). ev) (pl_job io)) \<and> orderly (map (\<lambda>(now, unix, ev). ev) (pl_listener io))"

lemma if_P_both: "P x \<Longrightarrow> P y \<Longrightarrow> P (if c then y else x)"
  by simp

lemma window_ok_poll:
  assumes "window_ok a" and "poll_orderly io"
  shows "window_ok (app_poll io a)"
proof -
  obtain g b where pe: "poll_events (polled io a) (ap_listener a \<noteq> None \<and> pl_listener_gone io, a) = (g, b)"
    by (cases "poll_events (polled io a) (ap_listener a \<noteq> None \<and> pl_listener_gone io, a)")
  have "events_of l (polled io a) = (if worker_of l a = None then [] else map (\<lambda>(now, unix, ev). ev)
      (if l then pl_listener io else pl_job io))" for l
    by (auto simp: polled_def worker_of_def)
  then have "tidy (polled io a) a"
    using assms(2) by (simp add: tidy_def poll_orderly_def)
  then have ok: "window_ok b"
    using window_ok_events [OF assms(1) _ pe] by blast
  have ap: "app_poll io a = poll_frame (poll_gone (ap_job a \<noteq> None \<and> pl_job_gone io) g b)"
    by (simp only: app_poll_def Let_def pe prod.case)
  have "window_ok (poll_gone j g b)" for j
  proof -
    have c: "window_ok (if j \<and> ap_job b \<noteq> None then job_vanished b else b)"
      using ok window_ok_ends(3) by simp
    show ?thesis
      unfolding poll_gone_def Let_def using c window_ok_ends(4) [OF c] by (rule if_P_both)
  qed
  then show ?thesis
    by (simp add: ap poll_frame_def split: option.split)
qed

lemma ready_idle: "ready a \<Longrightarrow> ap_job a = None \<and> \<not> ap_listener_busy a" "ready_host a \<Longrightarrow> ap_job a = None \<and> ap_listener a = None"
  by (simp_all add: ready_def ready_host_def Let_def)

lemma window_ok_job:
  "window_ok a \<Longrightarrow> \<not> ap_listener_busy a \<Longrightarrow> \<not> auto_any t \<Longrightarrow>
    window_ok (a\<lparr>ap_job := Some j, ap_begun := ap_begun a @ [(t, p)]\<rparr>)"
  by (auto simp: window_ok_def split: if_splits)

lemma window_ok_begin:
  assumes "window_ok a"
  shows "window_ok (begin_task t a)"
proof -
  define b where "b = a\<lparr>ap_view := begin_view t (ap_view a),
    ap_page := (case t of TK_Remote R control clipboard \<Rightarrow> PG_Remote | _ \<Rightarrow> ap_page a)\<rparr>"
  have b: "window_ok b"
    using assms by (simp add: b_def)
  have "\<not> ap_listener_busy b" if "if host_any t then ready_host b else ready b"
    using ready_idle [of b] that b by (auto simp: window_ok_def split: if_splits)
  then have "window_ok (b\<lparr>ap_notice := None, ap_progress := None, ap_status := s, ap_job := Some j,
      ap_begun := ap_begun b @ [(t, p)]\<rparr>)" if "if host_any t then ready_host b else ready b" "\<not> auto_any t" for j p s
    using window_ok_job [of "b\<lparr>ap_notice := None, ap_progress := None, ap_status := s\<rparr>" t] b that by simp
  then show ?thesis
    unfolding begin_task_def Let_def b_def [symmetric] using assms b by (simp split: sum.split)
qed

lemma window_ok_starts:
  assumes "window_ok a"
  shows "window_ok (begin_on V f a)" "window_ok (start_render_listener V saved a)"
    "window_ok (start_listening V saved a)" "window_ok (start_sending V a)"
proof -
  show "window_ok (start_render_listener V saved a)"
    using assms by (simp add: start_render_listener_def window_ok_spawn split: sum.split)
  then show "window_ok (start_listening V saved a)"
    using assms by (simp add: start_listening_def window_ok_begin Let_def split: sum.split)
  show "window_ok (begin_on V f a)" "window_ok (start_sending V a)"
    using assms by (simp_all add: begin_on_def start_sending_def window_ok_begin Let_def split: sum.split option.split)
qed

lemma window_ok_controls:
  assumes "window_ok a" and "session_of j = session_of (ap_job a)" and "session_of l = session_of (ap_listener a)"
  shows "window_ok (a\<lparr>ap_job := j, ap_listener := l\<rparr>)"
  using window_ok_quiet [of a "a\<lparr>ap_job := j, ap_listener := l\<rparr>"] assms by (simp add: quiet_def)

lemma window_ok_stop:
  assumes "window_ok a"
  shows "window_ok (app_stop a)"
proof -
  define b where "b = drop_compose (drop_consent (release_remote_input a))"
  define c where "c = b\<lparr>ap_job := map_option stop_job (ap_job b), ap_listener := map_option stop_job (ap_listener b)\<rparr>"
  have "window_ok b"
    using assms window_ok_quiet [OF quiet_release] by (simp add: b_def window_ok_drop)
  then have c: "window_ok c"
    unfolding c_def by (rule window_ok_controls) simp_all
  have "app_stop a = (if ap_job c \<noteq> None \<or> ap_listener c \<noteq> None
      then c\<lparr>ap_listener_enabled := False, ap_status := lit ''Stopping session...''\<rparr>
      else c\<lparr>ap_listener_enabled := False\<rparr>)"
    by (simp add: app_stop_def Let_def b_def c_def)
  then show ?thesis
    using c by simp
qed

lemma window_ok_disconnect:
  assumes "window_ok a"
  shows "window_ok (disconnect now a)"
proof -
  let ?a = "release_remote_input a"
  have r: "window_ok ?a"
    using assms window_ok_quiet [OF quiet_release] by simp
  have "window_ok (?a\<lparr>ap_job := Some (j\<lparr>jb_control := c\<rparr>)\<rparr>)" "window_ok (?a\<lparr>ap_job := Some (stop_job (j\<lparr>jb_control := c\<rparr>))\<rparr>)"
    if "ap_job ?a = Some j" for j c
    using window_ok_controls [OF r, of _ "ap_listener ?a"] that by (simp_all add: stop_job_def)
  then show ?thesis
    using assms r window_ok_stop [OF r] by (simp add: disconnect_def Let_def split: option.split prod.split bool.split)
qed

lemma window_ok_trust:
  assumes "window_ok a"
  shows "window_ok (save_contact V flt a)" "window_ok (allow_unattended V flt unix index a)"
    "window_ok (revoke_unattended V flt a)"
proof -
  show "window_ok (revoke_unattended V flt a)"
    using assms window_ok_stop [of "a\<lparr>ap_unattended := None\<rparr>"]
    by (simp add: revoke_unattended_def Let_def split: prod.split)
qed (use assms in \<open>simp_all add: save_contact_def allow_unattended_def Let_def split: sum.split prod.split\<close>)

lemma window_ok_replies:
  assumes "window_ok a"
  shows "window_ok (consent_answer pressed now sent a)" "window_ok (chat_send sent a)"
proof -
  have c: "window_ok (a\<lparr>ap_consent := None\<rparr>)" "window_ok (a\<lparr>ap_compose := None\<rparr>)"
    using assms by (simp_all add: window_ok_def)
  show "window_ok (consent_answer pressed now sent a)"
    using assms c(1) by (simp add: consent_answer_def Let_def split: option.split)
  show "window_ok (chat_send sent a)"
    using assms c(2) by (simp add: chat_send_def window_ok_chat Let_def split: option.split)
qed

lemma window_ok_step:
  assumes "window_ok a" and "\<And>io. op = OP_Poll io \<Longrightarrow> poll_orderly io"
  shows "window_ok (app_step V op a)"
  using assms
  by (cases op) (simp_all add: window_ok_poll window_ok_quiet [OF quiet_step(1)] window_ok_quiet [OF quiet_step(2)]
      window_ok_quiet [OF quiet_step(3)] window_ok_quiet [OF quiet_step(4)] window_ok_quiet [OF quiet_step(5)]
      window_ok_quiet [OF quiet_step(6)] window_ok_quiet [OF quiet_step(7)] window_ok_quiet [OF quiet_step(8)]
      window_ok_quiet [OF quiet_step(9)] window_ok_quiet [OF quiet_profile] window_ok_quiet [OF calm_send]
      window_ok_quiet [OF quiet_release] window_ok_stop window_ok_disconnect window_ok_trust window_ok_replies
      window_ok_starts start_chat_def start_remote_def)

lemma window_ok_run:
  "window_ok a \<Longrightarrow> (\<And>io. OP_Poll io \<in> set ops \<Longrightarrow> poll_orderly io) \<Longrightarrow> window_ok (app_run V ops a)"
  by (induction ops rule: rev_induct) (auto intro: window_ok_step)

lemma window_ok_open: "window_ok (app_open V saved (app_new receive contacts unattended render server files))"
proof -
  have "window_ok (app_new receive contacts unattended render server files)"
    by (simp add: window_ok_def app_new_def)
  then show ?thesis
    by (simp add: app_open_def window_ok_starts)
qed

text \<open>C21: The window runs one session at a time and trusts nobody automatically. Whatever happens since it
  opened, if no worker asks after its result: while the listener at the service is busy with a session it
  still exists and no other job runs; a question that is open belongs to a worker that is there; no task was
  ever started that accepts any peer automatically, and the listener always accepts any peer but only when
  asked; and at most 200 lines of chat are kept.\<close>

theorem window_one_session:
  assumes "a = app_run V ops (app_open V saved (app_new receive contacts unattended render server files))"
    and "\<And>io. OP_Poll io \<in> set ops \<Longrightarrow> poll_orderly io"
  shows "(ap_listener_busy a \<longrightarrow> ap_job a = None \<and> ap_listener a \<noteq> None) \<and>
    (\<forall>pr. ap_consent a = Some pr \<longrightarrow> (if pr_listener pr then ap_listener_busy a else ap_job a \<noteq> None)) \<and>
    (\<forall>R dir p. (TK_Host R dir True True, p) \<notin> set (ap_begun a)) \<and>
    (\<forall>j. ap_listener a = Some j \<longrightarrow> (\<exists>R dir. jb_task j = TK_Host R dir False True)) \<and>
    length (ap_history a) \<le> 200"
proof -
  have "window_ok a"
    unfolding assms(1) using window_ok_open assms(2) by (rule window_ok_run)
  then show ?thesis
    by (auto simp: window_ok_def auto_any_def)
qed

lemma window_one_session_witness:
  "length (ap_history (app_run demo_app_env demo_ops demo_app)) \<le> 200 \<and>
   (\<forall>R dir p. (TK_Host R dir True True, p) \<notin> set (ap_begun (app_run demo_app_env demo_ops demo_app)))"
  using window_one_session [OF refl, of demo_ops demo_app_env "Inr ()" "[]" "[]" None False "[]" "(None, None)",
      folded demo_app_def]
  by (simp add: demo_ops_def poll_orderly_def)

subsection \<open>Stopping\<close>

text \<open>Every worker was told to stop, and none may follow by itself.\<close>

definition halted :: "app \<Rightarrow> bool" where
  "halted a \<longleftrightarrow> \<not> ap_listener_enabled a \<and> (\<forall>j. ap_job a = Some j \<longrightarrow> ct_local_stop (jb_control j)) \<and>
     (\<forall>j. ap_listener a = Some j \<longrightarrow> ct_local_stop (jb_control j))"

definition stays :: "app \<Rightarrow> app \<Rightarrow> bool" where
  "stays a b \<longleftrightarrow> halted b \<and> ap_begun b = ap_begun a"

lemma stays_trans: "stays a b \<Longrightarrow> stays b c \<Longrightarrow> stays a c"
  by (simp add: stays_def)

lemma stays_refl: "halted a \<Longrightarrow> stays a a"
  by (simp add: stays_def)

lemma stays_halted: "stays a b \<Longrightarrow> halted b"
  by (simp add: stays_def)

lemma stays_update [simp]:
  "stays a (notify n b) = stays a b" "stays a (answer r x b) = stays a b" "stays a (reply_text r rt b) = stays a b"
  "stays a (push_chat own t b) = stays a b" "stays a (b\<lparr>ap_view := v\<rparr>) = stays a b" "stays a (b\<lparr>ap_page := pg\<rparr>) = stays a b"
  "stays a (b\<lparr>ap_status := s\<rparr>) = stays a b" "stays a (b\<lparr>ap_listener_registered := x\<rparr>) = stays a b"
  "stays a (b\<lparr>ap_listener_busy := x\<rparr>) = stays a b" "stays a (b\<lparr>ap_progress := g\<rparr>) = stays a b"
  "stays a (b\<lparr>ap_resume := s\<rparr>) = stays a b" "stays a (b\<lparr>ap_notice := nn\<rparr>) = stays a b"
  "stays a (b\<lparr>ap_draft := s\<rparr>) = stays a b" "stays a (b\<lparr>ap_contacts := cs\<rparr>) = stays a b"
  "stays a (b\<lparr>ap_contacts_file := ff\<rparr>) = stays a b" "stays a (b\<lparr>ap_grant_file := ff\<rparr>) = stays a b"
  "stays a (b\<lparr>ap_unattended := u\<rparr>) = stays a b" "stays a (b\<lparr>ap_consent := q\<rparr>) = stays a b"
  "stays a (b\<lparr>ap_compose := c\<rparr>) = stays a b" "stays a (b\<lparr>ap_compose_listener := x\<rparr>) = stays a b"
  "stays a (b\<lparr>ap_form := f\<rparr>) = stays a b" "stays a (b\<lparr>ap_file := fl\<rparr>) = stays a b"
  "stays a (b\<lparr>ap_receive := s\<rparr>) = stays a b" "stays a (b\<lparr>ap_contact_name := s\<rparr>) = stays a b"
  "stays a (b\<lparr>ap_request_clipboard := x\<rparr>) = stays a b"
  by (simp_all add: stays_def halted_def notify_def answer_def reply_text_def push_chat_def)

lemma stays_gone: "stays a b \<Longrightarrow> stays a (b\<lparr>ap_job := None\<rparr>)" "stays a b \<Longrightarrow> stays a (b\<lparr>ap_listener := None\<rparr>)"
  by (simp_all add: stays_def halted_def)

lemma stays_drop [simp]: "stays a (drop_consent b) = stays a b" "stays a (drop_compose b) = stays a b"
  by (simp_all add: drop_consent_def drop_compose_def split: option.split)

lemma stays_clear [simp]: "stays a (clear_session_state l b) = stays a b"
  by (simp add: clear_session_state_def Let_def)

lemma enabled_clear [simp]:
  "ap_listener_enabled (drop_consent a) = ap_listener_enabled a" "ap_listener_enabled (drop_compose a) = ap_listener_enabled a"
  "ap_listener_enabled (clear_session_state l a) = ap_listener_enabled a"
proof -
  show d: "ap_listener_enabled (drop_consent a) = ap_listener_enabled a"
      "ap_listener_enabled (drop_compose a) = ap_listener_enabled a" for a
    by (simp_all add: drop_consent_def drop_compose_def answer_def reply_text_def split: option.split)
  show "ap_listener_enabled (clear_session_state l a) = ap_listener_enabled a"
    by (simp add: clear_session_state_def d Let_def)
qed

lemma stays_ends:
  assumes "halted a"
  shows "stays a (listener_finished result a)" "stays a (job_finished result a)" "stays a (job_vanished a)"
    "stays a (listener_vanished a)"
proof -
  note r = stays_refl [OF assms]
  show "stays a (job_finished result a)" "stays a (job_vanished a)"
    using r by (simp_all add: job_finished_def job_vanished_def stays_gone Let_def)
  have "\<not> ap_listener_enabled a"
    using assms by (simp add: halted_def)
  then show "stays a (listener_finished result a)" "stays a (listener_vanished a)"
    using r by (simp_all add: listener_finished_def listener_vanished_def stays_gone Let_def split: sum.split)
qed

lemma stays_event: "halted a \<Longrightarrow> stays a (snd (poll_event l now unix ev (gone, a)))"
  using stays_refl stays_ends by (cases ev) (simp_all add: poll_consent_def Let_def split: sum.split option.split)

lemma stays_events: "halted a \<Longrightarrow> poll_events evs (gone, a) = (gone', b) \<Longrightarrow> stays a b"
proof (induction evs arbitrary: gone a)
  case (Cons e evs)
  obtain l now unix ev where e: "e = (l, now, unix, ev)"
    by (cases e)
  obtain g1 a1 where step: "poll_event l now unix ev (gone, a) = (g1, a1)"
    by (cases "poll_event l now unix ev (gone, a)")
  have s: "stays a a1"
    using stays_event [OF Cons.prems(1), of l now unix ev gone] step by simp
  show ?case
    using stays_trans [OF s Cons.IH [OF stays_halted [OF s], of g1]] Cons.prems(2) step e by simp
qed (simp add: stays_refl)

lemma stays_poll:
  assumes "halted a"
  shows "stays a (app_poll io a)"
proof -
  obtain g b where pe: "poll_events (polled io a) (ap_listener a \<noteq> None \<and> pl_listener_gone io, a) = (g, b)"
    by (cases "poll_events (polled io a) (ap_listener a \<noteq> None \<and> pl_listener_gone io, a)")
  have ap: "app_poll io a = poll_frame (poll_gone (ap_job a \<noteq> None \<and> pl_job_gone io) g b)"
    by (simp only: app_poll_def Let_def pe prod.case)
  have b: "stays a b"
    using stays_events [OF assms pe] .
  have c: "stays a (if j \<and> ap_job b \<noteq> None then job_vanished b else b)" for j
    using b stays_trans [OF b stays_ends(3) [OF stays_halted [OF b]]] by simp
  have "stays a (poll_gone j g b)" for j
    unfolding poll_gone_def Let_def using c stays_trans [OF c stays_ends(4) [OF stays_halted [OF c]]] by (rule if_P_both)
  then show ?thesis
    by (simp add: ap poll_frame_def split: option.split)
qed

lemma stays_control: "stays a b \<Longrightarrow> ct_local_stop c \<Longrightarrow> stays a (set_active_control c b)"
  by (auto simp: stays_def halted_def set_active_control_def)

lemma active_stopped: "halted a \<Longrightarrow> active_job a = Some j \<Longrightarrow> ct_local_stop (jb_control j)"
  by (auto simp: active_job_def halted_def split: if_splits)

text \<open>Nothing more is handed to a stopped session.\<close>

lemma send_active_stopped: "halted a \<Longrightarrow> send_active m a = Some (sent, b) \<Longrightarrow> \<not> sent \<and> stays a b"
  using active_stopped [of a] stays_refl [of a]
  by (auto simp: send_active_def send_remote_def stays_control split: option.splits)

lemma stays_send:
  assumes "halted a"
  shows "stays a (snd (app_send_remote ev a))" "stays a (snd (select_remote_display index a))"
proof -
  show "stays a (snd (app_send_remote ev a))"
    using send_active_stopped [OF assms, of "DM_Input (rv_generation (ap_view a)) ev"] stays_refl [OF assms]
    by (auto simp: app_send_remote_def split: option.split prod.split bool.split)
  show "stays a (snd (select_remote_display index a))"
    using send_active_stopped [OF assms, of "DM_SelectDisplay index"] stays_refl [OF assms]
    by (auto simp: select_remote_display_def split: option.split prod.split bool.split)
qed

lemma stays_release: "halted a \<Longrightarrow> stays a (release_remote_input a)"
  using stays_send(1) [of a I_ReleaseAll] stays_refl [of a] by (simp add: release_remote_input_def Let_def)

lemma stays_profile:
  assumes "halted a"
  shows "stays a (select_profile profile a)"
proof -
  note r = stays_release [OF assms]
  have "stays a b" if "send_active (DM_SelectVideoProfile profile) (release_remote_input a) = Some (sent, b)" for sent b
    using send_active_stopped [OF stays_halted [OF r] that] stays_trans [OF r] by blast
  then show ?thesis
    using r stays_refl [OF assms] by (auto simp: select_profile_def split: option.split bool.split)
qed

lemma app_stop_halted: "stays a (app_stop a)"
proof -
  define b where "b = drop_compose (drop_consent (release_remote_input a))"
  have "ap_begun (drop_compose (drop_consent c)) = ap_begun c" for c
    by (simp add: drop_compose_def drop_consent_def answer_def reply_text_def split: option.split)
  then have "ap_begun b = ap_begun a"
    using quiet_release [of a] by (simp add: b_def quiet_def)
  moreover define c where "c = b\<lparr>ap_job := map_option stop_job (ap_job b),
    ap_listener := map_option stop_job (ap_listener b), ap_listener_enabled := False\<rparr>"
  ultimately have c: "stays a c"
    by (auto simp: stays_def halted_def stop_job_def control_stop_local)
  have "app_stop a = (if ap_job c \<noteq> None \<or> ap_listener c \<noteq> None
      then c\<lparr>ap_status := lit ''Stopping session...''\<rparr> else c)"
    by (simp add: app_stop_def Let_def b_def c_def)
  then show ?thesis
    using c by simp
qed

lemma stays_disconnect:
  assumes "halted a"
  shows "stays a (disconnect now a)"
proof -
  note r = stays_release [OF assms]
  have "stays a (app_stop (release_remote_input a))"
    by (rule stays_trans [OF r app_stop_halted])
  moreover have "send_remote DM_Close (jb_control j) = (False, jb_control j)" if "ap_job (release_remote_input a) = Some j" for j
    using stays_halted [OF r] that by (simp add: halted_def send_remote_def)
  moreover have "stays a ((release_remote_input a)\<lparr>ap_job := Some (stop_job j)\<rparr>)" for j
    using r by (simp add: stays_def halted_def stop_job_def control_stop_local)
  ultimately show ?thesis
    using r stays_refl [OF assms] by (auto simp: disconnect_def Let_def split: option.split prod.split bool.split)
qed

lemma stays_others:
  assumes "halted a"
  shows "stays a (close_timer now a)" "stays a (toggle_clipboard enabled a)" "stays a (select_monitor index a)"
    "stays a (consent_answer pressed now sent a)" "stays a (chat_send sent a)" "stays a (peer_form ch did key unp ticked a)"
    "stays a (select_transport relay render a)" "stays a (set_auto_accept b a)" "stays a (type_text t a)"
    "stays a (select_page pg a)" "stays a (use_contact index a)" "stays a (save_contact V flt a)"
    "stays a (allow_unattended V flt unix index a)" "stays a (revoke_unattended V flt a)"
proof -
  note r = stays_refl [OF assms]
  show "stays a (close_timer now a)"
    using r by (auto simp: close_timer_def stays_def halted_def stop_job_def control_stop_local)
  show "stays a (toggle_clipboard enabled a)"
    using r active_stopped [OF assms] by (auto simp: toggle_clipboard_def set_clipboard_enabled_def stays_control split: option.split)
  show "stays a (select_monitor index a)"
    using r stays_send(2) [OF assms] by (simp add: select_monitor_def Let_def split: list.split)
  show "stays a (type_text t a)"
    using r by (cases t) simp_all
  show "stays a (select_page pg a)"
    using r stays_release [OF assms] by (simp add: select_page_def)
  have "stays a (app_stop (a\<lparr>ap_unattended := None\<rparr>))"
    using r by (intro stays_trans [OF _ app_stop_halted]) simp
  then show "stays a (revoke_unattended V flt a)"
    using r by (simp add: revoke_unattended_def Let_def split: prod.split)
qed (use stays_refl [OF assms] in \<open>simp_all add: consent_answer_def chat_send_def peer_form_def select_transport_def
  set_auto_accept_def use_contact_def save_contact_def allow_unattended_def Let_def split: option.split sum.split prod.split\<close>)

text \<open>The buttons that start a task or the listener.\<close>

fun is_start :: "app_op \<Rightarrow> bool" where
  "is_start OP_StartChat = True"
| "is_start (OP_StartRemote control) = True"
| "is_start (OP_Listen saved) = True"
| "is_start OP_SendFile = True"
| "is_start _ = False"

lemma stays_step: "halted a \<Longrightarrow> \<not> is_start op \<Longrightarrow> stays a (app_step V op a)"
  by (cases op) (simp_all add: stays_poll stays_others stays_disconnect stays_profile stays_send stays_release app_stop_halted)

lemma stays_run: "halted a \<Longrightarrow> \<forall>op\<in>set ops. \<not> is_start op \<Longrightarrow> stays a (app_run V ops a)"
proof (induction ops arbitrary: a)
  case (Cons op ops)
  have s: "stays a (app_step V op a)"
    using Cons.prems by (simp add: stays_step)
  show ?case
    using stays_trans [OF s Cons.IH [OF stays_halted [OF s]]] Cons.prems(2) by simp
qed (simp add: stays_refl)



end
