(* ===== verification/Sensor_Viewport.thy ===== *)
theory Sensor_Viewport
  imports Sensor_Window Sensor_Float
begin

section \<open>sensor-desktop: input from the window to the remote desktop\<close>

text \<open>
  What the window does with the events of one frame while it controls a remote desktop: the pointer is
  mapped from the picture on the screen to the pixels of the remote display in single precision, keys
  are mapped to Windows virtual keys, text is sent as text, and losing the focus releases everything.
  The geometry of the window itself, which decides whether a point lies in the visible picture, is the
  toolkit's. The lemmas show that the host accepts every input the window sends, and what is held.
\<close>

subsection \<open>binary32\<close>

text \<open>A single-precision number; both zeros are \<open>Fin 0\<close>, infinity carries its sign.\<close>

datatype f32 = Fin rat | PosInf | NegInf | NotNum

definition f32_ulp :: "rat \<Rightarrow> rat" where
  "f32_ulp x = (if 1 \<le> x then 2 ^ halvings 127 x / 2 ^ 23 else 1 / 2 ^ (23 + doublings 126 x))"

text \<open>The nearest number, ties to even; beyond the largest finite one, infinity.\<close>

definition f32_near :: "rat \<Rightarrow> rat" where
  "f32_near x = of_int (round_even (x / f32_ulp x)) * f32_ulp x"

definition f32_round :: "rat \<Rightarrow> f32" where
  "f32_round x =
     (let m = f32_near \<bar>x\<bar>
      in if m < 2 ^ 128 then Fin (if x < 0 then - m else m) else if x < 0 then NegInf else PosInf)"

definition f32_sign :: "bool \<Rightarrow> f32" where
  "f32_sign negative = (if negative then NegInf else PosInf)"

fun f32_negative :: "f32 \<Rightarrow> bool" where
  "f32_negative (Fin x) = (x < 0)"
| "f32_negative PosInf = False"
| "f32_negative NegInf = True"
| "f32_negative NotNum = False"

definition f32_infinite :: "f32 \<Rightarrow> bool" where
  "f32_infinite x \<longleftrightarrow> x = PosInf \<or> x = NegInf"

definition f32_sub :: "f32 \<Rightarrow> f32 \<Rightarrow> f32" where
  "f32_sub x y =
     (case (x, y) of
        (Fin a, Fin b) \<Rightarrow> f32_round (a - b)
      | _ \<Rightarrow>
          if x = NotNum \<or> y = NotNum \<or> (f32_infinite x \<and> x = y) then NotNum
          else if f32_infinite x then x else f32_sign (\<not> f32_negative y))"

definition f32_mul :: "f32 \<Rightarrow> f32 \<Rightarrow> f32" where
  "f32_mul x y =
     (case (x, y) of
        (Fin a, Fin b) \<Rightarrow> f32_round (a * b)
      | _ \<Rightarrow>
          if x = NotNum \<or> y = NotNum \<or> x = Fin 0 \<or> y = Fin 0 then NotNum
          else f32_sign (f32_negative x \<noteq> f32_negative y))"

text \<open>The sign of a zero divisor is taken to be positive; the program divides by sizes.\<close>

definition f32_div :: "f32 \<Rightarrow> f32 \<Rightarrow> f32" where
  "f32_div x y =
     (case (x, y) of
        (Fin a, Fin b) \<Rightarrow>
          if b \<noteq> 0 then f32_round (a / b) else if a = 0 then NotNum else f32_sign (a < 0)
      | _ \<Rightarrow>
          if x = NotNum \<or> y = NotNum \<or> (f32_infinite x \<and> f32_infinite y) then NotNum
          else if f32_infinite x then f32_sign (f32_negative x \<noteq> f32_negative y) else Fin 0)"

text \<open>\<open>floor\<close>, \<open>round\<close> (half away from zero) and \<open>clamp\<close>; the bounds of the program's clamps are finite.\<close>

fun f32_floor :: "f32 \<Rightarrow> f32" where
  "f32_floor (Fin x) = Fin (of_int \<lfloor>x\<rfloor>)"
| "f32_floor x = x"

definition round_away :: "rat \<Rightarrow> int" where
  "round_away x = (if 0 \<le> x then \<lfloor>x + 1 / 2\<rfloor> else - \<lfloor>- x + 1 / 2\<rfloor>)"

fun f32_round_away :: "f32 \<Rightarrow> f32" where
  "f32_round_away (Fin x) = Fin (of_int (round_away x))"
| "f32_round_away x = x"

fun f32_clamp :: "rat \<Rightarrow> rat \<Rightarrow> f32 \<Rightarrow> f32" where
  "f32_clamp lo hi (Fin x) = Fin (if x < lo then lo else if hi < x then hi else x)"
| "f32_clamp lo hi PosInf = Fin hi"
| "f32_clamp lo hi NegInf = Fin lo"
| "f32_clamp lo hi NotNum = NotNum"

text \<open>The casts of \<open>as\<close>: towards zero, saturating, and zero for NaN; \<open>u32 as f32\<close> rounds.\<close>

definition to_zero :: "rat \<Rightarrow> int" where
  "to_zero x = (if 0 \<le> x then \<lfloor>x\<rfloor> else \<lceil>x\<rceil>)"

fun f32_to_int :: "int \<Rightarrow> int \<Rightarrow> f32 \<Rightarrow> int" where
  "f32_to_int lo hi (Fin x) = max lo (min hi (to_zero x))"
| "f32_to_int lo hi PosInf = hi"
| "f32_to_int lo hi NegInf = lo"
| "f32_to_int lo hi NotNum = 0"

definition f32_of_nat :: "nat \<Rightarrow> f32" where
  "f32_of_nat n = f32_round (of_nat n)"

fun f32_value :: "f32 \<Rightarrow> rat" where
  "f32_value (Fin x) = x"
| "f32_value _ = 0"

text \<open>Integers up to \<open>2 ^ 24\<close> are exact.\<close>

lemma halvings_less: "1 \<le> x \<Longrightarrow> x < 2 ^ Suc n \<Longrightarrow> n \<le> k \<Longrightarrow> halvings k x \<le> n"
proof (induction k arbitrary: x n)
  case (Suc k)
  show ?case
  proof (cases "x < 2")
    case False
    then obtain m where n: "n = Suc m"
      using Suc.prems(2) by (cases n) auto
    have "halvings k (x / 2) \<le> m"
      using Suc.prems False n by (intro Suc.IH) auto
    then show ?thesis
      using False n by simp
  qed simp
qed simp

lemma round_even_int [simp]: "round_even (of_int z) = z"
  by (simp add: round_even_def Let_def)

lemma f32_near_of_nat:
  assumes "n < 2 ^ 24"
  shows "f32_near (of_nat n) = of_nat n"
proof (cases "n = 0")
  case True
  then show ?thesis
    by (simp add: f32_near_def round_even_def Let_def)
next
  case False
  have "(of_nat n :: rat) < of_nat (2 ^ 24)"
    using assms by (simp only: of_nat_less_iff)
  then have "halvings 127 (of_nat n :: rat) \<le> 23"
    using False by (intro halvings_less) simp_all
  then obtain m where m: "23 = halvings 127 (of_nat n :: rat) + m"
    using le_Suc_ex by blast
  have "of_nat n / f32_ulp (of_nat n) = of_nat n * (2 :: rat) ^ 23 / 2 ^ halvings 127 (of_nat n :: rat)"
    using False by (simp add: f32_ulp_def)
  also have "\<dots> = of_nat n * (2 ^ m :: rat)"
    unfolding m power_add by simp
  also have "\<dots> = of_int (int n * 2 ^ m)"
    by simp
  finally have "of_nat n / f32_ulp (of_nat n) = (of_int (int n * 2 ^ m) :: rat)" .
  then have "of_int (round_even (of_nat n / f32_ulp (of_nat n))) = of_nat n / f32_ulp (of_nat n)"
    using round_even_int by metis
  moreover have "f32_ulp (of_nat n) \<noteq> 0"
    using False by (simp add: f32_ulp_def)
  ultimately show ?thesis
    by (simp add: f32_near_def)
qed

lemma f32_of_nat_exact: "n < 2 ^ 24 \<Longrightarrow> f32_of_nat n = Fin (of_nat n)"
proof -
  assume n: "n < 2 ^ 24"
  have "(of_nat n :: rat) < of_nat (2 ^ 24)"
    using n by (simp only: of_nat_less_iff)
  also have "(of_nat (2 ^ 24) :: rat) < 2 ^ 128"
    by simp
  finally show ?thesis
    by (simp add: f32_of_nat_def f32_round_def f32_near_of_nat [OF n] Let_def)
qed

subsection \<open>The pointer\<close>

record pos =
  ps_x :: f32
  ps_y :: f32

text \<open>The corner and the size of a rectangle: \<open>rc_max\<close> minus \<open>rc_min\<close>.\<close>

record rect =
  rc_min :: pos
  rc_max :: pos

(* @src crates/sensor-desktop/src/remote_input.rs:30-34 pointer_position, an axis *)
definition pointer_axis :: "f32 \<Rightarrow> nat \<Rightarrow> nat" where
  "pointer_axis value n =
     nat (f32_to_int 0 (2 ^ 32 - 1)
       (f32_clamp 0 (f32_value (f32_of_nat (n - 1))) (f32_floor (f32_mul value (f32_of_nat n)))))"

(* @src crates/sensor-desktop/src/remote_input.rs:28-39 pointer_position *)
definition pointer_position :: "pos \<Rightarrow> rect \<Rightarrow> nat \<times> nat \<Rightarrow> nat \<times> nat" where
  "pointer_position p r dims =
     (let along = (\<lambda>f. f32_div (f32_sub (f p) (f (rc_min r))) (f32_sub (f (rc_max r)) (f (rc_min r))))
      in (pointer_axis (along ps_x) (fst dims), pointer_axis (along ps_y) (snd dims)))"

text \<open>Wherever the pointer is, and whatever the arithmetic gives, it is mapped to a pixel of the display.\<close>

lemma pointer_axis_less:
  assumes "0 < n" and "n \<le> 2 ^ 24"
  shows "pointer_axis value n < n"
proof -
  have e: "f32_of_nat (n - 1) = Fin (of_nat (n - 1))"
    using assms by (intro f32_of_nat_exact) linarith
  have le: "f32_to_int 0 (2 ^ 32 - 1) (f32_clamp 0 (of_nat (n - 1)) x) \<le> int (n - 1)" for x
  proof (cases x)
    case (Fin q)
    have "to_zero (if q < 0 then 0 else if of_nat (n - 1) < q then of_nat (n - 1) else q) \<le> int (n - 1)"
      by (auto simp: to_zero_def floor_le_iff not_less)
    then show ?thesis
      unfolding Fin f32_clamp.simps f32_to_int.simps by (intro max.boundedI min.coboundedI2) simp_all
  next
    case PosInf
    then show ?thesis
      by (simp add: to_zero_def)
  qed (simp_all add: to_zero_def)
  have "pointer_axis value n \<le> n - 1"
    unfolding pointer_axis_def e f32_value.simps using le by (simp add: nat_le_iff)
  then show ?thesis
    using assms(1) by simp
qed

subsection \<open>Events of the toolkit\<close>

record key_mods =
  km_ctrl :: bool
  km_alt :: bool
  km_command :: bool
  km_mac :: bool

datatype pointer_btn = PB_Primary | PB_Secondary | PB_Middle | PB_Extra

datatype wheel_unit = WU_Line | WU_Point | WU_Page

text \<open>The last flag of a button: whether the picture owns the pointer there.\<close>

datatype ui_event =
    UE_Text rstr
  | UE_Paste rstr
  | UE_Key string bool key_mods
  | UE_Button pos pointer_btn bool bool
  | UE_Wheel wheel_unit f32 f32
  | UE_Other

definition held_index :: "mouse_button \<Rightarrow> nat" where
  "held_index b = (case b of MB_Left \<Rightarrow> 0 | MB_Right \<Rightarrow> 1 | MB_Middle \<Rightarrow> 2)"

text \<open>\<open>seen\<close>: whether a point lies in the visible part of the picture.\<close>

(* @src crates/sensor-desktop/src/remote_input.rs:41-80 pointer_button *)
definition pointer_button ::
  "ui_event \<Rightarrow> rect \<Rightarrow> (pos \<Rightarrow> bool) \<Rightarrow> nat \<times> nat \<Rightarrow> bool list \<Rightarrow> (nat \<times> bool \<times> input \<times> input) option" where
  "pointer_button ev r seen dims hs =
     (case ev of
        UE_Button p btn down owns \<Rightarrow>
          (case (case btn of PB_Primary \<Rightarrow> Some MB_Left | PB_Secondary \<Rightarrow> Some MB_Right | PB_Middle \<Rightarrow> Some MB_Middle
                 | PB_Extra \<Rightarrow> None) of
             None \<Rightarrow> None
           | Some b \<Rightarrow>
               (let inside = owns \<and> seen p; index = held_index b
                in if down = hs ! index \<or> \<not> (inside \<or> (\<not> down \<and> hs ! index)) then None
                   else let (x, y) = pointer_position p r dims in Some (index, down, I_Move x y, I_Button b down)))
      | _ \<Rightarrow> None)"

definition wheel_ticks :: "nat \<Rightarrow> f32 \<Rightarrow> int" where
  "wheel_ticks scale v =
     f32_to_int (- (2 ^ 31)) (2 ^ 31 - 1) (f32_clamp (- 12000) 12000 (f32_round_away (f32_mul v (Fin (of_nat scale)))))"

(* @src crates/sensor-desktop/src/remote_input.rs:82-91 wheel_delta *)
definition wheel_delta :: "wheel_unit \<Rightarrow> f32 \<Rightarrow> f32 \<Rightarrow> int \<times> int" where
  "wheel_delta u dx dy =
     (let scale = (case u of WU_Line \<Rightarrow> 120 | WU_Point \<Rightarrow> 3 | WU_Page \<Rightarrow> 360)
      in (- wheel_ticks scale dx, wheel_ticks scale dy))"

subsection \<open>Keys\<close>

text \<open>The Windows virtual key of a key of the toolkit, by the name of the key; \<open>Copy\<close>, \<open>Cut\<close> and \<open>Paste\<close> have
  none.\<close>

(* @src crates/sensor-desktop/src/ui.rs:326-431 virtual_key, the table *)
definition VIRTUAL_KEYS :: "(string \<times> nat) list" where
  "VIRTUAL_KEYS =
   [(''ArrowDown'', 40), (''ArrowLeft'', 37), (''ArrowRight'', 39), (''ArrowUp'', 38), (''Escape'', 27),
    (''Tab'', 9), (''Backspace'', 8), (''Enter'', 13), (''Space'', 32), (''Insert'', 45), (''Delete'', 46),
    (''Home'', 36), (''End'', 35), (''PageUp'', 33), (''PageDown'', 34), (''Colon'', 186), (''Comma'', 188),
    (''Backslash'', 220), (''Pipe'', 220), (''Slash'', 191), (''Questionmark'', 191), (''Exclamationmark'', 49),
    (''OpenBracket'', 219), (''OpenCurlyBracket'', 219), (''CloseBracket'', 221), (''CloseCurlyBracket'', 221),
    (''Backtick'', 192), (''Minus'', 189), (''Period'', 190), (''Plus'', 187), (''Equals'', 187),
    (''Semicolon'', 186), (''Quote'', 222), (''Num0'', 48), (''Num1'', 49), (''Num2'', 50), (''Num3'', 51),
    (''Num4'', 52), (''Num5'', 53), (''Num6'', 54), (''Num7'', 55), (''Num8'', 56), (''Num9'', 57), (''A'', 65),
    (''B'', 66), (''C'', 67), (''D'', 68), (''E'', 69), (''F'', 70), (''G'', 71), (''H'', 72), (''I'', 73),
    (''J'', 74), (''K'', 75), (''L'', 76), (''M'', 77), (''N'', 78), (''O'', 79), (''P'', 80), (''Q'', 81),
    (''R'', 82), (''S'', 83), (''T'', 84), (''U'', 85), (''V'', 86), (''W'', 87), (''X'', 88), (''Y'', 89),
    (''Z'', 90), (''F1'', 112), (''F2'', 113), (''F3'', 114), (''F4'', 115), (''F5'', 116), (''F6'', 117),
    (''F7'', 118), (''F8'', 119), (''F9'', 120), (''F10'', 121), (''F11'', 122), (''F12'', 123), (''F13'', 124),
    (''F14'', 125), (''F15'', 126), (''F16'', 127), (''F17'', 128), (''F18'', 129), (''F19'', 130),
    (''F20'', 131), (''F21'', 132), (''F22'', 133), (''F23'', 134), (''F24'', 135), (''F25'', 136),
    (''F26'', 137), (''F27'', 138), (''F28'', 139), (''F29'', 140), (''F30'', 141), (''F31'', 142),
    (''F32'', 143), (''F33'', 144), (''F34'', 145), (''F35'', 146), (''BrowserBack'', 166)]"

(* @src crates/sensor-desktop/src/ui.rs:326-431 virtual_key *)
definition virtual_key :: "string \<Rightarrow> nat option" where
  "virtual_key name = map_of VIRTUAL_KEYS name"

lemma virtual_key_range: "virtual_key name = Some k \<Longrightarrow> 8 \<le> k \<and> k \<le> 222"
proof -
  assume "virtual_key name = Some k"
  then have "(name, k) \<in> set VIRTUAL_KEYS"
    unfolding virtual_key_def by (rule map_of_SomeD)
  moreover have "list_all (\<lambda>(name, k). 8 \<le> k \<and> k \<le> 222) VIRTUAL_KEYS"
    by (simp add: VIRTUAL_KEYS_def)
  ultimately show ?thesis
    by (auto simp: list_all_iff)
qed

text \<open>Keys that type: digits, letters, the space and the punctuation. Their text arrives as text.\<close>

(* @src crates/sensor-desktop/src/ui.rs:1741-1743 App::remote, text keys *)
definition text_key :: "nat \<Rightarrow> bool" where
  "text_key k \<longleftrightarrow> (48 \<le> k \<and> k \<le> 90) \<or> k = 32 \<or> (186 \<le> k \<and> k \<le> 226)"

subsection \<open>A frame of the viewport\<close>

text \<open>The inputs handed to the session so far, each with whether it was taken, and the application.\<close>

type_synonym app_out = "(input \<times> bool) list \<times> app"

definition attempt :: "input \<Rightarrow> app_out \<Rightarrow> bool \<times> app_out" where
  "attempt ev s = (case app_send_remote ev (snd s) of (taken, a) \<Rightarrow> (taken, fst s @ [(ev, taken)], a))"

definition on_view :: "(remote_view \<Rightarrow> remote_view) \<Rightarrow> app_out \<Rightarrow> app_out" where
  "on_view f s = (fst s, (snd s)\<lparr>ap_view := f (ap_view (snd s))\<rparr>)"

definition view_of :: "app_out \<Rightarrow> remote_view" where
  "view_of s = ap_view (snd s)"

text \<open>
  What the toolkit tells of a frame. \<open>fi_hover\<close>: the point under the pointer, \<open>fi_mods\<close>: whether control, alt
  and shift are down, \<open>fi_size\<close>: the size of the picture.
\<close>

record frame_input =
  fi_hover :: "pos option"
  fi_hovered :: bool
  fi_dragged :: bool
  fi_rect :: rect
  fi_contains :: "pos \<Rightarrow> bool"
  fi_focused :: bool
  fi_mods :: "bool list"
  fi_events :: "ui_event list"
  fi_size :: "nat \<times> nat"

(* @src crates/sensor-desktop/src/ui.rs:1621-1632 App::remote, the pointer moves *)
definition viewport_hover :: "frame_input \<Rightarrow> nat \<times> nat \<Rightarrow> app_out \<Rightarrow> app_out" where
  "viewport_hover F dims s =
     (case fi_hover F of
        None \<Rightarrow> s
      | Some p \<Rightarrow>
          (let (x, y) = pointer_position p (fi_rect F) dims
           in if fi_hovered F \<or> (list_ex id (rv_buttons (view_of s)) \<and> fi_dragged F) then snd (attempt (I_Move x y) s) else s))"

text \<open>A button counts as held once the host was told both where and which.\<close>

(* @src crates/sensor-desktop/src/ui.rs:1637-1655 App::remote, a button *)
definition button_step :: "frame_input \<Rightarrow> nat \<times> nat \<Rightarrow> ui_event \<Rightarrow> app_out \<Rightarrow> app_out" where
  "button_step F dims ev s =
     (case pointer_button ev (fi_rect F) (fi_contains F) dims (rv_buttons (view_of s)) of
        None \<Rightarrow> s
      | Some (index, down, place, button) \<Rightarrow>
          (case attempt place s of
             (False, s) \<Rightarrow> s
           | (True, s) \<Rightarrow> (case attempt button s of
               (False, s) \<Rightarrow> s
             | (True, s) \<Rightarrow> on_view (rv_buttons_update (\<lambda>hs. hs[index := down])) s)))"

(* @src crates/sensor-desktop/src/ui.rs:1633-1656 App::remote, the buttons *)
fun viewport_buttons :: "frame_input \<Rightarrow> nat \<times> nat \<Rightarrow> ui_event list \<Rightarrow> app_out \<Rightarrow> app_out" where
  "viewport_buttons F dims [] s = s"
| "viewport_buttons F dims (ev # evs) s = viewport_buttons F dims evs (button_step F dims ev s)"

definition let_go :: "app_out \<Rightarrow> app_out" where
  "let_go s = on_view (\<lambda>v. v\<lparr>rv_buttons := replicate 3 False, rv_modifiers := replicate 3 False\<rparr>)
     (snd (attempt I_ReleaseAll s))"

definition pasting :: "frame_input \<Rightarrow> bool" where
  "pasting F \<longleftrightarrow> fi_focused F \<and> list_ex (\<lambda>ev. case ev of UE_Paste t \<Rightarrow> True | _ \<Rightarrow> False) (fi_events F)"

text \<open>Control, alt and shift follow the keyboard's state.\<close>

(* @src crates/sensor-desktop/src/ui.rs:1682-1687 App::remote, a modifier *)
definition modifier_step :: "nat \<Rightarrow> nat \<Rightarrow> bool \<Rightarrow> app_out \<Rightarrow> app_out" where
  "modifier_step index key down s =
     (if down = rv_modifiers (view_of s) ! index then s
      else case attempt (I_Key key down) s of
          (False, s) \<Rightarrow> s
        | (True, s) \<Rightarrow> on_view (rv_modifiers_update (\<lambda>hs. hs[index := down])) s)"

(* @src crates/sensor-desktop/src/ui.rs:1673-1689 App::remote, the modifiers *)
definition viewport_modifiers :: "bool list \<Rightarrow> app_out \<Rightarrow> app_out" where
  "viewport_modifiers downs s =
     modifier_step 2 16 (downs ! 2) (modifier_step 1 18 (downs ! 1) (modifier_step 0 17 (downs ! 0) s))"

(* @src crates/sensor-desktop/src/ui.rs:1690-1713 App::remote, the wheel *)
fun viewport_wheels :: "ui_event list \<Rightarrow> app_out \<Rightarrow> app_out" where
  "viewport_wheels [] s = s"
| "viewport_wheels (UE_Wheel u dx dy # evs) s =
     (let (horizontal, vertical) = wheel_delta u dx dy;
          s = (if horizontal \<noteq> 0 then snd (attempt (I_Wheel horizontal True) s) else s);
          s = (if vertical \<noteq> 0 then snd (attempt (I_Wheel vertical False) s) else s)
      in viewport_wheels evs s)"
| "viewport_wheels (_ # evs) s = viewport_wheels evs s"

text \<open>The packets of a text, until one is refused.\<close>

(* @src crates/sensor-desktop/src/ui.rs:1720-1724 App::remote, the packets *)
fun send_packets :: "input list \<Rightarrow> app_out \<Rightarrow> app_out" where
  "send_packets [] s = s"
| "send_packets (p # ps) s = (case attempt p s of (False, s) \<Rightarrow> s | (True, s) \<Rightarrow> send_packets ps s)"

definition viewport_text :: "viewport_event \<Rightarrow> app_out \<Rightarrow> app_out" where
  "viewport_text ev s =
     (case text_input ev of
        None \<Rightarrow> s
      | Some (Inl _) \<Rightarrow> (fst s, notify (NO_Text ''Remote text input accepts up to 64 KiB of printable text; use Enter/Tab keys separately.'') (snd s))
      | Some (Inr packets) \<Rightarrow> send_packets packets s)"

(* @src crates/sensor-desktop/src/ui.rs:1730-1757 App::remote, a key *)
definition viewport_key :: "frame_input \<Rightarrow> string \<Rightarrow> bool \<Rightarrow> key_mods \<Rightarrow> app_out \<Rightarrow> app_out" where
  "viewport_key F name pressed m s =
     (if pasting F \<and> name = ''V'' then s
      else case virtual_key name of
          None \<Rightarrow> s
        | Some k \<Rightarrow>
            if \<not> text_key k \<or> km_ctrl m \<or> km_alt m \<or> km_command m \<or> km_mac m then snd (attempt (I_Key k pressed) s) else s)"

(* @src crates/sensor-desktop/src/ui.rs:1716-1757 App::remote, text and keys *)
fun viewport_keys :: "frame_input \<Rightarrow> ui_event list \<Rightarrow> app_out \<Rightarrow> app_out" where
  "viewport_keys F [] s = s"
| "viewport_keys F (UE_Text t # evs) s = viewport_keys F evs (viewport_text (VE_Text t) s)"
| "viewport_keys F (UE_Paste t # evs) s = viewport_keys F evs (viewport_text (VE_Paste t) s)"
| "viewport_keys F (UE_Key name pressed m # evs) s = viewport_keys F evs (viewport_key F name pressed m s)"
| "viewport_keys F (_ # evs) s = viewport_keys F evs s"

text \<open>The size of the remote display: the format's, or the picture's when there is none.\<close>

(* @src crates/sensor-desktop/src/ui.rs:1608-1618 App::remote, the display *)
definition viewport_dims :: "frame_input \<Rightarrow> remote_view \<Rightarrow> nat \<times> nat" where
  "viewport_dims F v =
     (case rv_format v of None \<Rightarrow> fi_size F | Some f \<Rightarrow> (ds_width (vf_display f), ds_height (vf_display f)))"

(* @src crates/sensor-desktop/src/ui.rs:1619-1765 App::remote, the input *)
definition viewport_frame :: "frame_input \<Rightarrow> app \<Rightarrow> app_out" where
  "viewport_frame F a =
     (if \<not> rv_control (ap_view a) then ([], a)
      else let dims = viewport_dims F (ap_view a);
               s = viewport_buttons F dims (fi_events F) (viewport_hover F dims ([], a));
               s = (if pasting F then let_go s else s);
               s = (if fi_focused F \<and> \<not> pasting F
                    then viewport_modifiers (fi_mods F) s else s);
               s = (if fi_hovered F then viewport_wheels (fi_events F) s else s);
               s = (if fi_focused F then viewport_keys F (fi_events F) s else s);
               s = (if rv_focused (view_of s) \<and> \<not> fi_focused F then let_go s else s)
           in on_view (rv_focused_update (\<lambda>_. fi_focused F)) s)"

subsection \<open>The host accepts what the window sends\<close>

lemma attempt_simps [simp]:
  "fst (snd (attempt ev s)) = fst s @ [(ev, fst (attempt ev s))]" "view_of (snd (attempt ev s)) = view_of s"
proof -
  have "ap_view (snd (app_send_remote ev a)) = ap_view a" for a
    by (simp add: app_send_remote_def send_active_def set_active_control_def notify_def split: option.split prod.split bool.split)
  then show "view_of (snd (attempt ev s)) = view_of s"
    by (simp add: attempt_def view_of_def split: prod.split) (metis snd_conv)
  show "fst (snd (attempt ev s)) = fst s @ [(ev, fst (attempt ev s))]"
    by (simp add: attempt_def split: prod.split)
qed

lemma attempt_outcome: "attempt ev s = (taken, s') \<Longrightarrow> fst s' = fst s @ [(ev, taken)] \<and> view_of s' = view_of s"
  using attempt_simps [of ev s] by simp

lemma on_view_simps [simp]: "fst (on_view f s) = fst s" "view_of (on_view f s) = f (view_of s)"
  by (simp_all add: on_view_def view_of_def)

definition accepted :: "display \<Rightarrow> app_out \<Rightarrow> bool" where
  "accepted d s \<longleftrightarrow> (\<forall>(ev, taken)\<in>set (fst s). input_validate d ev = Inr ())"

lemma accepted_attempt: "accepted d s \<Longrightarrow> input_validate d ev = Inr () \<Longrightarrow> accepted d (snd (attempt ev s))"
  by (auto simp: accepted_def)

lemma accepted_outcome: "accepted d s \<Longrightarrow> input_validate d ev = Inr () \<Longrightarrow> attempt ev s = (taken, s') \<Longrightarrow> accepted d s'"
  using accepted_attempt [of d s ev] by simp

lemma accepted_view [simp]: "accepted d (on_view f s) = accepted d s"
  by (simp add: accepted_def)

lemma pointer_accepted:
  assumes "display_validate d = Inr ()" and "pointer_position p r (ds_width d, ds_height d) = (x, y)"
  shows "input_validate d (I_Move x y) = Inr ()"
proof -
  have "0 < ds_width d" "ds_width d \<le> 2 ^ 24" "0 < ds_height d" "ds_height d \<le> 2 ^ 24"
    using assms(1) by (auto simp: display_validate_def pixels_def MAX_WIDTH_def MAX_HEIGHT_def Let_def split: if_splits)
  then show ?thesis
    using assms(2) pointer_axis_less by (auto simp: pointer_position_def Let_def not_le)
qed

lemma accepted_hover:
  "display_validate d = Inr () \<Longrightarrow> accepted d s \<Longrightarrow> accepted d (viewport_hover F (ds_width d, ds_height d) s)"
  using pointer_accepted [of d]
  by (auto simp: viewport_hover_def Let_def accepted_attempt split: option.split prod.split)

lemma pointer_button_accepted:
  assumes "display_validate d = Inr ()"
    and "pointer_button ev r seen (ds_width d, ds_height d) hs = Some (index, down, place, button)"
  shows "input_validate d place = Inr () \<and> input_validate d button = Inr ()"
  using assms pointer_accepted [OF assms(1)]
  by (auto simp: pointer_button_def Let_def split: ui_event.splits option.splits if_splits prod.splits)

lemma accepted_button_step:
  assumes "display_validate d = Inr ()" and "accepted d s"
  shows "accepted d (button_step F (ds_width d, ds_height d) ev s)"
proof (cases "pointer_button ev (fi_rect F) (fi_contains F) (ds_width d, ds_height d) (rv_buttons (view_of s))")
  case (Some q)
  obtain index down place button where q: "q = (index, down, place, button)"
    by (cases q)
  obtain t1 s1 where a1: "attempt place s = (t1, s1)"
    by (cases "attempt place s")
  obtain t2 s2 where a2: "attempt button s1 = (t2, s2)"
    by (cases "attempt button s1")
  have "input_validate d place = Inr ()" "input_validate d button = Inr ()"
    using pointer_button_accepted [OF assms(1)] Some q by blast+
  then have "accepted d s1" "accepted d s2"
    using accepted_outcome [OF _ _ a1] accepted_outcome [OF _ _ a2] assms(2) by blast+
  then show ?thesis
    by (simp add: button_step_def Some q a1 a2 split: bool.split)
qed (simp add: button_step_def assms(2))

lemma accepted_buttons:
  assumes "display_validate d = Inr ()"
  shows "accepted d s \<Longrightarrow> accepted d (viewport_buttons F (ds_width d, ds_height d) evs s)"
  by (induction evs arbitrary: s) (simp_all add: accepted_button_step [OF assms])

lemma accepted_let_go: "accepted d s \<Longrightarrow> accepted d (let_go s)"
  by (simp add: let_go_def accepted_attempt)

lemma accepted_modifier:
  assumes "accepted d s" and "0 < key" and "key \<le> 254"
  shows "accepted d (modifier_step index key down s)"
proof -
  obtain taken s' where at: "attempt (I_Key key down) s = (taken, s')"
    by (cases "attempt (I_Key key down) s")
  then have "accepted d s'"
    using assms accepted_outcome [of d s "I_Key key down"] by simp
  then show ?thesis
    unfolding modifier_step_def at using assms(1) by (cases taken) simp_all
qed

lemma accepted_modifiers: "accepted d s \<Longrightarrow> accepted d (viewport_modifiers downs s)"
  by (simp add: viewport_modifiers_def accepted_modifier)

lemma wheel_ticks_bound: "\<bar>wheel_ticks scale v\<bar> \<le> 12000"
proof (cases "f32_round_away (f32_mul v (Fin (of_nat scale)))")
  case (Fin q)
  let ?c = "if q < - 12000 then - 12000 else if 12000 < q then 12000 else q"
  have "\<bar>to_zero ?c\<bar> \<le> 12000"
    by (auto simp: to_zero_def abs_le_iff floor_le_iff le_ceiling_iff not_less minus_le_iff ceiling_le_iff le_floor_iff)
  then show ?thesis
    by (simp add: wheel_ticks_def Fin)
qed (simp_all add: wheel_ticks_def to_zero_def)

lemma wheel_ticks_nat: "\<not> 12000 < nat \<bar>wheel_ticks scale v\<bar>"
  using wheel_ticks_bound [of scale v] by simp

lemma accepted_wheels: "accepted d s \<Longrightarrow> accepted d (viewport_wheels evs s)"
proof (induction evs s rule: viewport_wheels.induct)
  case (2 u dx dy evs s)
  have "input_validate d (I_Wheel n h) = Inr ()" if "wheel_delta u dx dy = (x, y)" "n = x \<or> n = y" for n h x y
    using that wheel_ticks_nat by (auto simp: wheel_delta_def Let_def)
  then show ?case
    using 2 by (auto simp: Let_def accepted_attempt split: prod.split)
qed simp_all

lemma accepted_packets:
  "accepted d s \<Longrightarrow> list_all (\<lambda>p. input_validate d p = Inr ()) ps \<Longrightarrow> accepted d (send_packets ps s)"
  by (induction ps s rule: send_packets.induct) (auto dest: accepted_outcome split: prod.split bool.split)

lemma text_input_accepted: "text_input ev = Some (Inr packets) \<Longrightarrow> list_all (\<lambda>p. input_validate d p = Inr ()) packets"
proof -
  assume e: "text_input ev = Some (Inr packets)"
  then obtain t where t: "\<not> list_ex is_control t" "packets = cut_text t"
    by (auto simp: text_input_def split: viewport_event.splits if_splits)
  obtain chunks where c: "cut_text t = map I_Text chunks" "concat chunks = t"
      "list_all (\<lambda>c. c \<noteq> [] \<and> str_len c \<le> 1024) chunks"
    using cut_text_chunks by blast
  have "\<not> list_ex is_control c" if "c \<in> set chunks" for c
    using t(1) that c(2) by (force simp: list_ex_iff)
  then show ?thesis
    using c t(2) by (auto simp: list_all_iff)
qed

lemma accepted_text: "accepted d s \<Longrightarrow> accepted d (viewport_text ev s)"
  using text_input_accepted [of ev]
  by (auto simp: viewport_text_def accepted_packets accepted_def [of d "(fst s, b)" for b] accepted_def [of d s]
      split: option.split sum.split)

lemma accepted_keys: "accepted d s \<Longrightarrow> accepted d (viewport_keys F evs s)"
proof (induction F evs s rule: viewport_keys.induct)
  case (4 F name pressed m evs s)
  have "input_validate d (I_Key k pressed) = Inr ()" if "virtual_key name = Some k" for k
    using virtual_key_range [OF that] by simp
  then have "accepted d (viewport_key F name pressed m s)"
    using 4 by (auto simp: viewport_key_def accepted_attempt split: option.split)
  then show ?case
    using 4 by simp
qed (simp_all add: accepted_text)

lemma viewport_frame_accepted:
  assumes "rv_format (ap_view a) = Some f" and "display_validate (vf_display f) = Inr ()"
  shows "accepted (vf_display f) (viewport_frame F a)"
proof -
  have dims: "viewport_dims F (ap_view a) = (ds_width (vf_display f), ds_height (vf_display f))"
    by (simp add: viewport_dims_def assms(1))
  have "accepted (vf_display f) ([], a)"
    by (simp add: accepted_def)
  then show ?thesis
    by (simp add: viewport_frame_def dims Let_def accepted_hover accepted_buttons accepted_let_go accepted_modifiers
        accepted_wheels accepted_keys assms(2))
qed

text \<open>C16: The host accepts what the window sends. Whatever the pointer, the wheel, the keyboard and the
  clipboard do in a frame, and however single-precision arithmetic rounds, overflows or fails: every input
  that the window sends for the display it shows passes the host's check for that display. So no action of
  the user can end a session by an invalid input.\<close>

theorem viewport_inputs_valid:
  assumes "rv_format (ap_view a) = Some f" and "display_validate (vf_display f) = Inr ()"
    and "(ev, taken) \<in> set (fst (viewport_frame F a))"
  shows "input_validate (vf_display f) ev = Inr ()"
  using viewport_frame_accepted [OF assms(1,2), of F] assms(3) by (auto simp: accepted_def)

subsection \<open>What is held\<close>

text \<open>What the inputs that were taken leave held on the host: the buttons, and control, alt and shift.\<close>

fun track :: "bool list \<times> bool list \<Rightarrow> input \<times> bool \<Rightarrow> bool list \<times> bool list" where
  "track (bs, ms) (I_Button b down, True) = (bs[held_index b := down], ms)"
| "track (bs, ms) (I_Key k down, True) =
     (bs, if k = 17 then ms[0 := down] else if k = 18 then ms[1 := down] else if k = 16 then ms[2 := down] else ms)"
| "track (bs, ms) (I_ReleaseAll, True) = (replicate 3 False, replicate 3 False)"
| "track h _ = h"

definition believed :: "remote_view \<Rightarrow> bool list \<times> bool list" where
  "believed v = (rv_buttons v, rv_modifiers v)"

text \<open>As long as no release was refused, the view is what the inputs leave.\<close>

definition in_step :: "bool list \<times> bool list \<Rightarrow> app_out \<Rightarrow> bool" where
  "in_step h s \<longleftrightarrow> ((I_ReleaseAll, False) \<notin> set (fst s) \<longrightarrow> foldl track h (fst s) = believed (view_of s))"

definition holds_nothing :: "input \<Rightarrow> bool" where
  "holds_nothing ev \<longleftrightarrow> (case ev of I_Button b down \<Rightarrow> False | I_Key k down \<Rightarrow> k \<notin> {16, 17, 18} | I_ReleaseAll \<Rightarrow> False | _ \<Rightarrow> True)"

lemma track_other: "holds_nothing ev \<Longrightarrow> track h (ev, taken) = h"
  by (cases h; cases ev; cases taken) (simp_all add: holds_nothing_def)

lemma track_refused: "track h (ev, False) = h"
  by (cases h; cases ev) simp_all

lemma in_step_attempt: "in_step h s \<Longrightarrow> holds_nothing ev \<Longrightarrow> in_step h (snd (attempt ev s))"
  by (simp add: in_step_def track_other)

lemma in_step_outcome:
  "in_step h s \<Longrightarrow> attempt ev s = (taken, s') \<Longrightarrow> holds_nothing ev \<or> \<not> taken \<Longrightarrow> in_step h s'"
  using attempt_outcome [of ev s taken s'] by (auto simp: in_step_def track_other track_refused)

lemma in_step_view: "in_step h s \<Longrightarrow> believed (f (view_of s)) = believed (view_of s) \<Longrightarrow> in_step h (on_view f s)"
  by (simp add: in_step_def)

lemma virtual_key_plain: "virtual_key name = Some k \<Longrightarrow> k \<notin> {16, 17, 18}"
proof -
  assume "virtual_key name = Some k"
  then have "(name, k) \<in> set VIRTUAL_KEYS"
    unfolding virtual_key_def by (rule map_of_SomeD)
  moreover have "list_all (\<lambda>(name, k). k \<notin> {16, 17, 18}) VIRTUAL_KEYS"
    by (simp add: VIRTUAL_KEYS_def)
  ultimately show ?thesis
    by (auto simp: list_all_iff)
qed

lemma in_step_let_go: "in_step h s \<Longrightarrow> in_step h (let_go s)"
proof -
  assume i: "in_step h s"
  obtain taken s' where at: "attempt I_ReleaseAll s = (taken, s')"
    by (cases "attempt I_ReleaseAll s")
  note o = attempt_outcome [OF at]
  show ?thesis
  proof (cases taken)
    case True
    have "track x (I_ReleaseAll, True) = (replicate 3 False, replicate 3 False)" for x
      by (cases x) simp
    then show ?thesis
      using o True by (simp add: let_go_def at in_step_def believed_def)
  qed (use o in \<open>simp add: let_go_def at in_step_def\<close>)
qed

lemma in_step_button:
  assumes "in_step h s"
  shows "in_step h (button_step F dims ev s)"
proof (cases "pointer_button ev (fi_rect F) (fi_contains F) dims (rv_buttons (view_of s))")
  case (Some q)
  obtain index down place button where q: "q = (index, down, place, button)"
    by (cases q)
  then obtain x y b where p: "place = I_Move x y" "button = I_Button b down" "index = held_index b"
    using Some by (auto simp: pointer_button_def Let_def split: ui_event.splits option.splits if_splits prod.splits)
  obtain t1 s1 where a1: "attempt place s = (t1, s1)"
    by (cases "attempt place s")
  obtain t2 s2 where a2: "attempt button s1 = (t2, s2)"
    by (cases "attempt button s1")
  have s1: "in_step h s1"
    using in_step_outcome [OF assms a1] by (simp add: p holds_nothing_def)
  show ?thesis
  proof (cases "t1 \<and> t2")
    case True
    have "in_step h (on_view (rv_buttons_update (\<lambda>hs. hs[index := down])) s2)"
      using s1 attempt_outcome [OF a2] True by (cases "foldl track h (fst s1)") (auto simp: in_step_def believed_def p)
    then show ?thesis
      using True by (simp add: button_step_def Some q a1 a2)
  next
    case False
    have "in_step h s2" if "\<not> t2"
      using in_step_outcome [OF s1 a2] that by simp
    then show ?thesis
      using False s1 by (simp add: button_step_def Some q a1 a2 split: bool.split)
  qed
qed (simp add: button_step_def assms)

lemma in_step_buttons: "in_step h s \<Longrightarrow> in_step h (viewport_buttons F dims evs s)"
  by (induction evs arbitrary: s) (simp_all add: in_step_button)

lemma in_step_modifier:
  assumes "in_step h s" and "(index, key) \<in> {(0, 17), (1, 18), (2, 16)}"
  shows "in_step h (modifier_step index key down s)"
proof -
  obtain taken s' where at: "attempt (I_Key key down) s = (taken, s')"
    by (cases "attempt (I_Key key down) s")
  have "in_step h s'" if "\<not> taken"
    using in_step_outcome [OF assms(1) at] that by simp
  moreover have "in_step h (on_view (rv_modifiers_update (\<lambda>hs. hs[index := down])) s')" if taken
    using assms attempt_outcome [OF at] that
    by (cases "foldl track h (fst s)") (auto simp: in_step_def believed_def)
  ultimately have "in_step h (case (taken, s') of (False, s) \<Rightarrow> s | (True, s) \<Rightarrow> on_view (rv_modifiers_update (\<lambda>hs. hs[index := down])) s)"
    by (cases taken) simp_all
  then show ?thesis
    unfolding modifier_step_def at using assms(1) by (rule if_P_both)
qed

lemma in_step_hover: "in_step h s \<Longrightarrow> in_step h (viewport_hover F dims s)"
  by (auto simp: viewport_hover_def Let_def holds_nothing_def intro!: in_step_attempt split: option.split prod.split)

lemma in_step_wheels: "in_step h s \<Longrightarrow> in_step h (viewport_wheels evs s)"
proof (induction evs s rule: viewport_wheels.induct)
  case (2 u dx dy evs s)
  have "holds_nothing (I_Wheel n b)" for n b
    by (simp add: holds_nothing_def)
  then show ?case
    using 2 by (auto simp: Let_def in_step_attempt split: prod.split)
qed simp_all

lemma in_step_packets: "in_step h s \<Longrightarrow> list_all holds_nothing ps \<Longrightarrow> in_step h (send_packets ps s)"
  by (induction ps s rule: send_packets.induct) (auto dest: in_step_outcome split: prod.split bool.split)

lemma in_step_text: "in_step h s \<Longrightarrow> in_step h (viewport_text ev s)"
proof -
  assume i: "in_step h s"
  have "list_all holds_nothing packets" if e: "text_input ev = Some (Inr packets)" for packets
  proof -
    obtain t where "packets = cut_text t"
      using e by (auto simp: text_input_def split: viewport_event.splits if_splits)
    then obtain chunks where "packets = map I_Text chunks"
      using cut_text_chunks by blast
    then show ?thesis
      by (simp add: list_all_iff holds_nothing_def)
  qed
  moreover have "in_step h (fst s, notify n (snd s))" for n
    using i by (simp add: in_step_def view_of_def notify_def)
  ultimately show ?thesis
    using i by (auto simp: viewport_text_def in_step_packets split: option.split sum.split)
qed

lemma in_step_keys: "in_step h s \<Longrightarrow> in_step h (viewport_keys F evs s)"
proof (induction F evs s rule: viewport_keys.induct)
  case (4 F name pressed m evs s)
  have "holds_nothing (I_Key k pressed)" if "virtual_key name = Some k" for k
    using virtual_key_plain [OF that] by (simp add: holds_nothing_def)
  then have "in_step h (viewport_key F name pressed m s)"
    using 4 by (auto simp: viewport_key_def in_step_attempt split: option.split)
  then show ?case
    using 4 by simp
qed (simp_all add: in_step_text)

lemma viewport_frame_in_step: "in_step (believed (ap_view a)) (viewport_frame F a)"
proof -
  have i: "in_step (believed (ap_view a)) ([], a)"
    by (simp add: in_step_def view_of_def)
  then show ?thesis
    by (auto simp: viewport_frame_def viewport_modifiers_def Let_def believed_def [of "rv_focused_update f v" for f v]
        believed_def [of "view_of s" for s] intro!: in_step_view in_step_let_go in_step_keys in_step_wheels in_step_modifier
        in_step_buttons in_step_hover)
qed


text \<open>Losing the focus lets go of everything, whatever else happened in the frame.\<close>

lemma viewport_blur:
  assumes "rv_control (ap_view a)" and "rv_focused (ap_view a)" and "\<not> fi_focused F"
  shows "\<exists>taken. last (fst (viewport_frame F a)) = (I_ReleaseAll, taken) \<and>
    believed (ap_view (snd (viewport_frame F a))) = (replicate 3 False, replicate 3 False)"
proof -
  define dims where "dims = viewport_dims F (ap_view a)"
  have focus: "rv_focused (view_of (button_step F dims ev s)) = rv_focused (view_of s)" for ev s
  proof -
    have "attempt e s = (t, s') \<Longrightarrow> view_of s' = view_of s" for e s t s'
      using attempt_outcome by blast
    then show ?thesis
      by (auto simp: button_step_def split: option.split prod.split bool.split)
  qed
  have buttons: "rv_focused (view_of (viewport_buttons F dims evs s)) = rv_focused (view_of s)" for evs s
    by (induction evs arbitrary: s) (simp_all add: focus)
  have "rv_focused (view_of (viewport_hover F dims s)) = rv_focused (view_of s)" for s
    by (auto simp: viewport_hover_def Let_def split: option.split prod.split)
  moreover have "rv_focused (view_of (viewport_wheels evs s)) = rv_focused (view_of s)" for evs s
    by (induction evs s rule: viewport_wheels.induct) (auto simp: Let_def split: prod.split)
  ultimately have v: "rv_focused (view_of (if fi_hovered F then viewport_wheels (fi_events F) s else s)) \<longleftrightarrow> True"
    if "s = viewport_buttons F dims (fi_events F) (viewport_hover F dims ([], a))" for s
    using that assms(2) buttons by (simp add: view_of_def)
  have "viewport_frame F a = on_view (rv_focused_update (\<lambda>_. False)) (let_go
      (if fi_hovered F then viewport_wheels (fi_events F) (viewport_buttons F dims (fi_events F) (viewport_hover F dims ([], a)))
       else viewport_buttons F dims (fi_events F) (viewport_hover F dims ([], a))))"
    using assms v by (simp add: viewport_frame_def pasting_def dims_def [symmetric] Let_def)
  moreover have "view_of (let_go s) = (view_of s)\<lparr>rv_buttons := replicate 3 False, rv_modifiers := replicate 3 False\<rparr>" for s
    by (simp add: let_go_def)
  moreover have "ap_view (snd (on_view f s)) = f (view_of s)" for f s
    by (simp add: on_view_def view_of_def)
  moreover have "fst (let_go s) = fst s @ [(I_ReleaseAll, fst (attempt I_ReleaseAll s))]" for s
    by (simp add: let_go_def)
  ultimately show ?thesis
    by (simp add: believed_def)
qed

subsection \<open>A concrete viewport\<close>

definition demo_display :: display where
  "demo_display = \<lparr>ds_index = 0, ds_name = [], ds_left = 0, ds_top = 0, ds_width = 640, ds_height = 480\<rparr>"

definition demo_format :: video_format where
  "demo_format = \<lparr>vf_generation = 1, vf_display = demo_display, vf_width = 640, vf_height = 480, vf_fps_limit = 30,
     vf_bitrate = 1000000, vf_encoder = [], vf_hardware = False\<rparr>"

definition demo_viewer :: app where
  "demo_viewer = demo_app\<lparr>ap_view := (ap_view demo_app)\<lparr>rv_format := Some demo_format, rv_control := True,
     rv_generation := 1\<rparr>,
     ap_job := Some \<lparr>jb_task = TK_Remote (RT_Direct []) True False, jb_peer = demo_requester,
       jb_control = control_default\<lparr>ct_sender := True, ct_receiver := True\<rparr>\<rparr>\<rparr>"

definition corner :: "rat \<Rightarrow> rat \<Rightarrow> pos" where
  "corner x y = \<lparr>ps_x = Fin x, ps_y = Fin y\<rparr>"

definition demo_frame :: "bool list \<Rightarrow> ui_event list \<Rightarrow> frame_input" where
  "demo_frame mods evs = \<lparr>fi_hover = None, fi_hovered = False, fi_dragged = False,
     fi_rect = \<lparr>rc_min = corner 0 0, rc_max = corner 320 240\<rparr>, fi_contains = (\<lambda>_. True), fi_focused = True,
     fi_mods = mods, fi_events = evs, fi_size = (640, 480)\<rparr>"

definition no_mods :: key_mods where
  "no_mods = \<lparr>km_ctrl = False, km_alt = False, km_command = False, km_mac = False\<rparr>"

lemma demo_attempt:
  assumes "ap_job a = Some j" and "\<not> rv_listener (ap_view a)" and "ct_sender (jb_control j)" and "ct_receiver (jb_control j)"
    and "\<not> ct_local_stop (jb_control j)" and "\<not> ct_cancelled (jb_control j)" and "length (ct_queue (jb_control j)) < ct_capacity (jb_control j)"
  shows "attempt ev (xs, a) = (True, xs @ [(ev, True)], a\<lparr>ap_job := Some (j\<lparr>jb_control := (jb_control j)\<lparr>ct_queue :=
    ct_queue (jb_control j) @ [DM_Input (rv_generation (ap_view a)) ev]\<rparr>\<rparr>)\<rparr>)"
  using assms by (simp add: attempt_def app_send_remote_def send_active_def active_job_def send_remote_def try_send_def
      set_active_control_def)

lemma demo_viewer_job:
  "ap_job demo_viewer = Some \<lparr>jb_task = TK_Remote (RT_Direct []) True False, jb_peer = demo_requester,
     jb_control = control_default\<lparr>ct_sender := True, ct_receiver := True\<rparr>\<rparr>"
  "rv_control (ap_view demo_viewer)" "\<not> rv_listener (ap_view demo_viewer)" "\<not> rv_focused (ap_view demo_viewer)"
  "rv_format (ap_view demo_viewer) = Some demo_format" "rv_buttons (ap_view demo_viewer) = [False, False, False]"
  "rv_modifiers (ap_view demo_viewer) = [False, False, False]"
  by (simp_all add: demo_viewer_def demo_app_def app_open_def app_new_def numeral_3_eq_3)

text \<open>
  Control and A are pressed, and control is released before A. The host is told of the press of A and never
  of its release: A stays held there until everything is released.
\<close>

lemma chord_release_lost:
  assumes "viewport_frame (demo_frame [True, False, False] [UE_Key ''A'' True (no_mods\<lparr>km_ctrl := True\<rparr>)]) demo_viewer = (xs, a)"
    and "viewport_frame (demo_frame [False, False, False] [UE_Key ''A'' False no_mods]) a = (ys, b)"
  shows "xs = [(I_Key 17 True, True), (I_Key 65 True, True)] \<and> ys = [(I_Key 17 False, True)]"
proof -
  have k: "virtual_key ''A'' = Some 65" "text_key 65"
    by (simp_all add: virtual_key_def VIRTUAL_KEYS_def text_key_def)
  have "xs = [(I_Key 17 True, True), (I_Key 65 True, True)] \<and>
     ap_job a = Some \<lparr>jb_task = TK_Remote (RT_Direct []) True False, jb_peer = demo_requester,
       jb_control = control_default\<lparr>ct_sender := True, ct_receiver := True,
         ct_queue := [DM_Input (rv_generation (ap_view demo_viewer)) (I_Key 17 True), DM_Input (rv_generation (ap_view demo_viewer)) (I_Key 65 True)]\<rparr>\<rparr> \<and>
     rv_control (ap_view a) \<and> \<not> rv_listener (ap_view a) \<and> rv_modifiers (ap_view a) = [True, False, False]"
    using assms(1) demo_viewer_job k
    by (auto simp: viewport_frame_def demo_frame_def no_mods_def pasting_def viewport_hover_def button_step_def pointer_button_def
        viewport_modifiers_def modifier_step_def demo_attempt on_view_def view_of_def viewport_key_def Let_def control_default_def)
  then show ?thesis
    using assms(2) k
    by (auto simp: viewport_frame_def demo_frame_def no_mods_def pasting_def viewport_hover_def button_step_def pointer_button_def
        viewport_modifiers_def modifier_step_def demo_attempt on_view_def view_of_def viewport_key_def Let_def control_default_def)
qed

lemma viewport_inputs_valid_witness:
  "input_validate demo_display (I_Key 17 True) = Inr ()"
proof -
  obtain xs a where f: "viewport_frame (demo_frame [True, False, False] [UE_Key ''A'' True (no_mods\<lparr>km_ctrl := True\<rparr>)]) demo_viewer = (xs, a)"
    by (cases "viewport_frame (demo_frame [True, False, False] [UE_Key ''A'' True (no_mods\<lparr>km_ctrl := True\<rparr>)]) demo_viewer")
  obtain ys b where g: "viewport_frame (demo_frame [False, False, False] [UE_Key ''A'' False no_mods]) a = (ys, b)"
    by (cases "viewport_frame (demo_frame [False, False, False] [UE_Key ''A'' False no_mods]) a")
  have d: "display_validate (vf_display demo_format) = Inr ()"
    by (simp add: display_validate_def pixels_def demo_format_def demo_display_def MAX_WIDTH_def MAX_HEIGHT_def MAX_PIXELS_def str_len_def Let_def)
  have "(I_Key 17 True, True) \<in> set xs"
    using chord_release_lost [OF f g] by simp
  then show ?thesis
    using viewport_inputs_valid [OF demo_viewer_job(5) d, of "I_Key 17 True" True
        "demo_frame [True, False, False] [UE_Key ''A'' True (no_mods\<lparr>km_ctrl := True\<rparr>)]"]
    by (simp add: f demo_format_def)
qed


end
