(* ===== verification/Sensor_Mft.thy ===== *)
theory Sensor_Mft
  imports Sensor_Media Sensor_Pixels
begin

section \<open>sensor-windows: the H.264 transforms\<close>

text \<open>
  The encoder and the decoder drive a Media Foundation transform. The transform itself is Windows': what
  its calls return is an input of the model, a script of outcomes. An asynchronous transform announces
  when it wants input and when it has output; the program counts the announcements and spends one for
  every call. The lemmas show that no call is made that was not announced, that every packet and every
  picture has the announced bounds and dimensions, and that waiting for input ends.
\<close>

subsection \<open>Errors and outcomes\<close>

datatype hresult = HR_StreamChange | HR_NeedMoreInput | HR_NoEvents | HR_Other nat

(* @src crates/sensor-windows/src/codec.rs:19-37 CodecError *)
datatype codec_error =
    CE_Windows hresult
  | CE_Media media_error
  | CE_Unavailable
  | CE_Timeout
  | CE_Invalid
  | CE_OutputDimensions nat nat nat nat

text \<open>What \<open>GetEvent\<close> returns, with its status and its type.\<close>

datatype mft_event = ME_NeedInput | ME_HaveOutput | ME_Unknown | ME_Failed hresult

text \<open>A sample: its bytes, its time, and whether it is marked as a clean point.\<close>

record mf_sample =
  ms_bytes :: bytes
  ms_time :: "hresult + int"
  ms_clean :: bool

text \<open>
  The state of the engine. The last four fields count what the transform announced and what was called;
  the program has no such counters.
\<close>

(* @src crates/sensor-windows/src/codec.rs:222-227 Engine *)
record engine =
  en_async :: bool
  en_input_ready :: nat
  en_output_ready :: nat
  en_wanted :: nat
  en_had :: nat
  en_inputs :: nat
  en_outputs :: nat

(* @src crates/sensor-windows/src/codec.rs:243-253 Engine::new *)
definition engine_new :: "bool \<Rightarrow> engine" where
  "engine_new asynchronous = \<lparr>en_async = asynchronous, en_input_ready = 0, en_output_ready = 0, en_wanted = 0, en_had = 0,
     en_inputs = 0, en_outputs = 0\<rparr>"

definition saturating_inc :: "nat \<Rightarrow> nat" where
  "saturating_inc n = min (2 ^ 32 - 1) (n + 1)"

subsection \<open>Announcements\<close>

text \<open>At most 128 events are taken; when there are no more, the rest of the script is left.\<close>

(* @src crates/sensor-windows/src/codec.rs:265-283 Engine::pump, the loop *)
fun pump_events :: "nat \<Rightarrow> mft_event list \<Rightarrow> engine \<Rightarrow> (codec_error + unit) \<times> engine" where
  "pump_events 0 evs e = (Inr (), e)"
| "pump_events (Suc n) [] e = (Inr (), e)"
| "pump_events (Suc n) (ME_Failed h # evs) e = (Inl (CE_Windows h), e)"
| "pump_events (Suc n) (ME_NeedInput # evs) e =
     pump_events n evs (e\<lparr>en_input_ready := saturating_inc (en_input_ready e), en_wanted := en_wanted e + 1\<rparr>)"
| "pump_events (Suc n) (ME_HaveOutput # evs) e =
     pump_events n evs (e\<lparr>en_output_ready := saturating_inc (en_output_ready e), en_had := en_had e + 1\<rparr>)"
| "pump_events (Suc n) (ME_Unknown # evs) e = pump_events n evs e"

(* @src crates/sensor-windows/src/codec.rs:263-286 Engine::pump *)
definition pump :: "mft_event list \<Rightarrow> engine \<Rightarrow> (codec_error + unit) \<times> engine" where
  "pump evs e = (if en_async e then pump_events 128 evs e else (Inr (), e))"

subsection \<open>Input\<close>

text \<open>A turn of waiting: the events that are there, and the clock, in milliseconds, after taking them. \<open>None\<close>: it
  is still waiting.\<close>

(* @src crates/sensor-windows/src/codec.rs:290-298 Engine::input, the loop *)
fun await_input :: "nat \<Rightarrow> (mft_event list \<times> nat) list \<Rightarrow> engine \<Rightarrow> ((codec_error + unit) \<times> engine) option" where
  "await_input deadline [] e = (if en_input_ready e = 0 then None else Some (Inr (), e))"
| "await_input deadline ((evs, now) # turns) e =
     (if en_input_ready e \<noteq> 0 then Some (Inr (), e)
      else case pump evs e of
          (Inl err, e) \<Rightarrow> Some (Inl err, e)
        | (Inr _, e) \<Rightarrow> if deadline < now then Some (Inl CE_Timeout, e) else await_input deadline turns e)"

record input_turn =
  it_start :: nat
  it_turns :: "(mft_event list \<times> nat) list"
  it_process :: "hresult option"

(* @src crates/sensor-windows/src/codec.rs:287-305 Engine::input *)
definition engine_input :: "input_turn \<Rightarrow> engine \<Rightarrow> ((codec_error + unit) \<times> engine) option" where
  "engine_input T e =
     (case (if en_async e
            then map_option (\<lambda>(r, e). (r, if is_ok r then e\<lparr>en_input_ready := en_input_ready e - 1\<rparr> else e))
                   (await_input (it_start T + 2000) (it_turns T) e)
            else Some (Inr (), e)) of
        None \<Rightarrow> None
      | Some (Inl err, e) \<Rightarrow> Some (Inl err, e)
      | Some (Inr _, e) \<Rightarrow>
          Some (case it_process T of None \<Rightarrow> Inr () | Some h \<Rightarrow> Inl (CE_Windows h), e\<lparr>en_inputs := en_inputs e + 1\<rparr>))"

subsection \<open>Output\<close>

text \<open>
  The outcomes of asking for one output: the events, what \<open>GetOutputStreamInfo\<close> says (whether the
  transform provides the sample, and the size it wants), whether a sample can be made, and what
  \<open>ProcessOutput\<close> returns; a sample may be missing even then.
\<close>

record output_turn =
  ot_events :: "mft_event list"
  ot_info :: "hresult + (bool \<times> nat)"
  ot_alloc :: "hresult option"
  ot_process :: "hresult + mf_sample option"

(* @src crates/sensor-windows/src/codec.rs:306-345 Engine::output *)
definition engine_output :: "nat \<Rightarrow> output_turn \<Rightarrow> engine \<Rightarrow> (codec_error + mf_sample option) \<times> engine" where
  "engine_output maximum T e =
     (case pump (ot_events T) e of
        (Inl err, e) \<Rightarrow> (Inl err, e)
      | (Inr _, e) \<Rightarrow>
          if en_async e \<and> en_output_ready e = 0 then (Inr None, e)
          else let e = (if en_async e then e\<lparr>en_output_ready := en_output_ready e - 1\<rparr> else e)
            in case ot_info T of
                 Inl h \<Rightarrow> (Inl (CE_Windows h), e)
               | Inr (provides, wanted) \<Rightarrow>
                   if \<not> provides \<and> maximum < max wanted 4096 then (Inl CE_Invalid, e)
                   else case (if provides then None else ot_alloc T) of
                     Some h \<Rightarrow> (Inl (CE_Windows h), e)
                   | None \<Rightarrow>
                       (case ot_process T of
                          Inr s \<Rightarrow> Inr s
                        | Inl HR_NeedMoreInput \<Rightarrow> Inr None
                        | Inl h \<Rightarrow> Inl (CE_Windows h), e\<lparr>en_outputs := en_outputs e + 1\<rparr>))"

(* @src crates/sensor-windows/src/codec.rs:192-211 sample_bytes *)
definition sample_bytes :: "mf_sample \<Rightarrow> nat \<Rightarrow> codec_error option \<Rightarrow> codec_error + bytes" where
  "sample_bytes s maximum failure =
     (case failure of
        Some err \<Rightarrow> Inl err
      | None \<Rightarrow> if maximum < length (ms_bytes s) then Inl CE_Invalid else Inr (ms_bytes s))"

text \<open>A sample is made of at least one byte and at most the size of the largest picture; Windows may refuse.\<close>

(* @src crates/sensor-windows/src/codec.rs:170-191 sample *)
definition sample_new :: "bytes \<Rightarrow> codec_error option \<Rightarrow> codec_error + unit" where
  "sample_new bs failure =
     (if bs = [] \<or> MAX_PIXELS * 4 < length bs then Inl CE_Invalid
      else case failure of Some err \<Rightarrow> Inl err | None \<Rightarrow> Inr ())"

subsection \<open>Media types\<close>

datatype subtype = ST_H264 | ST_NV12 | ST_Unknown

text \<open>Width and height are packed in one attribute.\<close>

(* @src crates/sensor-windows/src/codec.rs:162-162 video_type, the frame size *)
definition frame_size :: "nat \<Rightarrow> nat \<Rightarrow> u64" where
  "frame_size width height = push_bit 32 (word_of_nat width) OR word_of_nat height"

(* @src crates/sensor-windows/src/codec.rs:579-580 decoder_layout, the storage *)
definition size_parts :: "u64 \<Rightarrow> nat \<times> nat" where
  "size_parts s = (unat (drop_bit 32 s), unat (take_bit 32 s))"

text \<open>An aperture: the offset with its fractions, and the area.\<close>

record aperture =
  ar_x :: int
  ar_x_fract :: nat
  ar_y :: int
  ar_y_fract :: nat
  ar_width :: int
  ar_height :: int

text \<open>
  What a media type says: its subtype, its size, the two apertures when they are present and complete, and
  its stride; \<open>my_set\<close> is the outcome of choosing it as the output type.
\<close>

record media_type =
  my_subtype :: "hresult + subtype"
  my_size :: "hresult + u64"
  my_apertures :: "aperture option list"
  my_stride :: "nat option"
  my_set :: "hresult option"

subsection \<open>The encoder\<close>

(* @src crates/sensor-windows/src/codec.rs:364-372 H264Encoder *)
record encoder =
  ec_engine :: engine
  ec_name :: rstr
  ec_hardware :: bool
  ec_width :: nat
  ec_height :: nat
  ec_fps :: nat

(* @src crates/sensor-windows/src/codec.rs:381-389 H264Encoder::new, the checks *)
definition encoder_check :: "nat \<Rightarrow> nat \<Rightarrow> nat \<Rightarrow> nat \<Rightarrow> codec_error + unit" where
  "encoder_check width height fps bitrate =
     res_bind (map_err CE_Media (pixels width height)) (\<lambda>_.
       if width mod 2 \<noteq> 0 \<or> height mod 2 \<noteq> 0 \<or> fps = 0 \<or> fps > 60 \<or> \<not> (100000 \<le> bitrate \<and> bitrate \<le> 50000000)
       then Inl CE_Invalid else Inr ())"

text \<open>Setting up one transform of a list fails, or gives whether it is asynchronous, and its name. The first that
  can be set up is taken.\<close>

(* @src crates/sensor-windows/src/codec.rs:454-467 H264Encoder::new, the transforms *)
fun first_transform :: "(hresult + bool \<times> rstr) list \<Rightarrow> (bool \<times> rstr) option" where
  "first_transform [] = None"
| "first_transform (Inr x # xs) = Some x"
| "first_transform (Inl h # xs) = first_transform xs"

(* @src crates/sensor-windows/src/codec.rs:374-405 H264Encoder::new *)
definition encoder_new ::
  "nat \<Rightarrow> nat \<Rightarrow> nat \<Rightarrow> nat \<Rightarrow> bool \<Rightarrow> hresult option \<Rightarrow> (bool \<Rightarrow> codec_error + (hresult + bool \<times> rstr) list) \<Rightarrow>
   codec_error + encoder" where
  "encoder_new width height fps bitrate prefer_hardware startup transforms =
     res_bind (encoder_check width height fps bitrate) (\<lambda>_.
       case startup of
         Some h \<Rightarrow> Inl (CE_Windows h)
       | None \<Rightarrow>
           (let made = (\<lambda>hardware (asynchronous, name). \<lparr>ec_engine = engine_new asynchronous, ec_name = name,
                  ec_hardware = hardware, ec_width = width, ec_height = height, ec_fps = fps\<rparr>);
                software = (case transforms False of
                    Inl err \<Rightarrow> Inl err
                  | Inr xs \<Rightarrow> (case first_transform xs of None \<Rightarrow> Inl CE_Unavailable | Some x \<Rightarrow> Inr (made False x)))
            in if \<not> prefer_hardware then software
               else case transforms True of
                   Inl _ \<Rightarrow> software
                 | Inr xs \<Rightarrow> (case first_transform xs of None \<Rightarrow> software | Some x \<Rightarrow> Inr (made True x))))"

(* @src crates/sensor-windows/src/codec.rs:471-482 H264Encoder::set_bitrate *)
definition set_bitrate :: "nat \<Rightarrow> hresult option \<Rightarrow> codec_error + unit" where
  "set_bitrate bitrate failure =
     (if \<not> (100000 \<le> bitrate \<and> bitrate \<le> 50000000) then Inl CE_Invalid
      else case failure of Some h \<Rightarrow> Inl (CE_Windows h) | None \<Rightarrow> Inr ())"

text \<open>A changed stream: of the first 32 types that are offered, the first of H.264 in the right size that can be
  chosen.\<close>

(* @src crates/sensor-windows/src/codec.rs:506-529 H264Encoder::available, the type *)
fun encoder_type :: "nat \<Rightarrow> nat \<Rightarrow> nat \<Rightarrow> media_type list \<Rightarrow> codec_error + bool" where
  "encoder_type 0 width height ms = Inr False"
| "encoder_type (Suc n) width height [] = Inr False"
| "encoder_type (Suc n) width height (m # ms) =
     (case my_subtype m of
        Inl h \<Rightarrow> Inl (CE_Windows h)
      | Inr st \<Rightarrow>
          if st \<noteq> ST_H264 then encoder_type n width height ms
          else case my_size m of
              Inl h \<Rightarrow> Inl (CE_Windows h)
            | Inr s \<Rightarrow>
                if size_parts s \<noteq> (width, height) then encoder_type n width height ms
                else if my_set m = None then Inr True else encoder_type n width height ms)"

record codec_turn =
  cu_output :: output_turn
  cu_types :: "media_type list"
  cu_copy :: "codec_error option"

text \<open>At most 16 outputs are taken; \<open>turns n\<close> is the outcome of the attempt with \<open>n\<close> more to come.\<close>

(* @src crates/sensor-windows/src/codec.rs:500-549 H264Encoder::available *)
fun encoder_available ::
  "nat \<Rightarrow> (nat \<Rightarrow> codec_turn) \<Rightarrow> nat \<Rightarrow> nat \<Rightarrow> engine \<Rightarrow> (codec_error + encoded_frame list) \<times> engine" where
  "encoder_available 0 turns width height e = (Inr [], e)"
| "encoder_available (Suc n) turns width height e =
     (let T = turns n
      in case engine_output MAX_ENCODED_FRAME (cu_output T) e of
           (Inl (CE_Windows HR_StreamChange), e) \<Rightarrow>
             (case encoder_type 32 width height (cu_types T) of
                Inl err \<Rightarrow> (Inl err, e)
              | Inr chosen \<Rightarrow> if chosen then encoder_available n turns width height e else (Inl CE_Invalid, e))
         | (Inl err, e) \<Rightarrow> (Inl err, e)
         | (Inr None, e) \<Rightarrow> (Inr [], e)
         | (Inr (Some s), e) \<Rightarrow>
             (case sample_bytes s MAX_ENCODED_FRAME (cu_copy T) of
                Inl err \<Rightarrow> (Inl err, e)
              | Inr bs \<Rightarrow>
                  if bs = [] then encoder_available n turns width height e
                  else case ms_time s of
                      Inl h \<Rightarrow> (Inl (CE_Windows h), e)
                    | Inr time \<Rightarrow>
                        (case encoder_available n turns width height e of
                           (Inl err, e) \<Rightarrow> (Inl err, e)
                         | (Inr fs, e) \<Rightarrow>
                             (Inr (\<lparr>ef_timestamp = time, ef_keyframe = ms_clean s, ef_bytes = bs\<rparr> # fs), e))))"

record encode_turn =
  eu_before :: "nat \<Rightarrow> codec_turn"
  eu_sample :: "codec_error option"
  eu_input :: input_turn
  eu_after :: "nat \<Rightarrow> codec_turn"

(* @src crates/sensor-windows/src/codec.rs:483-499 H264Encoder::encode *)
definition encoder_encode ::
  "bytes \<Rightarrow> int \<Rightarrow> encode_turn \<Rightarrow> encoder \<Rightarrow> ((codec_error + encoded_frame list) \<times> encoder) option" where
  "encoder_encode nv12 timestamp U c =
     (if length nv12 \<noteq> ec_width c * ec_height c * 3 div 2 \<or> timestamp < 0 then Some (Inl CE_Invalid, c)
      else case encoder_available 16 (eu_before U) (ec_width c) (ec_height c) (ec_engine c) of
          (Inl err, e) \<Rightarrow> Some (Inl err, c\<lparr>ec_engine := e\<rparr>)
        | (Inr before, e) \<Rightarrow>
            (case sample_new nv12 (eu_sample U) of
               Inl err \<Rightarrow> Some (Inl err, c\<lparr>ec_engine := e\<rparr>)
             | Inr _ \<Rightarrow>
                 (case engine_input (eu_input U) e of
                    None \<Rightarrow> None
                  | Some (Inl err, e) \<Rightarrow> Some (Inl err, c\<lparr>ec_engine := e\<rparr>)
                  | Some (Inr _, e) \<Rightarrow>
                      (case encoder_available 16 (eu_after U) (ec_width c) (ec_height c) e of
                         (Inl err, e) \<Rightarrow> Some (Inl err, c\<lparr>ec_engine := e\<rparr>)
                       | (Inr rest, e) \<Rightarrow> Some (Inr (before @ rest), c\<lparr>ec_engine := e\<rparr>)))))"

text \<open>Draining: until half a second has passed, or at once when the transform is synchronous. Each round is a
  script of outputs and the clock after it.\<close>

(* @src crates/sensor-windows/src/codec.rs:558-564 H264Encoder::drain, the loop *)
fun drain_loop ::
  "nat \<Rightarrow> ((nat \<Rightarrow> codec_turn) \<times> nat) list \<Rightarrow> nat \<Rightarrow> nat \<Rightarrow> engine \<Rightarrow> ((codec_error + encoded_frame list) \<times> engine) option" where
  "drain_loop until [] width height e = None"
| "drain_loop until ((turns, now) # rounds) width height e =
     (case encoder_available 16 turns width height e of
        (Inl err, e) \<Rightarrow> Some (Inl err, e)
      | (Inr fs, e) \<Rightarrow>
          if \<not> en_async e \<or> until \<le> now then Some (Inr fs, e)
          else case drain_loop until rounds width height e of
              None \<Rightarrow> None
            | Some (Inl err, e) \<Rightarrow> Some (Inl err, e)
            | Some (Inr gs, e) \<Rightarrow> Some (Inr (fs @ gs), e))"

(* @src crates/sensor-windows/src/codec.rs:550-566 H264Encoder::drain *)
definition encoder_drain ::
  "hresult option \<Rightarrow> nat \<Rightarrow> ((nat \<Rightarrow> codec_turn) \<times> nat) list \<Rightarrow> encoder \<Rightarrow>
   ((codec_error + encoded_frame list) \<times> encoder) option" where
  "encoder_drain failure start rounds c =
     (case failure of
        Some h \<Rightarrow> Some (Inl (CE_Windows h), c)
      | None \<Rightarrow> map_option (\<lambda>(r, e). (r, c\<lparr>ec_engine := e\<rparr>))
          (drain_loop (start + 500) rounds (ec_width c) (ec_height c) (ec_engine c)))"

subsection \<open>The decoder\<close>

(* @src crates/sensor-windows/src/codec.rs:569-575 H264Decoder *)
record decoder =
  dc_engine :: engine
  dc_width :: nat
  dc_height :: nat
  dc_fps :: nat

text \<open>The next multiple of 16: codecs store whole macroblocks.\<close>

definition align16 :: "nat \<Rightarrow> nat" where
  "align16 n = (n + 15) div 16 * 16"

(* @src crates/sensor-windows/src/codec.rs:598-603 decoder_layout, an aperture *)
definition aperture_shows :: "nat \<Rightarrow> nat \<Rightarrow> aperture \<Rightarrow> bool" where
  "aperture_shows width height a \<longleftrightarrow>
     ar_x a = 0 \<and> ar_x_fract a = 0 \<and> ar_y a = 0 \<and> ar_y_fract a = 0 \<and> ar_width a = int width \<and> ar_height a = int height"

text \<open>The picture may be stored with padding only when an aperture says which part is visible.\<close>

(* @src crates/sensor-windows/src/codec.rs:578-616 decoder_layout *)
definition decoder_layout :: "media_type \<Rightarrow> nat \<Rightarrow> nat \<Rightarrow> codec_error + nat \<times> nat" where
  "decoder_layout m width height =
     (case my_size m of
        Inl h \<Rightarrow> Inl (CE_Windows h)
      | Inr s \<Rightarrow>
          (let (storage_w, storage_h) = size_parts s
           in res_bind (map_err CE_Media (pixels storage_w storage_h)) (\<lambda>_.
              if (storage_w, storage_h) = (width, height) then Inr (storage_w, storage_h)
              else if width \<le> storage_w \<and> height \<le> storage_h \<and> storage_w \<le> align16 width \<and> storage_h \<le> align16 height \<and>
                list_ex (\<lambda>a. case a of None \<Rightarrow> False | Some a \<Rightarrow> aperture_shows width height a) (my_apertures m)
              then Inr (storage_w, storage_h)
              else Inl (CE_OutputDimensions width height storage_w storage_h))))"

(* @src crates/sensor-windows/src/codec.rs:618-630 H264Decoder::new *)
definition decoder_new ::
  "nat \<Rightarrow> nat \<Rightarrow> nat \<Rightarrow> hresult option \<Rightarrow> codec_error + (hresult + bool \<times> rstr) list \<Rightarrow> codec_error + decoder" where
  "decoder_new width height fps startup transforms =
     res_bind (map_err CE_Media (pixels width height)) (\<lambda>_.
       if fps = 0 \<or> fps > 60 then Inl CE_Invalid
       else case startup of
           Some h \<Rightarrow> Inl (CE_Windows h)
         | None \<Rightarrow> res_bind transforms (\<lambda>xs.
             case first_transform xs of
               None \<Rightarrow> Inl CE_Unavailable
             | Some (asynchronous, name) \<Rightarrow>
                 Inr \<lparr>dc_engine = engine_new asynchronous, dc_width = width, dc_height = height, dc_fps = fps\<rparr>))"

text \<open>A changed stream: the first NV12 type of the first 32 must have a layout that shows the picture, and be
  chosen.\<close>

(* @src crates/sensor-windows/src/codec.rs:674-695 H264Decoder::decode, the type *)
fun decoder_type :: "nat \<Rightarrow> nat \<Rightarrow> nat \<Rightarrow> media_type list \<Rightarrow> codec_error + unit" where
  "decoder_type 0 width height ms = Inl CE_Invalid"
| "decoder_type (Suc n) width height [] = Inl CE_Invalid"
| "decoder_type (Suc n) width height (m # ms) =
     (case my_subtype m of
        Inl h \<Rightarrow> Inl (CE_Windows h)
      | Inr st \<Rightarrow>
          if st \<noteq> ST_NV12 then decoder_type n width height ms
          else res_bind (decoder_layout m width height) (\<lambda>_.
            case my_set m of Some h \<Rightarrow> Inl (CE_Windows h) | None \<Rightarrow> Inr ()))"

text \<open>\<open>du_current\<close>: the type that is current when a sample is there.\<close>

record decode_turn =
  du_output :: output_turn
  du_types :: "media_type list"
  du_current :: "hresult + media_type"
  du_copy :: "codec_error option"

(* @src crates/sensor-windows/src/codec.rs:670-715 H264Decoder::decode, the loop *)
fun decode_outputs ::
  "bool \<Rightarrow> nat \<Rightarrow> (nat \<Rightarrow> decode_turn) \<Rightarrow> nat \<Rightarrow> nat \<Rightarrow> engine \<Rightarrow> (codec_error + decoded_frame list) \<times> engine" where
  "decode_outputs avx2 0 turns width height e = (Inr [], e)"
| "decode_outputs avx2 (Suc n) turns width height e =
     (let T = turns n
      in case engine_output (MAX_PIXELS * 4) (du_output T) e of
           (Inl (CE_Windows HR_StreamChange), e) \<Rightarrow>
             (case decoder_type 32 width height (du_types T) of
                Inl err \<Rightarrow> (Inl err, e)
              | Inr _ \<Rightarrow> decode_outputs avx2 n turns width height e)
         | (Inl err, e) \<Rightarrow> (Inl err, e)
         | (Inr None, e) \<Rightarrow> (Inr [], e)
         | (Inr (Some s), e) \<Rightarrow>
             (case res_bind (map_err CE_Windows (du_current T)) (\<lambda>m.
                   res_bind (decoder_layout m width height) (\<lambda>(storage_w, storage_h).
                   res_bind (sample_bytes s (MAX_PIXELS * 4) (du_copy T)) (\<lambda>bs.
                   map_err CE_Media (nv12_to_rgba_padded avx2 bs width height
                     (case my_stride m of None \<Rightarrow> storage_w | Some k \<Rightarrow> k) storage_h)))) of
                Inl err \<Rightarrow> (Inl err, e)
              | Inr f \<Rightarrow>
                  (case decode_outputs avx2 n turns width height e of
                     (Inl err, e) \<Rightarrow> (Inl err, e)
                   | (Inr fs, e) \<Rightarrow> (Inr (f # fs), e))))"

(* @src crates/sensor-windows/src/codec.rs:660-717 H264Decoder::decode *)
definition decoder_decode ::
  "bool \<Rightarrow> encoded_frame \<Rightarrow> codec_error option \<Rightarrow> input_turn \<Rightarrow> (nat \<Rightarrow> decode_turn) \<Rightarrow> decoder \<Rightarrow>
   ((codec_error + decoded_frame list) \<times> decoder) option" where
  "decoder_decode avx2 f sample_failure T turns d =
     (if ef_bytes f = [] \<or> MAX_ENCODED_FRAME < length (ef_bytes f) then Some (Inl CE_Invalid, d)
      else case sample_new (ef_bytes f) sample_failure of
          Inl err \<Rightarrow> Some (Inl err, d)
        | Inr _ \<Rightarrow>
            (case engine_input T (dc_engine d) of
               None \<Rightarrow> None
             | Some (Inl err, e) \<Rightarrow> Some (Inl err, d\<lparr>dc_engine := e\<rparr>)
             | Some (Inr _, e) \<Rightarrow>
                 (case decode_outputs avx2 16 turns (dc_width d) (dc_height d) e of
                    (r, e) \<Rightarrow> Some (r, d\<lparr>dc_engine := e\<rparr>))))"

subsection \<open>No call without an announcement\<close>

text \<open>An asynchronous engine has spent no more than was announced.\<close>

definition engine_ok :: "engine \<Rightarrow> bool" where
  "engine_ok e \<longleftrightarrow> (en_async e \<longrightarrow>
     en_input_ready e + en_inputs e \<le> en_wanted e \<and> en_output_ready e + en_outputs e \<le> en_had e)"

lemma engine_new_ok: "engine_ok (engine_new asynchronous)"
  by (simp add: engine_ok_def engine_new_def)

lemma engine_ok_announce:
  "engine_ok e \<Longrightarrow> engine_ok (e\<lparr>en_input_ready := saturating_inc (en_input_ready e), en_wanted := en_wanted e + 1\<rparr>)"
  "engine_ok e \<Longrightarrow> engine_ok (e\<lparr>en_output_ready := saturating_inc (en_output_ready e), en_had := en_had e + 1\<rparr>)"
proof -
  have "saturating_inc n \<le> n + 1" for n
    by (simp add: saturating_inc_def)
  from this [of "en_input_ready e"] this [of "en_output_ready e"]
  show "engine_ok e \<Longrightarrow> engine_ok (e\<lparr>en_input_ready := saturating_inc (en_input_ready e), en_wanted := en_wanted e + 1\<rparr>)"
    and "engine_ok e \<Longrightarrow> engine_ok (e\<lparr>en_output_ready := saturating_inc (en_output_ready e), en_had := en_had e + 1\<rparr>)"
    by (auto simp: engine_ok_def)
qed

lemma pump_events_ok: "engine_ok e \<Longrightarrow> engine_ok (snd (pump_events n evs e)) \<and> en_async (snd (pump_events n evs e)) = en_async e"
proof (induction n evs e rule: pump_events.induct)
  case (4 n evs e)
  then show ?case
    using engine_ok_announce(1) by simp
next
  case (5 n evs e)
  then show ?case
    using engine_ok_announce(2) by simp
qed simp_all

lemma pump_ok: "engine_ok e \<Longrightarrow> pump evs e = (r, e') \<Longrightarrow> engine_ok e' \<and> en_async e' = en_async e"
  using pump_events_ok [of e 128 evs] by (auto simp: pump_def split: if_splits)

lemma await_ok:
  "engine_ok e \<Longrightarrow> await_input dl turns e = Some (r, e') \<Longrightarrow>
    engine_ok e' \<and> en_async e' = en_async e \<and> (is_ok r \<longrightarrow> en_input_ready e' \<noteq> 0)"
proof (induction dl turns e rule: await_input.induct)
  case (2 dl evs now turns e)
  obtain p e1 where p: "pump evs e = (p, e1)"
    by (cases "pump evs e")
  have ok: "engine_ok e1 \<and> en_async e1 = en_async e"
    using pump_ok [OF 2(2) p] .
  show ?case
  proof (cases "en_input_ready e \<noteq> 0")
    case True
    then show ?thesis
      using 2(2,3) by (auto simp: is_ok_iff)
  next
    case False
    then show ?thesis
      using 2(1) [OF _ p [symmetric]] 2(3) ok p by (cases p) (auto simp: is_ok_iff split: if_splits)
  qed
qed (auto split: if_splits)

lemma engine_input_ok:
  assumes "engine_ok e" and "engine_input T e = Some (r, e')"
  shows "engine_ok e' \<and> en_async e' = en_async e"
proof (cases "en_async e")
  case True
  show ?thesis
  proof (cases "await_input (it_start T + 2000) (it_turns T) e")
    case (Some q)
    obtain r1 e1 where q: "q = (r1, e1)"
      by (cases q)
    note a = await_ok [OF assms(1) Some [unfolded q]]
    then show ?thesis
      using assms(2) True Some q by (cases r1) (auto simp: engine_input_def engine_ok_def is_ok_iff)
  qed (use assms(2) True in \<open>simp add: engine_input_def\<close>)
next
  case False
  then show ?thesis
    using assms by (auto simp: engine_input_def engine_ok_def)
qed

lemma engine_output_ok:
  assumes "engine_ok e" and "engine_output maximum T e = (r, e')"
  shows "engine_ok e' \<and> en_async e' = en_async e"
proof -
  obtain p e1 where p: "pump (ot_events T) e = (p, e1)"
    by (cases "pump (ot_events T) e")
  note ok = pump_ok [OF assms(1) p]
  define e2 where "e2 = (if en_async e1 then e1\<lparr>en_output_ready := en_output_ready e1 - 1\<rparr> else e1)"
  show ?thesis
  proof (cases "is_ok p \<and> \<not> (en_async e1 \<and> en_output_ready e1 = 0)")
    case True
    then have "engine_ok e2 \<and> engine_ok (e2\<lparr>en_outputs := en_outputs e2 + 1\<rparr>) \<and> en_async e2 = en_async e"
      using ok by (auto simp: e2_def engine_ok_def)
    moreover have "e' = e2 \<or> e' = e2\<lparr>en_outputs := en_outputs e2 + 1\<rparr>"
      using assms(2) True by (auto simp: engine_output_def p e2_def [symmetric] is_ok_iff Let_def split: sum.splits if_splits option.splits prod.splits)
    ultimately show ?thesis
      by auto
  next
    case False
    then show ?thesis
      using assms(2) ok by (cases p) (auto simp: engine_output_def p is_ok_iff)
  qed
qed

lemma encoder_available_ok:
  "engine_ok e \<Longrightarrow> encoder_available n turns w h e = (r, e') \<Longrightarrow> engine_ok e' \<and> en_async e' = en_async e"
proof (induction n arbitrary: e r e')
  case (Suc n)
  obtain q e1 where out: "engine_output MAX_ENCODED_FRAME (cu_output (turns n)) e = (q, e1)"
    by (cases "engine_output MAX_ENCODED_FRAME (cu_output (turns n)) e")
  have ok: "engine_ok e1" "en_async e1 = en_async e"
    using engine_output_ok [OF Suc.prems(1) out] by blast+
  obtain r2 e2 where rest: "encoder_available n turns w h e1 = (r2, e2)"
    by (cases "encoder_available n turns w h e1")
  have "engine_ok e2" "en_async e2 = en_async e1"
    using Suc.IH [OF ok(1) rest] by blast+
  moreover have "e' = e1 \<or> e' = e2"
    using Suc.prems(2) out rest
    by (auto simp: Let_def split: sum.splits option.splits if_splits codec_error.splits hresult.splits)
  ultimately show ?case
    using ok by auto
qed simp

lemma encoder_available_valid:
  "encoder_available n turns w h e = (Inr fs, e') \<Longrightarrow>
    length fs \<le> n \<and> (\<forall>f\<in>set fs. ef_bytes f \<noteq> [] \<and> length (ef_bytes f) \<le> MAX_ENCODED_FRAME)"
proof (induction n arbitrary: e fs e')
  case (Suc n)
  obtain q e1 where out: "engine_output MAX_ENCODED_FRAME (cu_output (turns n)) e = (q, e1)"
    by (cases "engine_output MAX_ENCODED_FRAME (cu_output (turns n)) e")
  obtain r2 e2 where rest: "encoder_available n turns w h e1 = (r2, e2)"
    by (cases "encoder_available n turns w h e1")
  show ?case
  proof (cases "r2 = Inr fs \<or> fs = []")
    case True
    then show ?thesis
      using Suc.IH [of e1 fs e2] rest by auto
  next
    case False
    then obtain s bs tm gs where "q = Inr (Some s)" "sample_bytes s MAX_ENCODED_FRAME (cu_copy (turns n)) = Inr bs" "bs \<noteq> []"
        "r2 = Inr gs" "fs = \<lparr>ef_timestamp = tm, ef_keyframe = ms_clean s, ef_bytes = bs\<rparr> # gs"
      using Suc.prems out rest
      by (auto simp: Let_def split: sum.splits option.splits if_splits codec_error.splits hresult.splits)
    then show ?thesis
      using Suc.IH [of e1 gs e2] rest by (auto simp: sample_bytes_def split: option.splits if_splits)
  qed
qed simp

text \<open>An operation on the encoder, and a run of them; it ends with the first error, as the caller drops the
  encoder then.\<close>

datatype encoder_op = EO_Encode bytes int encode_turn | EO_Drain "hresult option" nat "((nat \<Rightarrow> codec_turn) \<times> nat) list"

fun encoder_step :: "encoder_op \<Rightarrow> encoder \<Rightarrow> ((codec_error + encoded_frame list) \<times> encoder) option" where
  "encoder_step (EO_Encode nv12 timestamp U) c = encoder_encode nv12 timestamp U c"
| "encoder_step (EO_Drain failure start rounds) c = encoder_drain failure start rounds c"

fun encoder_run :: "encoder_op list \<Rightarrow> encoder \<Rightarrow> ((codec_error + encoded_frame list) \<times> encoder) option" where
  "encoder_run [] c = Some (Inr [], c)"
| "encoder_run (op # ops) c =
     (case encoder_step op c of
        None \<Rightarrow> None
      | Some (Inl err, c) \<Rightarrow> Some (Inl err, c)
      | Some (Inr fs, c) \<Rightarrow>
          (case encoder_run ops c of
             None \<Rightarrow> None
           | Some (Inl err, c) \<Rightarrow> Some (Inl err, c)
           | Some (Inr gs, c) \<Rightarrow> Some (Inr (fs @ gs), c)))"

lemma drain_loop_ok:
  "engine_ok e \<Longrightarrow> drain_loop until rounds w h e = Some (r, e') \<Longrightarrow> engine_ok e' \<and>
    (\<forall>fs. r = Inr fs \<longrightarrow> (\<forall>f\<in>set fs. ef_bytes f \<noteq> [] \<and> length (ef_bytes f) \<le> MAX_ENCODED_FRAME))"
proof (induction rounds arbitrary: e r e')
  case (Cons round rounds)
  obtain turns now where round: "round = (turns, now)"
    by (cases round)
  obtain a e1 where av: "encoder_available 16 turns w h e = (a, e1)"
    by (cases "encoder_available 16 turns w h e")
  have ok: "engine_ok e1"
    using encoder_available_ok [OF Cons.prems(1) av] by blast
  show ?case
  proof (cases a)
    case (Inl err)
    then show ?thesis
      using Cons.prems(2) av round ok by auto
  next
    case (Inr fs)
    have valid: "\<forall>f\<in>set fs. ef_bytes f \<noteq> [] \<and> length (ef_bytes f) \<le> MAX_ENCODED_FRAME"
      using encoder_available_valid av Inr by blast
    show ?thesis
    proof (cases "\<not> en_async e1 \<or> until \<le> now")
      case True
      then show ?thesis
        using Cons.prems(2) av round ok valid Inr by auto
    next
      case False
      then obtain r1 e2 where rest: "drain_loop until rounds w h e1 = Some (r1, e2)"
        using Cons.prems(2) av round Inr by (auto split: option.splits)
      show ?thesis
        using Cons.IH [OF ok rest] Cons.prems(2) av round Inr False rest valid by (cases r1) auto
    qed
  qed
qed simp

lemma encoder_step_ok:
  assumes "engine_ok (ec_engine c)" and "encoder_step op c = Some (r, c')"
  shows "engine_ok (ec_engine c') \<and>
    (\<forall>fs. r = Inr fs \<longrightarrow> (\<forall>f\<in>set fs. ef_bytes f \<noteq> [] \<and> length (ef_bytes f) \<le> MAX_ENCODED_FRAME))"
proof (cases op)
  case (EO_Drain failure start rounds)
  then show ?thesis
    using assms drain_loop_ok [OF assms(1)] by (auto simp: encoder_drain_def split: option.splits)
next
  case (EO_Encode nv12 timestamp U)
  obtain a e1 where av: "encoder_available 16 (eu_before U) (ec_width c) (ec_height c) (ec_engine c) = (a, e1)"
    by (cases "encoder_available 16 (eu_before U) (ec_width c) (ec_height c) (ec_engine c)")
  have ok1: "engine_ok e1"
    using encoder_available_ok [OF assms(1) av] by blast
  show ?thesis
  proof (cases "\<exists>before e2. a = Inr before \<and> sample_new nv12 (eu_sample U) = Inr () \<and> engine_input (eu_input U) e1 = Some (Inr (), e2)")
    case True
    then obtain before e2 where a: "a = Inr before" "sample_new nv12 (eu_sample U) = Inr ()"
        "engine_input (eu_input U) e1 = Some (Inr (), e2)"
      by blast
    have ok2: "engine_ok e2"
      using engine_input_ok [OF ok1 a(3)] by blast
    obtain b e3 where av2: "encoder_available 16 (eu_after U) (ec_width c) (ec_height c) e2 = (b, e3)"
      by (cases "encoder_available 16 (eu_after U) (ec_width c) (ec_height c) e2")
    have ok3: "engine_ok e3"
      using encoder_available_ok [OF ok2 av2] by blast
    have "\<forall>f\<in>set before. ef_bytes f \<noteq> [] \<and> length (ef_bytes f) \<le> MAX_ENCODED_FRAME"
      using encoder_available_valid av a(1) by blast
    moreover have "b = Inr fs \<Longrightarrow> \<forall>f\<in>set fs. ef_bytes f \<noteq> [] \<and> length (ef_bytes f) \<le> MAX_ENCODED_FRAME" for fs
      using encoder_available_valid av2 by blast
    ultimately show ?thesis
      using assms EO_Encode av a av2 ok3 by (cases b) (auto simp: encoder_encode_def split: if_splits)
  next
    case False
    have inp: "engine_ok e2" if "engine_input (eu_input U) e1 = Some (r2, e2)" for r2 e2
      using engine_input_ok [OF ok1 that] by blast
    show ?thesis
      using assms EO_Encode av ok1 False inp
      by (cases a) (auto simp: encoder_encode_def split: if_splits sum.splits option.splits prod.splits)
  qed
qed

lemma encoder_run_ok:
  "engine_ok (ec_engine c) \<Longrightarrow> encoder_run ops c = Some (r, c') \<Longrightarrow> engine_ok (ec_engine c') \<and>
    (\<forall>fs. r = Inr fs \<longrightarrow> (\<forall>f\<in>set fs. ef_bytes f \<noteq> [] \<and> length (ef_bytes f) \<le> MAX_ENCODED_FRAME))"
proof (induction ops arbitrary: c r c')
  case (Cons op ops)
  obtain r1 c1 where step: "encoder_step op c = Some (r1, c1)"
    using Cons.prems(2) by (auto split: option.splits)
  note ok = encoder_step_ok [OF Cons.prems(1) step]
  show ?case
  proof (cases r1)
    case (Inl err)
    then show ?thesis
      using Cons.prems(2) step ok by auto
  next
    case (Inr fs)
    then obtain r2 c2 where rest: "encoder_run ops c1 = Some (r2, c2)"
      using Cons.prems(2) step by (auto split: option.splits)
    show ?thesis
      using Cons.IH [OF conjunct1 [OF ok] rest] Cons.prems(2) step rest Inr ok by (cases r2) auto
  qed
qed auto

lemma encoder_new_ok: "encoder_new w h fps bitrate prefer startup transforms = Inr c \<Longrightarrow> engine_ok (ec_engine c)"
  using engine_new_ok
  by (auto simp: encoder_new_def res_bind_def Let_def split: sum.splits option.splits if_splits prod.splits)


subsection \<open>The decoder's pictures\<close>

lemma size_roundtrip: "width < 2 ^ 32 \<Longrightarrow> height < 2 ^ 32 \<Longrightarrow> size_parts (frame_size width height) = (width, height)"
proof -
  assume w: "width < 2 ^ 32" and h: "height < 2 ^ 32"
  have u: "unat (word_of_nat width :: u64) = width" "unat (word_of_nat height :: u64) = height"
    using w h by (simp_all add: unat_of_nat)
  have w': "take_bit 32 width = width" and h': "take_bit 32 height = height" and z: "drop_bit 32 height = 0"
    using w h by (simp_all add: take_bit_eq_mod drop_bit_eq_div)
  have pd: "drop_bit 32 (push_bit 32 width) = width"
    by (simp add: push_bit_eq_mult drop_bit_eq_div)
  have "push_bit 32 width < 2 ^ 64"
    using w by (simp add: push_bit_eq_mult)
  then have s: "unat (frame_size width height) = push_bit 32 width OR height"
    by (simp add: frame_size_def unsigned_or_eq unsigned_push_bit_eq u take_bit_eq_mod)
  have "unat (drop_bit 32 (frame_size width height)) = width"
    by (simp add: unat_drop_bit_eq s drop_bit_or z pd)
  moreover have "unat (take_bit 32 (frame_size width height)) = height"
    by (simp add: unsigned_take_bit_eq s take_bit_or take_bit_push_bit h')
  ultimately show ?thesis
    by (simp add: size_parts_def)
qed

lemma length_rgba_row: "length (rgba_row y uv 0 width) = 4 * width"
  by (simp add: rgba_row_def length_concat rgba_pixel_def Let_def comp_def sum_list_triv)

lemma rgba_length:
  assumes "nv12_to_rgba_padded avx2 bs width height stride sh = Inr f"
  shows "df_width f = width \<and> df_height f = height \<and> length (df_rgba f) = 4 * width * height"
proof -
  have c: "width \<le> stride" "height \<le> sh" "even sh" "stride * sh * 3 div 2 \<le> length bs"
    using assms by (auto simp: nv12_to_rgba_padded_def res_bind_def even_iff_mod_2_eq_zero split: sum.splits if_splits)
  have row: "length (nv12_row avx2 bs width stride sh y) = 4 * width" if "y < height" for y
  proof -
    have "nv12_row avx2 bs width stride sh y = nv12_row False bs width stride sh y"
      using nv12_row_scalar [OF nv12_row_planes(1) [of width stride y sh bs]] that c by (cases avx2) auto
    then show ?thesis
      by (simp add: nv12_row_def Let_def length_rgba_row)
  qed
  have "map (length \<circ> nv12_row avx2 bs width stride sh) [0..<height] = map (\<lambda>_. 4 * width) [0..<height]"
    using row by auto
  then have "length (concat (map (nv12_row avx2 bs width stride sh) [0..<height])) = 4 * width * height"
    unfolding length_concat map_map by (simp only: sum_list_triv) simp
  then show ?thesis
    using assms by (auto simp: nv12_to_rgba_padded_def res_bind_def split: sum.splits if_splits)
qed

definition picture_of :: "nat \<Rightarrow> nat \<Rightarrow> decoded_frame \<Rightarrow> bool" where
  "picture_of width height f \<longleftrightarrow> df_width f = width \<and> df_height f = height \<and> length (df_rgba f) = 4 * width * height"

lemma decode_outputs_pictures:
  "decode_outputs avx2 n turns w h e = (Inr fs, e') \<Longrightarrow> length fs \<le> n \<and> list_all (picture_of w h) fs"
proof (induction n arbitrary: e fs e')
  case (Suc n)
  obtain q e1 where out: "engine_output (MAX_PIXELS * 4) (du_output (turns n)) e = (q, e1)"
    by (cases "engine_output (MAX_PIXELS * 4) (du_output (turns n)) e")
  obtain r2 e2 where rest: "decode_outputs avx2 n turns w h e1 = (r2, e2)"
    by (cases "decode_outputs avx2 n turns w h e1")
  show ?case
  proof (cases "r2 = Inr fs \<or> fs = []")
    case True
    then show ?thesis
      using Suc.IH [of e1 fs e2] rest by auto
  next
    case False
    then obtain bs stride sh f gs where "nv12_to_rgba_padded avx2 bs w h stride sh = Inr f" "r2 = Inr gs" "fs = f # gs"
      using Suc.prems out rest
      by (auto simp: Let_def res_bind_def map_err_def split: sum.splits option.splits if_splits codec_error.splits hresult.splits prod.splits)
    then show ?thesis
      using Suc.IH [of e1 gs e2] rest rgba_length by (auto simp: picture_of_def)
  qed
qed simp

lemma decode_outputs_ok:
  "engine_ok e \<Longrightarrow> decode_outputs avx2 n turns w h e = (r, e') \<Longrightarrow> engine_ok e'"
proof (induction n arbitrary: e r e')
  case (Suc n)
  obtain q e1 where out: "engine_output (MAX_PIXELS * 4) (du_output (turns n)) e = (q, e1)"
    by (cases "engine_output (MAX_PIXELS * 4) (du_output (turns n)) e")
  have ok: "engine_ok e1"
    using engine_output_ok [OF Suc.prems(1) out] by blast
  obtain r2 e2 where rest: "decode_outputs avx2 n turns w h e1 = (r2, e2)"
    by (cases "decode_outputs avx2 n turns w h e1")
  have "e' = e1 \<or> e' = e2"
    using Suc.prems(2) out rest
    by (auto simp: Let_def split: sum.splits option.splits if_splits codec_error.splits hresult.splits prod.splits)
  then show ?case
    using ok Suc.IH [OF ok rest] by auto
qed simp

text \<open>The decoder returns pictures of the announced size only. Whatever the transform returns, in whatever layout
  it stores its pictures: every picture that decoding one packet gives has exactly the width and the height
  that were announced and four bytes for each pixel, there are at most 16, and an asynchronous transform got
  no call it did not ask for.\<close>

theorem decoder_pictures:
  assumes "engine_ok (dc_engine d)" and "decoder_decode avx2 f sample_failure T turns d = Some (Inr fs, d')"
  shows "list_all (\<lambda>p. df_width p = dc_width d \<and> df_height p = dc_height d \<and>
      length (df_rgba p) = 4 * dc_width d * dc_height d) fs \<and> length fs \<le> 16 \<and> engine_ok (dc_engine d')"
proof -
  obtain e1 e2 where inp: "engine_input T (dc_engine d) = Some (Inr (), e1)"
    and out: "decode_outputs avx2 16 turns (dc_width d) (dc_height d) e1 = (Inr fs, e2)" and d': "dc_engine d' = e2"
    using assms(2) by (auto simp: decoder_decode_def split: if_splits sum.splits option.splits prod.splits)
  have "engine_ok e2"
    using decode_outputs_ok [OF conjunct1 [OF engine_input_ok [OF assms(1) inp]] out] .
  then show ?thesis
    using decode_outputs_pictures [OF out] d' by (simp add: picture_of_def [abs_def])
qed

text \<open>A layout that is accepted holds the whole picture, and no more than its macroblocks.\<close>

lemma align16_le: "n \<le> align16 n"
  unfolding align16_def by presburger

lemma decoder_layout_bounds:
  "decoder_layout m width height = Inr (w, h) \<Longrightarrow>
    width \<le> w \<and> height \<le> h \<and> w \<le> align16 width \<and> h \<le> align16 height \<and> is_ok (pixels w h)"
  using align16_le
  by (auto simp: decoder_layout_def res_bind_def map_err_def is_ok_iff split: sum.splits prod.splits if_splits)

text \<open>Waiting for input ends: with the input, or with an error once a clock is read after the deadline.\<close>

lemma await_input_ends: "list_ex (\<lambda>(evs, now). dl < now) turns \<Longrightarrow> await_input dl turns e \<noteq> None"
proof (induction turns arbitrary: e)
  case (Cons t turns)
  obtain evs now where t: "t = (evs, now)"
    by (cases t)
  obtain p e1 where p: "pump evs e = (p, e1)"
    by (cases "pump evs e")
  show ?case
    using Cons by (cases p) (auto simp: t p)
qed simp

subsection \<open>Concrete transforms\<close>

definition demo_turn :: "mft_event list \<Rightarrow> bytes \<Rightarrow> codec_turn" where
  "demo_turn evs bs = \<lparr>cu_output = \<lparr>ot_events = evs, ot_info = Inr (True, 0), ot_alloc = None,
     ot_process = Inr (Some \<lparr>ms_bytes = bs, ms_time = Inr 0, ms_clean = True\<rparr>)\<rparr>, cu_types = [], cu_copy = None\<rparr>"

text \<open>An asynchronous encoder that is drained and gives one packet.\<close>

definition demo_encoder :: encoder where
  "demo_encoder = \<lparr>ec_engine = engine_new True, ec_name = [], ec_hardware = False, ec_width = 2, ec_height = 2, ec_fps = 30\<rparr>"

definition demo_drain :: "encoder_op list" where
  "demo_drain = [EO_Drain None 0 [(\<lambda>n. if n = 15 then demo_turn [ME_HaveOutput] [1] else demo_turn [] [], 600)]]"

lemma demo_encoder_new: "encoder_new 2 2 30 200000 False None (\<lambda>_. Inr [Inr (True, [])]) = Inr demo_encoder"
  by (simp add: encoder_new_def encoder_check_def pixels_def MAX_WIDTH_def MAX_HEIGHT_def MAX_PIXELS_def demo_encoder_def Let_def)

lemma pump_nil [simp]: "pump_events n [] e = (Inr (), e)" "pump [] e = (Inr (), e)"
proof -
  show n: "pump_events n [] e = (Inr (), e)" for n
    by (cases n) simp_all
  show "pump [] e = (Inr (), e)"
    by (simp add: pump_def n)
qed

lemma pump_output: "en_async e \<Longrightarrow>
    pump [ME_HaveOutput] e = (Inr (), e\<lparr>en_output_ready := saturating_inc (en_output_ready e), en_had := en_had e + 1\<rparr>)"
proof -
  have "pump_events (Suc 127) [ME_HaveOutput] e =
      (Inr (), e\<lparr>en_output_ready := saturating_inc (en_output_ready e), en_had := en_had e + 1\<rparr>)"
    by (simp only: pump_events.simps pump_nil)
  then show "en_async e \<Longrightarrow> ?thesis"
    by (simp add: pump_def)
qed

lemma demo_drained:
  "encoder_run demo_drain demo_encoder = Some (Inr [\<lparr>ef_timestamp = 0, ef_keyframe = True, ef_bytes = [1]\<rparr>],
     demo_encoder\<lparr>ec_engine := (engine_new True)\<lparr>en_had := 1, en_outputs := 1\<rparr>\<rparr>)"
proof -
  define turns where "turns = (\<lambda>n :: nat. if n = 15 then demo_turn [ME_HaveOutput] [1] else demo_turn [] [])"
  define g where "g = (engine_new True)\<lparr>en_had := 1, en_outputs := 1\<rparr>"
  have turns: "turns 15 = demo_turn [ME_HaveOutput] [1]" "turns 14 = demo_turn [] []"
    by (simp_all add: turns_def)
  have "engine_output MAX_ENCODED_FRAME (cu_output (turns 15)) (engine_new True) =
      (Inr (Some \<lparr>ms_bytes = [1], ms_time = Inr 0, ms_clean = True\<rparr>), g)"
    by (simp add: engine_output_def pump_output demo_turn_def engine_new_def saturating_inc_def turns g_def)
  moreover have "engine_output MAX_ENCODED_FRAME (cu_output (turns 14)) g = (Inr None, g)"
    by (simp add: engine_output_def demo_turn_def engine_new_def g_def turns)
  then have "encoder_available (Suc 14) turns 2 2 g = (Inr [], g)"
    by (subst encoder_available.simps) (simp add: Let_def)
  ultimately have "encoder_available (Suc 15) turns 2 2 (engine_new True) =
      (Inr [\<lparr>ef_timestamp = 0, ef_keyframe = True, ef_bytes = [1]\<rparr>], g)"
    by (subst encoder_available.simps) (simp add: Let_def turns demo_turn_def sample_bytes_def MAX_ENCODED_FRAME_def)
  then have "drain_loop 500 [(turns, 600)] 2 2 (engine_new True) =
      Some (Inr [\<lparr>ef_timestamp = 0, ef_keyframe = True, ef_bytes = [1]\<rparr>], g)"
    by simp
  then show ?thesis
    by (simp add: demo_drain_def demo_encoder_def encoder_drain_def turns_def g_def)
qed


definition demo_decoder :: decoder where
  "demo_decoder = \<lparr>dc_engine = engine_new False, dc_width = 2, dc_height = 2, dc_fps = 30\<rparr>"

definition demo_nv12 :: media_type where
  "demo_nv12 = \<lparr>my_subtype = Inr ST_NV12, my_size = Inr (frame_size 2 2), my_apertures = [], my_stride = None, my_set = None\<rparr>"

text \<open>A synchronous decoder: one packet gives one picture.\<close>

definition demo_decode :: "nat \<Rightarrow> decode_turn" where
  "demo_decode n = \<lparr>du_output = \<lparr>ot_events = [], ot_info = Inr (True, 0), ot_alloc = None,
     ot_process = (if n = 15 then Inr (Some \<lparr>ms_bytes = replicate 6 128, ms_time = Inr 0, ms_clean = True\<rparr>) else Inl HR_NeedMoreInput)\<rparr>,
     du_types = [], du_current = Inr demo_nv12, du_copy = None\<rparr>"

lemma demo_decoded:
  "\<exists>p d. decoder_decode False \<lparr>ef_timestamp = 0, ef_keyframe = True, ef_bytes = [1]\<rparr> None
     \<lparr>it_start = 0, it_turns = [], it_process = None\<rparr> demo_decode demo_decoder = Some (Inr [p], d)"
proof -
  have px: "is_ok (pixels 2 2)"
    by (simp add: pixels_def MAX_WIDTH_def MAX_HEIGHT_def MAX_PIXELS_def)
  then obtain k where k: "pixels 2 2 = Inr k"
    by (auto simp: is_ok_iff)
  have layout: "decoder_layout demo_nv12 2 2 = Inr (2, 2)"
    using size_roundtrip [of 2 2] by (simp add: decoder_layout_def demo_nv12_def k)
  obtain p where p: "nv12_to_rgba_padded False (replicate 6 128) 2 2 2 2 = Inr p"
    by (auto simp: nv12_to_rgba_padded_def k MAX_WIDTH_def MAX_HEIGHT_def)
  have "decode_outputs False (Suc 14) demo_decode 2 2 (e\<lparr>en_outputs := m\<rparr>) = (Inr [], e\<lparr>en_outputs := m + 1\<rparr>)"
    if "\<not> en_async e" for e m
    using that by (subst decode_outputs.simps) (simp add: demo_decode_def engine_output_def pump_def)
  then have "decode_outputs False (Suc 15) demo_decode 2 2 (e\<lparr>en_outputs := m\<rparr>) = (Inr [p], e\<lparr>en_outputs := m + 2\<rparr>)"
    if "\<not> en_async e" for e m
    using that p layout
    by (subst decode_outputs.simps) (simp add: demo_decode_def engine_output_def pump_def sample_bytes_def MAX_PIXELS_def demo_nv12_def)
  from this [of "(engine_new False)\<lparr>en_inputs := 1\<rparr>" 0] show ?thesis
    by (simp add: decoder_decode_def sample_new_def MAX_ENCODED_FRAME_def MAX_PIXELS_def engine_input_def demo_decoder_def engine_new_def)
qed

lemma decoder_pictures_witness: "\<exists>p :: decoded_frame. df_width p = 2 \<and> df_height p = 2 \<and> length (df_rgba p) = 16"
proof -
  obtain p d where d: "decoder_decode False \<lparr>ef_timestamp = 0, ef_keyframe = True, ef_bytes = [1]\<rparr> None
     \<lparr>it_start = 0, it_turns = [], it_process = None\<rparr> demo_decode demo_decoder = Some (Inr [p], d)"
    using demo_decoded by blast
  have "engine_ok (dc_engine demo_decoder)"
    by (simp add: demo_decoder_def engine_new_ok)
  from decoder_pictures [OF this d] show ?thesis
    by (auto simp: demo_decoder_def)
qed

end
