(* ===== verification/Spec2Isabelle.thy ===== *)
theory Spec2Isabelle
  imports Sensor_Core Sensor_Permissions Sensor_Transport Sensor_Session Sensor_Connection Sensor_Establish Sensor_Files Sensor_Media
    Sensor_Pixels Sensor_Adaptive Sensor_Flight Sensor_Render Sensor_Rendezvous Sensor_RelayPair
    Sensor_Audit Sensor_Identity Sensor_Client Sensor_Settings Sensor_Unattended Sensor_Updates Sensor_Input
    Sensor_Control Sensor_Reader Sensor_Host Sensor_Viewer Sensor_Relay Sensor_Slots Sensor_Front Sensor_Dial Sensor_Worker Sensor_Window Sensor_Viewport Sensor_Mft
begin

text \<open>
  SENSOR is a remote-access program in Rust: two devices with long-term Ed25519 identities build an
  authenticated, encrypted channel, directly over TCP, through a relay, or through a rendezvous
  server, and use it for chat, file transfer and remote desktop. The library models the crates under
  src/crates; every definition with a source comment translates the lines it names.

  Parts and theories, in the order of the code:

  \<^item> \<open>Sensor_Prelude\<close> errors as sums, machine integers, big-endian bytes, UTF-8 strings, hexadecimal
    and number parsing as the standard library does them; \<open>Sensor_Float\<close> binary64 rounding.
  \<^item> \<open>Sensor_Core\<close> (sensor-core) device IDs and aliases.
  \<^item> \<open>Sensor_Crypto\<close> (sensor-crypto) keys, key schedule and the ordered record channel. The
    primitives are the record \<open>crypto_lib\<close>; \<open>sign_laws\<close>, \<open>aead_laws\<close>, \<open>aead_tidy\<close>, \<open>kdf_laws\<close> and
    \<open>dh_laws\<close> state what the code relies on. The locale \<open>secure_stream\<close> is the contract of a channel
    (a peer opens what was sealed, in order, and nothing else), interpreted on the channel and on the
    session.
  \<^item> \<open>Sensor_Codec\<close>, \<open>Sensor_Protocol\<close> (sensor-protocol) the serializer as a parameter, frames, hello
    messages and the handshake transcript.
  \<^item> \<open>Sensor_Session\<close>, \<open>Sensor_Permissions\<close> (sensor-session) the handshake and the consent state
    machine.
  \<^item> \<open>Sensor_Transport\<close>, \<open>Sensor_Connection\<close> (sensor-transport) incremental framing, and a connection
    over a TCP socket, which is the script of what its calls return.
  \<^item> \<open>Sensor_Files\<close> (sensor-files) resumable verified transfers over a file system with inodes, locks
    and injected faults.
  \<^item> \<open>Sensor_Media\<close>, \<open>Sensor_Pixels\<close>, \<open>Sensor_Adaptive\<close>, \<open>Sensor_Flight\<close> (sensor-media) messages and
    frame reassembly, pixel transforms with their AVX2 version, the rate controller and the flight
    window.
  \<^item> \<open>Sensor_Render\<close> (sensor-render) a device's side of the rendezvous: signed registration, waiting
    for a peer, and the byte bridge.
  \<^item> \<open>Sensor_Rendezvous\<close>, \<open>Sensor_RelayPair\<close> (sensor-rendezvous) the server: directory, registration,
    tokens, the endpoint loop and the system of all connections; the paced relay of a pair.
  \<^item> \<open>Sensor_Establish\<close> both ends of a connection, turn by turn, until both have a session.
  \<^item> \<open>Sensor_Slots\<close>, \<open>Sensor_Front\<close> (sensor-rendezvous) the bound on concurrent connections, and the HTTP
    front of the server: peeking a request, its path, look-up and health.
  \<^item> \<open>Sensor_Dial\<close> (sensor-render) name resolution by a bounded number of workers, and the retrying dial.
  \<^item> \<open>Sensor_Relay\<close> (sensor-relay) the provisioned relay of exactly two known keys.
  \<^item> \<open>Sensor_Identity\<close>, \<open>Sensor_Store\<close> (sensor-identity) the identity of a device and its protected store.
  \<^item> \<open>Sensor_Audit\<close> (sensor-audit) the hash-chained log.
  \<^item> \<open>Sensor_Client\<close> (sensor-client) the two ends of an endpoint session: chat and file transfer.
  \<^item> \<open>Sensor_Settings\<close>, \<open>Sensor_Unattended\<close>, \<open>Sensor_Updates\<close> (sensor-desktop) contacts, typed peers and
    network settings, the unattended grant, signed updates.
  \<^item> \<open>Sensor_Input\<close> (sensor-windows, sensor-desktop) injected input, typed text and the clipboard rules.
  \<^item> \<open>Sensor_Control\<close>, \<open>Sensor_Reader\<close>, \<open>Sensor_Host\<close>, \<open>Sensor_Viewer\<close>, \<open>Sensor_Worker\<close> (sensor-desktop,
    worker.rs) the control block a session shares with the window, the thread that reads on the host, the
    loop that sends the screen, the loop that receives it, and how a task admits a peer and runs.
  \<^item> \<open>Sensor_Window\<close>, \<open>Sensor_Viewport\<close> (sensor-desktop, ui.rs and remote_input.rs) the state of the window
    with every action of the user and every event of a worker as a step, and the input that a frame of the
    viewport sends to the remote desktop.
  \<^item> \<open>Sensor_Mft\<close> (sensor-windows, codec.rs) the H.264 encoder and decoder over a scripted transform.

  How the parts interact: \<open>Sensor_Connection\<close> runs the handshake of \<open>Sensor_Session\<close> in frames of
  \<open>Sensor_Protocol\<close> and then seals every message with the channel of \<open>Sensor_Crypto\<close>; the file and
  desktop messages are its payloads, guarded by a \<open>Consent\<close> of \<open>Sensor_Permissions\<close>. A task of
  \<open>Sensor_Worker\<close> opens such a connection by any of the routes, asks for consent, and runs
  \<open>Sensor_Client\<close> or the host and viewer loops over it. The bridge of
  \<open>Sensor_Render\<close> carries the bytes of such a connection in WebSocket messages, which
  \<open>Sensor_RelayPair\<close> forwards unchanged.

  What the lemmas show. Security: the handshake agrees on keys, roles and identities, records are
  accepted only in order and only as sealed, consent never exceeds the request, a registration
  signature binds the whole registration, and the server introduces authenticated devices only and
  each registration once. Function: messages are delivered, transfers resume and publish exactly the
  announced bytes, frames and pixels round-trip, bridge and relay lose nothing. Bounds: buffers,
  rates, dimensions and windows stay in range and no checked addition overflows. Consent: a peer is
  served only when it is the chosen one or the user or a grant said yes in time, input reaches the desktop
  only with permission and is released at the end, and after Stop nothing starts by itself. Composition:
  what a host sends never makes a viewer fail, and what a viewport sends never makes a host fail.

  Conventions: an \<open>Err\<close> is \<open>Inl\<close>; a panic of checked arithmetic is \<open>None\<close>; random draws, clocks and
  the results of system and socket calls are inputs. Polling loops recurse over the list of their
  turns, so a loop that is still running has no result; liveness is stated as: with enough turns the
  result exists. Other loops are structural or carry a termination proof; \<open>device_id_generate\<close> is a
  partial function, as its loop ends only with a good draw.

  Not modelled: the serializers, cryptographic primitives, WebSocket, JSON and URL libraries (parameters);
  the drawing of the window (layout, colours, labels, statistics and the diagnostics page of ui.rs), whose
  geometry is the toolkit's; the bindings to Win32, DXGI, Media Foundation and DPAPI (the capture of
  desktop.rs, the set-up and the release of transforms in codec.rs, dpapi.rs, startup.rs), whose behaviour
  is that of the system they call; process start, threads and command lines (the main.rs files); examples,
  tests and build scripts.
\<close>

end
